(* ===== verification/NP_Prelude.thy ===== *)
theory NP_Prelude
  imports Main "HOL-Library.Word" "HOL-Library.AList" "HOL-Library.Char_ord"
    "HOL-Library.List_Lexorder"
begin

text \<open>
  Types, collections and generic lemmas that every component shares.
  Go strings and byte slices are both lists of 8-bit characters; \<open>int64\<close> and
  \<open>uint64\<close> values are 64-bit words (read with \<open>sint\<close> and \<open>unat\<close>);
  a \<open>time.Duration\<close> is an integer number of nanoseconds. A Go function with an
  error result returns a sum, the error on the left.
\<close>

type_synonym bytes = "char list"
type_synonym int64 = "64 word"
type_synonym uint64 = "64 word"
type_synonym duration = int

named_theorems frame_simps \<open>fields an operation leaves alone\<close>
named_theorems inv_intros \<open>operations preserve their invariant\<close>

abbreviation second :: duration where "second \<equiv> 1000000000"
abbreviation minute :: duration where "minute \<equiv> 60000000000"
abbreviation hour :: duration where "hour \<equiv> 3600000000000"

text \<open>What \<open>encoding/json\<close> makes of a text: a value of the expected type followed by
  the end of the input, the same followed by another JSON value, the same followed by bytes
  that are not JSON, or no such value at all (syntax, type or unknown-field error).\<close>

datatype 'a json_doc = JsonDoc 'a | JsonTrailing 'a | JsonGarbage 'a | JsonBad

record 'a json_text =
  text_len :: nat
  text_doc :: "'a json_doc"

subsection \<open>Machine integers\<close>

lemma unat64_bound: "unat (x :: 64 word) < 2 ^ 64"
proof -
  have "unat x < 2 ^ LENGTH(64)" by (rule unsigned_less)
  then show ?thesis by simp
qed

lemma sint64_bounds: "- (2 ^ 63) \<le> sint (x :: 64 word)" "sint (x :: 64 word) < 2 ^ 63"
  using sint_greater_eq [of x] sint_less [of x] by simp_all

lemma sint64_of_int: "- (2 ^ 63) \<le> i \<Longrightarrow> i < 2 ^ 63 \<Longrightarrow> sint (word_of_int i :: 64 word) = i"
  by (simp add: sint_sbintrunc' signed_take_bit_int_eq_self)

text \<open>Sums and differences of signed words that stay in range.\<close>

lemma sint64_plus:
  fixes a b :: int64
  shows "- (2 ^ 63) \<le> sint a + sint b \<Longrightarrow> sint a + sint b < 2 ^ 63 \<Longrightarrow> sint (a + b) = sint a + sint b"
  by (simp add: sint_word_add signed_take_bit_int_eq_self)

lemma sint64_minus:
  fixes a b :: int64
  shows "- (2 ^ 63) \<le> sint a - sint b \<Longrightarrow> sint a - sint b < 2 ^ 63 \<Longrightarrow> sint (a - b) = sint a - sint b"
  by (simp add: sint_word_diff signed_take_bit_int_eq_self)

subsection \<open>Association lists\<close>

lemma map_of_update [simp]: "map_of (AList.update k v al) = (map_of al)(k \<mapsto> v)"
  by (simp add: AList.update_conv')

lemma map_of_delete [simp]: "map_of (AList.delete k al) = (map_of al)(k := None)"
  by (simp add: AList.delete_conv')

lemma distinct_fst_update [intro, simp]:
  "distinct (map fst al) \<Longrightarrow> distinct (map fst (AList.update k v al))"
  by (rule AList.distinct_update)

lemma distinct_fst_delete [intro, simp]:
  "distinct (map fst al) \<Longrightarrow> distinct (map fst (AList.delete k al))"
  by (rule AList.distinct_delete)

lemma map_of_sort_key [simp]:
  fixes al :: "('k::linorder \<times> 'v) list"
  assumes "distinct (map fst al)"
  shows "map_of (sort_key fst al) = map_of al"
proof -
  have "distinct (map fst (sort_key fst al))"
    using assms by (simp add: distinct_map)
  then show ?thesis
    using assms by (intro map_of_eqI) (auto simp: map_of_eq_Some_iff)
qed

subsection \<open>Lists\<close>

lemma sorted_key_append_iff:
  "sorted (map f (xs @ ys)) \<longleftrightarrow>
     sorted (map f xs) \<and> sorted (map f ys) \<and> (\<forall>x\<in>set xs. \<forall>y\<in>set ys. f x \<le> f y)"
  by (auto simp: sorted_append)

lemma sort_key_snoc_max:
  assumes "sorted (map f xs)" and "\<And>y. y \<in> set xs \<Longrightarrow> f y \<le> f x"
  shows "sort_key f (xs @ [x]) = xs @ [x]"
  using assms by (intro sort_key_id_if_sorted) (simp add: sorted_append)

lemma sum_list_drop_le: "sum_list (drop n xs) \<le> sum_list (xs :: nat list)"
  by (metis append_take_drop_id le_add2 sum_list_append)

lemma find_Some_in: "find P xs = Some x \<Longrightarrow> x \<in> set xs \<and> P x"
  by (auto simp: find_Some_iff)

lemma find_None_all: "find P xs = None \<longleftrightarrow> (\<forall>x\<in>set xs. \<not> P x)"
  by (auto simp: find_None_iff)

lemma map_update_same: "f r = f (xs ! i) \<Longrightarrow> map f (xs[i := r]) = map f xs"
  by (metis list_update_id map_update)

end
