(* ===== verification/GoStrings.thy ===== *)
theory GoStrings
  imports NP_Prelude
begin

text \<open>
  The functions of Go's packages \<open>strings\<close>, \<open>strconv\<close> and \<open>path/filepath\<close>
  that the sources use, on byte strings. White space is the ASCII white space of
  \<open>unicode.IsSpace\<close>; the two Latin-1 spaces U+0085 and U+00A0 are left out.
\<close>

subsection \<open>Characters\<close>

definition is_space :: "char \<Rightarrow> bool" where
  "is_space c \<longleftrightarrow> c = CHR '' '' \<or> c = CHR 0x09 \<or> c = CHR 0x0A \<or> c = CHR 0x0B \<or>
     c = CHR 0x0C \<or> c = CHR 0x0D"

definition is_digit :: "char \<Rightarrow> bool" where
  "is_digit c \<longleftrightarrow> (of_char CHR ''0'' :: nat) \<le> of_char c \<and> (of_char c :: nat) \<le> of_char CHR ''9''"

definition is_lower_hex :: "char \<Rightarrow> bool" where
  "is_lower_hex c \<longleftrightarrow> is_digit c \<or>
     ((of_char CHR ''a'' :: nat) \<le> of_char c \<and> (of_char c :: nat) \<le> of_char CHR ''f'')"

definition lower_char :: "char \<Rightarrow> char" where
  "lower_char c = (let n = (of_char c :: nat) in if 65 \<le> n \<and> n \<le> 90 then char_of (n + 32) else c)"

definition to_lower :: "bytes \<Rightarrow> bytes" where
  "to_lower s = map lower_char s"

definition equal_fold :: "bytes \<Rightarrow> bytes \<Rightarrow> bool" where
  "equal_fold a b \<longleftrightarrow> to_lower a = to_lower b"

subsection \<open>Searching and cutting\<close>

definition has_prefix :: "bytes \<Rightarrow> bytes \<Rightarrow> bool" where
  "has_prefix s p \<longleftrightarrow> take (length p) s = p"

definition has_suffix :: "bytes \<Rightarrow> bytes \<Rightarrow> bool" where
  "has_suffix s p \<longleftrightarrow> has_prefix (rev s) (rev p)"

definition trim_prefix :: "bytes \<Rightarrow> bytes \<Rightarrow> bytes" where
  "trim_prefix s p = (if has_prefix s p then drop (length p) s else s)"

definition trim_suffix :: "bytes \<Rightarrow> bytes \<Rightarrow> bytes" where
  "trim_suffix s p = (if has_suffix s p then take (length s - length p) s else s)"

definition cut_prefix :: "bytes \<Rightarrow> bytes \<Rightarrow> bytes option" where
  "cut_prefix s p = (if has_prefix s p then Some (drop (length p) s) else None)"

fun index_sub :: "bytes \<Rightarrow> bytes \<Rightarrow> nat option" where
  "index_sub [] p = (if p = [] then Some 0 else None)"
| "index_sub (c # s) p =
     (if has_prefix (c # s) p then Some 0 else map_option Suc (index_sub s p))"

definition contains_sub :: "bytes \<Rightarrow> bytes \<Rightarrow> bool" where
  "contains_sub s p \<longleftrightarrow> index_sub s p \<noteq> None"

definition contains_any :: "bytes \<Rightarrow> bytes \<Rightarrow> bool" where
  "contains_any s cs \<longleftrightarrow> list_ex (\<lambda>c. List.member cs c) s"

fun index_any :: "bytes \<Rightarrow> bytes \<Rightarrow> nat option" where
  "index_any [] cs = None"
| "index_any (c # s) cs = (if List.member cs c then Some 0 else map_option Suc (index_any s cs))"

fun last_index_char :: "char \<Rightarrow> bytes \<Rightarrow> nat option" where
  "last_index_char c [] = None"
| "last_index_char c (x # s) =
     (case last_index_char c s of Some i \<Rightarrow> Some (Suc i)
      | None \<Rightarrow> if x = c then Some 0 else None)"

definition cut_char :: "char \<Rightarrow> bytes \<Rightarrow> (bytes \<times> bytes) option" where
  "cut_char c s =
     (case dropWhile (\<lambda>x. x \<noteq> c) s of [] \<Rightarrow> None
      | _ # rest \<Rightarrow> Some (takeWhile (\<lambda>x. x \<noteq> c) s, rest))"

definition trim_space :: "bytes \<Rightarrow> bytes" where
  "trim_space s = rev (dropWhile is_space (rev (dropWhile is_space s)))"

definition trim_left :: "bytes \<Rightarrow> bytes \<Rightarrow> bytes" where
  "trim_left s cs = dropWhile (List.member cs) s"

definition trim_right :: "bytes \<Rightarrow> bytes \<Rightarrow> bytes" where
  "trim_right s cs = rev (dropWhile (List.member cs) (rev s))"

subsection \<open>Splitting and joining\<close>

fun split_pred :: "(char \<Rightarrow> bool) \<Rightarrow> bytes \<Rightarrow> bytes list" where
  "split_pred p [] = [[]]"
| "split_pred p (c # s) =
     (if p c then [] # split_pred p s
      else case split_pred p s of [] \<Rightarrow> [[c]] | w # ws \<Rightarrow> (c # w) # ws)"

definition split_char :: "char \<Rightarrow> bytes \<Rightarrow> bytes list" where
  "split_char c s = split_pred (\<lambda>x. x = c) s"

definition fields :: "bytes \<Rightarrow> bytes list" where
  "fields s = filter (\<lambda>w. w \<noteq> []) (split_pred is_space s)"

fun split_sub :: "bytes \<Rightarrow> bytes \<Rightarrow> bytes list" where
  "split_sub sep s =
     (if sep = [] \<or> s = [] then [s]
      else if has_prefix s sep then [] # split_sub sep (drop (length sep) s)
      else case split_sub sep (tl s) of [] \<Rightarrow> [s] | w # ws \<Rightarrow> (hd s # w) # ws)"

declare split_sub.simps [simp del]

fun join :: "bytes \<Rightarrow> bytes list \<Rightarrow> bytes" where
  "join sep [] = []"
| "join sep [w] = w"
| "join sep (w # ws) = w @ sep @ join sep ws"

lemma split_pred_ne [simp]: "split_pred p s \<noteq> []"
  by (cases s) (auto split: list.splits)

lemma split_pred_no: "\<forall>c\<in>set s. \<not> p c \<Longrightarrow> split_pred p s = [s]"
  by (induction s) auto

lemma split_pred_append_sep:
  "\<forall>c\<in>set w. \<not> p c \<Longrightarrow> p c \<Longrightarrow> split_pred p (w @ c # s) = w # split_pred p s"
  by (induction w) auto

lemma split_join:
  "ws \<noteq> [] \<Longrightarrow> \<forall>w\<in>set ws. c \<notin> set w \<Longrightarrow> split_char c (join [c] ws) = ws"
proof (induction "[c]" ws rule: join.induct)
  case (2 w)
  then show ?case by (auto simp: split_char_def intro: split_pred_no)
next
  case (3 w v ws)
  then have "split_char c (join [c] (v # ws)) = v # ws" by simp
  with 3 show ?case
    by (simp add: split_char_def, subst split_pred_append_sep) auto
qed simp

subsection \<open>Numbers\<close>

datatype num_error = ErrSyntax | ErrRange

definition digit_value :: "char \<Rightarrow> nat option" where
  "digit_value c =
     (let n = (of_char c :: nat) in
      if 48 \<le> n \<and> n \<le> 57 then Some (n - 48)
      else if 97 \<le> n \<and> n \<le> 122 then Some (n - 87)
      else if 65 \<le> n \<and> n \<le> 90 then Some (n - 55)
      else None)"

text \<open>The digit loop of \<open>strconv.ParseUint\<close>: an overflow stops it at once, with the
  largest value of the width and a range error; a wrong digit stops it with 0.\<close>

fun parse_uint_loop :: "nat \<Rightarrow> nat \<Rightarrow> nat \<Rightarrow> bytes \<Rightarrow> nat \<times> num_error option" where
  "parse_uint_loop base mx n [] = (n, None)"
| "parse_uint_loop base mx n (c # s) =
     (case digit_value c of
        None \<Rightarrow> (0, Some ErrSyntax)
      | Some d \<Rightarrow>
          if base \<le> d then (0, Some ErrSyntax)
          else if mx < n * base + d then (mx, Some ErrRange)
          else parse_uint_loop base mx (n * base + d) s)"

definition parse_uint :: "bytes \<Rightarrow> nat \<Rightarrow> nat \<Rightarrow> nat \<times> num_error option" where
  "parse_uint s base bits =
     (if s = [] then (0, Some ErrSyntax) else parse_uint_loop base (2 ^ bits - 1) 0 s)"

text \<open>\<open>strconv.Atoi\<close> on 64-bit integers: an optional sign, then the unsigned loop, with
  the range error of \<open>ParseInt\<close> (which keeps the bound as the value).\<close>

definition atoi :: "bytes \<Rightarrow> int \<times> num_error option" where
  "atoi s =
     (if s = [] then (0, Some ErrSyntax)
      else
        let neg = (hd s = CHR ''-'');
            body = (if hd s = CHR ''-'' \<or> hd s = CHR ''+'' then tl s else s)
        in case parse_uint body 10 64 of
             (_, Some ErrSyntax) \<Rightarrow> (0, Some ErrSyntax)
           | (n, err) \<Rightarrow>
               if \<not> neg \<and> 2 ^ 63 \<le> n then (2 ^ 63 - 1, Some ErrRange)
               else if neg \<and> 2 ^ 63 < n then (- (2 ^ 63), Some ErrRange)
               else if neg then (- int n, None) else (int n, None))"

fun dec_digits :: "nat \<Rightarrow> bytes" where
  "dec_digits n =
     (if n < 10 then [char_of (n + 48)] else dec_digits (n div 10) @ [char_of (n mod 10 + 48)])"

declare dec_digits.simps [simp del]

lemma parse_uint_loop_bound:
  "n \<le> mx \<Longrightarrow> parse_uint_loop base mx n s = (v, e) \<Longrightarrow> v \<le> mx"
  by (induction base mx n s rule: parse_uint_loop.induct)
     (auto split: option.splits if_splits)

lemma parse_uint_bound: "parse_uint s base bits = (v, e) \<Longrightarrow> v < 2 ^ bits"
proof -
  assume "parse_uint s base bits = (v, e)"
  then have "v \<le> 2 ^ bits - 1"
    by (auto simp: parse_uint_def split: if_splits dest: parse_uint_loop_bound [rotated])
  moreover have "(0::nat) < 2 ^ bits" by simp
  ultimately show ?thesis by linarith
qed

lemma digit_value_digit [simp]: "d < 10 \<Longrightarrow> digit_value (char_of (d + 48)) = Some d"
  by (simp add: digit_value_def Let_def)

lemma parse_uint_loop_snoc:
  assumes "parse_uint_loop 10 mx n s = (v, None)" and "d < 10"
  shows "parse_uint_loop 10 mx n (s @ [char_of (d + 48)]) =
    (if mx < v * 10 + d then (mx, Some ErrRange) else (v * 10 + d, None))"
  using assms
  by (induction "10::nat" mx n s rule: parse_uint_loop.induct)
     (auto split: option.splits if_splits)

lemma dec_digits_ne [simp]: "dec_digits n \<noteq> []"
  by (subst dec_digits.simps) simp

lemma parse_dec_digits: "n < 2 ^ bits \<Longrightarrow> parse_uint (dec_digits n) 10 bits = (n, None)"
proof -
  assume "n < 2 ^ bits"
  then have "n \<le> 2 ^ bits - 1" by simp
  then have "parse_uint_loop 10 (2 ^ bits - 1) 0 (dec_digits n) = (n, None)"
  proof (induction n rule: dec_digits.induct)
    case (1 n)
    show ?case
    proof (cases "n < 10")
      case True
      then show ?thesis using 1 by (subst dec_digits.simps) simp
    next
      case False
      then have "parse_uint_loop 10 (2 ^ bits - 1) 0 (dec_digits (n div 10)) = (n div 10, None)"
        using 1 by simp
      from parse_uint_loop_snoc [OF this, of "n mod 10"] False 1 show ?thesis
        by (subst dec_digits.simps) (simp add: linorder_not_less)
    qed
  qed
  then show ?thesis by (simp add: parse_uint_def)
qed

lemma is_digit_char_of: "(d :: nat) < 10 \<Longrightarrow> is_digit (char_of (d + 48))"
  by (simp add: is_digit_def)

lemma dec_digits_digits: "\<forall>c\<in>set (dec_digits n). is_digit c"
proof (induction n rule: dec_digits.induct)
  case (1 n)
  then show ?case by (subst dec_digits.simps) (auto simp: is_digit_char_of)
qed

lemma dec_digits_inject [simp]: "dec_digits m = dec_digits n \<longleftrightarrow> m = n"
proof
  assume e: "dec_digits m = dec_digits n"
  have small: "k < 2 ^ Suc (m + n)" if "k \<le> m + n" for k
  proof -
    have "m + n < 2 ^ (m + n)" by (rule less_exp)
    moreover have "(2::nat) ^ (m + n) \<le> 2 ^ Suc (m + n)" by simp
    ultimately show ?thesis using that by linarith
  qed
  have "parse_uint (dec_digits m) 10 (Suc (m + n)) = (m, None)" by (rule parse_dec_digits, rule small) simp
  moreover have "parse_uint (dec_digits n) 10 (Suc (m + n)) = (n, None)" by (rule parse_dec_digits, rule small) simp
  ultimately show "m = n" unfolding e by simp
qed simp

lemma dec_digits_no_dot: "CHR ''.'' \<notin> set (dec_digits n)"
  using dec_digits_digits [of n] by (auto simp: is_digit_def)

subsection \<open>Paths\<close>

text \<open>\<open>filepath.Base\<close>: trailing separators are dropped, then everything up to the last
  separator; an empty path is ".", a path of separators only is "/".\<close>

definition path_base :: "bytes \<Rightarrow> bytes" where
  "path_base p =
     (if p = [] then ''.''
      else let q = rev (dropWhile (\<lambda>c. c = CHR ''/'') (rev p)) in
           if q = [] then ''/'' else rev (takeWhile (\<lambda>c. c \<noteq> CHR ''/'') (rev q)))"

lemma path_base_plain:
  assumes "p \<noteq> []" and "CHR ''/'' \<notin> set p"
  shows "path_base p = p"
proof -
  have "dropWhile (\<lambda>c. c = CHR ''/'') (rev p) = rev p"
    using assms by (cases p rule: rev_cases) auto
  moreover have "takeWhile (\<lambda>c. c \<noteq> CHR ''/'') (rev p) = rev p"
    using assms by (intro takeWhile_eq_all_conv [THEN iffD2]) auto
  ultimately show ?thesis using assms by (simp add: path_base_def del: takeWhile_eq_all_conv)
qed

end
