(* ===== verification/GoEncoding.thy ===== *)
theory GoEncoding
  imports GoStrings
begin

text \<open>
  The encodings of Go's \<open>encoding/binary\<close> (big endian), \<open>encoding/hex\<close> and
  \<open>encoding/base64\<close> (\<open>StdEncoding\<close>) that the sources use, with their round trips.
\<close>

subsection \<open>Big-endian integers\<close>

fun be_bytes :: "nat \<Rightarrow> nat \<Rightarrow> bytes" where
  "be_bytes 0 n = []"
| "be_bytes (Suc k) n = be_bytes k (n div 256) @ [char_of n]"

fun be_value :: "bytes \<Rightarrow> nat" where
  "be_value s = foldl (\<lambda>n c. n * 256 + of_char c) 0 s"

lemma length_be_bytes [simp]: "length (be_bytes k n) = k"
  by (induction k n rule: be_bytes.induct) auto

lemma be_value_snoc: "be_value (s @ [c]) = be_value s * 256 + of_char c"
  by simp

lemma be_value_bytes: "n < 256 ^ k \<Longrightarrow> be_value (be_bytes k n) = n"
proof (induction k n rule: be_bytes.induct)
  case (2 k n)
  then have "n div 256 < 256 ^ k"
    by (simp add: less_mult_imp_div_less mult.commute)
  with 2 show ?case
    by (simp only: be_bytes.simps be_value_snoc) simp
qed simp

lemma be_bytes_inject:
  "be_bytes k m = be_bytes k n \<Longrightarrow> m < 256 ^ k \<Longrightarrow> n < 256 ^ k \<Longrightarrow> m = n"
  by (metis be_value_bytes)

subsection \<open>Hexadecimal\<close>

definition hex_digit :: "nat \<Rightarrow> char" where
  "hex_digit d = (if d < 10 then char_of (d + 48) else char_of (d + 87))"

definition hex_encode :: "bytes \<Rightarrow> bytes" where
  "hex_encode s = concat (map (\<lambda>c. [hex_digit (of_char c div 16), hex_digit (of_char c mod 16)]) s)"

definition hex_value :: "char \<Rightarrow> nat option" where
  "hex_value c = (case digit_value c of Some d \<Rightarrow> if d < 16 then Some d else None | None \<Rightarrow> None)"

fun hex_decode :: "bytes \<Rightarrow> bytes option" where
  "hex_decode [] = Some []"
| "hex_decode [c] = None"
| "hex_decode (a # b # s) =
     (case (hex_value a, hex_value b, hex_decode s) of
        (Some x, Some y, Some t) \<Rightarrow> Some (char_of (x * 16 + y) # t)
      | _ \<Rightarrow> None)"

lemma hex_value_digit [simp]: "d < 16 \<Longrightarrow> hex_value (hex_digit d) = Some d"
  by (auto simp: hex_value_def hex_digit_def digit_value_def Let_def)

lemma hex_decode_encode [simp]: "hex_decode (hex_encode s) = Some s"
proof (induction s)
  case Nil
  show ?case by (simp add: hex_encode_def)
next
  case (Cons c s)
  have "(of_char c :: nat) < 256"
    by simp
  then have "(of_char c :: nat) div 16 < 16" by (simp add: div_less_iff_less_mult)
  moreover have "hex_encode (c # s) =
      hex_digit (of_char c div 16) # hex_digit (of_char c mod 16) # hex_encode s"
    by (simp add: hex_encode_def)
  ultimately show ?case using Cons by simp
qed

lemma length_hex_encode [simp]: "length (hex_encode s) = 2 * length s"
  by (induction s) (simp_all add: hex_encode_def)

lemma hex_encode_inject [simp]: "hex_encode s = hex_encode t \<longleftrightarrow> s = t"
  by (metis hex_decode_encode option.inject)

subsection \<open>Base 64\<close>

definition b64_digit :: "nat \<Rightarrow> char" where
  "b64_digit d =
     (if d < 26 then char_of (d + 65) else if d < 52 then char_of (d + 71)
      else if d < 62 then char_of (d - 4) else if d = 62 then CHR ''+'' else CHR ''/'')"

definition b64_value :: "char \<Rightarrow> nat option" where
  "b64_value c =
     (let n = (of_char c :: nat) in
      if 65 \<le> n \<and> n \<le> 90 then Some (n - 65)
      else if 97 \<le> n \<and> n \<le> 122 then Some (n - 71)
      else if 48 \<le> n \<and> n \<le> 57 then Some (n + 4)
      else if c = CHR ''+'' then Some 62
      else if c = CHR ''/'' then Some 63
      else None)"

fun b64_encode :: "bytes \<Rightarrow> bytes" where
  "b64_encode [] = []"
| "b64_encode [a] =
     [b64_digit (of_char a div 4), b64_digit (of_char a mod 4 * 16), CHR ''='', CHR ''='']"
| "b64_encode [a, b] =
     [b64_digit (of_char a div 4), b64_digit (of_char a mod 4 * 16 + of_char b div 16),
      b64_digit (of_char b mod 16 * 4), CHR ''='']"
| "b64_encode (a # b # c # s) =
     b64_digit (of_char a div 4) # b64_digit (of_char a mod 4 * 16 + of_char b div 16) #
     b64_digit (of_char b mod 16 * 4 + of_char c div 64) # b64_digit (of_char c mod 64) #
     b64_encode s"

text \<open>The decoder skips carriage returns and line feeds, wants whole groups of four with
  the padding in the last one only, and (not being strict) ignores the unused bits of a
  padded group.\<close>

fun b64_decode_quads :: "bytes \<Rightarrow> bytes option" where
  "b64_decode_quads [] = Some []"
| "b64_decode_quads (a # b # c # d # s) =
     (case (b64_value a, b64_value b) of
        (Some x, Some y) \<Rightarrow>
          (if c = CHR ''='' then
             (if d = CHR ''='' \<and> s = [] then Some [char_of (x * 4 + y div 16)] else None)
           else case b64_value c of
             None \<Rightarrow> None
           | Some z \<Rightarrow>
               (if d = CHR ''='' then
                  (if s = [] then Some [char_of (x * 4 + y div 16), char_of (y * 16 + z div 4)]
                   else None)
                else case (b64_value d, b64_decode_quads s) of
                  (Some w, Some t) \<Rightarrow>
                    Some (char_of (x * 4 + y div 16) # char_of (y * 16 + z div 4) #
                          char_of (z * 64 + w) # t)
                | _ \<Rightarrow> None))
      | _ \<Rightarrow> None)"
| "b64_decode_quads _ = None"

definition b64_decode :: "bytes \<Rightarrow> bytes option" where
  "b64_decode s = b64_decode_quads (filter (\<lambda>c. c \<noteq> CHR 0x0A \<and> c \<noteq> CHR 0x0D) s)"

lemma b64_value_digit [simp]: "d < 64 \<Longrightarrow> b64_value (b64_digit d) = Some d"
proof -
  assume "d < 64"
  then consider "d < 26" | "26 \<le> d" "d < 52" | "52 \<le> d" "d < 62" | "d = 62" | "d = 63"
    by linarith
  then show ?thesis
    by cases (auto simp: b64_value_def b64_digit_def Let_def)
qed

lemma of_char_b64_digit:
  "d < 64 \<Longrightarrow> of_char (b64_digit d) \<notin> {10, 13, 61 :: nat}"
  by (auto simp: b64_digit_def split: if_splits)

lemma b64_digit_plain [simp]:
  assumes "d < 64"
  shows "b64_digit d \<noteq> CHR ''=''" "b64_digit d \<noteq> CHR 0x0A" "b64_digit d \<noteq> CHR 0x0D"
  using of_char_b64_digit [OF assms] by auto

lemma sextet_bounds [simp]:
  "(of_char a :: nat) div 4 < 64" "(of_char a :: nat) mod 4 * 16 < 64"
  "(of_char a :: nat) mod 4 * 16 + of_char b div 16 < 64" "(of_char b :: nat) mod 16 * 4 < 64"
  "(of_char b :: nat) mod 16 * 4 + of_char c div 64 < 64"
  using nat_of_char_less_256 [of a] nat_of_char_less_256 [of b] nat_of_char_less_256 [of c]
  by linarith+

lemma b64_encode_plain [simp]:
  "filter (\<lambda>c. c \<noteq> CHR 0x0A \<and> c \<noteq> CHR 0x0D) (b64_encode s) = b64_encode s"
  by (induction s rule: b64_encode.induct) simp_all

lemma char_of_plus_256 [simp]: "(char_of (of_char b + 256 * k :: nat) :: char) = b"
proof -
  have "(char_of (of_char b + 256 * k :: nat) :: char) = char_of ((of_char b + 256 * k) mod 256 :: nat)"
    by (simp only: char_of_mod_256)
  also have "\<dots> = b" by simp
  finally show ?thesis .
qed

lemma of_char_high_bits [simp]:
  "(of_char b :: nat) div 16 div 16 = 0" "(of_char c :: nat) div 64 div 4 = 0"
  using nat_of_char_less_256 [of b] nat_of_char_less_256 [of c]
  by (simp_all add: div_mult2_eq [symmetric])

lemma b64_decode_quads_encode: "b64_decode_quads (b64_encode s) = Some s"
  by (induction s rule: b64_encode.induct) simp_all

theorem b64_decode_encode [simp]: "b64_decode (b64_encode s) = Some s"
  by (simp add: b64_decode_def b64_decode_quads_encode)

end
