(* ===== verification/ControlProto.thy ===== *)
theory ControlProto
  imports GoEncoding
begin

text \<open>
  \<open>internal/controlproto\<close>: the messages of the control channel, the strict decoder, the
  lifetime of each action (\<open>types.go\<close>) and the signature that covers a command
  (\<open>sign.go\<close>). SHA-256 and Ed25519 are functions of a record \<open>crypto\<close>; what the
  sources rely on (digest and signature sizes, a signature verifies under the matching
  public key) is stated by \<open>crypto_sizes\<close> and \<open>key_pair\<close>.
\<close>

subsection \<open>Messages\<close>

type_synonym action = bytes

definition Version :: bytes where "Version = ''1''"
definition MaxMessageBytes :: nat where "MaxMessageBytes = 65536"
definition HeartbeatInterval :: duration where "HeartbeatInterval = 30 * second"
definition OfflineTimeout :: duration where "OfflineTimeout = 90 * second"

definition CollectNow :: action where "CollectNow = ''collect_now''"
definition ReloadConfig :: action where "ReloadConfig = ''reload_config''"
definition SelfCheck :: action where "SelfCheck = ''self_check''"
definition Upgrade :: action where "Upgrade = ''upgrade''"

lemmas action_defs = CollectNow_def ReloadConfig_def SelfCheck_def Upgrade_def

record command =
  cControlVersion :: bytes
  cType :: bytes
  cCommandID :: bytes
  cSequence :: uint64
  cAgentID :: bytes
  cAction :: action
  cIssuedAt :: int64
  cExpiresAt :: int64
  cPayload :: bytes
  cSignature :: bytes

record hello =
  hControlVersion :: bytes
  hType :: bytes
  hAgentID :: bytes
  hNodeID :: bytes
  hAgentVersion :: bytes
  hOS :: bytes
  hArch :: bytes
  hCapabilities :: "action list"
  hBootID :: bytes
  hHighestCompleted :: uint64

record welcome_msg =
  wControlVersion :: bytes
  wType :: bytes
  wSessionID :: bytes
  wServerTime :: int64
  wHeartbeatSeconds :: int
  wOfflineSeconds :: int
  wMaxMessageBytes :: int
  wPanelVersion :: bytes
  wAgentVersion :: bytes
  wBootID :: bytes
  wNextSequence :: uint64

record heartbeat =
  bControlVersion :: bytes
  bType :: bytes
  bAgentVersion :: bytes
  bUptimeSeconds :: int64
  bLastReportCode :: bytes
  bCurrentCommandID :: bytes
  bOutboxDepth :: int

record command_result =
  rControlVersion :: bytes
  rType :: bytes
  rCommandID :: bytes
  rSequence :: uint64
  rState :: bytes
  rCode :: bytes
  rData :: bytes

text \<open>The destinations \<open>StrictDecode\<close> knows; any other Go type is \<open>MOther\<close>.\<close>

datatype message =
    MCommand command
  | MHello hello
  | MWelcome welcome_msg
  | MHeartbeat heartbeat
  | MCommandResult command_result
  | MOther

subsection \<open>The strict decoder\<close>

datatype decode_error =
    MessageTooLarge
  | DecodeFailed
  | TrailingJSON
  | TrailingData
  | UnsupportedVersion bytes
  | UnexpectedType bytes
  | UnknownAction action
  | UnknownCapability action
  | UnsupportedDestination
  | InvalidPayloadSize

definition validAction :: "action \<Rightarrow> bool" where
  "validAction a \<longleftrightarrow> a = CollectNow \<or> a = ReloadConfig \<or> a = SelfCheck \<or> a = Upgrade"

text \<open>The maximum lifetime of a command; an unknown action has none.\<close>

definition TTL :: "action \<Rightarrow> duration" where
  "TTL a =
     (if a = CollectNow then 5 * minute
      else if a = ReloadConfig \<or> a = SelfCheck then 30 * minute
      else if a = Upgrade then 24 * hour
      else 0)"

definition validateHeader :: "bytes \<Rightarrow> bytes \<Rightarrow> bytes \<Rightarrow> decode_error + unit" where
  "validateHeader version messageType expectedType =
     (if version \<noteq> Version then Inl (UnsupportedVersion version)
      else if messageType \<noteq> expectedType then Inl (UnexpectedType messageType)
      else Inr ())"

text \<open>\<open>ensureEOF\<close>: what follows the first value must be the end of the input.\<close>

fun ensureEOF :: "'a json_doc \<Rightarrow> decode_error + 'a" where
  "ensureEOF (JsonDoc v) = Inr v"
| "ensureEOF (JsonTrailing v) = Inl TrailingJSON"
| "ensureEOF (JsonGarbage v) = Inl TrailingData"
| "ensureEOF JsonBad = Inl DecodeFailed"

fun firstInvalid :: "action list \<Rightarrow> action option" where
  "firstInvalid [] = None"
| "firstInvalid (a # as) = (if validAction a then firstInvalid as else Some a)"

fun validateMessage :: "message \<Rightarrow> decode_error + unit" where
  "validateMessage (MCommand m) =
     (case validateHeader (cControlVersion m) (cType m) ''command'' of
        Inl e \<Rightarrow> Inl e
      | Inr _ \<Rightarrow> if validAction (cAction m) then Inr () else Inl (UnknownAction (cAction m)))"
| "validateMessage (MHello m) =
     (case validateHeader (hControlVersion m) (hType m) ''hello'' of
        Inl e \<Rightarrow> Inl e
      | Inr _ \<Rightarrow> (case firstInvalid (hCapabilities m) of
          None \<Rightarrow> Inr () | Some a \<Rightarrow> Inl (UnknownCapability a)))"
| "validateMessage (MWelcome m) = validateHeader (wControlVersion m) (wType m) ''welcome''"
| "validateMessage (MHeartbeat m) = validateHeader (bControlVersion m) (bType m) ''heartbeat''"
| "validateMessage (MCommandResult m) =
     validateHeader (rControlVersion m) (rType m) ''command_result''"
| "validateMessage MOther = Inl UnsupportedDestination"

definition StrictDecode :: "message json_text \<Rightarrow> decode_error + message" where
  "StrictDecode data =
     (if text_len data > MaxMessageBytes then Inl MessageTooLarge
      else case ensureEOF (text_doc data) of
        Inl e \<Rightarrow> Inl e
      | Inr msg \<Rightarrow> (case validateMessage msg of Inl e \<Rightarrow> Inl e | Inr _ \<Rightarrow> Inr msg))"

definition StrictDecodePayload :: "'a json_text \<Rightarrow> decode_error + 'a" where
  "StrictDecodePayload data =
     (if text_len data = 0 \<or> text_len data > MaxMessageBytes then Inl InvalidPayloadSize
      else ensureEOF (text_doc data))"

subsection \<open>Signatures\<close>

record crypto =
  sha256 :: "bytes \<Rightarrow> bytes"
  ed_sign :: "bytes \<Rightarrow> bytes \<Rightarrow> bytes"
  ed_verify :: "bytes \<Rightarrow> bytes \<Rightarrow> bytes \<Rightarrow> bool"

definition PrivateKeySize :: nat where "PrivateKeySize = 64"
definition PublicKeySize :: nat where "PublicKeySize = 32"
definition SignatureSize :: nat where "SignatureSize = 64"

definition crypto_sizes :: "crypto \<Rightarrow> bool" where
  "crypto_sizes c \<longleftrightarrow> (\<forall>m. length (sha256 c m) = 32) \<and>
     (\<forall>k m. length (ed_sign c k m) = SignatureSize)"

definition key_pair :: "crypto \<Rightarrow> bytes \<Rightarrow> bytes \<Rightarrow> bool" where
  "key_pair c priv pub \<longleftrightarrow> length priv = PrivateKeySize \<and> length pub = PublicKeySize \<and>
     (\<forall>m. ed_verify c pub m (ed_sign c priv m))"

datatype sign_error =
    NilCommand
  | BadPrivateKey nat
  | BadPublicKey nat
  | SignatureNotBase64
  | BadSignatureLength nat
  | BadSignature

definition appendLengthPrefixed :: "bytes \<Rightarrow> bytes \<Rightarrow> bytes" where
  "appendLengthPrefixed dst value = (dst @ be_bytes 4 (length value)) @ value"

definition uint64Bytes :: "uint64 \<Rightarrow> bytes" where
  "uint64Bytes value = be_bytes 8 (unat value)"

text \<open>\<open>uint64(value)\<close> of an \<open>int64\<close> keeps its bits.\<close>

definition int64Bytes :: "int64 \<Rightarrow> bytes" where
  "int64Bytes value = uint64Bytes value"

definition SigningBytes :: "crypto \<Rightarrow> command \<Rightarrow> bytes" where
  "SigningBytes c cmd =
     (let buf = [];
          buf = appendLengthPrefixed buf (cControlVersion cmd);
          buf = appendLengthPrefixed buf (cType cmd);
          buf = appendLengthPrefixed buf (cCommandID cmd);
          buf = appendLengthPrefixed buf (uint64Bytes (cSequence cmd));
          buf = appendLengthPrefixed buf (cAgentID cmd);
          buf = appendLengthPrefixed buf (cAction cmd);
          buf = appendLengthPrefixed buf (int64Bytes (cIssuedAt cmd));
          buf = appendLengthPrefixed buf (int64Bytes (cExpiresAt cmd))
      in appendLengthPrefixed buf (sha256 c (cPayload cmd)))"

definition SignCommand :: "crypto \<Rightarrow> bytes \<Rightarrow> command option \<Rightarrow> sign_error + command" where
  "SignCommand c privateKey cmd =
     (case cmd of
        None \<Rightarrow> Inl NilCommand
      | Some cmd \<Rightarrow>
          if length privateKey \<noteq> PrivateKeySize then Inl (BadPrivateKey (length privateKey))
          else Inr (cmd\<lparr>cSignature := b64_encode (ed_sign c privateKey (SigningBytes c cmd))\<rparr>))"

definition VerifyCommand :: "crypto \<Rightarrow> bytes \<Rightarrow> command \<Rightarrow> sign_error option" where
  "VerifyCommand c publicKey cmd =
     (if length publicKey \<noteq> PublicKeySize then Some (BadPublicKey (length publicKey))
      else case b64_decode (cSignature cmd) of
        None \<Rightarrow> Some SignatureNotBase64
      | Some signature \<Rightarrow>
          if length signature \<noteq> SignatureSize then Some (BadSignatureLength (length signature))
          else if \<not> ed_verify c publicKey (SigningBytes c cmd) signature then Some BadSignature
          else None)"

subsection \<open>Decoding: exactly the well-formed messages\<close>

fun wf_message :: "message \<Rightarrow> bool" where
  "wf_message (MCommand m) \<longleftrightarrow>
     cControlVersion m = Version \<and> cType m = ''command'' \<and> 0 < TTL (cAction m)"
| "wf_message (MHello m) \<longleftrightarrow>
     hControlVersion m = Version \<and> hType m = ''hello'' \<and> (\<forall>a\<in>set (hCapabilities m). 0 < TTL a)"
| "wf_message (MWelcome m) \<longleftrightarrow> wControlVersion m = Version \<and> wType m = ''welcome''"
| "wf_message (MHeartbeat m) \<longleftrightarrow> bControlVersion m = Version \<and> bType m = ''heartbeat''"
| "wf_message (MCommandResult m) \<longleftrightarrow> rControlVersion m = Version \<and> rType m = ''command_result''"
| "wf_message MOther \<longleftrightarrow> False"

lemma TTL_pos_iff: "0 < TTL a \<longleftrightarrow> validAction a"
  by (simp add: TTL_def validAction_def)

lemma TTL_nonneg [simp]: "0 \<le> TTL a"
  by (simp add: TTL_def)

lemma TTL_le_day: "TTL a \<le> 24 * hour"
  by (simp add: TTL_def)

lemma TTL_whole_seconds: "TTL a = TTL a div second * second"
  by (simp add: TTL_def)

lemma firstInvalid_None: "firstInvalid as = None \<longleftrightarrow> (\<forall>a\<in>set as. validAction a)"
  by (induction as) auto

lemma validateHeader_ok: "validateHeader v t e = Inr u \<longleftrightarrow> v = Version \<and> t = e"
  by (auto simp: validateHeader_def)

lemma validateMessage_ok: "validateMessage m = Inr u \<longleftrightarrow> wf_message m"
  by (cases m)
     (auto simp: validateHeader_def TTL_pos_iff firstInvalid_None [symmetric] split: option.splits)

lemma ensureEOF_ok: "ensureEOF d = Inr v \<longleftrightarrow> d = JsonDoc v"
  by (cases d) auto

text \<open>\<open>StrictDecode\<close> accepts a text exactly when it is at most 64 KiB long, holds one JSON
  value of the destination type and nothing after it, and that value has control version 1, the
  type name of its destination and only actions that have a lifetime.\<close>

theorem StrictDecode_accepts_iff:
  "StrictDecode data = Inr msg \<longleftrightarrow>
     text_len data \<le> 65536 \<and> text_doc data = JsonDoc msg \<and> wf_message msg"
proof -
  have "StrictDecode data = Inr msg \<longleftrightarrow> text_len data \<le> MaxMessageBytes \<and>
      ensureEOF (text_doc data) = Inr msg \<and> validateMessage msg = Inr ()"
    by (auto simp: StrictDecode_def split: sum.splits)
  then show ?thesis
    by (simp add: MaxMessageBytes_def ensureEOF_ok validateMessage_ok)
qed

subsection \<open>Signatures: what the signed bytes determine\<close>

definition frame :: "bytes \<Rightarrow> bytes" where
  "frame value = be_bytes 4 (length value) @ value"

definition signed_fields :: "crypto \<Rightarrow> command \<Rightarrow> bytes list" where
  "signed_fields c cmd =
     [cControlVersion cmd, cType cmd, cCommandID cmd, uint64Bytes (cSequence cmd), cAgentID cmd,
      cAction cmd, int64Bytes (cIssuedAt cmd), int64Bytes (cExpiresAt cmd), sha256 c (cPayload cmd)]"

definition short_fields :: "crypto \<Rightarrow> command \<Rightarrow> bool" where
  "short_fields c cmd \<longleftrightarrow> list_all (\<lambda>f. length f < 2 ^ 32) (signed_fields c cmd)"

lemma SigningBytes_frames: "SigningBytes c cmd = concat (map frame (signed_fields c cmd))"
  by (simp add: SigningBytes_def appendLengthPrefixed_def frame_def signed_fields_def Let_def)

lemma frame_inject:
  assumes "frame v @ r = frame w @ s" and "length v < 2 ^ 32" and "length w < 2 ^ 32"
  shows "v = w \<and> r = s"
proof -
  have "be_bytes 4 (length v) = be_bytes 4 (length w)"
    using assms(1) by (simp add: frame_def)
  then have "length v = length w"
    using assms(2,3) by (intro be_bytes_inject [of 4]) simp_all
  with assms(1) show ?thesis by (simp add: frame_def)
qed

lemma frames_inject:
  assumes "length vs = length ws" and "concat (map frame vs) = concat (map frame ws)"
    and "list_all (\<lambda>f. length f < 2 ^ 32) vs" and "list_all (\<lambda>f. length f < 2 ^ 32) ws"
  shows "vs = ws"
  using assms
  by (induction vs ws rule: list_induct2) (auto dest!: frame_inject)

lemma uint64Bytes_inject [simp]: "uint64Bytes x = uint64Bytes y \<longleftrightarrow> x = y"
proof
  assume "uint64Bytes x = uint64Bytes y"
  moreover have "unat x < 256 ^ 8" "unat y < 256 ^ 8"
    using unat64_bound [of x] unat64_bound [of y] by simp_all
  ultimately have "unat x = unat y"
    unfolding uint64Bytes_def by (rule be_bytes_inject)
  then show "x = y" by (rule unsigned_word_eqI)
qed simp

text \<open>C3. The signed bytes bind the whole envelope: two commands whose fields fit the 32-bit
  length prefixes and that have the same signed bytes agree on every field, up to the digest of
  the payload.\<close>

theorem SigningBytes_binds_envelope:
  assumes "SigningBytes c a = SigningBytes c b" and "short_fields c a" and "short_fields c b"
  shows "cControlVersion a = cControlVersion b \<and> cType a = cType b \<and> cCommandID a = cCommandID b \<and>
    cSequence a = cSequence b \<and> cAgentID a = cAgentID b \<and> cAction a = cAction b \<and>
    cIssuedAt a = cIssuedAt b \<and> cExpiresAt a = cExpiresAt b \<and>
    sha256 c (cPayload a) = sha256 c (cPayload b)"
proof -
  have "signed_fields c a = signed_fields c b"
    using assms by (intro frames_inject) (simp_all add: SigningBytes_frames short_fields_def signed_fields_def)
  then show ?thesis
    by (simp add: signed_fields_def int64Bytes_def)
qed

lemma SigningBytes_signature [simp]: "SigningBytes c (cmd\<lparr>cSignature := s\<rparr>) = SigningBytes c cmd"
  by (simp add: SigningBytes_def)

text \<open>A command that \<open>SignCommand\<close> signs with the private key of a pair passes
  \<open>VerifyCommand\<close> under the public key, and signing changes nothing but the signature.\<close>

theorem VerifyCommand_SignCommand:
  assumes "crypto_sizes c" and "key_pair c priv pub"
  shows "\<exists>signed. SignCommand c priv (Some cmd) = Inr signed \<and> VerifyCommand c pub signed = None \<and>
    signed\<lparr>cSignature := cSignature cmd\<rparr> = cmd"
  using assms
  by (simp add: SignCommand_def VerifyCommand_def crypto_sizes_def key_pair_def)

subsection \<open>Concrete instances\<close>

text \<open>A small \<open>crypto\<close> (padding instead of hashing, the padded message as its own
  signature) that has the assumed laws, for the closed instances below.\<close>

definition pad_to :: "nat \<Rightarrow> bytes \<Rightarrow> bytes" where
  "pad_to n m = take n (m @ replicate n CHR 0x00)"

definition pad_crypto :: crypto where
  "pad_crypto = \<lparr>sha256 = pad_to 32, ed_sign = (\<lambda>k m. pad_to 64 m),
     ed_verify = (\<lambda>k m s. s = pad_to 64 m)\<rparr>"

definition sample_private :: bytes where "sample_private = replicate 64 CHR ''k''"
definition sample_public :: bytes where "sample_public = replicate 32 CHR ''p''"

definition sample_command :: command where
  "sample_command = \<lparr>cControlVersion = ''1'', cType = ''command'', cCommandID = ''c1'',
     cSequence = 7, cAgentID = ''a1'', cAction = CollectNow, cIssuedAt = 100, cExpiresAt = 400,
     cPayload = ''{}'', cSignature = []\<rparr>"

lemma length_pad_to [simp]: "length (pad_to n m) = n"
  by (simp add: pad_to_def)

lemma pad_crypto_sizes: "crypto_sizes pad_crypto"
  by (simp add: crypto_sizes_def pad_crypto_def SignatureSize_def)

lemma pad_crypto_key_pair: "key_pair pad_crypto sample_private sample_public"
  by (simp add: key_pair_def pad_crypto_def sample_private_def sample_public_def
      PrivateKeySize_def PublicKeySize_def)

lemma short_sample: "short_fields pad_crypto (sample_command\<lparr>cPayload := p, cSignature := s\<rparr>)"
  by (simp add: short_fields_def signed_fields_def sample_command_def action_defs pad_crypto_def
      uint64Bytes_def int64Bytes_def)

theorem SigningBytes_binds_envelope_witness:
  "sha256 pad_crypto (replicate 33 CHR ''x'') = sha256 pad_crypto (replicate 34 CHR ''x'')"
proof -
  let ?a = "sample_command\<lparr>cPayload := replicate 33 CHR ''x'', cSignature := ''s''\<rparr>"
  let ?b = "sample_command\<lparr>cPayload := replicate 34 CHR ''x'', cSignature := ''t''\<rparr>"
  have "sha256 pad_crypto (cPayload ?a) = sha256 pad_crypto (cPayload ?b)"
    by (simp add: pad_crypto_def pad_to_def)
  then have "SigningBytes pad_crypto ?a = SigningBytes pad_crypto ?b"
    by (simp add: SigningBytes_def)
  from SigningBytes_binds_envelope [OF this short_sample short_sample] show ?thesis by simp
qed

theorem VerifyCommand_SignCommand_witness:
  "\<exists>signed. SignCommand pad_crypto sample_private (Some sample_command) = Inr signed \<and>
     VerifyCommand pad_crypto sample_public signed = None \<and>
     signed\<lparr>cSignature := cSignature sample_command\<rparr> = sample_command"
  by (rule VerifyCommand_SignCommand [OF pad_crypto_sizes pad_crypto_key_pair])

end
