(* ===== verification/Auth.thy ===== *)
theory Auth
  imports GoStrings
begin

text \<open>
  \<open>internal/panel/auth/auth.go\<close>: roles of the Panel's users and the check that a session
  re-authenticated recently. Times are nanoseconds; \<open>None\<close> is the zero time. The sessions
  themselves are in \<open>PanelSessions\<close>.
\<close>

type_synonym role = bytes

definition Viewer :: role where "Viewer = ''viewer''"
definition Operator :: role where "Operator = ''operator''"
definition Admin :: role where "Admin = ''admin''"

record actor =
  acUserID :: int
  acUsername :: bytes
  acRole :: role
  acSessionID :: bytes
  acReauthenticatedAt :: "int option"

definition noActor :: actor where
  "noActor = \<lparr>acUserID = 0, acUsername = [], acRole = [], acSessionID = [], acReauthenticatedAt = None\<rparr>"

definition roleRank :: "role \<Rightarrow> nat" where
  "roleRank r = (if r = Viewer then 1 else if r = Operator then 2 else if r = Admin then 3 else 0)"

text \<open>\<open>True\<close> when the actor is allowed.\<close>

definition Require :: "actor \<Rightarrow> role \<Rightarrow> bool" where
  "Require a required = (\<not> (roleRank (acRole a) < roleRank required \<or> roleRank required = 0))"

definition RequireRecentReauth :: "int \<Rightarrow> actor \<Rightarrow> duration \<Rightarrow> bool" where
  "RequireRecentReauth now a maxAge =
     (case acReauthenticatedAt a of
        None \<Rightarrow> False
      | Some t \<Rightarrow> \<not> (maxAge \<le> 0 \<or> now < t \<or> maxAge < now - t))"

lemma roleRank_simps [simp]: "roleRank Viewer = 1" "roleRank Operator = 2" "roleRank Admin = 3"
  by (simp_all add: roleRank_def Viewer_def Operator_def Admin_def)

lemma roleRank_known: "0 < roleRank r \<longleftrightarrow> r \<in> {Viewer, Operator, Admin}"
  by (auto simp: roleRank_def)

lemma Require_Admin_iff: "Require a Admin \<longleftrightarrow> acRole a = Admin"
  by (auto simp: Require_def roleRank_def Viewer_def Operator_def Admin_def)

lemma Require_Operator_iff: "Require a Operator \<longleftrightarrow> acRole a = Operator \<or> acRole a = Admin"
  by (auto simp: Require_def roleRank_def Viewer_def Operator_def Admin_def)

text \<open>Authorization is monotone: an allowed actor is allowed for every known role of lower rank, an
  unknown role is neither granted nor grantable, and reauthentication counts exactly during the
  \<open>maxAge\<close> nanoseconds after it.\<close>

theorem authorization_monotone:
  "(Require a r \<and> 0 < roleRank r' \<and> roleRank r' \<le> roleRank r \<longrightarrow> Require a r') \<and>
   (Require a r \<longrightarrow> r \<in> {Viewer, Operator, Admin} \<and> acRole a \<in> {Viewer, Operator, Admin}) \<and>
   (RequireRecentReauth now a maxAge \<longleftrightarrow>
      0 < maxAge \<and> (\<exists>t. acReauthenticatedAt a = Some t \<and> t \<le> now \<and> now \<le> t + maxAge))"
proof (intro conjI)
  show "Require a r \<longrightarrow> r \<in> {Viewer, Operator, Admin} \<and> acRole a \<in> {Viewer, Operator, Admin}"
    using roleRank_known [of r] roleRank_known [of "acRole a"] by (auto simp: Require_def)
  show "RequireRecentReauth now a maxAge \<longleftrightarrow>
      0 < maxAge \<and> (\<exists>t. acReauthenticatedAt a = Some t \<and> t \<le> now \<and> now \<le> t + maxAge)"
    by (auto simp: RequireRecentReauth_def split: option.splits)
qed (auto simp: Require_def)

theorem authorization_monotone_witness:
  "Require (noActor\<lparr>acRole := Admin\<rparr>) Operator"
  using authorization_monotone [of "noActor\<lparr>acRole := Admin\<rparr>" Admin Operator]
  by (simp add: Require_Admin_iff)

end
