(* ===== verification/CommandStore.thy ===== *)
theory CommandStore
  imports ControlProto Auth "HOL-Library.Product_Lexorder"
begin

text \<open>
  \<open>internal/panel/command/store.go\<close>: the Panel's command store, with the constraints and triggers
  of its tables (\<open>internal/panel/db/db.go\<close>). A transaction either commits or leaves the store
  unchanged; \<open>stFaults\<close> says which of the next transactions fail in the database. All users of the
  store hold its mutex or run in one statement, so the operations are atomic steps.
\<close>

subsection \<open>Tables\<close>

datatype cmd_state = Queued | Dispatched | Accepted | Running | Succeeded | Failed | Expired

fun state_name :: "cmd_state \<Rightarrow> bytes" where
  "state_name Queued = ''queued''"
| "state_name Dispatched = ''dispatched''"
| "state_name Accepted = ''accepted''"
| "state_name Running = ''running''"
| "state_name Succeeded = ''succeeded''"
| "state_name Failed = ''failed''"
| "state_name Expired = ''expired''"

definition result_state :: "bytes \<Rightarrow> cmd_state option" where
  "result_state s =
     (if s = ''accepted'' then Some Accepted else if s = ''running'' then Some Running
      else if s = ''succeeded'' then Some Succeeded else if s = ''failed'' then Some Failed else None)"

record command_row =
  rwCommand :: command
  rwState :: cmd_state
  rwDispatchedAt :: int64
  rwAcceptedAt :: int64
  rwStartedAt :: int64
  rwFinishedAt :: int64
  rwAttempts :: nat
  rwCode :: bytes
  rwResult :: bytes
  rwUser :: int
  rwSession :: bytes

record command_event =
  evCommand :: bytes
  evActor :: int
  evSession :: bytes
  evFrom :: "cmd_state option"
  evTo :: cmd_state
  evAt :: int64
  evReason :: bytes

record store =
  stRows :: "command_row list"
  stEvents :: "command_event list"
  stUsers :: "(int \<times> bytes \<times> role) list"
  stSessions :: "bytes list"
  stFaults :: "bool list"

definition begin_tx :: "store \<Rightarrow> bool \<times> store" where
  "begin_tx st = (case stFaults st of [] \<Rightarrow> (True, st) | f # fs \<Rightarrow> (\<not> f, st\<lparr>stFaults := fs\<rparr>))"

abbreviation row_id :: "command_row \<Rightarrow> bytes" where "row_id r \<equiv> cCommandID (rwCommand r)"
abbreviation row_agent :: "command_row \<Rightarrow> bytes" where "row_agent r \<equiv> cAgentID (rwCommand r)"
abbreviation row_seq :: "command_row \<Rightarrow> uint64" where "row_seq r \<equiv> cSequence (rwCommand r)"

definition session_known :: "store \<Rightarrow> bytes \<Rightarrow> bool" where
  "session_known st s \<longleftrightarrow> s = [] \<or> s \<in> set (stSessions st)"

definition insert_row :: "command_row \<Rightarrow> store \<Rightarrow> store option" where
  "insert_row r st =
     (if row_id r \<in> row_id ` set (stRows st) \<or>
         (\<exists>x\<in>set (stRows st). row_agent x = row_agent r \<and> row_seq x = row_seq r) \<or>
         row_seq r = 0 \<or> cControlVersion (rwCommand r) \<noteq> ''1'' \<or> cType (rwCommand r) \<noteq> ''command'' \<or>
         \<not> validAction (cAction (rwCommand r)) \<or> 65536 < length (cPayload (rwCommand r)) \<or>
         \<not> session_known st (rwSession r)
      then None else Some (st\<lparr>stRows := stRows st @ [r]\<rparr>))"

definition insert_event :: "command_event \<Rightarrow> store \<Rightarrow> store option" where
  "insert_event e st =
     (if \<not> session_known st (evSession e) then None
      else Some (st\<lparr>stEvents := stEvents st @ [e]\<rparr>))"

subsection \<open>Creating commands\<close>

definition commandUUID :: "bytes \<Rightarrow> bytes" where
  "commandUUID random =
     (let value = random[6 := char_of (of_char (random ! 6) mod 16 + (64::nat)),
                         8 := char_of (of_char (random ! 8) mod 64 + (128::nat))];
          h = hex_encode value
      in take 8 h @ ''-'' @ take 4 (drop 8 h) @ ''-'' @ take 4 (drop 12 h) @ ''-'' @
         take 4 (drop 16 h) @ ''-'' @ drop 20 h)"

definition nextSequence :: "bytes \<Rightarrow> store \<Rightarrow> uint64" where
  "nextSequence agent st = fold max (map row_seq (filter (\<lambda>r. row_agent r = agent) (stRows st))) 0 + 1"

definition newRow :: "actor \<Rightarrow> command \<Rightarrow> command_row" where
  "newRow a c =
     \<lparr>rwCommand = c, rwState = Queued, rwDispatchedAt = 0, rwAcceptedAt = 0, rwStartedAt = 0,
      rwFinishedAt = 0, rwAttempts = 0, rwCode = [], rwResult = ''{}'', rwUser = acUserID a,
      rwSession = acSessionID a\<rparr>"

definition createOne ::
    "crypto \<Rightarrow> bytes \<Rightarrow> actor \<Rightarrow> action \<Rightarrow> bytes \<Rightarrow> int64 \<Rightarrow> bytes \<times> bytes \<Rightarrow> store \<Rightarrow> (command \<times> store) option" where
  "createOne cr signer a action payload now target st =
     (let (agentID, cid) = target;
          unsigned =
            \<lparr>cControlVersion = Version, cType = ''command'', cCommandID = cid,
             cSequence = nextSequence agentID st, cAgentID = agentID, cAction = action,
             cIssuedAt = now, cExpiresAt = now + word_of_int (TTL action div second),
             cPayload = payload, cSignature = []\<rparr>
      in case SignCommand cr signer (Some unsigned) of
           Inl _ \<Rightarrow> None
         | Inr c \<Rightarrow>
             (case insert_row (newRow a c) st of
                None \<Rightarrow> None
              | Some st \<Rightarrow>
                  (case insert_event \<lparr>evCommand = cid, evActor = acUserID a, evSession = acSessionID a,
                          evFrom = None, evTo = Queued, evAt = now, evReason = ''created''\<rparr> st of
                     None \<Rightarrow> None
                   | Some st \<Rightarrow> Some (c, st))))"

fun createAll ::
    "crypto \<Rightarrow> bytes \<Rightarrow> actor \<Rightarrow> action \<Rightarrow> bytes \<Rightarrow> int64 \<Rightarrow> (bytes \<times> bytes) list \<Rightarrow> store \<Rightarrow>
     (command list \<times> store) option" where
  "createAll cr signer a action payload now [] st = Some ([], st)"
| "createAll cr signer a action payload now (x # xs) st =
     (case createOne cr signer a action payload now x st of
        None \<Rightarrow> None
      | Some (c, st) \<Rightarrow>
          (case createAll cr signer a action payload now xs st of
             None \<Rightarrow> None
           | Some (cs, st) \<Rightarrow> Some (c # cs, st)))"

datatype create_error = CreateActor | CreateAction | CreatePayload | CreateAgents | CreateDatabase

definition CreateBatch ::
    "crypto \<Rightarrow> (bytes \<Rightarrow> bool) \<Rightarrow> bytes \<Rightarrow> actor \<Rightarrow> bytes list \<Rightarrow> action \<Rightarrow> bytes \<Rightarrow> bytes list \<Rightarrow> int64 \<Rightarrow>
     store \<Rightarrow> (create_error + command list) \<times> store" where
  "CreateBatch cr jv signer a agentIDs action payload randoms now st =
     (if acUserID a \<le> 0 \<or> agentIDs = [] \<or> 100 < length agentIDs then (Inl CreateActor, st)
      else if TTL action \<le> 0 then (Inl CreateAction, st)
      else if payload = [] \<or> MaxMessageBytes < length payload \<or> \<not> jv payload then (Inl CreatePayload, st)
      else if [] \<in> set agentIDs \<or> \<not> distinct agentIDs then (Inl CreateAgents, st)
      else
        let (ok, st) = begin_tx st in
        if \<not> ok then (Inl CreateDatabase, st)
        else case createAll cr signer a action payload now (zip agentIDs (map commandUUID randoms)) st of
          None \<Rightarrow> (Inl CreateDatabase, st)
        | Some (cs, st') \<Rightarrow> (Inr cs, st'))"

subsection \<open>Transitions\<close>

fun allowedTransition :: "cmd_state \<Rightarrow> cmd_state \<Rightarrow> bool" where
  "allowedTransition Queued to = (to = Dispatched \<or> to = Failed \<or> to = Expired)"
| "allowedTransition Dispatched to = (to = Accepted \<or> to = Failed \<or> to = Expired)"
| "allowedTransition Accepted to = (to = Running \<or> to = Failed \<or> to = Expired)"
| "allowedTransition Running to = (to = Succeeded \<or> to = Failed)"
| "allowedTransition _ to = False"

definition update_row :: "cmd_state \<Rightarrow> int64 \<Rightarrow> bytes \<Rightarrow> bytes \<Rightarrow> command_row \<Rightarrow> command_row" where
  "update_row to ts code json r =
     r\<lparr>rwState := to,
       rwDispatchedAt := (if to = Dispatched then ts else rwDispatchedAt r),
       rwAcceptedAt := (if to = Accepted then ts else rwAcceptedAt r),
       rwStartedAt := (if to = Running then ts else rwStartedAt r),
       rwFinishedAt := (if to \<in> {Succeeded, Failed, Expired} then ts else rwFinishedAt r),
       rwAttempts := rwAttempts r + (if to = Dispatched then 1 else 0),
       rwCode := (if to \<in> {Succeeded, Failed} then code else rwCode r),
       rwResult := (if to \<in> {Succeeded, Failed} then json else rwResult r)\<rparr>"

definition find_row :: "bytes \<Rightarrow> store \<Rightarrow> command_row option" where
  "find_row cid st = find (\<lambda>r. row_id r = cid) (stRows st)"

datatype transition_error = TransFields | TransJson | TransMissing | TransForbidden | TransDatabase

definition transitionAt ::
    "(bytes \<Rightarrow> bool) \<Rightarrow> bytes \<Rightarrow> cmd_state \<Rightarrow> actor \<Rightarrow> bytes \<Rightarrow> bytes \<Rightarrow> bytes \<Rightarrow> int64 \<Rightarrow> store \<Rightarrow>
     transition_error option \<times> store" where
  "transitionAt jv cid to a reason code json now st =
     (if cid = [] \<or> 128 < length reason \<or> 128 < length code \<or> 16 * 1024 < length json
      then (Some TransFields, st)
      else
        let json = (if json = [] then ''{}'' else json) in
        if \<not> jv json then (Some TransJson, st)
        else
          let (ok, st) = begin_tx st in
          if \<not> ok then (Some TransDatabase, st)
          else case find_row cid st of
            None \<Rightarrow> (Some TransMissing, st)
          | Some r \<Rightarrow>
              if \<not> allowedTransition (rwState r) to then (Some TransForbidden, st)
              else
                let updated = st\<lparr>stRows := map (\<lambda>x. if row_id x = cid \<and> rwState x = rwState r
                                                    then update_row to now code json x else x) (stRows st)\<rparr>
                in case insert_event \<lparr>evCommand = cid, evActor = acUserID a, evSession = acSessionID a,
                          evFrom = Some (rwState r), evTo = to, evAt = now, evReason = reason\<rparr> updated of
                     None \<Rightarrow> (Some TransDatabase, st)
                   | Some st' \<Rightarrow> (None, st'))"

subsection \<open>Queries\<close>

definition live_row :: "bytes \<Rightarrow> int64 \<Rightarrow> command_row \<Rightarrow> bool" where
  "live_row agentID now r \<longleftrightarrow> row_agent r = agentID \<and>
     ((rwState r \<in> {Queued, Dispatched} \<and> now <s cExpiresAt (rwCommand r)) \<or> rwState r \<in> {Accepted, Running})"

definition QueuedFor :: "bytes \<Rightarrow> int64 \<Rightarrow> store \<Rightarrow> command list" where
  "QueuedFor agentID now st =
     map rwCommand (sort_key row_seq (filter (live_row agentID now) (stRows st)))"

definition History :: "bytes \<Rightarrow> int \<Rightarrow> store \<Rightarrow> command_row list" where
  "History agentID limit st =
     (let limit = (if limit \<le> 0 \<or> 200 < limit then 100 else limit) in
      take (nat limit) (rev (sort_key row_seq (filter (\<lambda>r. row_agent r = agentID) (stRows st)))))"

definition due_rows :: "int64 \<Rightarrow> store \<Rightarrow> command_row list" where
  "due_rows now st =
     sort_key (\<lambda>r. (row_agent r, row_seq r))
       (filter (\<lambda>r. rwState r \<in> {Queued, Dispatched} \<and> cExpiresAt (rwCommand r) \<le>s now) (stRows st))"

fun expireAll :: "(bytes \<Rightarrow> bool) \<Rightarrow> int64 \<Rightarrow> bytes list \<Rightarrow> store \<Rightarrow> transition_error option \<times> store" where
  "expireAll jv now [] st = (None, st)"
| "expireAll jv now (cid # ids) st =
     (case transitionAt jv cid Expired noActor ''ttl_expired'' [] [] now st of
        (Some e, st) \<Rightarrow> (Some e, st)
      | (None, st) \<Rightarrow> expireAll jv now ids st)"

definition Expire :: "(bytes \<Rightarrow> bool) \<Rightarrow> int64 \<Rightarrow> store \<Rightarrow> (transition_error + nat) \<times> store" where
  "Expire jv now st =
     (let ids = map row_id (due_rows now st) in
      case expireAll jv now ids st of
        (Some e, st) \<Rightarrow> (Inl e, st)
      | (None, st) \<Rightarrow> (Inr (length ids), st))"

subsection \<open>Results from the Agent\<close>

definition jsonEqual :: "bytes \<Rightarrow> bytes \<Rightarrow> bool" where
  "jsonEqual l r \<longleftrightarrow> trim_space l = trim_space r"

datatype result_error =
    ResultInvalid
  | ResultState
  | ResultUnknown
  | ResultTarget
  | ResultChanged
  | ResultUndelivered
  | ResultTransition transition_error

text \<open>One \<open>advance\<close> of \<open>ApplyAgentResult\<close>: the new state of the local variable and the store.\<close>

definition advance ::
    "(bytes \<Rightarrow> bool) \<Rightarrow> bytes \<Rightarrow> actor \<Rightarrow> int64 \<Rightarrow> cmd_state \<Rightarrow> bytes \<Rightarrow> bytes \<Rightarrow> bytes \<Rightarrow> store \<Rightarrow>
     (result_error + cmd_state) \<times> store" where
  "advance jv cid a now to reason code json st =
     (case transitionAt jv cid to a reason code json now st of
        (Some e, st) \<Rightarrow> (Inl (ResultTransition e), st)
      | (None, st) \<Rightarrow> (Inr to, st))"

definition row_actor :: "store \<Rightarrow> command_row \<Rightarrow> actor option" where
  "row_actor st r =
     (case map_of (stUsers st) (rwUser r) of
        None \<Rightarrow> None
      | Some (name, role) \<Rightarrow> Some \<lparr>acUserID = rwUser r, acUsername = name, acRole = role,
                                   acSessionID = rwSession r, acReauthenticatedAt = None\<rparr>)"

definition advanceResult ::
    "(bytes \<Rightarrow> bool) \<Rightarrow> command_result \<Rightarrow> cmd_state \<Rightarrow> bytes \<Rightarrow> actor \<Rightarrow> int64 \<Rightarrow> cmd_state \<Rightarrow> store \<Rightarrow>
     result_error option \<times> store" where
  "advanceResult jv res to json a now state st =
     (case (if state = Dispatched then advance jv (rCommandID res) a now Accepted ''agent_accepted'' [] [] st
            else (Inr state, st)) of
        (Inl e, st) \<Rightarrow> (Some e, st)
      | (Inr state, st) \<Rightarrow>
          (case (if state = Accepted \<and> to \<noteq> Accepted
                 then advance jv (rCommandID res) a now Running ''agent_running'' [] [] st
                 else (Inr state, st)) of
             (Inl e, st) \<Rightarrow> (Some e, st)
           | (Inr state, st) \<Rightarrow>
               if to = Accepted \<or> to = Running then (None, st)
               else (case advance jv (rCommandID res) a now to ''agent_terminal'' (rCode res) json st of
                       (Inl e, st) \<Rightarrow> (Some e, st)
                     | (Inr _, st) \<Rightarrow> (None, st))))"

text \<open>The checks of \<open>ApplyAgentResult\<close>: an early return, or the target state, the data, the creator and the
  row to advance.\<close>

definition checkResult ::
    "(bytes \<Rightarrow> bool) \<Rightarrow> bytes \<Rightarrow> command_result \<Rightarrow> store \<Rightarrow>
     result_error option + (cmd_state \<times> bytes \<times> actor \<times> command_row)" where
  "checkResult jv agentID res st =
     (if rControlVersion res \<noteq> Version \<or> rType res \<noteq> ''command_result'' \<or> rCommandID res = [] \<or>
         128 < length (rCode res) \<or> 16 * 1024 < length (rData res) \<or>
         (rData res \<noteq> [] \<and> \<not> jv (rData res))
      then Inl (Some ResultInvalid)
      else case result_state (rState res) of
        None \<Rightarrow> Inl (Some ResultState)
      | Some to \<Rightarrow>
          let json = (if rData res = [] then ''{}'' else rData res) in
          case find_row (rCommandID res) st of
            None \<Rightarrow> Inl (Some ResultUnknown)
          | Some r \<Rightarrow> (case row_actor st r of
              None \<Rightarrow> Inl (Some ResultUnknown)
            | Some a \<Rightarrow>
                if row_agent r \<noteq> agentID \<or> row_seq r \<noteq> rSequence res then Inl (Some ResultTarget)
                else if rwState r = Succeeded \<or> rwState r = Failed then
                  (if state_name (rwState r) = rState res \<and> rwCode r = rCode res \<and> jsonEqual (rwResult r) json
                   then Inl None else Inl (Some ResultChanged))
                else if rwState r = Queued \<or> rwState r = Expired then Inl (Some ResultUndelivered)
                else Inr (to, json, a, r)))"

definition ApplyAgentResult ::
    "(bytes \<Rightarrow> bool) \<Rightarrow> bytes \<Rightarrow> command_result \<Rightarrow> int64 \<Rightarrow> store \<Rightarrow> result_error option \<times> store" where
  "ApplyAgentResult jv agentID res now st =
     (case checkResult jv agentID res st of
        Inl early \<Rightarrow> (early, st)
      | Inr (to, json, a, r) \<Rightarrow> advanceResult jv res to json a now (rwState r) st)"

subsection \<open>Audit trail\<close>

fun audit :: "cmd_state option \<Rightarrow> command_event list \<Rightarrow> cmd_state \<Rightarrow> bool" where
  "audit s [] f = (s = Some f)"
| "audit s (e # es) f =
     (evFrom e = s \<and>
      (case s of None \<Rightarrow> evTo e = Queued | Some x \<Rightarrow> allowedTransition x (evTo e)) \<and>
      audit (Some (evTo e)) es f)"

definition events_of :: "bytes \<Rightarrow> store \<Rightarrow> command_event list" where
  "events_of cid st = filter (\<lambda>e. evCommand e = cid) (stEvents st)"

definition store_inv :: "store \<Rightarrow> bool" where
  "store_inv st \<longleftrightarrow> distinct (map row_id (stRows st)) \<and>
     distinct (map (\<lambda>r. (row_agent r, row_seq r)) (stRows st)) \<and>
     (\<forall>r\<in>set (stRows st). audit None (events_of (row_id r) st) (rwState r)) \<and>
     (\<forall>e\<in>set (stEvents st). evCommand e \<in> row_id ` set (stRows st))"

lemma audit_snoc:
  "audit s es m \<Longrightarrow> evFrom e = Some m \<Longrightarrow> allowedTransition m (evTo e) \<Longrightarrow> audit s (es @ [e]) (evTo e)"
  by (induction s es m rule: audit.induct) auto

lemma begin_tx_frame:
  "begin_tx st = (ok, st') \<Longrightarrow> stRows st' = stRows st \<and> stEvents st' = stEvents st \<and>
     stUsers st' = stUsers st \<and> stSessions st' = stSessions st"
  by (auto simp: begin_tx_def split: list.splits)

lemma find_row_Some: "find_row cid st = Some r \<Longrightarrow> r \<in> set (stRows st) \<and> row_id r = cid"
  by (auto simp: find_row_def find_Some_iff)

lemma find_row_None: "find_row cid st = None \<longleftrightarrow> cid \<notin> row_id ` set (stRows st)"
  by (auto simp: find_row_def find_None_iff)

lemma find_row_distinct:
  "distinct (map row_id (stRows st)) \<Longrightarrow> r \<in> set (stRows st) \<Longrightarrow> find_row (row_id r) st = Some r"
proof -
  assume d: "distinct (map row_id (stRows st))" and r: "r \<in> set (stRows st)"
  then obtain r' where r': "find_row (row_id r) st = Some r'"
    using find_row_None [of "row_id r" st] by (cases "find_row (row_id r) st") auto
  then have "r' \<in> set (stRows st)" "row_id r' = row_id r" using find_row_Some by auto
  then have "r' = r" using d r by (auto simp: distinct_map dest: inj_onD)
  then show ?thesis using r' by simp
qed

lemma update_row_command [simp]: "rwCommand (update_row to ts code json r) = rwCommand r"
  "rwState (update_row to ts code json r) = to" "rwUser (update_row to ts code json r) = rwUser r"
  "rwSession (update_row to ts code json r) = rwSession r"
  by (simp_all add: update_row_def)

definition same_tables :: "store \<Rightarrow> store \<Rightarrow> bool" where
  "same_tables st st' \<longleftrightarrow> stRows st' = stRows st \<and> stEvents st' = stEvents st \<and>
     stUsers st' = stUsers st \<and> stSessions st' = stSessions st"

lemma same_tables_refl [simp]: "same_tables st st"
  by (simp add: same_tables_def)

lemma begin_tx_same: "begin_tx st = (ok, st') \<Longrightarrow> same_tables st st'"
  using begin_tx_frame by (simp add: same_tables_def)

lemma find_row_same: "same_tables st st' \<Longrightarrow> find_row cid st' = find_row cid st"
  by (simp add: find_row_def same_tables_def)

text \<open>A transition changes nothing, or one row and its audit trail.\<close>

lemma transitionAt_cases:
  assumes "transitionAt jv cid to a reason code json now st = (res, st')"
    and "distinct (map row_id (stRows st))"
  obtains e where "res = Some e" "same_tables st st'"
  | r json' where "res = None" "find_row cid st = Some r" "allowedTransition (rwState r) to"
      "session_known st (acSessionID a)"
      "json' = (if json = [] then ''{}'' else json)"
      "stRows st' = map (\<lambda>x. if row_id x = cid then update_row to now code json' x else x) (stRows st)"
      "stEvents st' = stEvents st @ [\<lparr>evCommand = cid, evActor = acUserID a, evSession = acSessionID a,
         evFrom = Some (rwState r), evTo = to, evAt = now, evReason = reason\<rparr>]"
      "stUsers st' = stUsers st" "stSessions st' = stSessions st" "jv json'"
proof -
  let ?json = "if json = [] then ''{}'' else json"
  obtain ok st1 where b: "begin_tx st = (ok, st1)" by (cases "begin_tx st")
  note f = begin_tx_frame [OF b]
  have same: "same_tables st st1" by (rule begin_tx_same [OF b])
  note fr = find_row_same [OF same, of cid]
  let ?guard = "cid = [] \<or> 128 < length reason \<or> 128 < length code \<or> 16 * 1024 < length json"
  consider (fields) ?guard | (json) "\<not> ?guard" "\<not> jv ?json"
    | (fault) "\<not> ?guard" "jv ?json" "\<not> ok"
    | (missing) "\<not> ?guard" "jv ?json" "ok" "find_row cid st = None"
    | (row) r where "\<not> ?guard" "jv ?json" "ok" "find_row cid st = Some r"
    by (cases "find_row cid st") auto
  then show thesis
  proof cases
    case fields
    then show ?thesis using assms(1) that(1) by (auto simp: transitionAt_def)
  next
    case json
    then show ?thesis using assms(1) that(1) by (auto simp: transitionAt_def Let_def split: if_splits)
  next
    case fault
    then show ?thesis using assms(1) b same that(1) by (auto simp: transitionAt_def Let_def split: if_splits)
  next
    case missing
    then show ?thesis using assms(1) b same fr that(1) by (auto simp: transitionAt_def Let_def split: if_splits)
  next
    case row
    let ?ev = "\<lparr>evCommand = cid, evActor = acUserID a, evSession = acSessionID a,
         evFrom = Some (rwState r), evTo = to, evAt = now, evReason = reason\<rparr>"
    let ?upd = "map (\<lambda>x. if row_id x = cid \<and> rwState x = rwState r then update_row to now code ?json x else x)
         (stRows st1)"
    have eq: "(res, st') =
      (if \<not> allowedTransition (rwState r) to then (Some TransForbidden, st1)
       else case insert_event ?ev (st1\<lparr>stRows := ?upd\<rparr>) of
         None \<Rightarrow> (Some TransDatabase, st1) | Some st2 \<Rightarrow> (None, st2))"
      using assms(1) row fr unfolding transitionAt_def Let_def b prod.case
      by (simp split del: if_split)
    have upd: "?upd = map (\<lambda>x. if row_id x = cid then update_row to now code ?json x else x) (stRows st)"
    proof -
      have "x = r" if "x \<in> set (stRows st)" "row_id x = cid" for x
        using find_row_Some [OF row(4)] assms(2) that by (auto simp: distinct_map dest: inj_onD)
      then show ?thesis using f by auto
    qed
    show ?thesis
    proof (cases "allowedTransition (rwState r) to \<and> session_known st (acSessionID a)")
      case True
      then have ins: "insert_event ?ev (st1\<lparr>stRows := ?upd\<rparr>) =
          Some (st1\<lparr>stRows := ?upd, stEvents := stEvents st1 @ [?ev]\<rparr>)"
        using f by (simp add: insert_event_def session_known_def)
      then have "res = None" "st' = st1\<lparr>stRows := ?upd, stEvents := stEvents st1 @ [?ev]\<rparr>"
        using eq True by simp_all
      then show ?thesis using that(2) [OF _ row(4)] True upd f row(2) by simp
    next
      case False
      have "res \<noteq> None \<and> st' = st1"
      proof (cases "allowedTransition (rwState r) to")
        case True
        then have "insert_event ?ev (st1\<lparr>stRows := ?upd\<rparr>) = None"
          using False f by (simp add: insert_event_def session_known_def)
        then show ?thesis using eq True by simp
      next
        case False
        then show ?thesis using eq by simp
      qed
      then show ?thesis using that(1) same by auto
    qed
  qed
qed

lemma store_inv_same: "same_tables st st' \<Longrightarrow> store_inv st \<Longrightarrow> store_inv st'"
  by (simp add: same_tables_def store_inv_def events_of_def)

lemma map_row_update [simp]:
  "map row_id (map (\<lambda>x. if row_id x = cid then update_row to now code json x else x) rs) = map row_id rs"
  "map (\<lambda>r. (row_agent r, row_seq r)) (map (\<lambda>x. if row_id x = cid then update_row to now code json x else x) rs) =
     map (\<lambda>r. (row_agent r, row_seq r)) rs"
  by auto

lemma transitionAt_inv:
  assumes "transitionAt jv cid to a reason code json now st = (res, st')" and "store_inv st"
  shows "store_inv st'"
proof -
  have d: "distinct (map row_id (stRows st))" using assms(2) by (simp add: store_inv_def)
  show ?thesis
    using assms(1) d
  proof (cases rule: transitionAt_cases)
    case (1 e)
    then show ?thesis using store_inv_same assms(2) by blast
  next
    case (2 r json')
    let ?ev = "\<lparr>evCommand = cid, evActor = acUserID a, evSession = acSessionID a,
         evFrom = Some (rwState r), evTo = to, evAt = now, evReason = reason\<rparr>"
    note r = find_row_Some [OF 2(2)]
    have ids: "row_id ` set (stRows st') = row_id ` set (stRows st)"
      using map_row_update(1) [of cid to now code json' "stRows st"] 2(6) by (metis set_map)
    have uniq: "distinct (map row_id (stRows st'))" "distinct (map (\<lambda>r. (row_agent r, row_seq r)) (stRows st'))"
      using assms(2) unfolding 2(6) map_row_update by (simp_all add: store_inv_def)
    have "audit None (events_of (row_id y) st') (rwState y)" if y: "y \<in> set (stRows st')" for y
    proof -
      obtain x where x: "x \<in> set (stRows st)" "y = (if row_id x = cid then update_row to now code json' x else x)"
        using y 2(6) by auto
      have ax: "audit None (events_of (row_id x) st) (rwState x)" using assms(2) x(1) by (simp add: store_inv_def)
      show ?thesis
      proof (cases "row_id x = cid")
        case True
        then have "x = r" using r x(1) d by (auto simp: distinct_map dest: inj_onD)
        then have "audit None (events_of cid st @ [?ev]) (evTo ?ev)"
          using ax True 2(3) by (intro audit_snoc [of _ _ "rwState r"]) auto
        then show ?thesis using x(2) True 2(7) by (simp add: events_of_def)
      next
        case False
        then show ?thesis using x(2) ax 2(7) by (simp add: events_of_def)
      qed
    qed
    moreover have "evCommand e \<in> row_id ` set (stRows st')" if "e \<in> set (stEvents st')" for e
      using that assms(2) 2(7) ids r by (auto simp: store_inv_def)
    ultimately show ?thesis using uniq by (simp add: store_inv_def)
  qed
qed

text \<open>Commands never change, and rows of finished commands never change.\<close>

definition finished :: "cmd_state \<Rightarrow> bool" where
  "finished s \<longleftrightarrow> s = Succeeded \<or> s = Failed \<or> s = Expired"

lemma finished_no_transition: "finished s \<Longrightarrow> \<not> allowedTransition s to"
  by (auto simp: finished_def)

definition grows :: "store \<Rightarrow> store \<Rightarrow> bool" where
  "grows st st' \<longleftrightarrow> (\<exists>new. map rwCommand (stRows st') = map rwCommand (stRows st) @ new) \<and>
     (\<exists>evs. stEvents st' = stEvents st @ evs) \<and>
     (\<forall>r\<in>set (stRows st). finished (rwState r) \<longrightarrow> r \<in> set (stRows st')) \<and>
     stUsers st' = stUsers st \<and> stSessions st' = stSessions st"

lemma grows_refl [simp]: "grows st st"
  by (simp add: grows_def)

lemma grows_trans: "grows a b \<Longrightarrow> grows b c \<Longrightarrow> grows a c"
  unfolding grows_def by (metis append.assoc)

lemma grows_same: "same_tables st st' \<Longrightarrow> grows st st'"
  by (simp add: same_tables_def grows_def)

lemma transitionAt_grows:
  assumes "transitionAt jv cid to a reason code json now st = (res, st')" and "store_inv st"
  shows "grows st st'"
proof -
  have d: "distinct (map row_id (stRows st))" using assms(2) by (simp add: store_inv_def)
  show ?thesis
    using assms(1) d
  proof (cases rule: transitionAt_cases)
    case (1 e)
    then show ?thesis by (simp add: grows_same)
  next
    case (2 r json')
    have "map rwCommand (stRows st') = map rwCommand (stRows st)" using 2(6) by auto
    moreover have "x \<in> set (stRows st')" if "x \<in> set (stRows st)" "finished (rwState x)" for x
    proof -
      have "row_id x \<noteq> cid"
      proof
        assume "row_id x = cid"
        then have "x = r" using find_row_distinct [OF d that(1)] 2(2) by simp
        then show False using that(2) 2(3) finished_no_transition by blast
      qed
      then show ?thesis using that(1) 2(6) by (auto intro: rev_image_eqI)
    qed
    ultimately show ?thesis using 2(7-9) by (simp add: grows_def)
  qed
qed

subsection \<open>Creation\<close>

lemma fold_max_bound: "(a :: 'a :: linorder) \<le> fold max xs a \<and> (x \<in> set xs \<longrightarrow> x \<le> fold max xs a)"
proof (induction xs arbitrary: a)
  case (Cons y ys)
  have "max y a \<le> fold max ys (max y a)" using Cons.IH by blast
  then show ?case using Cons.IH [of "max y a"] by (auto intro: order_trans)
qed simp

lemma word_Suc_greater: "(m :: uint64) + 1 \<noteq> 0 \<Longrightarrow> x \<le> m \<Longrightarrow> x < m + 1"
  by unat_arith

lemma createOne_effect:
  assumes "createOne cr signer a action payload now (agentID, cid) st = Some (c, st')" and "store_inv st"
  shows "store_inv st' \<and> stRows st' = stRows st @ [newRow a c] \<and> stUsers st' = stUsers st \<and>
    stSessions st' = stSessions st \<and> (\<exists>e. stEvents st' = stEvents st @ [e]) \<and>
    cAgentID c = agentID \<and> cCommandID c = cid \<and> cAction c = action \<and> cPayload c = payload \<and>
    cIssuedAt c = now \<and> cExpiresAt c = now + word_of_int (TTL action div second) \<and>
    (\<forall>r\<in>set (stRows st). row_agent r = agentID \<longrightarrow> row_seq r < cSequence c) \<and>
    (\<exists>unsigned. SignCommand cr signer (Some unsigned) = Inr c)"
proof -
  let ?u = "\<lparr>cControlVersion = Version, cType = ''command'', cCommandID = cid,
             cSequence = nextSequence agentID st, cAgentID = agentID, cAction = action,
             cIssuedAt = now, cExpiresAt = now + word_of_int (TTL action div second),
             cPayload = payload, cSignature = []\<rparr>"
  let ?ev = "\<lparr>evCommand = cid, evActor = acUserID a, evSession = acSessionID a,
                          evFrom = None, evTo = Queued, evAt = now, evReason = ''created''\<rparr>"
  obtain st1 where s: "SignCommand cr signer (Some ?u) = Inr c" and i: "insert_row (newRow a c) st = Some st1"
    and e: "insert_event ?ev st1 = Some st'"
    using assms(1) by (auto simp: createOne_def Let_def split: sum.splits option.splits)
  have c: "c = ?u\<lparr>cSignature := cSignature c\<rparr>"
    using s by (auto simp: SignCommand_def split: if_splits)
  have cf: "cAgentID c = agentID" "cCommandID c = cid" "cAction c = action" "cPayload c = payload"
    "cIssuedAt c = now" "cExpiresAt c = now + word_of_int (TTL action div second)"
    "cSequence c = nextSequence agentID st"
    by (subst c, simp)+
  have st1: "st1 = st\<lparr>stRows := stRows st @ [newRow a c]\<rparr>" and new: "cid \<notin> row_id ` set (stRows st)"
    and pair: "\<forall>x\<in>set (stRows st). \<not> (row_agent x = agentID \<and> row_seq x = cSequence c)"
    and pos: "cSequence c \<noteq> 0"
    using i cf(1,2) by (auto simp: insert_row_def newRow_def split: if_splits)
  have st': "st' = st1\<lparr>stEvents := stEvents st @ [?ev]\<rparr>"
    using e st1 by (auto simp: insert_event_def split: if_splits)
  have old: "events_of x st' = events_of x st" if "x \<in> row_id ` set (stRows st)" for x
    using that new st' by (auto simp: events_of_def)
  have none: "events_of cid st = []"
    using new assms(2) by (auto simp: events_of_def store_inv_def filter_empty_conv)
  have "store_inv st'"
    using assms(2) new pair st1 st' cf none old
    by (auto simp: store_inv_def newRow_def events_of_def image_iff)
  moreover have "row_seq r < cSequence c" if "r \<in> set (stRows st)" "row_agent r = agentID" for r
  proof -
    have "row_seq r \<le> fold max (map row_seq (filter (\<lambda>r. row_agent r = agentID) (stRows st))) 0"
      using that fold_max_bound [of 0 "map row_seq (filter (\<lambda>r. row_agent r = agentID) (stRows st))" "row_seq r"]
      by auto
    then show ?thesis using pos cf(7) by (simp add: nextSequence_def word_Suc_greater)
  qed
  ultimately show ?thesis using st1 st' cf s by auto
qed

lemma createAll_effect:
  assumes "createAll cr signer a action payload now targets st = Some (cs, st')" and "store_inv st"
  shows "store_inv st' \<and> stRows st' = stRows st @ map (newRow a) cs \<and> stUsers st' = stUsers st \<and>
    stSessions st' = stSessions st \<and> (\<exists>es. stEvents st' = stEvents st @ es) \<and>
    map cAgentID cs = map fst targets \<and> map cCommandID cs = map snd targets \<and>
    (\<forall>c\<in>set cs. cAction c = action \<and> cPayload c = payload \<and> cIssuedAt c = now \<and>
       cExpiresAt c = now + word_of_int (TTL action div second) \<and>
       (\<forall>r\<in>set (stRows st). row_agent r = cAgentID c \<longrightarrow> row_seq r < cSequence c) \<and>
       (\<exists>unsigned. SignCommand cr signer (Some unsigned) = Inr c))"
  using assms
proof (induction targets arbitrary: st cs)
  case (Cons x xs)
  obtain agentID cid where x: "x = (agentID, cid)" by (cases x)
  obtain c st1 cs1 where c: "createOne cr signer a action payload now (agentID, cid) st = Some (c, st1)"
    and r: "createAll cr signer a action payload now xs st1 = Some (cs1, st')" and cs: "cs = c # cs1"
    using Cons.prems(1) x by (auto split: option.splits)
  note one = createOne_effect [OF c Cons.prems(2)]
  note IH = Cons.IH [OF r one [THEN conjunct1]]
  show ?case using one IH cs x by auto
qed simp

lemma CreateBatch_cases:
  assumes "CreateBatch cr jv signer a agentIDs action payload randoms now st = (res, st')" and "store_inv st"
  obtains e where "res = Inl e" "same_tables st st'"
  | cs st1 where "res = Inr cs" "same_tables st st1" "store_inv st1"
      "createAll cr signer a action payload now (zip agentIDs (map commandUUID randoms)) st1 = Some (cs, st')"
      "distinct agentIDs"
proof -
  obtain ok st1 where b: "begin_tx st = (ok, st1)" by (cases "begin_tx st")
  note same = begin_tx_same [OF b]
  let ?c = "createAll cr signer a action payload now (zip agentIDs (map commandUUID randoms)) st1"
  consider "\<exists>e. (res, st') = (Inl e, st)" | "(res, st') = (Inl CreateDatabase, st1)"
    | cs where "?c = Some (cs, st')" "res = Inr cs" "distinct agentIDs"
    using assms(1) b by (auto simp: CreateBatch_def Let_def split: if_splits option.splits)
  then show thesis
    using that same store_inv_same [OF same assms(2)] by cases auto
qed

subsection \<open>Results\<close>

lemma expireAll_inv:
  "expireAll jv now ids st = (res, st') \<Longrightarrow> store_inv st \<Longrightarrow> store_inv st' \<and> grows st st'"
proof (induction ids arbitrary: st)
  case (Cons cid ids)
  obtain r1 st1 where t: "transitionAt jv cid Expired noActor ''ttl_expired'' [] [] now st = (r1, st1)"
    by (cases "transitionAt jv cid Expired noActor ''ttl_expired'' [] [] now st")
  note i = transitionAt_inv [OF t Cons.prems(2)] and g = transitionAt_grows [OF t Cons.prems(2)]
  show ?case
  proof (cases r1)
    case None
    then show ?thesis using Cons t i g grows_trans by auto
  next
    case (Some e)
    then show ?thesis using Cons.prems t i g by auto
  qed
qed simp

lemma Expire_inv:
  "Expire jv now st = (res, st') \<Longrightarrow> store_inv st \<Longrightarrow> store_inv st' \<and> grows st st'"
  by (auto simp: Expire_def Let_def split: prod.splits option.splits dest: expireAll_inv)

lemma advance_inv:
  "advance jv cid a now to reason code json st = (res, st') \<Longrightarrow> store_inv st \<Longrightarrow> store_inv st' \<and> grows st st'"
  by (auto simp: advance_def split: prod.splits option.splits dest: transitionAt_inv transitionAt_grows)

lemma advanceResult_inv:
  assumes "advanceResult jv res to json a now state st = (err, st')" and "store_inv st"
  shows "store_inv st' \<and> grows st st'"
proof -
  obtain r1 st1 where s1: "(if state = Dispatched
      then advance jv (rCommandID res) a now Accepted ''agent_accepted'' [] [] st else (Inr state, st)) = (r1, st1)"
    by (metis surj_pair)
  have i1: "store_inv st1 \<and> grows st st1"
    using s1 assms(2) advance_inv [of jv "rCommandID res" a now Accepted _ _ _ st r1 st1] by (auto split: if_splits)
  show ?thesis
  proof (cases r1)
    case (Inl e)
    then show ?thesis using assms(1) s1 i1 unfolding advanceResult_def by simp
  next
    case (Inr state1)
    obtain r2 st2 where s2: "(if state1 = Accepted \<and> to \<noteq> Accepted
        then advance jv (rCommandID res) a now Running ''agent_running'' [] [] st1 else (Inr state1, st1)) = (r2, st2)"
      by (metis surj_pair)
    have i2: "store_inv st2 \<and> grows st1 st2"
      using s2 i1 advance_inv [of jv "rCommandID res" a now Running _ _ _ st1 r2 st2] by (auto split: if_splits)
    obtain r3 st3 where s3: "advance jv (rCommandID res) a now to ''agent_terminal'' (rCode res) json st2 = (r3, st3)"
      by (metis surj_pair)
    have i3: "store_inv st3 \<and> grows st2 st3" using advance_inv [OF s3] i2 by blast
    have "st' = st2 \<or> st' = st3"
      using assms(1) Inr unfolding advanceResult_def s1 by (auto simp: s2 s3 split: sum.splits if_splits)
    then show ?thesis using i1 i2 i3 grows_trans by blast
  qed
qed

text \<open>The rows of other Agents.\<close>

definition foreign_rows :: "bytes \<Rightarrow> store \<Rightarrow> command_row list" where
  "foreign_rows agentID st = filter (\<lambda>r. row_agent r \<noteq> agentID) (stRows st)"

definition targets :: "bytes \<Rightarrow> bytes \<Rightarrow> store \<Rightarrow> bool" where
  "targets cid agentID st \<longleftrightarrow> distinct (map row_id (stRows st)) \<and> (\<forall>r\<in>set (stRows st). row_id r = cid \<longrightarrow> row_agent r = agentID)"

lemma transitionAt_foreign:
  assumes "transitionAt jv cid to a reason code json now st = (res, st')" and "targets cid agentID st"
  shows "foreign_rows agentID st' = foreign_rows agentID st \<and> targets cid agentID st'"
proof -
  have d: "distinct (map row_id (stRows st))" using assms(2) by (simp add: targets_def)
  show ?thesis
    using assms(1) d
  proof (cases rule: transitionAt_cases)
    case (1 e)
    then show ?thesis using assms(2) by (simp add: foreign_rows_def targets_def same_tables_def)
  next
    case (2 r json')
    have "filter (\<lambda>r. row_agent r \<noteq> agentID) (map (\<lambda>x. if row_id x = cid then update_row to now code json' x else x) xs) =
        filter (\<lambda>r. row_agent r \<noteq> agentID) xs" if "\<forall>r\<in>set xs. row_id r = cid \<longrightarrow> row_agent r = agentID" for xs
      using that by (induction xs) auto
    then have "foreign_rows agentID st' = foreign_rows agentID st" using assms(2) by (simp add: foreign_rows_def targets_def 2(6))
    moreover have "distinct (map row_id (stRows st'))" using d unfolding 2(6) map_row_update .
    moreover have "row_agent x = agentID" if "x \<in> set (stRows st')" "row_id x = cid" for x
    proof -
      obtain y where "y \<in> set (stRows st)" "rwCommand x = rwCommand y" using \<open>x \<in> _\<close> unfolding 2(6) by (auto split: if_splits)
      then show ?thesis using assms(2) \<open>row_id x = cid\<close> by (simp add: targets_def)
    qed
    ultimately show ?thesis unfolding targets_def by blast
  qed
qed

lemma advance_foreign:
  "advance jv cid a now to reason code json st = (res, st') \<Longrightarrow> targets cid agentID st \<Longrightarrow>
     foreign_rows agentID st' = foreign_rows agentID st \<and> targets cid agentID st'"
  by (auto simp: advance_def split: prod.splits option.splits dest: transitionAt_foreign)

lemma advanceResult_foreign:
  assumes "advanceResult jv res to json a now state st = (err, st')" and "targets (rCommandID res) agentID st"
  shows "foreign_rows agentID st' = foreign_rows agentID st"
proof -
  obtain r1 st1 where s1: "(if state = Dispatched
      then advance jv (rCommandID res) a now Accepted ''agent_accepted'' [] [] st else (Inr state, st)) = (r1, st1)"
    by (metis surj_pair)
  have i1: "foreign_rows agentID st1 = foreign_rows agentID st \<and> targets (rCommandID res) agentID st1"
    using s1 assms(2) advance_foreign [of jv "rCommandID res" a now Accepted _ _ _ st r1 st1] by (auto split: if_splits)
  show ?thesis
  proof (cases r1)
    case (Inl e)
    then show ?thesis using assms(1) s1 i1 unfolding advanceResult_def by simp
  next
    case (Inr state1)
    obtain r2 st2 where s2: "(if state1 = Accepted \<and> to \<noteq> Accepted
        then advance jv (rCommandID res) a now Running ''agent_running'' [] [] st1 else (Inr state1, st1)) = (r2, st2)"
      by (metis surj_pair)
    have i2: "foreign_rows agentID st2 = foreign_rows agentID st1 \<and> targets (rCommandID res) agentID st2"
      using s2 i1 advance_foreign [of jv "rCommandID res" a now Running _ _ _ st1 r2 st2] by (auto split: if_splits)
    obtain r3 st3 where s3: "advance jv (rCommandID res) a now to ''agent_terminal'' (rCode res) json st2 = (r3, st3)"
      by (metis surj_pair)
    have i3: "foreign_rows agentID st3 = foreign_rows agentID st2" using advance_foreign [OF s3] i2 by blast
    have "st' = st2 \<or> st' = st3"
      using assms(1) Inr unfolding advanceResult_def s1 by (auto simp: s2 s3 split: sum.splits if_splits)
    then show ?thesis using i1 i2 i3 by metis
  qed
qed

lemma ApplyAgentResult_inv:
  assumes "ApplyAgentResult jv agentID res now st = (err, st')" and "store_inv st"
  shows "store_inv st' \<and> grows st st'"
  using assms advanceResult_inv
  by (auto simp: ApplyAgentResult_def split: sum.splits prod.splits)

text \<open>C7. Every operation of the store keeps its invariant (command IDs and per-agent sequences are unique, and
  the events of each command form a path of allowed transitions from its creation to its present
  state), only appends commands and events, never changes a stored command, and never changes a row
  that succeeded, failed or expired.\<close>

theorem store_keeps_audit_trail:
  assumes "store_inv st"
  shows "(CreateBatch cr jv signer a agentIDs action payload randoms now st = (r1, st1) \<longrightarrow>
            store_inv st1 \<and> grows st st1) \<and>
    (transitionAt jv cid to a reason code json now st = (r2, st2) \<longrightarrow> store_inv st2 \<and> grows st st2) \<and>
    (Expire jv now st = (r3, st3) \<longrightarrow> store_inv st3 \<and> grows st st3) \<and>
    (ApplyAgentResult jv agentID res now st = (r4, st4) \<longrightarrow> store_inv st4 \<and> grows st st4)"
proof -
  have "store_inv st1 \<and> grows st st1"
    if "CreateBatch cr jv signer a agentIDs action payload randoms now st = (r1, st1)"
    using that assms
  proof (cases rule: CreateBatch_cases)
    case (1 e)
    then show ?thesis using assms store_inv_same grows_same by blast
  next
    case (2 cs st0)
    from createAll_effect [OF 2(4,3)] show ?thesis
      using 2(2) by (auto simp: grows_def same_tables_def)
  qed
  moreover have "store_inv st2 \<and> grows st st2"
    if "transitionAt jv cid to a reason code json now st = (r2, st2)"
    using transitionAt_inv [OF that assms] transitionAt_grows [OF that assms] ..
  moreover have "store_inv st3 \<and> grows st st3" if "Expire jv now st = (r3, st3)"
    by (rule Expire_inv [OF that assms])
  moreover have "store_inv st4 \<and> grows st st4" if "ApplyAgentResult jv agentID res now st = (r4, st4)"
    by (rule ApplyAgentResult_inv [OF that assms])
  ultimately show ?thesis by blast
qed

text \<open>\<open>CreateBatch\<close> is all or nothing: on an error no command and no event is stored; on success it
  returns one command per Agent, in order, each signed by the Panel's key so that the Agents verify it,
  with a sequence above every earlier one of that Agent and the lifetime of its action, and stores
  exactly these commands as queued.\<close>

theorem CreateBatch_all_or_nothing:
  assumes "store_inv st" and "crypto_sizes cr" and "key_pair cr signer pub"
    and "length randoms = length agentIDs"
    and "CreateBatch cr jv signer a agentIDs action payload randoms now st = (res, st')"
  shows "(\<forall>e. res = Inl e \<longrightarrow> same_tables st st') \<and>
    (\<forall>cs. res = Inr cs \<longrightarrow> map cAgentID cs = agentIDs \<and> stRows st' = stRows st @ map (newRow a) cs \<and>
      (\<forall>c\<in>set cs. VerifyCommand cr pub c = None \<and>
         cExpiresAt c = now + word_of_int (TTL action div second) \<and>
         (\<forall>r\<in>set (stRows st). row_agent r = cAgentID c \<longrightarrow> row_seq r < cSequence c)))"
  using assms(5,1)
proof (cases rule: CreateBatch_cases)
  case (1 e)
  then show ?thesis by simp
next
  case (2 cs st0)
  have verify: "VerifyCommand cr pub c = None" if "SignCommand cr signer (Some u) = Inr c" for u c
    using assms(2,3) that by (auto simp: SignCommand_def VerifyCommand_def crypto_sizes_def key_pair_def)
  from createAll_effect [OF 2(4,3)] show ?thesis
    using 2(1,2) verify assms(4) by (auto simp: same_tables_def)
qed

lemma transitionAt_row:
  assumes "transitionAt jv cid to a reason code json now st = (None, st')" and "store_inv st"
  shows "\<exists>r. find_row cid st = Some r \<and> allowedTransition (rwState r) to \<and>
    find_row cid st' = Some (update_row to now code (if json = [] then ''{}'' else json) r) \<and>
    stRows st' = map (\<lambda>x. if row_id x = cid then update_row to now code (if json = [] then ''{}'' else json) x else x)
      (stRows st) \<and>
    stUsers st' = stUsers st \<and> stSessions st' = stSessions st \<and> jv (if json = [] then ''{}'' else json)"
proof -
  have d: "distinct (map row_id (stRows st))" using assms(2) by (simp add: store_inv_def)
  show ?thesis
    using assms(1) d
  proof (cases rule: transitionAt_cases)
    case (1 e)
    then show ?thesis by simp
  next
    case (2 r json')
    have "distinct (map row_id (stRows st'))" using d unfolding 2(6) map_row_update .
    moreover have "update_row to now code json' r \<in> set (stRows st')"
      using find_row_Some [OF 2(2)] unfolding 2(6) by (auto intro: rev_image_eqI)
    moreover have "row_id (update_row to now code json' r) = cid" using find_row_Some [OF 2(2)] by simp
    ultimately have "find_row cid st' = Some (update_row to now code json' r)"
      using find_row_distinct [of st' "update_row to now code json' r"] by simp
    then show ?thesis using 2 by auto
  qed
qed

lemma advance_row:
  assumes "advance jv cid a now to reason code json st = (Inr s, st')" and "store_inv st"
  shows "s = to \<and> store_inv st' \<and> (\<exists>r. find_row cid st = Some r \<and>
    find_row cid st' = Some (update_row to now code (if json = [] then ''{}'' else json) r)) \<and>
    stUsers st' = stUsers st"
proof -
  have t: "transitionAt jv cid to a reason code json now st = (None, st')" "s = to"
    using assms(1) by (auto simp: advance_def split: prod.splits option.splits)
  show ?thesis using transitionAt_row [OF t(1) assms(2)] transitionAt_inv [OF t(1) assms(2)] t(2) by auto
qed

text \<open>A terminal report that \<open>advanceResult\<close> accepts is what the row holds afterwards.\<close>

lemma advanceResult_terminal:
  assumes "advanceResult jv res to json a now state st = (None, st')" and "store_inv st"
    and "to = Succeeded \<or> to = Failed" and "find_row (rCommandID res) st = Some r" and "json \<noteq> []"
  shows "\<exists>r'. find_row (rCommandID res) st' = Some r' \<and> rwState r' = to \<and> rwCode r' = rCode res \<and>
    rwResult r' = json \<and> rwCommand r' = rwCommand r \<and> rwUser r' = rwUser r \<and> rwSession r' = rwSession r \<and>
    stUsers st' = stUsers st"
proof -
  obtain r1 st1 where s1: "(if state = Dispatched
      then advance jv (rCommandID res) a now Accepted ''agent_accepted'' [] [] st else (Inr state, st)) = (r1, st1)"
    by (metis surj_pair)
  obtain state1 where r1: "r1 = Inr state1"
    using assms(1) s1 unfolding advanceResult_def by (cases r1) auto
  have row1: "store_inv st1 \<and> stUsers st1 = stUsers st \<and> (\<exists>x. find_row (rCommandID res) st1 = Some x \<and>
      rwCommand x = rwCommand r \<and> rwUser x = rwUser r \<and> rwSession x = rwSession r)"
    using s1 r1 assms(2,4) advance_row [of jv "rCommandID res" a now Accepted _ _ _ st state1 st1]
    by (auto split: if_splits)
  obtain r2 st2 where s2: "(if state1 = Accepted \<and> to \<noteq> Accepted
        then advance jv (rCommandID res) a now Running ''agent_running'' [] [] st1 else (Inr state1, st1)) = (r2, st2)"
    by (metis surj_pair)
  obtain state2 where r2: "r2 = Inr state2"
    using assms(1) s2 unfolding advanceResult_def s1 r1 by (cases r2) auto
  have row2: "store_inv st2 \<and> stUsers st2 = stUsers st \<and> (\<exists>x. find_row (rCommandID res) st2 = Some x \<and>
      rwCommand x = rwCommand r \<and> rwUser x = rwUser r \<and> rwSession x = rwSession r)"
    using s2 r2 row1 advance_row [of jv "rCommandID res" a now Running _ _ _ st1 state2 st2]
    by (auto split: if_splits)
  obtain r3 where s3: "advance jv (rCommandID res) a now to ''agent_terminal'' (rCode res) json st2 = (r3, st')"
    and "r3 = Inr to"
    using assms(1,3) unfolding advanceResult_def s1 r1
    by (auto simp: s2 r2 split: sum.splits prod.splits dest!: advance_row [OF _ row2 [THEN conjunct1], THEN conjunct1])
  then show ?thesis
    using advance_row [of jv "rCommandID res" a now to _ _ _ st2 to st'] row2 assms(3,5)
    by (auto simp: update_row_def)
qed

definition result_data :: "command_result \<Rightarrow> bytes" where
  "result_data res = (if rData res = [] then ''{}'' else rData res)"

lemma checkResult_Inr:
  assumes "checkResult jv agentID res st = Inr (to, json, a, r)"
  shows "result_state (rState res) = Some to \<and> json = result_data res \<and>
    find_row (rCommandID res) st = Some r \<and> row_actor st r = Some a \<and> row_agent r = agentID \<and>
    row_seq r = rSequence res \<and> rControlVersion res = Version \<and> rType res = ''command_result'' \<and>
    rCommandID res \<noteq> [] \<and> length (rCode res) \<le> 128 \<and> length (rData res) \<le> 16 * 1024 \<and>
    (rData res = [] \<or> jv (rData res))"
  using assms unfolding checkResult_def Let_def result_data_def not_less [symmetric]
  by (simp split: if_split_asm option.split_asm)

lemma ApplyAgentResult_foreign:
  assumes "ApplyAgentResult jv agentID res now st = (err, st')" and "store_inv st"
  shows "foreign_rows agentID st' = foreign_rows agentID st"
proof (cases "checkResult jv agentID res st")
  case (Inl e)
  then show ?thesis using assms(1) by (simp add: ApplyAgentResult_def)
next
  case (Inr x)
  obtain to json a r where x: "x = (to, json, a, r)" by (cases x)
  note c = checkResult_Inr [OF Inr [unfolded x]]
  have "row_agent y = agentID" if "y \<in> set (stRows st)" "row_id y = rCommandID res" for y
    using find_row_distinct [of st y] that c assms(2) by (simp add: store_inv_def)
  then have "targets (rCommandID res) agentID st" using assms(2) by (simp add: targets_def store_inv_def)
  then show ?thesis using assms(1) Inr x advanceResult_foreign by (simp add: ApplyAgentResult_def)
qed

definition well_formed_result :: "(bytes \<Rightarrow> bool) \<Rightarrow> command_result \<Rightarrow> bool" where
  "well_formed_result jv res \<longleftrightarrow> rControlVersion res = Version \<and> rType res = ''command_result'' \<and>
     rCommandID res \<noteq> [] \<and> length (rCode res) \<le> 128 \<and> length (rData res) \<le> 16 * 1024 \<and>
     (rData res = [] \<or> jv (rData res)) \<and> result_state (rState res) \<noteq> None"

lemma checkResult_terminal_row:
  assumes "find_row (rCommandID res) st = Some r" and "rwState r = Succeeded \<or> rwState r = Failed"
    and "row_actor st r \<noteq> None" and "row_agent r = agentID" and "row_seq r = rSequence res"
    and "well_formed_result jv res"
  shows "checkResult jv agentID res st =
    (if state_name (rwState r) = rState res \<and> rwCode r = rCode res \<and> jsonEqual (rwResult r) (result_data res)
     then Inl None else Inl (Some ResultChanged))"
  using assms by (auto simp: checkResult_def well_formed_result_def result_data_def Let_def)

lemma state_name_result_state: "result_state s = Some to \<longleftrightarrow> s = state_name to \<and> to \<in> {Accepted, Running, Succeeded, Failed}"
  by (cases to) (auto simp: result_state_def)

lemma checkResult_Inl_None:
  assumes "checkResult jv agentID res st = Inl None"
  shows "\<exists>r a. find_row (rCommandID res) st = Some r \<and> row_actor st r = Some a \<and> row_agent r = agentID \<and>
    row_seq r = rSequence res \<and> (rwState r = Succeeded \<or> rwState r = Failed) \<and>
    state_name (rwState r) = rState res \<and> rwCode r = rCode res \<and>
    jsonEqual (rwResult r) (result_data res) \<and> well_formed_result jv res"
  using assms unfolding checkResult_def Let_def result_data_def well_formed_result_def not_less [symmetric]
  by (simp split: if_split_asm option.split_asm)

lemma state_name_inject: "state_name s = state_name t \<longleftrightarrow> s = t"
  by (cases s; cases t) auto


subsection \<open>Expiry\<close>

definition overdue :: "int64 \<Rightarrow> command_row \<Rightarrow> bool" where
  "overdue now r \<longleftrightarrow> rwState r \<in> {Queued, Dispatched} \<and> cExpiresAt (rwCommand r) \<le>s now"

lemma expireAll_rows:
  assumes "expireAll jv now ids st = (None, st')" and "store_inv st" and "distinct ids"
  shows "stRows st' = map (\<lambda>x. if row_id x \<in> set ids then update_row Expired now [] ''{}'' x else x) (stRows st)"
  using assms
proof (induction ids arbitrary: st)
  case (Cons cid ids)
  obtain r1 st1 where t: "transitionAt jv cid Expired noActor ''ttl_expired'' [] [] now st = (r1, st1)"
    by (cases "transitionAt jv cid Expired noActor ''ttl_expired'' [] [] now st")
  have n: "r1 = None" "expireAll jv now ids st1 = (None, st')" using Cons.prems(1) t by (auto split: option.splits)
  have "stRows st' = map (\<lambda>x. if row_id x \<in> set ids then update_row Expired now [] ''{}'' x else x) (stRows st1)"
    using Cons.IH [OF n(2) transitionAt_inv [OF t Cons.prems(2)]] Cons.prems(3) by simp
  moreover have "stRows st1 = map (\<lambda>x. if row_id x = cid then update_row Expired now [] ''{}'' x else x) (stRows st)"
    using transitionAt_row [OF t [unfolded n(1)] Cons.prems(2)] by auto
  ultimately show ?case using Cons.prems(3) by auto
qed (simp add: map_idI)

text \<open>When \<open>Expire\<close> succeeds no queued or dispatched command is past its expiry, every command it touched
  was overdue and is now expired, and every other row is untouched.\<close>

theorem Expire_complete:
  assumes "store_inv st" and "Expire jv now st = (Inr n, st')"
  shows "(\<forall>r\<in>set (stRows st'). \<not> overdue now r) \<and>
    stRows st' = map (\<lambda>r. if overdue now r then update_row Expired now [] ''{}'' r else r) (stRows st) \<and>
    n = length (filter (overdue now) (stRows st))"
proof -
  let ?due = "due_rows now st" and ?ids = "map row_id (due_rows now st)"
  have set_due: "set ?due = {r \<in> set (stRows st). overdue now r}"
    by (auto simp: due_rows_def overdue_def)
  have d: "distinct (map row_id (stRows st))" using assms(1) by (simp add: store_inv_def)
  then have dd: "distinct ?ids"
    using distinct_map_filter [of row_id "stRows st"] by (simp add: due_rows_def distinct_map)
  have e: "expireAll jv now ?ids st = (None, st')" "n = length ?ids"
    using assms(2) by (auto simp: Expire_def Let_def split: prod.splits option.splits)
  have mem: "row_id x \<in> set ?ids \<longleftrightarrow> overdue now x" if x: "x \<in> set (stRows st)" for x
    using x d set_due by (auto simp: distinct_map dest: inj_onD)
  have rows: "stRows st' = map (\<lambda>r. if overdue now r then update_row Expired now [] ''{}'' r else r) (stRows st)"
    unfolding expireAll_rows [OF e(1) assms(1) dd] using mem by auto
  have "length ?ids = length (filter (overdue now) (stRows st))"
    by (auto simp: due_rows_def overdue_def intro!: arg_cong [of _ _ length] filter_cong)
  moreover have "\<not> overdue now y" if y: "y \<in> set (stRows st')" for y
    using y unfolding rows by (auto simp: overdue_def)
  ultimately show ?thesis using rows e(2) by blast
qed

subsection \<open>Logging out\<close>

lemma logged_out_creator:
  assumes "store_inv st" and "find_row cid st = Some r" and "\<not> session_known st (rwSession r)"
  shows "(\<forall>to a reason code json now. acSessionID a = rwSession r \<longrightarrow>
      (\<exists>e st'. transitionAt jv cid to a reason code json now st = (Some e, st') \<and> same_tables st st')) \<and>
    (\<forall>agentID res now. rCommandID res = cid \<and> rwState r \<in> {Dispatched, Accepted} \<and>
       result_state (rState res) \<noteq> Some Accepted \<longrightarrow>
       (\<exists>e st'. ApplyAgentResult jv agentID res now st = (Some e, st') \<and> same_tables st st'))"
proof -
  have d: "distinct (map row_id (stRows st))" using assms(1) by (simp add: store_inv_def)
  have fail: "\<exists>e st'. transitionAt jv cid to a reason code json now st = (Some e, st') \<and> same_tables st st'"
    if a: "acSessionID a = rwSession r" for to a reason code json now
  proof -
    obtain res st' where t: "transitionAt jv cid to a reason code json now st = (res, st')"
      by (cases "transitionAt jv cid to a reason code json now st")
    show ?thesis
      using t d by (cases rule: transitionAt_cases) (use assms(3) a t in auto)
  qed
  have "\<exists>e st'. ApplyAgentResult jv agentID res now st = (Some e, st') \<and> same_tables st st'"
    if p: "rCommandID res = cid" "rwState r \<in> {Dispatched, Accepted}" "result_state (rState res) \<noteq> Some Accepted"
    for agentID res now
  proof (cases "checkResult jv agentID res st")
    case (Inl early)
    moreover have "early \<noteq> None"
    proof
      assume "early = None"
      then show False using checkResult_Inl_None [of jv agentID res st] Inl p assms(2) by auto
    qed
    ultimately show ?thesis by (cases early) (auto simp: ApplyAgentResult_def)
  next
    case (Inr x)
    obtain to json a r' where x: "x = (to, json, a, r')" by (cases x)
    note c = checkResult_Inr [OF Inr [unfolded x]]
    have r': "r' = r" using c p(1) assms(2) by simp
    have a: "acSessionID a = rwSession r" using c r' by (auto simp: row_actor_def split: option.splits)
    obtain e1 st1 where f1: "transitionAt jv cid Accepted a ''agent_accepted'' [] [] now st = (Some e1, st1)" "same_tables st st1"
      using fail [OF a] by blast
    obtain e2 st2 where f2: "transitionAt jv cid Running a ''agent_running'' [] [] now st = (Some e2, st2)" "same_tables st st2"
      using fail [OF a] by blast
    show ?thesis
      using Inr x r' p c f1 f2 by (auto simp: ApplyAgentResult_def advanceResult_def advance_def)
  qed
  then show ?thesis using fail by blast
qed

text \<open>Once the session row of a command's creator is deleted (as the Panel's logout does), the trigger on the
  event table refuses every further event in that session's name: no transition in its name can
  succeed, whatever state the command is in, and every result of the Agent for a delivered command
  is refused with the store unchanged.\<close>

theorem logout_blocks_results:
  assumes "store_inv st" and "find_row cid st = Some r" and "\<not> session_known st (rwSession r)"
  shows "(\<forall>to a reason code json now. acSessionID a = rwSession r \<longrightarrow>
      (\<exists>e st'. transitionAt jv cid to a reason code json now st = (Some e, st') \<and> same_tables st st')) \<and>
    (\<forall>agentID res now. rCommandID res = cid \<and> rwState r \<in> {Dispatched, Accepted} \<and>
       result_state (rState res) \<noteq> Some Accepted \<longrightarrow>
       (\<exists>e st'. ApplyAgentResult jv agentID res now st = (Some e, st') \<and> same_tables st st'))"
  using logged_out_creator [OF assms] .

subsection \<open>Concrete instances\<close>

definition sample_actor :: actor where
  "sample_actor = \<lparr>acUserID = 1, acUsername = ''op'', acRole = Operator, acSessionID = ''s1'',
     acReauthenticatedAt = None\<rparr>"

definition sample_store :: store where
  "sample_store = \<lparr>stRows = [], stEvents = [], stUsers = [(1, ''op'', Operator)], stSessions = [''s1''],
     stFaults = []\<rparr>"

lemma sample_store_inv: "store_inv sample_store"
  by (simp add: store_inv_def sample_store_def)

definition sample_batch :: "(create_error + command list) \<times> store" where
  "sample_batch = CreateBatch pad_crypto (\<lambda>_. True) sample_private sample_actor [''a1'', ''a2''] CollectNow ''{}''
     [replicate 16 CHR ''x'', replicate 16 CHR ''y''] 100 sample_store"

lemma sample_batch_ok: "\<exists>cs. fst sample_batch = Inr cs"
proof -
  have "commandUUID (replicate 16 CHR ''x'') \<noteq> commandUUID (replicate 16 CHR ''y'')"
    by code_simp
  then show ?thesis
    by (simp add: sample_batch_def CreateBatch_def sample_actor_def sample_store_def TTL_def CollectNow_def
        MaxMessageBytes_def begin_tx_def createOne_def SignCommand_def sample_private_def PrivateKeySize_def
        insert_row_def newRow_def nextSequence_def Version_def validAction_def session_known_def
        insert_event_def Let_def)
qed

theorem CreateBatch_all_or_nothing_witness:
  "\<exists>cs. fst sample_batch = Inr cs \<and> map cAgentID cs = [''a1'', ''a2''] \<and>
     (\<forall>c\<in>set cs. VerifyCommand pad_crypto sample_public c = None)"
proof -
  obtain cs where cs: "fst sample_batch = Inr cs" using sample_batch_ok by blast
  have "CreateBatch pad_crypto (\<lambda>_. True) sample_private sample_actor [''a1'', ''a2''] CollectNow ''{}''
     [replicate 16 CHR ''x'', replicate 16 CHR ''y''] 100 sample_store = (Inr cs, snd sample_batch)"
    using cs by (metis prod.collapse sample_batch_def)
  from CreateBatch_all_or_nothing [OF sample_store_inv pad_crypto_sizes pad_crypto_key_pair _ this]
  show ?thesis using cs by simp
qed

theorem store_keeps_audit_trail_witness: "store_inv (snd sample_batch) \<and> grows sample_store (snd sample_batch)"
  using store_keeps_audit_trail [OF sample_store_inv] unfolding sample_batch_def by (metis prod.collapse)

definition sample_row :: "cmd_state \<Rightarrow> command_row" where
  "sample_row s = \<lparr>rwCommand = sample_command, rwState = s, rwDispatchedAt = 0, rwAcceptedAt = 0,
     rwStartedAt = 0, rwFinishedAt = 0, rwAttempts = 1, rwCode = [], rwResult = ''{}'', rwUser = 1, rwSession = ''s1''\<rparr>"

definition sample_events :: "command_event list" where
  "sample_events =
     [\<lparr>evCommand = ''c1'', evActor = 1, evSession = ''s1'', evFrom = None, evTo = Queued, evAt = 100, evReason = ''created''\<rparr>,
      \<lparr>evCommand = ''c1'', evActor = 1, evSession = ''s1'', evFrom = Some Queued, evTo = Dispatched, evAt = 101, evReason = ''hub_enqueued''\<rparr>]"

definition delivered_store :: store where
  "delivered_store = sample_store\<lparr>stRows := [sample_row Dispatched], stEvents := sample_events\<rparr>"

lemma delivered_store_inv: "store_inv delivered_store" "store_inv (delivered_store\<lparr>stSessions := []\<rparr>)"
  by (simp_all add: store_inv_def delivered_store_def sample_store_def sample_row_def sample_command_def
      events_of_def sample_events_def)

definition sample_result :: command_result where
  "sample_result = \<lparr>rControlVersion = ''1'', rType = ''command_result'', rCommandID = ''c1'', rSequence = 7,
     rState = ''succeeded'', rCode = ''collected'', rData = ''{}''\<rparr>"

lemmas sample_result_simps = delivered_store_def sample_store_def sample_row_def sample_command_def
  sample_result_def Version_def result_state_def find_row_def row_actor_def checkResult_def
  ApplyAgentResult_def advanceResult_def advance_def transitionAt_def begin_tx_def insert_event_def
  session_known_def update_row_def

lemma sample_applied: "fst (ApplyAgentResult (\<lambda>_. True) ''a1'' sample_result 200 delivered_store) = None"
  by (simp add: sample_result_simps Let_def)


theorem Expire_complete_witness:
  "map rwState (stRows (snd (Expire (\<lambda>_. True) 500 delivered_store))) = [Expired]"
proof -
  have "Expire (\<lambda>_. True) 500 delivered_store = (Inr 1, snd (Expire (\<lambda>_. True) 500 delivered_store))"
    by (simp add: Expire_def due_rows_def sample_result_simps word_sle_eq noActor_def Let_def)
  from Expire_complete [OF delivered_store_inv(1) this] show ?thesis
    by (simp add: delivered_store_def sample_row_def sample_command_def overdue_def word_sle_eq)
qed

theorem logout_blocks_results_witness:
  "fst (ApplyAgentResult (\<lambda>_. True) ''a1'' sample_result 200 (delivered_store\<lparr>stSessions := []\<rparr>)) \<noteq> None"
proof -
  have "find_row ''c1'' (delivered_store\<lparr>stSessions := []\<rparr>) = Some (sample_row Dispatched)"
    and "\<not> session_known (delivered_store\<lparr>stSessions := []\<rparr>) (rwSession (sample_row Dispatched))"
    by (simp_all add: sample_result_simps)
  note blocked = logout_blocks_results [OF delivered_store_inv(2) this, THEN conjunct2, rule_format,
      of sample_result "\<lambda>_. True" "''a1''" 200]
  have "\<exists>e st'. ApplyAgentResult (\<lambda>_. True) ''a1'' sample_result 200 (delivered_store\<lparr>stSessions := []\<rparr>) = (Some e, st') \<and>
      same_tables (delivered_store\<lparr>stSessions := []\<rparr>) st'"
    by (rule blocked) (simp add: sample_result_def sample_row_def result_state_def)
  then show ?thesis by auto
qed

end
