(* ===== verification/Hub.thy ===== *)
theory Hub
  imports GoStrings "HOL-Library.AList"
begin

text \<open>
  \<open>internal/panel/control/hub.go\<close>: the sessions of connected Agents, at most one per Agent. A session is
  its identifier and its bounded outbound channel; the reasons that sessions were closed with are
  logged in \<open>hbClosed\<close>. The interface \<open>command_sender\<close> is what the dispatcher needs of it
  (\<open>CommandSender\<close> of \<open>internal/panel/command/dispatcher.go\<close>).
\<close>

record 'm hub_session =
  hsID :: bytes
  hsCapacity :: nat
  hsQueue :: "'m list"

record 'm hub =
  hbSessions :: "(bytes \<times> 'm hub_session) list"
  hbMaxAgents :: nat
  hbQueueSize :: nat
  hbClosed :: "(bytes \<times> bytes) list"

datatype hub_error = HubInvalid | ErrCapacity | ErrOffline | ErrBackpressure

definition NewHub :: "int \<Rightarrow> int \<Rightarrow> 'm hub" where
  "NewHub maxAgents queueSize =
     \<lparr>hbSessions = [], hbMaxAgents = (if maxAgents \<le> 0 then 1000 else nat maxAgents),
      hbQueueSize = (if queueSize \<le> 0 then 32 else nat queueSize), hbClosed = []\<rparr>"

definition Register :: "bytes \<Rightarrow> 'm hub_session \<Rightarrow> 'm hub \<Rightarrow> hub_error option \<times> 'm hub" where
  "Register agentID session h =
     (if agentID = [] \<or> hsID session = [] then (Some HubInvalid, h)
      else
        let old = map_of (hbSessions h) agentID in
        if old = None \<and> hbMaxAgents h \<le> length (hbSessions h) then (Some ErrCapacity, h)
        else
          let h = h\<lparr>hbSessions := AList.update agentID session (hbSessions h)\<rparr> in
          case old of
            None \<Rightarrow> (None, h)
          | Some s \<Rightarrow>
              (None, if hsID s \<noteq> hsID session then h\<lparr>hbClosed := hbClosed h @ [(hsID s, ''replaced'')]\<rparr> else h))"

definition Unregister :: "bytes \<Rightarrow> bytes \<Rightarrow> 'm hub \<Rightarrow> 'm hub" where
  "Unregister agentID sessionID h =
     (case map_of (hbSessions h) agentID of
        None \<Rightarrow> h
      | Some s \<Rightarrow> if hsID s = sessionID then h\<lparr>hbSessions := AList.delete agentID (hbSessions h)\<rparr> else h)"

definition Disconnect :: "bytes \<Rightarrow> bytes \<Rightarrow> 'm hub \<Rightarrow> bool \<times> 'm hub" where
  "Disconnect agentID reason h =
     (case map_of (hbSessions h) agentID of
        None \<Rightarrow> (False, h)
      | Some s \<Rightarrow> (True, h\<lparr>hbSessions := AList.delete agentID (hbSessions h),
                           hbClosed := hbClosed h @ [(hsID s, reason)]\<rparr>))"

definition Send :: "bytes \<Rightarrow> 'm \<Rightarrow> 'm hub \<Rightarrow> hub_error option \<times> 'm hub" where
  "Send agentID message h =
     (case map_of (hbSessions h) agentID of
        None \<Rightarrow> (Some ErrOffline, h)
      | Some s \<Rightarrow>
          if length (hsQueue s) < hsCapacity s
          then (None, h\<lparr>hbSessions :=
                  AList.update agentID (s\<lparr>hsQueue := hsQueue s @ [message]\<rparr>) (hbSessions h)\<rparr>)
          else (Some ErrBackpressure, h))"

definition IsOnline :: "bytes \<Rightarrow> 'm hub \<Rightarrow> bool" where
  "IsOnline agentID h \<longleftrightarrow> map_of (hbSessions h) agentID \<noteq> None"

definition SessionID :: "bytes \<Rightarrow> 'm hub \<Rightarrow> bytes" where
  "SessionID agentID h = (case map_of (hbSessions h) agentID of None \<Rightarrow> [] | Some s \<Rightarrow> hsID s)"

definition Snapshot :: "'m hub \<Rightarrow> (bytes \<times> bytes) list" where
  "Snapshot h = map (\<lambda>(a, s). (a, hsID s)) (hbSessions h)"

subsection \<open>Invariant\<close>

definition hub_ok :: "'m hub \<Rightarrow> bool" where
  "hub_ok h \<longleftrightarrow> distinct (map fst (hbSessions h)) \<and> length (hbSessions h) \<le> hbMaxAgents h \<and>
     (\<forall>(a, s)\<in>set (hbSessions h). a \<noteq> [] \<and> hsID s \<noteq> [])"

definition hub_queue :: "'m hub \<Rightarrow> bytes \<Rightarrow> 'm list" where
  "hub_queue h a = (case map_of (hbSessions h) a of None \<Rightarrow> [] | Some s \<Rightarrow> hsQueue s)"

lemma length_update: "length (AList.update k v xs) = (if k \<in> fst ` set xs then length xs else Suc (length xs))"
  by (induction xs) auto

lemma set_update_subset: "set (AList.update k v xs) \<subseteq> insert (k, v) (set xs)"
  by (induction xs) auto

lemma length_delete_le: "length (AList.delete k xs) \<le> length xs"
  by (simp add: AList.delete_eq length_filter_le)

lemma set_delete_subset: "set (AList.delete k xs) \<subseteq> set xs"
  by (auto simp: AList.delete_eq)

lemma hub_ok_update:
  assumes "hub_ok h" and "a \<noteq> []" and "hsID s \<noteq> []"
    and "map_of (hbSessions h) a \<noteq> None \<or> length (hbSessions h) < hbMaxAgents h"
  shows "hub_ok (h\<lparr>hbSessions := AList.update a s (hbSessions h)\<rparr>)"
  using assms set_update_subset [of a s "hbSessions h"]
  by (auto simp: hub_ok_def length_update distinct_update map_of_eq_None_iff)

lemma hub_ok_delete: "hub_ok h \<Longrightarrow> hub_ok (h\<lparr>hbSessions := AList.delete a (hbSessions h)\<rparr>)"
  using length_delete_le [of a "hbSessions h"] set_delete_subset [of a "hbSessions h"]
  by (auto simp: hub_ok_def intro: distinct_delete)

lemma hub_ok_closed [simp]: "hub_ok (h\<lparr>hbClosed := c\<rparr>) = hub_ok h"
  by (simp add: hub_ok_def)

lemma Register_ok: "hub_ok h \<Longrightarrow> Register a s h = (e, h') \<Longrightarrow> hub_ok h'"
  using hub_ok_update [of h a s]
  by (auto simp: Register_def Let_def not_le split: if_splits option.splits)

lemma Unregister_ok: "hub_ok h \<Longrightarrow> hub_ok (Unregister a i h)"
  by (auto simp: Unregister_def hub_ok_delete split: option.splits)

lemma Disconnect_ok: "hub_ok h \<Longrightarrow> Disconnect a r h = (b, h') \<Longrightarrow> hub_ok h'"
  using hub_ok_delete [of h a] by (auto simp: Disconnect_def hub_ok_def split: option.splits)

lemma Send_ok: "hub_ok h \<Longrightarrow> Send a m h = (e, h') \<Longrightarrow> hub_ok h'"
proof -
  assume h: "hub_ok h" and s: "Send a m h = (e, h')"
  show "hub_ok h'"
  proof (cases "map_of (hbSessions h) a")
    case None
    then show ?thesis using h s by (simp add: Send_def)
  next
    case (Some x)
    then have "(a, x) \<in> set (hbSessions h)" by (rule map_of_SomeD)
    then have "a \<noteq> []" "hsID x \<noteq> []" using h by (auto simp: hub_ok_def)
    then show ?thesis
      using h s Some hub_ok_update [of h a "x\<lparr>hsQueue := hsQueue x @ [m]\<rparr>"]
      by (auto simp: Send_def split: if_splits)
  qed
qed

lemma hub_queue_update: "hub_queue (h\<lparr>hbSessions := AList.update a s (hbSessions h)\<rparr>) =
    (hub_queue h)(a := hsQueue s)"
  by (auto simp: hub_queue_def update_conv fun_eq_iff)

subsection \<open>The interface of the dispatcher\<close>

locale command_sender =
  fixes send :: "bytes \<Rightarrow> 'm \<Rightarrow> 's \<Rightarrow> hub_error option \<times> 's"
    and queued :: "'s \<Rightarrow> bytes \<Rightarrow> 'm list"
  assumes sent: "send a m s = (None, s') \<Longrightarrow> queued s' = (queued s)(a := queued s a @ [m])"
    and not_sent: "send a m s = (Some e, s') \<Longrightarrow> queued s' = queued s"

interpretation hub_sender: command_sender Send hub_queue
proof (unfold_locales, goal_cases)
  case (1 a m h h')
  then obtain s where s: "map_of (hbSessions h) a = Some s"
      "h' = h\<lparr>hbSessions := AList.update a (s\<lparr>hsQueue := hsQueue s @ [m]\<rparr>) (hbSessions h)\<rparr>"
    by (auto simp: Send_def split: option.splits if_splits)
  then show ?case unfolding s(2) hub_queue_update by (simp add: hub_queue_def)
next
  case (2 a m h e h')
  then show ?case by (auto simp: Send_def split: option.splits if_splits)
qed

text \<open>The hub never holds more than its capacity of Agents, has at most one session per Agent, and a session
  that was replaced can no longer remove its successor: after a replacement only the current session
  identifier unregisters the Agent.\<close>

theorem hub_sessions_bounded:
  assumes "hub_ok h"
  shows "(Register a s h = (e, h1) \<longrightarrow> hub_ok h1 \<and>
       (e = None \<longrightarrow> SessionID a h1 = hsID s \<and>
          (\<forall>i. i \<noteq> hsID s \<longrightarrow> Unregister a i h1 = h1))) \<and>
    hub_ok (Unregister a i h) \<and>
    (Disconnect a r h = (b, h2) \<longrightarrow> hub_ok h2 \<and> \<not> IsOnline a h2) \<and>
    (Send a m h = (e2, h3) \<longrightarrow> hub_ok h3 \<and> Snapshot h3 = Snapshot h)"
proof -
  have reg: "SessionID a h1 = hsID s \<and> (\<forall>i. i \<noteq> hsID s \<longrightarrow> Unregister a i h1 = h1)"
    if "Register a s h = (None, h1)"
  proof -
    have "map_of (hbSessions h1) a = Some s"
      using that by (auto simp: Register_def Let_def update_conv split: if_splits option.splits)
    then show ?thesis by (auto simp: SessionID_def Unregister_def)
  qed
  have disc: "\<not> IsOnline a h2" if "Disconnect a r h = (b, h2)"
    using that by (auto simp: Disconnect_def IsOnline_def delete_conv split: option.splits)
  have "map (\<lambda>(a, s). (a, hsID s)) (AList.update a x' xs) = map (\<lambda>(a, s). (a, hsID s)) xs"
    if "map_of xs a = Some x" "hsID x' = hsID x" for xs :: "(bytes \<times> 'a hub_session) list" and x x'
    using that by (induction xs) auto
  then have send: "Snapshot h3 = Snapshot h" if "Send a m h = (e2, h3)"
    using that by (auto simp: Send_def Snapshot_def split: option.splits if_splits)
  show ?thesis
    using reg disc send Register_ok [OF assms] Unregister_ok [OF assms] Disconnect_ok [OF assms] Send_ok [OF assms]
    by metis
qed

definition sample_session :: "bytes \<Rightarrow> nat hub_session" where
  "sample_session i = \<lparr>hsID = i, hsCapacity = 1, hsQueue = []\<rparr>"

theorem hub_sessions_bounded_witness:
  "SessionID ''a'' (snd (Register ''a'' (sample_session ''s1'') (NewHub 1 1))) = ''s1''"
  using hub_sessions_bounded [of "NewHub 1 1" "''a''" "sample_session ''s1''" None
      "snd (Register ''a'' (sample_session ''s1'') (NewHub 1 1))"]
  by (simp add: hub_ok_def NewHub_def Register_def sample_session_def SessionID_def)

end
