(* ===== verification/Dispatcher.thy ===== *)
theory Dispatcher
  imports CommandStore Hub "HOL-Library.Sublist"
begin

text \<open>
  \<open>internal/panel/command/dispatcher.go\<close>: delivery of an Agent's stored commands to its control
  session. The dispatcher takes the \<open>Send\<close> of its sender, so its guarantees are proved from the
  interface \<open>command_sender\<close> and hold for the hub. \<open>encode\<close> is \<open>json.Marshal\<close> of a command.
\<close>

datatype dispatch_error = DispatchUnknown | DispatchEncode | DispatchSend hub_error | DispatchTransition transition_error

definition creatorAndState :: "bytes \<Rightarrow> store \<Rightarrow> (actor \<times> cmd_state) option" where
  "creatorAndState cid st =
     (case find_row cid st of
        None \<Rightarrow> None
      | Some r \<Rightarrow> (case row_actor st r of None \<Rightarrow> None | Some a \<Rightarrow> Some (a, rwState r)))"

definition requiredRole :: "command \<Rightarrow> role" where
  "requiredRole c = (if cAction c = Upgrade then Admin else Operator)"

fun dispatchAll ::
    "(bytes \<Rightarrow> 'm \<Rightarrow> 's \<Rightarrow> hub_error option \<times> 's) \<Rightarrow> (command \<Rightarrow> 'm option) \<Rightarrow> (bytes \<Rightarrow> bool) \<Rightarrow> bytes \<Rightarrow> int64 \<Rightarrow> command list \<Rightarrow>
     store \<Rightarrow> 's \<Rightarrow> dispatch_error option \<times> store \<times> 's" where
  "dispatchAll send encode jv agentID now [] st s = (None, st, s)"
| "dispatchAll send encode jv agentID now (c # cs) st s =
     (case creatorAndState (cCommandID c) st of
        None \<Rightarrow> (Some DispatchUnknown, st, s)
      | Some (a, state) \<Rightarrow>
          if \<not> Require a (requiredRole c) then
            (case transitionAt jv (cCommandID c) Failed a ''authorization_revoked'' ''authorization_revoked''
                    ''{\"status\":\"rejected\"}'' now st of
               (Some e, st) \<Rightarrow> (Some (DispatchTransition e), st, s)
             | (None, st) \<Rightarrow> dispatchAll send encode jv agentID now cs st s)
          else case encode c of
            None \<Rightarrow> (Some DispatchEncode, st, s)
          | Some body \<Rightarrow>
            (case send agentID body s of
               (Some e, s) \<Rightarrow>
                 if e = ErrOffline \<or> e = ErrBackpressure then dispatchAll send encode jv agentID now cs st s
                 else (Some (DispatchSend e), st, s)
             | (None, s) \<Rightarrow>
                 if state = Queued then
                   (case transitionAt jv (cCommandID c) Dispatched a ''hub_enqueued'' [] [] now st of
                      (Some e, st) \<Rightarrow> (Some (DispatchTransition e), st, s)
                    | (None, st) \<Rightarrow> dispatchAll send encode jv agentID now cs st s)
                 else dispatchAll send encode jv agentID now cs st s))"

definition DispatchAgent ::
    "(bytes \<Rightarrow> 'm \<Rightarrow> 's \<Rightarrow> hub_error option \<times> 's) \<Rightarrow> (command \<Rightarrow> 'm option) \<Rightarrow> (bytes \<Rightarrow> bool) \<Rightarrow> bytes \<Rightarrow> int64 \<Rightarrow>
     store \<Rightarrow> 's \<Rightarrow> dispatch_error option \<times> store \<times> 's" where
  "DispatchAgent send encode jv agentID now st s =
     (let st = snd (Expire jv now st) in dispatchAll send encode jv agentID now (QueuedFor agentID now st) st s)"

subsection \<open>Who may have commands delivered\<close>

definition authorized :: "store \<Rightarrow> command \<Rightarrow> bool" where
  "authorized st c \<longleftrightarrow> (\<exists>r a. find_row (cCommandID c) st = Some r \<and> row_actor st r = Some a \<and>
     Require a (requiredRole c))"

definition same_creators :: "store \<Rightarrow> store \<Rightarrow> bool" where
  "same_creators st st' \<longleftrightarrow> (\<forall>cid. map_option (row_actor st') (find_row cid st') = map_option (row_actor st) (find_row cid st))"

lemma same_creators_refl [simp]: "same_creators st st"
  by (simp add: same_creators_def)

lemma same_creators_trans: "same_creators a b \<Longrightarrow> same_creators b c \<Longrightarrow> same_creators a c"
  by (simp add: same_creators_def)

lemma same_creators_authorized: "same_creators st st' \<Longrightarrow> authorized st' c = authorized st c"
proof -
  have A: "authorized x c \<longleftrightarrow> (\<exists>a. map_option (row_actor x) (find_row (cCommandID c) x) = Some (Some a) \<and>
      Require a (requiredRole c))" for x
    by (auto simp: authorized_def)
  show "same_creators st st' \<Longrightarrow> ?thesis" unfolding A by (simp only: same_creators_def)
qed

lemma find_map_update:
  "find (\<lambda>r. row_id r = k) (map (\<lambda>x. if row_id x = cid then update_row to now code json x else x) rs) =
     map_option (\<lambda>x. if row_id x = cid then update_row to now code json x else x) (find (\<lambda>r. row_id r = k) rs)"
  by (induction rs) auto

lemma transitionAt_creators:
  assumes "transitionAt jv cid to a reason code json now st = (res, st')" and "store_inv st"
  shows "same_creators st st'"
proof -
  have d: "distinct (map row_id (stRows st))" using assms(2) by (simp add: store_inv_def)
  show ?thesis
    using assms(1) d
  proof (cases rule: transitionAt_cases)
    case (1 e)
    then show ?thesis by (simp add: same_creators_def same_tables_def find_row_def row_actor_def [abs_def])
  next
    case (2 r json')
    have act: "row_actor st' (update_row to now code json' x) = row_actor st x" "row_actor st' x = row_actor st x"
        "row_actor st (update_row to now code json' x) = row_actor st x" for x
      using 2(8) by (simp_all add: row_actor_def split: option.split prod.split)
    show ?thesis
      unfolding same_creators_def find_row_def 2(6) find_map_update
      by (auto simp: option.map_comp o_def act intro!: map_option_cong)
  qed
qed

lemma transition_step:
  assumes "transitionAt jv cid to a reason code json now st = (res, st')" and "store_inv st"
  shows "store_inv st' \<and> same_creators st st' \<and> grows st st'"
  using transitionAt_inv [OF assms] transitionAt_creators [OF assms] transitionAt_grows [OF assms] by blast

text \<open>Whatever every single send keeps, a dispatch keeps.\<close>

lemma dispatchAll_keeps:
  assumes "\<And>a m s e s'. send a m s = (e, s') \<Longrightarrow> P s \<Longrightarrow> P s'"
    and "dispatchAll send encode jv agentID now cs st s = (err, st', s')" and "P s" and "store_inv st"
  shows "P s' \<and> store_inv st'"
  using assms(2-4)
proof (induction cs arbitrary: st s)
  case (Cons c cs)
  show ?case
    using Cons.prems assms(1) Cons.IH transition_step
    by (auto split: option.splits prod.splits if_splits)
qed simp

lemma DispatchAgent_keeps:
  assumes "\<And>a m s e s'. send a m s = (e, s') \<Longrightarrow> P s \<Longrightarrow> P s'"
    and "DispatchAgent send encode jv agentID now st s = (err, st', s')" and "P s" and "store_inv st"
  shows "P s' \<and> store_inv st'"
proof -
  have "store_inv (snd (Expire jv now st))" using Expire_inv [OF surjective_pairing assms(4)] by blast
  then show ?thesis
    using dispatchAll_keeps [where P = P and send = send] assms unfolding DispatchAgent_def Let_def by metis
qed

context command_sender
begin

lemma dispatchAll_sends:
  assumes "dispatchAll send encode jv agentID now cs st s = (err, st', s')" and "store_inv st"
  shows "\<exists>sentcs. queued s' = (queued s)(agentID := queued s agentID @ map (the \<circ> encode) sentcs) \<and> subseq sentcs cs \<and>
    (\<forall>c\<in>set sentcs. authorized st c) \<and> store_inv st' \<and> same_creators st st' \<and> grows st st'"
  using assms
proof (induction cs arbitrary: st s)
  case Nil
  then show ?case by (intro exI [of _ "[]"]) simp
next
  case (Cons c cs)
  let ?goal = "\<lambda>l st1 s1. queued s1 = (queued s)(agentID := queued s agentID @ map (the \<circ> encode) l) \<and> (\<forall>c\<in>set l. authorized st c) \<and>
      store_inv st1 \<and> same_creators st st1 \<and> grows st st1"
  have more: ?case if l: "?goal l st1 s1" "subseq l [c]"
      and r: "dispatchAll send encode jv agentID now cs st1 s1 = (err, st', s')" for l st1 s1
  proof -
    obtain l2 where l2: "queued s' = (queued s1)(agentID := queued s1 agentID @ map (the \<circ> encode) l2)" "subseq l2 cs"
        "\<forall>c\<in>set l2. authorized st1 c" "store_inv st'" "same_creators st1 st'" "grows st1 st'"
      using Cons.IH [OF r] l by blast
    have "subseq (l @ l2) ([c] @ cs)" using l(2) l2(2) by (rule list_emb_append_mono)
    moreover have "\<forall>c\<in>set (l @ l2). authorized st c"
      using l l2(3) same_creators_authorized [of st st1] by auto
    moreover have "queued s' = (queued s)(agentID := queued s agentID @ map (the \<circ> encode) (l @ l2))" using l l2(1) by simp
    ultimately show ?thesis
      using l(1) l2(4-6) same_creators_trans grows_trans by (intro exI [of _ "l @ l2"]) (auto intro: grows_trans same_creators_trans)
  qed
  have stop: ?case if "?goal l st' s'" "subseq l [c]" for l
  proof -
    have "subseq l (c # cs)" using that(2) list_emb_append_mono [of "(=)" l "[c]" "[]" cs] by simp
    then show ?thesis using that(1) by blast
  qed
  show ?case
  proof (cases "creatorAndState (cCommandID c) st")
    case None
    then have "err = Some DispatchUnknown" "st' = st" "s' = s" using Cons.prems(1) by auto
    then show ?thesis using stop [where l = "[]"] Cons.prems(2) by simp
  next
    case (Some x)
    obtain a state where x: "x = (a, state)" by (cases x)
    have auth: "Require a (requiredRole c) \<Longrightarrow> authorized st c"
      using Some x by (auto simp: creatorAndState_def authorized_def split: option.splits)
    show ?thesis
    proof (cases "Require a (requiredRole c)")
      case False
      obtain r1 st1 where t: "transitionAt jv (cCommandID c) Failed a ''authorization_revoked'' ''authorization_revoked''
                    ''{\"status\":\"rejected\"}'' now st = (r1, st1)" by (metis surj_pair)
      note step = transition_step [OF t Cons.prems(2)]
      show ?thesis
      proof (cases r1)
        case None
        then show ?thesis using more [where l = "[]" and ?st1.0 = st1 and ?s1.0 = s] Cons.prems(1) Some x False t step by simp
      next
        case (Some e)
        then have "st' = st1" "s' = s"
          using Cons.prems(1) \<open>creatorAndState _ st = _\<close> x False t by auto
        then show ?thesis using stop [where l = "[]"] step by simp
      qed
    next
      case True
      show ?thesis
      proof (cases "encode c")
      case None
      then have "st' = st" "s' = s" using Cons.prems(1) Some x True by auto
      then show ?thesis using stop [where l = "[]"] Cons.prems(2) by simp
      next
      case body: (Some body)
      obtain r1 s1 where sd: "send agentID body s = (r1, s1)" by (metis surj_pair)
      show ?thesis
      proof (cases r1)
        case e: (Some e)
        note q = not_sent [OF sd [unfolded e]]
        show ?thesis
        proof (cases "e = ErrOffline \<or> e = ErrBackpressure")
          case retry: True
          then have "dispatchAll send encode jv agentID now cs st s1 = (err, st', s')"
            using Cons.prems(1) Some x True body sd e by simp
          from more [OF _ _ this, where l = "[]"] show ?thesis using Cons.prems(2) q by simp
        next
          case False
          then have "st' = st" "s' = s1" using Cons.prems(1) Some x True body sd e by auto
          then show ?thesis using stop [where l = "[]"] Cons.prems(2) q by simp
        qed
      next
        case None
        note q = sent [OF sd [unfolded None]]
        show ?thesis
        proof (cases "state = Queued")
          case queued_state: True
          obtain r2 st2 where t: "transitionAt jv (cCommandID c) Dispatched a ''hub_enqueued'' [] [] now st = (r2, st2)"
            by (metis surj_pair)
          note step = transition_step [OF t Cons.prems(2)]
          show ?thesis
          proof (cases r2)
            case r2: None
            then have "dispatchAll send encode jv agentID now cs st2 s1 = (err, st', s')"
              using Cons.prems(1) Some x True body sd None queued_state t by simp
            from more [OF _ _ this, where l = "[c]"] show ?thesis using step q auth [OF True] body by simp
          next
            case r2: (Some e)
            then have "st' = st2" "s' = s1"
              using Cons.prems(1) Some x True body sd None queued_state t by auto
            then show ?thesis using stop [where l = "[c]"] step q auth [OF True] body by simp
          qed
        next
          case False
          then have "dispatchAll send encode jv agentID now cs st s1 = (err, st', s')"
            using Cons.prems(1) Some x True body sd None by simp
          from more [OF _ _ this, where l = "[c]"] show ?thesis using Cons.prems(2) q auth [OF True] body by simp
        qed
      qed
      qed
    qed
  qed
qed

end

text \<open>C6. Through the hub, a dispatch delivers to the Agent's session only commands that are stored for this Agent,
  are live (queued or dispatched and not expired, or accepted or running), were created by a user who
  now has the role the action needs (administrator for upgrades, operator otherwise), in sequence
  order and each at most once; sessions of other Agents receive nothing and the store keeps its
  audit trail.\<close>

theorem DispatchAgent_only_authorized:
  assumes "store_inv st" and "DispatchAgent Send encode jv agentID now st h = (err, st', h')"
  shows "\<exists>sentcs live. live = snd (Expire jv now st) \<and>
    hub_queue h' = (hub_queue h)(agentID := hub_queue h agentID @ map (the \<circ> encode) sentcs) \<and>
    subseq sentcs (QueuedFor agentID now live) \<and>
    (\<forall>c\<in>set sentcs. authorized live c \<and>
       (\<exists>r\<in>set (stRows live). rwCommand r = c \<and> live_row agentID now r)) \<and>
    sorted (map cSequence sentcs) \<and> store_inv st'"
proof -
  let ?live = "snd (Expire jv now st)"
  have inv: "store_inv ?live" using Expire_inv [OF surjective_pairing assms(1)] by blast
  have d: "dispatchAll Send encode jv agentID now (QueuedFor agentID now ?live) ?live h = (err, st', h')"
    using assms(2) unfolding DispatchAgent_def Let_def .
  obtain l where l: "hub_queue h' = (hub_queue h)(agentID := hub_queue h agentID @ map (the \<circ> encode) l)"
      "subseq l (QueuedFor agentID now ?live)" "\<forall>c\<in>set l. authorized ?live c" "store_inv st'"
    using hub_sender.dispatchAll_sends [OF d inv] by blast
  have mem: "\<exists>r\<in>set (stRows ?live). rwCommand r = c \<and> live_row agentID now r" if c: "c \<in> set l" for c
    using list_emb_set [OF l(2) c] by (auto simp: QueuedFor_def)
  have "sorted (map cSequence (QueuedFor agentID now ?live))"
    by (simp add: QueuedFor_def o_def)
  moreover have "subseq (map cSequence l) (map cSequence (QueuedFor agentID now ?live))"
    using l(2) by (rule subseq_map)
  ultimately have "sorted (map cSequence l)"
    unfolding subseq_conv_nths using sorted_nths by auto
  then show ?thesis using l mem by blast
qed

definition online_hub :: "command hub" where
  "online_hub = \<lparr>hbSessions = [(''a1'', \<lparr>hsID = ''x'', hsCapacity = 4, hsQueue = []\<rparr>)], hbMaxAgents = 3,
     hbQueueSize = 4, hbClosed = []\<rparr>"

theorem DispatchAgent_only_authorized_witness:
  "hub_queue (snd (snd (DispatchAgent Send Some (\<lambda>_. True) ''a1'' 200 delivered_store online_hub))) ''a1'' =
     [sample_command] \<and>
   store_inv (fst (snd (DispatchAgent Send Some (\<lambda>_. True) ''a1'' 200 delivered_store online_hub)))"
proof
  obtain err st' h' where d: "DispatchAgent Send Some (\<lambda>_. True) ''a1'' 200 delivered_store online_hub = (err, st', h')"
    by (metis prod_cases3)
  show "store_inv (fst (snd (DispatchAgent Send Some (\<lambda>_. True) ''a1'' 200 delivered_store online_hub)))"
    using DispatchAgent_only_authorized [OF delivered_store_inv(1) d] d by auto
  show "hub_queue (snd (snd (DispatchAgent Send Some (\<lambda>_. True) ''a1'' 200 delivered_store online_hub))) ''a1'' =
     [sample_command]"
    by (simp add: DispatchAgent_def Expire_def due_rows_def QueuedFor_def live_row_def creatorAndState_def
        requiredRole_def Require_Operator_iff Send_def hub_queue_def online_hub_def delivered_store_def
        sample_store_def sample_row_def sample_command_def find_row_def row_actor_def word_sle_eq
        word_sless_alt action_defs Let_def)
qed

end
