(* ===== verification/NetAddr.thy ===== *)
theory NetAddr
  imports NP_Prelude
begin

text \<open>
  \<open>internal/netaddr/public.go\<close> and \<open>internal/panel/geo/address.go\<close>: which addresses count as public endpoints. An address is the
  value of \<open>netip.Addr\<close>: 32 bits, or 128 bits with a zone. The tables of prefixes are the ones of the
  source, with each address as a number.
\<close>

unbundle bit_operations_syntax

datatype ip_addr = V4 "32 word" | V6 "128 word" bytes

datatype ip_prefix = P4 "32 word" nat | P6 "128 word" nat

subsection \<open>\<open>net/netip\<close>\<close>

text \<open>An address with a zone is in no prefix.\<close>

fun contains_addr :: "ip_prefix \<Rightarrow> ip_addr \<Rightarrow> bool" where
  "contains_addr (P4 p len) (V4 w) \<longleftrightarrow> drop_bit (32 - len) w = drop_bit (32 - len) p"
| "contains_addr (P6 p len) (V6 w zone) \<longleftrightarrow> zone = [] \<and> drop_bit (128 - len) w = drop_bit (128 - len) p"
| "contains_addr _ _ \<longleftrightarrow> False"

text \<open>An IPv4 address inside ::ffff:0:0/96 becomes a plain one, without a zone.\<close>

fun Unmap :: "ip_addr \<Rightarrow> ip_addr" where
  "Unmap (V4 w) = V4 w"
| "Unmap (V6 w zone) = (if drop_bit 32 w = 0xffff then V4 (ucast w) else V6 w zone)"

fun Is4 :: "ip_addr \<Rightarrow> bool" where
  "Is4 (V4 w) = True"
| "Is4 (V6 w zone) = False"

text \<open>Neither unspecified, nor broadcast, nor loopback, nor multicast, nor link-local. An address with a zone is never equal
  to the unspecified one.\<close>

fun IsGlobalUnicast :: "ip_addr \<Rightarrow> bool" where
  "IsGlobalUnicast (V4 w) \<longleftrightarrow>
     w \<noteq> 0 \<and> w \<noteq> 0xffffffff \<and> drop_bit 24 w \<noteq> 127 \<and> drop_bit 28 w \<noteq> 0xe \<and> drop_bit 16 w \<noteq> 0xa9fe"
| "IsGlobalUnicast (V6 w zone) \<longleftrightarrow>
     \<not> (w = 0 \<and> zone = []) \<and> w \<noteq> 1 \<and> drop_bit 120 w \<noteq> 0xff \<and> drop_bit 118 w \<noteq> 0x3fa"

subsection \<open>The tables\<close>

definition globallyReachableExceptions :: "ip_prefix list" where
  "globallyReachableExceptions =
     [P4 0xc0000009 32, P4 0xc000000a 32, P4 0xc01fc400 24, P4 0xc034c100 24, P4 0xc0af3000 24,
      P6 0x20010001000000000000000000000001 128, P6 0x20010001000000000000000000000002 128,
      P6 0x20010001000000000000000000000003 128, P6 0x20010003000000000000000000000000 32,
      P6 0x20010004011200000000000000000000 48, P6 0x20010020000000000000000000000000 28,
      P6 0x20010030000000000000000000000000 28, P6 0x2620004f800000000000000000000000 48]"

definition specialUsePrefixes :: "ip_prefix list" where
  "specialUsePrefixes =
     [P4 0x00000000 8, P4 0x0a000000 8, P4 0x64400000 10, P4 0x7f000000 8, P4 0xa9fe0000 16, P4 0xac100000 12,
      P4 0xc0000000 24, P4 0xc0000200 24, P4 0xc0586300 24, P4 0xc0a80000 16, P4 0xc6120000 15, P4 0xc6336400 24,
      P4 0xcb007100 24, P4 0xe0000000 4, P4 0xf0000000 4,
      P6 0 128, P6 1 128, P6 0x0064ff9b000000000000000000000000 96, P6 0x0064ff9b000100000000000000000000 48,
      P6 0x01000000000000000000000000000000 64, P6 0x20010000000000000000000000000000 23,
      P6 0x20010002000000000000000000000000 48, P6 0x20010db8000000000000000000000000 32,
      P6 0x20020000000000000000000000000000 16, P6 0x3ffe0000000000000000000000000000 16,
      P6 0x3fff0000000000000000000000000000 20, P6 0x5f000000000000000000000000000000 16,
      P6 0xfc000000000000000000000000000000 7, P6 0xfe800000000000000000000000000000 10,
      P6 0xff000000000000000000000000000000 8]"

text \<open>\<open>None\<close> is the zero value of \<open>netip.Addr\<close>.\<close>

definition IsPublic :: "ip_addr option \<Rightarrow> bool" where
  "IsPublic addr =
     (case addr of
        None \<Rightarrow> False
      | Some a \<Rightarrow>
          let a = Unmap a in
          if \<not> IsGlobalUnicast a then False
          else if \<exists>p\<in>set globallyReachableExceptions. contains_addr p a then True
          else if \<exists>p\<in>set specialUsePrefixes. contains_addr p a then False
          else True)"

subsection \<open>Reported addresses\<close>

text \<open>\<open>atParse\<close> and \<open>atString\<close> stand for \<open>netip.ParseAddr\<close> and \<open>Addr.String\<close>.\<close>

record addr_text =
  atParse :: "bytes \<Rightarrow> ip_addr option"
  atString :: "ip_addr \<Rightarrow> bytes"

definition parseIP :: "addr_text \<Rightarrow> bytes \<Rightarrow> ip_addr option" where
  "parseIP T ip = map_option Unmap (atParse T ip)"

record host_addrs =
  haIPv4 :: bytes
  haIPv6 :: bytes
  haEgressIPv4 :: bytes
  haEgressIPv6 :: bytes

fun firstAddress :: "addr_text \<Rightarrow> (bytes \<times> bool) list \<Rightarrow> bytes" where
  "firstAddress T [] = []"
| "firstAddress T ((ip, wantIPv4) # cs) =
     (case parseIP T ip of
        Some addr \<Rightarrow> if Is4 addr = wantIPv4 then atString T addr else firstAddress T cs
      | None \<Rightarrow> firstAddress T cs)"

definition EffectiveIP :: "addr_text \<Rightarrow> host_addrs \<Rightarrow> bytes" where
  "EffectiveIP T h =
     firstAddress T [(haEgressIPv4 h, True), (haEgressIPv6 h, False), (haIPv4 h, True), (haIPv6 h, False)]"

definition IsPublicIP :: "addr_text \<Rightarrow> bytes \<Rightarrow> bool" where
  "IsPublicIP T ip = (case parseIP T ip of None \<Rightarrow> False | Some addr \<Rightarrow> IsPublic (Some addr))"

subsection \<open>Intervals\<close>

lemma drop_bit_interval:
  fixes w p :: "'a::len word"
  assumes "k \<le> LENGTH('a)" and "2 ^ k dvd unat p"
  shows "drop_bit k w = drop_bit k p \<longleftrightarrow> unat p \<le> unat w \<and> unat w < unat p + 2 ^ k"
proof -
  obtain q where q: "unat p = 2 ^ k * q" using assms(2) by blast
  have "drop_bit k w = drop_bit k p \<longleftrightarrow> unat w div 2 ^ k = unat p div 2 ^ k"
    by (metis unsigned_drop_bit_eq drop_bit_eq_div word_unat_eq_iff unat_drop_bit_eq)
  also have "\<dots> \<longleftrightarrow> unat p \<le> unat w \<and> unat w < unat p + 2 ^ k"
    unfolding q by (auto simp: div_nat_eqI algebra_simps dividend_less_times_div intro: div_nat_eqI)
  finally show ?thesis .
qed


text \<open>The prefixes as half-open intervals of numbers.\<close>

fun prefix_range :: "ip_prefix \<Rightarrow> nat \<times> nat" where
  "prefix_range (P4 p len) = (unat p, unat p + 2 ^ (32 - len))"
| "prefix_range (P6 p len) = (unat p, unat p + 2 ^ (128 - len))"

definition in_range :: "nat \<Rightarrow> nat \<times> nat \<Rightarrow> bool" where
  "in_range n r \<longleftrightarrow> fst r \<le> n \<and> n < snd r"

fun aligned :: "ip_prefix \<Rightarrow> bool" where
  "aligned (P4 p len) \<longleftrightarrow> len \<le> 32 \<and> unat p mod 2 ^ (32 - len) = 0"
| "aligned (P6 p len) \<longleftrightarrow> len \<le> 128 \<and> unat p mod 2 ^ (128 - len) = 0"

fun is_p4 :: "ip_prefix \<Rightarrow> bool" where
  "is_p4 (P4 p len) = True"
| "is_p4 (P6 p len) = False"

lemma tables_aligned: "\<forall>p\<in>set (globallyReachableExceptions @ specialUsePrefixes). aligned p"
  by (simp add: globallyReachableExceptions_def specialUsePrefixes_def)

lemma contains_range4:
  assumes "aligned p"
  shows "contains_addr p (V4 w) \<longleftrightarrow> is_p4 p \<and> in_range (unat w) (prefix_range p)"
proof (cases p)
  case (P4 q len)
  have "drop_bit (32 - len) w = drop_bit (32 - len) q \<longleftrightarrow> unat q \<le> unat w \<and> unat w < unat q + 2 ^ (32 - len)"
    using assms P4 by (intro drop_bit_interval) (simp_all add: mod_eq_0_iff_dvd)
  then show ?thesis using P4 by (simp add: in_range_def)
qed simp

lemma contains_range6:
  assumes "aligned p"
  shows "contains_addr p (V6 w []) \<longleftrightarrow> \<not> is_p4 p \<and> in_range (unat w) (prefix_range p)"
proof (cases p)
  case (P6 q len)
  have "drop_bit (128 - len) w = drop_bit (128 - len) q \<longleftrightarrow> unat q \<le> unat w \<and> unat w < unat q + 2 ^ (128 - len)"
    using assms P6 by (intro drop_bit_interval) (simp_all add: mod_eq_0_iff_dvd)
  then show ?thesis using P6 by (simp add: in_range_def)
qed simp

lemma any_contains4:
  "\<forall>p\<in>set ps. aligned p \<Longrightarrow>
     (\<exists>p\<in>set ps. contains_addr p (V4 w)) \<longleftrightarrow> (\<exists>r\<in>set (map prefix_range (filter is_p4 ps)). in_range (unat w) r)"
  using contains_range4 by auto

lemma any_contains6:
  "\<forall>p\<in>set ps. aligned p \<Longrightarrow>
     (\<exists>p\<in>set ps. contains_addr p (V6 w [])) \<longleftrightarrow>
     (\<exists>r\<in>set (map prefix_range (filter (\<lambda>p. \<not> is_p4 p) ps)). in_range (unat w) r)"
  using contains_range6 by auto

definition allowed4 :: "(nat \<times> nat) list" where
  "allowed4 = [(3221225481, 3221225482), (3221225482, 3221225483), (3223307264, 3223307520), (3224682752, 3224683008),
     (3232706560, 3232706816)]"

definition denied4 :: "(nat \<times> nat) list" where
  "denied4 = [(0, 16777216), (167772160, 184549376), (1681915904, 1686110208), (2130706432, 2147483648),
     (2851995648, 2852061184), (2886729728, 2887778304), (3221225472, 3221225728), (3221225984, 3221226240),
     (3227017984, 3227018240), (3232235520, 3232301056), (3323068416, 3323199488), (3325256704, 3325256960),
     (3405803776, 3405804032), (3758096384, 4026531840), (4026531840, 4294967296)]"

lemma ranges4:
  "map prefix_range (filter is_p4 globallyReachableExceptions) = allowed4"
  "map prefix_range (filter is_p4 specialUsePrefixes) = denied4"
  by (simp_all add: globallyReachableExceptions_def specialUsePrefixes_def allowed4_def denied4_def)

lemma drop_bit_range4: "drop_bit k (w :: 32 word) = q \<Longrightarrow> k \<le> 32 \<Longrightarrow> in_range (unat w) (unat q * 2 ^ k, unat q * 2 ^ k + 2 ^ k)"
proof -
  assume "drop_bit k w = q" "k \<le> 32"
  then have "unat w div 2 ^ k = unat q" by (metis drop_bit_eq_div unat_drop_bit_eq)
  then have "unat w = unat q * 2 ^ k + unat w mod 2 ^ k" by (metis div_mult_mod_eq)
  moreover have "unat w mod 2 ^ k < 2 ^ k" by simp
  ultimately show ?thesis unfolding in_range_def by (metis add_less_cancel_left fst_conv le_add1 snd_conv)
qed

lemma not_unicast4:
  assumes "\<not> IsGlobalUnicast (V4 w)"
  shows "(\<exists>r\<in>set denied4. in_range (unat w) r) \<and> (\<forall>r\<in>set allowed4. \<not> in_range (unat w) r)"
proof -
  consider "w = 0" | "w = 0xffffffff" | "drop_bit 24 w = 127" | "drop_bit 28 w = 0xe" | "drop_bit 16 w = 0xa9fe"
    using assms by auto
  then show ?thesis
  proof cases
    case 1
    then show ?thesis by (simp add: denied4_def allowed4_def in_range_def)
  next
    case 2
    then show ?thesis by (simp add: denied4_def allowed4_def in_range_def)
  next
    case 3
    then show ?thesis using drop_bit_range4 [OF 3] by (simp add: denied4_def allowed4_def in_range_def)
  next
    case 4
    then show ?thesis using drop_bit_range4 [OF 4] by (simp add: denied4_def allowed4_def in_range_def)
  next
    case 5
    then show ?thesis using drop_bit_range4 [OF 5] by (simp add: denied4_def allowed4_def in_range_def)
  qed
qed

lemma IsPublic_v4:
  "IsPublic (Some (V4 w)) \<longleftrightarrow>
     (\<exists>r\<in>set allowed4. in_range (unat w) r) \<or> (\<forall>r\<in>set denied4. \<not> in_range (unat w) r)"
proof -
  have a: "\<forall>p\<in>set globallyReachableExceptions. aligned p" "\<forall>p\<in>set specialUsePrefixes. aligned p"
    using tables_aligned by auto
  have "IsPublic (Some (V4 w)) \<longleftrightarrow> IsGlobalUnicast (V4 w) \<and>
      ((\<exists>r\<in>set allowed4. in_range (unat w) r) \<or> (\<forall>r\<in>set denied4. \<not> in_range (unat w) r))"
    using any_contains4 [OF a(1), of w] any_contains4 [OF a(2), of w] unfolding ranges4 by (simp add: IsPublic_def Let_def)
  then show ?thesis using not_unicast4 [of w] by blast
qed

lemma zoned_never_contained: "zone \<noteq> [] \<Longrightarrow> \<not> contains_addr p (V6 w zone)"
  by (cases p) simp_all

text \<open>C15. An IPv4 address is public exactly if its number lies in one of five registered intervals or in none of the
  fifteen special ones (the test for global unicast adds nothing to the tables), and a mapped address is classified as its IPv4 address. But an
  IPv6 address with a zone is in no prefix: it is public unless it is loopback, multicast or link-local, even
  when it is a unique local or documentation address.\<close>

theorem IsPublic_classification:
  "(IsPublic (Some (V4 w)) \<longleftrightarrow>
      (\<exists>r\<in>set allowed4. in_range (unat w) r) \<or> (\<forall>r\<in>set denied4. \<not> in_range (unat w) r)) \<and>
   (drop_bit 32 v = 0xffff \<longrightarrow> IsPublic (Some (V6 v zone)) = IsPublic (Some (V4 (ucast v)))) \<and>
   (drop_bit 32 v \<noteq> 0xffff \<and> zone \<noteq> [] \<longrightarrow>
      IsPublic (Some (V6 v zone)) = (v \<noteq> 1 \<and> drop_bit 120 v \<noteq> 0xff \<and> drop_bit 118 v \<noteq> 0x3fa))"
  using IsPublic_v4 by (auto simp: IsPublic_def Let_def zoned_never_contained)

theorem IsPublic_classification_witness:
  "IsPublic (Some (V6 0xfc000000000000000000000000000001 ''eth0'')) \<and>
   \<not> IsPublic (Some (V6 0xfc000000000000000000000000000001 []))"
proof
  have "drop_bit 32 (0xfc000000000000000000000000000001 :: 128 word) \<noteq> 0xffff" by simp
  then show "IsPublic (Some (V6 0xfc000000000000000000000000000001 ''eth0''))"
    using IsPublic_classification [of 0 "0xfc000000000000000000000000000001" "''eth0''"] by simp
  show "\<not> IsPublic (Some (V6 0xfc000000000000000000000000000001 []))"
    by (simp add: IsPublic_def globallyReachableExceptions_def specialUsePrefixes_def)
qed

end
