(* ===== verification/Scheduler.thy ===== *)
theory Scheduler
  imports GoEncoding ControlProto
begin

text \<open>
  \<open>internal/agent/scheduler.go\<close> and \<open>internal/retrybackoff/backoff.go\<close>: the collection loop, its
  requests and its timing. The loop and the goroutines that call \<open>Trigger\<close>, \<open>Request\<close>, \<open>Stop\<close> and
  \<open>SetInterval\<close> interleave, so the scheduler is a step relation; appending a waiter and triggering
  are two steps of \<open>Request\<close>. A waiter's response channel is a number; next to it the state records
  how many collections had started when it was appended, and each answer records which collection
  it came from.
\<close>

subsection \<open>Timing\<close>

definition StableJitter :: "crypto \<Rightarrow> bytes \<Rightarrow> duration" where
  "StableJitter c agentID =
     int (be_value (take 8 (sha256 c agentID)) mod nat (10 * second + 1)) - 5 * second"

definition nextDelay :: "duration \<Rightarrow> duration \<Rightarrow> duration" where
  "nextDelay interval jitter =
     (let d = sint (word_of_int (interval + jitter) :: int64) in if d \<le> 0 then 1000000 else d)"

definition Initial :: duration where "Initial = 5 * minute"
definition Maximum :: duration where "Maximum = 6 * hour"

function delay_loop :: "nat \<Rightarrow> nat \<Rightarrow> duration \<Rightarrow> duration" where
  "delay_loop i failures delay =
     (if i < failures \<and> delay < Maximum
      then if Maximum div 2 \<le> delay then Maximum else delay_loop (i + 1) failures (delay * 2)
      else if Maximum < delay then Maximum else delay)"
  by pat_completeness auto
termination by (relation "measure (\<lambda>(i, failures, delay). failures - i)") auto

declare delay_loop.simps [simp del]

definition Delay :: "int \<Rightarrow> duration" where
  "Delay failures = delay_loop 1 (nat (if failures < 1 then 1 else failures)) Initial"

subsection \<open>State\<close>

datatype phase = Starting | Collecting "(nat \<times> nat) list" | Waiting | Finished

record scheduler =
  scInterval :: duration
  scJitter :: duration
  scTrigger :: bool
  scStop :: bool
  scContextDone :: bool
  scWaiters :: "(nat \<times> nat) list"
  scAppended :: "nat set"
  scUsed :: "nat set"
  scPhase :: phase
  scRuns :: nat
  scReplies :: "(nat \<times> nat \<times> nat option) list"

definition NewScheduler :: "crypto \<Rightarrow> bytes \<Rightarrow> duration \<Rightarrow> scheduler" where
  "NewScheduler c agentID interval =
     \<lparr>scInterval = interval, scJitter = StableJitter c agentID, scTrigger = False, scStop = False,
      scContextDone = False, scWaiters = [], scAppended = {}, scUsed = {}, scPhase = Starting,
      scRuns = 0, scReplies = []\<rparr>"

subsection \<open>Operations\<close>

definition Trigger :: "scheduler \<Rightarrow> scheduler" where
  "Trigger s = (if scStop s then s else s\<lparr>scTrigger := True\<rparr>)"

definition appendWaiter :: "nat \<Rightarrow> scheduler \<Rightarrow> scheduler" where
  "appendWaiter w s =
     s\<lparr>scWaiters := scWaiters s @ [(w, scRuns s)], scAppended := insert w (scAppended s),
       scUsed := insert w (scUsed s)\<rparr>"

definition triggerFor :: "nat \<Rightarrow> scheduler \<Rightarrow> scheduler" where
  "triggerFor w s = Trigger (s\<lparr>scAppended := scAppended s - {w}\<rparr>)"

definition removeWaiter :: "nat \<Rightarrow> scheduler \<Rightarrow> scheduler" where
  "removeWaiter w s = s\<lparr>scWaiters := filter (\<lambda>x. fst x \<noteq> w) (scWaiters s)\<rparr>"

definition StopScheduler :: "scheduler \<Rightarrow> scheduler" where
  "StopScheduler s = s\<lparr>scStop := True\<rparr>"

definition SetInterval :: "duration \<Rightarrow> scheduler \<Rightarrow> scheduler" where
  "SetInterval interval s = (if 0 < interval then Trigger (s\<lparr>scInterval := interval\<rparr>) else s)"

definition beginCollection :: "scheduler \<Rightarrow> scheduler" where
  "beginCollection s =
     s\<lparr>scPhase := Collecting (scWaiters s), scWaiters := [], scRuns := Suc (scRuns s)\<rparr>"

text \<open>Leaving the loop answers every remaining waiter with \<open>context.Canceled\<close> (no collection).\<close>

definition leave :: "scheduler \<Rightarrow> scheduler" where
  "leave s =
     s\<lparr>scPhase := Finished, scWaiters := [],
       scReplies := scReplies s @ map (\<lambda>x. (fst x, snd x, None)) (scWaiters s)\<rparr>"

definition endCollection :: "(nat \<times> nat) list \<Rightarrow> scheduler \<Rightarrow> scheduler" where
  "endCollection ws s =
     (let s = s\<lparr>scReplies := scReplies s @ map (\<lambda>x. (fst x, snd x, Some (scRuns s))) ws\<rparr> in
      if scContextDone s \<or> scStop s then leave s
      else if scTrigger s then s\<lparr>scTrigger := False, scPhase := Starting\<rparr>
      else s\<lparr>scPhase := Waiting\<rparr>)"

inductive sched_step :: "scheduler \<Rightarrow> scheduler \<Rightarrow> bool" where
  step_trigger: "sched_step s (Trigger s)"
| step_append: "\<not> scStop s \<Longrightarrow> w \<notin> scUsed s \<Longrightarrow> sched_step s (appendWaiter w s)"
| step_request_trigger: "w \<in> scAppended s \<Longrightarrow> sched_step s (triggerFor w s)"
| step_request_cancelled: "w \<in> scUsed s \<Longrightarrow> w \<notin> scAppended s \<Longrightarrow> sched_step s (removeWaiter w s)"
| step_stop: "sched_step s (StopScheduler s)"
| step_cancel: "sched_step s (s\<lparr>scContextDone := True\<rparr>)"
| step_interval: "sched_step s (SetInterval d s)"
| step_begin: "scPhase s = Starting \<Longrightarrow> sched_step s (beginCollection s)"
| step_end: "scPhase s = Collecting ws \<Longrightarrow> sched_step s (endCollection ws s)"
| step_wait_done: "scPhase s = Waiting \<Longrightarrow> scContextDone s \<or> scStop s \<Longrightarrow> sched_step s (leave s)"
| step_wait_trigger: "scPhase s = Waiting \<Longrightarrow> scTrigger s \<Longrightarrow>
    sched_step s (s\<lparr>scTrigger := False, scPhase := Starting\<rparr>)"
| step_wait_timer: "scPhase s = Waiting \<Longrightarrow> sched_step s (s\<lparr>scPhase := Starting\<rparr>)"

inductive_cases sched_stepE: "sched_step s s'"

inductive sched_reachable :: "scheduler \<Rightarrow> scheduler \<Rightarrow> bool" for s0 where
  reach_start: "sched_reachable s0 s0"
| reach_step: "sched_reachable s0 s \<Longrightarrow> sched_step s s' \<Longrightarrow> sched_reachable s0 s'"

subsection \<open>Timing lemmas\<close>

lemma delay_loop_bounds:
  "0 < delay \<Longrightarrow> delay \<le> Maximum \<Longrightarrow> delay \<le> delay_loop i n delay \<and> delay_loop i n delay \<le> Maximum"
proof (induction i n delay rule: delay_loop.induct)
  case (1 i n delay)
  show ?case
  proof (cases "i < n \<and> delay < Maximum \<and> delay < Maximum div 2")
    case True
    then have "delay * 2 \<le> Maximum" by linarith
    then show ?thesis
      using 1 True by (subst (1 2) delay_loop.simps) auto
  next
    case False
    then show ?thesis using 1(2,3) by (subst (1 2) delay_loop.simps) (auto simp: not_less)
  qed
qed

lemma delay_loop_closed:
  assumes "1 \<le> i" and "delay = min Maximum (Initial * 2 ^ (i - 1))" and "i \<le> n"
  shows "delay_loop i n delay = min Maximum (Initial * 2 ^ (n - 1))"
  using assms
proof (induction i n delay rule: delay_loop.induct)
  case (1 i n delay)
  have mono: "(2::int) ^ (i - 1) \<le> 2 ^ (n - 1)" using 1(4) by (intro power_increasing) auto
  have top: "min Maximum (Initial * 2 ^ (n - 1)) = Maximum" if "Maximum \<le> Initial * 2 ^ (n - 1)"
    using that by simp
  show ?case
  proof (cases "i < n \<and> delay < Maximum")
    case True
    then have d: "delay = Initial * 2 ^ (i - 1)" using 1(3) by (simp add: min_def split: if_splits)
    have pow: "(2::int) ^ (i - 1) * 2 \<le> 2 ^ (n - 1)"
    proof -
      have "(2::int) ^ (i - 1 + 1) \<le> 2 ^ (n - 1)" using True 1(2) by (intro power_increasing) auto
      then show ?thesis by simp
    qed
    show ?thesis
    proof (cases "Maximum div 2 \<le> delay")
      case big: True
      have "Maximum \<le> delay * 2" using big by (simp add: Maximum_def)
      also have "\<dots> \<le> Initial * 2 ^ (n - 1)" using pow d by (simp add: Initial_def)
      finally show ?thesis using True big top by (subst delay_loop.simps) simp
    next
      case small: False
      then have "delay * 2 = min Maximum (Initial * 2 ^ (i + 1 - 1))"
        using d 1(2) by (cases i) (simp_all add: min_def Maximum_def)
      then show ?thesis using 1(1) True small by (subst delay_loop.simps) simp
    qed
  next
    case False
    then consider "i = n" | "delay = Maximum" using 1(3,4) by fastforce
    then show ?thesis
    proof cases
      case 1
      then show ?thesis using False \<open>delay = _\<close> by (subst delay_loop.simps) auto
    next
      case 2
      then have "Maximum \<le> Initial * 2 ^ (i - 1)" using \<open>delay = min _ _\<close> by (simp add: min_def split: if_splits)
      also have "\<dots> \<le> Initial * 2 ^ (n - 1)" using mono by (simp add: Initial_def)
      finally show ?thesis using 2 top by (subst delay_loop.simps) simp
    qed
  qed
qed

text \<open>The retry delay after \<open>n\<close> failures is five minutes doubled \<open>n - 1\<close> times, capped at six hours, and
  never overflows; a count below one is treated as one.\<close>

theorem Delay_closed_form:
  "Delay failures = min (6 * hour) (5 * minute * 2 ^ nat (max 1 failures - 1))"
proof -
  have "Delay failures = min Maximum (Initial * 2 ^ (nat (max 1 failures) - 1))"
    unfolding Delay_def by (subst delay_loop_closed) (auto simp: Initial_def Maximum_def max_def)
  then show ?thesis by (simp add: Initial_def Maximum_def nat_diff_distrib)
qed

text \<open>The stable jitter of an agent lies between minus and plus five seconds, so the delay before the next
  collection is positive for every interval, and differs from a normal interval by at most five
  seconds.\<close>

theorem jitter_and_delay_bounds:
  "- 5 * second \<le> StableJitter c agentID \<and> StableJitter c agentID \<le> 5 * second \<and>
   0 < nextDelay interval (StableJitter c agentID) \<and>
   (5 * second < interval \<and> interval < 2 ^ 62 \<longrightarrow>
      \<bar>nextDelay interval (StableJitter c agentID) - interval\<bar> \<le> 5 * second)"
proof -
  let ?j = "StableJitter c agentID"
  have j: "- 5 * second \<le> ?j" "?j \<le> 5 * second"
  proof -
    have "be_value (take 8 (sha256 c agentID)) mod nat (10 * second + 1) < nat (10 * second + 1)"
      by (rule mod_less_divisor) simp
    then show "- 5 * second \<le> ?j" "?j \<le> 5 * second" by (auto simp: StableJitter_def)
  qed
  have "nextDelay interval ?j = interval + ?j" if "5 * second < interval" "interval < 2 ^ 62"
  proof -
    have "sint (word_of_int (interval + ?j) :: int64) = interval + ?j"
      using that j by (intro sint64_of_int) simp_all
    then show ?thesis using that j by (simp add: nextDelay_def)
  qed
  moreover have "0 < nextDelay interval ?j" by (simp add: nextDelay_def Let_def)
  ultimately show ?thesis using j by auto
qed

theorem jitter_and_delay_bounds_witness:
  "\<bar>nextDelay (5 * minute) (StableJitter pad_crypto ''agent'') - 5 * minute\<bar> \<le> 5 * second"
  using jitter_and_delay_bounds [of pad_crypto "''agent''" "5 * minute"] by simp

subsection \<open>Requests\<close>

text \<open>A waiter whose trigger has been sent is not forgotten: a trigger is pending, the loop is about to
  start a collection, or the scheduler is stopping.\<close>

definition no_lost_request :: "scheduler \<Rightarrow> bool" where
  "no_lost_request s \<longleftrightarrow>
     (\<forall>x\<in>set (scWaiters s). fst x \<notin> scAppended s \<longrightarrow>
        scTrigger s \<or> scStop s \<or> scPhase s = Starting \<or> scPhase s = Finished)"

fun taken :: "phase \<Rightarrow> (nat \<times> nat) list" where
  "taken (Collecting ws) = ws"
| "taken _ = []"

text \<open>Every used channel is in at most one place and its answer comes from a later collection.\<close>

definition answers_ok :: "scheduler \<Rightarrow> bool" where
  "answers_ok s \<longleftrightarrow>
     distinct (map fst (scReplies s) @ map fst (taken (scPhase s)) @ map fst (scWaiters s)) \<and>
     fst ` set (scReplies s) \<union> fst ` set (taken (scPhase s)) \<union> fst ` set (scWaiters s) \<subseteq> scUsed s \<and>
     (\<forall>(w, n, r)\<in>set (scReplies s). \<forall>k. r = Some k \<longrightarrow> n < k \<and> k \<le> scRuns s) \<and>
     (\<forall>x\<in>set (taken (scPhase s)). snd x < scRuns s) \<and>
     (\<forall>x\<in>set (scWaiters s). snd x \<le> scRuns s)"

lemmas sched_defs = Trigger_def appendWaiter_def triggerFor_def removeWaiter_def StopScheduler_def
  SetInterval_def beginCollection_def leave_def endCollection_def Let_def

lemma no_lost_request_step:
  "sched_step s s' \<Longrightarrow> no_lost_request s \<Longrightarrow> no_lost_request s'"
  by (induction rule: sched_step.induct) (fastforce simp: no_lost_request_def sched_defs)+

lemma map_fst_reply [simp]: "map (fst \<circ> (\<lambda>x. (fst x, snd x, r))) xs = map fst xs"
  by simp

lemma distinct_map_filter_tail:
  "distinct (a @ b @ map fst xs) \<Longrightarrow> distinct (a @ b @ map fst (filter P xs))"
  by (induction xs) auto

lemma answers_leave: "answers_ok s \<Longrightarrow> taken (scPhase s) = [] \<Longrightarrow> answers_ok (leave s)"
  by (auto simp: answers_ok_def leave_def)

lemma answers_end:
  assumes "answers_ok s" and "scPhase s = Collecting ws"
  shows "answers_ok (endCollection ws s)"
proof -
  let ?s = "s\<lparr>scReplies := scReplies s @ map (\<lambda>x. (fst x, snd x, Some (scRuns s))) ws\<rparr>"
  have replied: "answers_ok (?s\<lparr>scPhase := p\<rparr>)" if "taken p = []" for p
    using assms that by (auto simp: answers_ok_def)
  have fin: "answers_ok (leave ?s)"
    using answers_leave [OF replied [of Waiting]] by (simp add: leave_def)
  have tr: "answers_ok (?s\<lparr>scTrigger := False, scPhase := Starting\<rparr>)"
    using replied [of Starting] by (simp add: answers_ok_def)
  show ?thesis
    using fin tr replied [of Waiting] by (simp add: endCollection_def Let_def)
qed

lemma answers_ok_step: "sched_step s s' \<Longrightarrow> answers_ok s \<Longrightarrow> answers_ok s'"
proof (induction rule: sched_step.induct)
  case (step_request_cancelled w s)
  then show ?case
    using distinct_map_filter_tail [of "map fst (scReplies s)" "map fst (taken (scPhase s))" "scWaiters s"]
    by (auto simp: answers_ok_def removeWaiter_def)
next
  case (step_end s ws)
  then show ?case by (simp add: answers_end)
next
  case (step_wait_done s)
  then show ?case by (simp add: answers_leave)
next
  case (step_append s w)
  then show ?case by (auto simp: answers_ok_def appendWaiter_def)
qed (auto simp: answers_ok_def sched_defs less_Suc_eq_le)

lemma reachable_requests:
  "sched_reachable (NewScheduler c agentID interval) s \<Longrightarrow> no_lost_request s \<and> answers_ok s"
proof (induction rule: sched_reachable.induct)
  case reach_start
  then show ?case by (simp add: no_lost_request_def answers_ok_def NewScheduler_def)
next
  case (reach_step s s')
  then show ?case using no_lost_request_step answers_ok_step by blast
qed

text \<open>C5. In every interleaving of the loop with requests, triggers, stops and interval changes, each
  request is answered at most once, an answer that carries a result comes from a collection that
  started after the request was registered, and a registered request whose trigger was sent is never
  lost while the scheduler runs: a trigger is pending or a collection is about to start.\<close>

theorem requests_answered_by_later_collection:
  assumes "sched_reachable (NewScheduler c agentID interval) s"
  shows "distinct (map fst (scReplies s)) \<and>
    (\<forall>w n k. (w, n, Some k) \<in> set (scReplies s) \<longrightarrow> n < k \<and> k \<le> scRuns s) \<and>
    (\<forall>x\<in>set (scWaiters s). fst x \<notin> fst ` set (scReplies s)) \<and>
    (\<forall>x\<in>set (scWaiters s). fst x \<notin> scAppended s \<and> \<not> scStop s \<longrightarrow>
       scTrigger s \<or> scPhase s = Starting \<or> scPhase s = Finished)"
proof -
  have a: "answers_ok s" and l: "no_lost_request s" using reachable_requests [OF assms] by blast+
  have d: "distinct (map fst (scReplies s))"
    "fst ` set (scReplies s) \<inter> fst ` set (scWaiters s) = {}"
    using a by (auto simp: answers_ok_def)
  have r: "n < k \<and> k \<le> scRuns s" if "(w, n, Some k) \<in> set (scReplies s)" for w n k
    using a that by (fastforce simp: answers_ok_def)
  show ?thesis using d r l unfolding no_lost_request_def by blast
qed

definition sample_schedule :: scheduler where
  "sample_schedule = endCollection [(7, 0)] (beginCollection (triggerFor 7 (appendWaiter 7
     (NewScheduler pad_crypto ''agent'' (5 * minute)))))"

lemma sample_reachable: "sched_reachable (NewScheduler pad_crypto ''agent'' (5 * minute)) sample_schedule"
  unfolding sample_schedule_def
  by (intro reach_step [OF reach_step [OF reach_step [OF reach_step [OF reach_start step_append]
        step_request_trigger] step_begin] step_end])
    (simp_all add: NewScheduler_def sched_defs)

theorem requests_answered_by_later_collection_witness:
  "scReplies sample_schedule = [(7, 0, Some 1)] \<and> scPhase sample_schedule = Starting \<and>
   distinct (map fst (scReplies sample_schedule))"
  using requests_answered_by_later_collection [OF sample_reachable]
  by (simp add: sample_schedule_def NewScheduler_def sched_defs)

text \<open>Triggers coalesce: any number of triggers during a collection leaves one pending trigger, the end
  of the collection consumes it and starts exactly one follow-up run, and after that run the loop
  waits.\<close>

theorem triggers_coalesce:
  fixes n :: nat
  assumes "scPhase s = Collecting ws" and "\<not> scStop s" and "\<not> scContextDone s"
  defines "t \<equiv> (Trigger ^^ Suc n) s"
  defines "after \<equiv> endCollection ws t"
  defines "second_run \<equiv> beginCollection after"
  shows "scPhase after = Starting \<and> scRuns after = scRuns s \<and>
    scRuns second_run = Suc (scRuns s) \<and>
    scPhase (endCollection (taken (scPhase second_run)) second_run) = Waiting"
proof -
  have "(Trigger ^^ Suc n) s = s\<lparr>scTrigger := True\<rparr>"
    using assms(2) by (induction n) (simp_all add: Trigger_def)
  then show ?thesis
    using assms(1-3) by (simp add: t_def after_def second_run_def endCollection_def beginCollection_def Let_def)
qed

theorem triggers_coalesce_witness:
  "scPhase (endCollection [] ((Trigger ^^ Suc 4) (beginCollection (NewScheduler pad_crypto ''a'' 9)))) = Starting"
  using triggers_coalesce [of "beginCollection (NewScheduler pad_crypto ''a'' 9)" "[]" 4]
  by (simp add: NewScheduler_def beginCollection_def)

end
