(* ===== verification/GeoRefresher.thy ===== *)
theory GeoRefresher
  imports NetAddr Scheduler
begin

text \<open>
  \<open>internal/panel/geo/refresher.go\<close> and \<open>Format\<close> of \<open>geo.go\<close>: the queue of addresses to locate, its single worker, and the tables
  \<open>nodes\<close> and \<open>ip_geo_cache\<close> it fills. A NULL column reads as the default that every query gives it. Every
  statement consumes one entry of \<open>grFaults\<close>; the provider, the clock (nanoseconds) and the texts of
  addresses and of hosts are parameters.
\<close>

subsection \<open>State\<close>

record geo_location =
  glCountry :: bytes
  glRegionName :: bytes
  glCity :: bytes

record node_geo =
  ngNodeID :: bytes
  ngHostJSON :: bytes
  ngGeoIP :: bytes
  ngLocation :: bytes
  ngParts :: geo_location
  ngUpdatedAt :: int

record geo_cache_entry =
  gcLocation :: bytes
  gcParts :: geo_location
  gcUpdatedAt :: int
  gcLastAttemptAt :: int
  gcFailureCount :: nat
  gcRetryAt :: int

record refresher =
  grNodes :: "node_geo list"
  grCache :: "(bytes \<times> geo_cache_entry) list"
  grTTL :: duration
  grQueue :: "bytes list"
  grPending :: "bytes set"
  grProcessing :: "bytes set"
  grDirty :: "bytes set"
  grFaults :: "bool list"

definition refreshQueueCapacity :: nat where "refreshQueueCapacity = 128"

definition NewRefresher :: "node_geo list \<Rightarrow> (bytes \<times> geo_cache_entry) list \<Rightarrow> duration \<Rightarrow> bool list \<Rightarrow> refresher" where
  "NewRefresher nodes cache ttl faults =
     \<lparr>grNodes = nodes, grCache = cache, grTTL = ttl, grQueue = [], grPending = {}, grProcessing = {}, grDirty = {},
      grFaults = faults\<rparr>"

definition unixOf :: "duration \<Rightarrow> int" where "unixOf now = now div second"

definition exec :: "refresher \<Rightarrow> bool \<times> refresher" where
  "exec r = (case grFaults r of [] \<Rightarrow> (True, r) | f # fs \<Rightarrow> (\<not> f, r\<lparr>grFaults := fs\<rparr>))"

definition noParts :: geo_location where
  "noParts = \<lparr>glCountry = [], glRegionName = [], glCity = []\<rparr>"

definition zeroEntry :: geo_cache_entry where
  "zeroEntry = \<lparr>gcLocation = [], gcParts = noParts, gcUpdatedAt = 0, gcLastAttemptAt = 0, gcFailureCount = 0, gcRetryAt = 0\<rparr>"

definition Format :: "geo_location \<Rightarrow> bytes" where
  "Format loc =
     (let parts = (if glCountry loc \<noteq> [] then [glCountry loc] else []);
          parts = (if glCity loc \<noteq> [] then parts @ [glCity loc]
                   else if glRegionName loc \<noteq> [] then parts @ [glRegionName loc] else parts)
      in join ''-'' parts)"

subsection \<open>The queue\<close>

definition enqueue :: "bytes \<Rightarrow> refresher \<Rightarrow> refresher" where
  "enqueue ip r =
     (if ip \<in> grPending r then
        (if ip \<in> grProcessing r then r\<lparr>grDirty := insert ip (grDirty r)\<rparr> else r)
      else if length (grQueue r) < refreshQueueCapacity
      then r\<lparr>grPending := insert ip (grPending r), grQueue := grQueue r @ [ip]\<rparr>
      else r)"

definition finishProcessing :: "bytes \<Rightarrow> refresher \<Rightarrow> refresher" where
  "finishProcessing ip r =
     (let r = r\<lparr>grProcessing := grProcessing r - {ip}\<rparr> in
      if ip \<notin> grDirty r then r\<lparr>grPending := grPending r - {ip}\<rparr>
      else
        let r = r\<lparr>grDirty := grDirty r - {ip}\<rparr> in
        if length (grQueue r) < refreshQueueCapacity then r\<lparr>grQueue := grQueue r @ [ip]\<rparr>
        else r\<lparr>grPending := grPending r - {ip}\<rparr>)"

subsection \<open>Refreshing one address\<close>

definition cachedLocation :: "bytes \<Rightarrow> refresher \<Rightarrow> geo_cache_entry option option \<times> refresher" where
  "cachedLocation ip r = (let (ok, r) = exec r in if \<not> ok then (None, r) else (Some (map_of (grCache r) ip), r))"

definition applyLocation :: "bytes \<Rightarrow> geo_cache_entry \<Rightarrow> refresher \<Rightarrow> bool \<times> refresher" where
  "applyLocation ip cached r =
     (let (ok, r) = exec r in
      if \<not> ok then (False, r)
      else (True, r\<lparr>grNodes := map (\<lambda>n.
        if ngGeoIP n = ip
        then n\<lparr>ngLocation := gcLocation cached, ngParts := gcParts cached, ngUpdatedAt := gcUpdatedAt cached\<rparr>
        else n) (grNodes r)\<rparr>))"

text \<open>The upsert keeps the location and the time of the last success.\<close>

definition failedEntry :: "geo_cache_entry \<Rightarrow> duration \<Rightarrow> geo_cache_entry" where
  "failedEntry cached now =
     (let count = (if gcFailureCount cached < 32 then gcFailureCount cached + 1 else gcFailureCount cached) in
      cached\<lparr>gcFailureCount := count, gcLastAttemptAt := unixOf now,
             gcRetryAt := unixOf (now + Delay (int count))\<rparr>)"

definition persistFailure :: "bytes \<Rightarrow> geo_cache_entry \<Rightarrow> duration \<Rightarrow> refresher \<Rightarrow> bool \<times> refresher" where
  "persistFailure ip cached now r =
     (let (ok, r) = exec r; e = failedEntry cached now in
      if \<not> ok then (False, r)
      else (True, r\<lparr>grCache := AList.update ip
        (case map_of (grCache r) ip of
           None \<Rightarrow> zeroEntry\<lparr>gcLastAttemptAt := gcLastAttemptAt e, gcFailureCount := gcFailureCount e, gcRetryAt := gcRetryAt e\<rparr>
         | Some old \<Rightarrow> old\<lparr>gcLastAttemptAt := gcLastAttemptAt e, gcFailureCount := gcFailureCount e, gcRetryAt := gcRetryAt e\<rparr>)
        (grCache r)\<rparr>))"

definition storeLocation :: "bytes \<Rightarrow> geo_cache_entry \<Rightarrow> refresher \<Rightarrow> bool \<times> refresher" where
  "storeLocation ip cached r =
     (let (ok, r) = exec r in
      if \<not> ok then (False, r) else (True, r\<lparr>grCache := AList.update ip cached (grCache r)\<rparr>))"

definition expired :: "int \<Rightarrow> duration \<Rightarrow> duration \<Rightarrow> bool" where
  "expired updatedAt ttl now \<longleftrightarrow> updatedAt * second + ttl < now"

text \<open>After the cache has been consulted: ask the provider, unless a retry is not due.\<close>

definition lookupLocation ::
    "(bytes \<Rightarrow> geo_location option) \<Rightarrow> duration \<Rightarrow> bytes \<Rightarrow> geo_cache_entry option \<Rightarrow> refresher \<Rightarrow> bool \<times> refresher" where
  "lookupLocation provider now ip found r =
     (if (case found of None \<Rightarrow> False | Some c \<Rightarrow> unixOf now < gcRetryAt c) then (True, r)
      else (case provider ip of
        None \<Rightarrow> let (ok, r) = persistFailure ip (case found of None \<Rightarrow> zeroEntry | Some c \<Rightarrow> c) now r in (False, r)
      | Some loc \<Rightarrow>
          let cached = \<lparr>gcLocation = Format loc, gcParts = loc, gcUpdatedAt = unixOf now, gcLastAttemptAt = unixOf now,
                        gcFailureCount = 0, gcRetryAt = 0\<rparr>;
              (ok, r) = storeLocation ip cached r
          in if \<not> ok then (False, r) else applyLocation ip cached r))"

definition refreshOne ::
    "(bytes \<Rightarrow> geo_location option) \<Rightarrow> duration \<Rightarrow> bytes \<Rightarrow> refresher \<Rightarrow> bool \<times> refresher" where
  "refreshOne provider now ip r =
     (case cachedLocation ip r of
        (None, r) \<Rightarrow> (False, r)
      | (Some None, r) \<Rightarrow> lookupLocation provider now ip None r
      | (Some (Some c), r) \<Rightarrow>
          if 0 < gcUpdatedAt c then
            (let (ok, r) = applyLocation ip c r in
             if \<not> ok then (False, r)
             else if \<not> expired (gcUpdatedAt c) (grTTL r) now then (True, r)
             else lookupLocation provider now ip (Some c) r)
          else lookupLocation provider now ip (Some c) r)"

subsection \<open>Observing nodes\<close>

text \<open>The row an update selects: the node, and its host text when one is expected.\<close>

definition selects :: "bytes \<Rightarrow> bytes option \<Rightarrow> node_geo \<Rightarrow> bool" where
  "selects nodeID expected n \<longleftrightarrow>
     ngNodeID n = nodeID \<and> (case expected of None \<Rightarrow> True | Some h \<Rightarrow> ngHostJSON n = h)"

definition clearGeo :: "node_geo \<Rightarrow> node_geo" where
  "clearGeo n = n\<lparr>ngGeoIP := [], ngLocation := [], ngParts := noParts, ngUpdatedAt := 0\<rparr>"

text \<open>The UTF-8 bytes of the two characters that mark an address of a private network.\<close>

definition intranet :: bytes where
  "intranet = [CHR 0xE5, CHR 0x86, CHR 0x85, CHR 0xE7, CHR 0xBD, CHR 0x91]"

definition privateGeo :: "bytes \<Rightarrow> duration \<Rightarrow> node_geo \<Rightarrow> node_geo" where
  "privateGeo ip now n = n\<lparr>ngGeoIP := ip, ngLocation := intranet, ngParts := noParts, ngUpdatedAt := unixOf now\<rparr>"

definition publicGeo :: "bytes \<Rightarrow> node_geo \<Rightarrow> node_geo" where
  "publicGeo ip n =
     (if ngGeoIP n \<noteq> ip then n\<lparr>ngGeoIP := ip, ngLocation := [], ngParts := noParts, ngUpdatedAt := 0\<rparr> else n)"

definition updateNodes :: "(node_geo \<Rightarrow> bool) \<Rightarrow> (node_geo \<Rightarrow> node_geo) \<Rightarrow> refresher \<Rightarrow> bool \<times> refresher" where
  "updateNodes P f r =
     (let (ok, r) = exec r in
      if \<not> ok then (False, r) else (True, r\<lparr>grNodes := map (\<lambda>n. if P n then f n else n) (grNodes r)\<rparr>))"

definition observeNode ::
    "addr_text \<Rightarrow> duration \<Rightarrow> bytes \<Rightarrow> host_addrs \<Rightarrow> bytes option \<Rightarrow> refresher \<Rightarrow> bool \<times> refresher" where
  "observeNode T now nodeID host expected r =
     (let ip = EffectiveIP T host; P = selects nodeID expected in
      if ip = [] then updateNodes P clearGeo r
      else if \<not> IsPublicIP T ip then updateNodes P (privateGeo ip now) r
      else
        let (ok, r) = updateNodes P (publicGeo ip) r in
        if \<not> ok then (False, r)
        else (case find P (grNodes r) of
          None \<Rightarrow> (expected \<noteq> None, r)
        | Some n \<Rightarrow>
            if ngLocation n = [] \<or> ngUpdatedAt n = 0 \<or> expired (ngUpdatedAt n) (grTTL r) now
            then (True, enqueue ip r) else (True, r)))"

text \<open>\<open>hostText\<close> is what \<open>json.Marshal\<close> writes for the host, \<open>hostOf\<close> what \<open>json.Unmarshal\<close> reads.\<close>

definition ObserveNode ::
    "addr_text \<Rightarrow> (host_addrs \<Rightarrow> bytes) \<Rightarrow> duration \<Rightarrow> bytes \<Rightarrow> host_addrs \<Rightarrow> refresher \<Rightarrow> bool \<times> refresher" where
  "ObserveNode T hostText now nodeID host r = observeNode T now nodeID host (Some (hostText host)) r"

fun reconcileAll ::
    "addr_text \<Rightarrow> (bytes \<Rightarrow> host_addrs option) \<Rightarrow> duration \<Rightarrow> (bytes \<times> bytes) list \<Rightarrow> refresher \<Rightarrow> bool \<times> refresher" where
  "reconcileAll T hostOf now [] r = (True, r)"
| "reconcileAll T hostOf now ((nodeID, hostJSON) # ns) r =
     (case hostOf hostJSON of
        None \<Rightarrow> reconcileAll T hostOf now ns r
      | Some host \<Rightarrow>
          let (ok, r) = observeNode T now nodeID host (Some hostJSON) r in
          if \<not> ok then (False, r) else reconcileAll T hostOf now ns r)"

definition reconcileNodes :: "refresher \<Rightarrow> (bytes \<times> bytes) list option \<times> refresher" where
  "reconcileNodes r =
     (let (ok, r) = exec r in
      if \<not> ok then (None, r) else (Some (map (\<lambda>n. (ngNodeID n, ngHostJSON n)) (grNodes r)), r))"

definition Reconcile ::
    "addr_text \<Rightarrow> (bytes \<Rightarrow> host_addrs option) \<Rightarrow> duration \<Rightarrow> refresher \<Rightarrow> bool \<times> refresher" where
  "Reconcile T hostOf now r =
     (case reconcileNodes r of
        (None, r) \<Rightarrow> (False, r)
      | (Some ns, r) \<Rightarrow> reconcileAll T hostOf now ns r)"

subsection \<open>The worker and the goroutines that observe nodes\<close>

text \<open>What the worker is doing: waiting for the queue, holding an address it has not marked yet, refreshing it, or about
  to finish it. \<open>owed\<close> collects the addresses that were accepted by \<open>enqueue\<close> and whose refresh has not started
  since.\<close>

datatype geo_worker = Waiting | Took bytes | Refreshing bytes | Finishing bytes

record geo_run =
  gwState :: refresher
  gwWorker :: geo_worker
  gwOwed :: "bytes set"

inductive refresher_step :: "geo_run \<Rightarrow> geo_run \<Rightarrow> bool" where
  Request: "refresher_step s (s\<lparr>gwState := enqueue ip (gwState s),
      gwOwed := if ip \<in> grPending (enqueue ip (gwState s)) then insert ip (gwOwed s) else gwOwed s\<rparr>)"
| Take: "gwWorker s = Waiting \<Longrightarrow> grQueue (gwState s) = ip # q \<Longrightarrow>
    refresher_step s (s\<lparr>gwState := (gwState s)\<lparr>grQueue := q\<rparr>, gwWorker := Took ip\<rparr>)"
| Start: "gwWorker s = Took ip \<Longrightarrow>
    refresher_step s (s\<lparr>gwState := (gwState s)\<lparr>grProcessing := insert ip (grProcessing (gwState s))\<rparr>,
      gwWorker := Refreshing ip, gwOwed := gwOwed s - {ip}\<rparr>)"
| Refresh: "gwWorker s = Refreshing ip \<Longrightarrow> refreshOne provider now ip (gwState s) = (ok, r) \<Longrightarrow>
    refresher_step s (s\<lparr>gwState := r, gwWorker := Finishing ip\<rparr>)"
| Finish: "gwWorker s = Finishing ip \<Longrightarrow>
    refresher_step s (s\<lparr>gwState := finishProcessing ip (gwState s), gwWorker := Waiting,
      gwOwed := if ip \<in> grPending (finishProcessing ip (gwState s)) then gwOwed s else gwOwed s - {ip}\<rparr>)"

inductive refresher_reachable :: "geo_run \<Rightarrow> bool" where
  Initially: "refresher_reachable \<lparr>gwState = NewRefresher nodes cache ttl faults, gwWorker = Waiting, gwOwed = {}\<rparr>"
| Step: "refresher_reachable s \<Longrightarrow> refresher_step s t \<Longrightarrow> refresher_reachable t"

fun working_on :: "geo_worker \<Rightarrow> bytes set" where
  "working_on Waiting = {}"
| "working_on (Took ip) = {ip}"
| "working_on (Refreshing ip) = {ip}"
| "working_on (Finishing ip) = {ip}"

fun marked :: "geo_worker \<Rightarrow> bytes set" where
  "marked (Refreshing ip) = {ip}"
| "marked (Finishing ip) = {ip}"
| "marked _ = {}"

text \<open>The queue, the sets and the worker fit together.\<close>

definition queue_inv :: "geo_run \<Rightarrow> bool" where
  "queue_inv s \<longleftrightarrow>
     (let r = gwState s; w = gwWorker s in
      distinct (grQueue r) \<and> length (grQueue r) \<le> refreshQueueCapacity \<and>
      set (grQueue r) \<inter> working_on w = {} \<and>
      grPending r = set (grQueue r) \<union> working_on w \<and> grProcessing r = marked w \<and> grDirty r \<subseteq> marked w)"

definition nothing_lost :: "geo_run \<Rightarrow> bool" where
  "nothing_lost s \<longleftrightarrow>
     (\<forall>ip\<in>gwOwed s. ip \<in> set (grQueue (gwState s)) \<or> gwWorker s = Took ip \<or> ip \<in> grDirty (gwState s))"

definition same_queue :: "refresher \<Rightarrow> refresher \<Rightarrow> bool" where
  "same_queue r r' \<longleftrightarrow> grQueue r' = grQueue r \<and> grPending r' = grPending r \<and> grProcessing r' = grProcessing r \<and>
     grDirty r' = grDirty r"

lemma same_queue_refl [simp]: "same_queue r r" by (simp add: same_queue_def)

lemma same_queue_trans: "same_queue r s \<Longrightarrow> same_queue s t \<Longrightarrow> same_queue r t" by (simp add: same_queue_def)

lemma exec_queue: "exec r = (ok, r') \<Longrightarrow> same_queue r r'"
  by (auto simp: exec_def same_queue_def split: list.splits)

lemma applyLocation_queue: "applyLocation ip c r = (ok, r') \<Longrightarrow> same_queue r r'"
proof -
  assume run: "applyLocation ip c r = (ok, r')"
  obtain b u where 1: "exec r = (b, u)" by (metis surj_pair)
  show ?thesis using run exec_queue [OF 1] by (auto simp: applyLocation_def 1 same_queue_def split: if_splits)
qed

lemma storeLocation_queue: "storeLocation ip c r = (ok, r') \<Longrightarrow> same_queue r r'"
proof -
  assume run: "storeLocation ip c r = (ok, r')"
  obtain b u where 1: "exec r = (b, u)" by (metis surj_pair)
  show ?thesis using run exec_queue [OF 1] by (auto simp: storeLocation_def 1 same_queue_def split: if_splits)
qed

lemma persistFailure_queue: "persistFailure ip c now r = (ok, r') \<Longrightarrow> same_queue r r'"
proof -
  assume run: "persistFailure ip c now r = (ok, r')"
  obtain b u where 1: "exec r = (b, u)" by (metis surj_pair)
  show ?thesis using run exec_queue [OF 1] by (auto simp: persistFailure_def 1 Let_def same_queue_def split: if_splits)
qed

lemma lookupLocation_queue:
  assumes "lookupLocation provider now ip found r = (ok, r')"
  shows "same_queue r r'"
proof (cases "provider ip")
  case None
  obtain b u where 1: "persistFailure ip (case found of None \<Rightarrow> zeroEntry | Some c \<Rightarrow> c) now r = (b, u)" by (metis surj_pair)
  show ?thesis using assms persistFailure_queue [OF 1] by (auto simp: lookupLocation_def None 1 split: if_splits)
next
  case (Some loc)
  let ?c = "\<lparr>gcLocation = Format loc, gcParts = loc, gcUpdatedAt = unixOf now, gcLastAttemptAt = unixOf now,
    gcFailureCount = 0, gcRetryAt = 0\<rparr>"
  obtain b u where 1: "storeLocation ip ?c r = (b, u)" by (metis surj_pair)
  obtain c v where 2: "applyLocation ip ?c u = (c, v)" by (metis surj_pair)
  have "r' \<in> {r, u, v}"
    using assms unfolding lookupLocation_def Some option.case Let_def 1 2 prod.case by (simp split: if_split_asm)
  moreover note q = storeLocation_queue [OF 1] same_queue_trans [OF storeLocation_queue [OF 1] applyLocation_queue [OF 2]]
  ultimately show ?thesis by auto
qed

lemma refreshOne_queue:
  assumes "refreshOne provider now ip r = (ok, r')"
  shows "same_queue r r'"
proof -
  obtain b u where 1: "exec r = (b, u)" by (metis surj_pair)
  have q: "same_queue r u" by (rule exec_queue [OF 1])
  have lk: "same_queue u r'" if "lookupLocation provider now ip f u = (ok, r')" for f
    by (rule lookupLocation_queue [OF that])
  show ?thesis
  proof (cases b)
    case False
    then show ?thesis using assms q by (simp add: refreshOne_def cachedLocation_def 1)
  next
    case True
    show ?thesis
    proof (cases "map_of (grCache u) ip")
      case None
      then show ?thesis using assms True same_queue_trans [OF q lk] by (simp add: refreshOne_def cachedLocation_def 1)
    next
      case (Some c)
      obtain d v where 2: "applyLocation ip c u = (d, v)" by (metis surj_pair)
      have "r' = v \<or> lookupLocation provider now ip (Some c) v = (ok, r') \<or> lookupLocation provider now ip (Some c) u = (ok, r')"
        using assms True Some by (auto simp: refreshOne_def cachedLocation_def 1 2 split: if_splits)
      then show ?thesis
        using q applyLocation_queue [OF 2] lookupLocation_queue same_queue_trans by metis
    qed
  qed
qed

lemma queue_step:
  assumes "refresher_step s t" and "queue_inv s" and "nothing_lost s"
  shows "queue_inv t \<and> nothing_lost t"
  using assms
proof cases
  case (Request ip)
  then show ?thesis using assms(2,3)
    by (cases "gwWorker s") (auto simp: enqueue_def queue_inv_def nothing_lost_def Let_def)
next
  case (Take ip q)
  then show ?thesis using assms(2,3) by (auto simp: queue_inv_def nothing_lost_def Let_def)
next
  case (Start ip)
  then show ?thesis using assms(2,3) by (auto simp: queue_inv_def nothing_lost_def Let_def)
next
  case (Refresh ip provider now ok r)
  then show ?thesis using assms(2,3) refreshOne_queue [of provider now ip "gwState s" ok r]
    by (auto simp: queue_inv_def nothing_lost_def Let_def same_queue_def)
next
  case (Finish ip)
  then show ?thesis using assms(2,3)
    by (auto simp: finishProcessing_def queue_inv_def nothing_lost_def Let_def)
qed

text \<open>However requests, the worker and its refreshes interleave, the queue never exceeds its capacity and holds no address
  twice, an address is pending exactly while it is queued or in the worker's hands, and no accepted
  request is lost: an address whose refresh has not started since it was requested is in
  the queue, just taken from it, or marked for another run.\<close>

theorem refresh_requests_never_lost:
  assumes "refresher_reachable s"
  shows "queue_inv s \<and> nothing_lost s"
  using assms
proof induction
  case (Initially nodes cache ttl faults)
  then show ?case by (simp add: queue_inv_def nothing_lost_def NewRefresher_def)
next
  case (Step s t)
  then show ?case using queue_step by blast
qed

theorem refresh_requests_never_lost_witness:
  "\<exists>s. refresher_reachable s \<and> gwOwed s = {''1.2.3.4''} \<and> queue_inv s \<and> nothing_lost s"
proof -
  let ?s = "\<lparr>gwState = NewRefresher [] [] 0 [], gwWorker = Waiting, gwOwed = {}\<rparr>"
  have "refresher_reachable ?s" by (rule refresher_reachable.Initially)
  note refresher_reachable.Step [OF this refresher_step.Request [where ip = "''1.2.3.4''"]]
  then obtain t where t: "refresher_reachable t" "gwOwed t = {''1.2.3.4''}"
    by (auto simp: enqueue_def NewRefresher_def refreshQueueCapacity_def)
  show ?thesis using refresh_requests_never_lost [OF t(1)] t by blast
qed

end
