(* ===== verification/Alert.thy ===== *)
theory Alert
  imports GoStrings Complex_Main "HOL-Library.More_List" "HOL-Library.Multiset"
begin

text \<open>
  \<open>internal/panel/alert/alert.go\<close> and the acknowledgement of \<open>internal/panel/api/admin.go\<close>: the rules that trigger
  alerts, the life of the rows of the table \<open>alerts\<close>, and the messages that go out. A finite \<open>float64\<close> is the real number it
  denotes. What \<open>encoding/json\<close> reads, how \<open>%.1f\<close> prints and what \<open>time.ParseDuration\<close> accepts are fields of
  \<open>alert_env\<close>, and so is the order in which Go visits the entries of a map: any permutation. Each statement and each
  post consumes one entry of \<open>adFaults\<close>.
\<close>

subsection \<open>Versions\<close>

definition versionSegments :: "bytes \<Rightarrow> int list" where
  "versionSegments v = map (\<lambda>part. fst (atoi part)) (split_char (CHR ''.'') (trim_left (trim_space v) ''vV''))"

text \<open>The loop over both lists, a missing segment being 0.\<close>

fun segments_less :: "int list \<Rightarrow> int list \<Rightarrow> bool" where
  "segments_less [] [] \<longleftrightarrow> False"
| "segments_less (a # as) [] \<longleftrightarrow> (if a \<noteq> 0 then a < 0 else segments_less as [])"
| "segments_less [] (b # bs) \<longleftrightarrow> (if 0 \<noteq> b then 0 < b else segments_less [] bs)"
| "segments_less (a # as) (b # bs) \<longleftrightarrow> (if a \<noteq> b then a < b else segments_less as bs)"

definition versionLess :: "bytes \<Rightarrow> bytes \<Rightarrow> bool" where
  "versionLess a b \<longleftrightarrow> segments_less (versionSegments a) (versionSegments b)"

subsection \<open>State\<close>

datatype alert_key = AlertKey (akNodeID: bytes) (akRule: bytes)

record existing_alert =
  eaID :: nat
  eaStatus :: bytes
  eaMessage :: bytes

record alert_host =
  ahHostname :: bytes
  ahDiskUsedPct :: real
  ahMemUsedPct :: real

record alert_service =
  asType :: bytes
  asVersion :: bytes
  asActive :: bool
  asStatus :: bytes
  asCertDaysLeft :: "int option"

record node_state =
  nsNodeID :: bytes
  nsAlias :: bytes
  nsLastReportAt :: int
  nsMutedUntil :: int
  nsHostJSON :: bytes
  nsServicesJSON :: bytes

record alert_config =
  acNodeTimeout :: bytes
  acCertExpiryDays :: int
  acDiskUsagePct :: int
  acMemUsagePct :: int
  acTelegramToken :: bytes
  acTelegramChatID :: bytes
  acWebhookURL :: bytes

text \<open>A row of \<open>alerts\<close>, and the part of the database that the evaluation reads and writes. \<open>adSent\<close> collects the posts: the
  URL and the members of the JSON object.\<close>

record alert_row =
  arID :: nat
  arNodeID :: bytes
  arRule :: bytes
  arStatus :: bytes
  arMessage :: bytes
  arFirstSeenAt :: int
  arLastSeenAt :: int
  arRecoveredAt :: int
  arAcknowledgedAt :: int

record alert_db =
  adNodes :: "node_state list"
  adVersions :: "(bytes \<times> bytes) list"
  adAlerts :: "alert_row list"
  adSent :: "(bytes \<times> (bytes \<times> bytes) list) list"
  adFaults :: "bool list"

text \<open>\<open>envHost\<close> gives whether the text is a host and the value that \<open>Unmarshal\<close> leaves.\<close>

record alert_env =
  envHost :: "bytes \<Rightarrow> bool \<times> alert_host"
  envServices :: "bytes \<Rightarrow> alert_service list"
  envPercent :: "real \<Rightarrow> bytes"
  envDuration :: "bytes \<Rightarrow> duration option"
  envTriggeredOrder :: "(alert_key \<times> bytes) list \<Rightarrow> (alert_key \<times> bytes) list"
  envExistingOrder :: "(alert_key \<times> existing_alert) list \<Rightarrow> (alert_key \<times> existing_alert) list"

definition takeFault :: "alert_db \<Rightarrow> bool \<times> alert_db" where
  "takeFault d = (case adFaults d of [] \<Rightarrow> (True, d) | f # fs \<Rightarrow> (\<not> f, d\<lparr>adFaults := fs\<rparr>))"

subsection \<open>Reading the tables\<close>

definition loadNodes :: "alert_db \<Rightarrow> node_state list option \<times> alert_db" where
  "loadNodes d = (let (ok, d) = takeFault d in (if ok then Some (adNodes d) else None, d))"

definition loadLatestVersions :: "alert_db \<Rightarrow> (bytes \<times> bytes) list option \<times> alert_db" where
  "loadLatestVersions d = (let (ok, d) = takeFault d in (if ok then Some (adVersions d) else None, d))"

definition row_key :: "alert_row \<Rightarrow> alert_key" where
  "row_key a = AlertKey (arNodeID a) (arRule a)"

definition row_entry :: "alert_row \<Rightarrow> existing_alert" where
  "row_entry a = \<lparr>eaID = arID a, eaStatus = arStatus a, eaMessage = arMessage a\<rparr>"

text \<open>In the order of the identifiers: the newest row of a key replaces the older ones.\<close>

definition loadExistingAlerts :: "alert_db \<Rightarrow> (alert_key \<times> existing_alert) list option \<times> alert_db" where
  "loadExistingAlerts d =
     (let (ok, d) = takeFault d in
      if \<not> ok then (None, d)
      else (Some (foldl (\<lambda>out a. AList.update (row_key a) (row_entry a) out) [] (sort_key arID (adAlerts d))), d))"

subsection \<open>Rules\<close>

definition hostnameFromJSON :: "alert_env \<Rightarrow> bytes \<Rightarrow> bytes" where
  "hostnameFromJSON E raw =
     (if raw = [] \<or> raw = ''{}'' then []
      else let (ok, host) = envHost E raw in if \<not> ok then [] else ahHostname host)"

definition nodeMessage :: "bytes \<Rightarrow> bytes \<Rightarrow> bytes" where
  "nodeMessage name message =
     (if name = [] then message else name @ [CHR 0xEF, CHR 0xBC, CHR 0x9A] @ message)"

definition msgOffline :: bytes where
  "msgOffline = [CHR 0xE8, CHR 0x8A, CHR 0x82, CHR 0xE7, CHR 0x82, CHR 0xB9, CHR 0xE7, CHR 0xA6, CHR 0xBB, CHR 0xE7, CHR 0xBA, CHR 0xBF]"

definition msgServiceDown :: bytes where
  "msgServiceDown = [CHR 0xE6, CHR 0x9C, CHR 0x8D, CHR 0xE5, CHR 0x8A, CHR 0xA1, CHR 0xE5, CHR 0xBC, CHR 0x82, CHR 0xE5, CHR 0xB8, CHR 0xB8]"

definition msgCert :: "int \<Rightarrow> bytes" where
  "msgCert days =
     (if 0 \<le> days
      then [CHR 0xE8, CHR 0xAF, CHR 0x81, CHR 0xE4, CHR 0xB9, CHR 0xA6, CHR 0xE5, CHR 0x89, CHR 0xA9, CHR 0xE4, CHR 0xBD, CHR 0x99, CHR 0x20]
        @ dec_digits (nat days) @ [CHR 0x20, CHR 0xE5, CHR 0xA4, CHR 0xA9]
      else [CHR 0xE8, CHR 0xAF, CHR 0x81, CHR 0xE4, CHR 0xB9, CHR 0xA6, CHR 0xE5, CHR 0x8D, CHR 0xB3, CHR 0xE5, CHR 0xB0, CHR 0x86, CHR 0xE5, CHR 0x88, CHR 0xB0, CHR 0xE6, CHR 0x9C, CHR 0x9F])"

definition msgDisk :: "alert_env \<Rightarrow> real \<Rightarrow> bytes" where
  "msgDisk E pct =
     [CHR 0xE7, CHR 0xA3, CHR 0x81, CHR 0xE7, CHR 0x9B, CHR 0x98, CHR 0xE4, CHR 0xBD, CHR 0xBF, CHR 0xE7, CHR 0x94, CHR 0xA8, CHR 0xE7, CHR 0x8E, CHR 0x87, CHR 0x20]
       @ envPercent E pct @ ''%''"

definition msgMem :: "alert_env \<Rightarrow> real \<Rightarrow> bytes" where
  "msgMem E pct =
     [CHR 0xE5, CHR 0x86, CHR 0x85, CHR 0xE5, CHR 0xAD, CHR 0x98, CHR 0xE4, CHR 0xBD, CHR 0xBF, CHR 0xE7, CHR 0x94, CHR 0xA8, CHR 0xE7, CHR 0x8E, CHR 0x87, CHR 0x20]
       @ envPercent E pct @ ''%''"

definition msgVersion :: "alert_service \<Rightarrow> bytes \<Rightarrow> bytes" where
  "msgVersion s want =
     [CHR 0xE6, CHR 0x9C, CHR 0x8D, CHR 0xE5, CHR 0x8A, CHR 0xA1, CHR 0x20] @ asType s
       @ [CHR 0x20, CHR 0xE7, CHR 0x89, CHR 0x88, CHR 0xE6, CHR 0x9C, CHR 0xAC, CHR 0xE8, CHR 0x90, CHR 0xBD, CHR 0xE5, CHR 0x90, CHR 0x8E, CHR 0xEF, CHR 0xBC, CHR 0x9A]
       @ asVersion s @ '' < '' @ want"

definition service_down :: "alert_service \<Rightarrow> bool" where
  "service_down s \<longleftrightarrow> \<not> asActive s \<or> asStatus s = ''error''"

definition cert_expiring :: "alert_config \<Rightarrow> alert_service \<Rightarrow> bool" where
  "cert_expiring cfg s \<longleftrightarrow> (case asCertDaysLeft s of None \<Rightarrow> False | Some days \<Rightarrow> days < acCertExpiryDays cfg)"

definition version_lags :: "(bytes \<times> bytes) list \<Rightarrow> alert_service \<Rightarrow> bool" where
  "version_lags latest s \<longleftrightarrow>
     (case map_of latest (asType s) of
        None \<Rightarrow> False
      | Some want \<Rightarrow> want \<noteq> [] \<and> asVersion s \<noteq> [] \<and> versionLess (asVersion s) want)"

text \<open>The rules that a node triggers, with their messages.\<close>

definition nodeAlerts ::
    "alert_env \<Rightarrow> alert_config \<Rightarrow> (bytes \<times> bytes) list \<Rightarrow> duration \<Rightarrow> int \<Rightarrow> node_state \<Rightarrow> (bytes \<times> bytes) list" where
  "nodeAlerts E cfg latest now cutoff n =
     (if 0 < nsMutedUntil n \<and> now div second < nsMutedUntil n then []
      else
        let name = (if nsAlias n = [] then hostnameFromJSON E (nsHostJSON n) else nsAlias n) in
        if nsLastReportAt n = 0 \<or> nsLastReportAt n < cutoff then [(''node_offline'', nodeMessage name msgOffline)]
        else
          let host = snd (envHost E (nsHostJSON n)); services = envServices E (nsServicesJSON n) in
          (case find service_down services of
             None \<Rightarrow> [] | Some _ \<Rightarrow> [(''service_down'', nodeMessage name msgServiceDown)])
          @ (case find (cert_expiring cfg) services of
               None \<Rightarrow> [] | Some s \<Rightarrow> [(''cert_expiry'', nodeMessage name (msgCert (the (asCertDaysLeft s))))])
          @ (if real_of_int (acDiskUsagePct cfg) < ahDiskUsedPct host
             then [(''disk_usage'', nodeMessage name (msgDisk E (ahDiskUsedPct host)))] else [])
          @ (if real_of_int (acMemUsagePct cfg) < ahMemUsedPct host
             then [(''mem_usage'', nodeMessage name (msgMem E (ahMemUsedPct host)))] else [])
          @ (case find (version_lags latest) services of
               None \<Rightarrow> []
             | Some s \<Rightarrow> [(''version_lag'', nodeMessage name (msgVersion s (the (map_of latest (asType s)))))]))"

definition triggeredAlerts ::
    "alert_env \<Rightarrow> alert_config \<Rightarrow> (bytes \<times> bytes) list \<Rightarrow> duration \<Rightarrow> int \<Rightarrow> node_state list \<Rightarrow> (alert_key \<times> bytes) list" where
  "triggeredAlerts E cfg latest now cutoff nodes =
     foldl (\<lambda>out (key, message). AList.update key message out) []
       (concat (map (\<lambda>n. map (\<lambda>(rule, message). (AlertKey (nsNodeID n) rule, message)) (nodeAlerts E cfg latest now cutoff n)) nodes))"

subsection \<open>Writing the table\<close>

definition nextAlertID :: "alert_row list \<Rightarrow> nat" where
  "nextAlertID rows = Suc (fold (\<lambda>a m. max (arID a) m) rows 0)"

text \<open>The unique index \<open>idx_alerts_active\<close> refuses a second firing row of a key.\<close>

definition insertAlert :: "alert_key \<Rightarrow> bytes \<Rightarrow> int \<Rightarrow> alert_db \<Rightarrow> bool \<times> alert_db" where
  "insertAlert key message now d =
     (let (ok, d) = takeFault d in
      if \<not> ok \<or> (\<exists>a\<in>set (adAlerts d). row_key a = key \<and> arStatus a = ''firing'') then (False, d)
      else (True, d\<lparr>adAlerts := adAlerts d @
        [\<lparr>arID = nextAlertID (adAlerts d), arNodeID = akNodeID key, arRule = akRule key, arStatus = ''firing'', arMessage = message,
          arFirstSeenAt = now, arLastSeenAt = now, arRecoveredAt = 0, arAcknowledgedAt = 0\<rparr>]\<rparr>))"

definition updateAlert :: "nat \<Rightarrow> (alert_row \<Rightarrow> alert_row) \<Rightarrow> alert_db \<Rightarrow> bool \<times> alert_db" where
  "updateAlert i f d =
     (let (ok, d) = takeFault d in
      if \<not> ok then (False, d)
      else (True, d\<lparr>adAlerts := map (\<lambda>a. if arID a = i then f a else a) (adAlerts d)\<rparr>))"

definition seen :: "int \<Rightarrow> alert_row \<Rightarrow> alert_row" where
  "seen now a = a\<lparr>arLastSeenAt := now\<rparr>"

definition seenAgain :: "int \<Rightarrow> bytes \<Rightarrow> alert_row \<Rightarrow> alert_row" where
  "seenAgain now message a = a\<lparr>arLastSeenAt := now, arMessage := message\<rparr>"

definition recovered :: "int \<Rightarrow> alert_row \<Rightarrow> alert_row" where
  "recovered now a = a\<lparr>arStatus := ''recovered'', arRecoveredAt := now, arLastSeenAt := now\<rparr>"

text \<open>The loop over the triggered rules; it returns the messages to announce, or nothing when a statement fails.\<close>

fun fireAlerts ::
    "int \<Rightarrow> (alert_key \<Rightarrow> existing_alert option) \<Rightarrow> (alert_key \<times> bytes) list \<Rightarrow> alert_db \<Rightarrow> bytes list option \<times> alert_db" where
  "fireAlerts now existing [] d = (Some [], d)"
| "fireAlerts now existing ((key, message) # ts) d =
     (case existing key of
        Some prev \<Rightarrow>
          if eaStatus prev = ''recovered'' then
            (let (ok, d) = insertAlert key message now d in
             if \<not> ok then (None, d)
             else let (out, d) = fireAlerts now existing ts d in (map_option (Cons message) out, d))
          else if eaStatus prev = ''acknowledged'' then
            (let (ok, d) = updateAlert (eaID prev) (seen now) d in
             if \<not> ok then (None, d) else fireAlerts now existing ts d)
          else
            (let (ok, d) = updateAlert (eaID prev) (seenAgain now message) d in
             if \<not> ok then (None, d) else fireAlerts now existing ts d)
      | None \<Rightarrow>
          (let (ok, d) = insertAlert key message now d in
           if \<not> ok then (None, d)
           else let (out, d) = fireAlerts now existing ts d in (map_option (Cons message) out, d)))"

fun recoverAlerts ::
    "int \<Rightarrow> (alert_key \<times> bytes) list \<Rightarrow> (alert_key \<times> existing_alert) list \<Rightarrow> alert_db \<Rightarrow> bytes list option \<times> alert_db" where
  "recoverAlerts now triggered [] d = (Some [], d)"
| "recoverAlerts now triggered ((key, prev) # es) d =
     (if eaStatus prev \<noteq> ''firing'' then recoverAlerts now triggered es d
      else if map_of triggered key \<noteq> None then recoverAlerts now triggered es d
      else
        let (ok, d) = updateAlert (eaID prev) (recovered now) d in
        if \<not> ok then (None, d)
        else let (out, d) = recoverAlerts now triggered es d in (map_option (Cons (eaMessage prev)) out, d))"

subsection \<open>Notifications\<close>

definition postJSON :: "bytes \<Rightarrow> (bytes \<times> bytes) list \<Rightarrow> alert_db \<Rightarrow> bool \<times> alert_db" where
  "postJSON url payload d =
     (let (ok, d) = takeFault d in (ok, d\<lparr>adSent := adSent d @ [(url, payload)]\<rparr>))"

definition NotifyTelegram :: "bytes \<Rightarrow> bytes \<Rightarrow> bytes \<Rightarrow> alert_db \<Rightarrow> bool \<times> alert_db" where
  "NotifyTelegram token chatID msg d =
     postJSON (''https://api.telegram.org'' @ ''/bot'' @ token @ ''/sendMessage'') [(''chat_id'', chatID), (''text'', msg)] d"

definition NotifyWebhook :: "bytes \<Rightarrow> bytes \<Rightarrow> alert_db \<Rightarrow> bool \<times> alert_db" where
  "NotifyWebhook url msg d = postJSON url [(''text'', msg)] d"

definition notify :: "alert_config \<Rightarrow> bytes \<Rightarrow> alert_db \<Rightarrow> bool \<times> alert_db" where
  "notify cfg msg d =
     (let (ok1, d) = (if acTelegramToken cfg \<noteq> [] \<and> acTelegramChatID cfg \<noteq> []
                      then NotifyTelegram (acTelegramToken cfg) (acTelegramChatID cfg) msg d else (True, d));
          (ok2, d) = (if acWebhookURL cfg \<noteq> [] then NotifyWebhook (acWebhookURL cfg) msg d else (True, d))
      in (ok1 \<and> ok2, d))"

fun notifyAll :: "alert_config \<Rightarrow> bytes list \<Rightarrow> alert_db \<Rightarrow> bool \<times> alert_db" where
  "notifyAll cfg [] d = (True, d)"
| "notifyAll cfg (t # ts) d =
     (let (ok1, d) = notify cfg t d; (ok2, d) = notifyAll cfg ts d in (ok1 \<and> ok2, d))"

definition fireText :: "bytes \<Rightarrow> bytes" where
  "fireText t = [CHR 0xE5, CHR 0x91, CHR 0x8A, CHR 0xE8, CHR 0xAD, CHR 0xA6, CHR 0xEF, CHR 0xBC, CHR 0x9A] @ t"

definition recoveryText :: "bytes \<Rightarrow> bytes" where
  "recoveryText t = [CHR 0xE6, CHR 0x81, CHR 0xA2, CHR 0xE5, CHR 0xA4, CHR 0x8D, CHR 0xEF, CHR 0xBC, CHR 0x9A] @ t"

subsection \<open>One evaluation\<close>

definition Evaluate :: "alert_env \<Rightarrow> alert_config \<Rightarrow> duration \<Rightarrow> alert_db \<Rightarrow> bool \<times> alert_db" where
  "Evaluate E cfg now d =
     (case envDuration E (acNodeTimeout cfg) of
        None \<Rightarrow> (False, d)
      | Some timeout \<Rightarrow>
          let cutoff = (now - timeout) div second; t = now div second in
          (case loadLatestVersions d of
             (None, d) \<Rightarrow> (False, d)
           | (Some latest, d) \<Rightarrow>
          (case loadExistingAlerts d of
             (None, d) \<Rightarrow> (False, d)
           | (Some existing, d) \<Rightarrow>
          (case loadNodes d of
             (None, d) \<Rightarrow> (False, d)
           | (Some nodes, d) \<Rightarrow>
               let triggered = triggeredAlerts E cfg latest now cutoff nodes in
               (case fireAlerts t (map_of existing) (envTriggeredOrder E triggered) d of
                  (None, d) \<Rightarrow> (False, d)
                | (Some fired, d) \<Rightarrow>
                    (case recoverAlerts t triggered (envExistingOrder E existing) d of
                       (None, d) \<Rightarrow> (False, d)
                     | (Some over, d) \<Rightarrow> notifyAll cfg (map fireText fired @ map recoveryText over) d))))))"

text \<open>\<open>handleAlertAck\<close>: the acknowledgement of a row, whatever its status.\<close>

datatype ack_answer = AckBadRequest | AckDatabase | AckNotFound | AckOK

definition acknowledged :: "int \<Rightarrow> alert_row \<Rightarrow> alert_row" where
  "acknowledged now a = a\<lparr>arStatus := ''acknowledged'', arAcknowledgedAt := now\<rparr>"

definition handleAlertAck :: "nat option \<Rightarrow> int \<Rightarrow> alert_db \<Rightarrow> ack_answer \<times> alert_db" where
  "handleAlertAck i now d =
     (case i of
        None \<Rightarrow> (AckBadRequest, d)
      | Some i \<Rightarrow>
          let present = (\<exists>a\<in>set (adAlerts d). arID a = i); (ok, d) = updateAlert i (acknowledged now) d in
          if \<not> ok then (AckDatabase, d) else if \<not> present then (AckNotFound, d) else (AckOK, d))"

subsection \<open>The order of versions\<close>

text \<open>The n-th segment, 0 behind the last one.\<close>

definition segment :: "bytes \<Rightarrow> nat \<Rightarrow> int" where
  "segment v n = nth_default 0 (versionSegments v) n"

lemma first_difference_Suc:
  fixes f g :: "nat \<Rightarrow> int"
  shows "(\<exists>i. f i < g i \<and> (\<forall>j<i. f j = g j)) \<longleftrightarrow>
    f 0 < g 0 \<or> f 0 = g 0 \<and> (\<exists>i. f (Suc i) < g (Suc i) \<and> (\<forall>j<i. f (Suc j) = g (Suc j)))"
  (is "?L \<longleftrightarrow> ?R")
proof
  assume ?L
  then obtain i where i: "f i < g i" "\<forall>j<i. f j = g j" by blast
  show ?R
  proof (cases i)
    case (Suc k)
    then have "f 0 = g 0" "f (Suc k) < g (Suc k)" "\<forall>j<k. f (Suc j) = g (Suc j)" using i by auto
    then show ?thesis by blast
  qed (use i in simp)
next
  assume R: ?R
  show ?L
  proof (cases "f 0 < g 0")
    case False
    then obtain i where i: "f 0 = g 0" "f (Suc i) < g (Suc i)" "\<forall>j<i. f (Suc j) = g (Suc j)" using R by blast
    then have "\<forall>j<Suc i. f j = g j" by (auto simp: less_Suc_eq_0_disj)
    then show ?thesis using i by blast
  qed (rule exI [of _ 0], simp)
qed

lemma segments_less_iff:
  "segments_less as bs \<longleftrightarrow>
     (\<exists>i. nth_default 0 as i < nth_default 0 bs i \<and> (\<forall>j<i. nth_default 0 as j = nth_default 0 bs j))"
proof (induction as bs rule: segments_less.induct)
  case (2 a as)
  show ?case by (subst first_difference_Suc) (use 2 in auto)
next
  case (3 b bs)
  show ?case by (subst first_difference_Suc) (use 3 in auto)
next
  case (4 a as b bs)
  show ?case by (subst first_difference_Suc) (use 4 in auto)
qed simp

lemma first_difference_total:
  fixes f g :: "nat \<Rightarrow> int"
  assumes "\<not> (\<exists>i. f i < g i \<and> (\<forall>j<i. f j = g j))" and "\<not> (\<exists>i. g i < f i \<and> (\<forall>j<i. g j = f j))"
  shows "f n = g n"
proof (induction n rule: less_induct)
  case (less n)
  then show ?case using assms by (metis linorder_neqE)
qed

text \<open>A version is less than another exactly if it has the smaller segment at the first place where they differ, missing segments
  counting as 0; the relation is a strict weak order, and two versions that are not ordered agree in every segment: 1.2 and v1.2.0 are equal.\<close>

theorem versionLess_lexicographic:
  "(versionLess a b \<longleftrightarrow> (\<exists>i. segment a i < segment b i \<and> (\<forall>j<i. segment a j = segment b j))) \<and>
   \<not> (versionLess a b \<and> versionLess b a) \<and>
   (versionLess a b \<and> versionLess b c \<longrightarrow> versionLess a c) \<and>
   (\<not> versionLess a b \<and> \<not> versionLess b a \<longleftrightarrow> segment a = segment b)"
proof -
  have less: "versionLess x y \<longleftrightarrow> (\<exists>i. segment x i < segment y i \<and> (\<forall>j<i. segment x j = segment y j))" for x y
    by (simp add: versionLess_def segments_less_iff segment_def)
  have trans: "versionLess x z" if xy: "versionLess x y" and yz: "versionLess y z" for x y z
  proof -
    obtain i where i: "segment x i < segment y i" "\<forall>l<i. segment x l = segment y l"
      using xy unfolding less by blast
    obtain j where j: "segment y j < segment z j" "\<forall>l<j. segment y l = segment z l"
      using yz unfolding less by blast
    have "\<forall>l<min i j. segment x l = segment z l" using i(2) j(2) by simp
    moreover have "segment x (min i j) < segment z (min i j)"
      using i j by (cases i j rule: linorder_cases) (auto simp: min_def)
    ultimately show ?thesis unfolding less by blast
  qed
  have irrefl: "\<not> versionLess x x" for x unfolding less by simp
  have eq: "segment a = segment b" if "\<not> versionLess a b" "\<not> versionLess b a"
    using that first_difference_total unfolding less by (intro ext) blast
  have same: "\<not> versionLess a b \<and> \<not> versionLess b a" if "segment a = segment b"
    unfolding less that by simp
  show ?thesis by (intro conjI less) (use trans irrefl eq same in blast)+
qed

theorem versionLess_lexicographic_witness:
  "versionLess ''1.9.3'' ''v1.10'' \<and> versionLess ''v1.10'' ''1.10.1'' \<and> versionLess ''1.9.3'' ''1.10.1''"
proof -
  note d = versionSegments_def split_char_def trim_left_def trim_space_def is_space_def atoi_def parse_uint_def
    digit_value_def Let_def
  have "versionSegments ''1.9.3'' = [1, 9, 3]" "versionSegments ''v1.10'' = [1, 10]" "versionSegments ''1.10.1'' = [1, 10, 1]"
    by (simp_all add: d del: One_nat_def)
  then have "versionLess ''1.9.3'' ''v1.10''" "versionLess ''v1.10'' ''1.10.1''" by (simp_all add: versionLess_def)
  then show ?thesis using versionLess_lexicographic [of "''1.9.3''" "''v1.10''" "''1.10.1''"] by blast
qed

subsection \<open>The history of a key\<close>

text \<open>The rows of a key, oldest first, and their statuses.\<close>

definition alert_rows :: "alert_key \<Rightarrow> alert_db \<Rightarrow> alert_row list" where
  "alert_rows k d = filter (\<lambda>a. row_key a = k) (adAlerts d)"

definition history :: "alert_key \<Rightarrow> alert_db \<Rightarrow> bytes list" where
  "history k d = map arStatus (alert_rows k d)"

definition newest :: "alert_key \<Rightarrow> alert_db \<Rightarrow> existing_alert option" where
  "newest k d = (if alert_rows k d = [] then None else Some (row_entry (last (alert_rows k d))))"

text \<open>Only the newest row of a key may be firing, and the identifiers ascend.\<close>

definition alerts_ok :: "alert_db \<Rightarrow> bool" where
  "alerts_ok d \<longleftrightarrow> sorted_wrt (<) (map arID (adAlerts d)) \<and>
     (\<forall>k. ''firing'' \<notin> set (butlast (history k d)))"

text \<open>What one evaluation makes of the history of a key.\<close>

definition opens :: "bytes list \<Rightarrow> bool" where
  "opens h \<longleftrightarrow> h = [] \<or> last h = ''recovered''"

definition closes :: "bytes list \<Rightarrow> bool" where
  "closes h \<longleftrightarrow> h \<noteq> [] \<and> last h = ''firing''"

definition next_history :: "bool \<Rightarrow> bytes list \<Rightarrow> bytes list" where
  "next_history triggered h =
     (if triggered then (if opens h then h @ [''firing''] else h)
      else (if closes h then butlast h @ [''recovered''] else h))"

lemma newest_None: "newest k d = None \<longleftrightarrow> alert_rows k d = []"
  by (simp add: newest_def)

lemma newest_Some: "newest k d = Some e \<longleftrightarrow> (\<exists>as a. alert_rows k d = as @ [a] \<and> e = row_entry a)"
proof (cases "alert_rows k d" rule: rev_cases)
  case (snoc as a)
  then show ?thesis by (auto simp: newest_def)
qed (simp add: newest_def)

lemma opens_newest: "opens (history k d) \<longleftrightarrow> (case newest k d of None \<Rightarrow> True | Some e \<Rightarrow> eaStatus e = ''recovered'')"
  by (cases "alert_rows k d" rule: rev_cases)
     (auto simp: opens_def history_def newest_def row_entry_def split: option.split)

lemma closes_newest: "closes (history k d) \<longleftrightarrow> (\<exists>e. newest k d = Some e \<and> eaStatus e = ''firing'')"
  by (cases "alert_rows k d" rule: rev_cases)
     (auto simp: closes_def history_def newest_Some row_entry_def)

text \<open>The tables that no alert operation writes.\<close>

definition same_world :: "alert_db \<Rightarrow> alert_db \<Rightarrow> bool" where
  "same_world d d' \<longleftrightarrow> adNodes d' = adNodes d \<and> adVersions d' = adVersions d \<and> adSent d' = adSent d \<and>
     (adFaults d = [] \<longrightarrow> adFaults d' = [])"

lemma same_world_refl [simp]: "same_world d d"
  by (simp add: same_world_def)

lemma same_world_trans: "same_world a b \<Longrightarrow> same_world b c \<Longrightarrow> same_world a c"
  by (simp add: same_world_def)

lemma takeFault_frame:
  assumes "takeFault d = (b, d')"
  shows "adAlerts d' = adAlerts d" "same_world d d'" "adFaults d = [] \<Longrightarrow> b"
    "alert_rows k d' = alert_rows k d" "alerts_ok d' = alerts_ok d"
  using assms
  by (auto simp: takeFault_def same_world_def alert_rows_def alerts_ok_def history_def split: list.splits)

subsection \<open>The loaded map\<close>

lemma loaded_newest:
  "map_of (foldl (\<lambda>out a. AList.update (row_key a) (row_entry a) out) [] rows) k =
     newest k \<lparr>adNodes = [], adVersions = [], adAlerts = rows, adSent = [], adFaults = []\<rparr>"
proof (induction rows rule: rev_induct)
  case (snoc a rows)
  then show ?case
    by (auto simp: newest_def alert_rows_def)
qed (simp add: newest_def alert_rows_def)

lemma loaded_distinct: "distinct (map fst (foldl (\<lambda>out a. AList.update (row_key a) (row_entry a) out) [] rows))"
  by (induction rows rule: rev_induct) auto

lemma ascending_sorted: "sorted_wrt (<) (map arID rows) \<Longrightarrow> sort_key arID rows = rows"
  by (intro sort_key_id_if_sorted) (simp add: strict_sorted_imp_sorted)

lemma loadExistingAlerts_newest:
  assumes "loadExistingAlerts d = (Some existing, d')" and "alerts_ok d"
  shows "map_of existing = (\<lambda>k. newest k d)" "distinct (map fst existing)" "adAlerts d' = adAlerts d" "same_world d d'"
proof -
  obtain b u where 1: "takeFault d = (b, u)" by (metis surj_pair)
  have e: "existing = foldl (\<lambda>out a. AList.update (row_key a) (row_entry a) out) [] (adAlerts d)" and u: "d' = u"
    using assms takeFault_frame(1) [OF 1] ascending_sorted [of "adAlerts d"]
    by (auto simp: loadExistingAlerts_def 1 alerts_ok_def Let_def split: if_splits)
  show "map_of existing = (\<lambda>k. newest k d)"
    by (rule ext) (simp add: e loaded_newest newest_def alert_rows_def)
  show "distinct (map fst existing)" unfolding e by (rule loaded_distinct)
  show "adAlerts d' = adAlerts d" "same_world d d'" using takeFault_frame [OF 1] u by simp_all
qed

subsection \<open>The writes\<close>

lemma fold_max_ge: "m \<le> fold (\<lambda>a m. max (arID a) m) rows m"
proof (induction rows arbitrary: m)
  case (Cons a rows)
  then show ?case by (metis comp_apply fold_simps(2) max.boundedE)
qed simp

lemma nextAlertID_greater: "a \<in> set rows \<Longrightarrow> arID a < nextAlertID rows"
proof -
  have "a \<in> set rows \<Longrightarrow> arID a \<le> fold (\<lambda>a m. max (arID a) m) rows m" for m
  proof (induction rows arbitrary: m)
    case (Cons b rows)
    then show ?case using fold_max_ge [of "max (arID b) m" rows] by auto
  qed simp
  then show "a \<in> set rows \<Longrightarrow> arID a < nextAlertID rows" by (simp add: nextAlertID_def less_Suc_eq_le)
qed

lemma alerts_ok_butlast: "alerts_ok d \<Longrightarrow> ''firing'' \<notin> set (butlast (history k d))"
  unfolding alerts_ok_def by blast

lemma alerts_okI:
  "sorted_wrt (<) (map arID (adAlerts d)) \<Longrightarrow> (\<And>k. ''firing'' \<notin> set (butlast (history k d))) \<Longrightarrow> alerts_ok d"
  by (simp add: alerts_ok_def)

lemma insertAlert_effect:
  assumes ins: "insertAlert key m now d = (b, d')" and ok: "alerts_ok d" and op: "opens (history key d)"
  shows "alerts_ok d'" "same_world d d'" "adFaults d = [] \<Longrightarrow> b"
    "history k d' = (if b \<and> k = key then history k d @ [''firing''] else history k d)"
    "\<not> b \<or> k \<noteq> key \<Longrightarrow> alert_rows k d' = alert_rows k d"
proof -
  obtain c u where 1: "takeFault d = (c, u)" by (metis surj_pair)
  note fr = takeFault_frame [OF 1]
  have none: "\<not> (\<exists>a\<in>set (adAlerts u). row_key a = key \<and> arStatus a = ''firing'')"
  proof
    assume "\<exists>a\<in>set (adAlerts u). row_key a = key \<and> arStatus a = ''firing''"
    then have f: "''firing'' \<in> set (history key d)"
      using fr(1) by (force simp: history_def alert_rows_def)
    then have ne: "history key d \<noteq> []" by auto
    have "history key d = butlast (history key d) @ [''recovered'']"
      using op ne append_butlast_last_id [OF ne] by (simp add: opens_def)
    then have "''firing'' \<in> set (butlast (history key d)) \<union> {''recovered''}"
      using f by (metis Un_iff set_append list.set(1) list.set(2))
    then show False using alerts_ok_butlast [OF ok, of key] by simp
  qed
  let ?new = "\<lparr>arID = nextAlertID (adAlerts u), arNodeID = akNodeID key, arRule = akRule key, arStatus = ''firing'', arMessage = m,
      arFirstSeenAt = now, arLastSeenAt = now, arRecoveredAt = 0, arAcknowledgedAt = 0\<rparr>"
  have d': "b = c \<and> d' = (if c then u\<lparr>adAlerts := adAlerts u @ [?new]\<rparr> else u)"
    using ins none by (auto simp: insertAlert_def 1 Let_def)
  have rows: "alert_rows k d' = alert_rows k d @ (if c \<and> k = key then [?new] else [])" for k
    using fr(4) [of k] fr(1) d' by (auto simp: alert_rows_def row_key_def)
  show hist: "history k d' = (if b \<and> k = key then history k d @ [''firing''] else history k d)" for k
    using d' unfolding history_def rows by simp
  show "\<not> b \<or> k \<noteq> key \<Longrightarrow> alert_rows k d' = alert_rows k d" using d' rows by auto
  show "same_world d d'" "adFaults d = [] \<Longrightarrow> b" using fr d' by (auto simp: same_world_def)
  have "''firing'' \<notin> set (history key d)" using none fr(1) by (force simp: history_def alert_rows_def)
  then have "''firing'' \<notin> set (butlast (history k d'))" for k
    using alerts_ok_butlast [OF ok, of k] unfolding hist by simp
  moreover have "sorted_wrt (<) (map arID (adAlerts d'))"
    using ok d' fr(1) nextAlertID_greater [of _ "adAlerts d"] by (auto simp: alerts_ok_def sorted_wrt_append)
  ultimately show "alerts_ok d'" by (intro alerts_okI)
qed

lemma updateAlert_effect:
  assumes up: "updateAlert (arID a) f d = (b, d')" and ok: "alerts_ok d" and r: "alert_rows key d = as @ [a]"
    and keeps: "\<And>a. arID (f a) = arID a" "\<And>a. row_key (f a) = row_key a"
  shows "same_world d d'" "adFaults d = [] \<Longrightarrow> b" "map arID (adAlerts d') = map arID (adAlerts d)"
    "alert_rows k d' = (if b \<and> k = key then as @ [f a] else alert_rows k d)"
proof -
  obtain c u where 1: "takeFault d = (c, u)" by (metis surj_pair)
  note fr = takeFault_frame [OF 1]
  let ?g = "\<lambda>x. if arID x = arID a then f x else x"
  have d': "b = c \<and> d' = (if c then u\<lparr>adAlerts := map ?g (adAlerts u)\<rparr> else u)"
    using up by (auto simp: updateAlert_def 1 Let_def)
  show "same_world d d'" "adFaults d = [] \<Longrightarrow> b" using fr d' by (auto simp: same_world_def)
  show "map arID (adAlerts d') = map arID (adAlerts d)" using d' fr(1) keeps by auto
  have key: "row_key (?g x) = row_key x" for x using keeps by simp
  have flt: "filter (\<lambda>x. row_key x = k) (map ?g xs) = map ?g (filter (\<lambda>x. row_key x = k) xs)" for xs
    by (induction xs) (simp_all add: key)
  have mp: "alert_rows k d' = (if c then map ?g (alert_rows k d) else alert_rows k d)"
    using d' fr(1) flt by (simp add: alert_rows_def)
  have dist: "inj_on arID (set (adAlerts d))"
    using ok strict_sorted_iff [of "map arID (adAlerts d)"] by (simp add: alerts_ok_def distinct_map)
  have a: "a \<in> set (adAlerts d)" "row_key a = key"
    using arg_cong [OF r, of set] by (auto simp: alert_rows_def)
  have other: "?g x = x" if "x \<in> set (alert_rows k d)" "x \<noteq> a" for x
    using that a dist by (auto simp: alert_rows_def inj_on_def)
  have "map ?g (alert_rows k d) = alert_rows k d" if "k \<noteq> key"
  proof (rule map_idI)
    fix x assume x: "x \<in> set (alert_rows k d)"
    then have "x \<noteq> a" using that a by (auto simp: alert_rows_def)
    then show "?g x = x" by (rule other [OF x])
  qed
  moreover have "distinct (alert_rows key d)"
    using ok strict_sorted_iff [of "map arID (adAlerts d)"] by (auto simp: alerts_ok_def alert_rows_def distinct_map)
  then have "map ?g (alert_rows key d) = as @ [f a]" if "k = key"
    using that r other by (auto intro!: map_idI)
  ultimately show "alert_rows k d' = (if b \<and> k = key then as @ [f a] else alert_rows k d)"
    using mp d' by auto
qed

subsection \<open>The loops\<close>

lemma ids_history_ok:
  assumes "alerts_ok d" and "map arID (adAlerts d') = map arID (adAlerts d)"
    and "\<And>k. set (butlast (history k d')) \<subseteq> set (butlast (history k d))"
  shows "alerts_ok d'"
  using assms alerts_ok_butlast [OF assms(1)] unfolding alerts_ok_def by (metis subsetD)

text \<open>An update of the newest row of a key.\<close>

lemma update_newest:
  assumes up: "updateAlert (eaID e) f d = (b, d')" and ok: "alerts_ok d" and e: "newest key d = Some e"
    and keeps: "\<And>a. arID (f a) = arID a" "\<And>a. row_key (f a) = row_key a" and st: "\<And>a. arStatus (f a) = g (arStatus a)"
  shows "alerts_ok d'" "same_world d d'" "adFaults d = [] \<Longrightarrow> b"
    "\<not> b \<or> k \<noteq> key \<Longrightarrow> alert_rows k d' = alert_rows k d"
    "history k d' = (if b \<and> k = key then butlast (history k d) @ [g (last (history k d))] else history k d)"
proof -
  obtain as a where r: "alert_rows key d = as @ [a]" and a: "e = row_entry a" using e newest_Some by blast
  have up': "updateAlert (arID a) f d = (b, d')" using up a by (simp add: row_entry_def)
  note eff = updateAlert_effect [OF up' ok r keeps]
  show "same_world d d'" "adFaults d = [] \<Longrightarrow> b" using eff by blast+
  show "\<not> b \<or> k \<noteq> key \<Longrightarrow> alert_rows k d' = alert_rows k d" using eff(4) [of k] by auto
  show h: "history k d' = (if b \<and> k = key then butlast (history k d) @ [g (last (history k d))] else history k d)" for k
    using eff(4) [of k] r st by (simp add: history_def)
  show "alerts_ok d'" by (rule ids_history_ok [OF ok eff(3)]) (simp add: h)
qed

definition fired_messages :: "(alert_key \<times> bytes) list \<Rightarrow> alert_db \<Rightarrow> bytes list" where
  "fired_messages ts d = map snd (filter (\<lambda>(k, m). opens (history k d)) ts)"

lemma fireAlerts_effect:
  assumes "fireAlerts now ex ts d = (out, d')" and "alerts_ok d" and "distinct (map fst ts)"
    and "\<And>k. k \<in> fst ` set ts \<Longrightarrow> ex k = newest k d"
  shows "alerts_ok d' \<and> same_world d d' \<and> (adFaults d = [] \<longrightarrow> out \<noteq> None) \<and>
    (out \<noteq> None \<longrightarrow> out = Some (fired_messages ts d)) \<and>
    (\<forall>k. k \<notin> fst ` set ts \<longrightarrow> alert_rows k d' = alert_rows k d) \<and>
    (\<forall>k. k \<in> fst ` set ts \<longrightarrow> history k d' = next_history True (history k d) \<or> out = None \<and> history k d' = history k d)"
  using assms
proof (induction ts arbitrary: d out)
  case Nil
  then show ?case by (auto simp: fired_messages_def)
next
  case (Cons t ts)
  obtain key m where t: "t = (key, m)" by (cases t)
  have ex: "ex key = newest key d" using Cons.prems(4) t by simp
  have step: ?case
    if u: "alerts_ok u" "same_world d u" "adFaults d = [] \<Longrightarrow> b"
      and rows: "\<And>k. k \<noteq> key \<Longrightarrow> alert_rows k u = alert_rows k d"
      and hk: "history key u = (if b then next_history True (history key d) else history key d)"
      and rest: "\<not> b \<Longrightarrow> out = None \<and> d' = u"
      and go: "b \<Longrightarrow> \<exists>o'. fireAlerts now ex ts u = (o', d') \<and>
          out = map_option ((if opens (history key d) then Cons m else id)) o'"
    for u b
  proof (cases b)
    case False
    then have "history k u = history k d" for k using rows [of k] hk by (cases "k = key") (simp_all add: history_def)
    then show ?thesis using False u rest rows t by auto
  next
    case True
    then obtain o' where o': "fireAlerts now ex ts u = (o', d')" "out = map_option (if opens (history key d) then Cons m else id) o'"
      using go by blast
    have new: "key \<notin> fst ` set ts" using Cons.prems(3) t by auto
    have ex': "ex k = newest k u" if "k \<in> fst ` set ts" for k
    proof -
      have "k \<noteq> key" using that new by blast
      then have "newest k u = newest k d" using rows [of k] by (simp add: newest_def)
      then show ?thesis using Cons.prems(4) [of k] that by simp
    qed
    have "fired_messages ts u = fired_messages ts d"
      unfolding fired_messages_def using rows new
      by (intro arg_cong [of _ _ "map snd"] filter_cong) (force simp: history_def)+
    moreover have "history k u = history k d" if "k \<in> fst ` set ts" for k
      using that new rows [of k] by (cases "k = key") (simp_all add: history_def)
    moreover note IH = Cons.IH [OF o'(1) u(1) _ ex']
    moreover have "alert_rows key d' = alert_rows key u" using IH new Cons.prems(3) t by simp
    ultimately show ?thesis
      using Cons.prems(3) t True u same_world_trans [of d u d'] rows hk o'(2) new
      by (auto simp: fired_messages_def history_def same_world_def)
  qed
  show ?case
  proof (cases "opens (history key d)")
    case True
    obtain b u where i: "insertAlert key m now d = (b, u)" by (metis surj_pair)
    obtain o' v where f: "fireAlerts now ex ts u = (o', v)" by (metis surj_pair)
    note eff = insertAlert_effect [OF i Cons.prems(2) True]
    have "(out, d') = (if b then (map_option (Cons m) o', v) else (None, u))"
      using Cons.prems(1) True ex unfolding t opens_newest
      by (auto simp: i f split: option.splits if_splits)
    then show ?thesis
      by (intro step [of u b]) (use eff f True in \<open>auto simp: next_history_def\<close>)
  next
    case False
    then obtain e where e: "newest key d = Some e" "eaStatus e \<noteq> ''recovered''"
      unfolding opens_newest by (auto split: option.splits)
    define f where "f = (if eaStatus e = ''acknowledged'' then seen now else seenAgain now m)"
    obtain b u where i: "updateAlert (eaID e) f d = (b, u)" by (metis surj_pair)
    have f: "arID (f a) = arID a" "row_key (f a) = row_key a" "arStatus (f a) = id (arStatus a)" for a
      by (simp_all add: f_def seen_def seenAgain_def row_key_def)
    note eff = update_newest [OF i Cons.prems(2) e(1) f]
    have "history key d \<noteq> []" using e(1) by (auto simp: newest_def history_def split: if_splits)
    then have h: "history key u = history key d" using eff(5) [of key] by simp
    have "(out, d') = (if b then fireAlerts now ex ts u else (None, u))"
      using Cons.prems(1) ex e i by (auto simp: t f_def split: if_splits)
    then show ?thesis
      by (intro step [of u b]) (use eff h False in \<open>auto simp: next_history_def option.map_id\<close>)
  qed
qed

definition recovered_messages :: "(alert_key \<times> bytes) list \<Rightarrow> (alert_key \<times> existing_alert) list \<Rightarrow> bytes list" where
  "recovered_messages triggered es =
     map (\<lambda>(k, e). eaMessage e) (filter (\<lambda>(k, e). eaStatus e = ''firing'' \<and> map_of triggered k = None) es)"

lemma recoverAlerts_effect:
  assumes "recoverAlerts now trig es d = (out, d')" and "alerts_ok d" and "distinct (map fst es)"
    and "\<And>k e. (k, e) \<in> set es \<Longrightarrow> map_of trig k = None \<Longrightarrow> newest k d = Some e"
  shows "alerts_ok d' \<and> same_world d d' \<and> (adFaults d = [] \<longrightarrow> out \<noteq> None) \<and>
    (out \<noteq> None \<longrightarrow> out = Some (recovered_messages trig es)) \<and>
    (\<forall>k. k \<notin> fst ` set es \<or> map_of trig k \<noteq> None \<longrightarrow> alert_rows k d' = alert_rows k d) \<and>
    (\<forall>k. k \<in> fst ` set es \<and> map_of trig k = None \<longrightarrow>
      history k d' = next_history False (history k d) \<or> out = None \<and> history k d' = history k d)"
  using assms
proof (induction es arbitrary: d out)
  case Nil
  then show ?case by (auto simp: recovered_messages_def)
next
  case (Cons t es)
  obtain key e where t: "t = (key, e)" by (cases t)
  have new: "key \<notin> fst ` set es" and dist: "distinct (map fst es)" using Cons.prems(3) t by auto
  show ?case
  proof (cases "eaStatus e = ''firing'' \<and> map_of trig key = None")
    case False
    then have run: "recoverAlerts now trig es d = (out, d')" using Cons.prems(1) by (auto simp: t split: if_splits)
    have "newest k d = Some x" if "(k, x) \<in> set es" "map_of trig k = None" for k x
      using Cons.prems(4) that by (simp add: t)
    note IH = Cons.IH [OF run Cons.prems(2) dist this]
    have "next_history False (history key d) = history key d" if "map_of trig key = None"
      using False that Cons.prems(4) [of key e] closes_newest [of key d] by (simp add: t next_history_def)
    moreover have "alert_rows key d' = alert_rows key d" using IH new by simp
    moreover have "recovered_messages trig (t # es) = recovered_messages trig es"
      using False by (auto simp: recovered_messages_def t)
    ultimately show ?thesis using IH t by (auto simp: history_def)
  next
    case True
    have e: "newest key d = Some e" using Cons.prems(4) True by (simp add: t)
    obtain b u where i: "updateAlert (eaID e) (recovered now) d = (b, u)" by (metis surj_pair)
    obtain o' v where f: "recoverAlerts now trig es u = (o', v)" by (metis surj_pair)
    have keeps: "arID (recovered now a) = arID a" "row_key (recovered now a) = row_key a"
      "arStatus (recovered now a) = (\<lambda>_. ''recovered'') (arStatus a)" for a
      by (simp_all add: recovered_def row_key_def)
    note eff = update_newest [OF i Cons.prems(2) e keeps]
    have res: "(out, d') = (if b then (map_option (Cons (eaMessage e)) o', v) else (None, u))"
      using Cons.prems(1) True by (auto simp: t i f split: if_splits)
    have hk: "history key u = (if b then next_history False (history key d) else history key d)"
      using eff(5) [of key] closes_newest [of key d] e True by (auto simp: next_history_def)
    show ?thesis
    proof (cases b)
      case False
      then show ?thesis using res eff(1-4) hk t by (auto simp: history_def)
    next
      case b: True
      have ex': "newest k u = Some x" if "(k, x) \<in> set es" "map_of trig k = None" for k x
      proof -
        have "k \<noteq> key" using new that(1) by force
        then have "newest k u = newest k d" using eff(4) [of k] by (simp add: newest_def)
        then show ?thesis using Cons.prems(4) [of k x] that t by simp
      qed
      have v: "v = d'" using res b by simp
      note IH = Cons.IH [OF f [unfolded v] eff(1) dist ex']
      have rk: "alert_rows key d' = alert_rows key u" using IH new by simp
      have rest: "alert_rows k u = alert_rows k d" if "k \<noteq> key" for k using eff(4) that by blast
      have "history k u = history k d" if "k \<in> fst ` set es" for k
        using rest [of k] that new by (cases "k = key") (simp_all add: history_def)
      moreover have "recovered_messages trig (t # es) = eaMessage e # recovered_messages trig es"
        using True by (simp add: recovered_messages_def t)
      moreover have "history key d' = next_history False (history key d)"
        using rk hk b by (simp add: history_def)
      moreover have "out = map_option (Cons (eaMessage e)) o'" using res b by simp
      moreover have "same_world d d'" using IH eff(2) same_world_trans by blast
      moreover have "adFaults d = [] \<longrightarrow> adFaults u = []" using eff(2) by (simp add: same_world_def)
      moreover have "alert_rows k u = alert_rows k d" if "k \<notin> fst ` set (t # es) \<or> map_of trig k \<noteq> None" for k
        using rest [of k] that t True by (cases "k = key") auto
      ultimately show ?thesis
        using IH t True by auto
    qed
  qed
qed

subsection \<open>An evaluation as a whole\<close>

text \<open>Go visits the entries of a map in some order.\<close>

definition map_orders :: "alert_env \<Rightarrow> bool" where
  "map_orders E \<longleftrightarrow> (\<forall>xs. mset (envTriggeredOrder E xs) = mset xs) \<and> (\<forall>xs. mset (envExistingOrder E xs) = mset xs)"

definition triggers :: "alert_env \<Rightarrow> alert_config \<Rightarrow> duration \<Rightarrow> alert_db \<Rightarrow> alert_key \<Rightarrow> bytes option" where
  "triggers E cfg now d =
     map_of (triggeredAlerts E cfg (adVersions d) now ((now - the (envDuration E (acNodeTimeout cfg))) div second) (adNodes d))"

lemma triggeredAlerts_distinct: "distinct (map fst (triggeredAlerts E cfg latest now cutoff nodes))"
proof -
  have "distinct (map fst (foldl (\<lambda>out (key, message). AList.update key message out) [] xs))"
    for xs :: "(alert_key \<times> bytes) list"
    by (induction xs rule: rev_induct) (auto split: prod.split)
  then show ?thesis by (simp add: triggeredAlerts_def)
qed

lemma reordered:
  assumes "mset xs = mset ys" and "distinct (map fst ys)"
  shows "distinct (map fst xs)" "set xs = set ys" "map_of xs = map_of ys"
proof -
  have "mset (map fst xs) = mset (map fst ys)" using assms(1) by simp
  then show d: "distinct (map fst xs)" using assms(2) by (metis mset_eq_imp_distinct_iff)
  show s: "set xs = set ys" using assms(1) by (metis set_mset_mset)
  show "map_of xs = map_of ys" by (rule map_of_eqI) (use s d assms(2) in \<open>auto simp: map_of_eq_Some_iff\<close>)
qed

lemma notify_frame:
  assumes "notify cfg msg d = (b, d')"
  shows "adAlerts d' = adAlerts d"
  using assms
  by (auto simp: notify_def NotifyTelegram_def NotifyWebhook_def postJSON_def takeFault_def Let_def
      split: list.splits if_splits)

lemma notifyAll_frame: "notifyAll cfg ts d = (b, d') \<Longrightarrow> adAlerts d' = adAlerts d"
proof (induction ts arbitrary: d b)
  case (Cons t ts)
  obtain c u where 1: "notify cfg t d = (c, u)" by (metis surj_pair)
  obtain e v where 2: "notifyAll cfg ts u = (e, v)" by (metis surj_pair)
  have "v = d'" using Cons.prems by (simp add: 1 2 Let_def)
  then show ?case using Cons.IH 2 notify_frame [OF 1] by simp
qed simp

text \<open>The posts of a message.\<close>

definition posts :: "alert_config \<Rightarrow> bytes \<Rightarrow> (bytes \<times> (bytes \<times> bytes) list) list" where
  "posts cfg msg =
     (if acTelegramToken cfg \<noteq> [] \<and> acTelegramChatID cfg \<noteq> []
      then [(''https://api.telegram.org/bot'' @ acTelegramToken cfg @ ''/sendMessage'',
             [(''chat_id'', acTelegramChatID cfg), (''text'', msg)])] else []) @
     (if acWebhookURL cfg \<noteq> [] then [(acWebhookURL cfg, [(''text'', msg)])] else [])"

lemma notifyAll_posts:
  "adFaults d = [] \<Longrightarrow>
     notifyAll cfg ts d = (True, d\<lparr>adSent := adSent d @ concat (map (posts cfg) ts)\<rparr>)"
proof (induction ts arbitrary: d)
  case (Cons t ts)
  have "notify cfg t d = (True, d\<lparr>adSent := adSent d @ posts cfg t\<rparr>)"
    using Cons.prems
    by (simp add: notify_def NotifyTelegram_def NotifyWebhook_def postJSON_def takeFault_def posts_def)
  then show ?case using Cons.IH [of "d\<lparr>adSent := adSent d @ posts cfg t\<rparr>"] Cons.prems by simp
qed simp

text \<open>The messages of an evaluation, as multisets: one for every history that opens, one for every history that closes.\<close>

definition opening_messages :: "(alert_key \<Rightarrow> bytes option) \<Rightarrow> alert_db \<Rightarrow> bytes multiset" where
  "opening_messages T d = image_mset (\<lambda>k. the (T k)) (mset_set {k \<in> dom T. opens (history k d)})"

definition closing_messages :: "(alert_key \<Rightarrow> bytes option) \<Rightarrow> alert_db \<Rightarrow> bytes multiset" where
  "closing_messages T d = image_mset (\<lambda>k. eaMessage (the (newest k d))) (mset_set {k. T k = None \<and> closes (history k d)})"

lemma keyed_messages:
  assumes "distinct (map fst xs)"
  shows "mset (map f (filter P xs)) =
    image_mset (\<lambda>k. f (k, the (map_of xs k))) (mset_set {k \<in> dom (map_of xs). P (k, the (map_of xs k))})"
proof -
  let ?ks = "map fst (filter P xs)"
  have d: "distinct ?ks" using assms by (simp add: distinct_map_filter)
  have "map f (filter P xs) = map (\<lambda>k. f (k, the (map_of xs k))) ?ks"
    using assms by (auto simp: map_of_eq_Some_iff)
  moreover have "set ?ks = {k \<in> dom (map_of xs). P (k, the (map_of xs k))}"
  proof
    show "set ?ks \<subseteq> {k \<in> dom (map_of xs). P (k, the (map_of xs k))}"
      using assms by auto
    show "{k \<in> dom (map_of xs). P (k, the (map_of xs k))} \<subseteq> set ?ks"
      by (force dest: map_of_SomeD)
  qed
  ultimately show ?thesis using mset_set_set [OF d] by (metis mset_map)
qed

lemma fired_opening:
  assumes "mset ts = mset T" and "distinct (map fst T)"
  shows "mset (fired_messages ts d) = opening_messages (map_of T) d"
  using keyed_messages [OF reordered(1) [OF assms], of snd "\<lambda>(k, m). opens (history k d)"] reordered(3) [OF assms]
  by (simp add: fired_messages_def opening_messages_def)

lemma recovered_closing:
  assumes "mset es = mset X" and "distinct (map fst X)" and "map_of X = (\<lambda>k. newest k d)"
  shows "mset (recovered_messages T es) = closing_messages (map_of T) d"
proof -
  have "{k \<in> dom (map_of X). eaStatus (the (map_of X k)) = ''firing'' \<and> map_of T k = None} =
      {k. map_of T k = None \<and> closes (history k d)}"
    using assms(3) by (auto simp: closes_newest)
  then show ?thesis
    using keyed_messages [OF reordered(1) [OF assms(1,2)], of "\<lambda>(k, e). eaMessage e"
        "\<lambda>(k, e). eaStatus e = ''firing'' \<and> map_of T k = None"] reordered(3) [OF assms(1,2)] assms(3)
    by (simp add: recovered_messages_def closing_messages_def)
qed

text \<open>Whatever fails, the rows of every key stay, or its history makes its one step.\<close>

definition evaluated :: "(alert_key \<Rightarrow> bytes option) \<Rightarrow> alert_db \<Rightarrow> alert_db \<Rightarrow> bool" where
  "evaluated T d d' \<longleftrightarrow> alerts_ok d' \<and>
     (\<forall>k. history k d' = history k d \<or> history k d' = next_history (T k \<noteq> None) (history k d))"

lemma evaluated_refl: "alerts_ok d \<Longrightarrow> adAlerts d' = adAlerts d \<Longrightarrow> evaluated T d d'"
  by (simp add: evaluated_def alerts_ok_def history_def alert_rows_def)

lemma loops_evaluated:
  assumes fire: "fireAlerts now (\<lambda>k. newest k d) ts d = (out, u)" and ok: "alerts_ok d"
    and ts: "mset ts = mset T" and T: "distinct (map fst T)"
    and rec: "recoverAlerts now T es u = (out2, d')" and es: "distinct (map fst es)" "map_of es = (\<lambda>k. newest k d)"
  shows "evaluated (map_of T) d u" "evaluated (map_of T) d d'" "same_world d d'" "adFaults d = [] \<Longrightarrow> out2 \<noteq> None"
    "out2 \<noteq> None \<Longrightarrow> out2 = Some (recovered_messages T es)"
    "out \<noteq> None \<Longrightarrow> out2 \<noteq> None \<Longrightarrow> history k d' = next_history (map_of T k \<noteq> None) (history k d)"
proof -
  have keys: "k \<in> fst ` set ts \<longleftrightarrow> map_of T k \<noteq> None" for k
    using reordered(2) [OF ts T] by (simp add: map_of_eq_None_iff)
  note F = fireAlerts_effect [OF fire ok reordered(1) [OF ts T] refl, unfolded keys]
  have rows: "alert_rows k u = alert_rows k d" if "map_of T k = None" for k using F that by simp
  have step: "history k u = next_history True (history k d) \<or> out = None \<and> history k u = history k d"
    if "map_of T k \<noteq> None" for k using F that by simp
  show "evaluated (map_of T) d u"
    unfolding evaluated_def
  proof (intro conjI allI)
    fix k
    show "history k u = history k d \<or> history k u = next_history (map_of T k \<noteq> None) (history k d)"
      using rows [of k] step [of k] by (cases "map_of T k") (auto simp: history_def)
  qed (use F in simp)
  have new: "newest k u = Some e" if "(k, e) \<in> set es" "map_of T k = None" for k e
  proof -
    have "newest k d = Some e" using map_of_is_SomeI [OF es(1) that(1)] es(2) by simp
    moreover have "newest k u = newest k d" unfolding newest_def rows [OF that(2)] by (rule refl)
    ultimately show ?thesis by simp
  qed
  have "alerts_ok u" using F by simp
  note R = recoverAlerts_effect [OF rec this es(1) new]
  have ex: "k \<in> fst ` set es \<longleftrightarrow> newest k d \<noteq> None" for k
    using fun_cong [OF es(2), of k] by (metis map_of_eq_None_iff)
  have idle: "next_history False (history k d) = history k d" if "k \<notin> fst ` set es" for k
    using that ex closes_newest [of k d] by (simp add: next_history_def)
  have trig: "history k d' = history k u" if "map_of T k \<noteq> None" for k
    using R that by (simp add: history_def)
  have free: "history k d' = next_history False (history k d) \<or> out2 = None \<and> history k d' = history k d"
    if "map_of T k = None" for k
  proof -
    have "history k u = history k d" using rows [OF that] by (simp add: history_def)
    moreover have "history k d' = history k u" if "k \<notin> fst ` set es" using R that by (simp add: history_def)
    ultimately show ?thesis using R that idle [of k] by metis
  qed
  show "evaluated (map_of T) d d'"
    unfolding evaluated_def
  proof (intro conjI allI)
    fix k
    show "history k d' = history k d \<or> history k d' = next_history (map_of T k \<noteq> None) (history k d)"
      using trig [of k] free [of k] step [of k] by (cases "map_of T k") auto
  qed (use R in simp)
  have w: "same_world d u" "same_world u d'" using F R by simp_all
  then show "same_world d d'" by (rule same_world_trans)
  show "adFaults d = [] \<Longrightarrow> out2 \<noteq> None" using R w(1) by (simp add: same_world_def)
  show "out2 \<noteq> None \<Longrightarrow> out2 = Some (recovered_messages T es)" using R by simp
  show "out \<noteq> None \<Longrightarrow> out2 \<noteq> None \<Longrightarrow> history k d' = next_history (map_of T k \<noteq> None) (history k d)"
    using trig [of k] free [of k] step [of k] by (cases "map_of T k") auto
qed

text \<open>The reads.\<close>

lemma load_frame:
  "loadNodes d = (out, d') \<Longrightarrow> adAlerts d' = adAlerts d \<and> same_world d d' \<and> (adFaults d = [] \<longrightarrow> out \<noteq> None) \<and>
     (out \<noteq> None \<longrightarrow> out = Some (adNodes d))"
  "loadLatestVersions d = (vs, d') \<Longrightarrow> adAlerts d' = adAlerts d \<and> same_world d d' \<and> (adFaults d = [] \<longrightarrow> vs \<noteq> None) \<and>
     (vs \<noteq> None \<longrightarrow> vs = Some (adVersions d))"
  "loadExistingAlerts d = (es, d') \<Longrightarrow> adAlerts d' = adAlerts d \<and> same_world d d' \<and> (adFaults d = [] \<longrightarrow> es \<noteq> None)"
proof -
  obtain b u where 1: "takeFault d = (b, u)" by (metis surj_pair)
  note f = takeFault_frame(1-3) [OF 1]
  have w: "adNodes u = adNodes d" "adVersions u = adVersions d" using f(2) by (simp_all add: same_world_def)
  show "loadNodes d = (out, d') \<Longrightarrow> adAlerts d' = adAlerts d \<and> same_world d d' \<and> (adFaults d = [] \<longrightarrow> out \<noteq> None) \<and>
     (out \<noteq> None \<longrightarrow> out = Some (adNodes d))"
    using f w by (cases b) (auto simp: loadNodes_def 1)
  show "loadLatestVersions d = (vs, d') \<Longrightarrow> adAlerts d' = adAlerts d \<and> same_world d d' \<and> (adFaults d = [] \<longrightarrow> vs \<noteq> None) \<and>
     (vs \<noteq> None \<longrightarrow> vs = Some (adVersions d))"
    using f w by (cases b) (auto simp: loadLatestVersions_def 1)
  show "loadExistingAlerts d = (es, d') \<Longrightarrow> adAlerts d' = adAlerts d \<and> same_world d d' \<and> (adFaults d = [] \<longrightarrow> es \<noteq> None)"
    using f by (cases b) (auto simp: loadExistingAlerts_def 1)
qed

lemma evaluated_alerts:
  assumes "adAlerts u = adAlerts d" and "evaluated T u d'" and "adAlerts d'' = adAlerts d'"
  shows "evaluated T d d''"
  using assms unfolding evaluated_def alerts_ok_def history_def alert_rows_def by simp

lemma same_rows:
  assumes "adAlerts u = adAlerts d"
  shows "newest k u = newest k d" "history k u = history k d" "alerts_ok u = alerts_ok d"
  using assms by (simp_all add: newest_def history_def alert_rows_def alerts_ok_def)

lemma Evaluate_loads:
  assumes "Evaluate E cfg now d = (b, d')" and "alerts_ok d" and "map_orders E"
  obtains (unread) "adAlerts d' = adAlerts d" "adFaults d = [] \<Longrightarrow> envDuration E (acNodeTimeout cfg) = None"
  | (loops) T u ts es out v out2 w
    where "map_of T = triggers E cfg now d" "distinct (map fst T)" "same_world d u" "adAlerts u = adAlerts d"
      "mset ts = mset T" "fireAlerts (now div second) (\<lambda>k. newest k u) ts u = (out, v)"
      "distinct (map fst es)" "map_of es = (\<lambda>k. newest k u)"
      "mset (recovered_messages T es) = closing_messages (map_of T) d"
      "recoverAlerts (now div second) T es v = (out2, w)"
      "if out = None then b = False \<and> d' = v
       else if out2 = None then b = False \<and> d' = w
       else (b, d') = notifyAll cfg (map fireText (the out) @ map recoveryText (the out2)) w"
proof (cases "envDuration E (acNodeTimeout cfg)")
  case None
  then show ?thesis using assms(1) unread by (simp add: Evaluate_def)
next
  case (Some timeout)
  obtain vs d1 where 1: "loadLatestVersions d = (vs, d1)" by (metis surj_pair)
  obtain ex d2 where 2: "loadExistingAlerts d1 = (ex, d2)" by (metis surj_pair)
  obtain ns d3 where 3: "loadNodes d2 = (ns, d3)" by (metis surj_pair)
  note f = load_frame(2) [OF 1] load_frame(3) [OF 2] load_frame(1) [OF 3]
  have world: "same_world d d3" "adAlerts d3 = adAlerts d" "adAlerts d2 = adAlerts d" "adAlerts d1 = adAlerts d"
    using f same_world_trans [of d d1 d2] same_world_trans [of d d2 d3] by simp_all
  show ?thesis
  proof (cases "vs = None \<or> ex = None \<or> ns = None")
    case True
    then have "d' = d1 \<or> d' = d2 \<or> d' = d3"
      using assms(1) by (cases vs; cases ex; cases ns) (simp_all add: Evaluate_def Some 1 2 3 Let_def)
    then have "adAlerts d' = adAlerts d" using world by auto
    moreover have "adFaults d \<noteq> []" using True f unfolding same_world_def by fastforce
    ultimately show ?thesis using unread by blast
  next
    case False
    then obtain existing where ex: "ex = Some existing" "vs = Some (adVersions d)" "ns = Some (adNodes d)"
      using f by (auto simp: same_world_def)
    define T where "T = triggeredAlerts E cfg (adVersions d) now ((now - timeout) div second) (adNodes d)"
    have ok1: "alerts_ok d1" using assms(2) same_rows(3) [OF world(4)] by simp
    note load = loadExistingAlerts_newest [OF 2 [unfolded ex(1)] ok1]
    have nw: "newest k d1 = newest k d3" "newest k d3 = newest k d" for k
      using same_rows(1) [of d1 d3 k] same_rows(1) [OF world(2), of k] world by simp_all
    obtain out v where 4: "fireAlerts (now div second) (\<lambda>k. newest k d3) (envTriggeredOrder E T) d3 = (out, v)" by (metis surj_pair)
    obtain out2 w where 5: "recoverAlerts (now div second) T (envExistingOrder E existing) v = (out2, w)" by (metis surj_pair)
    have ordE: "mset (envExistingOrder E existing) = mset existing" and ordT: "mset (envTriggeredOrder E T) = mset T"
      using assms(3) by (simp_all add: map_orders_def)
    note ord = reordered [OF ordE load(2)]
    show ?thesis
    proof (rule loops [OF _ _ world(1,2) ordT 4 ord(1) _ _ 5])
      show "map_of T = triggers E cfg now d" by (simp add: T_def triggers_def Some)
      show "distinct (map fst T)" unfolding T_def by (rule triggeredAlerts_distinct)
      show "map_of (envExistingOrder E existing) = (\<lambda>k. newest k d3)" using ord(3) load(1) nw(1) by auto
      show "mset (recovered_messages T (envExistingOrder E existing)) = closing_messages (map_of T) d"
        using recovered_closing [OF ordE load(2)] load(1) nw by simp
      have ev: "(b, d') = (case out of None \<Rightarrow> (False, v)
          | Some fired \<Rightarrow> (case out2 of None \<Rightarrow> (False, w)
              | Some over \<Rightarrow> notifyAll cfg (map fireText fired @ map recoveryText over) w))"
        using assms(1) load(1) nw(1) 4 5
        by (simp add: Evaluate_def Some 1 2 3 ex T_def [symmetric] Let_def split: option.splits)
      show "if out = None then b = False \<and> d' = v
         else if out2 = None then b = False \<and> d' = w
         else (b, d') = notifyAll cfg (map fireText (the out) @ map recoveryText (the out2)) w"
        using ev by (auto split: option.splits)
    qed
  qed
qed

lemma Evaluate_evaluated:
  assumes "Evaluate E cfg now d = (b, d')" and "alerts_ok d" and "map_orders E"
  shows "evaluated (triggers E cfg now d) d d'"
  using assms
proof (cases rule: Evaluate_loads)
  case unread
  then show ?thesis using evaluated_refl [OF assms(2)] by blast
next
  case (loops T u ts es out v out2 w)
  have ok: "alerts_ok u" using assms(2) same_rows(3) [OF loops(4)] by simp
  note L = loops_evaluated [OF loops(6) ok loops(5,2,10,7,8)]
  have "adAlerts d' = adAlerts v \<or> adAlerts d' = adAlerts w"
    using loops(11) notifyAll_frame [of cfg _ w b d'] by (metis (full_types))
  then show ?thesis
    using evaluated_alerts [OF loops(4) L(1)] evaluated_alerts [OF loops(4) L(2)] loops(1) by metis
qed

subsection \<open>The life of the table\<close>

text \<open>Evaluations, acknowledgements, deletions of nodes, and the writes of the rest of the Panel, in any order.\<close>

inductive alert_reachable :: "alert_db \<Rightarrow> bool" where
  Start: "alert_reachable \<lparr>adNodes = nodes, adVersions = vs, adAlerts = [], adSent = [], adFaults = fs\<rparr>"
| World: "alert_reachable d \<Longrightarrow> alert_reachable (d\<lparr>adNodes := nodes, adVersions := vs, adFaults := fs\<rparr>)"
| Evaluation: "alert_reachable d \<Longrightarrow> map_orders E \<Longrightarrow> Evaluate E cfg now d = (b, d') \<Longrightarrow> alert_reachable d'"
| Acknowledgement: "alert_reachable d \<Longrightarrow> handleAlertAck i now d = (r, d') \<Longrightarrow> alert_reachable d'"
| Deletion: "alert_reachable d \<Longrightarrow> alert_reachable (d\<lparr>adAlerts := filter (\<lambda>a. arNodeID a \<noteq> n) (adAlerts d)\<rparr>)"

lemma handleAlertAck_ok:
  assumes "handleAlertAck i now d = (r, d')" and "alerts_ok d"
  shows "alerts_ok d'"
proof (cases i)
  case None
  then show ?thesis using assms by (simp add: handleAlertAck_def)
next
  case (Some j)
  obtain b u where 1: "takeFault d = (b, u)" by (metis surj_pair)
  note fr = takeFault_frame [OF 1]
  let ?g = "\<lambda>a. if arID a = j then acknowledged now a else a"
  have g: "arID (?g a) = arID a" "row_key (?g a) = row_key a" "arStatus (?g a) \<noteq> ''firing'' \<or> arStatus (?g a) = arStatus a" for a
    by (simp_all add: acknowledged_def row_key_def)
  have d': "d' = (if b then u\<lparr>adAlerts := map ?g (adAlerts u)\<rparr> else u)"
    using assms(1) by (auto simp: handleAlertAck_def Some updateAlert_def 1 Let_def split: if_splits)
  show ?thesis
  proof (cases b)
    case False
    then show ?thesis using d' fr(5) assms(2) by simp
  next
    case True
    have rows: "alert_rows k d' = map ?g (alert_rows k d)" for k
    proof -
      have "filter (\<lambda>a. row_key a = k) (map ?g xs) = map ?g (filter (\<lambda>a. row_key a = k) xs)" for xs
        by (induction xs) (simp_all add: g(2))
      then show ?thesis using d' True fr(1) by (simp add: alert_rows_def)
    qed
    show ?thesis
    proof (rule alerts_okI)
      have "map arID (adAlerts d') = map arID (adAlerts d)" using d' True fr(1) g(1) by simp
      then show "sorted_wrt (<) (map arID (adAlerts d'))" using assms(2) by (simp only: alerts_ok_def)
      fix k
      have "set (butlast (history k d')) \<subseteq> (arStatus \<circ> ?g) ` set (butlast (alert_rows k d))"
        unfolding history_def rows by (simp add: map_butlast [symmetric])
      moreover have "''firing'' \<notin> arStatus ` set (butlast (alert_rows k d))"
        using alerts_ok_butlast [OF assms(2), of k] by (simp add: history_def map_butlast [symmetric])
      ultimately show "''firing'' \<notin> set (butlast (history k d'))"
      proof (intro notI)
        assume f: "''firing'' \<in> set (butlast (history k d'))"
          and sub: "set (butlast (history k d')) \<subseteq> (arStatus \<circ> ?g) ` set (butlast (alert_rows k d))"
          and no: "''firing'' \<notin> arStatus ` set (butlast (alert_rows k d))"
        obtain a where a: "a \<in> set (butlast (alert_rows k d))" "arStatus (?g a) = ''firing''"
          using subsetD [OF sub f] unfolding comp_def by (elim imageE) (metis (no_types))
        then have "arStatus a = ''firing''" using g(3) [of a] by metis
        then show False using no a(1) by (metis imageI)
      qed
    qed
  qed
qed

lemma deleted_ok:
  assumes "alerts_ok d"
  shows "alerts_ok (d\<lparr>adAlerts := filter (\<lambda>a. arNodeID a \<noteq> n) (adAlerts d)\<rparr>)"
proof (rule alerts_okI)
  let ?d = "d\<lparr>adAlerts := filter (\<lambda>a. arNodeID a \<noteq> n) (adAlerts d)\<rparr>"
  show "sorted_wrt (<) (map arID (adAlerts ?d))"
    using assms sorted_wrt_filter [of "\<lambda>a b. arID a < arID b" "adAlerts d" "\<lambda>a. arNodeID a \<noteq> n"]
    by (simp add: alerts_ok_def sorted_wrt_map)
  fix k
  have "filter (\<lambda>a. row_key a = k \<and> arNodeID a \<noteq> n) rows =
      (if akNodeID k = n then [] else filter (\<lambda>a. row_key a = k) rows)" for rows
    by (induction rows) (auto simp: row_key_def)
  then have "alert_rows k ?d = (if akNodeID k = n then [] else alert_rows k d)"
    by (simp add: alert_rows_def conj_commute)
  then show "''firing'' \<notin> set (butlast (history k ?d))"
    using alerts_ok_butlast [OF assms, of k] by (simp add: history_def)
qed

lemma reachable_ok: "alert_reachable d \<Longrightarrow> alerts_ok d"
proof (induction rule: alert_reachable.induct)
  case (Start nodes vs fs)
  then show ?case by (simp add: alerts_ok_def history_def alert_rows_def)
next
  case World
  then show ?case by (simp add: alerts_ok_def history_def alert_rows_def)
next
  case (Evaluation d E cfg now b d')
  then show ?case using Evaluate_evaluated unfolding evaluated_def by blast
next
  case (Acknowledgement d i now r d')
  then show ?case using handleAlertAck_ok by blast
next
  case (Deletion d n)
  then show ?case by (intro deleted_ok)
qed

text \<open>C16. An evaluation in which nothing fails moves every key of the table by one step of its state machine, whatever the order in which Go
  visits its maps: a triggered rule opens a firing row unless its newest row is firing or acknowledged already, a firing row
  whose rule is not triggered recovers, and everything else stays. Exactly the opened and the recovered rows are announced on every
  configured channel, and a key never has two firing rows.\<close>

theorem Evaluate_steps_every_history:
  assumes "alert_reachable d" and "map_orders E" and "envDuration E (acNodeTimeout cfg) \<noteq> None" and "adFaults d = []"
  shows "\<exists>d' fired over. Evaluate E cfg now d = (True, d') \<and>
    (\<forall>k. history k d' = next_history (triggers E cfg now d k \<noteq> None) (history k d) \<and>
      count_list (history k d') ''firing'' \<le> 1) \<and>
    mset fired = opening_messages (triggers E cfg now d) d \<and> mset over = closing_messages (triggers E cfg now d) d \<and>
    adSent d' = adSent d @ concat (map (posts cfg) (map fireText fired @ map recoveryText over))"
proof -
  have ok: "alerts_ok d" by (rule reachable_ok [OF assms(1)])
  obtain b d' where run: "Evaluate E cfg now d = (b, d')" by (metis surj_pair)
  from run ok assms(2) show ?thesis
  proof (cases rule: Evaluate_loads)
    case unread
    then show ?thesis using assms(3,4) by blast
  next
    case (loops T u ts es out v out2 w)
    have ok': "alerts_ok u" and nf: "adFaults u = []"
      using ok same_rows(3) [OF loops(4)] loops(3) assms(4) by (simp_all add: same_world_def)
    note F = fireAlerts_effect [OF loops(6) ok' reordered(1) [OF loops(5,2)] refl]
    note L = loops_evaluated [OF loops(6) ok' loops(5,2,10,7,8)]
    have out: "out = Some (fired_messages ts u)" using F nf by blast
    have out2: "out2 = Some (recovered_messages T es)" using L(4) [OF nf] L(5) by blast
    have w: "adFaults w = []" "adSent w = adSent d" using L(3) loops(3) nf by (simp_all add: same_world_def)
    have d': "b = True" "d' = w\<lparr>adSent := adSent w @ concat (map (posts cfg)
        (map fireText (fired_messages ts u) @ map recoveryText (recovered_messages T es)))\<rparr>"
      using loops(11) notifyAll_posts [OF w(1)] out out2 by simp_all
    have hist: "history k d' = next_history (triggers E cfg now d k \<noteq> None) (history k d)" for k
      using L(6) [of k] out out2 loops(1) same_rows(2) [OF loops(4), of k] same_rows(2) [of d' w k] d'(2) by simp
    have "count_list (history k d') ''firing'' \<le> 1" for k
    proof -
      have "alerts_ok d'" using Evaluate_evaluated [OF run ok assms(2)] by (simp add: evaluated_def)
      then have "count_list (butlast (history k d')) ''firing'' = 0"
        using alerts_ok_butlast [of d' k] by (simp add: count_list_0_iff)
      then show ?thesis by (cases "history k d'" rule: rev_cases) auto
    qed
    moreover have "mset (fired_messages ts u) = opening_messages (triggers E cfg now d) d"
      using fired_opening [OF loops(5,2), of u] loops(1) same_rows(2) [OF loops(4)] by (simp add: opening_messages_def)
    ultimately show ?thesis using run d' hist loops(1,9) w(2) by auto
  qed
qed

text \<open>The evaluations of a while, with what the rest of the Panel wrote before each of them.\<close>

fun evaluations ::
    "(alert_env \<times> alert_config \<times> duration \<times> node_state list \<times> (bytes \<times> bytes) list \<times> bool list) list \<Rightarrow>
      alert_db \<Rightarrow> alert_db" where
  "evaluations [] d = d"
| "evaluations ((E, cfg, now, nodes, vs, fs) # rs) d =
     evaluations rs (snd (Evaluate E cfg now (d\<lparr>adNodes := nodes, adVersions := vs, adFaults := fs\<rparr>)))"

lemma evaluations_acknowledged:
  assumes "alerts_ok d" and "history k d \<noteq> []" and "last (history k d) = ''acknowledged''"
    and "\<forall>r\<in>set rs. map_orders (fst r)"
  shows "history k (evaluations rs d) = history k d"
  using assms
proof (induction rs arbitrary: d)
  case (Cons r rs)
  obtain E cfg now nodes vs fs where r: "r = (E, cfg, now, nodes, vs, fs)" by (cases r) auto
  let ?d = "d\<lparr>adNodes := nodes, adVersions := vs, adFaults := fs\<rparr>"
  obtain b d' where run: "Evaluate E cfg now ?d = (b, d')" by (metis surj_pair)
  have same: "history k ?d = history k d" "alerts_ok ?d" using same_rows [of ?d d] Cons.prems(1) by simp_all
  have ev: "evaluated (triggers E cfg now ?d) ?d d'"
    by (rule Evaluate_evaluated [OF run same(2)]) (use Cons.prems(4) r in simp)
  have stays: "next_history b (history k d) = history k d" for b
    using Cons.prems(2,3) by (simp add: next_history_def opens_def closes_def)
  have "alerts_ok d'" using ev by (simp add: evaluated_def)
  moreover have "history k d' = history k d"
    using conjunct2 [OF ev [unfolded evaluated_def], THEN spec, of k] unfolding same(1) stays by blast
  ultimately show ?case using Cons.IH [of d'] Cons.prems by (simp add: r run)
qed simp


subsection \<open>Witnesses\<close>

definition sample_env :: alert_env where
  "sample_env = \<lparr>envHost = (\<lambda>_. (True, \<lparr>ahHostname = ''h'', ahDiskUsedPct = 0, ahMemUsedPct = 0\<rparr>)), envServices = (\<lambda>_. []),
     envPercent = (\<lambda>_. []), envDuration = (\<lambda>_. Some minute), envTriggeredOrder = id, envExistingOrder = rev\<rparr>"

definition sample_config :: alert_config where
  "sample_config = \<lparr>acNodeTimeout = ''1m'', acCertExpiryDays = 7, acDiskUsagePct = 85, acMemUsagePct = 90, acTelegramToken = [],
     acTelegramChatID = [], acWebhookURL = ''u''\<rparr>"

definition sample_node :: "int \<Rightarrow> node_state" where
  "sample_node t = \<lparr>nsNodeID = ''n'', nsAlias = ''a'', nsLastReportAt = t, nsMutedUntil = 0, nsHostJSON = ''{}'', nsServicesJSON = []\<rparr>"

definition sample_alerts :: alert_db where
  "sample_alerts = \<lparr>adNodes = [sample_node 0], adVersions = [], adAlerts = [], adSent = [], adFaults = []\<rparr>"

lemma sample_orders: "map_orders sample_env"
  by (simp add: map_orders_def sample_env_def)

lemma sample_alerts_reachable: "alert_reachable sample_alerts"
  unfolding sample_alerts_def by (rule Start)

theorem Evaluate_steps_every_history_witness:
  "\<exists>d'. Evaluate sample_env sample_config hour sample_alerts = (True, d') \<and>
     history (AlertKey ''n'' ''node_offline'') d' = [''firing'']"
proof -
  have t: "triggers sample_env sample_config hour sample_alerts (AlertKey ''n'' ''node_offline'') \<noteq> None"
    by (simp add: triggers_def triggeredAlerts_def sample_alerts_def sample_node_def nodeAlerts_def)
  have h: "history (AlertKey ''n'' ''node_offline'') sample_alerts = []"
    by (simp add: sample_alerts_def history_def alert_rows_def)
  have "envDuration sample_env (acNodeTimeout sample_config) \<noteq> None" "adFaults sample_alerts = []"
    by (simp_all add: sample_env_def sample_alerts_def)
  from Evaluate_steps_every_history [OF sample_alerts_reachable sample_orders this, of hour]
  obtain d' where "Evaluate sample_env sample_config hour sample_alerts = (True, d')"
    "\<forall>k. history k d' = next_history (triggers sample_env sample_config hour sample_alerts k \<noteq> None) (history k sample_alerts)"
    by blast
  then show ?thesis using t h by (simp add: next_history_def opens_def)
qed

definition sample_acknowledged :: alert_db where
  "sample_acknowledged = snd (handleAlertAck (Some 1) 5 (snd (Evaluate sample_env sample_config hour sample_alerts)))"


end
