(* ===== verification/UpdateManifest.thy ===== *)
theory UpdateManifest
  imports ControlProto
begin

text \<open>
  \<open>internal/update/manifest.go\<close>: signed release manifests. The canonical JSON of a manifest is the
  exact byte sequence that is signed, so it is modelled with the escaping of \<open>encoding/json\<close> (bytes from
  0x80 on are passed through: the strings are valid UTF-8 without the two line separators that
  the encoder also escapes). Parsing a URL and parsing JSON are parameters.
\<close>

subsection \<open>Canonical JSON\<close>

definition esc_char :: "char \<Rightarrow> bytes" where
  "esc_char c =
     (let n = (of_char c :: nat) in
      if c = CHR 0x22 then [CHR 0x5C, CHR 0x22]
      else if c = CHR 0x5C then [CHR 0x5C, CHR 0x5C]
      else if n = 8 then [CHR 0x5C, CHR ''b'']
      else if n = 12 then [CHR 0x5C, CHR ''f'']
      else if n = 10 then [CHR 0x5C, CHR ''n'']
      else if n = 13 then [CHR 0x5C, CHR ''r'']
      else if n = 9 then [CHR 0x5C, CHR ''t'']
      else if n < 32 \<or> c = CHR ''<'' \<or> c = CHR ''>'' \<or> c = CHR ''&''
      then [CHR 0x5C, CHR ''u'', CHR ''0'', CHR ''0'', hex_digit (n div 16), hex_digit (n mod 16)]
      else [c])"

definition json_string :: "bytes \<Rightarrow> bytes" where
  "json_string s = [CHR 0x22] @ concat (map esc_char s) @ [CHR 0x22]"

definition json_int :: "int64 \<Rightarrow> bytes" where
  "json_int w = (let i = sint w in if i < 0 then ''-'' @ dec_digits (nat (- i)) else dec_digits (nat i))"

subsection \<open>Manifests\<close>

definition MaxArtifactBytes :: int where "MaxArtifactBytes = 33554432"

record manifest =
  mfVersion :: bytes
  mfOS :: bytes
  mfArch :: bytes
  mfByteSize :: int64
  mfSHA256 :: bytes
  mfArtifactURL :: bytes
  mfMinimumPanelVersion :: bytes
  mfControlVersion :: bytes
  mfIssuedAt :: int64
  mfExpiresAt :: int64

definition json_key :: "bytes \<Rightarrow> bytes" where
  "json_key k = [CHR 0x22] @ k @ [CHR 0x22, CHR '':'']"

definition ManifestBytes :: "manifest \<Rightarrow> bytes" where
  "ManifestBytes m =
     ''{'' @ json_key ''version'' @ json_string (mfVersion m) @
     '','' @ json_key ''os'' @ json_string (mfOS m) @
     '','' @ json_key ''arch'' @ json_string (mfArch m) @
     '','' @ json_key ''byte_size'' @ json_int (mfByteSize m) @
     '','' @ json_key ''sha256'' @ json_string (mfSHA256 m) @
     '','' @ json_key ''artifact_url'' @ json_string (mfArtifactURL m) @
     '','' @ json_key ''minimum_panel_version'' @ json_string (mfMinimumPanelVersion m) @
     '','' @ json_key ''control_version'' @ json_string (mfControlVersion m) @
     '','' @ json_key ''issued_at'' @ json_int (mfIssuedAt m) @
     '','' @ json_key ''expires_at'' @ json_int (mfExpiresAt m) @ ''}''"

datatype manifest_error = ManifestDecode | ManifestTrailing | ManifestNotCanonical

definition DecodeManifest :: "(bytes \<Rightarrow> manifest json_doc) \<Rightarrow> bytes \<Rightarrow> manifest_error + manifest" where
  "DecodeManifest decode body =
     (case decode body of
        JsonBad \<Rightarrow> Inl ManifestDecode
      | JsonTrailing m \<Rightarrow> Inl ManifestTrailing
      | JsonGarbage m \<Rightarrow> Inl ManifestTrailing
      | JsonDoc m \<Rightarrow> if trim_space body \<noteq> ManifestBytes m then Inl ManifestNotCanonical else Inr m)"

subsection \<open>Versions\<close>

type_synonym semver = "nat \<times> nat \<times> nat"

definition semver_part :: "bytes \<Rightarrow> nat option" where
  "semver_part part =
     (if part = [] \<or> (1 < length part \<and> hd part = CHR ''0'') then None
      else case parse_uint part 10 63 of (n, None) \<Rightarrow> Some n | (n, Some e) \<Rightarrow> None)"

definition parseSemver :: "bytes \<Rightarrow> semver option" where
  "parseSemver value =
     (case map semver_part (split_char CHR ''.'' (trim_prefix value ''v'')) of
        [Some a, Some b, Some c] \<Rightarrow> Some (a, b, c)
      | _ \<Rightarrow> None)"

fun compareVersion :: "semver \<Rightarrow> semver \<Rightarrow> int" where
  "compareVersion (a, b, c) (a', b', c') =
     (if a < a' then -1 else if a' < a then 1
      else if b < b' then -1 else if b' < b then 1
      else if c < c' then -1 else if c' < c then 1 else 0)"

subsection \<open>Signing and verification\<close>

record signed_manifest =
  smManifest :: manifest
  smSignature :: bytes

record parsed_url =
  uScheme :: bytes
  uHostname :: bytes
  uHasUser :: bool
  uRawQuery :: bytes
  uFragment :: bytes

record verify_options =
  voCurrentVersion :: bytes
  voPanelVersion :: bytes
  voOS :: bytes
  voArch :: bytes
  voControlVersion :: bytes
  voArtifact :: "bytes option"
  voNow :: int64

datatype verify_error =
    ErrSignature
  | ErrVersion
  | ErrDowngrade
  | ErrPlatform
  | ErrArtifactSize
  | ErrArtifactHash
  | ErrArtifactURL
  | ErrControlVersion
  | ErrPanelVersion
  | ErrExpired
  | ErrIssuedInFuture

definition SignManifest :: "crypto \<Rightarrow> bytes \<Rightarrow> manifest \<Rightarrow> verify_error + signed_manifest" where
  "SignManifest c privateKey m =
     (if length privateKey \<noteq> PrivateKeySize then Inl ErrSignature
      else Inr \<lparr>smManifest = m, smSignature = ed_sign c privateKey (ManifestBytes m)\<rparr>)"

definition checkVersions :: "manifest \<Rightarrow> verify_options \<Rightarrow> verify_error option" where
  "checkVersions m opts =
     (case parseSemver (mfVersion m) of
        None \<Rightarrow> Some ErrVersion
      | Some version \<Rightarrow> (case parseSemver (voCurrentVersion opts) of
          None \<Rightarrow> Some ErrDowngrade
        | Some current \<Rightarrow> if compareVersion version current \<le> 0 then Some ErrDowngrade else None))"

definition checkArtifactFields :: "(bytes \<Rightarrow> parsed_url option) \<Rightarrow> manifest \<Rightarrow> verify_options \<Rightarrow> verify_error option" where
  "checkArtifactFields parse_url m opts =
     (if mfOS m = [] \<or> mfArch m = [] \<or> mfOS m \<noteq> voOS opts \<or> mfArch m \<noteq> voArch opts then Some ErrPlatform
      else if sint (mfByteSize m) \<le> 0 \<or> MaxArtifactBytes < sint (mfByteSize m) then Some ErrArtifactSize
      else case hex_decode (mfSHA256 m) of
        None \<Rightarrow> Some ErrArtifactHash
      | Some digest \<Rightarrow>
          if length digest \<noteq> 32 \<or> mfSHA256 m \<noteq> to_lower (mfSHA256 m) then Some ErrArtifactHash
          else case parse_url (mfArtifactURL m) of
            None \<Rightarrow> Some ErrArtifactURL
          | Some u \<Rightarrow>
              if uScheme u \<noteq> ''https'' \<or> uHostname u = [] \<or> uHasUser u \<or> uRawQuery u \<noteq> [] \<or> uFragment u \<noteq> []
              then Some ErrArtifactURL else None)"

definition checkPanel :: "manifest \<Rightarrow> verify_options \<Rightarrow> verify_error option" where
  "checkPanel m opts =
     (if voControlVersion opts = [] \<or> mfControlVersion m \<noteq> voControlVersion opts then Some ErrControlVersion
      else case parseSemver (mfMinimumPanelVersion m) of
        None \<Rightarrow> Some ErrPanelVersion
      | Some minimum \<Rightarrow> (case parseSemver (voPanelVersion opts) of
          None \<Rightarrow> Some ErrPanelVersion
        | Some panel \<Rightarrow> if compareVersion panel minimum < 0 then Some ErrPanelVersion else None))"

definition checkLifetime :: "manifest \<Rightarrow> int64 \<Rightarrow> verify_error option" where
  "checkLifetime m now =
     (if mfExpiresAt m \<le>s now \<or> mfExpiresAt m \<le>s mfIssuedAt m then Some ErrExpired
      else if now + 300 <s mfIssuedAt m then Some ErrIssuedInFuture
      else if 86400 <s mfExpiresAt m - mfIssuedAt m then Some ErrExpired
      else None)"

definition checkArtifact :: "crypto \<Rightarrow> manifest \<Rightarrow> bytes option \<Rightarrow> verify_error option" where
  "checkArtifact c m artifact =
     (case artifact of
        None \<Rightarrow> None
      | Some a \<Rightarrow>
          if int (length a) \<noteq> sint (mfByteSize m) then Some ErrArtifactSize
          else if hex_decode (mfSHA256 m) \<noteq> Some (sha256 c a) then Some ErrArtifactHash
          else None)"

fun first_error :: "'e option list \<Rightarrow> 'e option" where
  "first_error [] = None"
| "first_error (e # es) = (case e of None \<Rightarrow> first_error es | Some x \<Rightarrow> Some x)"

definition VerifyManifest ::
    "crypto \<Rightarrow> (bytes \<Rightarrow> parsed_url option) \<Rightarrow> bytes \<Rightarrow> signed_manifest \<Rightarrow> verify_options \<Rightarrow> verify_error option" where
  "VerifyManifest c parse_url publicKey sm opts =
     (if length publicKey \<noteq> PublicKeySize \<or> length (smSignature sm) \<noteq> SignatureSize then Some ErrSignature
      else if \<not> ed_verify c publicKey (ManifestBytes (smManifest sm)) (smSignature sm) then Some ErrSignature
      else
        let m = smManifest sm in
        first_error
          [checkVersions m opts, checkArtifactFields parse_url m opts, checkPanel m opts,
           checkLifetime m (voNow opts), checkArtifact c m (voArtifact opts)])"

subsection \<open>The canonical encoding is injective\<close>

definition unesc :: "bytes \<Rightarrow> (char \<times> bytes) option" where
  "unesc s =
     (case s of
        [] \<Rightarrow> None
      | a # r \<Rightarrow>
          if a \<noteq> CHR 0x5C then Some (a, r)
          else (case r of
             [] \<Rightarrow> None
           | b # r \<Rightarrow>
               if b = CHR ''b'' then Some (CHR 0x08, r) else if b = CHR ''f'' then Some (CHR 0x0C, r)
               else if b = CHR ''n'' then Some (CHR 0x0A, r) else if b = CHR ''r'' then Some (CHR 0x0D, r)
               else if b = CHR ''t'' then Some (CHR 0x09, r)
               else if b = CHR ''u'' then
                 (case r of
                    _ # _ # x # y # q \<Rightarrow>
                      (case (hex_value x, hex_value y) of
                         (Some i, Some j) \<Rightarrow> Some (char_of (i * 16 + j), q)
                       | _ \<Rightarrow> None)
                  | _ \<Rightarrow> None)
               else Some (b, r)))"

lemma char_eqI_nat: "of_char c = (n :: nat) \<Longrightarrow> c = char_of n"
  by (metis char_of_char)

lemma char_codes:
  "of_char c = (8 :: nat) \<Longrightarrow> c = CHR 0x08" "of_char c = (12 :: nat) \<Longrightarrow> c = CHR 0x0C"
  "of_char c = (10 :: nat) \<Longrightarrow> c = CHR 0x0A" "of_char c = (13 :: nat) \<Longrightarrow> c = CHR 0x0D"
  "of_char c = (9 :: nat) \<Longrightarrow> c = CHR 0x09"
  by (auto dest!: char_eqI_nat simp: char_of_def bit_0)

lemma unesc_esc [simp]: "unesc (esc_char c @ r) = Some (c, r)"
proof -
  let ?n = "of_char c :: nat"
  have hex: "unesc ([CHR 0x5C, CHR ''u'', CHR ''0'', CHR ''0'', hex_digit (?n div 16), hex_digit (?n mod 16)] @ r) =
      Some (c, r)"
    by (simp add: unesc_def less_mult_imp_div_less)
  consider "c = CHR 0x22" | "c = CHR 0x5C" | "?n = 8" | "?n = 12" | "?n = 10" | "?n = 13" | "?n = 9"
    | (u) "c \<noteq> CHR 0x22" "c \<noteq> CHR 0x5C" "?n \<notin> {8, 12, 10, 13, 9}" "?n < 32 \<or> c = CHR ''<'' \<or> c = CHR ''>'' \<or> c = CHR ''&''"
    | (plain) "c \<noteq> CHR 0x22" "c \<noteq> CHR 0x5C" "?n \<notin> {8, 12, 10, 13, 9}" "\<not> (?n < 32 \<or> c = CHR ''<'' \<or> c = CHR ''>'' \<or> c = CHR ''&'')"
    by blast
  then show ?thesis
  proof cases
    case u
    then have "esc_char c = [CHR 0x5C, CHR ''u'', CHR ''0'', CHR ''0'', hex_digit (?n div 16), hex_digit (?n mod 16)]"
      by (simp add: esc_char_def Let_def)
    then show ?thesis using hex by simp
  next
    case plain
    then show ?thesis by (simp add: esc_char_def Let_def unesc_def)
  next
    case 3
    then have "c = CHR 0x08" by (rule char_codes)
    then show ?thesis by (simp add: esc_char_def unesc_def)
  next
    case 4
    then have "c = CHR 0x0C" by (rule char_codes)
    then show ?thesis by (simp add: esc_char_def unesc_def)
  next
    case 5
    then have "c = CHR 0x0A" by (rule char_codes)
    then show ?thesis by (simp add: esc_char_def unesc_def)
  next
    case 6
    then have "c = CHR 0x0D" by (rule char_codes)
    then show ?thesis by (simp add: esc_char_def unesc_def)
  next
    case 7
    then have "c = CHR 0x09" by (rule char_codes)
    then show ?thesis by (simp add: esc_char_def unesc_def)
  qed (simp_all add: esc_char_def unesc_def)
qed

lemma esc_inject: "esc_char c @ r = esc_char d @ q \<longleftrightarrow> c = d \<and> r = q"
  by (metis unesc_esc option.inject prod.inject)

lemma esc_not_quote: "esc_char c @ r \<noteq> CHR 0x22 # q"
proof
  assume "esc_char c @ r = CHR 0x22 # q"
  then have "unesc (CHR 0x22 # q) = Some (c, r)" by (metis unesc_esc)
  then have "c = CHR 0x22" by (simp add: unesc_def)
  moreover have "hd (esc_char (CHR 0x22) @ r) = CHR 0x5C" by (simp add: esc_char_def)
  ultimately show False using \<open>esc_char c @ r = CHR 0x22 # q\<close> by simp
qed

lemma escaped_inject:
  "concat (map esc_char s) @ CHR 0x22 # r = concat (map esc_char t) @ CHR 0x22 # q \<longleftrightarrow> s = t \<and> r = q"
proof (induction s arbitrary: t)
  case Nil
  then show ?case using esc_not_quote by (cases t) (auto dest: sym)
next
  case (Cons c s)
  then show ?case using esc_not_quote by (cases t) (auto simp: esc_inject)
qed

lemma json_string_inject [simp]: "json_string s @ r = json_string t @ q \<longleftrightarrow> s = t \<and> r = q"
  by (simp add: json_string_def escaped_inject)

lemma dec_digits_terminated:
  assumes "\<not> is_digit x" and "\<not> is_digit y"
  shows "dec_digits m @ x # r = dec_digits n @ y # q \<longleftrightarrow> m = n \<and> x = y \<and> r = q"
proof
  assume e: "dec_digits m @ x # r = dec_digits n @ y # q"
  have tw: "takeWhile is_digit (dec_digits k @ z # p) = dec_digits k" if "\<not> is_digit z" for k z p
    using that dec_digits_digits [of k] by simp
  have "dec_digits m = dec_digits n" using tw [OF assms(1), of m r] tw [OF assms(2), of n q] e by simp
  with e show "m = n \<and> x = y \<and> r = q" by simp
qed simp

lemma dec_digits_no_minus: "dec_digits n @ s \<noteq> CHR ''-'' # t"
proof
  assume "dec_digits n @ s = CHR ''-'' # t"
  then have "CHR ''-'' \<in> set (dec_digits n)" by (cases "dec_digits n") auto
  moreover have "\<not> is_digit CHR ''-''" by (simp add: is_digit_def)
  ultimately show False using dec_digits_digits [of n] by blast
qed

lemma json_int_terminated:
  assumes "\<not> is_digit x" and "\<not> is_digit y"
  shows "json_int v @ x # r = json_int w @ y # q \<longleftrightarrow> v = w \<and> x = y \<and> r = q"
proof
  assume e: "json_int v @ x # r = json_int w @ y # q"
  have "sint v = sint w \<and> x = y \<and> r = q"
    using e dec_digits_terminated [OF assms] dec_digits_no_minus dec_digits_no_minus [THEN not_sym]
    by (cases "sint v < 0"; cases "sint w < 0") (simp_all add: json_int_def Let_def eq_nat_nat_iff)
  then show "v = w \<and> x = y \<and> r = q" using signed_word_eqI by blast
qed simp

lemma json_int_inject [simp]: "json_int v = json_int w \<longleftrightarrow> v = w"
  using json_int_terminated [of "CHR '',''" "CHR '',''" v "[]" w "[]"] by (simp add: is_digit_def)

lemma not_digit_simps [simp]: "\<not> is_digit CHR '',''" "\<not> is_digit CHR ''}''"
  by (simp_all add: is_digit_def)

lemma json_string_tail [simp]: "json_string s @ r = json_string t @ q \<longleftrightarrow> s = t \<and> r = q"
  by (rule json_string_inject)

text \<open>The canonical encoding determines the manifest: different manifests never have the same signed
  bytes.\<close>

theorem ManifestBytes_injective: "ManifestBytes m = ManifestBytes m' \<longleftrightarrow> m = m'"
  by (cases m; cases m') (simp add: ManifestBytes_def json_key_def json_int_terminated)

lemma trim_space_ManifestBytes [simp]: "trim_space (ManifestBytes m) = ManifestBytes m"
proof -
  have ends: "trim_space (x # s @ [y]) = x # s @ [y]" if "\<not> is_space x" "\<not> is_space y" for x y s
    using that by (simp add: trim_space_def)
  obtain s where s: "ManifestBytes m = CHR ''{'' # s @ [CHR ''}'']" by (simp add: ManifestBytes_def)
  show ?thesis unfolding s by (rule ends) (simp_all add: is_space_def)
qed

text \<open>\<open>DecodeManifest\<close> accepts a body only if, up to surrounding white space, it is the canonical encoding of
  the manifest it returns; so two accepted bodies that decode to the same manifest are the same
  signed bytes. With a decoder that reads back what \<open>json.Marshal\<close> wrote, every canonical encoding is
  accepted.\<close>

theorem DecodeManifest_canonical:
  "(DecodeManifest decode body = Inr m \<longrightarrow> trim_space body = ManifestBytes m) \<and>
   (decode (ManifestBytes m) = JsonDoc m \<longrightarrow> DecodeManifest decode (ManifestBytes m) = Inr m)"
  by (auto simp: DecodeManifest_def split: json_doc.splits if_splits)

definition sample_manifest :: manifest where
  "sample_manifest = \<lparr>mfVersion = ''1.2.3'', mfOS = ''linux'', mfArch = ''amd64'', mfByteSize = 3,
     mfSHA256 = hex_encode (replicate 32 CHR ''a''), mfArtifactURL = ''https://x/y'', mfMinimumPanelVersion = ''1.0.0'',
     mfControlVersion = ''1'', mfIssuedAt = 100, mfExpiresAt = 200\<rparr>"

theorem DecodeManifest_canonical_witness:
  "DecodeManifest (\<lambda>b. if b = ManifestBytes sample_manifest then JsonDoc sample_manifest else JsonBad)
     (ManifestBytes sample_manifest) = Inr sample_manifest"
  using DecodeManifest_canonical
    [of "\<lambda>b. if b = ManifestBytes sample_manifest then JsonDoc sample_manifest else JsonBad" _ sample_manifest]
  by simp

subsection \<open>Versions\<close>

definition semver_text :: "semver \<Rightarrow> bytes" where
  "semver_text v = (case v of (a, b, c) \<Rightarrow> join ''.'' [dec_digits a, dec_digits b, dec_digits c])"

definition semver_less :: "semver \<Rightarrow> semver \<Rightarrow> bool" where
  "semver_less v w =
     (case (v, w) of ((a, b, c), (a', b', c')) \<Rightarrow> a < a' \<or> a = a' \<and> (b < b' \<or> b = b' \<and> c < c'))"

lemma compareVersion_sign:
  "(compareVersion v w < 0 \<longleftrightarrow> semver_less v w) \<and> (compareVersion v w = 0 \<longleftrightarrow> v = w) \<and>
   (0 < compareVersion v w \<longleftrightarrow> semver_less w v)"
  by (cases v; cases w) (auto simp: semver_less_def)

lemma dec_digits_head: "0 < n \<Longrightarrow> hd (dec_digits n) \<noteq> CHR ''0''"
proof (induction n rule: dec_digits.induct)
  case (1 n)
  show ?case
  proof (cases "n < 10")
    case True
    have "of_char (char_of (n + 48) :: char) = n + 48" using True by simp
    then have "char_of (n + 48) \<noteq> CHR ''0''" using 1(2) by (auto dest: arg_cong [of _ _ "of_char :: char \<Rightarrow> nat"])
    then show ?thesis using True by (subst dec_digits.simps) simp
  next
    case False
    then have "hd (dec_digits (n div 10)) \<noteq> CHR ''0''" using 1(1) by (simp add: div_greater_zero_iff)
    then show ?thesis using False by (subst dec_digits.simps) simp
  qed
qed

lemma dec_digits_zero [simp]: "dec_digits 0 = ''0''"
  by (subst dec_digits.simps) (simp add: char_of_def bit_0)

lemma length_dec_digits_pos: "1 < length (dec_digits n) \<Longrightarrow> 0 < n"
  by (cases n) auto

lemma semver_part_digits: "n < 2 ^ 63 \<Longrightarrow> semver_part (dec_digits n) = Some n"
  using parse_dec_digits [of n 63] dec_digits_head [of n] length_dec_digits_pos [of n]
  by (auto simp: semver_part_def)

text \<open>A decimal text without superfluous zeros is the text of its value.\<close>

lemma digit_value_char:
  assumes "digit_value c = Some d" and "d < 10"
  shows "c = char_of (d + 48)"
proof -
  have n: "(of_char c :: nat) = d + 48"
    using assms by (auto simp: digit_value_def Let_def split: if_splits)
  then show ?thesis by (rule char_eqI_nat)
qed

lemma dec_digits_snoc: "0 < n \<Longrightarrow> d < 10 \<Longrightarrow> dec_digits (n * 10 + d) = dec_digits n @ [char_of (d + 48)]"
  by (subst dec_digits.simps) simp

lemma parse_loop_positive:
  "parse_uint_loop 10 mx n s = (v, None) \<Longrightarrow> 0 < n \<Longrightarrow> dec_digits n @ s = dec_digits v"
proof (induction "10 :: nat" mx n s rule: parse_uint_loop.induct)
  case (2 mx n c s)
  obtain d where d: "digit_value c = Some d" "d < 10" "parse_uint_loop 10 mx (n * 10 + d) s = (v, None)"
    using 2(2) by (auto split: option.splits if_splits)
  then have "dec_digits (n * 10 + d) @ s = dec_digits v"
    using 2(1) [OF d(1)] 2(2,3) by (auto split: if_splits)
  then show ?case using dec_digits_snoc [OF 2(3) d(2)] digit_value_char [OF d(1,2)] by simp
qed simp

lemma parse_loop_canonical:
  assumes "parse_uint_loop 10 mx 0 s = (v, None)" and "s \<noteq> []" and "hd s \<noteq> CHR ''0'' \<or> length s = 1"
  shows "s = dec_digits v"
proof -
  obtain c t where s: "s = c # t" using assms(2) by (cases s) auto
  obtain d where d: "digit_value c = Some d" "d < 10" "parse_uint_loop 10 mx d t = (v, None)"
    using assms(1) s by (auto split: option.splits if_splits)
  note c = digit_value_char [OF d(1,2)]
  have one: "dec_digits d = [c]" using d(2) c by (subst dec_digits.simps) simp
  show ?thesis
  proof (cases "t = []")
    case True
    then show ?thesis using d(3) one s by simp
  next
    case False
    have "d \<noteq> 0"
    proof
      assume "d = 0"
      then have "c = CHR ''0''" using c by (simp add: char_of_def bit_0)
      then show False using assms(3) s False by simp
    qed
    then show ?thesis using parse_loop_positive [OF d(3)] one s by simp
  qed
qed

lemma semver_part_text: "semver_part p = Some n \<Longrightarrow> p = dec_digits n \<and> n < 2 ^ 63"
proof -
  assume a: "semver_part p = Some n"
  then have p: "p \<noteq> []" "hd p \<noteq> CHR ''0'' \<or> length p = 1" "parse_uint p 10 63 = (n, None)"
    by (cases p; auto simp: semver_part_def split: if_splits prod.splits option.splits)+
  then have "parse_uint_loop 10 (2 ^ 63 - 1) 0 p = (n, None)" by (simp add: parse_uint_def)
  then show ?thesis using parse_loop_canonical p(1,2) parse_uint_bound [OF p(3)] by blast
qed

lemma join_split_char: "join [c] (split_char c s) = s"
proof (induction s)
  case (Cons x s)
  obtain w ws where w: "split_char c s = w # ws" by (cases "split_char c s") (auto simp: split_char_def)
  then show ?case using Cons by (cases ws) (auto simp: split_char_def)
qed (simp add: split_char_def)

lemma parseSemver_text:
  assumes v: "v = (a, b, c)" "a < 2 ^ 63" "b < 2 ^ 63" "c < 2 ^ 63"
  shows "parseSemver (semver_text v) = Some v \<and> parseSemver (''v'' @ semver_text v) = Some v"
proof -
  have sp: "split_char CHR ''.'' (semver_text v) = [dec_digits a, dec_digits b, dec_digits c]"
    using v(1) dec_digits_no_dot by (simp add: semver_text_def split_join del: join.simps)
  have ne: "dec_digits a \<noteq> []" by (subst dec_digits.simps) simp
  have "is_digit (hd (dec_digits a))" using dec_digits_digits hd_in_set [OF ne] by blast
  moreover have "\<not> is_digit CHR ''v''" by (simp add: is_digit_def)
  ultimately have "hd (dec_digits a) \<noteq> CHR ''v''" by metis
  then have "trim_prefix (semver_text v) ''v'' = semver_text v"
    using v(1) by (cases "dec_digits a") (auto simp: semver_text_def trim_prefix_def has_prefix_def)
  moreover have "trim_prefix (''v'' @ semver_text v) ''v'' = semver_text v"
    by (simp add: trim_prefix_def has_prefix_def)
  ultimately show ?thesis using sp v by (simp add: parseSemver_def semver_part_digits)
qed

lemma parseSemver_only_text:
  assumes "parseSemver s = Some w"
  shows "trim_prefix s ''v'' = semver_text w"
proof -
  obtain a b c p q r where w: "w = (a, b, c)" "split_char CHR ''.'' (trim_prefix s ''v'') = [p, q, r]"
    "semver_part p = Some a" "semver_part q = Some b" "semver_part r = Some c"
    using assms by (auto simp: parseSemver_def map_eq_Cons_conv split: list.splits option.splits)
  then have "trim_prefix s ''v'' = join ''.'' [p, q, r]" by (metis join_split_char)
  then show ?thesis using w semver_part_text by (simp add: semver_text_def)
qed

text \<open>Version texts and versions correspond: the text of a version parses to it with or without a leading v,
  every accepted text is, without its v, the text of its version (no other spelling is accepted), and
  \<open>compareVersion\<close> is the lexicographic order of major, minor and patch.\<close>

theorem parseSemver_roundtrip:
  "((\<exists>a b c. v = (a, b, c) \<and> a < 2 ^ 63 \<and> b < 2 ^ 63 \<and> c < 2 ^ 63) \<longrightarrow>
      parseSemver (semver_text v) = Some v \<and> parseSemver (''v'' @ semver_text v) = Some v) \<and>
   (parseSemver s = Some w \<longrightarrow> trim_prefix s ''v'' = semver_text w) \<and>
   (compareVersion v w < 0 \<longleftrightarrow> semver_less v w) \<and> (compareVersion v w = 0 \<longleftrightarrow> v = w)"
  using parseSemver_text parseSemver_only_text compareVersion_sign by blast

theorem parseSemver_roundtrip_witness:
  "parseSemver (''v'' @ semver_text (1, 20, 3)) = Some (1, 20, 3)"
  using parseSemver_roundtrip [of "(1, 20, 3)" "[]" "(0, 0, 0)"] by simp

subsection \<open>What verification accepts\<close>

lemma checkVersions_None:
  "checkVersions m opts = None \<longleftrightarrow>
     (\<exists>v w. parseSemver (mfVersion m) = Some v \<and> parseSemver (voCurrentVersion opts) = Some w \<and> semver_less w v)"
proof -
  have "compareVersion v w \<le> 0 \<longleftrightarrow> \<not> semver_less w v" for v w
    using compareVersion_sign [of v w] by linarith
  then show ?thesis by (auto simp: checkVersions_def split: option.splits)
qed

lemma checkPanel_None:
  "checkPanel m opts = None \<longleftrightarrow>
     voControlVersion opts \<noteq> [] \<and> mfControlVersion m = voControlVersion opts \<and>
     (\<exists>v w. parseSemver (mfMinimumPanelVersion m) = Some v \<and> parseSemver (voPanelVersion opts) = Some w \<and>
        \<not> semver_less w v)"
  using compareVersion_sign by (auto simp: checkPanel_def split: option.splits)

definition url_ok :: "parsed_url \<Rightarrow> bool" where
  "url_ok u \<longleftrightarrow> uScheme u = ''https'' \<and> uHostname u \<noteq> [] \<and> \<not> uHasUser u \<and> uRawQuery u = [] \<and> uFragment u = []"

lemma checkArtifactFields_None:
  "checkArtifactFields parse_url m opts = None \<longleftrightarrow>
     mfOS m \<noteq> [] \<and> mfArch m \<noteq> [] \<and> mfOS m = voOS opts \<and> mfArch m = voArch opts \<and>
     0 < sint (mfByteSize m) \<and> sint (mfByteSize m) \<le> MaxArtifactBytes \<and>
     (\<exists>d. hex_decode (mfSHA256 m) = Some d \<and> length d = 32) \<and> to_lower (mfSHA256 m) = mfSHA256 m \<and>
     (\<exists>u. parse_url (mfArtifactURL m) = Some u \<and> url_ok u)"
  by (auto simp: checkArtifactFields_def url_ok_def not_le split: option.splits)

lemma sint_add_300: "sint (now :: int64) < 2 ^ 63 - 300 \<Longrightarrow> sint (now + 300) = sint now + 300"
  using sint_greater_eq [of now] by (simp add: sint_word_ariths signed_take_bit_int_eq_self)

lemma mod_shift: "(m :: int) \<le> k \<Longrightarrow> k < 2 * m \<Longrightarrow> k mod m = k - m"
  by (metis add_diff_cancel_left' diff_ge_0_iff_ge diff_less_eq mod_add_self2 diff_add_cancel mod_pos_pos_trivial mult_2)

lemma sint_diff_wraps:
  assumes "sint (a :: int64) < sint b"
  shows "sint (b - a) = (if sint b - sint a < 2 ^ 63 then sint b - sint a else sint b - sint a - 2 ^ 64)"
proof -
  have d: "sint (b - a) = signed_take_bit 63 (sint b - sint a)"
    by (simp add: sint_word_ariths)
  have r: "- (2 ^ 63) \<le> sint a" "sint b < 2 ^ 63" using sint_greater_eq [of a] sint_less [of b] by simp_all
  show ?thesis
  proof (cases "sint b - sint a < 2 ^ 63")
    case True
    then show ?thesis using d assms by (simp add: signed_take_bit_int_eq_self)
  next
    case False
    have "signed_take_bit 63 (sint b - sint a) = (sint b - sint a + 2 ^ 63) mod 2 ^ 64 - 2 ^ 63"
      by (simp add: signed_take_bit_eq_take_bit_shift take_bit_eq_mod)
    also have "(sint b - sint a + 2 ^ 63) mod 2 ^ 64 = sint b - sint a + 2 ^ 63 - 2 ^ 64"
      using False r by (intro mod_shift) simp_all
    finally show ?thesis using False d by simp
  qed
qed

lemma checkLifetime_None:
  assumes "sint now < 2 ^ 63 - 300"
  shows "checkLifetime m now = None \<longleftrightarrow>
     sint now < sint (mfExpiresAt m) \<and> sint (mfIssuedAt m) < sint (mfExpiresAt m) \<and>
     sint (mfIssuedAt m) \<le> sint now + 300 \<and>
     (sint (mfExpiresAt m) - sint (mfIssuedAt m) \<le> 86400 \<or> 2 ^ 63 \<le> sint (mfExpiresAt m) - sint (mfIssuedAt m))"
proof (cases "sint (mfIssuedAt m) < sint (mfExpiresAt m)")
  case True
  have "sint (86400 :: int64) = 86400" by simp
  then show ?thesis
    using True sint_less [of "mfExpiresAt m"] sint_greater_eq [of "mfIssuedAt m"]
    by (auto simp: checkLifetime_def word_sle_eq word_sless_alt sint_add_300 [OF assms] sint_diff_wraps [OF True]
          split: if_splits)
next
  case False
  then show ?thesis by (simp add: checkLifetime_def word_sle_eq)
qed

lemma checkArtifact_None:
  "checkArtifact c m artifact = None \<longleftrightarrow>
     (\<forall>a. artifact = Some a \<longrightarrow> int (length a) = sint (mfByteSize m) \<and> hex_decode (mfSHA256 m) = Some (sha256 c a))"
  by (auto simp: checkArtifact_def split: option.splits)

text \<open>C10. \<open>VerifyManifest\<close> accepts a release exactly when its canonical bytes carry a valid signature, its
  version is newer than the running one, platform, size, digest, URL and control version are those
  expected, the panel is new enough, the manifest is valid now and for at most a day, and a given artifact has the declared size and
  digest. The one-day limit is computed in 64 bits: a lifetime of 2 to the 63 seconds or more passes.\<close>

theorem VerifyManifest_accepts_iff:
  assumes "sint (voNow opts) < 2 ^ 63 - 300"
  shows "VerifyManifest c parse_url publicKey sm opts = None \<longleftrightarrow>
    (length publicKey = PublicKeySize \<and> length (smSignature sm) = SignatureSize \<and>
     ed_verify c publicKey (ManifestBytes (smManifest sm)) (smSignature sm)) \<and>
    (let m = smManifest sm; exp = sint (mfExpiresAt m); iss = sint (mfIssuedAt m); now = sint (voNow opts) in
     (\<exists>v w. parseSemver (mfVersion m) = Some v \<and> parseSemver (voCurrentVersion opts) = Some w \<and> semver_less w v) \<and>
     mfOS m \<noteq> [] \<and> mfArch m \<noteq> [] \<and> mfOS m = voOS opts \<and> mfArch m = voArch opts \<and>
     0 < sint (mfByteSize m) \<and> sint (mfByteSize m) \<le> MaxArtifactBytes \<and>
     (\<exists>d. hex_decode (mfSHA256 m) = Some d \<and> length d = 32) \<and> to_lower (mfSHA256 m) = mfSHA256 m \<and>
     (\<exists>u. parse_url (mfArtifactURL m) = Some u \<and> url_ok u) \<and>
     voControlVersion opts \<noteq> [] \<and> mfControlVersion m = voControlVersion opts \<and>
     (\<exists>v w. parseSemver (mfMinimumPanelVersion m) = Some v \<and> parseSemver (voPanelVersion opts) = Some w \<and>
        \<not> semver_less w v) \<and>
     now < exp \<and> iss < exp \<and> iss \<le> now + 300 \<and> (exp - iss \<le> 86400 \<or> 2 ^ 63 \<le> exp - iss) \<and>
     (\<forall>a. voArtifact opts = Some a \<longrightarrow> int (length a) = sint (mfByteSize m) \<and> hex_decode (mfSHA256 m) = Some (sha256 c a)))"
proof -
  have fe: "first_error [a, b, d, e, f] = None \<longleftrightarrow> a = None \<and> b = None \<and> d = None \<and> e = None \<and> f = None"
    for a b d e f :: "verify_error option"
    by (simp split: option.splits)
  show ?thesis
    by (simp only: VerifyManifest_def Let_def if_split_eq1 fe checkVersions_None checkPanel_None
          checkArtifactFields_None checkLifetime_None [OF assms] checkArtifact_None) auto
qed

definition sample_url :: parsed_url where
  "sample_url = \<lparr>uScheme = ''https'', uHostname = ''x'', uHasUser = False, uRawQuery = [], uFragment = []\<rparr>"

definition sample_options :: verify_options where
  "sample_options = \<lparr>voCurrentVersion = ''1.2.2'', voPanelVersion = ''v1.0.0'', voOS = ''linux'', voArch = ''amd64'',
     voControlVersion = ''1'', voArtifact = None, voNow = 150\<rparr>"

lemma dec_digits_small: "n < 10 \<Longrightarrow> dec_digits n = [char_of (n + 48)]"
  by (subst dec_digits.simps) simp

lemma sample_texts:
  "semver_text (1, 2, 3) = ''1.2.3''" "semver_text (1, 2, 2) = ''1.2.2''" "semver_text (1, 0, 0) = ''1.0.0''"
  by (simp_all add: semver_text_def dec_digits_small char_of_def bit_0 bit_Suc)

lemma sample_versions:
  "parseSemver ''1.2.3'' = Some (1, 2, 3)" "parseSemver ''1.2.2'' = Some (1, 2, 2)"
  "parseSemver ''1.0.0'' = Some (1, 0, 0)" "parseSemver ''v1.0.0'' = Some (1, 0, 0)"
  using parseSemver_text [of _ 1 2 3] parseSemver_text [of _ 1 2 2] parseSemver_text [of _ 1 0 0]
  by (simp_all add: sample_texts del: One_nat_def)

lemma lower_hex_digit: "d < 16 \<Longrightarrow> lower_char (hex_digit d) = hex_digit d"
  by (simp add: lower_char_def hex_digit_def)

lemma to_lower_hex [simp]: "to_lower (hex_encode s) = hex_encode s"
  by (induction s) (simp_all add: to_lower_def hex_encode_def lower_hex_digit less_mult_imp_div_less)

definition min_int64 :: int64 where "min_int64 = 0x8000000000000000"

text \<open>The instance has a lifetime of more than 2 to the 63 seconds, which the 64-bit difference hides.\<close>

theorem VerifyManifest_accepts_iff_witness:
  "VerifyManifest pad_crypto (\<lambda>_. Some sample_url) sample_public
     \<lparr>smManifest = sample_manifest\<lparr>mfIssuedAt := min_int64\<rparr>,
      smSignature = ed_sign pad_crypto sample_private (ManifestBytes (sample_manifest\<lparr>mfIssuedAt := min_int64\<rparr>))\<rparr>
     sample_options = None"
proof -
  have now: "sint (voNow sample_options) < 2 ^ 63 - 300" by (simp add: sample_options_def)
  have iss: "sint min_int64 = - (2 ^ 63)" by code_simp
  have less: "semver_less (1, 2, 2) (1, 2, 3)" "\<not> semver_less (1, 0, 0) (1, 0, 0)" by (simp_all add: semver_less_def del: One_nat_def)
  have key: "length sample_public = PublicKeySize" "length (ed_sign pad_crypto k m) = SignatureSize"
    "ed_verify pad_crypto sample_public m (ed_sign pad_crypto sample_private m)" for k m
    using pad_crypto_sizes pad_crypto_key_pair by (auto simp: crypto_sizes_def key_pair_def)
  show ?thesis
    by (subst VerifyManifest_accepts_iff [OF now])
      (simp add: sample_versions key less iss sample_manifest_def sample_options_def sample_url_def url_ok_def MaxArtifactBytes_def
        del: One_nat_def)
qed

end
