(* ===== verification/Files.thy ===== *)
theory Files
  imports NP_Prelude
begin

text \<open>
  Directories of the file system as the code sees them: the list of entries in name order (what
  \<open>os.ReadDir\<close> returns and the code sorts again), with the operations that replace, remove and
  look up one entry.
\<close>

type_synonym 'a dir = "(bytes \<times> 'a) list"

definition dir_put :: "bytes \<Rightarrow> 'a \<Rightarrow> 'a dir \<Rightarrow> 'a dir" where
  "dir_put n c d = insort_key fst (n, c) (filter (\<lambda>e. fst e \<noteq> n) d)"

definition dir_remove :: "bytes \<Rightarrow> 'a dir \<Rightarrow> 'a dir" where
  "dir_remove n d = filter (\<lambda>e. fst e \<noteq> n) d"

definition dir_ok :: "'a dir \<Rightarrow> bool" where
  "dir_ok d \<longleftrightarrow> sorted (map fst d) \<and> distinct (map fst d)"

lemma dir_ok_Nil [simp]: "dir_ok []"
  by (simp add: dir_ok_def)

lemma dir_ok_Cons: "dir_ok (e # d) \<longleftrightarrow> dir_ok d \<and> (\<forall>x\<in>set d. fst e < fst x)"
  by (auto simp: dir_ok_def less_le image_iff)

lemma dir_ok_filter [simp]: "dir_ok d \<Longrightarrow> dir_ok (filter P d)"
  by (induction d) (auto simp: dir_ok_Cons)

lemma dir_ok_remove [simp]: "dir_ok d \<Longrightarrow> dir_ok (dir_remove n d)"
  by (simp add: dir_remove_def)

lemma set_dir_remove: "set (dir_remove n d) = {e \<in> set d. fst e \<noteq> n}"
  by (simp add: dir_remove_def)

lemma set_dir_put: "set (dir_put n c d) = insert (n, c) {e \<in> set d. fst e \<noteq> n}"
  by (auto simp: dir_put_def set_insort_key)

lemma map_fst_insort_key: "map fst (insort_key fst x d) = insort (fst x) (map fst d)"
  by (induction d) auto

lemma dir_ok_put [simp]: "dir_ok d \<Longrightarrow> dir_ok (dir_put n c d)"
  using dir_ok_filter [of d "\<lambda>e. fst e \<noteq> n"]
  by (auto simp: dir_put_def dir_ok_def map_fst_insort_key distinct_insort sorted_insort)

lemma map_of_dir_remove [simp]: "map_of (dir_remove n d) = (map_of d)(n := None)"
  by (induction d) (auto simp: dir_remove_def fun_eq_iff)

lemma map_of_insort_key:
  "fst x \<notin> fst ` set d \<Longrightarrow> map_of (insort_key fst x d) = (map_of d)(fst x \<mapsto> snd x)"
  by (induction d) (auto simp: fun_eq_iff)

lemma map_of_dir_put [simp]: "map_of (dir_put n c d) = (map_of d)(n \<mapsto> c)"
proof -
  have "map_of (filter (\<lambda>e. fst e \<noteq> n) d) = (map_of d)(n := None)"
    using map_of_dir_remove [of n d] by (simp add: dir_remove_def)
  moreover have "fst (n, c) \<notin> fst ` set (filter (\<lambda>e. fst e \<noteq> n) d)" by auto
  ultimately show ?thesis using map_of_insort_key [of "(n, c)"] by (simp add: dir_put_def)
qed

lemma map_of_dir_filter: "dir_ok d \<Longrightarrow> map_of (filter P d) n = Some c \<longleftrightarrow> map_of d n = Some c \<and> P (n, c)"
proof -
  assume "dir_ok d"
  then have "distinct (map fst d)" "distinct (map fst (filter P d))"
    using dir_ok_filter [of d P] by (auto simp: dir_ok_def)
  then show ?thesis by auto
qed

lemma dir_ok_lookup: "dir_ok d \<Longrightarrow> (n, c) \<in> set d \<longleftrightarrow> map_of d n = Some c"
  by (auto simp: dir_ok_def dest: map_of_SomeD)

end
