(* ===== verification/UpdateState.thy ===== *)
theory UpdateState
  imports UpdateManifest Files
begin

text \<open>
  \<open>internal/update/state.go\<close>: validation of a staged update request and of its artifact. Files
  are nodes of a directory with their kind, permission bits, owner and bytes; a directory is opened
  once and its entries are opened without following links. What \<open>encoding/json\<close> reads in a text
  and writes for a value is the parameter record \<open>codec\<close>; every call of the file system that
  can fail independently of the directory is answered by a flag.
\<close>

subsection \<open>Requests, results and proofs\<close>

record update_request =
  urArtifactBasename :: bytes
  urManifest :: manifest
  urSignature :: bytes
  urPreviousVersion :: bytes
  urAgentID :: bytes
  urCommandID :: bytes
  urCommand :: command

record update_payload =
  upManifest :: manifest
  upSignature :: bytes
  upPanelVersion :: bytes

record upgrade_proof =
  prVersion :: bytes
  prAgentID :: bytes
  prCommandID :: bytes
  prBootID :: bytes

record helper_result =
  hrCommandID :: bytes
  hrState :: bytes
  hrCode :: bytes
  hrVersion :: bytes
  hrPreviousVersion :: bytes

record codec =
  decRequest :: "bytes \<Rightarrow> update_request json_doc"
  encRequest :: "update_request \<Rightarrow> bytes"
  decPayload :: "bytes \<Rightarrow> update_payload json_doc"
  decResult :: "bytes \<Rightarrow> helper_result json_doc"
  encResult :: "helper_result \<Rightarrow> bytes"
  decProof :: "bytes \<Rightarrow> upgrade_proof json_doc"
  encProof :: "upgrade_proof \<Rightarrow> bytes"

definition PendingRequestFile :: bytes where "PendingRequestFile = ''pending.json''"
definition ClaimedRequestFile :: bytes where "ClaimedRequestFile = ''claimed.json''"
definition RejectedRequestFile :: bytes where "RejectedRequestFile = ''rejected.json''"
definition HelperResultFile :: bytes where "HelperResultFile = ''result.json''"
definition UpgradeProofFile :: bytes where "UpgradeProofFile = ''upgrade-ready.json''"

lemmas update_files = PendingRequestFile_def ClaimedRequestFile_def RejectedRequestFile_def HelperResultFile_def

subsection \<open>Names\<close>

definition safeBasename :: "bytes \<Rightarrow> bool" where
  "safeBasename value \<longleftrightarrow> value \<noteq> [] \<and> value \<noteq> ''.'' \<and> value \<noteq> ''..'' \<and> length value \<le> 255 \<and>
     path_base value = value \<and> \<not> contains_any value [CHR ''/'', CHR 0x5C] \<and>
     \<not> contains_any value [CHR 0x0D, CHR 0x0A, CHR 0x00]"

text \<open>The loop ranges over the runes of the text; a byte from 0x80 on starts a rune that is refused.\<close>

definition canonicalUUID :: "bytes \<Rightarrow> bool" where
  "canonicalUUID value \<longleftrightarrow> length value = 36 \<and>
     (\<forall>i\<in>{0..<36}. if i \<in> {8, 13, 18, 23} then value ! i = CHR ''-'' else is_lower_hex (value ! i))"

subsection \<open>Owned files\<close>

datatype node_kind = Regular | Folder | Symlink | Special

record node =
  ndKind :: node_kind
  ndMode :: nat
  ndUid :: int
  ndGid :: int
  ndData :: bytes

record read_io =
  ioOpen :: bool
  ioStat :: bool
  ioRead :: bool

definition all_io :: read_io where "all_io = \<lparr>ioOpen = True, ioStat = True, ioRead = True\<rparr>"

datatype file_error = BadName | OpenFailed | StatFailed | NotRegular | BadMode | BadOwner | ReadFailed | TooLarge

definition perm :: "node \<Rightarrow> nat" where "perm n = ndMode n mod 512"

text \<open>\<open>openat\<close> without following links.\<close>

definition open_node :: "read_io \<Rightarrow> node dir \<Rightarrow> bytes \<Rightarrow> node option" where
  "open_node f d basename =
     (case map_of d basename of
        None \<Rightarrow> None
      | Some n \<Rightarrow> if ndKind n = Symlink \<or> \<not> ioOpen f then None else Some n)"

definition readOwnedArtifactAt :: "read_io \<Rightarrow> node dir \<Rightarrow> bytes \<Rightarrow> int \<Rightarrow> int \<Rightarrow> file_error + bytes" where
  "readOwnedArtifactAt f directory basename expectedUID expectedGID =
     (if \<not> safeBasename basename then Inl BadName
      else case open_node f directory basename of
        None \<Rightarrow> Inl OpenFailed
      | Some n \<Rightarrow>
          if \<not> ioStat f then Inl StatFailed
          else if ndKind n \<noteq> Regular then Inl NotRegular
          else if perm n \<noteq> 384 then Inl BadMode
          else if ndUid n \<noteq> expectedUID \<or> ndGid n \<noteq> expectedGID then Inl BadOwner
          else if \<not> ioRead f then Inl ReadFailed
          else
            let body = take (nat MaxArtifactBytes + 1) (ndData n) in
            if MaxArtifactBytes < int (length body) then Inl TooLarge else Inr body)"

text \<open>The directory of the path is opened first, which may fail (\<open>None\<close>).\<close>

definition readOwnedArtifact :: "read_io \<Rightarrow> node dir option \<Rightarrow> bytes \<Rightarrow> int \<Rightarrow> int \<Rightarrow> file_error + bytes" where
  "readOwnedArtifact f directory basename expectedUID expectedGID =
     (case directory of
        None \<Rightarrow> Inl OpenFailed
      | Some d \<Rightarrow> readOwnedArtifactAt f d basename expectedUID expectedGID)"

subsection \<open>Validation\<close>

datatype request_error =
    RequestSize
  | RequestDecode
  | RequestTrailing
  | RequestBasename
  | RequestIdentity
  | RequestCommand
  | RequestPayload
  | RequestSignature
  | RequestArtifact file_error
  | RequestManifest verify_error

definition DecodeUpdateRequest :: "codec \<Rightarrow> bytes \<Rightarrow> request_error + update_request" where
  "DecodeUpdateRequest C body =
     (if length body = 0 \<or> 131072 < length body then Inl RequestSize
      else case decRequest C body of
        JsonBad \<Rightarrow> Inl RequestDecode
      | JsonTrailing r \<Rightarrow> Inl RequestTrailing
      | JsonGarbage r \<Rightarrow> Inl RequestTrailing
      | JsonDoc r \<Rightarrow> Inr r)"

record request_options =
  roUpdatesDir :: "node dir option"
  roUpdatesDirFile :: "node dir option"
  roPublicKey :: bytes
  roCommandPublicKey :: bytes
  roCurrentVersion :: bytes
  roOS :: bytes
  roArch :: bytes
  roControlVersion :: bytes
  roAgentID :: bytes
  roExpectedUID :: int
  roExpectedGID :: int
  roNow :: int64

record verifier =
  vCrypto :: crypto
  vParseURL :: "bytes \<Rightarrow> parsed_url option"
  vCodec :: codec

definition identity_ok :: "update_request \<Rightarrow> request_options \<Rightarrow> bool" where
  "identity_ok r o' \<longleftrightarrow> \<not> (urPreviousVersion r \<noteq> roCurrentVersion o' \<or> urAgentID r = [] \<or> urAgentID r \<noteq> roAgentID o' \<or>
     \<not> canonicalUUID (urAgentID r) \<or> \<not> canonicalUUID (urCommandID r))"

definition envelope_ok :: "crypto \<Rightarrow> update_request \<Rightarrow> request_options \<Rightarrow> bool" where
  "envelope_ok c r o' \<longleftrightarrow>
     (let cmd = urCommand r in
      \<not> (cCommandID cmd \<noteq> urCommandID r \<or> cAgentID cmd \<noteq> urAgentID r \<or> cAction cmd \<noteq> Upgrade \<or>
         cControlVersion cmd \<noteq> roControlVersion o' \<or> cType cmd \<noteq> ''command'' \<or> cExpiresAt cmd \<le>s cIssuedAt cmd \<or>
         VerifyCommand c (roCommandPublicKey o') cmd \<noteq> None))"

definition payload_text :: "codec \<Rightarrow> bytes \<Rightarrow> update_payload json_text" where
  "payload_text C raw = \<lparr>text_len = length raw, text_doc = decPayload C raw\<rparr>"

definition decode_signature :: "bytes \<Rightarrow> bytes option" where
  "decode_signature text =
     (case b64_decode text of
        None \<Rightarrow> None
      | Some s \<Rightarrow> if length s \<noteq> SignatureSize \<or> b64_encode s \<noteq> text then None else Some s)"

definition request_artifact :: "read_io \<Rightarrow> update_request \<Rightarrow> request_options \<Rightarrow> file_error + bytes" where
  "request_artifact f r o' =
     (case roUpdatesDirFile o' of
        Some d \<Rightarrow> readOwnedArtifactAt f d (urArtifactBasename r) (roExpectedUID o') (roExpectedGID o')
      | None \<Rightarrow> readOwnedArtifact f (roUpdatesDir o') (urArtifactBasename r) (roExpectedUID o') (roExpectedGID o'))"

definition manifest_options :: "request_options \<Rightarrow> bytes \<Rightarrow> bytes \<Rightarrow> verify_options" where
  "manifest_options o' panelVersion artifact =
     \<lparr>voCurrentVersion = roCurrentVersion o', voPanelVersion = panelVersion, voOS = roOS o', voArch = roArch o',
      voControlVersion = roControlVersion o', voArtifact = Some artifact, voNow = roNow o'\<rparr>"

definition ValidateUpdateRequest ::
    "verifier \<Rightarrow> read_io \<Rightarrow> bytes \<Rightarrow> request_options \<Rightarrow> request_error + (update_request \<times> bytes)" where
  "ValidateUpdateRequest V f body o' =
     (case DecodeUpdateRequest (vCodec V) body of
        Inl e \<Rightarrow> Inl e
      | Inr r \<Rightarrow>
          if \<not> safeBasename (urArtifactBasename r) then Inl RequestBasename
          else if \<not> identity_ok r o' then Inl RequestIdentity
          else if \<not> envelope_ok (vCrypto V) r o' then Inl RequestCommand
          else case StrictDecodePayload (payload_text (vCodec V) (cPayload (urCommand r))) of
            Inl e \<Rightarrow> Inl RequestPayload
          | Inr p \<Rightarrow>
              if upManifest p \<noteq> urManifest r \<or> upSignature p \<noteq> urSignature r \<or> upPanelVersion p = [] then Inl RequestPayload
              else case decode_signature (urSignature r) of
                None \<Rightarrow> Inl RequestSignature
              | Some signature \<Rightarrow> (case request_artifact f r o' of
                  Inl e \<Rightarrow> Inl (RequestArtifact e)
                | Inr artifact \<Rightarrow> (case VerifyManifest (vCrypto V) (vParseURL V) (roPublicKey o')
                      \<lparr>smManifest = urManifest r, smSignature = signature\<rparr> (manifest_options o' (upPanelVersion p) artifact) of
                    Some e \<Rightarrow> Inl (RequestManifest e)
                  | None \<Rightarrow> Inr (r, artifact))))"

subsection \<open>What an accepted request guarantees\<close>

lemma readOwnedArtifactAt_Inr:
  assumes "readOwnedArtifactAt f d name uid gid = Inr body"
  shows "safeBasename name \<and> (\<exists>n. map_of d name = Some n \<and> ndKind n = Regular \<and> perm n = 384 \<and>
     ndUid n = uid \<and> ndGid n = gid \<and> ndData n = body \<and> int (length body) \<le> MaxArtifactBytes)"
proof -
  have long: "\<not> nat MaxArtifactBytes < length (ndData n)" if "\<not> MaxArtifactBytes < int (length (take (nat MaxArtifactBytes + 1) (ndData n)))" for n
    using that by (auto simp: MaxArtifactBytes_def min_def split: if_splits)
  show ?thesis
    using assms long
    by (auto simp: readOwnedArtifactAt_def open_node_def Let_def not_less split: if_splits option.splits)
qed

lemma request_artifact_Inr:
  assumes "request_artifact f r o' = Inr body"
  shows "safeBasename (urArtifactBasename r) \<and> (\<exists>d n. (roUpdatesDirFile o' = Some d \<or> roUpdatesDir o' = Some d) \<and>
     map_of d (urArtifactBasename r) = Some n \<and> ndKind n = Regular \<and> perm n = 384 \<and>
     ndUid n = roExpectedUID o' \<and> ndGid n = roExpectedGID o' \<and> ndData n = body)"
  using assms readOwnedArtifactAt_Inr
  by (fastforce simp: request_artifact_def readOwnedArtifact_def split: option.splits)

lemma b64_encode_inject: "b64_encode s = b64_encode t \<Longrightarrow> s = t"
  by (metis b64_decode_encode option.inject)

lemma decode_signature_Some:
  "decode_signature t = Some s \<longleftrightarrow> b64_encode s = t \<and> length s = SignatureSize"
  by (auto simp: decode_signature_def dest: b64_encode_inject split: option.splits)

lemma StrictDecodePayload_Inr:
  "StrictDecodePayload t = Inr p \<longleftrightarrow> text_doc t = JsonDoc p \<and> 0 < text_len t \<and> text_len t \<le> MaxMessageBytes"
  by (cases "text_doc t") (auto simp: StrictDecodePayload_def not_less)

lemma ValidateUpdateRequest_Inr:
  assumes "ValidateUpdateRequest V f body o' = Inr (r, artifact)"
  obtains p signature where "DecodeUpdateRequest (vCodec V) body = Inr r" "identity_ok r o'" "envelope_ok (vCrypto V) r o'"
    "decPayload (vCodec V) (cPayload (urCommand r)) = JsonDoc p" "upManifest p = urManifest r" "upSignature p = urSignature r"
    "b64_encode signature = urSignature r" "request_artifact f r o' = Inr artifact"
    "VerifyManifest (vCrypto V) (vParseURL V) (roPublicKey o') \<lparr>smManifest = urManifest r, smSignature = signature\<rparr>
       (manifest_options o' (upPanelVersion p) artifact) = None"
proof -
  from assms obtain r' where r': "DecodeUpdateRequest (vCodec V) body = Inr r'"
    by (auto simp: ValidateUpdateRequest_def split: sum.splits)
  from assms r' obtain p where p: "identity_ok r' o'" "envelope_ok (vCrypto V) r' o'"
      "StrictDecodePayload (payload_text (vCodec V) (cPayload (urCommand r'))) = Inr p"
      "upManifest p = urManifest r'" "upSignature p = urSignature r'"
    by (auto simp: ValidateUpdateRequest_def split: if_splits sum.splits)
  from assms r' p obtain s where s: "decode_signature (urSignature r') = Some s"
    by (auto simp: ValidateUpdateRequest_def split: if_splits option.splits)
  from assms r' p s obtain a where a: "request_artifact f r' o' = Inr a"
    by (auto simp: ValidateUpdateRequest_def split: if_splits sum.splits)
  from assms r' p s a have fin: "VerifyManifest (vCrypto V) (vParseURL V) (roPublicKey o')
      \<lparr>smManifest = urManifest r', smSignature = s\<rparr> (manifest_options o' (upPanelVersion p) a) = None"
      "r' = r" "a = artifact"
    by (auto simp: ValidateUpdateRequest_def split: if_splits option.splits)
  show ?thesis
    by (rule that) (use r' p s a fin in \<open>auto simp: StrictDecodePayload_Inr payload_text_def decode_signature_Some\<close>)
qed

lemma VerifyManifest_None_parts:
  assumes "VerifyManifest c pu pk sm opts = None"
  shows "ed_verify c pk (ManifestBytes (smManifest sm)) (smSignature sm)"
    and "checkVersions (smManifest sm) opts = None" and "checkArtifact c (smManifest sm) (voArtifact opts) = None"
  using assms by (auto simp: VerifyManifest_def Let_def split: if_splits option.splits)

lemma safeBasename_plain: "safeBasename n \<Longrightarrow> CHR ''/'' \<notin> set n \<and> n \<noteq> ''.'' \<and> n \<noteq> ''..'' \<and> n \<noteq> []"
  by (auto simp: safeBasename_def contains_any_def list_ex_iff)

text \<open>C9. An accepted update request carries a verified upgrade command for this agent, whose signed payload names exactly
  the manifest and the signature of the request; the release key signed the manifest; its version
  is newer than the installed one, which the request names; and the returned artifact is the content of
  a regular file directly in the update directory, with mode 0600 and the expected owner, and has
  the size and the digest of the manifest.\<close>

theorem ValidateUpdateRequest_sound:
  assumes "ValidateUpdateRequest V f body o' = Inr (r, artifact)"
  shows "VerifyCommand (vCrypto V) (roCommandPublicKey o') (urCommand r) = None \<and>
    cAction (urCommand r) = Upgrade \<and> cAgentID (urCommand r) = roAgentID o' \<and> cCommandID (urCommand r) = urCommandID r \<and>
    (\<exists>p. decPayload (vCodec V) (cPayload (urCommand r)) = JsonDoc p \<and> upManifest p = urManifest r \<and>
       upSignature p = urSignature r) \<and>
    (\<exists>s. b64_encode s = urSignature r \<and> ed_verify (vCrypto V) (roPublicKey o') (ManifestBytes (urManifest r)) s) \<and>
    urPreviousVersion r = roCurrentVersion o' \<and>
    (\<exists>v w. parseSemver (mfVersion (urManifest r)) = Some v \<and> parseSemver (roCurrentVersion o') = Some w \<and> semver_less w v) \<and>
    CHR ''/'' \<notin> set (urArtifactBasename r) \<and>
    (\<exists>d n. (roUpdatesDirFile o' = Some d \<or> roUpdatesDir o' = Some d) \<and> map_of d (urArtifactBasename r) = Some n \<and>
       ndKind n = Regular \<and> perm n = 384 \<and> ndUid n = roExpectedUID o' \<and> ndGid n = roExpectedGID o' \<and> ndData n = artifact) \<and>
    int (length artifact) = sint (mfByteSize (urManifest r)) \<and>
    hex_decode (mfSHA256 (urManifest r)) = Some (sha256 (vCrypto V) artifact)"
proof -
  obtain p s where p: "identity_ok r o'" "envelope_ok (vCrypto V) r o'"
    "decPayload (vCodec V) (cPayload (urCommand r)) = JsonDoc p" "upManifest p = urManifest r" "upSignature p = urSignature r"
    "b64_encode s = urSignature r" "request_artifact f r o' = Inr artifact"
    "VerifyManifest (vCrypto V) (vParseURL V) (roPublicKey o') \<lparr>smManifest = urManifest r, smSignature = s\<rparr>
       (manifest_options o' (upPanelVersion p) artifact) = None"
    using ValidateUpdateRequest_Inr [OF assms] by metis
  note node = request_artifact_Inr [OF p(7)]
  note parts = VerifyManifest_None_parts [OF p(8)]
  show ?thesis
    using p(1-6) node parts safeBasename_plain
    by (auto simp: identity_ok_def envelope_ok_def Let_def checkVersions_None checkArtifact_None manifest_options_def)
qed

definition sample_release :: manifest where
  "sample_release = sample_manifest\<lparr>mfSHA256 := hex_encode (pad_to 32 ''abc'')\<rparr>"

definition sample_uuid :: bytes where "sample_uuid = ''00000000-0000-0000-0000-00000000000a''"

definition upgrade_command :: command where
  "upgrade_command = (let cmd = sample_command\<lparr>cCommandID := sample_uuid, cAgentID := sample_uuid, cAction := Upgrade\<rparr> in
     cmd\<lparr>cSignature := b64_encode (ed_sign pad_crypto sample_private (SigningBytes pad_crypto cmd))\<rparr>)"

definition release_signature :: bytes where
  "release_signature = b64_encode (ed_sign pad_crypto sample_private (ManifestBytes sample_release))"

definition sample_request :: update_request where
  "sample_request = \<lparr>urArtifactBasename = ''artifact'', urManifest = sample_release, urSignature = release_signature,
     urPreviousVersion = ''1.2.2'', urAgentID = sample_uuid, urCommandID = sample_uuid, urCommand = upgrade_command\<rparr>"

definition sample_codec :: codec where
  "sample_codec = \<lparr>decRequest = (\<lambda>b. JsonDoc sample_request), encRequest = (\<lambda>r. ''request''),
     decPayload = (\<lambda>b. JsonDoc \<lparr>upManifest = sample_release, upSignature = release_signature, upPanelVersion = ''1.0.0''\<rparr>),
     decResult = (\<lambda>b. JsonBad), encResult = (\<lambda>r. hrCode r), decProof = (\<lambda>b. JsonDoc \<lparr>prVersion = ''1.2.3'', prAgentID = sample_uuid, prCommandID = sample_uuid,
     prBootID = ''b''\<rparr>), encProof = (\<lambda>p. prCommandID p)\<rparr>"

definition sample_verifier :: verifier where
  "sample_verifier = \<lparr>vCrypto = pad_crypto, vParseURL = (\<lambda>_. Some sample_url), vCodec = sample_codec\<rparr>"

definition sample_artifact_node :: node where
  "sample_artifact_node = \<lparr>ndKind = Regular, ndMode = 384, ndUid = 7, ndGid = 8, ndData = ''abc''\<rparr>"

definition sample_updates :: "node dir" where
  "sample_updates = [(''artifact'', sample_artifact_node), (''claimed.json'', sample_artifact_node\<lparr>ndData := ''r''\<rparr>)]"

definition sample_request_options :: request_options where
  "sample_request_options = \<lparr>roUpdatesDir = None, roUpdatesDirFile = Some sample_updates,
     roPublicKey = sample_public, roCommandPublicKey = sample_public, roCurrentVersion = ''1.2.2'', roOS = ''linux'',
     roArch = ''amd64'', roControlVersion = ''1'', roAgentID = sample_uuid, roExpectedUID = 7, roExpectedGID = 8, roNow = 150\<rparr>"

lemma sample_uuid_canonical: "canonicalUUID sample_uuid"
  by code_simp

lemma sample_keys:
  "length sample_public = PublicKeySize" "length (ed_sign pad_crypto k m) = SignatureSize"
  "ed_verify pad_crypto sample_public m (ed_sign pad_crypto sample_private m)"
  using pad_crypto_sizes pad_crypto_key_pair by (auto simp: crypto_sizes_def key_pair_def)

lemma sample_envelope: "envelope_ok pad_crypto sample_request sample_request_options"
  by (simp add: envelope_ok_def Let_def sample_request_def sample_request_options_def upgrade_command_def
      VerifyCommand_def sample_keys del: SigningBytes_def)
    (simp add: sample_command_def word_sle_eq)

lemma sample_identity: "identity_ok sample_request sample_request_options"
  using sample_uuid_canonical
  by (simp add: identity_ok_def sample_request_def sample_request_options_def) (simp add: sample_uuid_def)

lemma sample_payload:
  "StrictDecodePayload (payload_text sample_codec (cPayload (urCommand sample_request))) =
     Inr \<lparr>upManifest = sample_release, upSignature = release_signature, upPanelVersion = ''1.0.0''\<rparr>"
  by (simp add: StrictDecodePayload_Inr payload_text_def sample_codec_def sample_request_def upgrade_command_def Let_def
      sample_command_def MaxMessageBytes_def)

lemma sample_basename: "safeBasename ''artifact''"
  by code_simp

lemma sample_read: "request_artifact all_io sample_request sample_request_options = Inr ''abc''"
  by (simp add: request_artifact_def sample_request_def sample_request_options_def readOwnedArtifactAt_def
      sample_basename open_node_def sample_updates_def sample_artifact_node_def all_io_def perm_def MaxArtifactBytes_def)

lemma sample_release_verified:
  "VerifyManifest pad_crypto (\<lambda>_. Some sample_url) sample_public
     \<lparr>smManifest = sample_release, smSignature = ed_sign pad_crypto sample_private (ManifestBytes sample_release)\<rparr>
     (manifest_options sample_request_options ''1.0.0'' ''abc'') = None"
proof -
  let ?o = "manifest_options sample_request_options ''1.0.0'' ''abc''"
  have "checkVersions sample_release ?o = None"
    by (simp add: checkVersions_None sample_release_def sample_manifest_def manifest_options_def
        sample_request_options_def sample_versions semver_less_def del: One_nat_def)
  moreover have "checkArtifactFields (\<lambda>_. Some sample_url) sample_release ?o = None"
    by (simp add: checkArtifactFields_None sample_release_def sample_manifest_def manifest_options_def
        sample_request_options_def url_ok_def sample_url_def MaxArtifactBytes_def)
  moreover have "checkPanel sample_release ?o = None"
    by (simp add: checkPanel_None sample_release_def sample_manifest_def manifest_options_def
        sample_request_options_def sample_versions semver_less_def del: One_nat_def)
  moreover have "checkLifetime sample_release (voNow ?o) = None"
    by (simp add: checkLifetime_def sample_release_def sample_manifest_def manifest_options_def
        sample_request_options_def word_sle_eq word_sless_alt)
  moreover have "checkArtifact pad_crypto sample_release (voArtifact ?o) = None"
    by (simp add: checkArtifact_None sample_release_def sample_manifest_def manifest_options_def pad_crypto_def)
  ultimately show ?thesis by (simp add: VerifyManifest_def sample_keys)
qed

lemma sample_request_accepted:
  "ValidateUpdateRequest sample_verifier all_io ''r'' sample_request_options = Inr (sample_request, ''abc'')"
proof -
  have dec: "DecodeUpdateRequest sample_codec ''r'' = Inr sample_request"
    by (simp add: DecodeUpdateRequest_def sample_codec_def)
  have sig: "decode_signature release_signature = Some (ed_sign pad_crypto sample_private (ManifestBytes sample_release))"
    by (simp add: decode_signature_Some release_signature_def sample_keys)
  have fields: "urManifest sample_request = sample_release" "urSignature sample_request = release_signature"
    "urArtifactBasename sample_request = ''artifact''" "roPublicKey sample_request_options = sample_public"
    by (simp_all add: sample_request_def sample_request_options_def)
  show ?thesis
    by (simp add: ValidateUpdateRequest_def sample_verifier_def dec sample_identity sample_envelope sample_payload
        sample_basename sample_read fields sig sample_release_verified)
qed

theorem ValidateUpdateRequest_sound_witness:
  "VerifyCommand (vCrypto sample_verifier) (roCommandPublicKey sample_request_options) (urCommand sample_request) = None"
  using ValidateUpdateRequest_sound [OF sample_request_accepted] by blast

end
