(* ===== verification/UpdateHelper.thy ===== *)
theory UpdateHelper
  imports UpdateState
begin

text \<open>
  \<open>internal/update/helper.go\<close>: the privileged update transaction over the interface \<open>HelperSystem\<close>. The
  interface is a record of operations on a system state; its contract is the locale
  \<open>helper_contract\<close>, in which the outcome of the transaction is derived once. The root
  implementation of the interface is in \<open>RootHelper\<close>.
\<close>

record 's helper_system =
  hsCurrentTarget :: "'s \<Rightarrow> bytes option \<times> 's"
  hsInstall :: "bytes \<Rightarrow> bytes \<Rightarrow> 's \<Rightarrow> bytes option \<times> 's"
  hsSwitch :: "bytes \<Rightarrow> 's \<Rightarrow> bool \<times> 's"
  hsRestart :: "'s \<Rightarrow> bool \<times> 's"
  hsWaitProof :: "upgrade_proof \<Rightarrow> duration \<Rightarrow> 's \<Rightarrow> bool \<times> 's"
  hsRetain :: "bytes \<Rightarrow> bytes \<Rightarrow> 's \<Rightarrow> bool \<times> 's"
  hsWriteResult :: "helper_result \<Rightarrow> 's \<Rightarrow> bool \<times> 's"

text \<open>A result, whether the returned error is nil, and the system left behind.\<close>

type_synonym 's apply_outcome = "helper_result \<times> bool \<times> 's"

definition writeResult :: "'s helper_system \<Rightarrow> helper_result \<Rightarrow> bool \<Rightarrow> 's \<Rightarrow> 's apply_outcome" where
  "writeResult sys result ok s =
     (let (written, s) = hsWriteResult sys result s in (result, ok \<and> written, s))"

definition rollback :: "'s helper_system \<Rightarrow> bytes \<Rightarrow> helper_result \<Rightarrow> 's \<Rightarrow> 's apply_outcome" where
  "rollback sys previousTarget result s =
     (let (switched, s) = hsSwitch sys previousTarget s;
          (restarted, s) = hsRestart sys s;
          result = result\<lparr>hrCode := if switched \<and> restarted then ''upgrade_rolled_back'' else ''upgrade_rollback_failed''\<rparr>
      in writeResult sys result False s)"

definition initialResult :: "update_request \<Rightarrow> helper_result" where
  "initialResult r =
     \<lparr>hrCommandID = urCommandID r, hrState = ''failed'', hrCode = ''upgrade_not_applied'',
      hrVersion = mfVersion (urManifest r), hrPreviousVersion = urPreviousVersion r\<rparr>"

definition clampProofTimeout :: "duration \<Rightarrow> duration" where
  "clampProofTimeout d = (if d \<le> 0 \<or> 120 * second < d then 120 * second else d)"

definition expectedProof :: "update_request \<Rightarrow> upgrade_proof" where
  "expectedProof r = \<lparr>prVersion = mfVersion (urManifest r), prAgentID = urAgentID r, prCommandID = urCommandID r, prBootID = []\<rparr>"

text \<open>After the link has been switched: restart, wait for the proof, retain the two versions.\<close>

definition finishUpdate ::
    "'s helper_system \<Rightarrow> update_request \<Rightarrow> bytes \<Rightarrow> bytes \<Rightarrow> duration \<Rightarrow> 's \<Rightarrow> 's apply_outcome" where
  "finishUpdate sys r previousTarget installedTarget proofTimeout s =
     (let result = initialResult r; (restarted, s) = hsRestart sys s in
      if \<not> restarted then rollback sys previousTarget result s
      else
        let (proved, s) = hsWaitProof sys (expectedProof r) (clampProofTimeout proofTimeout) s in
        if \<not> proved then rollback sys previousTarget result s
        else
          let (retained, s) = hsRetain sys installedTarget previousTarget s in
          if \<not> retained then rollback sys previousTarget result s
          else writeResult sys (result\<lparr>hrState := ''succeeded'', hrCode := ''upgrade_applied''\<rparr>) True s)"

definition ApplyVerifiedUpdate ::
    "'s helper_system option \<Rightarrow> update_request \<Rightarrow> bytes \<Rightarrow> duration \<Rightarrow> 's \<Rightarrow> 's apply_outcome" where
  "ApplyVerifiedUpdate system r artifact proofTimeout s =
     (let result = initialResult r in
      case system of
        None \<Rightarrow> (result, False, s)
      | Some sys \<Rightarrow>
          if artifact = [] then (result, False, s)
          else (case hsCurrentTarget sys s of
            (current, s) \<Rightarrow>
              if current = None \<or> current = Some [] then writeResult sys result False s
              else (case hsInstall sys (mfVersion (urManifest r)) artifact s of
                (installed, s) \<Rightarrow>
                  if installed = None \<or> installed = Some [] \<or> installed = current then writeResult sys result False s
                  else
                    let (switched, s) = hsSwitch sys (the installed) s in
                    if \<not> switched then writeResult sys result False s
                    else finishUpdate sys r (the current) (the installed) proofTimeout s)))"

subsection \<open>The contract of a helper system\<close>

text \<open>
  \<open>link\<close> is the target the service starts from, \<open>binary\<close> the program found at a target, \<open>written\<close> the last result
  made durable. A failed switch may or may not have moved the link: the implementation fails after
  the rename when the directory cannot be synced.
\<close>

locale helper_contract =
  fixes sys :: "'s helper_system"
    and link :: "'s \<Rightarrow> bytes option"
    and binary :: "'s \<Rightarrow> bytes \<Rightarrow> bytes option"
    and written :: "'s \<Rightarrow> bytes option"
    and encode :: "helper_result \<Rightarrow> bytes"
    and installable :: "bytes \<Rightarrow> bool"
  assumes current_law: "hsCurrentTarget sys s = (t, s') \<Longrightarrow>
      link s' = link s \<and> binary s' = binary s \<and> written s' = written s \<and> (\<forall>x. t = Some x \<longrightarrow> link s = Some x)"
    and install_law: "installable v \<Longrightarrow> hsInstall sys v a s = (t, s') \<Longrightarrow>
      link s' = link s \<and> written s' = written s \<and> (\<forall>x. t = Some x \<longrightarrow> binary s' x = Some a)"
    and switch_law: "hsSwitch sys x s = (ok, s') \<Longrightarrow>
      binary s' = binary s \<and> written s' = written s \<and> (link s' = Some x \<or> \<not> ok \<and> link s' = link s)"
    and restart_law: "hsRestart sys s = (ok, s') \<Longrightarrow> link s' = link s \<and> binary s' = binary s \<and> written s' = written s"
    and proof_law: "hsWaitProof sys p d s = (ok, s') \<Longrightarrow> link s' = link s \<and> binary s' = binary s \<and> written s' = written s"
    and retain_law: "hsRetain sys x y s = (ok, s') \<Longrightarrow>
      link s' = link s \<and> written s' = written s \<and> binary s' x = binary s x \<and> binary s' y = binary s y"
    and write_law: "hsWriteResult sys r s = (ok, s') \<Longrightarrow>
      link s' = link s \<and> binary s' = binary s \<and> (ok \<longrightarrow> written s' = Some (encode r))"
begin

lemma writeResult_law:
  assumes "writeResult sys result ok s = (r, ok', s')"
  shows "r = result \<and> link s' = link s \<and> binary s' = binary s \<and> (ok' \<longrightarrow> ok \<and> written s' = Some (encode result))"
  using assms write_law by (auto simp: writeResult_def split: prod.splits)

lemma rollback_law:
  assumes "rollback sys x result s = (r, ok', s')"
  shows "\<not> ok' \<and> hrState r = hrState result \<and> hrCode r \<in> {''upgrade_rolled_back'', ''upgrade_rollback_failed''} \<and>
    (hrCode r = ''upgrade_rolled_back'' \<longrightarrow> link s' = Some x) \<and> binary s' = binary s \<and> (link s' = Some x \<or> link s' = link s)"
proof -
  obtain sw s1 rs s2 where e: "hsSwitch sys x s = (sw, s1)" "hsRestart sys s1 = (rs, s2)" by (metis surj_pair)
  have w: "writeResult sys (result\<lparr>hrCode := if sw \<and> rs then ''upgrade_rolled_back'' else ''upgrade_rollback_failed''\<rparr>) False s2 =
      (r, ok', s')"
    using assms e by (simp add: rollback_def)
  then show ?thesis
    using writeResult_law [OF w] switch_law [OF e(1)] restart_law [OF e(2)] by (auto split: if_splits)
qed

lemma finish_law:
  assumes "finishUpdate sys r x y d s = (res, ok, s')" and "link s = Some y"
  shows "hrState res = ''succeeded'' \<longrightarrow>
      hrCode res = ''upgrade_applied'' \<and> link s' = Some y \<and> binary s' y = binary s y \<and> binary s' x = binary s x \<and>
      (ok \<longrightarrow> written s' = Some (encode res))"
    and "hrState res \<noteq> ''succeeded'' \<longrightarrow> \<not> ok \<and> hrState res = ''failed'' \<and>
      hrCode res \<in> {''upgrade_rolled_back'', ''upgrade_rollback_failed''} \<and>
      (hrCode res = ''upgrade_rolled_back'' \<longrightarrow> link s' = Some x) \<and> binary s' x = binary s x"
proof -
  obtain b1 s1 where 1: "hsRestart sys s = (b1, s1)" by (metis surj_pair)
  obtain b2 s2 where 2: "hsWaitProof sys (expectedProof r) (clampProofTimeout d) s1 = (b2, s2)" by (metis surj_pair)
  obtain b3 s3 where 3: "hsRetain sys y x s2 = (b3, s3)" by (metis surj_pair)
  note laws = restart_law [OF 1] proof_law [OF 2] retain_law [OF 3]
  have init: "hrState (initialResult r) = ''failed''" by (simp add: initialResult_def)
  have run: "finishUpdate sys r x y d s =
      (if \<not> b1 then rollback sys x (initialResult r) s1 else if \<not> b2 then rollback sys x (initialResult r) s2
       else if \<not> b3 then rollback sys x (initialResult r) s3
       else writeResult sys ((initialResult r)\<lparr>hrState := ''succeeded'', hrCode := ''upgrade_applied''\<rparr>) True s3)"
    by (simp add: finishUpdate_def Let_def 1 2 3)
  have "(\<exists>t. rollback sys x (initialResult r) t = (res, ok, s') \<and> binary t x = binary s x) \<or>
      writeResult sys ((initialResult r)\<lparr>hrState := ''succeeded'', hrCode := ''upgrade_applied''\<rparr>) True s3 = (res, ok, s')"
    using assms(1) laws unfolding run by (metis (full_types))
  then have "(hrState res = ''succeeded'' \<longrightarrow>
      hrCode res = ''upgrade_applied'' \<and> link s' = Some y \<and> binary s' y = binary s y \<and> binary s' x = binary s x \<and>
      (ok \<longrightarrow> written s' = Some (encode res))) \<and>
    (hrState res \<noteq> ''succeeded'' \<longrightarrow> \<not> ok \<and> hrState res = ''failed'' \<and>
      hrCode res \<in> {''upgrade_rolled_back'', ''upgrade_rollback_failed''} \<and>
      (hrCode res = ''upgrade_rolled_back'' \<longrightarrow> link s' = Some x) \<and> binary s' x = binary s x)"
  proof (elim disjE exE conjE)
    fix t assume rb: "rollback sys x (initialResult r) t = (res, ok, s')" and "binary t x = binary s x"
    then show ?thesis using rollback_law [OF rb] init by auto
  next
    assume w: "writeResult sys ((initialResult r)\<lparr>hrState := ''succeeded'', hrCode := ''upgrade_applied''\<rparr>) True s3 = (res, ok, s')"
    then show ?thesis using writeResult_law [OF w] laws assms(2) by auto
  qed
  then show "hrState res = ''succeeded'' \<longrightarrow>
      hrCode res = ''upgrade_applied'' \<and> link s' = Some y \<and> binary s' y = binary s y \<and> binary s' x = binary s x \<and>
      (ok \<longrightarrow> written s' = Some (encode res))"
    and "hrState res \<noteq> ''succeeded'' \<longrightarrow> \<not> ok \<and> hrState res = ''failed'' \<and>
      hrCode res \<in> {''upgrade_rolled_back'', ''upgrade_rollback_failed''} \<and>
      (hrCode res = ''upgrade_rolled_back'' \<longrightarrow> link s' = Some x) \<and> binary s' x = binary s x"
    by blast+
qed

text \<open>The whole transaction.\<close>

lemma apply_law:
  assumes v: "installable (mfVersion (urManifest r))"
    and run: "ApplyVerifiedUpdate (Some sys) r artifact d s = (res, ok, s')"
  shows "(hrState res = ''succeeded'' \<and> hrCode res = ''upgrade_applied'' \<and>
       (\<exists>t. link s' = Some t \<and> link s \<noteq> Some t \<and> binary s' t = Some artifact) \<and> (ok \<longrightarrow> written s' = Some (encode res))) \<or>
     (hrState res = ''failed'' \<and> \<not> ok \<and>
       (hrCode res = ''upgrade_rolled_back'' \<and> link s' = link s \<or>
        hrCode res = ''upgrade_rollback_failed'' \<or>
        hrCode res = ''upgrade_not_applied'' \<and>
          (link s' = link s \<or> (\<exists>t. link s' = Some t \<and> binary s' t = Some artifact))))"
proof -
  have init: "hrState (initialResult r) = ''failed''" "hrCode (initialResult r) = ''upgrade_not_applied''"
    by (simp_all add: initialResult_def)
  obtain c s1 where 1: "hsCurrentTarget sys s = (c, s1)" by (metis surj_pair)
  obtain i s2 where 2: "hsInstall sys (mfVersion (urManifest r)) artifact s1 = (i, s2)" by (metis surj_pair)
  obtain b s3 where 3: "hsSwitch sys (the i) s2 = (b, s3)" by (metis surj_pair)
  note laws = current_law [OF 1] install_law [OF v 2] switch_law [OF 3]
  have eq: "ApplyVerifiedUpdate (Some sys) r artifact d s =
     (if artifact = [] then (initialResult r, False, s)
      else if c = None \<or> c = Some [] then writeResult sys (initialResult r) False s1
      else if i = None \<or> i = Some [] \<or> i = c then writeResult sys (initialResult r) False s2
      else if \<not> b then writeResult sys (initialResult r) False s3
      else finishUpdate sys r (the c) (the i) d s3)"
    by (simp add: ApplyVerifiedUpdate_def Let_def 1 2 3)
  consider (early) t where "link t = link s" "writeResult sys (initialResult r) False t = (res, ok, s') \<or> (res, ok, s') = (initialResult r, False, s)"
    | (half) "i \<noteq> None" "writeResult sys (initialResult r) False s3 = (res, ok, s')"
    | (finish) "c \<noteq> None" "i \<noteq> None" "i \<noteq> c" "b" "finishUpdate sys r (the c) (the i) d s3 = (res, ok, s')"
    using run laws unfolding eq by (metis (full_types))
  then show ?thesis
  proof cases
    case early
    then show ?thesis using writeResult_law init by (metis prod.inject)
  next
    case half
    then show ?thesis using writeResult_law [OF half(2)] laws init by auto
  next
    case finish
    obtain x y where xy: "c = Some x" "i = Some y" using finish by blast
    have l: "link s3 = Some y" "link s = Some x" "binary s3 y = Some artifact" "x \<noteq> y"
      using laws finish xy by auto
    have fin: "finishUpdate sys r x y d s3 = (res, ok, s')" using finish(5) xy by simp
    show ?thesis using finish_law [OF fin l(1)] l by (cases "hrState res = ''succeeded''") auto
  qed
qed

end

end
