(* ===== verification/Paths.thy ===== *)
theory Paths
  imports GoStrings
begin

text \<open>
  The lexical functions of \<open>path/filepath\<close> that the update components use: \<open>Clean\<close>, \<open>Dir\<close>, \<open>Join\<close> and \<open>IsAbs\<close>
  (\<open>Base\<close> is in \<open>GoStrings\<close>).
\<close>

definition path_abs :: "bytes \<Rightarrow> bool" where
  "path_abs p \<longleftrightarrow> p \<noteq> [] \<and> hd p = CHR ''/''"

fun clean_parts :: "bool \<Rightarrow> bytes list \<Rightarrow> bytes list \<Rightarrow> bytes list" where
  "clean_parts rooted out [] = out"
| "clean_parts rooted out (p # ps) =
     (if p = [] \<or> p = ''.'' then clean_parts rooted out ps
      else if p = ''..'' then
        (if out \<noteq> [] \<and> last out \<noteq> ''..'' then clean_parts rooted (butlast out) ps
         else if rooted then clean_parts rooted out ps
         else clean_parts rooted (out @ [p]) ps)
      else clean_parts rooted (out @ [p]) ps)"

definition path_clean :: "bytes \<Rightarrow> bytes" where
  "path_clean p =
     (if p = [] then ''.''
      else
        let s = join ''/'' (clean_parts (path_abs p) [] (split_char CHR ''/'' p)) in
        if path_abs p then CHR ''/'' # s else if s = [] then ''.'' else s)"

definition path_dir :: "bytes \<Rightarrow> bytes" where
  "path_dir p = path_clean (rev (dropWhile (\<lambda>c. c \<noteq> CHR ''/'') (rev p)))"

definition path_join :: "bytes list \<Rightarrow> bytes" where
  "path_join ps =
     (let qs = filter (\<lambda>p. p \<noteq> []) ps in if qs = [] then [] else path_clean (join ''/'' qs))"

text \<open>Names of one directory entry.\<close>

definition plain_name :: "bytes \<Rightarrow> bool" where
  "plain_name n \<longleftrightarrow> n \<noteq> [] \<and> n \<noteq> ''.'' \<and> n \<noteq> ''..'' \<and> CHR ''/'' \<notin> set n"

lemma clean_parts_plain: "\<forall>p\<in>set ps. plain_name p \<Longrightarrow> clean_parts r out ps = out @ ps"
  by (induction ps arbitrary: out) (auto simp: plain_name_def)

lemma split_slash_join:
  assumes "\<forall>p\<in>set ps. plain_name p" and "ps \<noteq> []"
  shows "split_char CHR ''/'' (join ''/'' ps) = ps"
  using assms by (subst split_join) (auto simp: plain_name_def)

lemma path_clean_abs:
  assumes "\<forall>p\<in>set ps. plain_name p" and "ps \<noteq> []"
  shows "path_clean (CHR ''/'' # join ''/'' ps) = CHR ''/'' # join ''/'' ps"
proof -
  have "split_char CHR ''/'' (CHR ''/'' # join ''/'' ps) = [] # ps"
    using split_slash_join [OF assms] by (simp add: split_char_def)
  then show ?thesis using assms(1) by (simp add: path_clean_def path_abs_def clean_parts_plain)
qed

lemma while_stop:
  "\<forall>x\<in>set xs. P x \<Longrightarrow> \<not> P y \<Longrightarrow> takeWhile P (xs @ y # ys) = xs \<and> dropWhile P (xs @ y # ys) = y # ys"
  by (induction xs) auto

lemma join_snoc: "ps \<noteq> [] \<Longrightarrow> join sep (ps @ [p]) = join sep ps @ sep @ p"
  by (induction sep ps rule: join.induct) auto

lemma path_dir_snoc:
  assumes "\<forall>p\<in>set ps. plain_name p" and "ps \<noteq> []" and "plain_name q"
  shows "path_dir (CHR ''/'' # join ''/'' (ps @ [q])) = CHR ''/'' # join ''/'' ps"
proof -
  have q: "\<forall>c\<in>set (rev q). c \<noteq> CHR ''/''" using assms(3) by (auto simp: plain_name_def)
  have "rev (CHR ''/'' # join ''/'' (ps @ [q])) = rev q @ CHR ''/'' # rev (CHR ''/'' # join ''/'' ps)"
    using assms(2) by (simp add: join_snoc)
  then have "dropWhile (\<lambda>c. c \<noteq> CHR ''/'') (rev (CHR ''/'' # join ''/'' (ps @ [q]))) =
      CHR ''/'' # rev (CHR ''/'' # join ''/'' ps)"
    using while_stop [OF q] by simp
  then have *: "path_dir (CHR ''/'' # join ''/'' (ps @ [q])) = path_clean (CHR ''/'' # join ''/'' ps @ ''/'')"
    by (simp add: path_dir_def)
  have "split_char CHR ''/'' (join ''/'' ps @ ''/'') = ps @ [[]]"
  proof -
    have "join ''/'' ps @ ''/'' = join ''/'' (ps @ [[]])" using assms(2) by (simp add: join_snoc)
    moreover have "split_char CHR ''/'' (join ''/'' (ps @ [[]])) = ps @ [[]]"
      using assms(1) by (subst split_join) (auto simp: plain_name_def)
    ultimately show ?thesis by simp
  qed
  then have "split_char CHR ''/'' (CHR ''/'' # join ''/'' ps @ ''/'') = [] # ps @ [[]]"
    by (simp add: split_char_def)
  moreover have "clean_parts True [] ([] # ps @ [[]]) = ps"
  proof -
    have "clean_parts r out (ps @ [[]]) = out @ ps" for r out
      using assms(1) by (induction ps arbitrary: out) (auto simp: plain_name_def)
    then show ?thesis by simp
  qed
  ultimately show ?thesis using * by (simp add: path_clean_def path_abs_def)
qed

lemma path_base_snoc:
  assumes "plain_name q"
  shows "path_base (s @ CHR ''/'' # q) = q"
proof -
  obtain c r where q: "q = r @ [c]" "c \<noteq> CHR ''/''"
    using assms by (cases q rule: rev_cases) (auto simp: plain_name_def)
  have all: "\<forall>x\<in>set (rev q). x \<noteq> CHR ''/''" using assms by (auto simp: plain_name_def)
  have "dropWhile (\<lambda>c. c = CHR ''/'') (rev (s @ CHR ''/'' # q)) = rev q @ CHR ''/'' # rev s"
    using q by simp
  moreover have "takeWhile (\<lambda>c. c \<noteq> CHR ''/'') (rev q @ CHR ''/'' # rev s) = rev q"
    using while_stop [OF all] by simp
  ultimately show ?thesis using q by (simp add: path_base_def)
qed

end
