(* ===== verification/RootHelper.thy ===== *)
theory RootHelper
  imports UpdateHelper Paths
begin

text \<open>
  \<open>internal/update/root.go\<close>: the root helper. Its state holds the link the service starts from, the version store (one entry
  per version with the program inside), the update directory and the proof file. Every call of
  the system that can fail consumes one entry of \<open>rsFaults\<close> (\<open>True\<close> makes it fail, an exhausted list
  means success). \<open>rsPolls\<close> is what the proof file holds at the successive polls of \<open>WaitProof\<close>, because the Agent
  that writes it runs concurrently; \<open>rsNames\<close> are the random names drawn for temporary files.
\<close>

subsection \<open>State\<close>

record version_entry =
  veNode :: node
  veBinary :: "node option"

record root_sys =
  rsLink :: "bytes option"
  rsVersions :: "version_entry dir"
  rsUpdates :: "node dir"
  rsProof :: "node option"
  rsPolls :: "node option list"
  rsAgentUID :: int
  rsAgentGID :: int
  rsBootID :: bytes
  rsUmask :: nat
  rsNames :: "bytes list"
  rsFaults :: "bool list"

definition RootVersionsDir :: bytes where "RootVersionsDir = ''/opt/net-probe/versions''"

definition rio :: "root_sys \<Rightarrow> bool \<times> root_sys" where
  "rio s = (case rsFaults s of [] \<Rightarrow> (True, s) | f # fs \<Rightarrow> (\<not> f, s\<lparr>rsFaults := fs\<rparr>))"

text \<open>Several calls in a row, stopped by the first failure.\<close>

fun rios :: "nat \<Rightarrow> root_sys \<Rightarrow> bool \<times> root_sys" where
  "rios 0 s = (True, s)"
| "rios (Suc n) s = (let (ok, s) = rio s in if ok then rios n s else (False, s))"

subsection \<open>Files\<close>

definition readFixedOwnedFileAt ::
    "read_io \<Rightarrow> node dir \<Rightarrow> bytes \<Rightarrow> int \<Rightarrow> int \<Rightarrow> nat \<Rightarrow> nat \<Rightarrow> file_error + bytes" where
  "readFixedOwnedFileAt f directory basename uid gid mode limit =
     (if \<not> safeBasename basename then Inl BadName
      else case open_node f directory basename of
        None \<Rightarrow> Inl OpenFailed
      | Some n \<Rightarrow>
          if \<not> ioStat f then Inl StatFailed
          else if ndKind n \<noteq> Regular \<or> perm n \<noteq> mode mod 512 \<or> ndUid n \<noteq> uid \<or> ndGid n \<noteq> gid then Inl BadMode
          else let body = take (limit + 1) (ndData n) in
            if \<not> ioRead f \<or> limit < length body then Inl TooLarge else Inr body)"

text \<open>A file by its path: its directory is opened first.\<close>

definition readFixedOwnedFile :: "node option \<Rightarrow> bytes \<Rightarrow> int \<Rightarrow> int \<Rightarrow> nat \<Rightarrow> nat \<Rightarrow> file_error + bytes" where
  "readFixedOwnedFile n basename uid gid mode limit =
     readFixedOwnedFileAt all_io (case n of None \<Rightarrow> [] | Some n \<Rightarrow> [(basename, n)]) basename uid gid mode limit"

definition openFixedDirectory :: "read_io \<Rightarrow> (node \<times> 'd) option \<Rightarrow> int \<Rightarrow> int \<Rightarrow> nat \<Rightarrow> 'd option" where
  "openFixedDirectory f d uid gid mode =
     (case d of
        None \<Rightarrow> None
      | Some (n, entries) \<Rightarrow>
          if \<not> ioOpen f \<or> ndKind n = Symlink \<or> \<not> ioStat f then None
          else if ndKind n \<noteq> Folder \<or> perm n \<noteq> mode mod 512 \<or> ndUid n \<noteq> uid \<or> ndGid n \<noteq> gid then None
          else Some entries)"

definition owned_node :: "nat \<Rightarrow> int \<Rightarrow> int \<Rightarrow> bytes \<Rightarrow> node" where
  "owned_node mode uid gid body = \<lparr>ndKind = Regular, ndMode = mode, ndUid = uid, ndGid = gid, ndData = body\<rparr>"

text \<open>The temporary name: up to sixteen random ones, the first that does not exist.\<close>

definition temporaryName :: "root_sys \<Rightarrow> bytes option" where
  "temporaryName s = find (\<lambda>n. map_of (rsUpdates s) n = None) (take 16 (rsNames s))"

text \<open>Open, chmod, chown, write, sync and close; then the rename and the sync of the directory. A temporary
  file left by a failure is unlinked.\<close>

definition writeAtomicOwnedAt :: "bytes \<Rightarrow> bytes \<Rightarrow> nat \<Rightarrow> int \<Rightarrow> int \<Rightarrow> root_sys \<Rightarrow> bool \<times> root_sys" where
  "writeAtomicOwnedAt target body mode uid gid s =
     (if \<not> safeBasename target then (False, s)
      else case temporaryName s of
        None \<Rightarrow> (False, s)
      | Some temporary \<Rightarrow>
          let (ok, s) = rios 7 s in
          if \<not> ok then (False, s)
          else rio (s\<lparr>rsUpdates := dir_put target (owned_node mode uid gid body) (rsUpdates s)\<rparr>))"

definition syncRootDirectory :: "root_sys \<Rightarrow> bool \<times> root_sys" where
  "syncRootDirectory s = rios 2 s"

text \<open>The program of one version; \<open>rename\<close> refuses to replace a directory.\<close>

definition writeAtomicOwned :: "bytes \<Rightarrow> bytes \<Rightarrow> nat \<Rightarrow> int \<Rightarrow> int \<Rightarrow> root_sys \<Rightarrow> bool \<times> root_sys" where
  "writeAtomicOwned version body mode uid gid s =
     (let (ok, s) = rios 7 s in
      if \<not> ok then (False, s)
      else case map_of (rsVersions s) version of
        None \<Rightarrow> (False, s)
      | Some e \<Rightarrow>
          if (case veBinary e of None \<Rightarrow> False | Some n \<Rightarrow> ndKind n = Folder) then (False, s)
          else syncRootDirectory
            (s\<lparr>rsVersions := dir_put version (e\<lparr>veBinary := Some (owned_node mode uid gid body)\<rparr>) (rsVersions s)\<rparr>))"

definition fileExistsAt :: "bytes \<Rightarrow> root_sys \<Rightarrow> bool option \<times> root_sys" where
  "fileExistsAt basename s =
     (let (ok, s) = rio s in
      if \<not> ok then (None, s) else (Some (map_of (rsUpdates s) basename \<noteq> None), s))"

definition decodeStrictJSON :: "'a json_doc \<Rightarrow> 'a option" where
  "decodeStrictJSON d = (case d of JsonDoc v \<Rightarrow> Some v | _ \<Rightarrow> None)"

subsection \<open>Targets\<close>

definition validVersionTarget :: "bytes \<Rightarrow> bool" where
  "validVersionTarget target =
     (let clean = path_clean target in
      path_abs clean \<and> has_prefix clean (RootVersionsDir @ ''/'') \<and> path_base clean = ''net-probe'' \<and>
      path_dir (path_dir clean) = RootVersionsDir)"

definition installedVersionFromTarget :: "bytes \<Rightarrow> bytes option" where
  "installedVersionFromTarget target =
     (if \<not> validVersionTarget target then None
      else let version = path_base (path_dir (path_clean target)) in
        if parseSemver version = None then None else Some version)"

text \<open>The characters of the raw string literal in \<open>Install\<close> and \<open>Retain\<close>: in a raw string nothing is
  an escape, so besides slash and backslash it holds the letters r, n, x and the digit 0.\<close>

definition raw_name_chars :: bytes where
  "raw_name_chars =
     [CHR ''/'', CHR 0x5C, CHR 0x5C, CHR 0x5C, CHR ''r'', CHR 0x5C, CHR ''n'', CHR 0x5C, CHR ''x'', CHR ''0'', CHR ''0'']"

subsection \<open>The operations of \<open>rootHelperSystem\<close>\<close>

definition CurrentTarget :: "root_sys \<Rightarrow> bytes option \<times> root_sys" where
  "CurrentTarget s =
     (let (ok, s) = rio s in
      case rsLink s of
        None \<Rightarrow> (None, s)
      | Some target \<Rightarrow> if \<not> ok \<or> \<not> validVersionTarget target then (None, s) else (Some target, s))"

text \<open>\<open>Mkdir\<close> keeps an existing entry, whatever it is, and otherwise makes a directory of root, with the mode asked for (0755)
  less the bits of the process's umask.\<close>

definition mkdirVersion :: "bytes \<Rightarrow> root_sys \<Rightarrow> bool \<times> root_sys" where
  "mkdirVersion version s =
     (if map_of (rsVersions s) version \<noteq> None then (True, s)
      else
        let (ok, s) = rio s in
        if \<not> ok then (False, s)
        else (True, s\<lparr>rsVersions := dir_put version
          \<lparr>veNode = \<lparr>ndKind = Folder, ndMode = and 493 (511 - rsUmask s), ndUid = 0, ndGid = 0, ndData = []\<rparr>, veBinary = None\<rparr> (rsVersions s)\<rparr>))"

definition versionTarget :: "bytes \<Rightarrow> bytes" where
  "versionTarget version = path_join [path_join [RootVersionsDir, version], ''net-probe'']"

definition Install :: "bytes \<Rightarrow> bytes \<Rightarrow> root_sys \<Rightarrow> bytes option \<times> root_sys" where
  "Install version artifact s =
     (if path_base version \<noteq> version \<or> contains_any version raw_name_chars then (None, s)
      else
        let (ok, s) = rio s in
        if \<not> ok then (None, s)
        else
          let (ok, s) = mkdirVersion version s in
          if \<not> ok then (None, s)
          else
            let (ok, s) = rio s in
            case map_of (rsVersions s) version of
              None \<Rightarrow> (None, s)
            | Some e \<Rightarrow>
                if \<not> ok \<or> ndKind (veNode e) \<noteq> Folder then (None, s)
                else if ndUid (veNode e) \<noteq> 0 \<or> ndGid (veNode e) \<noteq> 0 \<or> perm (veNode e) \<noteq> 493 then (None, s)
                else
                  let (ok, s) = writeAtomicOwned version artifact 493 0 0 s in
                  if \<not> ok then (None, s) else (Some (versionTarget version), s))"

text \<open>Create, close and remove a temporary name, link and rename it, then sync the directory.\<close>

definition SwitchLink :: "bytes \<Rightarrow> root_sys \<Rightarrow> bool \<times> root_sys" where
  "SwitchLink target s =
     (if \<not> validVersionTarget target then (False, s)
      else
        let (ok, s) = rios 5 s in
        if \<not> ok then (False, s) else syncRootDirectory (s\<lparr>rsLink := Some target\<rparr>))"

text \<open>The proof of an earlier run is removed, if that succeeds; then the service manager is asked.\<close>

definition Restart :: "root_sys \<Rightarrow> bool \<times> root_sys" where
  "Restart s =
     (let (removed, s) = rio s;
          s = (if removed then s\<lparr>rsProof := None\<rparr> else s)
      in rio s)"

definition validUpgradeProof :: "upgrade_proof \<Rightarrow> upgrade_proof \<Rightarrow> bytes \<Rightarrow> bool" where
  "validUpgradeProof proof expected bootID \<longleftrightarrow>
     bootID \<noteq> [] \<and> prVersion proof = prVersion expected \<and> prAgentID proof = prAgentID expected \<and>
     prCommandID proof = prCommandID expected \<and> prBootID proof = bootID"

definition pollProof :: "codec \<Rightarrow> upgrade_proof \<Rightarrow> root_sys \<Rightarrow> node option \<Rightarrow> bool" where
  "pollProof C expected s n =
     (case readFixedOwnedFile n UpgradeProofFile (rsAgentUID s) (rsAgentGID s) 384 16384 of
        Inl e \<Rightarrow> False
      | Inr body \<Rightarrow> (case decodeStrictJSON (decProof C body) of
          None \<Rightarrow> False
        | Some proof \<Rightarrow> validUpgradeProof proof expected (rsBootID s)))"

text \<open>The loop ends at the first valid proof or when the context does; the number of ticks of 250 ms bounds
  the polls. \<open>polls\<close> starts with the file found at once.\<close>

fun waitLoop :: "codec \<Rightarrow> upgrade_proof \<Rightarrow> root_sys \<Rightarrow> node option list \<Rightarrow> bool" where
  "waitLoop C expected s [] = False"
| "waitLoop C expected s (n # polls) = (pollProof C expected s n \<or> waitLoop C expected s polls)"

definition WaitProof :: "codec \<Rightarrow> upgrade_proof \<Rightarrow> duration \<Rightarrow> root_sys \<Rightarrow> bool \<times> root_sys" where
  "WaitProof C expected timeout s =
     (waitLoop C expected s (rsProof s # take (nat (timeout div 250000000)) (rsPolls s)), s)"

definition retain_keep :: "bytes \<Rightarrow> bytes \<Rightarrow> bytes list" where
  "retain_keep current previous = [path_base (path_dir current), path_base (path_dir previous)]"

fun retainEntries :: "bytes list \<Rightarrow> version_entry dir \<Rightarrow> root_sys \<Rightarrow> bool \<times> root_sys" where
  "retainEntries keep [] s = (True, s)"
| "retainEntries keep ((name, e) # es) s =
     (if name \<in> set keep then retainEntries keep es s
      else if ndKind (veNode e) \<noteq> Folder \<or> path_base name \<noteq> name \<or> contains_any name raw_name_chars then (False, s)
      else
        let (ok, s) = rios 2 s in
        if \<not> ok then (False, s)
        else retainEntries keep es (s\<lparr>rsVersions := dir_remove name (rsVersions s)\<rparr>))"

definition Retain :: "bytes \<Rightarrow> bytes \<Rightarrow> root_sys \<Rightarrow> bool \<times> root_sys" where
  "Retain current previous s =
     (let (ok, s) = rio s in
      if \<not> ok then (False, s)
      else
        let (ok, s) = retainEntries (retain_keep current previous) (rsVersions s) s in
        if \<not> ok then (False, s) else syncRootDirectory s)"

definition WriteResult :: "codec \<Rightarrow> helper_result \<Rightarrow> root_sys \<Rightarrow> bool \<times> root_sys" where
  "WriteResult C result s = writeAtomicOwnedAt HelperResultFile (encResult C result) 416 0 (rsAgentGID s) s"

definition rootHelperSystem :: "codec \<Rightarrow> root_sys helper_system" where
  "rootHelperSystem C =
     \<lparr>hsCurrentTarget = CurrentTarget, hsInstall = Install, hsSwitch = SwitchLink, hsRestart = Restart,
      hsWaitProof = WaitProof C, hsRetain = Retain, hsWriteResult = WriteResult C\<rparr>"

subsection \<open>Processing a staged request\<close>

datatype process_outcome =
    NothingPending
  | ProcessFailed
  | Quarantined
  | Rejected request_error bool
  | Applied helper_result bool

record root_options =
  hoPublicKey :: bytes
  hoCommandPublicKey :: bytes
  hoCurrentVersion :: bytes
  hoControlVersion :: bytes
  hoAgentID :: bytes
  hoAgentUID :: int
  hoAgentGID :: int
  hoProofTimeout :: duration
  hoNow :: int64

text \<open>\<open>renameat\<close> within the update directory; \<open>None\<close> when the source does not exist.\<close>

definition renameUpdate :: "bytes \<Rightarrow> bytes \<Rightarrow> root_sys \<Rightarrow> bool option \<times> root_sys" where
  "renameUpdate old new s =
     (case map_of (rsUpdates s) old of
        None \<Rightarrow> (None, s)
      | Some n \<Rightarrow>
          let (ok, s) = rio s in
          if \<not> ok then (Some False, s)
          else (Some True, s\<lparr>rsUpdates := dir_put new n (dir_remove old (rsUpdates s))\<rparr>))"

text \<open>Whether the claimed request was moved away and the directory synced.\<close>

definition moveRejected :: "root_sys \<Rightarrow> bool \<times> root_sys" where
  "moveRejected s =
     (let (moved, s) = renameUpdate ClaimedRequestFile RejectedRequestFile s in
      if moved \<noteq> Some True then (False, s) else rio s)"

definition quarantineUncorrelatedUpdate :: "root_sys \<Rightarrow> process_outcome \<times> root_sys" where
  "quarantineUncorrelatedUpdate s = (let (ok, s) = moveRejected s in (Quarantined, s))"

definition rejectedResult :: "update_request \<Rightarrow> helper_result" where
  "rejectedResult r =
     \<lparr>hrCommandID = urCommandID r, hrState = ''failed'', hrCode = ''upgrade_rejected'',
      hrVersion = mfVersion (urManifest r), hrPreviousVersion = urPreviousVersion r\<rparr>"

definition rejectPendingUpdate ::
    "codec \<Rightarrow> update_request \<Rightarrow> request_error \<Rightarrow> root_sys \<Rightarrow> process_outcome \<times> root_sys" where
  "rejectPendingUpdate C r cause s =
     (if \<not> canonicalUUID (urCommandID r) then quarantineUncorrelatedUpdate s
      else
        let (ok, s) = moveRejected s in
        if \<not> ok then (Rejected cause False, s)
        else let (ok, s) = WriteResult C (rejectedResult r) s in (Rejected cause ok, s))"

definition helper_request_options :: "bytes \<Rightarrow> bytes \<Rightarrow> root_options \<Rightarrow> node dir \<Rightarrow> request_options" where
  "helper_request_options os arch opts updates =
     \<lparr>roUpdatesDir = None, roUpdatesDirFile = Some updates, roPublicKey = hoPublicKey opts,
      roCommandPublicKey = hoCommandPublicKey opts, roCurrentVersion = hoCurrentVersion opts, roOS = os, roArch = arch,
      roControlVersion = hoControlVersion opts, roAgentID = hoAgentID opts, roExpectedUID = hoAgentUID opts,
      roExpectedGID = hoAgentGID opts, roNow = hoNow opts\<rparr>"

text \<open>A platform: \<open>runtime.GOOS\<close> and \<open>runtime.GOARCH\<close>. \<open>f\<close> and \<open>g\<close> answer the reads of the claimed request and
  of the artifact.\<close>

definition runClaimed ::
    "verifier \<Rightarrow> bytes \<times> bytes \<Rightarrow> read_io \<Rightarrow> read_io \<Rightarrow> root_options \<Rightarrow> root_sys \<Rightarrow> process_outcome \<times> root_sys" where
  "runClaimed V platform f g opts s =
     (case readFixedOwnedFileAt f (rsUpdates s) ClaimedRequestFile (hoAgentUID opts) (hoAgentGID opts) 384 131072 of
        Inl e \<Rightarrow> quarantineUncorrelatedUpdate s
      | Inr body \<Rightarrow> (case DecodeUpdateRequest (vCodec V) body of
          Inl e \<Rightarrow> quarantineUncorrelatedUpdate s
        | Inr decoded \<Rightarrow>
            (case ValidateUpdateRequest V g body
                (helper_request_options (fst platform) (snd platform) opts (rsUpdates s)) of
              Inl e \<Rightarrow> rejectPendingUpdate (vCodec V) decoded e s
            | Inr (r, artifact) \<Rightarrow>
                (case ApplyVerifiedUpdate (Some (rootHelperSystem (vCodec V))) r artifact (hoProofTimeout opts) s of
                  (res, ok, s) \<Rightarrow> (Applied res ok, s)))))"

definition processPendingUpdate ::
    "verifier \<Rightarrow> bytes \<times> bytes \<Rightarrow> read_io \<Rightarrow> read_io \<Rightarrow> root_options \<Rightarrow> root_sys \<Rightarrow> process_outcome \<times> root_sys" where
  "processPendingUpdate V platform f g opts s =
     (let (claimed, s) = fileExistsAt ClaimedRequestFile s in
      case claimed of
        None \<Rightarrow> (ProcessFailed, s)
      | Some True \<Rightarrow> runClaimed V platform f g opts s
      | Some False \<Rightarrow>
          let (moved, s) = renameUpdate PendingRequestFile ClaimedRequestFile s in
          (case moved of
             None \<Rightarrow> (NothingPending, s)
           | Some False \<Rightarrow> (ProcessFailed, s)
           | Some True \<Rightarrow>
               let (ok, s) = rio s in
               if \<not> ok then (ProcessFailed, s) else runClaimed V platform f g opts s))"

subsection \<open>The helper run\<close>

text \<open>A PEM text as the decoder splits it: the block's type, the key its bytes parse to as PKIX, and the
  rest.\<close>

record pem_text =
  pemType :: bytes
  pemKey :: "bytes option"
  pemRest :: bytes

record root_files =
  rfEuid :: int
  rfUpdatesNode :: node
  rfTrust :: "(node \<times> node dir) option"
  rfBootID :: "bytes option"
  rfPem :: "bytes \<Rightarrow> pem_text option"

definition readRootCommandKey :: "root_files \<Rightarrow> bytes option" where
  "readRootCommandKey rf =
     (case openFixedDirectory all_io (rfTrust rf) 0 0 493 of
        None \<Rightarrow> None
      | Some d \<Rightarrow> (case readFixedOwnedFileAt all_io d ''command-signing.pub'' 0 0 420 16384 of
          Inl e \<Rightarrow> None
        | Inr body \<Rightarrow> (case rfPem rf body of
            None \<Rightarrow> None
          | Some b \<Rightarrow>
              if pemType b \<noteq> ''PUBLIC KEY'' \<or> trim_space (pemRest b) \<noteq> [] then None
              else (case pemKey b of
                None \<Rightarrow> None
              | Some k \<Rightarrow> if length k \<noteq> PublicKeySize then None else Some k))))"

definition readRootBootID :: "root_files \<Rightarrow> bytes option" where
  "readRootBootID rf =
     (case rfBootID rf of
        None \<Rightarrow> None
      | Some body \<Rightarrow> let value = trim_space body in if value = [] \<or> 256 < length value then None else Some value)"

definition RunHelper ::
    "verifier \<Rightarrow> bytes \<times> bytes \<Rightarrow> read_io \<Rightarrow> read_io \<Rightarrow> root_files \<Rightarrow> root_options \<Rightarrow> root_sys \<Rightarrow> process_outcome \<times> root_sys" where
  "RunHelper V platform f g rf opts s =
     (if rfEuid rf \<noteq> 0 then (ProcessFailed, s)
      else case openFixedDirectory all_io (Some (rfUpdatesNode rf, rsUpdates s)) 0 (hoAgentGID opts) 504 of
        None \<Rightarrow> (ProcessFailed, s)
      | Some updates \<Rightarrow> (case readRootCommandKey rf of
          None \<Rightarrow> (ProcessFailed, s)
        | Some key \<Rightarrow> (case readRootBootID rf of
            None \<Rightarrow> (ProcessFailed, s)
          | Some bootID \<Rightarrow>
              let s = s\<lparr>rsAgentUID := hoAgentUID opts, rsAgentGID := hoAgentGID opts, rsBootID := bootID\<rparr>;
                  (current, s) = CurrentTarget s
              in (case current of
                    None \<Rightarrow> (ProcessFailed, s)
                  | Some target \<Rightarrow> (case installedVersionFromTarget target of
                      None \<Rightarrow> (ProcessFailed, s)
                    | Some version \<Rightarrow>
                        if hoCurrentVersion opts \<noteq> [] \<and> hoCurrentVersion opts \<noteq> version then (ProcessFailed, s)
                        else processPendingUpdate V platform f g
                               (opts\<lparr>hoCommandPublicKey := key, hoCurrentVersion := version\<rparr>) s)))))"

subsection \<open>Targets are versions of the store\<close>

definition store_path :: "bytes list \<Rightarrow> bytes" where
  "store_path ps = CHR ''/'' # join ''/'' ([''opt'', ''net-probe'', ''versions''] @ ps)"

lemma store_plain: "\<forall>p\<in>set [''opt'', ''net-probe'', ''versions'']. plain_name p"
  by (simp add: plain_name_def)

lemma RootVersionsDir_path: "RootVersionsDir = store_path []"
  by (simp add: store_path_def RootVersionsDir_def)

lemma store_path_snoc: "store_path (ps @ [q]) = store_path ps @ CHR ''/'' # q"
  using join_snoc [of "[''opt'', ''net-probe'', ''versions''] @ ps" "''/''" q] by (simp add: store_path_def)

lemma plain_net_probe: "plain_name ''net-probe''"
  by (simp add: plain_name_def)

lemma path_clean_store:
  assumes "\<forall>p\<in>set ps. plain_name p"
  shows "path_clean (store_path ps) = store_path ps"
  unfolding store_path_def using assms store_plain by (intro path_clean_abs) auto

lemma path_dir_store:
  assumes "\<forall>p\<in>set ps. plain_name p" and "plain_name q"
  shows "path_dir (store_path (ps @ [q])) = store_path ps"
  using path_dir_snoc [of "[''opt'', ''net-probe'', ''versions''] @ ps" q] assms store_plain
  by (auto simp: store_path_def)

lemma path_base_store: "plain_name q \<Longrightarrow> path_base (store_path (ps @ [q])) = q"
  unfolding store_path_snoc by (rule path_base_snoc)

lemma versionTarget_plain:
  assumes "plain_name v"
  shows "versionTarget v = store_path [v, ''net-probe'']"
proof -
  have step: "path_join [store_path ps, q] = store_path (ps @ [q])"
    if "\<forall>p\<in>set ps. plain_name p" "plain_name q" for ps q
  proof -
    have "store_path ps \<noteq> []" "q \<noteq> []" using that by (auto simp: store_path_def plain_name_def)
    then have "path_join [store_path ps, q] = path_clean (store_path (ps @ [q]))"
      by (simp add: path_join_def store_path_snoc)
    then show ?thesis using path_clean_store [of "ps @ [q]"] that by simp
  qed
  have "path_join [RootVersionsDir, v] = store_path ([] @ [v])"
    unfolding RootVersionsDir_path using assms by (intro step) auto
  then show ?thesis
    using step [of "[v]" "''net-probe''"] assms plain_net_probe by (simp add: versionTarget_def)
qed

lemma validVersionTarget_version:
  assumes "plain_name v"
  shows "validVersionTarget (versionTarget v) \<and> path_base (path_dir (versionTarget v)) = v"
proof -
  have plain: "\<forall>p\<in>set [v]. plain_name p" "\<forall>p\<in>set [v, ''net-probe'']. plain_name p"
    using assms plain_net_probe by auto
  have dirs: "path_dir (store_path [v, ''net-probe'']) = store_path [v]" "path_dir (store_path [v]) = RootVersionsDir"
    using path_dir_store [OF plain(1) plain_net_probe] path_dir_store [of "[]" v] assms
    by (simp_all add: RootVersionsDir_path)
  have base: "path_base (store_path [v, ''net-probe'']) = ''net-probe''" "path_base (store_path [v]) = v"
    using path_base_store [OF plain_net_probe, of "[v]"] path_base_store [OF assms, of "[]"] by simp_all
  have pre: "has_prefix (store_path [v, ''net-probe'']) (RootVersionsDir @ ''/'')" "path_abs (store_path [v, ''net-probe''])"
    by (simp_all add: store_path_def RootVersionsDir_def has_prefix_def path_abs_def)
  show ?thesis
    using path_clean_store [OF plain(2)] dirs base pre versionTarget_plain [OF assms]
    by (simp add: validVersionTarget_def)
qed

subsection \<open>The root system meets the contract\<close>

definition root_binary :: "root_sys \<Rightarrow> bytes \<Rightarrow> bytes option" where
  "root_binary s x =
     (case map_of (rsVersions s) (path_base (path_dir x)) of
        None \<Rightarrow> None
      | Some e \<Rightarrow> map_option ndData (veBinary e))"

definition root_written :: "root_sys \<Rightarrow> bytes option" where
  "root_written s = map_option ndData (map_of (rsUpdates s) HelperResultFile)"

definition root_installable :: "bytes \<Rightarrow> bool" where
  "root_installable v \<longleftrightarrow> v \<noteq> ''.'' \<and> v \<noteq> ''..''"

text \<open>What no operation of the system changes.\<close>

definition root_env :: "root_sys \<Rightarrow> node option list \<times> int \<times> int \<times> bytes \<times> nat \<times> bytes list" where
  "root_env s = (rsPolls s, rsAgentUID s, rsAgentGID s, rsBootID s, rsUmask s, rsNames s)"

text \<open>A call consumes faults only.\<close>

definition only_faults :: "root_sys \<Rightarrow> root_sys \<Rightarrow> bool" where
  "only_faults s s' \<longleftrightarrow> rsLink s' = rsLink s \<and> rsVersions s' = rsVersions s \<and> rsUpdates s' = rsUpdates s \<and>
     rsProof s' = rsProof s \<and> root_env s' = root_env s"

lemma only_faults_refl [simp]: "only_faults s s"
  by (simp add: only_faults_def)

lemma only_faults_trans: "only_faults s t \<Longrightarrow> only_faults t u \<Longrightarrow> only_faults s u"
  by (simp add: only_faults_def)

lemma rio_frame: "rio s = (ok, s') \<Longrightarrow> only_faults s s'"
  by (auto simp: rio_def only_faults_def root_env_def split: list.splits)

lemma rios_frame: "rios n s = (ok, s') \<Longrightarrow> only_faults s s'"
proof (induction n arbitrary: s)
  case (Suc n)
  obtain b t where 1: "rio s = (b, t)" by (metis surj_pair)
  show ?case
  proof (cases b)
    case True
    then have "rios n t = (ok, s')" using Suc.prems 1 by simp
    then show ?thesis using Suc.IH rio_frame [OF 1] only_faults_trans by blast
  next
    case False
    then show ?thesis using Suc.prems rio_frame [OF 1] 1 by simp
  qed
qed simp

lemma syncRootDirectory_frame: "syncRootDirectory s = (ok, s') \<Longrightarrow> only_faults s s'"
  by (simp add: syncRootDirectory_def rios_frame)

lemma CurrentTarget_law:
  assumes "CurrentTarget s = (t, s')"
  shows "only_faults s s' \<and> (\<forall>x. t = Some x \<longrightarrow> rsLink s = Some x \<and> validVersionTarget x)"
proof -
  obtain b u where 1: "rio s = (b, u)" by (metis surj_pair)
  then show ?thesis
    using assms rio_frame [OF 1] by (auto simp: CurrentTarget_def only_faults_def split: option.splits if_splits)
qed

lemma SwitchLink_law:
  assumes "SwitchLink x s = (ok, s')"
  shows "rsVersions s' = rsVersions s \<and> rsUpdates s' = rsUpdates s \<and> rsProof s' = rsProof s \<and> root_env s' = root_env s \<and>
    (rsLink s' = Some x \<and> validVersionTarget x \<or> \<not> ok \<and> rsLink s' = rsLink s)"
proof -
  obtain b u where 1: "rios 5 s = (b, u)" by (metis surj_pair)
  obtain c v where 2: "syncRootDirectory (u\<lparr>rsLink := Some x\<rparr>) = (c, v)" by (metis surj_pair)
  show ?thesis
    using assms rios_frame [OF 1] syncRootDirectory_frame [OF 2]
    by (auto simp: SwitchLink_def 1 2 only_faults_def root_env_def split: if_splits)
qed

lemma Restart_law:
  assumes "Restart s = (ok, s')"
  shows "rsLink s' = rsLink s \<and> rsVersions s' = rsVersions s \<and> rsUpdates s' = rsUpdates s \<and> root_env s' = root_env s"
proof -
  obtain b u where 1: "rio s = (b, u)" by (metis surj_pair)
  have 2: "rio (if b then u\<lparr>rsProof := None\<rparr> else u) = (ok, s')" using assms 1 by (simp add: Restart_def)
  show ?thesis using rio_frame [OF 1] rio_frame [OF 2] by (cases b) (simp_all add: only_faults_def root_env_def)
qed

text \<open>Operations on the store of versions: nothing else changes, and of the store at most one entry.\<close>

definition only_version :: "bytes \<Rightarrow> root_sys \<Rightarrow> root_sys \<Rightarrow> bool" where
  "only_version v s s' \<longleftrightarrow> rsLink s' = rsLink s \<and> rsUpdates s' = rsUpdates s \<and> rsProof s' = rsProof s \<and>
     root_env s' = root_env s \<and> (\<forall>w. w \<noteq> v \<longrightarrow> map_of (rsVersions s') w = map_of (rsVersions s) w)"

lemma only_version_faults: "only_faults s s' \<Longrightarrow> only_version v s s'"
  by (simp add: only_version_def only_faults_def)

lemma only_version_trans: "only_version v s t \<Longrightarrow> only_version v t u \<Longrightarrow> only_version v s u"
  by (simp add: only_version_def)

lemma mkdirVersion_law:
  assumes "mkdirVersion v s = (ok, s')"
  shows "only_version v s s'"
proof -
  obtain b u where 1: "rio s = (b, u)" by (metis surj_pair)
  show ?thesis
    using assms rio_frame [OF 1]
    by (auto simp: mkdirVersion_def 1 only_faults_def only_version_def root_env_def split: if_splits)
qed

lemma writeAtomicOwned_law:
  assumes "writeAtomicOwned v body m u g s = (ok, s')"
  shows "only_version v s s' \<and>
    (ok \<longrightarrow> (\<exists>e. map_of (rsVersions s') v = Some (e\<lparr>veBinary := Some (owned_node m u g body)\<rparr>)))"
proof -
  obtain b t where 1: "rios 7 s = (b, t)" by (metis surj_pair)
  note f1 = rios_frame [OF 1]
  have run: "(if \<not> b then (False, t) else case map_of (rsVersions t) v of None \<Rightarrow> (False, t) | Some e \<Rightarrow>
      if (case veBinary e of None \<Rightarrow> False | Some n \<Rightarrow> ndKind n = Folder) then (False, t)
      else syncRootDirectory (t\<lparr>rsVersions := dir_put v (e\<lparr>veBinary := Some (owned_node m u g body)\<rparr>)
        (rsVersions t)\<rparr>)) = (ok, s')"
    using assms unfolding writeAtomicOwned_def 1 Let_def prod.case .
  have "(s' = t \<and> \<not> ok) \<or> (\<exists>e. syncRootDirectory (t\<lparr>rsVersions := dir_put v (e\<lparr>veBinary := Some (owned_node m u g body)\<rparr>)
        (rsVersions t)\<rparr>) = (ok, s'))"
  proof (cases "b \<and> map_of (rsVersions t) v \<noteq> None")
    case True
    then obtain e where "map_of (rsVersions t) v = Some e" by blast
    with run True show ?thesis by (cases "case veBinary e of None \<Rightarrow> False | Some n \<Rightarrow> ndKind n = Folder") auto
  next
    case False
    with run show ?thesis by (cases b) simp_all
  qed
  then consider (fail) "s' = t" "\<not> ok"
    | (renamed) e where "syncRootDirectory (t\<lparr>rsVersions := dir_put v (e\<lparr>veBinary := Some (owned_node m u g body)\<rparr>)
        (rsVersions t)\<rparr>) = (ok, s')"
    by blast
  then show ?thesis
  proof cases
    case fail
    then show ?thesis using f1 only_version_faults by blast
  next
    case (renamed e)
    note f2 = syncRootDirectory_frame [OF renamed]
    show ?thesis using f1 f2 by (auto simp: only_faults_def only_version_def root_env_def)
  qed
qed

lemma raw_name_plain: "path_base v = v \<Longrightarrow> \<not> contains_any v raw_name_chars \<Longrightarrow> root_installable v \<Longrightarrow> plain_name v"
proof -
  assume a: "path_base v = v" "\<not> contains_any v raw_name_chars" "root_installable v"
  have "v \<noteq> []" using a(1) by (auto simp: path_base_def)
  moreover have "CHR ''/'' \<notin> set v" using a(2) by (auto simp: contains_any_def raw_name_chars_def list_ex_iff)
  ultimately show ?thesis using a(3) by (simp add: plain_name_def root_installable_def)
qed

lemma Install_law:
  assumes "Install v a s = (t, s')"
  shows "only_version v s s' \<and>
    (\<forall>x. t = Some x \<longrightarrow> path_base v = v \<and> \<not> contains_any v raw_name_chars \<and> x = versionTarget v \<and>
       (\<exists>e. map_of (rsVersions s') v = Some (e\<lparr>veBinary := Some (owned_node 493 0 0 a)\<rparr>)))"
proof -
  obtain b1 s1 where 1: "rio s = (b1, s1)" by (metis surj_pair)
  obtain b2 s2 where 2: "mkdirVersion v s1 = (b2, s2)" by (metis surj_pair)
  obtain b3 s3 where 3: "rio s2 = (b3, s3)" by (metis surj_pair)
  obtain b4 s4 where 4: "writeAtomicOwned v a 493 0 0 s3 = (b4, s4)" by (metis surj_pair)
  have f1: "only_version v s s1" using rio_frame [OF 1] by (rule only_version_faults)
  have f2: "only_version v s s2" using f1 mkdirVersion_law [OF 2] by (rule only_version_trans)
  have f3: "only_version v s s3" using f2 rio_frame [OF 3, THEN only_version_faults] by (rule only_version_trans)
  note w = writeAtomicOwned_law [OF 4]
  have f4: "only_version v s s4" using f3 w by (blast intro: only_version_trans)
  consider "t = None" "s' \<in> {s, s1, s2, s3, s4}"
    | "t = Some (versionTarget v)" "s' = s4" "b4" "path_base v = v" "\<not> contains_any v raw_name_chars"
  proof -
    have "t = None \<and> s' \<in> {s, s1, s2, s3, s4} \<or>
        t = Some (versionTarget v) \<and> s' = s4 \<and> b4 \<and> path_base v = v \<and> \<not> contains_any v raw_name_chars"
      using assms unfolding Install_def 1 2 3 4 Let_def prod.case
      by (simp split: if_split_asm option.split_asm)
    then show thesis using that by blast
  qed
  then show ?thesis
  proof cases
    case 1
    then show ?thesis using f1 f2 f3 f4 by (auto simp: only_version_def)
  next
    case 2
    then show ?thesis using f4 w by simp
  qed
qed

lemma retainEntries_law:
  assumes "retainEntries keep es s = (ok, s')"
  shows "rsLink s' = rsLink s \<and> rsUpdates s' = rsUpdates s \<and> rsProof s' = rsProof s \<and> root_env s' = root_env s \<and>
    (\<forall>v\<in>set keep. map_of (rsVersions s') v = map_of (rsVersions s) v)"
  using assms
proof (induction keep es s rule: retainEntries.induct)
  case (2 keep name e es s)
  obtain b t where 1: "rios 2 s = (b, t)" by (metis surj_pair)
  note f = rios_frame [OF 1]
  show ?case
  proof (cases "name \<in> set keep")
    case True
    then show ?thesis using 2 by simp
  next
    case False
    show ?thesis
    proof (cases "\<not> (ndKind (veNode e) \<noteq> Folder \<or> path_base name \<noteq> name \<or> contains_any name raw_name_chars) \<and> b")
      case True
      then have "retainEntries keep es (t\<lparr>rsVersions := dir_remove name (rsVersions t)\<rparr>) = (ok, s')"
        using 2(3) False 1 by simp
      from 2(2) [OF False _ 1 [symmetric] _ _ this] True show ?thesis
        using f False by (auto simp: only_faults_def root_env_def)
    next
      case other: False
      then show ?thesis using 2(3) False 1 f by (auto simp: only_faults_def split: if_splits)
    qed
  qed
qed simp

lemma Retain_law:
  assumes "Retain x y s = (ok, s')"
  shows "rsLink s' = rsLink s \<and> rsUpdates s' = rsUpdates s \<and> root_env s' = root_env s \<and>
    root_binary s' x = root_binary s x \<and> root_binary s' y = root_binary s y"
proof -
  obtain b1 s1 where 1: "rio s = (b1, s1)" by (metis surj_pair)
  obtain b2 s2 where 2: "retainEntries (retain_keep x y) (rsVersions s1) s1 = (b2, s2)" by (metis surj_pair)
  obtain b3 s3 where 3: "syncRootDirectory s2 = (b3, s3)" by (metis surj_pair)
  have "s' \<in> {s1, s2, s3}" using assms by (auto simp: Retain_def 1 2 3 split: if_splits)
  then show ?thesis
    using rio_frame [OF 1] retainEntries_law [OF 2] syncRootDirectory_frame [OF 3]
    by (auto simp: only_faults_def root_binary_def retain_keep_def)
qed

lemma writeAtomicOwnedAt_law:
  assumes "writeAtomicOwnedAt n body m u g s = (ok, s')"
  shows "rsLink s' = rsLink s \<and> rsVersions s' = rsVersions s \<and> rsProof s' = rsProof s \<and> root_env s' = root_env s \<and>
    (ok \<longrightarrow> rsUpdates s' = dir_put n (owned_node m u g body) (rsUpdates s)) \<and>
    (rsUpdates s' = dir_put n (owned_node m u g body) (rsUpdates s) \<or> rsUpdates s' = rsUpdates s)"
proof -
  obtain b t where 1: "rios 7 s = (b, t)" by (metis surj_pair)
  obtain c w where 2: "rio (t\<lparr>rsUpdates := dir_put n (owned_node m u g body) (rsUpdates t)\<rparr>) = (c, w)" by (metis surj_pair)
  show ?thesis
    using assms rios_frame [OF 1] rio_frame [OF 2] unfolding writeAtomicOwnedAt_def 1 2 Let_def prod.case
    by (auto simp: only_faults_def root_env_def split: if_split_asm option.split_asm)
qed

lemma root_frame: "rsVersions s' = rsVersions s \<Longrightarrow> root_binary s' = root_binary s"
  "rsUpdates s' = rsUpdates s \<Longrightarrow> root_written s' = root_written s"
  by (auto simp: root_binary_def root_written_def fun_eq_iff)

lemma rootHelperSystem_simps:
  "hsCurrentTarget (rootHelperSystem C) = CurrentTarget" "hsInstall (rootHelperSystem C) = Install"
  "hsSwitch (rootHelperSystem C) = SwitchLink" "hsRestart (rootHelperSystem C) = Restart"
  "hsWaitProof (rootHelperSystem C) = WaitProof C" "hsRetain (rootHelperSystem C) = Retain"
  "hsWriteResult (rootHelperSystem C) = WriteResult C"
  by (simp_all add: rootHelperSystem_def)

interpretation root_system: helper_contract "rootHelperSystem C" rsLink root_binary root_written "encResult C" root_installable
  for C
proof (unfold_locales, unfold rootHelperSystem_simps)
  fix s s' and t :: "bytes option"
  assume "CurrentTarget s = (t, s')"
  note law = CurrentTarget_law [OF this]
  then show "rsLink s' = rsLink s \<and> root_binary s' = root_binary s \<and> root_written s' = root_written s \<and>
      (\<forall>x. t = Some x \<longrightarrow> rsLink s = Some x)"
    by (auto simp: only_faults_def intro: root_frame)
next
  fix v a s s' and t :: "bytes option"
  assume v: "root_installable v" and "Install v a s = (t, s')"
  note law = Install_law [OF this(2)]
  have "root_binary s' x = Some a" if "t = Some x" for x
  proof -
    have x: "x = versionTarget v" "plain_name v"
      using law raw_name_plain v that by blast+
    then have "path_base (path_dir x) = v" using validVersionTarget_version by blast
    then show ?thesis using law that by (auto simp: root_binary_def owned_node_def)
  qed
  then show "rsLink s' = rsLink s \<and> root_written s' = root_written s \<and> (\<forall>x. t = Some x \<longrightarrow> root_binary s' x = Some a)"
    using law by (auto simp: only_version_def intro: root_frame)
next
  fix x s ok s'
  assume "SwitchLink x s = (ok, s')"
  note law = SwitchLink_law [OF this]
  then show "root_binary s' = root_binary s \<and> root_written s' = root_written s \<and>
      (rsLink s' = Some x \<or> \<not> ok \<and> rsLink s' = rsLink s)"
    by (auto intro: root_frame)
next
  fix s ok s'
  assume "Restart s = (ok, s')"
  note law = Restart_law [OF this]
  then show "rsLink s' = rsLink s \<and> root_binary s' = root_binary s \<and> root_written s' = root_written s"
    by (auto intro: root_frame)
next
  fix p d s ok s'
  assume "WaitProof C p d s = (ok, s')"
  then show "rsLink s' = rsLink s \<and> root_binary s' = root_binary s \<and> root_written s' = root_written s"
    by (simp add: WaitProof_def)
next
  fix x y s ok s'
  assume "Retain x y s = (ok, s')"
  note law = Retain_law [OF this]
  then show "rsLink s' = rsLink s \<and> root_written s' = root_written s \<and> root_binary s' x = root_binary s x \<and>
      root_binary s' y = root_binary s y"
    by (auto intro: root_frame)
next
  fix r s ok s'
  assume "WriteResult C r s = (ok, s')"
  then have "writeAtomicOwnedAt HelperResultFile (encResult C r) 416 0 (rsAgentGID s) s = (ok, s')"
    by (simp add: WriteResult_def)
  note law = writeAtomicOwnedAt_law [OF this]
  then show "rsLink s' = rsLink s \<and> root_binary s' = root_binary s \<and> (ok \<longrightarrow> root_written s' = Some (encResult C r))"
    by (auto simp: root_written_def owned_node_def intro: root_frame)
qed

subsection \<open>Installing a version\<close>

lemma no_faults_rio: "rsFaults s = [] \<Longrightarrow> rio s = (True, s)"
  by (simp add: rio_def)

lemma no_faults_rios: "rsFaults s = [] \<Longrightarrow> rios n s = (True, s)"
  by (induction n) (simp_all add: no_faults_rio)

lemma no_faults_sync: "rsFaults s = [] \<Longrightarrow> syncRootDirectory s = (True, s)"
  by (simp add: syncRootDirectory_def no_faults_rios)

lemmas no_faults = no_faults_rio no_faults_rios no_faults_sync

text \<open>C12. Without faults, a version that the store does not hold is installed exactly when its name is a plain entry name
  without any of the characters slash, backslash, r, n, x and 0, and the umask leaves a new directory the mode 0755. So a
  version with a zero in its text, and every version under the umask 0077 of the shipped unit, is refused.\<close>

theorem Install_fresh_succeeds_iff:
  assumes "rsFaults s = []" and "map_of (rsVersions s) v = None"
  shows "fst (Install v a s) =
      (if path_base v = v \<and> \<not> contains_any v raw_name_chars \<and> and 493 (511 - rsUmask s) = 493
       then Some (versionTarget v) else None) \<and>
    (CHR ''0'' \<in> set v \<longrightarrow> fst (Install v a s) = None) \<and> (rsUmask s = 63 \<longrightarrow> fst (Install v a s) = None)"
proof -
  define m where "m = and 493 (511 - rsUmask s)"
  let ?e = "\<lambda>k. \<lparr>veNode = \<lparr>ndKind = Folder, ndMode = k, ndUid = 0, ndGid = 0, ndData = []\<rparr>, veBinary = None\<rparr>"
  let ?s = "\<lambda>k. s\<lparr>rsVersions := dir_put v (?e k) (rsVersions s)\<rparr>"
  have mk: "mkdirVersion v s = (True, ?s m)"
    using assms by (simp add: mkdirVersion_def no_faults m_def)
  have wr: "writeAtomicOwned v a 493 0 0 (?s k) =
      (True, (?s k)\<lparr>rsVersions := dir_put v ((?e k)\<lparr>veBinary := Some (owned_node 493 0 0 a)\<rparr>) (rsVersions (?s k))\<rparr>)" for k
    using assms(1) by (simp add: writeAtomicOwned_def no_faults)
  have small: "m mod 512 = m"
  proof -
    have "m mod 512 = and m (mask 9)"
      using take_bit_eq_mod [of 9 m] by (simp add: take_bit_eq_mask)
    also have "\<dots> = and (and 493 (mask 9)) (511 - rsUmask s)" unfolding m_def by (simp only: ac_simps)
    also have "and 493 (mask 9) = (493 :: nat)" by (simp add: mask_eq_exp_minus_1)
    finally show ?thesis by (simp add: m_def)
  qed
  have main: "fst (Install v a s) =
      (if path_base v = v \<and> \<not> contains_any v raw_name_chars \<and> m = 493 then Some (versionTarget v) else None)"
    using assms(1) unfolding Install_def no_faults_rio [OF assms(1)] mk Let_def prod.case
    by (simp add: no_faults perm_def small wr)
  moreover have "contains_any v raw_name_chars" if "CHR ''0'' \<in> set v"
    using that by (auto simp: contains_any_def raw_name_chars_def list_ex_iff)
  moreover have "and 493 (511 - 63) \<noteq> (493 :: nat)" by simp
  ultimately show ?thesis unfolding m_def by auto
qed

subsection \<open>Properties that every operation of a helper system keeps\<close>


locale helper_invariant =
  fixes sys :: "'s helper_system"
    and inv :: "'s \<Rightarrow> bool"
  assumes inv_current: "inv s \<Longrightarrow> hsCurrentTarget sys s = (t, s') \<Longrightarrow> inv s'"
    and inv_install: "inv s \<Longrightarrow> hsInstall sys v a s = (t, s') \<Longrightarrow> inv s'"
    and inv_switch: "inv s \<Longrightarrow> hsSwitch sys x s = (ok, s') \<Longrightarrow> inv s'"
    and inv_restart: "inv s \<Longrightarrow> hsRestart sys s = (ok, s') \<Longrightarrow> inv s'"
    and inv_proof: "inv s \<Longrightarrow> hsWaitProof sys p d s = (ok, s') \<Longrightarrow> inv s'"
    and inv_retain: "inv s \<Longrightarrow> hsRetain sys x y s = (ok, s') \<Longrightarrow> inv s'"
    and inv_write: "inv s \<Longrightarrow> hsWriteResult sys r s = (ok, s') \<Longrightarrow> inv s'"
begin

lemma inv_writeResult: "inv s \<Longrightarrow> writeResult sys r ok s = (res, ok', s') \<Longrightarrow> inv s'"
  using inv_write by (auto simp: writeResult_def split: prod.splits)

lemma inv_rollback:
  assumes "inv s" and "rollback sys x r s = (res, ok, s')"
  shows "inv s'"
proof -
  obtain b1 s1 where 1: "hsSwitch sys x s = (b1, s1)" by (metis surj_pair)
  obtain b2 s2 where 2: "hsRestart sys s1 = (b2, s2)" by (metis surj_pair)
  have "inv s2" using assms(1) 1 2 inv_switch inv_restart by blast
  then show ?thesis using assms(2) inv_writeResult by (simp add: rollback_def 1 2)
qed

lemma inv_finish:
  assumes "inv s" and "finishUpdate sys r x y d s = (res, ok, s')"
  shows "inv s'"
proof -
  obtain b1 s1 where 1: "hsRestart sys s = (b1, s1)" by (metis surj_pair)
  obtain b2 s2 where 2: "hsWaitProof sys (expectedProof r) (clampProofTimeout d) s1 = (b2, s2)" by (metis surj_pair)
  obtain b3 s3 where 3: "hsRetain sys y x s2 = (b3, s3)" by (metis surj_pair)
  have i: "inv s1" "inv s2" "inv s3" using assms(1) 1 2 3 inv_restart inv_proof inv_retain by blast+
  show ?thesis
    using assms(2) i unfolding finishUpdate_def Let_def 1 2 3 prod.case
    by (auto split: if_split_asm
        dest!: inv_rollback [OF i(1)] inv_rollback [OF i(2)] inv_rollback [OF i(3)] inv_writeResult [OF i(3)])
qed

lemma inv_apply:
  assumes "inv s" and "ApplyVerifiedUpdate (Some sys) r a d s = (res, ok, s')"
  shows "inv s'"
proof -
  obtain c s1 where 1: "hsCurrentTarget sys s = (c, s1)" by (metis surj_pair)
  obtain i s2 where 2: "hsInstall sys (mfVersion (urManifest r)) a s1 = (i, s2)" by (metis surj_pair)
  obtain b s3 where 3: "hsSwitch sys (the i) s2 = (b, s3)" by (metis surj_pair)
  have i: "inv s1" "inv s2" "inv s3" using assms(1) 1 2 3 inv_current inv_install inv_switch by blast+
  show ?thesis
    using assms unfolding ApplyVerifiedUpdate_def Let_def 1 2 3 prod.case option.case
    by (auto split: if_split_asm
        dest!: inv_finish [OF i(3)] inv_writeResult [OF i(1)] inv_writeResult [OF i(2)] inv_writeResult [OF i(3)])
qed

end

definition updates_frame :: "(bytes \<rightharpoonup> node) \<Rightarrow> root_sys \<Rightarrow> bool" where
  "updates_frame m s \<longleftrightarrow> (\<forall>n. n \<noteq> HelperResultFile \<longrightarrow> map_of (rsUpdates s) n = m n)"

interpretation root_updates: helper_invariant "rootHelperSystem C" "updates_frame m"
  for C m
proof (unfold_locales, unfold rootHelperSystem_simps)
  fix s s' and t :: "bytes option"
  assume "updates_frame m s" "CurrentTarget s = (t, s')"
  then show "updates_frame m s'" using CurrentTarget_law [of s t s'] by (simp add: updates_frame_def only_faults_def)
next
  fix v a s s' and t :: "bytes option"
  assume "updates_frame m s" "Install v a s = (t, s')"
  then show "updates_frame m s'" using Install_law [of v a s t s'] by (simp add: updates_frame_def only_version_def)
next
  fix x s ok s'
  assume "updates_frame m s" "SwitchLink x s = (ok, s')"
  then show "updates_frame m s'" using SwitchLink_law [of x s ok s'] by (simp add: updates_frame_def)
next
  fix s ok s'
  assume "updates_frame m s" "Restart s = (ok, s')"
  then show "updates_frame m s'" using Restart_law [of s ok s'] by (simp add: updates_frame_def)
next
  fix p d s ok s'
  assume "updates_frame m s" "WaitProof C p d s = (ok, s')"
  then show "updates_frame m s'" by (simp add: WaitProof_def)
next
  fix x y s ok s'
  assume "updates_frame m s" "Retain x y s = (ok, s')"
  then show "updates_frame m s'" using Retain_law [of x y s ok s'] by (simp add: updates_frame_def)
next
  fix r s ok s'
  assume a: "updates_frame m s" "WriteResult C r s = (ok, s')"
  have "writeAtomicOwnedAt HelperResultFile (encResult C r) 416 0 (rsAgentGID s) s = (ok, s')"
    using a(2) by (simp add: WriteResult_def)
  note law = writeAtomicOwnedAt_law [OF this]
  show "updates_frame m s'" using a(1) law by (auto simp: updates_frame_def)
qed

subsection \<open>Processing\<close>

lemma renameUpdate_frame:
  assumes "renameUpdate old new s = (r, s')"
  shows "rsLink s' = rsLink s \<and> rsVersions s' = rsVersions s \<and> root_env s' = root_env s"
proof -
  obtain b t where 1: "rio s = (b, t)" by (metis surj_pair)
  show ?thesis
    using assms rio_frame [OF 1] unfolding renameUpdate_def 1 Let_def prod.case
    by (auto simp: only_faults_def root_env_def split: option.split_asm if_split_asm)
qed

lemma moveRejected_frame:
  assumes "moveRejected s = (ok, s')"
  shows "rsLink s' = rsLink s \<and> rsVersions s' = rsVersions s"
proof -
  obtain b t where 1: "renameUpdate ClaimedRequestFile RejectedRequestFile s = (b, t)" by (metis surj_pair)
  show ?thesis
    using assms renameUpdate_frame [OF 1] rio_frame unfolding moveRejected_def 1 Let_def prod.case
    by (auto simp: only_faults_def split: if_split_asm)
qed

lemma rejectPendingUpdate_frame:
  assumes "rejectPendingUpdate C r e s = (out, s')"
  shows "rsLink s' = rsLink s \<and> rsVersions s' = rsVersions s \<and> (\<forall>res ok. out \<noteq> Applied res ok)"
proof -
  obtain b t where 1: "moveRejected s = (b, t)" by (metis surj_pair)
  obtain c u where 2: "WriteResult C (rejectedResult r) t = (c, u)" by (metis surj_pair)
  have "writeAtomicOwnedAt HelperResultFile (encResult C (rejectedResult r)) 416 0 (rsAgentGID t) t = (c, u)"
    using 2 by (simp add: WriteResult_def)
  note w = writeAtomicOwnedAt_law [OF this]
  show ?thesis
    using assms moveRejected_frame [OF 1] w
    unfolding rejectPendingUpdate_def quarantineUncorrelatedUpdate_def 1 2 Let_def prod.case
    by (auto split: if_split_asm)
qed

text \<open>An applied request was validated against the state it was applied in.\<close>

lemma runClaimed_cases:
  assumes "runClaimed V pl f g opts s = (out, s')"
  shows "(rsLink s' = rsLink s \<and> rsVersions s' = rsVersions s \<and> (\<forall>res ok. out \<noteq> Applied res ok)) \<or>
    (\<exists>body r a res ok. out = Applied res ok \<and>
      readFixedOwnedFileAt f (rsUpdates s) ClaimedRequestFile (hoAgentUID opts) (hoAgentGID opts) 384 131072 = Inr body \<and>
      DecodeUpdateRequest (vCodec V) body = Inr r \<and>
      ValidateUpdateRequest V g body (helper_request_options (fst pl) (snd pl) opts (rsUpdates s)) = Inr (r, a) \<and>
      ApplyVerifiedUpdate (Some (rootHelperSystem (vCodec V))) r a (hoProofTimeout opts) s = (res, ok, s'))"
proof -
  have q: "rsLink s' = rsLink s \<and> rsVersions s' = rsVersions s \<and> (\<forall>res ok. out \<noteq> Applied res ok)"
    if "quarantineUncorrelatedUpdate s = (out, s')"
    using that moveRejected_frame by (auto simp: quarantineUncorrelatedUpdate_def split: prod.splits)
  show ?thesis
  proof (cases "readFixedOwnedFileAt f (rsUpdates s) ClaimedRequestFile (hoAgentUID opts) (hoAgentGID opts) 384 131072")
    case (Inl e)
    then show ?thesis using assms q by (simp add: runClaimed_def)
  next
    case body: (Inr body)
    show ?thesis
    proof (cases "DecodeUpdateRequest (vCodec V) body")
      case (Inl e)
      then show ?thesis using assms body q by (simp add: runClaimed_def)
    next
      case dec: (Inr r)
      show ?thesis
      proof (cases "ValidateUpdateRequest V g body (helper_request_options (fst pl) (snd pl) opts (rsUpdates s))")
        case (Inl e)
        then have rej: "rejectPendingUpdate (vCodec V) r e s = (out, s')" using assms body dec by (simp add: runClaimed_def)
        show ?thesis using rejectPendingUpdate_frame [OF rej] by simp
      next
        case val: (Inr ra)
        obtain r' a where ra: "ra = (r', a)" by (metis surj_pair)
        have "DecodeUpdateRequest (vCodec V) body = Inr r'"
          by (rule ValidateUpdateRequest_Inr [OF val [unfolded ra]])
        then have "r' = r" using dec by (metis sum.inject(2))
        obtain res ok t where
          ap: "ApplyVerifiedUpdate (Some (rootHelperSystem (vCodec V))) r' a (hoProofTimeout opts) s = (res, ok, t)"
          using prod_cases3 by blast
        have "out = Applied res ok \<and> s' = t" using assms body dec val ra ap by (simp add: runClaimed_def)
        then show ?thesis using body dec val ra ap \<open>r' = r\<close> by blast
      qed
    qed
  qed
qed


lemma processPendingUpdate_cases:
  assumes "processPendingUpdate V pl f g opts s = (out, s')"
  shows "(rsLink s' = rsLink s \<and> rsVersions s' = rsVersions s \<and> (\<forall>res ok. out \<noteq> Applied res ok)) \<or>
    (\<exists>t. rsLink t = rsLink s \<and> rsVersions t = rsVersions s \<and> runClaimed V pl f g opts t = (out, s'))"
proof -
  obtain c s1 where 1: "fileExistsAt ClaimedRequestFile s = (c, s1)" by (metis surj_pair)
  obtain b s2 where 2: "renameUpdate PendingRequestFile ClaimedRequestFile s1 = (b, s2)" by (metis surj_pair)
  obtain d s3 where 3: "rio s2 = (d, s3)" by (metis surj_pair)
  have "only_faults s s1"
    using 1 rio_frame by (auto simp: fileExistsAt_def Let_def split: prod.splits if_splits)
  then have f1: "rsLink s1 = rsLink s" "rsVersions s1 = rsVersions s" by (simp_all add: only_faults_def)
  have f2: "rsLink s2 = rsLink s" "rsVersions s2 = rsVersions s" using renameUpdate_frame [OF 2] f1 by simp_all
  have f3: "rsLink s3 = rsLink s" "rsVersions s3 = rsVersions s" using rio_frame [OF 3] f2 by (simp_all add: only_faults_def)
  have run: "(case c of None \<Rightarrow> (ProcessFailed, s1) | Some True \<Rightarrow> runClaimed V pl f g opts s1
      | Some False \<Rightarrow> (case b of None \<Rightarrow> (NothingPending, s2) | Some False \<Rightarrow> (ProcessFailed, s2)
          | Some True \<Rightarrow> if \<not> d then (ProcessFailed, s3) else runClaimed V pl f g opts s3)) = (out, s')"
    using assms unfolding processPendingUpdate_def 1 2 3 Let_def prod.case .
  consider "(out, s') \<in> {(ProcessFailed, s1), (NothingPending, s2), (ProcessFailed, s2), (ProcessFailed, s3)}"
    | "runClaimed V pl f g opts s1 = (out, s')" | "runClaimed V pl f g opts s3 = (out, s')"
    using run by (auto split: option.split_asm bool.split_asm if_split_asm)
  then show ?thesis
    using f1 f2 f3 by cases auto
qed

lemma installable_semver: "parseSemver v \<noteq> None \<Longrightarrow> root_installable v"
  by (auto simp: root_installable_def parseSemver_def split_char_def trim_prefix_def has_prefix_def semver_part_def
      split: list.splits option.splits)

lemma ValidateUpdateRequest_version:
  assumes "ValidateUpdateRequest V f body o' = Inr (r, artifact)"
  shows "\<exists>v w. parseSemver (mfVersion (urManifest r)) = Some v \<and> parseSemver (roCurrentVersion o') = Some w \<and> semver_less w v"
    and "identity_ok r o'"
proof -
  obtain s p where 1: "VerifyManifest (vCrypto V) (vParseURL V) (roPublicKey o') \<lparr>smManifest = urManifest r, smSignature = s\<rparr>
       (manifest_options o' p artifact) = None"
    by (rule ValidateUpdateRequest_Inr [OF assms])
  then show "\<exists>v w. parseSemver (mfVersion (urManifest r)) = Some v \<and> parseSemver (roCurrentVersion o') = Some w \<and> semver_less w v"
    using VerifyManifest_None_parts(2) [OF 1] by (auto simp: checkVersions_None manifest_options_def)
  show "identity_ok r o'" by (rule ValidateUpdateRequest_Inr [OF assms])
qed



lemma readFixedOwnedFileAt_cong:
  "map_of d n = map_of d' n \<Longrightarrow> readFixedOwnedFileAt f d n u g m l = readFixedOwnedFileAt f d' n u g m l"
  by (simp add: readFixedOwnedFileAt_def open_node_def)

lemma readFixedOwnedFileAt_exists: "readFixedOwnedFileAt f d n u g m l = Inr b \<Longrightarrow> map_of d n \<noteq> None"
  by (auto simp: readFixedOwnedFileAt_def open_node_def split: if_splits option.splits)

lemma Validate_safe: "ValidateUpdateRequest V g body o' = Inr (r, a) \<Longrightarrow> safeBasename (urArtifactBasename r)"
  by (auto simp: ValidateUpdateRequest_def split: sum.splits if_splits option.splits)

lemma file_names_safe: "safeBasename HelperResultFile"
  by code_simp

lemma rejectPendingUpdate_no_faults:
  assumes "rsFaults s = []" and "map_of (rsUpdates s) ClaimedRequestFile \<noteq> None" and "canonicalUUID (urCommandID r)"
    and "\<exists>n\<in>set (take 16 (rsNames s)). map_of (rsUpdates s) n = None \<and> n \<noteq> RejectedRequestFile"
  shows "\<exists>s'. rejectPendingUpdate C r e s = (Rejected e True, s') \<and> root_written s' = Some (encResult C (rejectedResult r)) \<and>
    map_of (rsUpdates s') ClaimedRequestFile = None \<and> rsLink s' = rsLink s \<and> rsVersions s' = rsVersions s"
proof -
  obtain n where n: "map_of (rsUpdates s) ClaimedRequestFile = Some n" using assms(2) by blast
  let ?u = "dir_put RejectedRequestFile n (dir_remove ClaimedRequestFile (rsUpdates s))"
  have mv: "moveRejected s = (True, s\<lparr>rsUpdates := ?u\<rparr>)"
    using assms(1) n by (simp add: moveRejected_def renameUpdate_def no_faults)
  obtain t where t: "temporaryName (s\<lparr>rsUpdates := ?u\<rparr>) = Some t"
  proof (cases "temporaryName (s\<lparr>rsUpdates := ?u\<rparr>)")
    case None
    then have "\<forall>k\<in>set (take 16 (rsNames s)). map_of ?u k \<noteq> None"
      by (simp only: temporaryName_def find_None_all) simp
    then show thesis using assms(4) by (auto split: if_splits)
  qed
  have wr: "WriteResult C (rejectedResult r) (s\<lparr>rsUpdates := ?u\<rparr>) =
      (True, s\<lparr>rsUpdates := dir_put HelperResultFile (owned_node 416 0 (rsAgentGID s) (encResult C (rejectedResult r))) ?u\<rparr>)"
    using assms(1) t by (simp add: WriteResult_def writeAtomicOwnedAt_def file_names_safe no_faults)
  show ?thesis
    using assms(3) unfolding rejectPendingUpdate_def mv Let_def prod.case wr
    by (simp add: root_written_def owned_node_def update_files)
qed

text \<open>The claimed request stays in the update directory after it has been applied, and the next run of the helper, which
  finds another installed version, rejects it: it overwrites the durable result of the first
  run, whatever that was, by a rejection. (The shipped path unit starts the helper again for as long as the claimed
  request exists.)\<close>

theorem applied_request_is_then_rejected:
  assumes run: "processPendingUpdate V pl f g opts s = (Applied res ok, s1)"
    and version: "v \<noteq> hoCurrentVersion opts"
    and faults: "rsFaults s1 = []"
    and names: "\<exists>n\<in>set (take 16 (rsNames s1)). map_of (rsUpdates s1) n = None \<and> n \<noteq> RejectedRequestFile"
  shows "\<exists>r s2. processPendingUpdate V pl f g (opts\<lparr>hoCurrentVersion := v\<rparr>) s1 = (Rejected RequestIdentity True, s2) \<and>
    root_written s2 = Some (encResult (vCodec V) (rejectedResult r)) \<and>
    map_of (rsUpdates s2) ClaimedRequestFile = None \<and> rsLink s2 = rsLink s1"
proof -
  let ?opts = "opts\<lparr>hoCurrentVersion := v\<rparr>"
  obtain t where "runClaimed V pl f g opts t = (Applied res ok, s1)"
    using processPendingUpdate_cases [OF run] by blast
  from runClaimed_cases [OF this] obtain body r a where
    body: "readFixedOwnedFileAt f (rsUpdates t) ClaimedRequestFile (hoAgentUID opts) (hoAgentGID opts) 384 131072 = Inr body"
    and dec: "DecodeUpdateRequest (vCodec V) body = Inr r"
    and val: "ValidateUpdateRequest V g body (helper_request_options (fst pl) (snd pl) opts (rsUpdates t)) = Inr (r, a)"
    and ap: "ApplyVerifiedUpdate (Some (rootHelperSystem (vCodec V))) r a (hoProofTimeout opts) t = (res, ok, s1)"
    by auto
  have "updates_frame (map_of (rsUpdates t)) s1"
    by (rule root_updates.inv_apply [OF _ ap]) (simp add: updates_frame_def)
  then have same: "map_of (rsUpdates s1) ClaimedRequestFile = map_of (rsUpdates t) ClaimedRequestFile"
    by (simp add: updates_frame_def update_files)
  have read: "readFixedOwnedFileAt f (rsUpdates s1) ClaimedRequestFile (hoAgentUID opts) (hoAgentGID opts) 384 131072 = Inr body"
    using body same readFixedOwnedFileAt_cong by metis
  have ex: "map_of (rsUpdates s1) ClaimedRequestFile \<noteq> None" using readFixedOwnedFileAt_exists [OF body] same by simp
  have prev: "urPreviousVersion r = hoCurrentVersion opts" "canonicalUUID (urCommandID r)"
    using ValidateUpdateRequest_version(2) [OF val] by (simp_all add: identity_ok_def helper_request_options_def)
  have bad: "ValidateUpdateRequest V g body (helper_request_options (fst pl) (snd pl) ?opts (rsUpdates s1)) = Inl RequestIdentity"
    using dec Validate_safe [OF val] prev(1) version
    by (simp add: ValidateUpdateRequest_def identity_ok_def helper_request_options_def)
  have "processPendingUpdate V pl f g ?opts s1 = rejectPendingUpdate (vCodec V) r RequestIdentity s1"
    using ex read dec bad by (auto simp: processPendingUpdate_def fileExistsAt_def no_faults_rio [OF faults] runClaimed_def)
  then show ?thesis
    using rejectPendingUpdate_no_faults [OF faults ex prev(2) names, of "vCodec V" RequestIdentity] by auto
qed


subsection \<open>A concrete update\<close>

definition sample_entry :: version_entry where
  "sample_entry = \<lparr>veNode = \<lparr>ndKind = Folder, ndMode = 493, ndUid = 0, ndGid = 0, ndData = []\<rparr>,
     veBinary = Some (owned_node 493 0 0 ''old'')\<rparr>"

definition sample_root :: root_sys where
  "sample_root = \<lparr>rsLink = Some (versionTarget ''1.2.2''), rsVersions = [(''1.2.2'', sample_entry)],
     rsUpdates = sample_updates,
     rsProof = None, rsPolls = [None, Some (owned_node 384 7 8 ''p'')], rsAgentUID = 7, rsAgentGID = 8, rsBootID = ''b'', rsUmask = 18,
     rsNames = [''t''], rsFaults = []\<rparr>"

definition sample_root_options :: root_options where
  "sample_root_options = \<lparr>hoPublicKey = sample_public, hoCommandPublicKey = sample_public, hoCurrentVersion = ''1.2.2'',
     hoControlVersion = ''1'', hoAgentID = sample_uuid, hoAgentUID = 7, hoAgentGID = 8, hoProofTimeout = 0, hoNow = 150\<rparr>"

lemma plain_samples: "plain_name ''1.2.2''" "plain_name ''1.2.3''"
  by (simp_all add: plain_name_def)

lemma sample_target: "versionTarget ''1.2.3'' \<noteq> versionTarget ''1.2.2''" "versionTarget ''1.2.3'' \<noteq> []" "versionTarget ''1.2.2'' \<noteq> []"
  using versionTarget_plain plain_samples by (simp_all add: store_path_def)

definition sample_installed :: root_sys where
  "sample_installed =
     (let e = sample_entry\<lparr>veBinary := None\<rparr> in
      sample_root\<lparr>rsVersions := dir_put ''1.2.3'' (e\<lparr>veBinary := Some (owned_node 493 0 0 ''abc'')\<rparr>)
        (dir_put ''1.2.3'' e (rsVersions sample_root))\<rparr>)"

lemma sample_install: "Install ''1.2.3'' ''abc'' sample_root = (Some (versionTarget ''1.2.3''), sample_installed)"
proof -
  have name: "path_base ''1.2.3'' = ''1.2.3''" "\<not> contains_any ''1.2.3'' raw_name_chars" by code_simp+
  have f: "rsFaults sample_root = []" "map_of (rsVersions sample_root) ''1.2.3'' = None"
    and e: "and 493 (511 - rsUmask sample_root) = 493"
    by (simp_all add: sample_root_def)
  have mk: "mkdirVersion ''1.2.3'' sample_root =
      (True, sample_root\<lparr>rsVersions := dir_put ''1.2.3'' (sample_entry\<lparr>veBinary := None\<rparr>) (rsVersions sample_root)\<rparr>)"
    using f e by (simp add: mkdirVersion_def no_faults sample_entry_def)
  show ?thesis
    using f name unfolding Install_def mk no_faults_rio [OF f(1)] Let_def prod.case
    by (simp add: no_faults writeAtomicOwned_def perm_def sample_installed_def sample_entry_def)
qed

lemma retainEntries_kept: "fst ` set es \<subseteq> set keep \<Longrightarrow> retainEntries keep es s = (True, s)"
  by (induction es) auto

definition sample_after :: "helper_result \<Rightarrow> root_sys" where
  "sample_after res = sample_installed\<lparr>rsLink := Some (versionTarget ''1.2.3''), rsProof := None,
     rsUpdates := dir_put HelperResultFile (owned_node 416 0 8 (encResult sample_codec res)) (rsUpdates sample_root)\<rparr>"

definition sample_success :: helper_result where
  "sample_success = (initialResult sample_request)\<lparr>hrState := ''succeeded'', hrCode := ''upgrade_applied''\<rparr>"

lemma sample_apply:
  "ApplyVerifiedUpdate (Some (rootHelperSystem sample_codec)) sample_request ''abc'' 0 sample_root =
     (sample_success, True, sample_after sample_success)"
proof -
  have v: "mfVersion (urManifest sample_request) = ''1.2.3''"
    by (simp add: sample_request_def sample_release_def sample_manifest_def)
  note vt = validVersionTarget_version [OF plain_samples(1)] validVersionTarget_version [OF plain_samples(2)]
  have cur: "CurrentTarget sample_root = (Some (versionTarget ''1.2.2''), sample_root)"
    using vt by (simp add: CurrentTarget_def rio_def sample_root_def)
  have flt: "rsFaults sample_installed = []" by (simp add: sample_installed_def sample_root_def Let_def)
  let ?s = "sample_installed\<lparr>rsLink := Some (versionTarget ''1.2.3'')\<rparr>"
  have sw: "SwitchLink (versionTarget ''1.2.3'') sample_installed = (True, ?s)"
    using vt flt by (simp add: SwitchLink_def no_faults)
  have rs: "Restart ?s = (True, ?s\<lparr>rsProof := None\<rparr>)"
    using flt by (simp add: Restart_def no_faults)
  have names: "safeBasename UpgradeProofFile" "HelperResultFile \<noteq> ''t''" by code_simp+
  have proof_: "readFixedOwnedFile (Some (owned_node 384 7 8 ''p'')) UpgradeProofFile 7 8 384 16384 = Inr ''p''"
    using names(1) by (simp add: readFixedOwnedFile_def readFixedOwnedFileAt_def open_node_def all_io_def owned_node_def perm_def)
  have wp: "WaitProof sample_codec (expectedProof sample_request) (clampProofTimeout 0) (?s\<lparr>rsProof := None\<rparr>) =
      (True, ?s\<lparr>rsProof := None\<rparr>)"
    using proof_ v
    by (simp add: WaitProof_def clampProofTimeout_def sample_installed_def sample_root_def Let_def pollProof_def
        decodeStrictJSON_def sample_codec_def validUpgradeProof_def expectedProof_def)
      (simp add: sample_request_def)
  have keep: "fst ` set (rsVersions (?s\<lparr>rsProof := None\<rparr>)) \<subseteq> set (retain_keep (versionTarget ''1.2.3'') (versionTarget ''1.2.2''))"
    using vt by (auto simp: retain_keep_def sample_installed_def Let_def set_dir_put sample_root_def)
  have rt: "Retain (versionTarget ''1.2.3'') (versionTarget ''1.2.2'') (?s\<lparr>rsProof := None\<rparr>) = (True, ?s\<lparr>rsProof := None\<rparr>)"
    using flt by (simp add: Retain_def no_faults retainEntries_kept [OF keep, simplified])
  have wr: "WriteResult sample_codec sample_success (?s\<lparr>rsProof := None\<rparr>) = (True, sample_after sample_success)"
    using flt by (simp add: WriteResult_def writeAtomicOwnedAt_def file_names_safe no_faults temporaryName_def
        sample_after_def sample_installed_def sample_root_def sample_updates_def Let_def)
  show ?thesis
    unfolding ApplyVerifiedUpdate_def finishUpdate_def rootHelperSystem_simps option.case Let_def cur v sample_install prod.case
    using sample_target
    by (simp add: rootHelperSystem_simps sw rs wp rt writeResult_def wr flip: sample_success_def)
qed


lemma sample_process:
  "processPendingUpdate sample_verifier (''linux'', ''amd64'') all_io all_io sample_root_options sample_root =
     (Applied sample_success True, sample_after sample_success)"
proof -
  have flt: "rsFaults sample_root = []" by (simp add: sample_root_def)
  have safe: "safeBasename ClaimedRequestFile" by code_simp
  have claimed: "map_of (rsUpdates sample_root) ClaimedRequestFile = Some (sample_artifact_node\<lparr>ndData := ''r''\<rparr>)"
    by (simp add: sample_root_def sample_updates_def update_files)
  have read: "readFixedOwnedFileAt all_io (rsUpdates sample_root) ClaimedRequestFile 7 8 384 131072 = Inr ''r''"
    using safe claimed
    by (simp add: readFixedOwnedFileAt_def open_node_def all_io_def perm_def sample_artifact_node_def)
  have dec: "DecodeUpdateRequest sample_codec ''r'' = Inr sample_request"
    by (simp add: DecodeUpdateRequest_def sample_codec_def)
  have opts: "helper_request_options ''linux'' ''amd64'' sample_root_options (rsUpdates sample_root) = sample_request_options"
    by (simp add: helper_request_options_def sample_root_options_def sample_root_def sample_request_options_def)
  have fields: "hoAgentUID sample_root_options = 7" "hoAgentGID sample_root_options = 8"
    "hoProofTimeout sample_root_options = 0" "vCodec sample_verifier = sample_codec"
    by (simp_all add: sample_root_options_def sample_verifier_def)
  show ?thesis
    by (simp add: processPendingUpdate_def fileExistsAt_def no_faults_rio [OF flt] claimed runClaimed_def fields read dec opts
        sample_request_accepted sample_apply)
qed


theorem applied_request_is_then_rejected_witness:
  "\<exists>r s2. processPendingUpdate sample_verifier (''linux'', ''amd64'') all_io all_io
       (sample_root_options\<lparr>hoCurrentVersion := ''1.2.3''\<rparr>) (sample_after sample_success) = (Rejected RequestIdentity True, s2) \<and>
     root_written s2 = Some (encResult (vCodec sample_verifier) (rejectedResult r)) \<and>
     map_of (rsUpdates s2) ClaimedRequestFile = None \<and> rsLink s2 = rsLink (sample_after sample_success)"
  by (rule applied_request_is_then_rejected [OF sample_process])
    (simp_all add: sample_root_options_def sample_after_def sample_installed_def sample_root_def sample_updates_def Let_def
      update_files)

theorem Install_fresh_succeeds_iff_witness:
  "fst (Install ''2.0.0'' ''binary'' sample_root) = None \<and> fst (Install ''2.1.1'' ''binary'' (sample_root\<lparr>rsUmask := 63\<rparr>)) = None"
proof
  have "rsFaults sample_root = []" "map_of (rsVersions sample_root) ''2.0.0'' = None" by (simp_all add: sample_root_def)
  from Install_fresh_succeeds_iff [OF this, of "''binary''"]
  have "CHR ''0'' \<in> set ''2.0.0'' \<longrightarrow> fst (Install ''2.0.0'' ''binary'' sample_root) = None" by blast
  then show "fst (Install ''2.0.0'' ''binary'' sample_root) = None" by simp
next
  let ?s = "sample_root\<lparr>rsUmask := 63\<rparr>"
  have "rsFaults ?s = []" "map_of (rsVersions ?s) ''2.1.1'' = None" by (simp_all add: sample_root_def)
  from Install_fresh_succeeds_iff [OF this, of "''binary''"] have "rsUmask ?s = 63 \<longrightarrow> fst (Install ''2.1.1'' ''binary'' ?s) = None" by blast
  then show "fst (Install ''2.1.1'' ''binary'' ?s) = None" by simp
qed

end
