(* ===== verification/CommandExecutor.thy ===== *)
theory CommandExecutor
  imports ControlProto
begin

text \<open>
  \<open>internal/agent/commands.go\<close>: the Agent's command executor. It runs each signed command
  at most once in sequence order, keeps a durable record of what it saw and returns the stored
  result for a repeated command. The state file is the field \<open>exDisk\<close>; the outcomes of the
  next writes of it are the list \<open>exWrites\<close> (an exhausted list means the write succeeds); the
  handlers that ran and the callbacks invoked after the last write are logged in \<open>exTrace\<close>.
\<close>

subsection \<open>State\<close>

record outcome =
  oCode :: bytes
  oData :: bytes
  oFailed :: bool
  oPending :: bool
  oAfterPersist :: bool

datatype handler_result = Returned outcome | Panicked

type_synonym handler = "command \<Rightarrow> handler_result"

record command_record =
  crCommandID :: bytes
  crSequence :: uint64
  crDigest :: bytes
  crState :: bytes
  crResult :: command_result

record executor_state =
  esVersion :: bytes
  esHighestSeen :: uint64
  esHighestCompleted :: uint64
  esRecords :: "command_record list"

text \<open>A write of the state file succeeds, fails before the rename, or fails when the directory is
  synced after it.\<close>

datatype write_outcome = WriteDone | WriteFailed | SyncFailed

datatype effect = HandlerRan bytes uint64 | AfterPersistRan bytes

record executor =
  exAgentID :: bytes
  exPublicKey :: bytes
  exHandlers :: "action \<rightharpoonup> handler"
  exState :: executor_state
  exCurrentID :: bytes
  exCompleted :: uint64
  exDisk :: "executor_state option"
  exWrites :: "write_outcome list"
  exTrace :: "effect list"

definition emptyObject :: bytes where "emptyObject = ''{}''"

subsection \<open>Helpers\<close>

definition failedCommandResult :: "command \<Rightarrow> bytes \<Rightarrow> command_result" where
  "failedCommandResult command code =
     \<lparr>rControlVersion = Version, rType = ''command_result'', rCommandID = cCommandID command,
      rSequence = cSequence command, rState = ''failed'', rCode = code, rData = emptyObject\<rparr>"

definition terminalCommandState :: "bytes \<Rightarrow> bool" where
  "terminalCommandState state \<longleftrightarrow> state = ''succeeded'' \<or> state = ''failed''"

definition commandDigest :: "crypto \<Rightarrow> command \<Rightarrow> bytes" where
  "commandDigest c command = hex_encode (sha256 c (SigningBytes c command))"

text \<open>Sequences in a state are distinct, so any sort by sequence gives the same list.\<close>

definition trimRecords :: "command_record list \<Rightarrow> command_record list" where
  "trimRecords rs =
     (if length rs \<le> 256 then rs
      else let sorted = sort_key crSequence rs in drop (length sorted - 256) sorted)"

definition persist :: "executor \<Rightarrow> bool \<times> executor" where
  "persist e =
     (case exWrites e of
        [] \<Rightarrow> (True, e\<lparr>exDisk := Some (exState e)\<rparr>)
      | WriteDone # ws \<Rightarrow> (True, e\<lparr>exDisk := Some (exState e), exWrites := ws\<rparr>)
      | WriteFailed # ws \<Rightarrow> (False, e\<lparr>exWrites := ws\<rparr>)
      | SyncFailed # ws \<Rightarrow> (False, e\<lparr>exDisk := Some (exState e), exWrites := ws\<rparr>))"

definition set_record :: "nat \<Rightarrow> command_record \<Rightarrow> executor \<Rightarrow> executor" where
  "set_record i r e =
     e\<lparr>exState := (exState e)\<lparr>esRecords := (esRecords (exState e))[i := r]\<rparr>\<rparr>"

fun record_index :: "bytes \<Rightarrow> command_record list \<Rightarrow> nat option" where
  "record_index cid [] = None"
| "record_index cid (r # rs) =
     (if crCommandID r = cid then Some 0 else map_option Suc (record_index cid rs))"

text \<open>\<open>recover\<close> turns a panic of the handler into a failed outcome.\<close>

definition callCommandHandler :: "handler \<Rightarrow> command \<Rightarrow> outcome" where
  "callCommandHandler h command =
     (case h command of
        Returned out \<Rightarrow> out
      | Panicked \<Rightarrow> \<lparr>oCode = ''handler_failed'', oData = emptyObject, oFailed = True,
                    oPending = False, oAfterPersist = False\<rparr>)"

definition rejectConflict :: "outcome \<Rightarrow> outcome" where
  "rejectConflict out =
     (if oPending out \<and> oFailed out
      then \<lparr>oCode = ''invalid_handler_result'', oData = emptyObject, oFailed = True,
            oPending = False, oAfterPersist = False\<rparr>
      else out)"

definition outcomeState :: "outcome \<Rightarrow> bytes" where
  "outcomeState out =
     (if oPending out then ''running'' else if oFailed out then ''failed'' else ''succeeded'')"

definition limitOutcome :: "(bytes \<Rightarrow> bool) \<Rightarrow> bytes \<Rightarrow> outcome \<Rightarrow> bytes \<times> outcome" where
  "limitOutcome jv state out =
     (if 128 < length (oCode out) \<or> 16 * 1024 < length (oData out) \<or>
         (oData out \<noteq> [] \<and> \<not> jv (oData out))
      then (''failed'', out\<lparr>oCode := ''invalid_handler_result'', oData := emptyObject,
                            oPending := False\<rparr>)
      else (state, out))"

definition normalizeOutcome :: "(bytes \<Rightarrow> bool) \<Rightarrow> outcome \<Rightarrow> bytes \<times> outcome" where
  "normalizeOutcome jv out =
     (let out = rejectConflict out;
          state = outcomeState out;
          out = (if oCode out = [] then out\<lparr>oCode := state\<rparr> else out);
          (state, out) = limitOutcome jv state out;
          out = (if oData out = [] then out\<lparr>oData := emptyObject\<rparr> else out)
      in (state, out))"

subsection \<open>Running one recorded command\<close>

definition finishCommand ::
    "(bytes \<Rightarrow> bool) \<Rightarrow> executor \<Rightarrow> command \<Rightarrow> nat \<Rightarrow> outcome \<Rightarrow> command_result \<times> executor" where
  "finishCommand jv e command index raw =
     (let (state, out) = normalizeOutcome jv raw;
          result = \<lparr>rControlVersion = Version, rType = ''command_result'',
                    rCommandID = cCommandID command, rSequence = cSequence command,
                    rState = state, rCode = oCode out, rData = oData out\<rparr>;
          r = (esRecords (exState e) ! index)\<lparr>crState := state, crResult := result\<rparr>;
          e = set_record index r e;
          e = (if \<not> oPending out \<and> esHighestCompleted (exState e) < cSequence command
               then e\<lparr>exState := (exState e)\<lparr>esHighestCompleted := cSequence command\<rparr>\<rparr> else e);
          (ok, e) = persist e
      in if \<not> ok then (failedCommandResult command ''state_write_failed'', e)
         else
           let e = e\<lparr>exCompleted := esHighestCompleted (exState e)\<rparr>;
               e = (if oAfterPersist out \<and> \<not> oPending out
                    then e\<lparr>exTrace := exTrace e @ [AfterPersistRan (cCommandID command)]\<rparr> else e)
           in (result, e))"

definition resumeLocked ::
    "(bytes \<Rightarrow> bool) \<Rightarrow> executor \<Rightarrow> command \<Rightarrow> nat \<Rightarrow> command_result \<times> executor" where
  "resumeLocked jv e command index =
     (case exHandlers e (cAction command) of
        None \<Rightarrow> (failedCommandResult command ''unsupported_action'', e)
      | Some handler \<Rightarrow>
          let previous = esRecords (exState e) ! index;
              r = previous\<lparr>crState := ''running'',
                           crResult := (crResult previous)\<lparr>rState := ''running'', rCode := ''running''\<rparr>\<rparr>;
              (ok, e) = persist (set_record index r e)
          in if \<not> ok then
               (failedCommandResult command ''state_write_failed'', set_record index previous e)
             else
               let e = e\<lparr>exCurrentID := cCommandID command\<rparr>;
                   out = callCommandHandler handler command;
                   e = e\<lparr>exTrace := exTrace e @ [HandlerRan (cCommandID command) (cSequence command)], exCurrentID := []\<rparr>
               in finishCommand jv e command index out)"

subsection \<open>\<open>Execute\<close>\<close>

definition acceptedRecord :: "command \<Rightarrow> bytes \<Rightarrow> command_record" where
  "acceptedRecord command digest =
     \<lparr>crCommandID = cCommandID command, crSequence = cSequence command, crDigest = digest,
      crState = ''accepted'',
      crResult = \<lparr>rControlVersion = Version, rType = ''command_result'',
                  rCommandID = cCommandID command, rSequence = cSequence command,
                  rState = ''accepted'', rCode = ''accepted'', rData = emptyObject\<rparr>\<rparr>"

definition acceptCommand ::
    "crypto \<Rightarrow> (bytes \<Rightarrow> bool) \<Rightarrow> int64 \<Rightarrow> executor \<Rightarrow> command \<Rightarrow> command_result \<times> executor" where
  "acceptCommand c jv now e command =
     (if now + 60 <s cIssuedAt command then (failedCommandResult command ''issued_in_future'', e)
      else if cExpiresAt command \<le>s now \<or> cExpiresAt command \<le>s cIssuedAt command
      then (failedCommandResult command ''expired'', e)
      else if cSequence command \<le> esHighestSeen (exState e)
      then (failedCommandResult command ''stale_sequence'', e)
      else if exHandlers e (cAction command) = None
      then (failedCommandResult command ''unsupported_action'', e)
      else
        let st = exState e;
            st = st\<lparr>esHighestSeen := cSequence command,
                    esRecords := trimRecords (esRecords st @
                      [acceptedRecord command (commandDigest c command)])\<rparr>;
            (ok, e) = persist (e\<lparr>exState := st\<rparr>)
        in if \<not> ok then (failedCommandResult command ''state_write_failed'', e)
           else case record_index (cCommandID command) (esRecords (exState e)) of
             Some index \<Rightarrow> resumeLocked jv e command index
           | None \<Rightarrow> (failedCommandResult command ''state_write_failed'', e))"

definition Execute ::
    "crypto \<Rightarrow> (bytes \<Rightarrow> bool) \<Rightarrow> int64 \<Rightarrow> executor \<Rightarrow> command \<Rightarrow> command_result \<times> executor" where
  "Execute c jv now e command =
     (if cControlVersion command \<noteq> Version \<or> cType command \<noteq> ''command'' \<or>
         TTL (cAction command) \<le> 0 \<or> \<not> jv (cPayload command)
      then (failedCommandResult command ''invalid_command'', e)
      else if VerifyCommand c (exPublicKey e) command \<noteq> None
      then (failedCommandResult command ''invalid_signature'', e)
      else if cAgentID command \<noteq> exAgentID e
      then (failedCommandResult command ''wrong_agent'', e)
      else case record_index (cCommandID command) (esRecords (exState e)) of
        Some index \<Rightarrow>
          let r = esRecords (exState e) ! index in
          if crSequence r \<noteq> cSequence command \<or> crDigest r \<noteq> commandDigest c command
          then (failedCommandResult command ''duplicate_mismatch'', e)
          else if terminalCommandState (crState r) then (crResult r, e)
          else resumeLocked jv e command index
      | None \<Rightarrow> acceptCommand c jv now e command)"

subsection \<open>Opening the executor\<close>

datatype 'a file_read = FileMissing | FileError | FileText "'a json_doc"

datatype open_error =
    OpenRequirements
  | OpenDirectory
  | OpenHandlers
  | OpenRead
  | OpenDecode
  | OpenInvalid

definition loadState :: "executor_state file_read \<Rightarrow> executor_state \<Rightarrow> open_error + executor_state" where
  "loadState file initial =
     (case file of
        FileMissing \<Rightarrow> Inr initial
      | FileError \<Rightarrow> Inl OpenRead
      | FileText doc \<Rightarrow> (case ensureEOF doc of
          Inl _ \<Rightarrow> Inl OpenDecode
        | Inr state \<Rightarrow>
            if esVersion state \<noteq> ''1'' \<or> 256 < length (esRecords state) then Inl OpenInvalid
            else Inr state))"

definition initialState :: executor_state where
  "initialState = \<lparr>esVersion = ''1'', esHighestSeen = 0, esHighestCompleted = 0, esRecords = []\<rparr>"

fun addHandlers ::
    "(action \<times> handler option) list \<Rightarrow> (action \<rightharpoonup> handler) \<Rightarrow> open_error + (action \<rightharpoonup> handler)" where
  "addHandlers [] m = Inr m"
| "addHandlers ((action, h) # hs) m =
     (case h of
        None \<Rightarrow> Inl OpenHandlers
      | Some handler \<Rightarrow>
          if TTL action \<le> 0 then Inl OpenHandlers else addHandlers hs (m(action \<mapsto> handler)))"

definition OpenCommandExecutor ::
    "bytes \<Rightarrow> bool \<Rightarrow> bytes \<Rightarrow> bytes \<Rightarrow> (action \<times> handler option) list \<Rightarrow>
     executor_state file_read \<Rightarrow> write_outcome list \<Rightarrow> open_error + executor" where
  "OpenCommandExecutor stateDir mkdirOk agentID publicKey handlers file writes =
     (if stateDir = [] \<or> agentID = [] \<or> length publicKey \<noteq> PublicKeySize then Inl OpenRequirements
      else if \<not> mkdirOk then Inl OpenDirectory
      else case addHandlers handlers Map.empty of
        Inl e \<Rightarrow> Inl e
      | Inr hs \<Rightarrow> (case loadState file initialState of
          Inl e \<Rightarrow> Inl e
        | Inr state \<Rightarrow> Inr
            \<lparr>exAgentID = agentID, exPublicKey = publicKey, exHandlers = hs, exState = state,
             exCurrentID = [], exCompleted = esHighestCompleted state,
             exDisk = (case file of FileText doc \<Rightarrow> Some state | _ \<Rightarrow> None),
             exWrites = writes, exTrace = []\<rparr>))"

text \<open>A restart reads back what the last rename left in the state file. \<open>json.Marshal\<close> writes the raw
  result data compacted, which is the argument \<open>compact\<close>.\<close>

definition reload_record :: "(bytes \<Rightarrow> bytes) \<Rightarrow> command_record \<Rightarrow> command_record" where
  "reload_record compact r = r\<lparr>crResult := (crResult r)\<lparr>rData := compact (rData (crResult r))\<rparr>\<rparr>"

definition restart :: "(bytes \<Rightarrow> bytes) \<Rightarrow> executor \<Rightarrow> executor" where
  "restart compact e =
     (let state = (case exDisk e of
            None \<Rightarrow> initialState
          | Some s \<Rightarrow> s\<lparr>esRecords := map (reload_record compact) (esRecords s)\<rparr>) in
      e\<lparr>exState := state, exCurrentID := [], exCompleted := esHighestCompleted state, exWrites := []\<rparr>)"

subsection \<open>Invariant\<close>

definition wf_record :: "command_record \<Rightarrow> bool" where
  "wf_record r \<longleftrightarrow> crState r \<in> {''accepted'', ''running'', ''succeeded'', ''failed''} \<and>
     rState (crResult r) = crState r \<and> rCommandID (crResult r) = crCommandID r \<and>
     rSequence (crResult r) = crSequence r \<and> rControlVersion (crResult r) = Version \<and>
     rType (crResult r) = ''command_result''"

definition executor_inv :: "executor_state \<Rightarrow> bool" where
  "executor_inv st \<longleftrightarrow> length (esRecords st) \<le> 256 \<and>
     sorted_wrt (<) (map crSequence (esRecords st)) \<and>
     (\<forall>r\<in>set (esRecords st). crSequence r \<le> esHighestSeen st \<and> wf_record r) \<and>
     distinct (map crCommandID (esRecords st)) \<and>
     esHighestCompleted st \<le> esHighestSeen st"

definition executor_ok :: "executor \<Rightarrow> bool" where
  "executor_ok e \<longleftrightarrow> executor_inv (exState e) \<and> (\<forall>s. exDisk e = Some s \<longrightarrow> executor_inv s)"

lemma record_index_Some:
  "record_index cid rs = Some i \<Longrightarrow> i < length rs \<and> crCommandID (rs ! i) = cid"
  by (induction rs arbitrary: i) (auto split: if_splits)

lemma record_index_None: "record_index cid rs = None \<longleftrightarrow> cid \<notin> crCommandID ` set rs"
  by (induction rs) auto

lemma record_index_nth:
  "distinct (map crCommandID rs) \<Longrightarrow> i < length rs \<Longrightarrow> record_index (crCommandID (rs ! i)) rs = Some i"
  by (induction rs arbitrary: i) (auto simp: less_Suc_eq_0_disj)

lemma record_index_update [simp]:
  assumes "crCommandID r = crCommandID (rs ! i)"
  shows "record_index cid (rs[i := r]) = record_index cid rs"
  using assms by (induction rs arbitrary: i) (auto split: nat.splits)

lemma trimRecords_snoc:
  assumes "sorted (map crSequence rs)" and "\<forall>r\<in>set rs. crSequence r \<le> crSequence x"
  shows "trimRecords (rs @ [x]) = drop (length rs - 255) rs @ [x]"
proof -
  have "sort_key crSequence (rs @ [x]) = rs @ [x]"
    using assms by (intro sort_key_snoc_max) auto
  then show ?thesis by (auto simp: trimRecords_def)
qed

lemma sorted_wrt_less_sorted: "sorted_wrt (<) xs \<Longrightarrow> sorted (xs :: 'a::linorder list)"
  by (rule sorted_wrt_mono_rel [of _ "(<)"]) auto

lemma trimRecords_accept:
  assumes "executor_inv st" and "esHighestSeen st < crSequence x"
  shows "trimRecords (esRecords st @ [x]) = drop (length (esRecords st) - 255) (esRecords st) @ [x]"
  using assms
  by (intro trimRecords_snoc) (auto simp: executor_inv_def sorted_wrt_less_sorted intro: order_trans)

lemma executor_inv_accept:
  assumes "executor_inv st" and "esHighestSeen st < crSequence x" and "wf_record x"
    and "crCommandID x \<notin> crCommandID ` set (esRecords st)"
  shows "executor_inv (st\<lparr>esHighestSeen := crSequence x,
           esRecords := trimRecords (esRecords st @ [x])\<rparr>)"
proof -
  let ?k = "length (esRecords st) - 255"
  have sub: "set (drop ?k (esRecords st)) \<subseteq> set (esRecords st)" by (rule set_drop_subset)
  have seq: "r \<in> set (esRecords st) \<Longrightarrow> crSequence r < crSequence x" for r
    using assms(1,2) by (auto simp: executor_inv_def)
  have "sorted_wrt (<) (map crSequence (drop ?k (esRecords st)))"
    using assms(1) by (simp add: executor_inv_def drop_map sorted_wrt_drop flip: drop_map)
  moreover have "distinct (map crCommandID (drop ?k (esRecords st)))"
    using assms(1) by (simp add: executor_inv_def flip: drop_map)
  ultimately show ?thesis
    using assms seq sub
    by (auto simp: executor_inv_def trimRecords_accept [OF assms(1,2)] sorted_wrt_append
             dest: order.strict_implies_order)
qed

lemma executor_inv_update:
  assumes "executor_inv st" and "i < length (esRecords st)" and "wf_record r"
    and "crCommandID r = crCommandID (esRecords st ! i)"
    and "crSequence r = crSequence (esRecords st ! i)"
  shows "executor_inv (st\<lparr>esRecords := (esRecords st)[i := r]\<rparr>)"
  using assms
  by (auto simp: executor_inv_def map_update_same dest!: set_update_subset_insert [THEN subsetD])

lemma persist_frame:
  assumes "persist e = (ok, e')"
  shows "exState e' = exState e" "exAgentID e' = exAgentID e" "exPublicKey e' = exPublicKey e"
    "exHandlers e' = exHandlers e" "exTrace e' = exTrace e" "exCurrentID e' = exCurrentID e"
    "exCompleted e' = exCompleted e"
  using assms by (auto simp: persist_def split: list.splits write_outcome.splits)

lemma persist_disk:
  assumes "persist e = (ok, e')"
  shows "ok \<Longrightarrow> exDisk e' = Some (exState e)"
    "exDisk e' = exDisk e \<or> exDisk e' = Some (exState e)"
  using assms by (auto simp: persist_def split: list.splits write_outcome.splits)

lemma persist_ok: "persist e = (ok, e') \<Longrightarrow> executor_ok e \<Longrightarrow> executor_ok e'"
  using persist_frame(1) [of e ok e'] persist_disk(2) [of e ok e'] by (auto simp: executor_ok_def)

lemma outcomeState_cases:
  "outcomeState out \<in> {''running'', ''succeeded'', ''failed''}"
  "outcomeState out = ''running'' \<longleftrightarrow> oPending out" "outcomeState out \<noteq> []"
  by (auto simp: outcomeState_def)

lemma limitOutcome_wf:
  assumes "limitOutcome jv state out = (state', out')"
    and "state \<in> {''running'', ''succeeded'', ''failed''}" and "oPending out \<longleftrightarrow> state = ''running''"
    and "oCode out \<noteq> []"
  shows "state' \<in> {''running'', ''succeeded'', ''failed''}" "oPending out' \<longleftrightarrow> state' = ''running''"
    "length (oCode out') \<le> 128" "length (oData out') \<le> 16384" "oCode out' \<noteq> []"
    "oPending out' \<Longrightarrow> oPending out"
proof -
  consider "state' = ''failed''"
      "out' = out\<lparr>oCode := ''invalid_handler_result'', oData := emptyObject, oPending := False\<rparr>"
    | "state' = state" "out' = out" "length (oCode out) \<le> 128" "length (oData out) \<le> 16384"
    using assms(1) by (simp add: limitOutcome_def not_less split: if_split_asm)
  then show "state' \<in> {''running'', ''succeeded'', ''failed''}" "oPending out' \<longleftrightarrow> state' = ''running''"
    "length (oCode out') \<le> 128" "length (oData out') \<le> 16384" "oCode out' \<noteq> []"
    "oPending out' \<Longrightarrow> oPending out"
    using assms(2-) by (cases, simp_all add: emptyObject_def)+
qed

lemma normalizeOutcome_wf:
  assumes "normalizeOutcome jv raw = (state, out)"
  shows "state \<in> {''running'', ''succeeded'', ''failed''}" "oPending out \<longleftrightarrow> state = ''running''"
    "length (oCode out) \<le> 128" "length (oData out) \<le> 16384" "oCode out \<noteq> []" "oData out \<noteq> []"
    "oPending out \<Longrightarrow> oPending raw"
proof -
  let ?o = "rejectConflict raw"
  let ?o1 = "if oCode ?o = [] then ?o\<lparr>oCode := outcomeState ?o\<rparr> else ?o"
  obtain s2 o2 where l: "limitOutcome jv (outcomeState ?o) ?o1 = (s2, o2)"
    by (cases "limitOutcome jv (outcomeState ?o) ?o1")
  have o1: "oPending ?o1 \<longleftrightarrow> outcomeState ?o = ''running''" "oCode ?o1 \<noteq> []"
    by (auto simp: outcomeState_cases)
  have out: "state = s2" "out = (if oData o2 = [] then o2\<lparr>oData := emptyObject\<rparr> else o2)"
    using assms l by (auto simp: normalizeOutcome_def Let_def)
  have "oPending ?o \<Longrightarrow> oPending raw" by (simp add: rejectConflict_def split: if_splits)
  then show "state \<in> {''running'', ''succeeded'', ''failed''}" "oPending out \<longleftrightarrow> state = ''running''"
    "length (oCode out) \<le> 128" "length (oData out) \<le> 16384" "oCode out \<noteq> []" "oData out \<noteq> []"
    "oPending out \<Longrightarrow> oPending raw"
    using limitOutcome_wf [OF l outcomeState_cases(1) o1] unfolding out
    by (simp_all add: emptyObject_def split: if_splits)
qed

definition names_record :: "executor \<Rightarrow> command \<Rightarrow> nat \<Rightarrow> bool" where
  "names_record e command i \<longleftrightarrow> i < length (esRecords (exState e)) \<and>
     crCommandID (esRecords (exState e) ! i) = cCommandID command \<and>
     crSequence (esRecords (exState e) ! i) = cSequence command"

lemma set_record_ok:
  assumes "executor_ok e" and "names_record e command i" and "wf_record r"
    and "crCommandID r = cCommandID command" and "crSequence r = cSequence command"
  shows "executor_ok (set_record i r e)" "names_record (set_record i r e) command i"
  using assms executor_inv_update [of "exState e" i r]
  by (auto simp: executor_ok_def names_record_def set_record_def)

lemma executor_inv_completed:
  assumes "executor_inv st" and "r \<in> set (esRecords st)"
  shows "executor_inv (st\<lparr>esHighestCompleted := crSequence r\<rparr>)"
  using assms by (auto simp: executor_inv_def)

text \<open>What one run of a handler leaves behind.\<close>

lemma finishCommand_result:
  assumes "finishCommand jv e command i raw = (res, e')" and "executor_ok e"
    and "names_record e command i"
  obtains state out r where "normalizeOutcome jv raw = (state, out)"
    and "r = (esRecords (exState e) ! i)\<lparr>crState := state,
           crResult := \<lparr>rControlVersion = Version, rType = ''command_result'',
             rCommandID = cCommandID command, rSequence = cSequence command,
             rState = state, rCode = oCode out, rData = oData out\<rparr>\<rparr>"
    and "esRecords (exState e') = (esRecords (exState e))[i := r]"
    and "esHighestSeen (exState e') = esHighestSeen (exState e)"
    and "executor_ok e'"
    and "exTrace e' = exTrace e @ (if res = crResult r \<and> exTrace e' \<noteq> exTrace e
           then [AfterPersistRan (cCommandID command)] else [])"
    and "exHandlers e' = exHandlers e" "exAgentID e' = exAgentID e" "exPublicKey e' = exPublicKey e"
    and "exDisk e' = Some (exState e') \<and> res = crResult r \<or>
         (exDisk e' = exDisk e \<or> exDisk e' = Some (exState e')) \<and>
           res = failedCommandResult command ''state_write_failed''"
    and "esHighestCompleted (exState e) \<le> esHighestCompleted (exState e')"
    and "exCurrentID e' = exCurrentID e"
proof -
  obtain state out where norm: "normalizeOutcome jv raw = (state, out)" by (cases "normalizeOutcome jv raw")
  let ?res = "\<lparr>rControlVersion = Version, rType = ''command_result'',
             rCommandID = cCommandID command, rSequence = cSequence command,
             rState = state, rCode = oCode out, rData = oData out\<rparr>"
  let ?r = "(esRecords (exState e) ! i)\<lparr>crState := state, crResult := ?res\<rparr>"
  let ?e1 = "set_record i ?r e"
  let ?e2 = "if \<not> oPending out \<and> esHighestCompleted (exState ?e1) < cSequence command
     then ?e1\<lparr>exState := (exState ?e1)\<lparr>esHighestCompleted := cSequence command\<rparr>\<rparr> else ?e1"
  obtain ok e3 where p: "persist ?e2 = (ok, e3)" by (cases "persist ?e2")
  have wf: "wf_record ?r"
    using assms(3) normalizeOutcome_wf(1) [OF norm]
    by (auto simp: wf_record_def names_record_def)
  have ok1: "executor_ok ?e1"
    using set_record_ok [OF assms(2,3) wf] assms(3) by (simp add: names_record_def)
  have in1: "?r \<in> set (esRecords (exState ?e1))" and seq: "crSequence ?r = cSequence command"
    using assms(3) by (auto simp: set_record_def names_record_def set_update_memI)
  have ok2: "executor_ok ?e2"
    using ok1 executor_inv_completed [OF _ in1] unfolding seq
    by (simp add: executor_ok_def set_record_def)
  note ok3 = persist_ok [OF p ok2]
  note fr = persist_frame [OF p] and dk = persist_disk [OF p]
  have def: "(res, e') =
     (if \<not> ok then (failedCommandResult command ''state_write_failed'', e3)
      else (?res, if oAfterPersist out \<and> \<not> oPending out
        then e3\<lparr>exCompleted := esHighestCompleted (exState e3),
                exTrace := exTrace e3 @ [AfterPersistRan (cCommandID command)]\<rparr>
        else e3\<lparr>exCompleted := esHighestCompleted (exState e3)\<rparr>))"
    using assms(1) unfolding finishCommand_def norm Let_def prod.case p by auto
  have e2: "esRecords (exState ?e2) = (esRecords (exState e))[i := ?r]"
    "esHighestSeen (exState ?e2) = esHighestSeen (exState e)"
    "esHighestCompleted (exState e) \<le> esHighestCompleted (exState ?e2)"
    "exTrace ?e2 = exTrace e" "exHandlers ?e2 = exHandlers e" "exAgentID ?e2 = exAgentID e"
    "exPublicKey ?e2 = exPublicKey e" "exDisk ?e2 = exDisk e" "exCurrentID ?e2 = exCurrentID e"
    by (simp_all add: set_record_def less_imp_le)
  have e3: "esRecords (exState e3) = (esRecords (exState e))[i := ?r]"
    "esHighestSeen (exState e3) = esHighestSeen (exState e)"
    "esHighestCompleted (exState e) \<le> esHighestCompleted (exState e3)"
    "exTrace e3 = exTrace e" "exHandlers e3 = exHandlers e" "exAgentID e3 = exAgentID e"
    "exPublicKey e3 = exPublicKey e" "exCurrentID e3 = exCurrentID e"
    "ok \<Longrightarrow> exDisk e3 = Some (exState e3)" "exDisk e3 = exDisk e \<or> exDisk e3 = Some (exState e3)"
    using e2 fr dk by metis+
  show thesis
    by (rule that [OF norm refl])
      (use def ok3 e3 in \<open>simp_all add: executor_ok_def split: if_splits\<close>)
qed
subsection \<open>Runs of the handlers\<close>

fun handler_runs :: "effect list \<Rightarrow> (bytes \<times> uint64) list" where
  "handler_runs [] = []"
| "handler_runs (HandlerRan cid s # es) = (cid, s) # handler_runs es"
| "handler_runs (AfterPersistRan cid # es) = handler_runs es"

lemma handler_runs_append [simp]: "handler_runs (xs @ ys) = handler_runs xs @ handler_runs ys"
  by (induction xs rule: handler_runs.induct) auto

definition same_setup :: "executor \<Rightarrow> executor \<Rightarrow> bool" where
  "same_setup e e' \<longleftrightarrow> exHandlers e' = exHandlers e \<and> exAgentID e' = exAgentID e \<and>
     exPublicKey e' = exPublicKey e"

lemma same_setup_trans: "same_setup a b \<Longrightarrow> same_setup b c \<Longrightarrow> same_setup a c"
  by (simp add: same_setup_def)

lemma persist_no_writes: "exWrites e = [] \<Longrightarrow> persist e = (True, e\<lparr>exDisk := Some (exState e)\<rparr>)"
  by (simp add: persist_def)

lemma finishCommand_writes:
  "exWrites e = [] \<Longrightarrow> finishCommand jv e command i raw = (res, e') \<Longrightarrow> exWrites e' = []"
  by (auto simp: finishCommand_def Let_def persist_no_writes set_record_def split: prod.splits if_splits)

definition settles :: "(bytes \<Rightarrow> bool) \<Rightarrow> handler \<Rightarrow> command \<Rightarrow> bool" where
  "settles jv h command \<longleftrightarrow> fst (normalizeOutcome jv (callCommandHandler h command)) \<noteq> ''running''"

text \<open>What \<open>resumeLocked\<close> leaves: the invariant and the identity of the executor, and either no new run or
  exactly one, after which the record holds the normalised state of the handler's outcome.\<close>

definition resumed ::
    "(bytes \<Rightarrow> bool) \<Rightarrow> command \<Rightarrow> nat \<Rightarrow> executor \<Rightarrow> command_result \<Rightarrow> executor \<Rightarrow> bool" where
  "resumed jv command i e res e' \<longleftrightarrow> executor_ok e' \<and> same_setup e e' \<and>
      esHighestSeen (exState e') = esHighestSeen (exState e) \<and>
      esHighestCompleted (exState e) \<le> esHighestCompleted (exState e') \<and>
      (exCurrentID e = [] \<longrightarrow> exCurrentID e' = []) \<and> (exWrites e = [] \<longrightarrow> exWrites e' = []) \<and>
      (\<exists>r. esRecords (exState e') = (esRecords (exState e))[i := r] \<and>
           crCommandID r = cCommandID command \<and> crSequence r = cSequence command \<and>
           crDigest r = crDigest (esRecords (exState e) ! i) \<and>
           (handler_runs (exTrace e') = handler_runs (exTrace e) \<and>
              (exWrites e = [] \<longrightarrow> exHandlers e (cAction command) = None) \<and>
              crState r = crState (esRecords (exState e) ! i) \<or>
            handler_runs (exTrace e') =
              handler_runs (exTrace e) @ [(cCommandID command, cSequence command)] \<and>
              (\<exists>h. exHandlers e (cAction command) = Some h \<and>
                crState r = fst (normalizeOutcome jv (callCommandHandler h command)) \<and>
                (res = crResult r \<and> exDisk e' = Some (exState e') \<or>
                 res = failedCommandResult command ''state_write_failed''))))"

lemma resumeLocked_resumed:
  assumes "resumeLocked jv e command i = (res, e')" and "executor_ok e"
    and "names_record e command i"
  shows "resumed jv command i e res e'"
proof -
  let ?rs = "esRecords (exState e)"
  let ?prev = "?rs ! i"
  let ?r = "?prev\<lparr>crState := ''running'',
              crResult := (crResult ?prev)\<lparr>rState := ''running'', rCode := ''running''\<rparr>\<rparr>"
  have wfp: "wf_record ?prev" and len: "i < length ?rs"
    and ids: "crCommandID ?prev = cCommandID command" "crSequence ?prev = cSequence command"
    using assms(2,3) by (auto simp: executor_ok_def executor_inv_def names_record_def)
  then have wf: "wf_record ?r" by (simp add: wf_record_def)
  note ok1 = set_record_ok [OF assms(2,3) wf]
  have ok1': "executor_ok (set_record i ?r e)" "names_record (set_record i ?r e) command i"
    using ok1 ids by auto
  show ?thesis
  proof (cases "exHandlers e (cAction command)")
    case None
    then show ?thesis using assms(1,2) ids by (auto simp: resumed_def resumeLocked_def same_setup_def list_update_id intro!: exI [of _ ?prev])
  next
    case (Some h)
    obtain ok e1 where p: "persist (set_record i ?r e) = (ok, e1)" by (cases "persist (set_record i ?r e)")
    note fr = persist_frame [OF p]
    note okp = persist_ok [OF p ok1'(1)]
    show ?thesis
    proof (cases ok)
      case False
      then have e': "e' = set_record i ?prev e1"
        using assms(1) p Some by (simp add: resumeLocked_def Let_def)
      have "executor_ok e'" unfolding e'
        using set_record_ok(1) [OF okp _ wfp ids] ok1'(2) fr(1) by (auto simp: names_record_def)
      moreover have "exWrites e \<noteq> []" using p False by (auto simp: persist_def set_record_def)
      ultimately show ?thesis using fr len ids
        by (auto simp: resumed_def e' same_setup_def set_record_def intro!: exI [of _ ?prev])
    next
      case True
      let ?e2 = "e1\<lparr>exTrace := exTrace e1 @ [HandlerRan (cCommandID command) (cSequence command)], exCurrentID := []\<rparr>"
      have fin: "finishCommand jv ?e2 command i (callCommandHandler h command) = (res, e')"
        using assms(1) p Some True by (simp add: resumeLocked_def Let_def)
      have ok2: "executor_ok ?e2" "names_record ?e2 command i"
        using okp ok1'(2) fr(1) by (auto simp: executor_ok_def names_record_def)
      have w: "exWrites e = [] \<Longrightarrow> exWrites e' = []"
        using finishCommand_writes [OF _ fin] p by (auto simp: persist_def set_record_def)
      show ?thesis
      proof (rule finishCommand_result [OF fin ok2])
        fix state out r
        assume norm: "normalizeOutcome jv (callCommandHandler h command) = (state, out)"
          and "r = (esRecords (exState ?e2) ! i)\<lparr>crState := state,
           crResult := \<lparr>rControlVersion = Version, rType = ''command_result'',
             rCommandID = cCommandID command, rSequence = cSequence command,
             rState = state, rCode = oCode out, rData = oData out\<rparr>\<rparr>"
          and "esRecords (exState e') = (esRecords (exState ?e2))[i := r]"
          and "esHighestSeen (exState e') = esHighestSeen (exState ?e2)"
          and "executor_ok e'"
          and tr: "exTrace e' = exTrace ?e2 @ (if res = crResult r \<and> exTrace e' \<noteq> exTrace ?e2
           then [AfterPersistRan (cCommandID command)] else [])"
          and "exHandlers e' = exHandlers ?e2" "exAgentID e' = exAgentID ?e2"
            "exPublicKey e' = exPublicKey ?e2"
          and "exDisk e' = Some (exState e') \<and> res = crResult r \<or>
            (exDisk e' = exDisk ?e2 \<or> exDisk e' = Some (exState e')) \<and>
              res = failedCommandResult command ''state_write_failed''"
          and "esHighestCompleted (exState ?e2) \<le> esHighestCompleted (exState e')"
          and "exCurrentID e' = exCurrentID ?e2"
        then show ?thesis
          using fr len ids w Some arg_cong [OF tr, of handler_runs]
          by (auto simp: resumed_def same_setup_def set_record_def intro!: exI [of _ r] split: if_splits)
      qed
    qed
  qed
qed

subsection \<open>Acceptance\<close>

text \<open>The checks of \<open>Execute\<close> before the first look at the records, and those on a command seen for the
  first time.\<close>

definition authentic :: "crypto \<Rightarrow> (bytes \<Rightarrow> bool) \<Rightarrow> executor \<Rightarrow> command \<Rightarrow> bool" where
  "authentic c jv e command \<longleftrightarrow> cControlVersion command = Version \<and> cType command = ''command'' \<and>
     0 < TTL (cAction command) \<and> jv (cPayload command) \<and>
     VerifyCommand c (exPublicKey e) command = None \<and> cAgentID command = exAgentID e"

definition fresh_command :: "int64 \<Rightarrow> executor \<Rightarrow> command \<Rightarrow> bool" where
  "fresh_command now e command \<longleftrightarrow> cIssuedAt command \<le>s now + 60 \<and> now <s cExpiresAt command \<and>
     cIssuedAt command <s cExpiresAt command \<and> esHighestSeen (exState e) < cSequence command \<and>
     exHandlers e (cAction command) \<noteq> None"

definition admits :: "crypto \<Rightarrow> (bytes \<Rightarrow> bool) \<Rightarrow> int64 \<Rightarrow> executor \<Rightarrow> command \<Rightarrow> bool" where
  "admits c jv now e command \<longleftrightarrow> authentic c jv e command \<and>
     (case record_index (cCommandID command) (esRecords (exState e)) of
        Some i \<Rightarrow>
          let r = esRecords (exState e) ! i in
          crSequence r = cSequence command \<and> crDigest r = commandDigest c command \<and>
          \<not> terminalCommandState (crState r) \<and> exHandlers e (cAction command) \<noteq> None
      | None \<Rightarrow> fresh_command now e command)"

definition with_accepted :: "crypto \<Rightarrow> command \<Rightarrow> executor \<Rightarrow> executor" where
  "with_accepted c command e =
     e\<lparr>exState := (exState e)\<lparr>esHighestSeen := cSequence command,
         esRecords := trimRecords (esRecords (exState e) @
           [acceptedRecord command (commandDigest c command)])\<rparr>\<rparr>"

lemma acceptedRecord_simps [simp]:
  "crCommandID (acceptedRecord command d) = cCommandID command"
  "crSequence (acceptedRecord command d) = cSequence command"
  "crDigest (acceptedRecord command d) = d" "crState (acceptedRecord command d) = ''accepted''"
  "wf_record (acceptedRecord command d)"
  by (simp_all add: acceptedRecord_def wf_record_def)

lemma with_accepted_records:
  assumes "executor_ok e" and "esHighestSeen (exState e) < cSequence command"
  shows "esRecords (exState (with_accepted c command e)) =
    drop (length (esRecords (exState e)) - 255) (esRecords (exState e)) @
      [acceptedRecord command (commandDigest c command)]"
  using assms by (simp add: with_accepted_def executor_ok_def trimRecords_accept)

lemma with_accepted_ok:
  assumes "executor_ok e" and "esHighestSeen (exState e) < cSequence command"
    and "record_index (cCommandID command) (esRecords (exState e)) = None"
  shows "executor_ok (with_accepted c command e)"
  using assms executor_inv_accept [of "exState e" "acceptedRecord command (commandDigest c command)"]
  by (simp add: with_accepted_def executor_ok_def record_index_None)

lemma with_accepted_index:
  assumes "executor_ok e" and "esHighestSeen (exState e) < cSequence command"
    and "record_index (cCommandID command) (esRecords (exState e)) = None"
  obtains i where
    "record_index (cCommandID command) (esRecords (exState (with_accepted c command e))) = Some i"
    "i < length (esRecords (exState (with_accepted c command e)))"
    "esRecords (exState (with_accepted c command e)) ! i = acceptedRecord command (commandDigest c command)"
proof -
  let ?rs = "esRecords (exState (with_accepted c command e))"
  obtain i where i: "record_index (cCommandID command) ?rs = Some i"
    using with_accepted_records [OF assms(1,2), of c] record_index_None [of "cCommandID command" ?rs]
    by (cases "record_index (cCommandID command) ?rs") auto
  have "?rs ! i \<in> set ?rs" and id: "crCommandID (?rs ! i) = cCommandID command"
    using record_index_Some [OF i] by auto
  then have "?rs ! i \<in> set (esRecords (exState e)) \<or>
      ?rs ! i = acceptedRecord command (commandDigest c command)"
    unfolding with_accepted_records [OF assms(1,2)] by (auto dest: in_set_dropD)
  then have "?rs ! i = acceptedRecord command (commandDigest c command)"
    using id assms(3) by (auto simp: record_index_None) (metis imageI)
  then show thesis
    using that [OF i] record_index_Some [OF i] by blast
qed

lemma acceptCommand_cases:
  assumes "acceptCommand c jv now e command = (res, e')" and "executor_ok e"
    and new: "record_index (cCommandID command) (esRecords (exState e)) = None"
  obtains "\<not> fresh_command now e command" "e' = e"
  | ok e1 where "fresh_command now e command" "persist (with_accepted c command e) = (ok, e1)"
      "executor_ok e1" "\<not> ok" "e' = e1" "res = failedCommandResult command ''state_write_failed''"
  | e1 i where "fresh_command now e command" "persist (with_accepted c command e) = (True, e1)"
      "executor_ok e1" "names_record e1 command i"
      "esRecords (exState e1) ! i = acceptedRecord command (commandDigest c command)"
      "resumeLocked jv e1 command i = (res, e')"
proof (cases "fresh_command now e command")
  case False
  then have "e' = e"
    using assms(1) by (auto simp: acceptCommand_def fresh_command_def not_less word_sle_eq word_sless_alt split: if_splits)
  then show thesis using that(1) False by blast
next
  case True
  then have hs: "esHighestSeen (exState e) < cSequence command" by (simp add: fresh_command_def)
  obtain ok e1 where p: "persist (with_accepted c command e) = (ok, e1)"
    by (cases "persist (with_accepted c command e)")
  note okp = persist_ok [OF p with_accepted_ok [OF assms(2) hs new]] and fr = persist_frame [OF p]
  obtain i where i: "record_index (cCommandID command) (esRecords (exState e1)) = Some i"
      "i < length (esRecords (exState e1))"
      "esRecords (exState e1) ! i = acceptedRecord command (commandDigest c command)"
    using with_accepted_index [OF assms(2) hs new, of c] fr(1) by metis
  have "acceptCommand c jv now e command =
      (if \<not> ok then (failedCommandResult command ''state_write_failed'', e1)
       else resumeLocked jv e1 command i)"
    using True p i(1) fr(1)
    by (auto simp: acceptCommand_def fresh_command_def Let_def with_accepted_def
        word_sle_eq word_sless_alt not_less split: option.splits)
  then show thesis
    using that(2,3) True p okp i assms(1) by (cases ok) (auto simp: names_record_def)
qed

lemma Execute_cases:
  assumes "Execute c jv now e command = (res, e')" and "executor_ok e"
  obtains "\<not> admits c jv now e command" "e' = e"
  | i where "authentic c jv e command" "names_record e command i"
      "record_index (cCommandID command) (esRecords (exState e)) = Some i"
      "crDigest (esRecords (exState e) ! i) = commandDigest c command"
      "\<not> terminalCommandState (crState (esRecords (exState e) ! i))"
      "resumeLocked jv e command i = (res, e')"
  | "authentic c jv e command" "record_index (cCommandID command) (esRecords (exState e)) = None"
      "acceptCommand c jv now e command = (res, e')"
proof (cases "authentic c jv e command")
  case False
  then have "snd (Execute c jv now e command) = e"
    unfolding authentic_def by (simp add: Execute_def not_less del: not_None_eq) blast
  then show thesis
    using assms(1) that(1) False by (simp add: admits_def)
next
  case auth: True
  then have ex: "Execute c jv now e command =
     (case record_index (cCommandID command) (esRecords (exState e)) of
        Some index \<Rightarrow>
          let r = esRecords (exState e) ! index in
          if crSequence r \<noteq> cSequence command \<or> crDigest r \<noteq> commandDigest c command
          then (failedCommandResult command ''duplicate_mismatch'', e)
          else if terminalCommandState (crState r) then (crResult r, e)
          else resumeLocked jv e command index
      | None \<Rightarrow> acceptCommand c jv now e command)"
    by (simp add: Execute_def authentic_def)
  show thesis
  proof (cases "record_index (cCommandID command) (esRecords (exState e))")
    case None
    then show thesis using that(3) auth ex assms(1) by simp
  next
    case (Some i)
    then show thesis
      using that(1,2) auth ex assms(1) record_index_Some [OF Some]
      by (auto simp: admits_def names_record_def Let_def split: if_splits)
  qed
qed

subsection \<open>Properties\<close>

lemma executor_ok_wf:
  "executor_ok e \<Longrightarrow> r \<in> set (esRecords (exState e)) \<Longrightarrow> wf_record r"
  by (simp add: executor_ok_def executor_inv_def)

lemma same_setup_persist: "persist e = (ok, e') \<Longrightarrow> same_setup e e'"
  by (simp add: same_setup_def persist_frame)

lemma same_setup_accepted [simp]: "same_setup e (with_accepted c command e)"
  by (simp add: same_setup_def with_accepted_def)

lemma persist_writes: "persist e = (ok, e') \<Longrightarrow> exWrites e = [] \<Longrightarrow> ok \<and> exWrites e' = []"
  by (auto simp: persist_def)

lemma accepted_frame:
  assumes "persist (with_accepted c command e) = (ok, e1)"
  shows "exTrace e1 = exTrace e" "exCurrentID e1 = exCurrentID e" "same_setup e e1"
    "exHandlers e1 = exHandlers e"
    "esHighestSeen (exState e1) = cSequence command"
    "esHighestCompleted (exState e1) = esHighestCompleted (exState e)"
    "exWrites e = [] \<Longrightarrow> ok \<and> exWrites e1 = []"
  using persist_frame [OF assms] persist_writes [OF assms] same_setup_persist [OF assms]
  by (auto simp: with_accepted_def same_setup_def)

text \<open>One call of \<open>Execute\<close> seen from outside.\<close>

definition executed ::
    "crypto \<Rightarrow> (bytes \<Rightarrow> bool) \<Rightarrow> int64 \<Rightarrow> command \<Rightarrow> executor \<Rightarrow> command_result \<Rightarrow> executor \<Rightarrow> bool" where
  "executed c jv now command e res e' \<longleftrightarrow>
     executor_ok e' \<and> same_setup e e' \<and>
     esHighestSeen (exState e) \<le> esHighestSeen (exState e') \<and>
     esHighestCompleted (exState e) \<le> esHighestCompleted (exState e') \<and>
     (exCurrentID e = [] \<longrightarrow> exCurrentID e' = []) \<and> (exWrites e = [] \<longrightarrow> exWrites e' = []) \<and>
     (handler_runs (exTrace e') = handler_runs (exTrace e) \<and>
        (exWrites e = [] \<longrightarrow> \<not> admits c jv now e command) \<or>
      admits c jv now e command \<and>
      handler_runs (exTrace e') = handler_runs (exTrace e) @ [(cCommandID command, cSequence command)] \<and>
      (\<exists>i r h. names_record e' command i \<and> esRecords (exState e') ! i = r \<and>
         crDigest r = commandDigest c command \<and> exHandlers e (cAction command) = Some h \<and>
         crState r = fst (normalizeOutcome jv (callCommandHandler h command)) \<and>
         (res = crResult r \<and> exDisk e' = Some (exState e') \<or>
          res = failedCommandResult command ''state_write_failed'')))"

lemma resumed_executed:
  assumes r: "resumed jv command i e res e'" and n: "names_record e command i"
    and d: "crDigest (esRecords (exState e) ! i) = commandDigest c command"
    and a: "exHandlers e (cAction command) \<noteq> None \<Longrightarrow> admits c jv now e0 command"
    and a0: "exWrites e0 = [] \<Longrightarrow> exWrites e = []" "admits c jv now e0 command \<Longrightarrow> exHandlers e (cAction command) \<noteq> None"
    and fr: "same_setup e0 e" "exTrace e = exTrace e0" "exCurrentID e = exCurrentID e0"
      "esHighestSeen (exState e0) \<le> esHighestSeen (exState e)"
      "esHighestCompleted (exState e0) \<le> esHighestCompleted (exState e)"
  shows "executed c jv now command e0 res e'"
proof -
  obtain r where r: "executor_ok e'" "same_setup e e'"
      "esHighestSeen (exState e') = esHighestSeen (exState e)"
      "esHighestCompleted (exState e) \<le> esHighestCompleted (exState e')"
      "exCurrentID e = [] \<Longrightarrow> exCurrentID e' = []" "exWrites e = [] \<Longrightarrow> exWrites e' = []"
      "esRecords (exState e') = (esRecords (exState e))[i := r]"
      "crCommandID r = cCommandID command" "crSequence r = cSequence command"
      "crDigest r = crDigest (esRecords (exState e) ! i)"
    and alt: "handler_runs (exTrace e') = handler_runs (exTrace e) \<and>
              (exWrites e = [] \<longrightarrow> exHandlers e (cAction command) = None) \<and>
              crState r = crState (esRecords (exState e) ! i) \<or>
            handler_runs (exTrace e') =
              handler_runs (exTrace e) @ [(cCommandID command, cSequence command)] \<and>
              (\<exists>h. exHandlers e (cAction command) = Some h \<and>
                crState r = fst (normalizeOutcome jv (callCommandHandler h command)) \<and>
                (res = crResult r \<and> exDisk e' = Some (exState e') \<or>
                 res = failedCommandResult command ''state_write_failed''))"
    using r unfolding resumed_def by blast
  have names: "names_record e' command i" "esRecords (exState e') ! i = r"
    using n r by (auto simp: names_record_def)
  have frame: "executor_ok e' \<and> same_setup e0 e' \<and>
     esHighestSeen (exState e0) \<le> esHighestSeen (exState e') \<and>
     esHighestCompleted (exState e0) \<le> esHighestCompleted (exState e') \<and>
     (exCurrentID e0 = [] \<longrightarrow> exCurrentID e' = []) \<and> (exWrites e0 = [] \<longrightarrow> exWrites e' = [])"
    using r fr a0(1) by (auto intro: same_setup_trans)
  have h: "exHandlers e = exHandlers e0" using fr(1) by (simp add: same_setup_def)
  from alt show ?thesis
  proof
    assume A: "handler_runs (exTrace e') = handler_runs (exTrace e) \<and>
        (exWrites e = [] \<longrightarrow> exHandlers e (cAction command) = None) \<and>
        crState r = crState (esRecords (exState e) ! i)"
    then show ?thesis unfolding executed_def using frame fr(2) a0 by auto
  next
    assume B: "handler_runs (exTrace e') =
              handler_runs (exTrace e) @ [(cCommandID command, cSequence command)] \<and>
              (\<exists>h. exHandlers e (cAction command) = Some h \<and>
                crState r = fst (normalizeOutcome jv (callCommandHandler h command)) \<and>
                (res = crResult r \<and> exDisk e' = Some (exState e') \<or>
                 res = failedCommandResult command ''state_write_failed''))"
    then have "admits c jv now e0 command" using a by auto
    then show ?thesis
      unfolding executed_def using frame fr(2) B names r(10) d h by metis
  qed
qed

lemma Execute_executed:
  assumes "Execute c jv now e command = (res, e')" and "executor_ok e"
  shows "executed c jv now command e res e'"
  using assms
proof (cases rule: Execute_cases)
  case 1
  then show ?thesis using assms(2) by (simp add: executed_def same_setup_def)
next
  case (2 i)
  then show ?thesis
    using resumed_executed [OF resumeLocked_resumed [OF 2(6) assms(2) 2(2)] 2(2) 2(4), of now e] record_index_Some [OF 2(3)]
    by (simp add: admits_def same_setup_def names_record_def)
next
  case 3
  have adm: "admits c jv now e command \<longleftrightarrow> fresh_command now e command"
    using 3 by (simp add: admits_def)
  from 3(3) assms(2) 3(2) show ?thesis
  proof (cases rule: acceptCommand_cases)
    case 1
    then show ?thesis using assms(2) adm by (simp add: executed_def same_setup_def)
  next
    case (2 ok e1)
    note f = accepted_frame [OF 2(2)]
    have hs: "esHighestSeen (exState e) \<le> cSequence command" using 2(1) by (simp add: fresh_command_def less_imp_le)
    show ?thesis unfolding executed_def using 2 f hs by auto
  next
    case (3 e1 i)
    note f = accepted_frame [OF 3(2)]
    have hs: "esHighestSeen (exState e) \<le> cSequence command" using 3(1) by (simp add: fresh_command_def less_imp_le)
    show ?thesis
      by (rule resumed_executed [OF resumeLocked_resumed [OF 3(6,3,4)] 3(4)])
        (use 3 f adm hs in \<open>simp_all add: fresh_command_def\<close>)
  qed
qed

text \<open>A run over a list of received commands, each with the clock at its arrival.\<close>

fun executeAll ::
    "crypto \<Rightarrow> (bytes \<Rightarrow> bool) \<Rightarrow> executor \<Rightarrow> (int64 \<times> command) list \<Rightarrow> command_result list \<times> executor" where
  "executeAll c jv e [] = ([], e)"
| "executeAll c jv e ((now, command) # cs) =
     (let (res, e) = Execute c jv now e command;
          (rest, e) = executeAll c jv e cs
      in (res # rest, e))"

definition settling :: "(bytes \<Rightarrow> bool) \<Rightarrow> executor \<Rightarrow> bool" where
  "settling jv e \<longleftrightarrow> (\<forall>a h command. exHandlers e a = Some h \<longrightarrow>
     fst (normalizeOutcome jv (callCommandHandler h command)) \<noteq> ''running'')"

definition once_inv :: "executor \<Rightarrow> bool" where
  "once_inv e \<longleftrightarrow> executor_ok e \<and> distinct (map snd (handler_runs (exTrace e))) \<and>
     (\<forall>s\<in>snd ` set (handler_runs (exTrace e)). s \<le> esHighestSeen (exState e) \<and>
        (\<forall>r\<in>set (esRecords (exState e)). crSequence r = s \<longrightarrow> terminalCommandState (crState r)))"

lemma normalized_terminal:
  "fst (normalizeOutcome jv out) \<noteq> ''running'' \<Longrightarrow> terminalCommandState (fst (normalizeOutcome jv out))"
  by (cases "normalizeOutcome jv out") (auto simp: terminalCommandState_def dest: normalizeOutcome_wf(1))

lemma resumed_once:
  assumes r: "resumed jv command i e res e'" and n: "names_record e command i"
    and o1: "once_inv e" and t: "\<not> terminalCommandState (crState (esRecords (exState e) ! i))"
    and s: "settling jv e"
  shows "once_inv e'"
proof -
  obtain r where r: "executor_ok e'"
      "esHighestSeen (exState e') = esHighestSeen (exState e)"
      "esRecords (exState e') = (esRecords (exState e))[i := r]" "crSequence r = cSequence command"
    and alt: "handler_runs (exTrace e') = handler_runs (exTrace e) \<and>
              crState r = crState (esRecords (exState e) ! i) \<or>
            handler_runs (exTrace e') =
              handler_runs (exTrace e) @ [(cCommandID command, cSequence command)] \<and>
              terminalCommandState (crState r)"
    using r s normalized_terminal unfolding resumed_def settling_def by metis
  have i: "i < length (esRecords (exState e))" "esRecords (exState e) ! i \<in> set (esRecords (exState e))"
      "crSequence (esRecords (exState e) ! i) = cSequence command"
    using n by (auto simp: names_record_def)
  have new: "cSequence command \<notin> snd ` set (handler_runs (exTrace e))"
    using o1 t i(2,3) by (auto simp: once_inv_def)
  have le: "cSequence command \<le> esHighestSeen (exState e)"
    using o1 i(2,3) by (auto simp: once_inv_def executor_ok_def executor_inv_def)
  have seqs: "j < length (esRecords (exState e)) \<Longrightarrow>
      crSequence (esRecords (exState e) ! j) = cSequence command \<Longrightarrow> j = i" for j
    using o1 i sorted_wrt_nth_less [of "(<)" "map crSequence (esRecords (exState e))"]
    by (cases j i rule: linorder_cases) (fastforce simp: once_inv_def executor_ok_def executor_inv_def)+
  have upd: "x \<in> set ((esRecords (exState e))[i := r]) \<Longrightarrow>
      x = r \<or> x \<in> set (esRecords (exState e)) \<and> crSequence x \<noteq> cSequence command" for x
  proof -
    assume "x \<in> set ((esRecords (exState e))[i := r])"
    then obtain k where k: "k < length (esRecords (exState e))" "x = (esRecords (exState e))[i := r] ! k"
      by (auto simp: in_set_conv_nth)
    show ?thesis
    proof (cases "k = i")
      case True
      then show ?thesis using k by simp
    next
      case False
      then have x: "x = esRecords (exState e) ! k" using k(2) by simp
      have "crSequence (esRecords (exState e) ! k) \<noteq> cSequence command" using seqs [OF k(1)] False by blast
      then show ?thesis using k(1) unfolding x by simp
    qed
  qed
  have key: "terminalCommandState (crState x)"
    if x: "x \<in> set (esRecords (exState e'))" "crSequence x \<in> snd ` set (handler_runs (exTrace e))" for x
  proof -
    have "x \<noteq> r" using that(2) new r(4) by metis
    then have "x \<in> set (esRecords (exState e))" using upd x(1) unfolding r(3) by blast
    then show ?thesis using o1 x(2) unfolding once_inv_def by blast
  qed
  have last: "x = r" if "x \<in> set (esRecords (exState e'))" "crSequence x = cSequence command" for x
    using upd that unfolding r(3) by blast
  have old: "executor_ok e'" "distinct (map snd (handler_runs (exTrace e)))"
      "\<forall>s\<in>snd ` set (handler_runs (exTrace e)). s \<le> esHighestSeen (exState e')"
    using o1 r(1,2) by (simp_all add: once_inv_def)
  from alt show ?thesis
  proof
    assume "handler_runs (exTrace e') = handler_runs (exTrace e) \<and>
              crState r = crState (esRecords (exState e) ! i)"
    then show ?thesis using old key unfolding once_inv_def by metis
  next
    assume B: "handler_runs (exTrace e') =
              handler_runs (exTrace e) @ [(cCommandID command, cSequence command)] \<and>
              terminalCommandState (crState r)"
    then have runs: "snd ` set (handler_runs (exTrace e')) =
        insert (cSequence command) (snd ` set (handler_runs (exTrace e)))" by simp
    show ?thesis
      unfolding once_inv_def runs using old key last B new le r(2) by (simp add: image_iff) blast
  qed
qed

lemma accepted_once:
  assumes "once_inv e" and "persist (with_accepted c command e) = (ok, e1)" and "executor_ok e1"
    and "esHighestSeen (exState e) < cSequence command"
  shows "once_inv e1"
proof -
  note f = accepted_frame [OF assms(2)] and p = persist_frame(1) [OF assms(2)]
  have "set (esRecords (exState e1)) \<subseteq>
      insert (acceptedRecord command (commandDigest c command)) (set (esRecords (exState e)))"
    using assms(1,4) p by (auto simp: once_inv_def with_accepted_records dest: in_set_dropD)
  then show ?thesis
    using assms f(1,5) by (fastforce simp: once_inv_def)
qed

lemma Execute_once:
  assumes ex: "Execute c jv now e command = (res, e')" and "once_inv e" and "settling jv e"
  shows "once_inv e' \<and> settling jv e'"
proof -
  have ok: "executor_ok e" using assms(2) by (simp add: once_inv_def)
  have set: "settling jv e'"
    using Execute_executed [OF ex ok] assms(3) by (simp add: executed_def settling_def same_setup_def)
  moreover have "once_inv e'"
    using ex ok
  proof (cases rule: Execute_cases)
    case 1
    then show ?thesis using assms by simp
  next
    case (2 i)
    then show ?thesis
      using resumed_once [OF resumeLocked_resumed [OF 2(6) ok 2(2)] 2(2) assms(2) 2(5) assms(3)] by simp
  next
    case 3
    from 3(3) ok 3(2) show ?thesis
    proof (cases rule: acceptCommand_cases)
      case 1
      then show ?thesis using assms by simp
    next
      case (2 ok e1)
      then show ?thesis using accepted_once [OF assms(2) 2(2,3)] by (simp add: fresh_command_def)
    next
      case (3 e1 i)
      have o1: "once_inv e1" using accepted_once [OF assms(2) 3(2,3)] 3(1) by (simp add: fresh_command_def)
      have "settling jv e1" using accepted_frame(4) [OF 3(2)] assms(3) by (simp add: settling_def)
      then show ?thesis
        using resumed_once [OF resumeLocked_resumed [OF 3(6,3,4)] 3(4) o1] 3(5)
        by (simp add: terminalCommandState_def)
    qed
  qed
  ultimately show ?thesis by simp
qed

lemma executeAll_once:
  "executeAll c jv e cs = (rs, e') \<Longrightarrow> once_inv e \<Longrightarrow> settling jv e \<Longrightarrow> once_inv e'"
proof (induction cs arbitrary: e rs)
  case (Cons x cs)
  obtain now command where x: "x = (now, command)" by (cases x)
  obtain res e1 where ex: "Execute c jv now e command = (res, e1)" by (cases "Execute c jv now e command")
  obtain rest where rest: "executeAll c jv e1 cs = (rest, e')"
    using Cons.prems(1) x ex by (auto split: prod.splits)
  show ?case using Cons.IH [OF rest] Execute_once [OF ex Cons.prems(2,3)] by blast
qed simp

subsection \<open>Concrete instances\<close>

definition sample_signed :: command where
  "sample_signed = sample_command\<lparr>cSignature :=
     b64_encode (ed_sign pad_crypto sample_private (SigningBytes pad_crypto sample_command))\<rparr>"

definition sample_handler :: handler where
  "sample_handler command = Returned \<lparr>oCode = ''collected'', oData = ''{}'', oFailed = False,
     oPending = False, oAfterPersist = False\<rparr>"

definition sample_executor :: executor where
  "sample_executor = \<lparr>exAgentID = ''a1'', exPublicKey = sample_public,
     exHandlers = [CollectNow \<mapsto> sample_handler], exState = initialState, exCurrentID = [],
     exCompleted = 0, exDisk = None, exWrites = [], exTrace = []\<rparr>"

lemma sample_verified: "VerifyCommand pad_crypto sample_public sample_signed = None"
  using pad_crypto_sizes pad_crypto_key_pair
  by (simp add: VerifyCommand_def sample_signed_def crypto_sizes_def key_pair_def)

lemma sample_signed_fields [simp]:
  "cControlVersion sample_signed = Version" "cType sample_signed = ''command''"
  "cCommandID sample_signed = ''c1''" "cSequence sample_signed = 7" "cAgentID sample_signed = ''a1''"
  "cAction sample_signed = CollectNow" "cIssuedAt sample_signed = 100"
  "cExpiresAt sample_signed = 400" "cPayload sample_signed = ''{}''"
  by (simp_all add: sample_signed_def sample_command_def Version_def)

lemma sample_executor_ok: "executor_ok sample_executor"
  by (simp add: executor_ok_def executor_inv_def sample_executor_def initialState_def)

lemma sample_authentic: "authentic pad_crypto (\<lambda>_. True) sample_executor sample_signed"
  using sample_verified by (simp add: authentic_def sample_executor_def TTL_pos_iff validAction_def)

lemma sample_admitted: "admits pad_crypto (\<lambda>_. True) 200 sample_executor sample_signed"
  using sample_authentic
  by (simp add: admits_def fresh_command_def sample_executor_def initialState_def word_sle_eq word_sless_alt)

lemma sample_settling: "settling (\<lambda>_. True) sample_executor"
  by (auto simp: settling_def sample_executor_def sample_handler_def callCommandHandler_def
      normalizeOutcome_def rejectConflict_def outcomeState_def limitOutcome_def split: if_splits)

text \<open>C2. With the state file writable, \<open>Execute\<close> runs a handler exactly when the command is admitted:
  authentic, addressed to this agent, and either new, in time and above the highest sequence seen,
  or recorded with the same sequence and digest and not finished. It then runs exactly once.\<close>

theorem Execute_runs_iff_admitted:
  assumes "executor_ok e" and "exWrites e = []" and "Execute c jv now e command = (res, e')"
  shows "handler_runs (exTrace e') = handler_runs (exTrace e) @
    (if admits c jv now e command then [(cCommandID command, cSequence command)] else [])"
  using Execute_executed [OF assms(3,1)] assms(2) by (auto simp: executed_def)

theorem Execute_runs_iff_admitted_witness:
  "handler_runs (exTrace (snd (Execute pad_crypto (\<lambda>_. True) 200 sample_executor sample_signed))) =
     [(''c1'', 7)]"
  using Execute_runs_iff_admitted [OF sample_executor_ok _ surjective_pairing, of pad_crypto "\<lambda>_. True" 200 sample_signed]
    sample_admitted
  by (simp add: sample_executor_def)

text \<open>Whatever the writes of the state file do, \<open>Execute\<close> keeps the executor's invariant (at most 256
  records, strictly ordered by sequence, distinct command IDs, results that agree with their
  records), never lowers the highest seen or completed sequence, leaves the identity of the Agent and
  its handlers alone and clears the current command.\<close>

theorem Execute_preserves:
  assumes "executor_ok e" and "exCurrentID e = []" and "Execute c jv now e command = (res, e')"
  shows "executor_ok e' \<and> exCurrentID e' = [] \<and> same_setup e e' \<and>
    esHighestSeen (exState e) \<le> esHighestSeen (exState e') \<and>
    esHighestCompleted (exState e) \<le> esHighestCompleted (exState e')"
  using Execute_executed [OF assms(3,1)] assms(2) by (simp add: executed_def)

theorem Execute_preserves_witness:
  "executor_ok (snd (Execute pad_crypto (\<lambda>_. True) 200 (sample_executor\<lparr>exWrites := [WriteDone, SyncFailed]\<rparr>) sample_signed))"
  using Execute_preserves [OF _ _ surjective_pairing,
      of "sample_executor\<lparr>exWrites := [WriteDone, SyncFailed]\<rparr>" pad_crypto "\<lambda>_. True" 200 sample_signed]
    sample_executor_ok
  by (simp add: executor_ok_def sample_executor_def)

lemma record_index_reload [simp]:
  "record_index cid (map (reload_record compact) rs) = record_index cid rs"
  by (induction rs) (simp_all add: reload_record_def)

lemma Execute_replay:
  assumes "executor_ok e" and "names_record e command i" and "authentic c jv e command"
    and "crDigest (esRecords (exState e) ! i) = commandDigest c command"
    and "terminalCommandState (crState (esRecords (exState e) ! i))"
  shows "Execute c jv now e command = (crResult (esRecords (exState e) ! i), e)"
proof -
  have "record_index (cCommandID command) (esRecords (exState e)) = Some i"
    using assms(1,2) record_index_nth [of "esRecords (exState e)" i]
    by (simp add: executor_ok_def executor_inv_def names_record_def)
  then show ?thesis
    using assms(2-) by (simp add: Execute_def authentic_def names_record_def)
qed

lemma restart_ok:
  assumes "executor_ok e" and "exDisk e = Some s"
  shows "executor_ok (restart compact e)"
  using assms
  by (fastforce simp: executor_ok_def executor_inv_def restart_def reload_record_def wf_record_def o_def)

text \<open>A finished command is never run again, in this process or after a restart that reads the
  state file back: once \<open>Execute\<close> has run the handler and returned a terminal result other than
  \<open>state_write_failed\<close>, sending the command again at any time returns the stored result
  (with its data as \<open>json.Marshal\<close> compacts it after a restart) and changes nothing.\<close>

theorem Execute_finished_is_durable:
  assumes "executor_ok e" and run: "Execute c jv now e command = (res, e')"
    and "handler_runs (exTrace e') \<noteq> handler_runs (exTrace e)"
    and "terminalCommandState (rState res)" and "rCode res \<noteq> ''state_write_failed''"
  shows "Execute c jv later e' command = (res, e') \<and>
    Execute c jv later (restart compact e') command =
      (res\<lparr>rData := compact (rData res)\<rparr>, restart compact e')"
proof -
  obtain i where ok: "executor_ok e'" "same_setup e e'" and adm: "admits c jv now e command"
    and n: "names_record e' command i"
    and d: "crDigest (esRecords (exState e') ! i) = commandDigest c command"
    and res: "res = crResult (esRecords (exState e') ! i)" and disk: "exDisk e' = Some (exState e')"
    using Execute_executed [OF run assms(1)] assms(3,5)
    by (auto simp: executed_def failedCommandResult_def)
  have auth: "authentic c jv e' command"
    using adm ok(2) by (simp add: admits_def authentic_def same_setup_def)
  have t: "terminalCommandState (crState (esRecords (exState e') ! i))"
    using executor_ok_wf [OF ok(1)] n assms(4) res by (simp add: names_record_def wf_record_def)
  let ?e = "restart compact e'"
  have recs: "esRecords (exState ?e) = map (reload_record compact) (esRecords (exState e'))"
    using disk by (simp add: restart_def)
  have n2: "names_record ?e command i"
    and d2: "crDigest (esRecords (exState ?e) ! i) = commandDigest c command"
    and t2: "terminalCommandState (crState (esRecords (exState ?e) ! i))"
    using n d t unfolding names_record_def recs by (simp_all add: reload_record_def)
  have auth2: "authentic c jv ?e command" using auth by (simp add: authentic_def restart_def Let_def)
  have "Execute c jv later e' command = (res, e')"
    using Execute_replay [OF ok(1) n auth d t] res by simp
  moreover have "Execute c jv later ?e command = (crResult (esRecords (exState ?e) ! i), ?e)"
    by (rule Execute_replay [OF restart_ok [OF ok(1) disk] n2 auth2 d2 t2])
  moreover have "crResult (esRecords (exState ?e) ! i) = res\<lparr>rData := compact (rData res)\<rparr>"
    using n res unfolding recs by (simp add: names_record_def reload_record_def)
  ultimately show ?thesis by simp
qed

lemma sample_run:
  "fst (Execute pad_crypto (\<lambda>_. True) 200 sample_executor sample_signed) =
     \<lparr>rControlVersion = Version, rType = ''command_result'', rCommandID = ''c1'', rSequence = 7,
      rState = ''succeeded'', rCode = ''collected'', rData = ''{}''\<rparr>"
  using sample_authentic sample_admitted
  by (simp add: Execute_def authentic_def acceptCommand_def fresh_command_def admits_def
      sample_executor_def initialState_def word_sle_eq word_sless_alt Let_def trimRecords_def
      acceptedRecord_def persist_def resumeLocked_def set_record_def callCommandHandler_def
      sample_handler_def finishCommand_def normalizeOutcome_def rejectConflict_def
      outcomeState_def limitOutcome_def)

theorem Execute_finished_is_durable_witness:
  "\<exists>e'. fst (Execute pad_crypto (\<lambda>_. True) 900 (restart id e') sample_signed) =
     \<lparr>rControlVersion = Version, rType = ''command_result'', rCommandID = ''c1'', rSequence = 7,
      rState = ''succeeded'', rCode = ''collected'', rData = ''{}''\<rparr>"
proof -
  let ?x = "Execute pad_crypto (\<lambda>_. True) 200 sample_executor sample_signed"
  have ex: "executed pad_crypto (\<lambda>_. True) 200 sample_signed sample_executor (fst ?x) (snd ?x)"
    by (rule Execute_executed [OF surjective_pairing sample_executor_ok])
  then have "handler_runs (exTrace (snd ?x)) \<noteq> handler_runs (exTrace sample_executor)"
    using sample_admitted by (auto simp: executed_def sample_executor_def)
  then have "Execute pad_crypto (\<lambda>_. True) 900 (restart id (snd ?x)) sample_signed =
      ((fst ?x)\<lparr>rData := id (rData (fst ?x))\<rparr>, restart id (snd ?x))"
    using Execute_finished_is_durable [OF sample_executor_ok surjective_pairing,
        of pad_crypto "\<lambda>_. True" 200 sample_signed 900 id] sample_run
    by (simp add: terminalCommandState_def)
  then show ?thesis using sample_run by (intro exI [of _ "snd ?x"]) simp
qed

text \<open>C1. While the process runs, each sequence's handler runs at most once, whatever commands arrive
  in whatever order and however the writes of the state file fail, if no handler asks to be resumed
  (a pending outcome).\<close>

theorem executeAll_at_most_once:
  assumes "executor_ok e" and "exTrace e = []" and "settling jv e"
    and "executeAll c jv e commands = (results, e')"
  shows "distinct (map snd (handler_runs (exTrace e')))"
  using executeAll_once [OF assms(4) _ assms(3)] assms(1,2) by (simp add: once_inv_def)

theorem executeAll_at_most_once_witness:
  "distinct (map snd (handler_runs (exTrace (snd
     (executeAll pad_crypto (\<lambda>_. True) sample_executor
        [(200, sample_signed), (201, sample_signed), (900, sample_signed)])))))"
  by (rule executeAll_at_most_once [OF sample_executor_ok _ sample_settling surjective_pairing])
    (simp add: sample_executor_def)

end
