(* ===== verification/Upgrade.thy ===== *)
theory Upgrade
  imports RootHelper CommandExecutor
begin

text \<open>
  \<open>internal/agent/upgrade.go\<close>: the Agent's side of an upgrade. It verifies a release, downloads and stages it with a request for the root
  helper in the update directory, waits for the helper's result, cleans up, and writes the
  proof that the upgraded Agent is ready. Every call of the file system consumes one entry of \<open>umFaults\<close>; what the helper does
  to the directory between two polls is a function per tick, the last tick ends the wait; the reply of
  the HTTP client is a parameter.
\<close>

subsection \<open>State\<close>

record upgrade_manager =
  umDir :: "node dir"
  umAgentID :: bytes
  umReleaseKey :: bytes
  umCurrentVersion :: bytes
  umPanelVersion :: bytes
  umBootID :: bytes
  umProof :: "node option"
  umSystemReady :: bool
  umControlReady :: bool
  umReportReady :: bool
  umProofWritten :: bool
  umUID :: int
  umGID :: int
  umFaults :: "bool list"

definition uio :: "upgrade_manager \<Rightarrow> bool \<times> upgrade_manager" where
  "uio m = (case umFaults m of [] \<Rightarrow> (True, m) | f # fs \<Rightarrow> (\<not> f, m\<lparr>umFaults := fs\<rparr>))"

fun uios :: "nat \<Rightarrow> upgrade_manager \<Rightarrow> bool \<times> upgrade_manager" where
  "uios 0 m = (True, m)"
| "uios (Suc n) m = (let (ok, m) = uio m in if ok then uios n m else (False, m))"

text \<open>What follows a durable command result.\<close>

datatype after_persist = NoAfter | CleanupRejected bytes | CleanupCommand bytes

type_synonym upgrade_outcome = "outcome \<times> after_persist"

definition upFailure :: "bytes \<Rightarrow> upgrade_outcome" where
  "upFailure code =
     (\<lparr>oCode = code, oData = emptyObject, oFailed = True, oPending = False, oAfterPersist = False\<rparr>, NoAfter)"

definition upStaged :: upgrade_outcome where
  "upStaged =
     (\<lparr>oCode = ''upgrade_staged'', oData = emptyObject, oFailed = False, oPending = True, oAfterPersist = False\<rparr>, NoAfter)"

subsection \<open>Names\<close>

definition validCanonicalUUID :: "bytes \<Rightarrow> bool" where
  "validCanonicalUUID value \<longleftrightarrow>
     \<not> (length value \<noteq> 36 \<or> value \<noteq> to_lower value \<or> value ! 8 \<noteq> CHR ''-'' \<or> value ! 13 \<noteq> CHR ''-'' \<or>
        value ! 18 \<noteq> CHR ''-'' \<or> value ! 23 \<noteq> CHR ''-'') \<and>
     hex_decode (filter (\<lambda>c. c \<noteq> CHR ''-'') value) \<noteq> None"

text \<open>The character set is the same raw string literal as in the root helper.\<close>

definition safeUpgradeBasename :: "bytes \<Rightarrow> bool" where
  "safeUpgradeBasename value \<longleftrightarrow> value \<noteq> [] \<and> path_base value = value \<and> \<not> contains_any value raw_name_chars"

subsection \<open>Files\<close>

datatype read_result = FileMissing | FileUnreadable | FileBody bytes

definition readFile :: "bytes \<Rightarrow> upgrade_manager \<Rightarrow> read_result \<times> upgrade_manager" where
  "readFile name m =
     (let (ok, m) = uio m in
      if \<not> ok then (FileUnreadable, m)
      else case map_of (umDir m) name of
        None \<Rightarrow> (FileMissing, m)
      | Some n \<Rightarrow> if ndKind n = Regular then (FileBody (ndData n), m) else (FileUnreadable, m))"

text \<open>\<open>os.Remove\<close> with its error ignored.\<close>

definition removeFile :: "bytes \<Rightarrow> upgrade_manager \<Rightarrow> upgrade_manager" where
  "removeFile name m =
     (let (ok, m) = uio m in if ok then m\<lparr>umDir := dir_remove name (umDir m)\<rparr> else m)"

definition agent_node :: "upgrade_manager \<Rightarrow> bytes \<Rightarrow> node" where
  "agent_node m body = owned_node 384 (umUID m) (umGID m) body"

text \<open>Create, chmod, write, sync, close and rename.\<close>

definition writeAtomic :: "bytes \<Rightarrow> bytes \<Rightarrow> upgrade_manager \<Rightarrow> bool \<times> upgrade_manager" where
  "writeAtomic name body m =
     (let (ok, m) = uios 6 m in
      if \<not> ok then (False, m)
      else if (case map_of (umDir m) name of None \<Rightarrow> False | Some n \<Rightarrow> ndKind n = Folder) then (False, m)
      else (True, m\<lparr>umDir := dir_put name (agent_node m body) (umDir m)\<rparr>))"

definition syncDirectory :: "upgrade_manager \<Rightarrow> bool \<times> upgrade_manager" where
  "syncDirectory m = uios 2 m"

datatype active = NoActive | ActiveError | Active bytes bytes

fun readActive :: "bytes list \<Rightarrow> upgrade_manager \<Rightarrow> active \<times> upgrade_manager" where
  "readActive [] m = (NoActive, m)"
| "readActive (name # names) m =
     (case readFile name m of
        (FileBody body, m) \<Rightarrow> (Active body name, m)
      | (FileUnreadable, m) \<Rightarrow> (ActiveError, m)
      | (FileMissing, m) \<Rightarrow> readActive names m)"

definition readActiveRequest :: "upgrade_manager \<Rightarrow> active \<times> upgrade_manager" where
  "readActiveRequest m = readActive [ClaimedRequestFile, PendingRequestFile] m"

definition decodedRequest :: "codec \<Rightarrow> bytes \<Rightarrow> update_request option" where
  "decodedRequest C body = (case DecodeUpdateRequest C body of Inl e \<Rightarrow> None | Inr r \<Rightarrow> Some r)"

subsection \<open>Cleaning up\<close>

text \<open>Remove one of the request files if it holds a request of this command.\<close>

definition removeIfOwn :: "codec \<Rightarrow> bytes \<Rightarrow> bytes \<Rightarrow> upgrade_manager \<Rightarrow> upgrade_manager" where
  "removeIfOwn C commandID name m =
     (case readFile name m of
        (FileBody body, m) \<Rightarrow>
          (case decodedRequest C body of
             None \<Rightarrow> m
           | Some r \<Rightarrow> if urCommandID r = commandID then removeFile name m else m)
      | (FileMissing, m) \<Rightarrow> m
      | (FileUnreadable, m) \<Rightarrow> m)"

definition cleanupCompleted :: "codec \<Rightarrow> bytes \<Rightarrow> upgrade_manager \<Rightarrow> bool \<times> upgrade_manager" where
  "cleanupCompleted C commandID m =
     (case readActiveRequest m of
        (NoActive, m) \<Rightarrow> (True, m)
      | (ActiveError, m) \<Rightarrow> (False, m)
      | (Active body activePath, m) \<Rightarrow>
          (case decodedRequest C body of
             None \<Rightarrow> (False, m)
           | Some r \<Rightarrow>
               if urCommandID r \<noteq> commandID \<or> \<not> safeUpgradeBasename (urArtifactBasename r) then (False, m)
               else
                 let m = removeFile activePath (removeFile (urArtifactBasename r) m) in
                 (True, if activePath = PendingRequestFile then m else removeIfOwn C commandID PendingRequestFile m)))"

definition cleanupCommand :: "codec \<Rightarrow> bytes \<Rightarrow> upgrade_manager \<Rightarrow> upgrade_manager" where
  "cleanupCommand C commandID m =
     (let (done', m) = cleanupCompleted C commandID m in
      if done' then snd (syncDirectory (removeFile HelperResultFile m)) else m)"

definition removeRejected :: "codec \<Rightarrow> bytes \<Rightarrow> upgrade_manager \<Rightarrow> upgrade_manager" where
  "removeRejected C commandID m =
     (case readFile RejectedRequestFile m of
        (FileBody body, m) \<Rightarrow>
          removeFile RejectedRequestFile
            (case decodedRequest C body of
               None \<Rightarrow> m
             | Some r \<Rightarrow>
                 if (urCommandID r = commandID \<or> \<not> validCanonicalUUID (urCommandID r)) \<and> safeUpgradeBasename (urArtifactBasename r)
                 then removeFile (urArtifactBasename r) m else m)
      | (FileMissing, m) \<Rightarrow> m
      | (FileUnreadable, m) \<Rightarrow> m)"

definition cleanupRejected :: "codec \<Rightarrow> bytes \<Rightarrow> upgrade_manager \<Rightarrow> upgrade_manager" where
  "cleanupRejected C commandID m =
     (let m = removeRejected C commandID m;
          m = removeIfOwn C commandID PendingRequestFile m;
          m = removeIfOwn C commandID ClaimedRequestFile m
      in snd (syncDirectory (removeFile HelperResultFile m)))"

fun runAfterPersist :: "codec \<Rightarrow> after_persist \<Rightarrow> upgrade_manager \<Rightarrow> upgrade_manager" where
  "runAfterPersist C NoAfter m = m"
| "runAfterPersist C (CleanupRejected commandID) m = cleanupRejected C commandID m"
| "runAfterPersist C (CleanupCommand commandID) m = cleanupCommand C commandID m"

subsection \<open>The helper's result\<close>

definition versionObject :: "bytes \<Rightarrow> bytes" where
  "versionObject v = ''{'' @ json_key ''version'' @ json_string v @ ''}''"

definition rejectedOutcome :: "helper_result \<Rightarrow> bytes \<Rightarrow> bytes \<Rightarrow> upgrade_manager \<Rightarrow> upgrade_outcome" where
  "rejectedOutcome result commandID version m =
     (if hrCommandID result \<noteq> [] \<and> (hrVersion result \<noteq> version \<or> hrPreviousVersion result \<noteq> umCurrentVersion m)
      then upFailure ''helper_result_invalid''
      else (\<lparr>oCode = ''upgrade_rejected'', oData = emptyObject, oFailed = True, oPending = False, oAfterPersist = True\<rparr>,
            CleanupRejected commandID))"

definition resultMatches :: "helper_result \<Rightarrow> update_request \<Rightarrow> bytes \<Rightarrow> bytes \<Rightarrow> upgrade_manager \<Rightarrow> bool" where
  "resultMatches result pending commandID version m \<longleftrightarrow>
     (let validCurrent =
            (hrState result = ''succeeded'' \<and> umCurrentVersion m = hrVersion result) \<or>
            (hrState result = ''failed'' \<and> umCurrentVersion m = hrPreviousVersion result)
      in \<not> (urCommandID pending \<noteq> commandID \<or> mfVersion (urManifest pending) \<noteq> version \<or> hrVersion result \<noteq> version \<or>
           hrPreviousVersion result \<noteq> urPreviousVersion pending \<or> \<not> validCurrent \<or>
           (hrState result \<noteq> ''succeeded'' \<and> hrState result \<noteq> ''failed'') \<or> hrCode result = [] \<or> 128 < length (hrCode result)))"

definition ownOutcome ::
    "codec \<Rightarrow> helper_result \<Rightarrow> bytes \<Rightarrow> bytes \<Rightarrow> upgrade_manager \<Rightarrow> upgrade_outcome \<times> upgrade_manager" where
  "ownOutcome C result commandID version m =
     (case readActiveRequest m of
        (Active body name, m) \<Rightarrow>
          (case decodedRequest C body of
             None \<Rightarrow> (upFailure ''helper_result_invalid'', m)
           | Some pending \<Rightarrow>
               if resultMatches result pending commandID version m
               then ((\<lparr>oCode = hrCode result, oData = versionObject (hrVersion result),
                       oFailed = (hrState result = ''failed''), oPending = False, oAfterPersist = True\<rparr>,
                      CleanupCommand commandID), m)
               else (upFailure ''helper_result_invalid'', m))
      | (NoActive, m) \<Rightarrow> (upFailure ''helper_result_invalid'', m)
      | (ActiveError, m) \<Rightarrow> (upFailure ''helper_result_invalid'', m))"

text \<open>\<open>None\<close> stands for not handled. A result of another command is cleaned up, if possible.\<close>

definition helperOutcome ::
    "codec \<Rightarrow> bytes \<Rightarrow> bytes \<Rightarrow> upgrade_manager \<Rightarrow> upgrade_outcome option \<times> upgrade_manager" where
  "helperOutcome C commandID version m =
     (case readFile HelperResultFile m of
        (FileMissing, m) \<Rightarrow> (None, m)
      | (FileUnreadable, m) \<Rightarrow> (None, m)
      | (FileBody body, m) \<Rightarrow>
          (case decodeStrictJSON (decResult C body) of
             None \<Rightarrow> (Some (upFailure ''helper_result_invalid''), m)
           | Some result \<Rightarrow>
               if hrState result = ''failed'' \<and> hrCode result = ''upgrade_rejected'' \<and>
                 (hrCommandID result = [] \<or> hrCommandID result = commandID)
               then (Some (rejectedOutcome result commandID version m), m)
               else if hrCommandID result = [] then (Some (upFailure ''helper_result_invalid''), m)
               else if hrCommandID result = commandID then
                 (case ownOutcome C result commandID version m of (out, m) \<Rightarrow> (Some out, m))
               else
                 (case cleanupCompleted C (hrCommandID result) m of
                    (True, m) \<Rightarrow> (None, removeFile HelperResultFile m)
                  | (False, m) \<Rightarrow> (Some (upFailure ''upgrade_busy''), m))))"

text \<open>One poll of \<open>waitForHelper\<close>, then a tick in which the helper may have changed the directory. 125 seconds hold
  500 ticks of 250 ms.\<close>

fun waitTicks ::
    "codec \<Rightarrow> bytes \<Rightarrow> bytes \<Rightarrow> (node dir \<Rightarrow> node dir) list \<Rightarrow> upgrade_manager \<Rightarrow> upgrade_outcome \<times> upgrade_manager" where
  "waitTicks C commandID version [] m =
     (case helperOutcome C commandID version m of
        (Some out, m) \<Rightarrow> (out, m)
      | (None, m) \<Rightarrow> (upStaged, m))"
| "waitTicks C commandID version (e # es) m =
     (case helperOutcome C commandID version m of
        (Some out, m) \<Rightarrow> (out, m)
      | (None, m) \<Rightarrow> waitTicks C commandID version es (m\<lparr>umDir := e (umDir m)\<rparr>))"

definition waitForHelper ::
    "codec \<Rightarrow> bytes \<Rightarrow> bytes \<Rightarrow> (node dir \<Rightarrow> node dir) list \<Rightarrow> upgrade_manager \<Rightarrow> upgrade_outcome \<times> upgrade_manager" where
  "waitForHelper C commandID version ticks m = waitTicks C commandID version (take 500 ticks) m"

definition existingOutcome ::
    "codec \<Rightarrow> bytes \<Rightarrow> bytes \<Rightarrow> (node dir \<Rightarrow> node dir) list \<Rightarrow> upgrade_manager \<Rightarrow> upgrade_outcome option \<times> upgrade_manager" where
  "existingOutcome C commandID version ticks m =
     (case helperOutcome C commandID version m of
        (Some out, m) \<Rightarrow> (Some out, m)
      | (None, m) \<Rightarrow>
          (case readActiveRequest m of
             (Active body name, m) \<Rightarrow>
               (case decodedRequest C body of
                  None \<Rightarrow> (Some (upFailure ''pending_request_invalid''), m)
                | Some r \<Rightarrow>
                    if urCommandID r = commandID \<and> mfVersion (urManifest r) = version
                    then (case waitForHelper C commandID version ticks m of (out, m) \<Rightarrow> (Some out, m))
                    else (Some (upFailure ''upgrade_busy''), m))
           | (NoActive, m) \<Rightarrow> (None, m)
           | (ActiveError, m) \<Rightarrow> (None, m)))"

subsection \<open>Download\<close>

definition secureDownloadURL :: "parsed_url option \<Rightarrow> bool" where
  "secureDownloadURL value =
     (case value of None \<Rightarrow> False | Some u \<Rightarrow> uScheme u = ''https'' \<and> uHostname u \<noteq> [] \<and> \<not> uHasUser u)"

text \<open>The redirect check: at most five requests, each to a secure URL, and the client's own check if it has one.\<close>

definition checkRedirect :: "(parsed_url \<Rightarrow> nat \<Rightarrow> bool) option \<Rightarrow> parsed_url \<Rightarrow> nat \<Rightarrow> bool" where
  "checkRedirect original u via =
     (if 5 \<le> via \<or> \<not> secureDownloadURL (Some u) then False
      else case original of None \<Rightarrow> True | Some f \<Rightarrow> f u via)"

text \<open>What the HTTP client makes of a URL under a redirect check: no response, or its status, final URL,
  declared length and body (with a flag when reading it fails).\<close>

record http_response =
  htStatus :: int
  htURL :: "parsed_url option"
  htContentLength :: int
  htBody :: bytes
  htReadOk :: bool

record http_client =
  hcOwnCheck :: "(parsed_url \<Rightarrow> nat \<Rightarrow> bool) option"
  hcGet :: "bytes \<Rightarrow> (parsed_url \<Rightarrow> nat \<Rightarrow> bool) \<Rightarrow> http_response option"

definition download :: "http_client \<Rightarrow> manifest \<Rightarrow> bytes option" where
  "download h m =
     (case hcGet h (mfArtifactURL m) (checkRedirect (hcOwnCheck h)) of
        None \<Rightarrow> None
      | Some response \<Rightarrow>
          if htStatus response \<noteq> 200 \<or> \<not> secureDownloadURL (htURL response) \<or> MaxArtifactBytes < htContentLength response
          then None
          else
            let body = take (nat MaxArtifactBytes + 1) (htBody response) in
            if \<not> htReadOk response \<or> MaxArtifactBytes < int (length body) then None else Some body)"

subsection \<open>Handling the upgrade command\<close>

text \<open>What one call of the handler meets: the clock before and after the download, the client, the platform and
  the ticks of the wait.\<close>

record upgrade_world =
  uwNow1 :: int64
  uwNow2 :: int64
  uwClient :: http_client
  uwOS :: bytes
  uwArch :: bytes
  uwTicks :: "(node dir \<Rightarrow> node dir) list"

definition upgradeVerify ::
    "verifier \<Rightarrow> upgrade_world \<Rightarrow> manifest \<Rightarrow> bytes \<Rightarrow> bytes option \<Rightarrow> int64 \<Rightarrow> upgrade_manager \<Rightarrow> bool" where
  "upgradeVerify V w mf signature artifact now m \<longleftrightarrow>
     VerifyManifest (vCrypto V) (vParseURL V) (umReleaseKey m) \<lparr>smManifest = mf, smSignature = signature\<rparr>
       \<lparr>voCurrentVersion = umCurrentVersion m, voPanelVersion = umPanelVersion m, voOS = uwOS w, voArch = uwArch w,
        voControlVersion = Version, voArtifact = artifact, voNow = now\<rparr> = None"

definition stageName :: "manifest \<Rightarrow> bytes \<Rightarrow> bytes" where
  "stageName mf commandID = ''net-probe-'' @ mfVersion mf @ ''-'' @ commandID"

definition stageRequest :: "update_payload \<Rightarrow> bytes \<Rightarrow> command \<Rightarrow> upgrade_manager \<Rightarrow> update_request" where
  "stageRequest p commandID cmd m =
     \<lparr>urArtifactBasename = stageName (upManifest p) commandID, urManifest = upManifest p, urSignature = upSignature p,
      urPreviousVersion = umCurrentVersion m, urAgentID = umAgentID m, urCommandID = commandID, urCommand = cmd\<rparr>"

text \<open>The artifact, then the request; a failed request removes the artifact again.\<close>

definition stageUpdate ::
    "codec \<Rightarrow> update_payload \<Rightarrow> bytes \<Rightarrow> command \<Rightarrow> bytes \<Rightarrow> upgrade_manager \<Rightarrow> bool \<times> upgrade_manager" where
  "stageUpdate C p commandID cmd artifact m =
     (let basename = stageName (upManifest p) commandID; request = stageRequest p commandID cmd m;
          (ok, m) = writeAtomic basename artifact m
      in if \<not> ok then (False, m)
         else
           let (ok, m) = writeAtomic PendingRequestFile (encRequest C request) m in
           if \<not> ok then (False, removeFile basename m) else syncDirectory m)"

definition downloadAndStage ::
    "verifier \<Rightarrow> upgrade_world \<Rightarrow> update_payload \<Rightarrow> bytes \<Rightarrow> bytes \<Rightarrow> command \<Rightarrow> upgrade_manager \<Rightarrow> upgrade_outcome \<times> upgrade_manager" where
  "downloadAndStage V w p signature commandID cmd m =
     (if \<not> upgradeVerify V w (upManifest p) signature None (uwNow1 w) m then (upFailure ''invalid_release'', m)
      else case download (uwClient w) (upManifest p) of
        None \<Rightarrow> (upFailure ''download_failed'', m)
      | Some artifact \<Rightarrow>
          if \<not> upgradeVerify V w (upManifest p) signature (Some artifact) (uwNow2 w) m
          then (upFailure ''artifact_verification_failed'', m)
          else
            let (ok, m) = stageUpdate (vCodec V) p commandID cmd artifact m in
            if \<not> ok then (upFailure ''stage_write_failed'', m)
            else waitForHelper (vCodec V) commandID (mfVersion (upManifest p)) (uwTicks w) m)"

text \<open>\<open>envelope\<close> is the command the executor put into the context.\<close>

definition Handle ::
    "verifier \<Rightarrow> upgrade_world \<Rightarrow> bytes \<Rightarrow> bytes \<Rightarrow> command option \<Rightarrow> upgrade_manager \<Rightarrow> upgrade_outcome \<times> upgrade_manager" where
  "Handle V w raw commandID envelope m =
     (case StrictDecodePayload (payload_text (vCodec V) raw) of
        Inl e \<Rightarrow> (upFailure ''invalid_payload'', m)
      | Inr p \<Rightarrow>
          if \<not> validCanonicalUUID commandID then (upFailure ''invalid_payload'', m)
          else (case envelope of
            None \<Rightarrow> (upFailure ''invalid_command_envelope'', m)
          | Some cmd \<Rightarrow>
              if cAction cmd \<noteq> Upgrade \<or> cCommandID cmd \<noteq> commandID \<or> cPayload cmd \<noteq> raw
              then (upFailure ''invalid_command_envelope'', m)
              else if upPanelVersion p = [] \<or> upPanelVersion p \<noteq> umPanelVersion m
              then (upFailure ''panel_version_mismatch'', m)
              else (case decode_signature (upSignature p) of
                None \<Rightarrow> (upFailure ''invalid_release'', m)
              | Some signature \<Rightarrow>
                  (case existingOutcome (vCodec V) commandID (mfVersion (upManifest p)) (uwTicks w) m of
                     (Some out, m) \<Rightarrow> (out, m)
                   | (None, m) \<Rightarrow> downloadAndStage V w p signature commandID cmd m))))"

subsection \<open>Readiness\<close>

definition SetPanelVersion :: "bytes \<Rightarrow> upgrade_manager \<Rightarrow> upgrade_manager" where
  "SetPanelVersion version m =
     (if version = [] \<or> 128 < length version then m else m\<lparr>umPanelVersion := version\<rparr>)"

datatype ready_signal = SystemSignal | ControlSignal | ReportSignal

fun recordSignal :: "ready_signal \<Rightarrow> upgrade_manager \<Rightarrow> upgrade_manager" where
  "recordSignal SystemSignal m = m\<lparr>umSystemReady := True\<rparr>"
| "recordSignal ControlSignal m = m\<lparr>umControlReady := True\<rparr>"
| "recordSignal ReportSignal m = m\<lparr>umReportReady := True\<rparr>"

definition readyProof :: "upgrade_manager \<Rightarrow> bytes \<Rightarrow> upgrade_proof" where
  "readyProof m commandID =
     \<lparr>prVersion = umCurrentVersion m, prAgentID = umAgentID m, prCommandID = commandID, prBootID = umBootID m\<rparr>"

definition writeProof :: "codec \<Rightarrow> upgrade_proof \<Rightarrow> upgrade_manager \<Rightarrow> upgrade_manager" where
  "writeProof C proof m =
     (let (ok, m) = uios 6 m in
      if \<not> ok then m else m\<lparr>umProof := Some (agent_node m (encProof C proof)), umProofWritten := True\<rparr>)"

definition markReady :: "codec \<Rightarrow> ready_signal \<Rightarrow> upgrade_manager \<Rightarrow> upgrade_manager" where
  "markReady C signal m =
     (let m = recordSignal signal m in
      if umProofWritten m \<or> \<not> umSystemReady m \<or> \<not> umControlReady m \<or> \<not> umReportReady m then m
      else (case readFile PendingRequestFile m of
        (FileBody body, m) \<Rightarrow>
          (case decodedRequest C body of
             None \<Rightarrow> m
           | Some r \<Rightarrow>
               if urAgentID r \<noteq> umAgentID m \<or> mfVersion (urManifest r) \<noteq> umCurrentVersion m then m
               else writeProof C (readyProof m (urCommandID r)) m)
      | (FileMissing, m) \<Rightarrow> m
      | (FileUnreadable, m) \<Rightarrow> m))"

subsection \<open>Opening\<close>

text \<open>The environment: the update directory named by it, if any, with what \<open>Lstat\<close> says of it, whether the default directory could be
  made and its mode set, the boot identifier, the runtime directory, and whether an old proof could be removed. The
  paths only matter as far as they are checked.\<close>

record upgrade_env =
  ueDirectory :: bytes
  ueStat :: "node option"
  ueMkdirOk :: bool
  ueChmodOk :: bool
  ueBootID :: "bytes option"
  ueRuntimeDir :: bytes
  ueContents :: "node dir"
  ueProof :: "node option"
  ueRemoveOk :: bool
  ueFaults :: "bool list"

record agent_identity =
  aiAgentID :: bytes
  aiReleaseKey :: bytes

definition upgradeDirectory :: "bytes \<Rightarrow> upgrade_env \<Rightarrow> bytes" where
  "upgradeDirectory stateDir e = (if ueDirectory e \<noteq> [] then ueDirectory e else path_join [stateDir, ''updates''])"

definition directoryUsable :: "upgrade_env \<Rightarrow> bool" where
  "directoryUsable e \<longleftrightarrow>
     (if ueDirectory e \<noteq> []
      then (case ueStat e of None \<Rightarrow> False | Some n \<Rightarrow> ndKind n = Folder \<and> perm n = 504)
      else ueMkdirOk e \<and> ueChmodOk e)"

definition proofPath :: "upgrade_env \<Rightarrow> bytes" where
  "proofPath e =
     path_join [if \<not> path_abs (ueRuntimeDir e) \<or> path_clean (ueRuntimeDir e) = ''/'' then ''/run/net-probe'' else ueRuntimeDir e,
                UpgradeProofFile]"

definition NewUpgradeManager ::
    "bytes \<Rightarrow> agent_identity option \<Rightarrow> bytes \<Rightarrow> upgrade_env \<Rightarrow> int \<Rightarrow> int \<Rightarrow> upgrade_manager option" where
  "NewUpgradeManager stateDir identity currentVersion e uid gid =
     (case identity of
        None \<Rightarrow> None
      | Some i \<Rightarrow>
          if stateDir = [] \<or> \<not> validCanonicalUUID (aiAgentID i) \<or> length (aiReleaseKey i) \<noteq> PublicKeySize \<or> currentVersion = []
          then None
          else
            let dir = upgradeDirectory stateDir e in
            if \<not> path_abs dir \<or> path_clean dir = ''/'' then None
            else if \<not> directoryUsable e then None
            else (case ueBootID e of
              None \<Rightarrow> None
            | Some bootID \<Rightarrow>
                Some \<lparr>umDir = ueContents e, umAgentID = aiAgentID i, umReleaseKey = aiReleaseKey i,
                      umCurrentVersion = currentVersion, umPanelVersion = [], umBootID = bootID, umProof = (if ueRemoveOk e then None else ueProof e),
                      umSystemReady = False, umControlReady = False, umReportReady = False, umProofWritten = False,
                      umUID = uid, umGID = gid, umFaults = ueFaults e\<rparr>))"

subsection \<open>A claimed upgrade is never proved\<close>

context helper_invariant
begin

lemma unproved_fails:
  assumes wait: "\<And>p d t. inv t \<Longrightarrow> \<not> fst (hsWaitProof sys p d t)"
    and start: "inv s" and run: "ApplyVerifiedUpdate (Some sys) r a d s = (res, ok, s')"
  shows "hrState res = ''failed'' \<and> \<not> ok"
proof -
  have init: "hrState (initialResult r) = ''failed''" by (simp add: initialResult_def)
  have wr: "hrState res = ''failed'' \<and> \<not> ok" if "writeResult sys q False t = (res, ok, s')" "hrState q = ''failed''" for q t
    using that by (auto simp: writeResult_def split: prod.splits)
  have rb: "hrState res = ''failed'' \<and> \<not> ok" if "rollback sys x (initialResult r) t = (res, ok, s')" for x t
    using that init by (auto simp: rollback_def writeResult_def Let_def split: prod.splits)
  have fin: "hrState res = ''failed'' \<and> \<not> ok" if i: "inv t" and f: "finishUpdate sys r x y d t = (res, ok, s')" for x y t
  proof -
    obtain b1 s1 where 1: "hsRestart sys t = (b1, s1)" by (metis surj_pair)
    obtain b2 s2 where 2: "hsWaitProof sys (expectedProof r) (clampProofTimeout d) s1 = (b2, s2)" by (metis surj_pair)
    have "\<not> b2" using wait [OF inv_restart [OF i 1]] 2 by (metis fst_conv)
    then have "rollback sys x (initialResult r) s1 = (res, ok, s') \<or> rollback sys x (initialResult r) s2 = (res, ok, s')"
      using f unfolding finishUpdate_def Let_def 1 2 prod.case by (simp split: if_split_asm)
    then show ?thesis using rb by blast
  qed
  obtain c s1 where 1: "hsCurrentTarget sys s = (c, s1)" by (metis surj_pair)
  obtain i s2 where 2: "hsInstall sys (mfVersion (urManifest r)) a s1 = (i, s2)" by (metis surj_pair)
  obtain b s3 where 3: "hsSwitch sys (the i) s2 = (b, s3)" by (metis surj_pair)
  have "inv s3" using start 1 2 3 inv_current inv_install inv_switch by blast
  then show ?thesis
    using run init unfolding ApplyVerifiedUpdate_def Let_def 1 2 3 prod.case option.case
    by (auto split: if_split_asm dest: wr fin)
qed

end

definition unproved :: "root_sys \<Rightarrow> bool" where
  "unproved s \<longleftrightarrow> rsProof s = None \<and> (\<forall>n\<in>set (rsPolls s). n = None)"

lemma Restart_proof: "Restart s = (ok, s') \<Longrightarrow> rsProof s' = None \<or> rsProof s' = rsProof s"
proof -
  assume run: "Restart s = (ok, s')"
  obtain b u where 1: "rio s = (b, u)" by (metis surj_pair)
  have 2: "rio (if b then u\<lparr>rsProof := None\<rparr> else u) = (ok, s')" using run 1 by (simp add: Restart_def)
  show ?thesis using rio_frame [OF 1] rio_frame [OF 2] by (cases b) (simp_all add: only_faults_def)
qed

lemma Retain_proof: "Retain x y s = (ok, s') \<Longrightarrow> rsProof s' = rsProof s"
proof -
  assume run: "Retain x y s = (ok, s')"
  obtain b1 s1 where 1: "rio s = (b1, s1)" by (metis surj_pair)
  obtain b2 s2 where 2: "retainEntries (retain_keep x y) (rsVersions s1) s1 = (b2, s2)" by (metis surj_pair)
  obtain b3 s3 where 3: "syncRootDirectory s2 = (b3, s3)" by (metis surj_pair)
  have "s' \<in> {s1, s2, s3}" using run by (auto simp: Retain_def 1 2 3 split: if_splits)
  then show ?thesis
    using rio_frame [OF 1] retainEntries_law [OF 2] syncRootDirectory_frame [OF 3] by (auto simp: only_faults_def)
qed

interpretation root_unproved: helper_invariant "rootHelperSystem C" unproved for C
proof (unfold_locales, unfold rootHelperSystem_simps)
  fix s s' and t :: "bytes option"
  assume "unproved s" "CurrentTarget s = (t, s')"
  then show "unproved s'" using CurrentTarget_law [of s t s'] by (auto simp: unproved_def only_faults_def root_env_def)
next
  fix v a s s' and t :: "bytes option"
  assume "unproved s" "Install v a s = (t, s')"
  then show "unproved s'" using Install_law [of v a s t s'] by (auto simp: unproved_def only_version_def root_env_def)
next
  fix x s ok s'
  assume "unproved s" "SwitchLink x s = (ok, s')"
  then show "unproved s'" using SwitchLink_law [of x s ok s'] by (auto simp: unproved_def root_env_def)
next
  fix s ok s'
  assume "unproved s" "Restart s = (ok, s')"
  then show "unproved s'" using Restart_law [of s ok s'] Restart_proof [of s ok s'] by (auto simp: unproved_def root_env_def)
next
  fix p d s ok s'
  assume "unproved s" "WaitProof C p d s = (ok, s')"
  then show "unproved s'" by (simp add: WaitProof_def)
next
  fix x y s ok s'
  assume "unproved s" "Retain x y s = (ok, s')"
  then show "unproved s'" using Retain_law [of x y s ok s'] Retain_proof [of x y s ok s'] by (auto simp: unproved_def root_env_def)
next
  fix r s ok s'
  assume a: "unproved s" "WriteResult C r s = (ok, s')"
  have "writeAtomicOwnedAt HelperResultFile (encResult C r) 416 0 (rsAgentGID s) s = (ok, s')"
    using a(2) by (simp add: WriteResult_def)
  note law = writeAtomicOwnedAt_law [OF this]
  show "unproved s'" using a(1) law by (auto simp: unproved_def root_env_def)
qed

lemma waitLoop_None: "\<forall>n\<in>set polls. n = None \<Longrightarrow> \<not> waitLoop C p s polls"
  by (induction polls) (auto simp: pollProof_def readFixedOwnedFile_def readFixedOwnedFileAt_def open_node_def)

lemma unproved_waits: "unproved s \<Longrightarrow> \<not> fst (WaitProof C p d s)"
  using waitLoop_None [of "rsProof s # take (nat (d div 250000000)) (rsPolls s)" C p s]
  by (auto simp: WaitProof_def unproved_def dest: in_set_takeD)

text \<open>Managers that differ in their pending faults only.\<close>

definition quiet :: "upgrade_manager \<Rightarrow> upgrade_manager" where
  "quiet m = m\<lparr>umFaults := []\<rparr>"

lemma quiet_fields:
  assumes "quiet m' = quiet m"
  shows "umDir m' = umDir m" "umProof m' = umProof m" "umUID m' = umUID m" "umGID m' = umGID m"
    "umCurrentVersion m' = umCurrentVersion m" "umAgentID m' = umAgentID m" "umProofWritten m' = umProofWritten m"
  using assms by (cases m; cases m'; simp add: quiet_def)+

lemma uio_quiet: "uio m = (ok, m') \<Longrightarrow> quiet m' = quiet m"
  by (auto simp: uio_def quiet_def split: list.splits)

lemma readFile_quiet:
  assumes "readFile name m = (r, m')"
  shows "quiet m' = quiet m" and "map_of (umDir m) name = None \<Longrightarrow> r = FileMissing \<or> r = FileUnreadable"
    and "r = FileBody b \<Longrightarrow> \<exists>n. map_of (umDir m) name = Some n \<and> ndKind n = Regular \<and> ndData n = b"
proof -
  obtain ok u where 1: "uio m = (ok, u)" by (metis surj_pair)
  note q = uio_quiet [OF 1] quiet_fields [OF uio_quiet [OF 1]]
  show "quiet m' = quiet m" "map_of (umDir m) name = None \<Longrightarrow> r = FileMissing \<or> r = FileUnreadable"
    "r = FileBody b \<Longrightarrow> \<exists>n. map_of (umDir m) name = Some n \<and> ndKind n = Regular \<and> ndData n = b"
    using assms q unfolding readFile_def 1 Let_def prod.case by (auto split: if_split_asm option.split_asm)
qed

text \<open>An Agent whose directory holds no pending request.\<close>

definition claimed_agent :: "upgrade_manager \<Rightarrow> bool" where
  "claimed_agent m \<longleftrightarrow> map_of (umDir m) PendingRequestFile = None \<and> umProof m = None"

lemma markReady_claimed: "claimed_agent m \<Longrightarrow> claimed_agent (markReady C signal m)"
proof -
  assume a: "claimed_agent m"
  let ?m = "recordSignal signal m"
  have b: "claimed_agent ?m" using a by (cases signal) (simp_all add: claimed_agent_def)
  obtain r t where 1: "readFile PendingRequestFile ?m = (r, t)" by (metis surj_pair)
  have "claimed_agent t \<and> r \<in> {FileMissing, FileUnreadable}"
    using readFile_quiet(2) [OF 1] quiet_fields [OF readFile_quiet(1) [OF 1]] b by (simp add: claimed_agent_def)
  then show ?thesis using 1 b by (auto simp: markReady_def Let_def)
qed

lemma markAll_claimed: "claimed_agent m \<Longrightarrow> claimed_agent (fold (markReady C) signals m)"
  by (induction signals arbitrary: m) (simp_all add: markReady_claimed)

text \<open>C13. The helper renames the pending request to the claimed one before it applies it, but an Agent writes its proof only when it
  finds the pending request. So if the proof file is only ever written by Agents that mark themselves ready, in
  whatever order, while no pending request exists, then no upgrade succeeds.\<close>

theorem claimed_upgrade_never_succeeds:
  assumes "rsProof s = None"
    and "\<forall>n\<in>set (rsPolls s). \<exists>m signals. map_of (umDir m) PendingRequestFile = None \<and> umProof m = None \<and>
      n = umProof (fold (markReady C) signals m)"
    and "ApplyVerifiedUpdate (Some (rootHelperSystem C)) r a d s = (res, ok, s')"
  shows "hrState res = ''failed'' \<and> \<not> ok"
proof -
  have "unproved s"
    using assms(1,2) markAll_claimed by (fastforce simp: unproved_def claimed_agent_def)
  then show ?thesis
    using root_unproved.unproved_fails [OF _ _ assms(3)] unproved_waits rootHelperSystem_simps by metis
qed


definition sample_agent :: upgrade_manager where
  "sample_agent = \<lparr>umDir = [], umAgentID = sample_uuid, umReleaseKey = sample_public, umCurrentVersion = ''1.2.2'',
     umPanelVersion = ''1.0.0'', umBootID = ''b'', umProof = None, umSystemReady = False, umControlReady = False,
     umReportReady = False, umProofWritten = False, umUID = 7, umGID = 8, umFaults = []\<rparr>"

theorem claimed_upgrade_never_succeeds_witness:
  "hrState (fst (ApplyVerifiedUpdate (Some (rootHelperSystem sample_codec)) sample_request ''abc'' 0
      (sample_root\<lparr>rsPolls := [umProof (fold (markReady sample_codec) [SystemSignal, ReportSignal, ControlSignal] sample_agent)]\<rparr>))) =
    ''failed''"
proof -
  let ?s = "sample_root\<lparr>rsPolls := [umProof (fold (markReady sample_codec) [SystemSignal, ReportSignal, ControlSignal] sample_agent)]\<rparr>"
  obtain res ok s' where run: "ApplyVerifiedUpdate (Some (rootHelperSystem sample_codec)) sample_request ''abc'' 0 ?s = (res, ok, s')"
    using prod_cases3 by blast
  have "map_of (umDir sample_agent) PendingRequestFile = None" "umProof sample_agent = None" by (simp_all add: sample_agent_def)
  then have polls: "\<forall>n\<in>set (rsPolls ?s). \<exists>m signals. map_of (umDir m) PendingRequestFile = None \<and> umProof m = None \<and>
      n = umProof (fold (markReady sample_codec) signals m)"
    by (simp del: fold_simps fold.simps) blast
  have start: "rsProof ?s = None" by (simp add: sample_root_def)
  show ?thesis using claimed_upgrade_never_succeeds [OF start polls run] run by simp
qed

subsection \<open>Reporting the helper's result\<close>

lemma readActive_quiet: "readActive names m = (a, m') \<Longrightarrow> quiet m' = quiet m \<and>
    (\<forall>body name. a = Active body name \<longrightarrow>
      (\<exists>n. name \<in> set names \<and> map_of (umDir m) name = Some n \<and> ndKind n = Regular \<and> ndData n = body))"
proof (induction names m arbitrary: m' rule: readActive.induct)
  case (2 name names m)
  obtain r u where 1: "readFile name m = (r, u)" by (metis surj_pair)
  note q = readFile_quiet(1) [OF 1]
  show ?case
  proof (cases r)
    case FileMissing
    then have "readActive names u = (a, m')" using 2(2) 1 by simp
    then show ?thesis using 2(1) [OF 1 [symmetric] FileMissing] q quiet_fields(1) [OF q] by auto
  next
    case FileUnreadable
    then show ?thesis using 2(2) 1 q by auto
  next
    case (FileBody body)
    then show ?thesis using 2(2) 1 q readFile_quiet(3) [OF 1 FileBody] by auto
  qed
qed simp

text \<open>C14. An upgrade is reported as succeeded only if the running Agent is the new version, the helper's durable result says succeeded for exactly
  this command and version, and the claimed or pending request in the directory is of this command and this version and
  names the version the helper replaced.\<close>

theorem reported_success_is_genuine:
  assumes "helperOutcome C commandID version m = (Some (out, after), m')" and "\<not> oFailed out"
  shows "umCurrentVersion m = version \<and> oPending out = False \<and> after = CleanupCommand commandID \<and>
    (\<exists>n result. map_of (umDir m) HelperResultFile = Some n \<and> decodeStrictJSON (decResult C (ndData n)) = Some result \<and>
       hrState result = ''succeeded'' \<and> hrCommandID result = commandID \<and> hrVersion result = version \<and>
       (\<exists>name q r. name \<in> {ClaimedRequestFile, PendingRequestFile} \<and> map_of (umDir m) name = Some q \<and>
          DecodeUpdateRequest C (ndData q) = Inr r \<and> urCommandID r = commandID \<and> mfVersion (urManifest r) = version \<and>
          urPreviousVersion r = hrPreviousVersion result))"
proof -
  have nofail: "(out, after) \<noteq> upFailure c" "upFailure c \<noteq> (out, after)" for c
    using assms(2) by (auto simp: upFailure_def)
  obtain r1 m1 where 1: "readFile HelperResultFile m = (r1, m1)" by (metis surj_pair)
  note q1 = quiet_fields [OF readFile_quiet(1) [OF 1]]
  obtain body where r1: "r1 = FileBody body" using assms(1) 1 by (cases r1) (auto simp: helperOutcome_def)
  obtain n where n: "map_of (umDir m) HelperResultFile = Some n" "ndData n = body" using readFile_quiet(3) [OF 1 r1] by blast
  obtain result where res: "decodeStrictJSON (decResult C body) = Some result"
    using assms(1) 1 r1 nofail by (cases "decodeStrictJSON (decResult C body)") (auto simp: helperOutcome_def)
  have run: "(if hrState result = ''failed'' \<and> hrCode result = ''upgrade_rejected'' \<and> (hrCommandID result = [] \<or> hrCommandID result = commandID)
       then (Some (rejectedOutcome result commandID version m1), m1)
       else if hrCommandID result = [] then (Some (upFailure ''helper_result_invalid''), m1)
       else if hrCommandID result = commandID then
         (case ownOutcome C result commandID version m1 of (out, m) \<Rightarrow> (Some out, m))
       else (case cleanupCompleted C (hrCommandID result) m1 of
          (True, m) \<Rightarrow> (None, removeFile HelperResultFile m)
        | (False, m) \<Rightarrow> (Some (upFailure ''upgrade_busy''), m))) = (Some (out, after), m')"
    using assms(1) 1 r1 res by (simp add: helperOutcome_def)
  have rej: "(out, after) \<noteq> rejectedOutcome result commandID version m1"
    using assms(2) nofail by (auto simp: rejectedOutcome_def)
  have own: "hrCommandID result = commandID" "ownOutcome C result commandID version m1 = ((out, after), m')"
    using run rej nofail by (auto split: if_split_asm prod.split_asm bool.split_asm)
  obtain a m2 where 2: "readActiveRequest m1 = (a, m2)" by (metis surj_pair)
  have ra: "readActive [ClaimedRequestFile, PendingRequestFile] m1 = (a, m2)" using 2 by (simp add: readActiveRequest_def)
  obtain ab name where a: "a = Active ab name" using own(2) 2 nofail by (cases a) (auto simp: ownOutcome_def)
  obtain r where r: "decodedRequest C ab = Some r"
    using own(2) 2 a nofail by (cases "decodedRequest C ab") (auto simp: ownOutcome_def)
  have match: "resultMatches result r commandID version m2" using own(2) 2 a r nofail by (auto simp: ownOutcome_def split: if_split_asm)
  have out: "out = \<lparr>oCode = hrCode result, oData = versionObject (hrVersion result), oFailed = (hrState result = ''failed''),
      oPending = False, oAfterPersist = True\<rparr>" "after = CleanupCommand commandID"
    using own(2) 2 a r match by (auto simp: ownOutcome_def)
  have act: "name \<in> {ClaimedRequestFile, PendingRequestFile} \<and> (\<exists>q. map_of (umDir m) name = Some q \<and> ndData q = ab)"
    using readActive_quiet [OF ra] a q1(1) by auto
  have cur: "umCurrentVersion m2 = umCurrentVersion m"
    using quiet_fields(5) readActive_quiet [OF ra] q1(5) by metis
  have dec: "DecodeUpdateRequest C ab = Inr r" using r by (auto simp: decodedRequest_def split: sum.splits)
  have "hrState result = ''succeeded''" using match out assms(2) by (auto simp: resultMatches_def Let_def)
  then show ?thesis
    using match out n res own(1) act cur dec by (auto simp: resultMatches_def Let_def)
qed

definition reporting_codec :: codec where
  "reporting_codec = sample_codec\<lparr>decResult := (\<lambda>b. JsonDoc sample_success)\<rparr>"

definition sample_reporter :: upgrade_manager where
  "sample_reporter = sample_agent\<lparr>umCurrentVersion := ''1.2.3'',
     umDir := [(''claimed.json'', owned_node 384 7 8 ''r''), (''result.json'', owned_node 416 0 8 ''s'')]\<rparr>"

theorem reported_success_is_genuine_witness:
  "\<exists>out after m'. helperOutcome reporting_codec sample_uuid ''1.2.3'' sample_reporter = (Some (out, after), m') \<and>
     \<not> oFailed out \<and> after = CleanupCommand sample_uuid"
proof -
  have flt: "umFaults sample_reporter = []" by (simp add: sample_reporter_def sample_agent_def)
  have rd: "readFile HelperResultFile sample_reporter = (FileBody ''s'', sample_reporter)"
    "readActiveRequest sample_reporter = (Active ''r'' ClaimedRequestFile, sample_reporter)"
    by (simp_all add: readActiveRequest_def readFile_def uio_def sample_reporter_def sample_agent_def update_files owned_node_def)
  have res: "hrState sample_success = ''succeeded''" "hrCommandID sample_success = sample_uuid" "sample_uuid \<noteq> []"
    by (simp_all add: sample_success_def initialResult_def sample_request_def sample_uuid_def)
  have dec: "decodedRequest reporting_codec ''r'' = Some sample_request"
    by (simp add: decodedRequest_def DecodeUpdateRequest_def reporting_codec_def sample_codec_def)
  have decRes: "decResult reporting_codec b = JsonDoc sample_success" for b by (simp add: reporting_codec_def)
  have match: "resultMatches sample_success sample_request sample_uuid ''1.2.3'' sample_reporter"
    by (simp add: resultMatches_def sample_success_def initialResult_def sample_request_def sample_release_def
        sample_manifest_def sample_reporter_def)
  have run: "\<exists>out after m'. helperOutcome reporting_codec sample_uuid ''1.2.3'' sample_reporter = (Some (out, after), m') \<and>
     \<not> oFailed out"
    using rd res dec match
    by (simp add: helperOutcome_def decodeStrictJSON_def ownOutcome_def
        decRes)
  then obtain out after m' where o: "helperOutcome reporting_codec sample_uuid ''1.2.3'' sample_reporter = (Some (out, after), m')"
    "\<not> oFailed out" by blast
  show ?thesis using reported_success_is_genuine [OF o] o by blast
qed

subsection \<open>Cleaning up after an upgrade\<close>

lemma staged_name_unsafe: "\<not> safeUpgradeBasename (stageName mf commandID)"
  by (simp add: safeUpgradeBasename_def contains_any_def raw_name_chars_def stageName_def)

lemma quiet_faultless: "umFaults m = [] \<Longrightarrow> readFile name m =
    (case map_of (umDir m) name of None \<Rightarrow> FileMissing | Some n \<Rightarrow> if ndKind n = Regular then FileBody (ndData n) else FileUnreadable, m)"
  by (simp add: readFile_def uio_def split: option.splits)

text \<open>Every artifact name the Agent stages contains the letter n, which its own check of names takes for an
  unsafe character. So the cleanup after an upgrade of a claimed request does nothing, and as long as the
  helper's result lies there every upgrade command with another identifier is answered by upgrade_busy.\<close>

theorem completed_upgrade_blocks_later_ones:
  assumes "umFaults m = []"
    and "map_of (umDir m) ClaimedRequestFile = Some n" and "ndKind n = Regular"
    and "DecodeUpdateRequest C (ndData n) = Inr r" and "urArtifactBasename r = stageName (urManifest r) (urCommandID r)"
    and "map_of (umDir m) HelperResultFile = Some q" and "ndKind q = Regular"
    and "decResult C (ndData q) = JsonDoc result" and "hrCommandID result = urCommandID r" and "urCommandID r \<noteq> []"
  shows "runAfterPersist C (CleanupCommand (urCommandID r)) m = m \<and>
    (\<forall>other version. other \<noteq> urCommandID r \<longrightarrow>
       helperOutcome C other version m = (Some (upFailure ''upgrade_busy''), m))"
proof -
  have act: "readActiveRequest m = (Active (ndData n) ClaimedRequestFile, m)"
    using assms(1-3) by (simp add: readActiveRequest_def quiet_faultless)
  have dec: "decodedRequest C (ndData n) = Some r" using assms(4) by (simp add: decodedRequest_def)
  have clean: "cleanupCompleted C (urCommandID r) m = (False, m)"
    using assms(5) staged_name_unsafe by (simp add: cleanupCompleted_def act dec)
  have "readFile HelperResultFile m = (FileBody (ndData q), m)"
    using assms(1,6,7) by (simp add: quiet_faultless)
  then show ?thesis
    using clean assms(8-10) by (auto simp: cleanupCommand_def helperOutcome_def decodeStrictJSON_def)
qed

definition stuck_codec :: codec where
  "stuck_codec = reporting_codec\<lparr>decRequest :=
     (\<lambda>b. JsonDoc (sample_request\<lparr>urArtifactBasename := stageName (urManifest sample_request) sample_uuid\<rparr>))\<rparr>"

theorem completed_upgrade_blocks_later_ones_witness:
  "helperOutcome stuck_codec ''next'' ''1.2.4'' sample_reporter = (Some (upFailure ''upgrade_busy''), sample_reporter)"
proof -
  let ?r = "sample_request\<lparr>urArtifactBasename := stageName (urManifest sample_request) sample_uuid\<rparr>"
  have id: "urCommandID ?r = sample_uuid" "urManifest ?r = urManifest sample_request" "sample_uuid \<noteq> ''next''" "sample_uuid \<noteq> []"
    by (simp_all add: sample_request_def sample_uuid_def)
  have "runAfterPersist stuck_codec (CleanupCommand (urCommandID ?r)) sample_reporter = sample_reporter \<and>
    (\<forall>other version. other \<noteq> urCommandID ?r \<longrightarrow>
       helperOutcome stuck_codec other version sample_reporter = (Some (upFailure ''upgrade_busy''), sample_reporter))"
  proof (rule completed_upgrade_blocks_later_ones)
    show "umFaults sample_reporter = []" by (simp add: sample_reporter_def sample_agent_def)
    show "map_of (umDir sample_reporter) ClaimedRequestFile = Some (owned_node 384 7 8 ''r'')"
      "map_of (umDir sample_reporter) HelperResultFile = Some (owned_node 416 0 8 ''s'')"
      by (simp_all add: sample_reporter_def update_files)
    show "DecodeUpdateRequest stuck_codec (ndData (owned_node 384 7 8 ''r'')) = Inr ?r"
      by (simp add: DecodeUpdateRequest_def stuck_codec_def owned_node_def)
    show "decResult stuck_codec (ndData (owned_node 416 0 8 ''s'')) = JsonDoc sample_success"
      by (simp add: stuck_codec_def reporting_codec_def)
    show "hrCommandID sample_success = urCommandID ?r"
      by (simp add: sample_success_def initialResult_def sample_request_def)
  qed (use id in \<open>simp_all add: owned_node_def\<close>)
  then show ?thesis using id by auto
qed


subsection \<open>The helper accepts what the Agent stages\<close>

lemma length_dec_digits: "n < 10 ^ k \<Longrightarrow> 0 < k \<Longrightarrow> length (dec_digits n) \<le> k"
proof (induction n arbitrary: k rule: dec_digits.induct)
  case (1 n)
  show ?case
  proof (cases "n < 10")
    case True
    then show ?thesis using 1(3) by (subst dec_digits.simps) simp
  next
    case False
    obtain j where j: "k = Suc j" using 1(3) gr0_implies_Suc by blast
    have "0 < j" using False 1(2) j by (cases j) auto
    moreover have "n div 10 < 10 ^ j" using 1(2) j by (simp add: div_less_iff_less_mult mult.commute)
    ultimately have "length (dec_digits (n div 10)) \<le> j" using 1(1) False by blast
    then show ?thesis using False j by (subst dec_digits.simps) simp
  qed
qed

lemma semver_chars:
  assumes "parseSemver v = Some w"
  shows "length v \<le> 60 \<and> (\<forall>c\<in>set v. c = CHR ''v'' \<or> c = CHR ''.'' \<or> is_digit c)"
proof -
  obtain a b c where w: "w = (a, b, c)" by (cases w) auto
  have small: "a < 2 ^ 63 \<and> b < 2 ^ 63 \<and> c < 2 ^ 63"
    using assms semver_part_text unfolding w parseSemver_def
    by (auto simp: map_eq_Cons_conv split: list.splits option.splits)
  have len: "length (dec_digits n) \<le> 19" if "n < 2 ^ 63" for n
    using that by (intro length_dec_digits) simp_all
  have t: "trim_prefix v ''v'' = dec_digits a @ ''.'' @ dec_digits b @ ''.'' @ dec_digits c"
    using parseSemver_only_text [OF assms] w by (simp add: semver_text_def)
  define u where "u = trim_prefix v ''v''"
  have v: "v = u \<or> v = CHR ''v'' # u"
  proof (cases "has_prefix v ''v''")
    case True
    then show ?thesis by (cases v) (auto simp: u_def trim_prefix_def has_prefix_def)
  next
    case False
    then show ?thesis by (simp add: u_def trim_prefix_def)
  qed
  have "length u \<le> 59" unfolding u_def t using len [of a] len [of b] len [of c] small by simp
  moreover have "\<forall>d\<in>set u. d = CHR ''.'' \<or> is_digit d"
    unfolding u_def t using dec_digits_digits [of a] dec_digits_digits [of b] dec_digits_digits [of c] by auto
  ultimately show ?thesis using v by (elim disjE) simp_all
qed

lemma canonical_chars: "canonicalUUID v \<Longrightarrow> \<forall>c\<in>set v. c = CHR ''-'' \<or> is_lower_hex c"
  by (fastforce simp: canonicalUUID_def in_set_conv_nth split: if_splits)

lemma stageName_safe:
  assumes "parseSemver (mfVersion mf) = Some w" and "canonicalUUID commandID"
  shows "safeBasename (stageName mf commandID)"
proof -
  let ?n = "stageName mf commandID"
  have len: "length ?n \<le> 255"
    using semver_chars [OF assms(1)] assms(2) by (simp add: stageName_def canonicalUUID_def)
  have bad: "\<not> is_lower_hex CHR ''/''" "\<not> is_lower_hex CHR 0x5C" "\<not> is_lower_hex CHR 0x0D" "\<not> is_lower_hex CHR 0x0A"
    "\<not> is_lower_hex CHR 0x00" "\<not> is_digit CHR ''/''" "\<not> is_digit CHR 0x5C" "\<not> is_digit CHR 0x0D" "\<not> is_digit CHR 0x0A"
    "\<not> is_digit CHR 0x00"
    by (simp_all add: is_lower_hex_def is_digit_def)
  have chars: "\<forall>c\<in>set ?n. c \<notin> {CHR ''/'', CHR 0x5C, CHR 0x0D, CHR 0x0A, CHR 0x00}"
    using semver_chars [OF assms(1)] canonical_chars [OF assms(2)] bad by (fastforce simp: stageName_def)
  have ne: "?n \<noteq> []" "?n \<noteq> ''.''" "?n \<noteq> ''..''" by (simp_all add: stageName_def)
  have base: "path_base ?n = ?n" using path_base_plain [OF ne(1)] chars by blast
  show ?thesis
    using len chars ne base by (auto simp: safeBasename_def contains_any_def list_ex_iff)
qed

lemma uios_quiet: "uios k m = (ok, m') \<Longrightarrow> quiet m' = quiet m"
proof (induction k arbitrary: m)
  case (Suc k)
  obtain b u where 1: "uio m = (b, u)" by (metis surj_pair)
  show ?case
  proof (cases b)
    case True
    then have "uios k u = (ok, m')" using Suc.prems 1 by simp
    then show ?thesis using Suc.IH uio_quiet [OF 1] by metis
  next
    case False
    then show ?thesis using Suc.prems 1 uio_quiet [OF 1] by simp
  qed
qed simp

lemma writeAtomic_stored:
  assumes "writeAtomic name body m = (True, m')"
  shows "umDir m' = dir_put name (agent_node m body) (umDir m) \<and> umUID m' = umUID m \<and> umGID m' = umGID m"
proof -
  obtain b u where 1: "uios 6 m = (b, u)" by (metis surj_pair)
  note q = quiet_fields [OF uios_quiet [OF 1]]
  show ?thesis
    using assms q unfolding writeAtomic_def 1 Let_def prod.case by (auto simp: agent_node_def split: if_split_asm)
qed

lemma stageUpdate_stored:
  assumes "stageUpdate C p commandID cmd artifact m = (True, m')"
  shows "umDir m' = dir_put PendingRequestFile (agent_node m (encRequest C (stageRequest p commandID cmd m)))
     (dir_put (stageName (upManifest p) commandID) (agent_node m artifact) (umDir m))"
proof -
  obtain b1 m1 where 1: "writeAtomic (stageName (upManifest p) commandID) artifact m = (b1, m1)" by (metis surj_pair)
  obtain b2 m2 where 2: "writeAtomic PendingRequestFile (encRequest C (stageRequest p commandID cmd m)) m1 = (b2, m2)"
    by (metis surj_pair)
  have b: "b1" "b2" "syncDirectory m2 = (True, m')"
    using assms unfolding stageUpdate_def Let_def 1 2 prod.case by (simp_all split: if_split_asm)
  have "umDir m' = umDir m2" using b(3) uios_quiet quiet_fields(1) by (metis syncDirectory_def)
  then show ?thesis
    using writeAtomic_stored [of _ _ m m1] writeAtomic_stored [of _ _ m1 m2] 1 2 b by (auto simp: agent_node_def)
qed

text \<open>The options of a helper that serves this Agent.\<close>

definition matching_helper :: "root_options \<Rightarrow> bytes \<Rightarrow> int64 \<Rightarrow> upgrade_manager \<Rightarrow> bool" where
  "matching_helper opts key now m \<longleftrightarrow>
     hoPublicKey opts = umReleaseKey m \<and> hoCommandPublicKey opts = key \<and> hoCurrentVersion opts = umCurrentVersion m \<and>
     hoControlVersion opts = Version \<and> hoAgentID opts = umAgentID m \<and> hoAgentUID opts = umUID m \<and> hoAgentGID opts = umGID m \<and>
     hoNow opts = now"

text \<open>Agent and helper agree: what an Agent stages after verifying release and artifact, for a command that its executor
  admitted, is a pending request that a helper with the same keys, versions, owner and clock reads and validates, and
  it gets exactly the staged artifact.\<close>

theorem staged_request_validates:
  assumes payload: "StrictDecodePayload (payload_text (vCodec V) (cPayload cmd)) = Inr p" "upPanelVersion p = umPanelVersion m"
      "upPanelVersion p \<noteq> []" "decode_signature (upSignature p) = Some signature"
    and command: "cAction cmd = Upgrade" "cCommandID cmd = commandID" "cAgentID cmd = umAgentID m" "cControlVersion cmd = Version"
      "cType cmd = ''command''" "\<not> cExpiresAt cmd \<le>s cIssuedAt cmd" "VerifyCommand (vCrypto V) key cmd = None"
    and ids: "canonicalUUID commandID" "canonicalUUID (umAgentID m)"
    and verified: "upgradeVerify V w (upManifest p) signature (Some artifact) now m"
    and staged: "stageUpdate (vCodec V) p commandID cmd artifact m = (True, m')"
    and codec: "decRequest (vCodec V) (encRequest (vCodec V) (stageRequest p commandID cmd m)) = JsonDoc (stageRequest p commandID cmd m)"
      "0 < length (encRequest (vCodec V) (stageRequest p commandID cmd m))"
      "length (encRequest (vCodec V) (stageRequest p commandID cmd m)) \<le> 131072"
    and helper: "matching_helper opts key now m"
  shows "readFixedOwnedFileAt all_io (umDir m') PendingRequestFile (hoAgentUID opts) (hoAgentGID opts) 384 131072 =
      Inr (encRequest (vCodec V) (stageRequest p commandID cmd m)) \<and>
    ValidateUpdateRequest V all_io (encRequest (vCodec V) (stageRequest p commandID cmd m))
      (helper_request_options (uwOS w) (uwArch w) opts (umDir m')) = Inr (stageRequest p commandID cmd m, artifact)"
proof -
  let ?C = "vCodec V" and ?r = "stageRequest p commandID cmd m" and ?n = "stageName (upManifest p) commandID"
  let ?o = "helper_request_options (uwOS w) (uwArch w) opts (umDir m')"
  have ver: "VerifyManifest (vCrypto V) (vParseURL V) (umReleaseKey m) \<lparr>smManifest = upManifest p, smSignature = signature\<rparr>
      \<lparr>voCurrentVersion = umCurrentVersion m, voPanelVersion = umPanelVersion m, voOS = uwOS w, voArch = uwArch w,
       voControlVersion = Version, voArtifact = Some artifact, voNow = now\<rparr> = None"
    using verified by (simp add: upgradeVerify_def)
  obtain sv where sv: "parseSemver (mfVersion (upManifest p)) = Some sv"
    using VerifyManifest_None_parts(2) [OF ver] by (auto simp: checkVersions_None)
  have size: "int (length artifact) \<le> MaxArtifactBytes"
    using VerifyManifest_None_parts(3) [OF ver] ver
    by (auto simp: checkArtifact_None VerifyManifest_def Let_def checkArtifactFields_None split: if_split_asm option.split_asm)
  have safe: "safeBasename ?n" by (rule stageName_safe [OF sv ids(1)])
  have ne: "?n \<noteq> PendingRequestFile" by (simp add: stageName_def PendingRequestFile_def)
  note dir = stageUpdate_stored [OF staged]
  have files: "map_of (umDir m') PendingRequestFile = Some (agent_node m (encRequest ?C ?r))"
    "map_of (umDir m') ?n = Some (agent_node m artifact)"
    using ne dir by simp_all
  have own: "hoAgentUID opts = umUID m" "hoAgentGID opts = umGID m" using helper by (simp_all add: matching_helper_def)
  have pend: "safeBasename PendingRequestFile" by code_simp
  have read: "readFixedOwnedFileAt all_io (umDir m') PendingRequestFile (hoAgentUID opts) (hoAgentGID opts) 384 131072 =
      Inr (encRequest ?C ?r)"
    using files(1) own codec(3) pend
    by (simp add: readFixedOwnedFileAt_def open_node_def all_io_def agent_node_def owned_node_def perm_def)
  have dec: "DecodeUpdateRequest ?C (encRequest ?C ?r) = Inr ?r" using codec by (simp add: DecodeUpdateRequest_def)
  have idok: "identity_ok ?r ?o"
    using ids helper by (auto simp: identity_ok_def stageRequest_def helper_request_options_def matching_helper_def canonicalUUID_def)
  have env: "envelope_ok (vCrypto V) ?r ?o"
    using command helper by (simp add: envelope_ok_def stageRequest_def helper_request_options_def matching_helper_def)
  have fields: "urManifest ?r = upManifest p" "urSignature ?r = upSignature p" "urCommand ?r = cmd" "urArtifactBasename ?r = ?n"
    by (simp_all add: stageRequest_def)
  have art: "request_artifact all_io ?r ?o = Inr artifact"
    using files(2) own safe size
    by (simp add: request_artifact_def helper_request_options_def fields readOwnedArtifactAt_def open_node_def all_io_def
        agent_node_def owned_node_def perm_def MaxArtifactBytes_def)
  have mopts: "manifest_options ?o (upPanelVersion p) artifact =
      \<lparr>voCurrentVersion = umCurrentVersion m, voPanelVersion = umPanelVersion m, voOS = uwOS w, voArch = uwArch w,
       voControlVersion = Version, voArtifact = Some artifact, voNow = now\<rparr>" "roPublicKey ?o = umReleaseKey m"
    using helper payload(2) by (simp_all add: manifest_options_def helper_request_options_def matching_helper_def)
  have "ValidateUpdateRequest V all_io (encRequest ?C ?r) ?o = Inr (?r, artifact)"
    by (simp add: ValidateUpdateRequest_def dec safe idok env art fields payload(1,3,4) mopts ver)
  then show ?thesis using read by blast
qed


definition sample_payload_value :: update_payload where
  "sample_payload_value = \<lparr>upManifest = sample_release, upSignature = release_signature, upPanelVersion = ''1.0.0''\<rparr>"

definition sample_staged :: update_request where
  "sample_staged = stageRequest sample_payload_value sample_uuid upgrade_command sample_agent"

definition staging_verifier :: verifier where
  "staging_verifier = sample_verifier\<lparr>vCodec := sample_codec\<lparr>decRequest := (\<lambda>b. JsonDoc sample_staged)\<rparr>\<rparr>"

definition sample_world :: upgrade_world where
  "sample_world = \<lparr>uwNow1 = 150, uwNow2 = 150, uwClient = \<lparr>hcOwnCheck = None, hcGet = (\<lambda>u f. None)\<rparr>,
     uwOS = ''linux'', uwArch = ''amd64'', uwTicks = []\<rparr>"

theorem staged_request_validates_witness:
  "\<exists>m'. stageUpdate (vCodec staging_verifier) sample_payload_value sample_uuid upgrade_command ''abc'' sample_agent = (True, m') \<and>
     ValidateUpdateRequest staging_verifier all_io ''request''
       (helper_request_options ''linux'' ''amd64'' sample_root_options (umDir m')) = Inr (sample_staged, ''abc'')"
proof -
  let ?V = staging_verifier and ?p = sample_payload_value and ?m = sample_agent
  have codec: "encRequest (vCodec ?V) r = ''request''" "decRequest (vCodec ?V) b = JsonDoc sample_staged"
    "decPayload (vCodec ?V) b = JsonDoc ?p" "vCrypto ?V = pad_crypto" "vParseURL ?V = (\<lambda>_. Some sample_url)" for r b
    by (simp_all add: staging_verifier_def sample_codec_def sample_payload_value_def sample_verifier_def)
  obtain ok m' where run: "stageUpdate (vCodec ?V) ?p sample_uuid upgrade_command ''abc'' ?m = (ok, m')" by (metis surj_pair)
  have six: "uios k (sample_agent\<lparr>umDir := d\<rparr>) = (True, sample_agent\<lparr>umDir := d\<rparr>)" for k d
    by (induction k) (simp_all add: uio_def sample_agent_def)
  have w: "writeAtomic name body (sample_agent\<lparr>umDir := d\<rparr>) =
      (True, sample_agent\<lparr>umDir := dir_put name (agent_node sample_agent body) d\<rparr>)" if "map_of d name = None" for name body d
    using that six by (simp add: writeAtomic_def agent_node_def)
  have ne: "stageName sample_release sample_uuid \<noteq> PendingRequestFile" by (simp add: stageName_def PendingRequestFile_def)
  have self: "sample_agent\<lparr>umDir := []\<rparr> = sample_agent" by (simp add: sample_agent_def)
  have first: "writeAtomic (stageName sample_release sample_uuid) ''abc'' sample_agent =
      (True, sample_agent\<lparr>umDir := dir_put (stageName sample_release sample_uuid) (agent_node sample_agent ''abc'') []\<rparr>)"
    using w [of "[]"] self by simp
  have ok: "ok"
    using run ne w [of "dir_put (stageName sample_release sample_uuid) (agent_node sample_agent ''abc'') []" PendingRequestFile] six
    by (simp add: stageUpdate_def Let_def sample_payload_value_def first syncDirectory_def)
  have "ValidateUpdateRequest ?V all_io (encRequest (vCodec ?V) sample_staged)
       (helper_request_options (uwOS sample_world) (uwArch sample_world) sample_root_options (umDir m')) = Inr (sample_staged, ''abc'')"
    unfolding sample_staged_def
  proof (rule staged_request_validates [THEN conjunct2])
    show "StrictDecodePayload (payload_text (vCodec ?V) (cPayload upgrade_command)) = Inr ?p"
      by (simp add: StrictDecodePayload_Inr payload_text_def codec upgrade_command_def Let_def sample_command_def MaxMessageBytes_def)
    show "decode_signature (upSignature ?p) = Some (ed_sign pad_crypto sample_private (ManifestBytes sample_release))"
      by (simp add: decode_signature_Some release_signature_def sample_payload_value_def sample_keys)
    show "VerifyCommand (vCrypto ?V) sample_public upgrade_command = None"
      by (simp add: codec VerifyCommand_def upgrade_command_def Let_def sample_keys)
    show "canonicalUUID sample_uuid" "canonicalUUID (umAgentID ?m)"
      using sample_uuid_canonical by (simp_all add: sample_agent_def)
    show "upgradeVerify ?V sample_world (upManifest ?p) (ed_sign pad_crypto sample_private (ManifestBytes sample_release))
        (Some ''abc'') 150 ?m"
      using sample_release_verified
      by (simp add: upgradeVerify_def codec sample_payload_value_def sample_world_def sample_agent_def manifest_options_def
          sample_request_options_def Version_def)
    show "stageUpdate (vCodec ?V) ?p sample_uuid upgrade_command ''abc'' ?m = (True, m')" using run ok by simp
    show "decRequest (vCodec ?V) (encRequest (vCodec ?V) (stageRequest ?p sample_uuid upgrade_command ?m)) =
        JsonDoc (stageRequest ?p sample_uuid upgrade_command ?m)"
      by (simp add: codec sample_staged_def)
    show "matching_helper sample_root_options sample_public 150 ?m"
      by (simp add: matching_helper_def sample_root_options_def sample_agent_def Version_def)
  qed (simp_all add: sample_payload_value_def sample_agent_def upgrade_command_def Let_def sample_command_def codec Version_def
      word_sle_eq)
  then show ?thesis using run ok codec by (auto simp: sample_world_def)
qed

end
