(* ===== verification/AgentIdentity.thy ===== *)
theory AgentIdentity
  imports Upgrade
begin

text \<open>
  \<open>internal/agent/identity.go\<close>: the identity of an enrolled Agent (keys, certificate and the Panel it belongs to), its files in the PKI
  directory, enrollment with the pinned CA, loading and renewal. X.509, PEM, TLS and URL texts are the parameter record \<open>identity_crypto\<close>;
  every system call on the directory consumes one entry of \<open>pdFaults\<close>. Times are nanoseconds.
\<close>

subsection \<open>What the file relies on\<close>

record panel_url =
  puScheme :: bytes
  puHost :: bytes
  puHostname :: bytes
  puHasUser :: bool
  puPath :: bytes
  puRawPath :: bytes
  puRawQuery :: bytes
  puFragment :: bytes

text \<open>\<open>lcKey\<close> is the ECDSA public key of a certificate, if it has one.\<close>

record leaf_cert =
  lcSerial :: nat
  lcNotAfter :: int
  lcURIs :: "bytes list"
  lcKey :: "bytes option"
  lcIsCA :: bool
  lcRaw :: bytes

datatype pkix_key = Ed25519Key bytes | OtherKey

record identity_state =
  isAgentID :: bytes
  isNodeID :: bytes
  isPanelURL :: bytes

record identity_material =
  imAgentID :: bytes
  imCertificate :: bytes
  imCABundle :: bytes
  imCommandKey :: bytes
  imReleaseKey :: bytes

record identity_crypto =
  icParseURL :: "bytes \<Rightarrow> panel_url option"
  icPrintURL :: "panel_url \<Rightarrow> bytes"
  icPem :: "bytes \<Rightarrow> (bytes \<times> bytes \<times> bytes) option"
  icPemEncode :: "bytes \<Rightarrow> bytes \<Rightarrow> bytes"
  icCert :: "bytes \<Rightarrow> leaf_cert option"
  icVerify :: "leaf_cert \<Rightarrow> leaf_cert \<Rightarrow> bool"
  icECKey :: "bytes \<Rightarrow> (bool \<times> bytes) option"
  icMarshalKey :: "bytes \<Rightarrow> bytes"
  icPublic :: "bytes \<Rightarrow> bytes"
  icPKIX :: "bytes \<Rightarrow> pkix_key option"
  icKeyPair :: "bytes \<Rightarrow> bytes \<Rightarrow> bool"
  icSHA256 :: "bytes \<Rightarrow> bytes"
  icReadState :: "bytes \<Rightarrow> identity_state json_doc"
  icWriteState :: "identity_state \<Rightarrow> bytes"
  icReadMaterial :: "bytes \<Rightarrow> identity_material json_doc"
  icReadRenewed :: "bytes \<Rightarrow> bytes json_doc"

record identity =
  iyAgentID :: bytes
  iyCommandKey :: bytes
  iyReleaseKey :: bytes
  iyPanelURL :: bytes
  iyNodeID :: bytes
  iyCA :: leaf_cert
  iyKey :: bytes
  iyLeaf :: leaf_cert
  iyCertificate :: bytes

subsection \<open>The PKI directory\<close>

definition identityStateFile :: bytes where "identityStateFile = ''identity.json''"
definition agentKeyFile :: bytes where "agentKeyFile = ''agent.key''"
definition agentCertFile :: bytes where "agentCertFile = ''agent.crt''"
definition caBundleFile :: bytes where "caBundleFile = ''ca.crt''"
definition commandKeyFile :: bytes where "commandKeyFile = ''command-signing.pub''"
definition releaseKeyFile :: bytes where "releaseKeyFile = ''release-signing.pub''"

lemmas identity_files = identityStateFile_def agentKeyFile_def agentCertFile_def caBundleFile_def commandKeyFile_def releaseKeyFile_def

record pki_dir =
  pdFiles :: "bytes dir"
  pdFaults :: "bool list"

definition pkiCall :: "pki_dir \<Rightarrow> bool \<times> pki_dir" where
  "pkiCall d = (case pdFaults d of [] \<Rightarrow> (True, d) | f # fs \<Rightarrow> (\<not> f, d\<lparr>pdFaults := fs\<rparr>))"

fun pkiCalls :: "nat \<Rightarrow> pki_dir \<Rightarrow> bool \<times> pki_dir" where
  "pkiCalls 0 d = (True, d)"
| "pkiCalls (Suc n) d = (let (ok, d) = pkiCall d in if \<not> ok then (False, d) else pkiCalls n d)"

text \<open>\<open>writeAtomic\<close>: temporary file, mode, contents, sync, close and rename; the file changes with the rename only.\<close>

definition storeIdentityFile :: "bytes \<Rightarrow> bytes \<Rightarrow> pki_dir \<Rightarrow> bool \<times> pki_dir" where
  "storeIdentityFile name body d =
     (let (ok, d) = pkiCalls 6 d in if \<not> ok then (False, d) else (True, d\<lparr>pdFiles := dir_put name body (pdFiles d)\<rparr>))"

definition readIdentityFile :: "bytes \<Rightarrow> pki_dir \<Rightarrow> bytes option \<times> pki_dir" where
  "readIdentityFile name d = (let (ok, d) = pkiCall d in (if \<not> ok then None else map_of (pdFiles d) name, d))"

subsection \<open>Parsing and checking\<close>

definition parseSingleCertificate :: "identity_crypto \<Rightarrow> bytes \<Rightarrow> leaf_cert option" where
  "parseSingleCertificate E body =
     (case icPem E body of
        None \<Rightarrow> None
      | Some (typ, der, rest) \<Rightarrow> if typ \<noteq> ''CERTIFICATE'' \<or> trim_space rest \<noteq> [] then None else icCert E der)"

definition parseEd25519PublicKey :: "identity_crypto \<Rightarrow> bytes \<Rightarrow> bytes option" where
  "parseEd25519PublicKey E body =
     (case icPem E body of
        None \<Rightarrow> None
      | Some (typ, der, rest) \<Rightarrow>
          if typ \<noteq> ''PUBLIC KEY'' \<or> trim_space rest \<noteq> [] then None
          else (case icPKIX E der of
            Some (Ed25519Key k) \<Rightarrow> if length k \<noteq> PublicKeySize then None else Some k
          | _ \<Rightarrow> None))"

definition parseAgentKey :: "identity_crypto \<Rightarrow> bytes \<Rightarrow> bytes option" where
  "parseAgentKey E body =
     (case icPem E body of
        None \<Rightarrow> None
      | Some (typ, der, rest) \<Rightarrow>
          if typ \<noteq> ''EC PRIVATE KEY'' \<or> trim_space rest \<noteq> [] then None
          else (case icECKey E der of Some (True, k) \<Rightarrow> Some k | _ \<Rightarrow> None))"

definition encodeECPrivateKey :: "identity_crypto \<Rightarrow> bytes \<Rightarrow> bytes" where
  "encodeECPrivateKey E key = icPemEncode E ''EC PRIVATE KEY'' (icMarshalKey E key)"

fun decodeIdentityJSON :: "'a json_doc \<Rightarrow> 'a option" where
  "decodeIdentityJSON (JsonDoc v) = Some v"
| "decodeIdentityJSON (JsonTrailing v) = None"
| "decodeIdentityJSON (JsonGarbage v) = None"
| "decodeIdentityJSON JsonBad = None"

definition verifyAgentCertificate :: "identity_crypto \<Rightarrow> leaf_cert \<Rightarrow> leaf_cert \<Rightarrow> bytes \<Rightarrow> bool" where
  "verifyAgentCertificate E leaf caCert agentID =
     (if \<not> validCanonicalUUID agentID \<or> lcURIs leaf \<noteq> [''spiffe://net-probe/agent/'' @ agentID] then False else icVerify E caCert leaf)"

definition validateAndBuildIdentity ::
    "identity_crypto \<Rightarrow> bytes \<Rightarrow> bytes \<Rightarrow> bytes \<Rightarrow> leaf_cert \<Rightarrow> identity_material \<Rightarrow> identity option" where
  "validateAndBuildIdentity E panelURL nodeID privateKey pinnedCA out =
     (case parseSingleCertificate E (imCABundle out) of
        None \<Rightarrow> None
      | Some responseCA \<Rightarrow>
          if lcRaw responseCA \<noteq> lcRaw pinnedCA then None
          else (case parseSingleCertificate E (imCertificate out) of
            None \<Rightarrow> None
          | Some leaf \<Rightarrow>
              if lcKey leaf \<noteq> Some (icPublic E privateKey) then None
              else if \<not> verifyAgentCertificate E leaf responseCA (imAgentID out) then None
              else (case parseEd25519PublicKey E (imCommandKey out) of
                None \<Rightarrow> None
              | Some commandKey \<Rightarrow>
                  (case parseEd25519PublicKey E (imReleaseKey out) of
                     None \<Rightarrow> None
                   | Some releaseKey \<Rightarrow>
                       if \<not> icKeyPair E (imCertificate out) (encodeECPrivateKey E privateKey) then None
                       else Some \<lparr>iyAgentID = imAgentID out, iyCommandKey = commandKey, iyReleaseKey = releaseKey, iyPanelURL = panelURL,
                              iyNodeID = nodeID, iyCA = responseCA, iyKey = privateKey, iyLeaf = leaf,
                              iyCertificate = imCertificate out\<rparr>))))"

subsection \<open>Loading and storing\<close>

text \<open>The four files \<open>LoadIdentity\<close> reads after the key.\<close>

fun readIdentityFiles :: "bytes list \<Rightarrow> pki_dir \<Rightarrow> bytes list option \<times> pki_dir" where
  "readIdentityFiles [] d = (Some [], d)"
| "readIdentityFiles (n # ns) d =
     (case readIdentityFile n d of
        (None, d) \<Rightarrow> (None, d)
      | (Some b, d) \<Rightarrow> (case readIdentityFiles ns d of (None, d) \<Rightarrow> (None, d) | (Some bs, d) \<Rightarrow> (Some (b # bs), d)))"

definition readState :: "identity_crypto \<Rightarrow> bytes \<Rightarrow> pki_dir \<Rightarrow> identity_state option \<times> pki_dir" where
  "readState E panelURL d =
     (case readIdentityFile identityStateFile d of
        (None, d) \<Rightarrow> (None, d)
      | (Some body, d) \<Rightarrow>
          (case decodeIdentityJSON (icReadState E body) of
             None \<Rightarrow> (None, d)
           | Some state \<Rightarrow>
               if isPanelURL state \<noteq> panelURL \<or> \<not> validCanonicalUUID (isAgentID state) \<or> isNodeID state = [] then (None, d)
               else (Some state, d)))"

definition readAgentKey :: "identity_crypto \<Rightarrow> pki_dir \<Rightarrow> bytes option \<times> pki_dir" where
  "readAgentKey E d =
     (case readIdentityFile agentKeyFile d of
        (None, d) \<Rightarrow> (None, d)
      | (Some body, d) \<Rightarrow> (parseAgentKey E body, d))"

definition LoadIdentity :: "identity_crypto \<Rightarrow> bytes \<Rightarrow> pki_dir \<Rightarrow> identity option \<times> pki_dir" where
  "LoadIdentity E panelURL d =
     (case readState E panelURL d of
        (None, d) \<Rightarrow> (None, d)
      | (Some state, d) \<Rightarrow>
          (case readAgentKey E d of
             (None, d) \<Rightarrow> (None, d)
           | (Some key, d) \<Rightarrow>
               (case readIdentityFiles [agentCertFile, caBundleFile, commandKeyFile, releaseKeyFile] d of
                  (Some [cert, ca, command, release], d) \<Rightarrow>
                    (case parseSingleCertificate E ca of
                       None \<Rightarrow> (None, d)
                     | Some caCert \<Rightarrow>
                         (validateAndBuildIdentity E panelURL (isNodeID state) key caCert
                            \<lparr>imAgentID = isAgentID state, imCertificate = cert, imCABundle = ca, imCommandKey = command, imReleaseKey = release\<rparr>, d))
                | (_, d) \<Rightarrow> (None, d))))"

fun storeIdentityFiles :: "(bytes \<times> bytes) list \<Rightarrow> pki_dir \<Rightarrow> bool \<times> pki_dir" where
  "storeIdentityFiles [] d = (True, d)"
| "storeIdentityFiles ((n, b) # fs) d = (let (ok, d) = storeIdentityFile n b d in if \<not> ok then (False, d) else storeIdentityFiles fs d)"

text \<open>The files in the order they are written.\<close>

definition identityContents :: "identity_crypto \<Rightarrow> identity \<Rightarrow> identity_material \<Rightarrow> (bytes \<times> bytes) list" where
  "identityContents E i out =
     [(agentKeyFile, encodeECPrivateKey E (iyKey i)), (agentCertFile, imCertificate out), (caBundleFile, imCABundle out),
      (commandKeyFile, imCommandKey out), (releaseKeyFile, imReleaseKey out),
      (identityStateFile, icWriteState E \<lparr>isAgentID = iyAgentID i, isNodeID = iyNodeID i, isPanelURL = iyPanelURL i\<rparr>)]"

definition persistIdentity :: "identity_crypto \<Rightarrow> identity \<Rightarrow> identity_material \<Rightarrow> pki_dir \<Rightarrow> bool \<times> pki_dir" where
  "persistIdentity E i out d =
     (let (ok, d) = pkiCalls 2 d in
      if \<not> ok then (False, d)
      else
        let (ok, d) = storeIdentityFiles (identityContents E i out) d in
        if \<not> ok then (False, d) else pkiCalls 2 d)"

subsection \<open>Requests to the Panel\<close>

definition endpointURL :: "identity_crypto \<Rightarrow> panel_url \<Rightarrow> bytes \<Rightarrow> bytes" where
  "endpointURL E u route =
     icPrintURL E (u\<lparr>puPath := trim_right (puPath u) ''/'' @ route, puRawPath := [], puRawQuery := [], puFragment := []\<rparr>)"

definition sameOriginRedirect :: "panel_url \<Rightarrow> (panel_url \<Rightarrow> panel_url list \<Rightarrow> bool) option \<Rightarrow> panel_url \<Rightarrow> panel_url list \<Rightarrow> bool" where
  "sameOriginRedirect origin prior target via =
     (if puScheme target \<noteq> puScheme origin \<or> \<not> equal_fold (puHost target) (puHost origin) then False
      else case prior of
        Some check \<Rightarrow> check target via
      | None \<Rightarrow> length via < 10)"

text \<open>A reply: the status, the bytes up to the limit with a flag when reading them fails, and whether the certificates the server
  presented, if any, verify for its host name under a CA.\<close>

record panel_reply =
  plStatus :: int
  plBody :: bytes
  plReadOk :: bool
  plServerOk :: "leaf_cert \<Rightarrow> bool"

type_synonym panel_request = "(panel_url \<Rightarrow> panel_url list \<Rightarrow> bool) \<Rightarrow> bytes \<Rightarrow> panel_reply option"

record enrollment_options =
  eoPanelURL :: bytes
  eoCAFingerprint :: bytes
  eoCode :: bytes
  eoPKIDir :: bytes
  eoNodeID :: bytes
  eoVersion :: bytes

definition remove_char :: "char \<Rightarrow> bytes \<Rightarrow> bytes" where
  "remove_char c s = filter (\<lambda>x. x \<noteq> c) s"

definition enrollmentTarget :: "identity_crypto \<Rightarrow> enrollment_options \<Rightarrow> (panel_url \<times> bytes) option" where
  "enrollmentTarget E o' =
     (case icParseURL E (eoPanelURL o') of
        None \<Rightarrow> None
      | Some u \<Rightarrow>
          if puScheme u \<noteq> ''https'' \<or> puHostname u = [] \<or> puHasUser u \<or> puRawQuery u \<noteq> [] \<or> puFragment u \<noteq> [] then None
          else if eoCode o' = [] \<or> eoPKIDir o' = [] \<or> eoNodeID o' = [] then None
          else (case hex_decode (to_lower (remove_char (CHR '':'') (eoCAFingerprint o'))) of
            None \<Rightarrow> None
          | Some expected \<Rightarrow> if length expected \<noteq> 32 then None else Some (u, expected)))"

text \<open>Fetching the CA over a connection that is not verified yet; the fingerprint decides.\<close>

definition fetchCA :: "identity_crypto \<Rightarrow> panel_request \<Rightarrow> panel_url \<Rightarrow> bytes \<Rightarrow> leaf_cert option" where
  "fetchCA E get u expected =
     (case get (sameOriginRedirect u None) (endpointURL E u ''/api/v1/ca'') of
        None \<Rightarrow> None
      | Some reply \<Rightarrow>
          if plStatus reply \<noteq> 200 then None
          else if \<not> plReadOk reply then None
          else (case parseSingleCertificate E (take 65536 (plBody reply)) of
            None \<Rightarrow> None
          | Some ca \<Rightarrow>
              if \<not> lcIsCA ca then None
              else if icSHA256 E (lcRaw ca) \<noteq> expected then None
              else if \<not> plServerOk reply ca then None
              else Some ca))"

record enrollment_body =
  ebCode :: bytes
  ebCSR :: bytes
  ebNodeID :: bytes
  ebVersion :: bytes

text \<open>\<open>key\<close> is the generated private key and \<open>csr\<close> its signing request; \<open>post\<close> gets the CA the connection is verified with. The result
  names the request that was sent, if one was.\<close>

definition Enroll ::
    "identity_crypto \<Rightarrow> panel_request \<Rightarrow> (leaf_cert \<Rightarrow> enrollment_body \<Rightarrow> panel_request) \<Rightarrow> (bytes \<times> bytes) option \<Rightarrow> enrollment_options \<Rightarrow>
      pki_dir \<Rightarrow> identity option \<times> (leaf_cert \<times> enrollment_body) option \<times> pki_dir" where
  "Enroll E get post key o' d =
     (case enrollmentTarget E o' of
        None \<Rightarrow> (None, None, d)
      | Some (u, expected) \<Rightarrow>
          (case fetchCA E get u expected of
             None \<Rightarrow> (None, None, d)
           | Some ca \<Rightarrow>
               (case key of
                  None \<Rightarrow> (None, None, d)
                | Some (k, csr) \<Rightarrow>
                    let body = \<lparr>ebCode = eoCode o', ebCSR = icPemEncode E ''CERTIFICATE REQUEST'' csr, ebNodeID = eoNodeID o', ebVersion = eoVersion o'\<rparr>;
                        sent = Some (ca, body)
                    in (case post ca body (sameOriginRedirect u None) (endpointURL E u ''/api/v1/agents/enroll'') of
                          None \<Rightarrow> (None, sent, d)
                        | Some reply \<Rightarrow>
                            if plStatus reply \<noteq> 201 then (None, sent, d)
                            else if \<not> plReadOk reply then (None, sent, d)
                            else (case decodeIdentityJSON (icReadMaterial E (take 131072 (plBody reply))) of
                              None \<Rightarrow> (None, sent, d)
                            | Some out \<Rightarrow>
                                (case validateAndBuildIdentity E (eoPanelURL o') (eoNodeID o') k ca out of
                                   None \<Rightarrow> (None, sent, d)
                                 | Some i \<Rightarrow>
                                     let (ok, d) = persistIdentity E i out d in
                                     if \<not> ok then (None, sent, d) else (Some i, sent, d)))))))"

subsection \<open>Renewal\<close>

definition renewalWindow :: duration where "renewalWindow = 30 * 24 * hour"

text \<open>\<open>renew\<close> is the request with the signing request made with the Agent's key, authenticated by the certificate the identity presents.\<close>

definition RenewIfNeeded ::
    "identity_crypto \<Rightarrow> (bytes \<Rightarrow> panel_request) \<Rightarrow> bytes option \<Rightarrow> int \<Rightarrow> identity \<Rightarrow> pki_dir \<Rightarrow> bool \<times> identity \<times> pki_dir" where
  "RenewIfNeeded E renew csr now i d =
     (if renewalWindow < lcNotAfter (iyLeaf i) - now then (True, i, d)
      else (case csr of
        None \<Rightarrow> (False, i, d)
      | Some csr \<Rightarrow>
          (case icParseURL E (iyPanelURL i) of
             None \<Rightarrow> (False, i, d)
           | Some u \<Rightarrow>
               (case renew (icPemEncode E ''CERTIFICATE REQUEST'' csr) (sameOriginRedirect u None) (endpointURL E u ''/api/v1/agents/renew'') of
                  None \<Rightarrow> (False, i, d)
                | Some reply \<Rightarrow>
                    if plStatus reply \<noteq> 200 then (False, i, d)
                    else if \<not> plReadOk reply then (False, i, d)
                    else (case decodeIdentityJSON (icReadRenewed E (take 65536 (plBody reply))) of
                      None \<Rightarrow> (False, i, d)
                    | Some certificate \<Rightarrow>
                        (case parseSingleCertificate E certificate of
                           None \<Rightarrow> (False, i, d)
                         | Some leaf \<Rightarrow>
                             if lcKey leaf \<noteq> Some (icPublic E (iyKey i)) \<or> lcSerial leaf = lcSerial (iyLeaf i) then (False, i, d)
                             else if \<not> verifyAgentCertificate E leaf (iyCA i) (iyAgentID i) then (False, i, d)
                             else if \<not> icKeyPair E certificate (encodeECPrivateKey E (iyKey i)) then (False, i, d)
                             else
                               let (ok, d) = storeIdentityFile agentCertFile certificate d in
                               if \<not> ok then (False, i, d)
                               else
                                 let (ok, d) = pkiCalls 2 d in
                                 if \<not> ok then (False, i, d)
                                 else (True, i\<lparr>iyLeaf := leaf, iyCertificate := certificate\<rparr>, d)))))))"

definition VerifyReleaseKeyPin :: "identity_crypto \<Rightarrow> bytes option \<Rightarrow> bytes \<Rightarrow> bool" where
  "VerifyReleaseKeyPin E body expectedHex =
     (case hex_decode expectedHex of
        None \<Rightarrow> False
      | Some expected \<Rightarrow>
          if length expected \<noteq> PublicKeySize \<or> expectedHex \<noteq> to_lower expectedHex then False
          else (case body of
            None \<Rightarrow> False
          | Some body \<Rightarrow> (case parseEd25519PublicKey E body of None \<Rightarrow> False | Some actual \<Rightarrow> expected = actual)))"

subsection \<open>Calls on the directory\<close>

lemma pkiCall_files: "pdFiles (snd (pkiCall d)) = pdFiles d"
  by (simp add: pkiCall_def split: list.split)

lemma pkiCalls_files: "pdFiles (snd (pkiCalls n d)) = pdFiles d"
proof (induction n arbitrary: d)
  case (Suc n)
  obtain ok d1 where c: "pkiCall d = (ok, d1)" by (metis surj_pair)
  show ?case using Suc [of d1] pkiCall_files [of d] by (simp add: c Let_def)
qed simp

lemma pkiCall_ok [simp]: "pdFaults d = [] \<Longrightarrow> pkiCall d = (True, d)"
  by (simp add: pkiCall_def)

lemma pkiCalls_ok [simp]: "pdFaults d = [] \<Longrightarrow> pkiCalls n d = (True, d)"
  by (induction n) simp_all

lemma storeIdentityFile_files:
  "storeIdentityFile n b d = (ok, d') \<Longrightarrow> pdFiles d' = (if ok then dir_put n b (pdFiles d) else pdFiles d)"
  using pkiCalls_files [of 6 d] by (auto simp: storeIdentityFile_def Let_def split: prod.splits if_splits)

text \<open>A write that stops has written a prefix.\<close>

definition put_files :: "(bytes \<times> bytes) list \<Rightarrow> bytes dir \<Rightarrow> bytes dir" where
  "put_files fs D = fold (\<lambda>(n, b). dir_put n b) fs D"

lemma storeIdentityFiles_prefix:
  "storeIdentityFiles fs d = (ok, d') \<Longrightarrow>
     \<exists>n\<le>length fs. pdFiles d' = put_files (take n fs) (pdFiles d) \<and> (ok \<longrightarrow> n = length fs)"
proof (induction fs arbitrary: d)
  case Nil
  then show ?case by (simp add: put_files_def)
next
  case (Cons f fs)
  obtain n b where f: "f = (n, b)" by (cases f)
  obtain ok1 d1 where s: "storeIdentityFile n b d = (ok1, d1)" by (metis surj_pair)
  note files = storeIdentityFile_files [OF s]
  show ?case
  proof (cases ok1)
    case True
    then obtain m where m: "m \<le> length fs" "pdFiles d' = put_files (take m fs) (pdFiles d1)" "ok \<longrightarrow> m = length fs"
      using Cons.IH [of d1] Cons.prems f s by auto
    show ?thesis using m files True f by (intro exI [of _ "Suc m"]) (simp add: put_files_def)
  next
    case False
    then have "\<not> ok" "d' = d1" using Cons.prems f s by simp_all
    then show ?thesis using files False by (intro exI [of _ 0]) (simp add: put_files_def)
  qed
qed

lemma map_of_put_files: "map_of (put_files fs D) = map_of D ++ map_of (rev fs)"
  by (induction fs arbitrary: D) (auto simp: put_files_def map_add_def fun_eq_iff split: option.split)

lemma persistIdentity_prefix:
  assumes "persistIdentity E i out d = (ok, d')"
  shows "\<exists>n\<le>6. map_of (pdFiles d') = map_of (pdFiles d) ++ map_of (rev (take n (identityContents E i out))) \<and> (ok \<longrightarrow> n = 6)"
proof -
  obtain ok1 d1 where 1: "pkiCalls 2 d = (ok1, d1)" by (metis surj_pair)
  have f1: "pdFiles d1 = pdFiles d" using pkiCalls_files [of 2 d] 1 by simp
  show ?thesis
  proof (cases ok1)
    case False
    then have "d' = d1" "\<not> ok" using assms 1 by (simp_all add: persistIdentity_def)
    then show ?thesis using f1 by (intro exI [of _ 0]) simp
  next
    case True
    obtain ok2 d2 where 2: "storeIdentityFiles (identityContents E i out) d1 = (ok2, d2)" by (metis surj_pair)
    obtain ok3 d3 where 3: "pkiCalls 2 d2 = (ok3, d3)" by (metis surj_pair)
    have f3: "pdFiles d3 = pdFiles d2" using pkiCalls_files [of 2 d2] 3 by simp
    have len: "length (identityContents E i out) = 6" by (simp add: identityContents_def)
    obtain n where n: "n \<le> 6" "pdFiles d2 = put_files (take n (identityContents E i out)) (pdFiles d1)" "ok2 \<longrightarrow> n = 6"
      using storeIdentityFiles_prefix [OF 2] unfolding len by blast
    have "pdFiles d' = pdFiles d2" "ok \<longrightarrow> ok2" using assms 1 2 3 f3 True by (auto simp: persistIdentity_def split: if_splits)
    then show ?thesis using n f1 by (intro exI [of _ n]) (simp add: map_of_put_files)
  qed
qed

subsection \<open>Loading without faults\<close>

definition load_files :: "identity_crypto \<Rightarrow> bytes \<Rightarrow> (bytes \<rightharpoonup> bytes) \<Rightarrow> identity option" where
  "load_files E panelURL m =
     (case (m identityStateFile, m agentKeyFile, m agentCertFile, m caBundleFile, m commandKeyFile, m releaseKeyFile) of
        (Some s, Some k, Some cert, Some ca, Some command, Some release) \<Rightarrow>
          (case (decodeIdentityJSON (icReadState E s), parseAgentKey E k, parseSingleCertificate E ca) of
             (Some state, Some key, Some caCert) \<Rightarrow>
               if isPanelURL state \<noteq> panelURL \<or> \<not> validCanonicalUUID (isAgentID state) \<or> isNodeID state = [] then None
               else validateAndBuildIdentity E panelURL (isNodeID state) key caCert
                 \<lparr>imAgentID = isAgentID state, imCertificate = cert, imCABundle = ca, imCommandKey = command, imReleaseKey = release\<rparr>
           | _ \<Rightarrow> None)
      | _ \<Rightarrow> None)"

lemma readIdentityFile_ok: "pdFaults d = [] \<Longrightarrow> readIdentityFile n d = (map_of (pdFiles d) n, d)"
  by (simp add: readIdentityFile_def)

lemma LoadIdentity_files:
  assumes "pdFaults d = []"
  shows "LoadIdentity E panelURL d = (load_files E panelURL (map_of (pdFiles d)), d)"
proof -
  let ?m = "map_of (pdFiles d)"
  have r: "readIdentityFile n d = (?m n, d)" for n using assms by (rule readIdentityFile_ok)
  show ?thesis
  proof (cases "?m identityStateFile")
    case None
    then show ?thesis by (simp add: LoadIdentity_def readState_def r load_files_def)
  next
    case s: (Some s)
    show ?thesis
    proof (cases "\<exists>state. decodeIdentityJSON (icReadState E s) = Some state \<and>
        \<not> (isPanelURL state \<noteq> panelURL \<or> \<not> validCanonicalUUID (isAgentID state) \<or> isNodeID state = [])")
      case False
      then have "fst (readState E panelURL d) = None" "snd (readState E panelURL d) = d"
        by (auto simp: readState_def r s split: option.splits)
      moreover have "load_files E panelURL ?m = None" using False s by (auto simp: load_files_def split: option.splits)
      ultimately show ?thesis by (metis (no_types, lifting) LoadIdentity_def case_prod_conv option.simps(4) prod.collapse)
    next
      case True
      then obtain state where st: "decodeIdentityJSON (icReadState E s) = Some state"
          "\<not> (isPanelURL state \<noteq> panelURL \<or> \<not> validCanonicalUUID (isAgentID state) \<or> isNodeID state = [])" by blast
      then have rs: "readState E panelURL d = (Some state, d)" by (simp add: readState_def r s)
      have rk: "readAgentKey E d = (case ?m agentKeyFile of None \<Rightarrow> None | Some b \<Rightarrow> parseAgentKey E b, d)"
        by (simp add: readAgentKey_def r split: option.split)
      show ?thesis using st
        by (auto simp: LoadIdentity_def rs rk r load_files_def s split: option.splits)
    qed
  qed
qed

lemma validateAndBuildIdentity_Some:
  assumes "validateAndBuildIdentity E url node key pinned out = Some i"
  shows "iyAgentID i = imAgentID out \<and> iyPanelURL i = url \<and> iyNodeID i = node \<and> iyKey i = key \<and> lcRaw (iyCA i) = lcRaw pinned \<and>
    parseSingleCertificate E (imCABundle out) = Some (iyCA i) \<and> parseSingleCertificate E (imCertificate out) = Some (iyLeaf i) \<and>
    iyCertificate i = imCertificate out \<and> lcKey (iyLeaf i) = Some (icPublic E key) \<and> validCanonicalUUID (imAgentID out) \<and>
    lcURIs (iyLeaf i) = [''spiffe://net-probe/agent/'' @ imAgentID out] \<and> icVerify E (iyCA i) (iyLeaf i)"
  using assms by (auto simp: validateAndBuildIdentity_def verifyAgentCertificate_def split: option.splits if_splits)

text \<open>The pinned CA only has to have the same bytes.\<close>

lemma validateAndBuildIdentity_pinned:
  "lcRaw p = lcRaw q \<Longrightarrow> validateAndBuildIdentity E url node key p out = validateAndBuildIdentity E url node key q out"
  by (simp add: validateAndBuildIdentity_def split: option.split)

text \<open>What the program writes it can read: the private key in its PEM block and the state in its JSON text.\<close>

definition identity_laws :: "identity_crypto \<Rightarrow> bool" where
  "identity_laws E \<longleftrightarrow> (\<forall>k. parseAgentKey E (encodeECPrivateKey E k) = Some k) \<and> (\<forall>s. decodeIdentityJSON (icReadState E (icWriteState E s)) = Some s)"

lemma identityContents_lookup:
  "map_of (rev (identityContents E i out)) agentKeyFile = Some (encodeECPrivateKey E (iyKey i))"
  "map_of (rev (identityContents E i out)) agentCertFile = Some (imCertificate out)"
  "map_of (rev (identityContents E i out)) caBundleFile = Some (imCABundle out)"
  "map_of (rev (identityContents E i out)) commandKeyFile = Some (imCommandKey out)"
  "map_of (rev (identityContents E i out)) releaseKeyFile = Some (imReleaseKey out)"
  "map_of (rev (identityContents E i out)) identityStateFile =
     Some (icWriteState E \<lparr>isAgentID = iyAgentID i, isNodeID = iyNodeID i, isPanelURL = iyPanelURL i\<rparr>)"
  by (simp_all add: identityContents_def identity_files)

lemma persisted_loads:
  assumes laws: "identity_laws E" and built: "validateAndBuildIdentity E url node key pinned out = Some i" and "node \<noteq> []"
  shows "load_files E url (m ++ map_of (rev (identityContents E i out))) = Some i"
proof -
  note v = validateAndBuildIdentity_Some [OF built]
  have "validateAndBuildIdentity E url node key (iyCA i) out = Some i"
    using validateAndBuildIdentity_pinned [of "iyCA i" pinned] built v by simp
  moreover have "out = \<lparr>imAgentID = iyAgentID i, imCertificate = imCertificate out, imCABundle = imCABundle out,
      imCommandKey = imCommandKey out, imReleaseKey = imReleaseKey out\<rparr>" using v by simp
  ultimately have "validateAndBuildIdentity E url node key (iyCA i) \<lparr>imAgentID = iyAgentID i, imCertificate = imCertificate out,
      imCABundle = imCABundle out, imCommandKey = imCommandKey out, imReleaseKey = imReleaseKey out\<rparr> = Some i" by metis
  then show ?thesis using laws v assms(3) by (simp add: load_files_def identityContents_lookup identity_laws_def map_add_def)
qed

subsection \<open>Enrollment\<close>

lemma fetchCA_Some:
  "fetchCA E get u expected = Some ca \<Longrightarrow> icSHA256 E (lcRaw ca) = expected \<and> lcIsCA ca"
  by (auto simp: fetchCA_def split: option.splits if_splits)

lemma Enroll_cases:
  assumes "Enroll E get post key o' d = (res, sent, d')"
  obtains (nothing) "res = None" "sent = None" "d' = d"
    | (asked) u ca k csr body where "enrollmentTarget E o' = Some (u, icSHA256 E (lcRaw ca))" "key = Some (k, csr)" "sent = Some (ca, body)"
        "body = \<lparr>ebCode = eoCode o', ebCSR = icPemEncode E ''CERTIFICATE REQUEST'' csr, ebNodeID = eoNodeID o', ebVersion = eoVersion o'\<rparr>"
        "res = None \<and> d' = d \<or> (\<exists>out i ok. validateAndBuildIdentity E (eoPanelURL o') (eoNodeID o') k ca out = Some i \<and>
           persistIdentity E i out d = (ok, d') \<and> res = (if ok then Some i else None))"
proof (cases "enrollmentTarget E o'")
  case None
  show thesis by (rule nothing) (use assms None in \<open>auto simp: Enroll_def\<close>)
next
  case (Some x)
  obtain u expected where x: "x = (u, expected)" by (cases x)
  show thesis
  proof (cases "fetchCA E get u expected")
    case None
    show thesis by (rule nothing) (use assms None Some x in \<open>auto simp: Enroll_def\<close>)
  next
    case ca: (Some ca)
    have exp: "expected = icSHA256 E (lcRaw ca)" using fetchCA_Some [OF ca] by simp
    show thesis
    proof (cases key)
      case None
      show thesis by (rule nothing) (use assms None Some x ca in \<open>auto simp: Enroll_def\<close>)
    next
      case key: (Some kc)
      obtain k csr where kc: "kc = (k, csr)" by (cases kc)
      let ?body = "\<lparr>ebCode = eoCode o', ebCSR = icPemEncode E ''CERTIFICATE REQUEST'' csr, ebNodeID = eoNodeID o', ebVersion = eoVersion o'\<rparr>"
      let ?done = "\<lambda>res d'. res = None \<and> d' = d \<or> (\<exists>out i ok. validateAndBuildIdentity E (eoPanelURL o') (eoNodeID o') k ca out = Some i \<and>
           persistIdentity E i out d = (ok, d') \<and> res = (if ok then Some i else None))"
      have "sent = Some (ca, ?body) \<and> ?done res d'"
        using assms Some x ca key kc
        by (auto simp: Enroll_def Let_def split: option.split_asm if_split_asm prod.split_asm intro!: exI)
      then show thesis using asked [of u ca k csr ?body] Some x exp key kc by simp
    qed
  qed
qed

text \<open>C22. The enrollment code leaves the Agent only for a Panel whose CA has the fingerprint the operator gave, over a connection verified
  with that CA; the identity it returns has that CA, a certificate that verifies under it, names the Agent and belongs to the key just
  generated.\<close>

theorem Enroll_trusts_pinned_ca:
  assumes "Enroll E get post key o' d = (res, sent, d')"
  shows "(\<forall>ca body. sent = Some (ca, body) \<longrightarrow>
      hex_decode (to_lower (remove_char (CHR '':'') (eoCAFingerprint o'))) = Some (icSHA256 E (lcRaw ca)) \<and> ebCode body = eoCode o') \<and>
    (sent = None \<longrightarrow> res = None \<and> d' = d) \<and>
    (\<forall>i. res = Some i \<longrightarrow> (\<exists>ca body k csr. sent = Some (ca, body) \<and> key = Some (k, csr) \<and> lcRaw (iyCA i) = lcRaw ca \<and>
       icVerify E (iyCA i) (iyLeaf i) \<and> lcURIs (iyLeaf i) = [''spiffe://net-probe/agent/'' @ iyAgentID i] \<and> iyKey i = k \<and>
       lcKey (iyLeaf i) = Some (icPublic E k) \<and> iyPanelURL i = eoPanelURL o' \<and> iyNodeID i = eoNodeID o'))"
  using assms
proof (cases rule: Enroll_cases)
  case nothing
  then show ?thesis by simp
next
  case (asked u ca k csr body)
  have fp: "hex_decode (to_lower (remove_char (CHR '':'') (eoCAFingerprint o'))) = Some (icSHA256 E (lcRaw ca))"
    using asked(1) by (auto simp: enrollmentTarget_def split: option.splits if_splits)
  have id: "\<exists>ca body k csr. sent = Some (ca, body) \<and> key = Some (k, csr) \<and> lcRaw (iyCA i) = lcRaw ca \<and>
       icVerify E (iyCA i) (iyLeaf i) \<and> lcURIs (iyLeaf i) = [''spiffe://net-probe/agent/'' @ iyAgentID i] \<and> iyKey i = k \<and>
       lcKey (iyLeaf i) = Some (icPublic E k) \<and> iyPanelURL i = eoPanelURL o' \<and> iyNodeID i = eoNodeID o'" if r: "res = Some i" for i
  proof -
    obtain out where "validateAndBuildIdentity E (eoPanelURL o') (eoNodeID o') k ca out = Some i"
      using asked(5) r by (auto split: if_splits)
    from validateAndBuildIdentity_Some [OF this] show ?thesis using asked(2,3) by simp
  qed
  show ?thesis using fp id asked(3,4) by auto
qed

lemma Enroll_result:
  assumes "Enroll E get post key o' d = (Some i, sent, d')"
  obtains out k ca where "validateAndBuildIdentity E (eoPanelURL o') (eoNodeID o') k ca out = Some i" "persistIdentity E i out d = (True, d')" "eoNodeID o' \<noteq> []"
  using assms
proof (cases rule: Enroll_cases)
  case (asked u ca k csr body)
  have "eoNodeID o' \<noteq> []" using asked(1) by (auto simp: enrollmentTarget_def split: option.splits if_splits)
  then show thesis using asked(5) that by (auto split: if_splits)
qed simp

lemma load_prefix:
  assumes laws: "identity_laws E" and n: "n \<le> 6"
    and old: "load_files E url m = Some before" and built: "validateAndBuildIdentity E url node key pinned out = Some i" and "node \<noteq> []"
    and fresh: "iyAgentID before \<noteq> iyAgentID i" "icPublic E (iyKey before) \<noteq> icPublic E (iyKey i)"
  shows "load_files E url (m ++ map_of (rev (take n (identityContents E i out)))) =
    (if n = 0 then Some before else if n = 6 then Some i else None)"
proof -
  let ?m = "\<lambda>n. m ++ map_of (rev (take n (identityContents E i out)))"
  obtain s k cert ca command release state kp caCert where o':
    "m identityStateFile = Some s" "m agentKeyFile = Some k" "m agentCertFile = Some cert" "m caBundleFile = Some ca"
    "decodeIdentityJSON (icReadState E s) = Some state"
    "parseAgentKey E k = Some kp" "isPanelURL state = url"
    "validateAndBuildIdentity E url (isNodeID state) kp caCert
       \<lparr>imAgentID = isAgentID state, imCertificate = cert, imCABundle = ca, imCommandKey = command, imReleaseKey = release\<rparr> = Some before"
    using old by (auto simp: load_files_def split: option.splits if_splits)
  note vo = validateAndBuildIdentity_Some [OF o'(8)] and vn = validateAndBuildIdentity_Some [OF built]
  have new_key: "parseAgentKey E (encodeECPrivateKey E (iyKey i)) = Some (iyKey i)" using laws by (simp add: identity_laws_def)
  consider "n = 0" | "n = 1" | "n \<in> {2, 3, 4, 5}" | "n = 6" using n by fastforce
  then show ?thesis
  proof cases
    case 1
    then show ?thesis using old by simp
  next
    case 2
    have "?m 1 agentKeyFile = Some (encodeECPrivateKey E (iyKey i))" "?m 1 agentCertFile = Some cert"
      using o'(3) by (simp_all add: identityContents_def identity_files)
    moreover have "validateAndBuildIdentity E url x (iyKey i) y \<lparr>imAgentID = a, imCertificate = cert, imCABundle = b, imCommandKey = c, imReleaseKey = e\<rparr> = None"
      for x y a b c e
      using vo fresh(2) vn by (auto simp: validateAndBuildIdentity_def split: option.split)
    ultimately have "load_files E url (?m 1) = None" by (auto simp: load_files_def new_key split: option.split)
    then show ?thesis using 2 by simp
  next
    case 3
    have st: "?m n identityStateFile = Some s" "?m n agentKeyFile = Some (encodeECPrivateKey E (iyKey i))" "?m n agentCertFile = Some (imCertificate out)"
      using o'(1) 3 by (auto simp: identityContents_def identity_files numeral_eq_Suc)
    have "validateAndBuildIdentity E url x y z \<lparr>imAgentID = isAgentID state, imCertificate = imCertificate out, imCABundle = b, imCommandKey = c, imReleaseKey = e\<rparr> = None"
      for x y z b c e
      using vn vo fresh(1) by (auto simp: validateAndBuildIdentity_def verifyAgentCertificate_def split: option.split)
    then have "load_files E url (?m n) = None" using st o'(5) by (auto simp: load_files_def split: option.split)
    then show ?thesis using 3 by auto
  next
    case 4
    have "take 6 (identityContents E i out) = identityContents E i out" by (simp add: identityContents_def)
    then show ?thesis using persisted_loads [OF laws built assms(5)] 4 by simp
  qed
qed

text \<open>A successful enrollment can be loaded again, as the same identity. Enrolling over an existing identity is never mixed up: whatever
  call fails, what is loaded afterwards is the old identity, the new one or nothing; nothing exactly when some but not all of the six
  files were replaced.\<close>

theorem enrolled_identity_loads:
  assumes "identity_laws E" and "Enroll E get post key o' d = (res, sent, d')"
    and "load_files E (eoPanelURL o') (map_of (pdFiles d)) = Some before"
    and "key = Some (k, csr)" and "icPublic E (iyKey before) \<noteq> icPublic E k"
    and "\<forall>out ca i. validateAndBuildIdentity E (eoPanelURL o') (eoNodeID o') k ca out = Some i \<longrightarrow> iyAgentID before \<noteq> iyAgentID i"
  defines "loaded \<equiv> fst (LoadIdentity E (eoPanelURL o') (d'\<lparr>pdFaults := []\<rparr>))"
  shows "(res \<noteq> None \<longrightarrow> loaded = res) \<and> (loaded = Some before \<or> loaded = None \<or> (\<exists>i. loaded = Some i \<and> iyAgentID i \<noteq> iyAgentID before)) \<and>
    (loaded = None \<longrightarrow> (\<exists>i out n. 0 < n \<and> n < 6 \<and> map_of (pdFiles d') = map_of (pdFiles d) ++ map_of (rev (take n (identityContents E i out)))))"
proof -
  have loaded: "loaded = load_files E (eoPanelURL o') (map_of (pdFiles d'))" by (simp add: loaded_def LoadIdentity_files)
  from assms(2) show ?thesis
  proof (cases rule: Enroll_cases)
    case nothing
    then show ?thesis using assms(3) loaded by simp
  next
    case (asked u ca k' csr' body)
    then have k': "k' = k" using assms(4) by simp
    have node: "eoNodeID o' \<noteq> []" using asked(1) by (auto simp: enrollmentTarget_def split: option.splits if_splits)
    from asked(5) [unfolded k'] consider "res = None" "d' = d"
      | out i ok where "validateAndBuildIdentity E (eoPanelURL o') (eoNodeID o') k ca out = Some i" "persistIdentity E i out d = (ok, d')"
          "res = (if ok then Some i else None)" by blast
    then show ?thesis
    proof cases
      case 1
      then show ?thesis using assms(3) loaded by simp
    next
      case 2
      obtain n where n: "n \<le> 6" "map_of (pdFiles d') = map_of (pdFiles d) ++ map_of (rev (take n (identityContents E i out)))" "ok \<longrightarrow> n = 6"
        using persistIdentity_prefix [OF 2(2)] by blast
      have fresh: "iyAgentID before \<noteq> iyAgentID i" "icPublic E (iyKey before) \<noteq> icPublic E (iyKey i)" using assms(5) assms(6) [rule_format, OF 2(1)] validateAndBuildIdentity_Some [OF 2(1)] by simp_all
      have l: "loaded = (if n = 0 then Some before else if n = 6 then Some i else None)"
        unfolding loaded n(2) by (rule load_prefix [OF assms(1) n(1) assms(3) 2(1) node fresh])
      have "\<exists>i out n. 0 < n \<and> n < 6 \<and> map_of (pdFiles d') = map_of (pdFiles d) ++ map_of (rev (take n (identityContents E i out)))" if "loaded = None"
        using that l n(1,2) by (intro exI [of _ i] exI [of _ out] exI [of _ n]) (auto split: if_splits)
      then show ?thesis using l n(3) 2(3) fresh(1) by auto
    qed
  qed
qed

subsection \<open>Renewal\<close>

text \<open>A renewal that succeeds replaces the certificate in memory and on disk by one of the same Agent and key with another serial number;
  one that fails leaves the identity as it was, and no other file is ever touched.\<close>

lemma RenewIfNeeded_outcome:
  assumes "RenewIfNeeded E renew csr now i d = (ok, i', d')"
  shows "(renewalWindow < lcNotAfter (iyLeaf i) - now \<longrightarrow> ok \<and> i' = i \<and> d' = d) \<and> (\<not> ok \<longrightarrow> i' = i) \<and>
    (i' \<noteq> i \<longrightarrow> lcSerial (iyLeaf i') \<noteq> lcSerial (iyLeaf i) \<and> map_of (pdFiles d') agentCertFile = Some (iyCertificate i') \<and>
       parseSingleCertificate E (iyCertificate i') = Some (iyLeaf i') \<and> verifyAgentCertificate E (iyLeaf i') (iyCA i) (iyAgentID i) \<and>
       lcKey (iyLeaf i') = Some (icPublic E (iyKey i)) \<and> i' = i\<lparr>iyLeaf := iyLeaf i', iyCertificate := iyCertificate i'\<rparr>) \<and>
    (\<forall>n. n \<noteq> agentCertFile \<longrightarrow> map_of (pdFiles d') n = map_of (pdFiles d) n)"
proof (cases "renewalWindow < lcNotAfter (iyLeaf i) - now")
  case True
  then show ?thesis using assms by (simp add: RenewIfNeeded_def)
next
  case False
  let ?store = "\<lambda>certificate. storeIdentityFile agentCertFile certificate d"
  let ?sync = "\<lambda>certificate. pkiCalls 2 (snd (?store certificate))"
  have "ok = False \<and> i' = i \<and> d' = d \<or>
      (\<exists>certificate leaf. parseSingleCertificate E certificate = Some leaf \<and> lcKey leaf = Some (icPublic E (iyKey i)) \<and>
         lcSerial leaf \<noteq> lcSerial (iyLeaf i) \<and> verifyAgentCertificate E leaf (iyCA i) (iyAgentID i) \<and>
         (if fst (?store certificate) \<and> fst (?sync certificate) then ok \<and> i' = i\<lparr>iyLeaf := leaf, iyCertificate := certificate\<rparr> else \<not> ok \<and> i' = i) \<and>
         d' = (if fst (?store certificate) then snd (?sync certificate) else snd (?store certificate)))"
    using assms False
    by (auto simp: RenewIfNeeded_def Let_def split: option.split_asm if_split_asm prod.split_asm intro!: exI)
  then show ?thesis
  proof (elim disjE exE conjE)
    fix certificate leaf
    assume c: "parseSingleCertificate E certificate = Some leaf" "lcKey leaf = Some (icPublic E (iyKey i))"
      "lcSerial leaf \<noteq> lcSerial (iyLeaf i)" "verifyAgentCertificate E leaf (iyCA i) (iyAgentID i)"
      and r0: "if fst (?store certificate) \<and> fst (?sync certificate) then ok \<and> i' = i\<lparr>iyLeaf := leaf, iyCertificate := certificate\<rparr> else \<not> ok \<and> i' = i"
      "d' = (if fst (?store certificate) then snd (?sync certificate) else snd (?store certificate))"
    obtain ok1 d1 where s1: "?store certificate = (ok1, d1)" by (metis surj_pair)
    obtain ok2 d2 where s2: "pkiCalls 2 d1 = (ok2, d2)" by (metis surj_pair)
    note s = s1 s2
    have r: "if ok1 \<and> ok2 then ok \<and> i' = i\<lparr>iyLeaf := leaf, iyCertificate := certificate\<rparr> else \<not> ok \<and> i' = i" "d' = (if ok1 then d2 else d1)"
      using r0 s by simp_all
    have "pdFiles d' = (if ok1 then dir_put agentCertFile certificate (pdFiles d) else pdFiles d)"
      using storeIdentityFile_files [OF s(1)] pkiCalls_files [of 2 d1] s(2) r(2) by simp
    then show ?thesis using c r(1) False by (auto split: if_splits)
  qed (use False in simp)
qed

subsection \<open>A concrete enrollment\<close>

definition first_agent :: bytes where "first_agent = ''00000000-0000-4000-8000-000000000001''"
definition second_agent :: bytes where "second_agent = ''00000000-0000-4000-8000-000000000002''"

definition pack_texts :: "bytes \<Rightarrow> bytes \<Rightarrow> bytes" where
  "pack_texts a b = replicate (length a) (CHR ''x'') @ CHR '';'' # a @ b"

definition unpack_texts :: "bytes \<Rightarrow> bytes \<times> bytes" where
  "unpack_texts s = (let n = length (takeWhile (\<lambda>c. c = CHR ''x'') s); t = drop (n + 1) s in (take n t, drop n t))"

lemma unpack_pack [simp]: "unpack_texts (pack_texts a b) = (a, b)"
proof -
  have "takeWhile (\<lambda>c. c = CHR ''x'') (replicate n (CHR ''x'') @ CHR '';'' # r) = replicate n (CHR ''x'')" for n r
    by (induction n) auto
  then have "takeWhile (\<lambda>c. c = CHR ''x'') (pack_texts a b) = replicate (length a) (CHR ''x'')" by (simp add: pack_texts_def)
  then show ?thesis by (simp add: unpack_texts_def Let_def) (simp add: pack_texts_def)
qed

text \<open>The first letter of a PEM text is its type. A certificate \<open>1\<close> or \<open>2\<close> belongs to the key with that name.\<close>

definition sample_ca_cert :: leaf_cert where
  "sample_ca_cert = \<lparr>lcSerial = 1, lcNotAfter = 0, lcURIs = [], lcKey = None, lcIsCA = True, lcRaw = ''ca''\<rparr>"

definition sample_leaf :: "nat \<Rightarrow> bytes \<Rightarrow> bytes \<Rightarrow> leaf_cert" where
  "sample_leaf serial agent key =
     \<lparr>lcSerial = serial, lcNotAfter = 1000 * hour, lcURIs = [''spiffe://net-probe/agent/'' @ agent], lcKey = Some key, lcIsCA = False, lcRaw = key\<rparr>"

definition pem_letter :: "bytes \<Rightarrow> bytes" where
  "pem_letter typ = (if typ = ''CERTIFICATE'' then ''C'' else if typ = ''PUBLIC KEY'' then ''K'' else if typ = ''EC PRIVATE KEY'' then ''E'' else ''R'')"

definition sample_identity_crypto :: identity_crypto where
  "sample_identity_crypto =
     \<lparr>icParseURL = (\<lambda>b. Some \<lparr>puScheme = ''https'', puHost = b, puHostname = b, puHasUser = False, puPath = [], puRawPath = [], puRawQuery = [], puFragment = []\<rparr>),
      icPrintURL = (\<lambda>u. puHost u @ puPath u),
      icPem = (\<lambda>b. case b of [] \<Rightarrow> None | c # der \<Rightarrow>
        Some (if c = CHR ''C'' then ''CERTIFICATE'' else if c = CHR ''K'' then ''PUBLIC KEY'' else if c = CHR ''E'' then ''EC PRIVATE KEY'' else ''CERTIFICATE REQUEST'', der, [])),
      icPemEncode = (\<lambda>typ der. pem_letter typ @ der),
      icCert = (\<lambda>der. if der = ''ca'' then Some sample_ca_cert else if der = ''1'' then Some (sample_leaf 11 first_agent ''1'')
        else if der = ''2'' then Some (sample_leaf 12 second_agent ''2'') else None),
      icVerify = (\<lambda>ca leaf. True), icECKey = (\<lambda>der. Some (True, der)), icMarshalKey = id, icPublic = id,
      icPKIX = (\<lambda>der. Some (Ed25519Key (replicate 32 (CHR ''k'')))), icKeyPair = (\<lambda>c k. True), icSHA256 = (\<lambda>b. replicate 32 (CHR ''f'')),
      icReadState = (\<lambda>s. let (a, r) = unpack_texts s; (n, u) = unpack_texts r in JsonDoc \<lparr>isAgentID = a, isNodeID = n, isPanelURL = u\<rparr>),
      icWriteState = (\<lambda>s. pack_texts (isAgentID s) (pack_texts (isNodeID s) (isPanelURL s))),
      icReadMaterial = (\<lambda>s. JsonDoc \<lparr>imAgentID = second_agent, imCertificate = ''C2'', imCABundle = ''Cca'', imCommandKey = ''K'', imReleaseKey = ''K''\<rparr>),
      icReadRenewed = (\<lambda>s. JsonBad)\<rparr>"

lemma sample_identity_laws: "identity_laws sample_identity_crypto"
  by (auto simp: identity_laws_def parseAgentKey_def encodeECPrivateKey_def sample_identity_crypto_def pem_letter_def trim_space_def)

lemma agents_valid: "validCanonicalUUID first_agent" "validCanonicalUUID second_agent" "first_agent \<noteq> second_agent"
  by (code_simp, code_simp, simp add: first_agent_def second_agent_def)

definition sample_identity_of :: "nat \<Rightarrow> bytes \<Rightarrow> bytes \<Rightarrow> identity" where
  "sample_identity_of serial agent key =
     \<lparr>iyAgentID = agent, iyCommandKey = replicate 32 (CHR ''k''), iyReleaseKey = replicate 32 (CHR ''k''), iyPanelURL = ''p'', iyNodeID = ''n'',
      iyCA = sample_ca_cert, iyKey = key, iyLeaf = sample_leaf serial agent key, iyCertificate = ''C'' @ key\<rparr>"

definition sample_material :: "bytes \<Rightarrow> bytes \<Rightarrow> identity_material" where
  "sample_material agent key = \<lparr>imAgentID = agent, imCertificate = ''C'' @ key, imCABundle = ''Cca'', imCommandKey = ''K'', imReleaseKey = ''K''\<rparr>"

lemma sample_builds:
  "validateAndBuildIdentity sample_identity_crypto ''p'' ''n'' ''1'' sample_ca_cert (sample_material first_agent ''1'') = Some (sample_identity_of 11 first_agent ''1'')"
  "validateAndBuildIdentity sample_identity_crypto ''p'' ''n'' ''2'' sample_ca_cert (sample_material second_agent ''2'') = Some (sample_identity_of 12 second_agent ''2'')"
  using agents_valid
  by (simp_all add: validateAndBuildIdentity_def sample_identity_crypto_def sample_material_def sample_identity_of_def parseSingleCertificate_def
      parseEd25519PublicKey_def verifyAgentCertificate_def sample_leaf_def sample_ca_cert_def PublicKeySize_def trim_space_def)

definition sample_enrollment_options :: enrollment_options where
  "sample_enrollment_options = \<lparr>eoPanelURL = ''p'', eoCAFingerprint = concat (replicate 32 ''66''), eoCode = ''c'', eoPKIDir = ''d'', eoNodeID = ''n'', eoVersion = ''v''\<rparr>"

definition sample_get :: panel_request where
  "sample_get check url = Some \<lparr>plStatus = 200, plBody = ''Cca'', plReadOk = True, plServerOk = (\<lambda>_. True)\<rparr>"

definition sample_post :: "leaf_cert \<Rightarrow> enrollment_body \<Rightarrow> panel_request" where
  "sample_post ca body check url = Some \<lparr>plStatus = 201, plBody = [], plReadOk = True, plServerOk = (\<lambda>_. True)\<rparr>"

definition enrolled_dir :: pki_dir where
  "enrolled_dir = \<lparr>pdFiles = put_files (identityContents sample_identity_crypto (sample_identity_of 11 first_agent ''1'') (sample_material first_agent ''1'')) [],
     pdFaults = []\<rparr>"

lemma sample_enrollment_target: "enrollmentTarget sample_identity_crypto sample_enrollment_options =
    Some (\<lparr>puScheme = ''https'', puHost = ''p'', puHostname = ''p'', puHasUser = False, puPath = [], puRawPath = [], puRawQuery = [], puFragment = []\<rparr>,
      replicate 32 (CHR ''f''))"
proof -
  have "hex_decode (to_lower (remove_char (CHR '':'') (concat (replicate 32 ''66'')))) = Some (replicate 32 (CHR ''f''))" by code_simp
  then show ?thesis by (simp add: enrollmentTarget_def sample_enrollment_options_def sample_identity_crypto_def)
qed

lemma sample_enrolls:
  "\<exists>d'. Enroll sample_identity_crypto sample_get sample_post (Some (''2'', ''q'')) sample_enrollment_options enrolled_dir =
     (Some (sample_identity_of 12 second_agent ''2''), Some (sample_ca_cert, \<lparr>ebCode = ''c'', ebCSR = ''Rq'', ebNodeID = ''n'', ebVersion = ''v''\<rparr>), d') \<and> pdFaults d' = []"
proof -
  let ?i = "sample_identity_of 12 second_agent ''2''" and ?out = "sample_material second_agent ''2''"
  have "fetchCA sample_identity_crypto sample_get u (replicate 32 (CHR ''f'')) = Some sample_ca_cert" for u
    by (simp add: fetchCA_def sample_get_def parseSingleCertificate_def sample_identity_crypto_def sample_ca_cert_def trim_space_def)
  moreover have "storeIdentityFile n b d = (True, d\<lparr>pdFiles := dir_put n b (pdFiles d)\<rparr>)" if "pdFaults d = []" for n b d
    using that by (simp add: storeIdentityFile_def)
  then have st: "pdFaults d = [] \<Longrightarrow> \<exists>d'. storeIdentityFiles fs d = (True, d') \<and> pdFaults d' = []" for fs d
    by (induction fs arbitrary: d) auto
  obtain d' where "storeIdentityFiles (identityContents sample_identity_crypto ?i ?out) enrolled_dir = (True, d')" "pdFaults d' = []"
    using st [of enrolled_dir] by (auto simp: enrolled_dir_def)
  then have "persistIdentity sample_identity_crypto ?i ?out enrolled_dir = (True, d')" "pdFaults d' = []"
    by (simp_all add: persistIdentity_def enrolled_dir_def)
  moreover have "icReadMaterial sample_identity_crypto s = JsonDoc ?out" for s by (simp add: sample_identity_crypto_def sample_material_def)
  ultimately show ?thesis
    using sample_builds(2)
    by (simp add: Enroll_def sample_enrollment_target sample_post_def)
      (simp add: sample_enrollment_options_def sample_identity_crypto_def pem_letter_def)
qed

theorem Enroll_trusts_pinned_ca_witness:
  "hex_decode (to_lower (remove_char (CHR '':'') (eoCAFingerprint sample_enrollment_options))) = Some (icSHA256 sample_identity_crypto ''ca'')"
proof -
  obtain d' where e: "Enroll sample_identity_crypto sample_get sample_post (Some (''2'', ''q'')) sample_enrollment_options enrolled_dir =
     (Some (sample_identity_of 12 second_agent ''2''), Some (sample_ca_cert, \<lparr>ebCode = ''c'', ebCSR = ''Rq'', ebNodeID = ''n'', ebVersion = ''v''\<rparr>), d')"
    using sample_enrolls by blast
  from Enroll_trusts_pinned_ca [OF e] show ?thesis by (simp add: sample_ca_cert_def)
qed

theorem enrolled_identity_loads_witness:
  "\<exists>i d'. fst (Enroll sample_identity_crypto sample_get sample_post (Some (''2'', ''q'')) sample_enrollment_options enrolled_dir) = Some i \<and>
     d' = snd (snd (Enroll sample_identity_crypto sample_get sample_post (Some (''2'', ''q'')) sample_enrollment_options enrolled_dir)) \<and>
     fst (LoadIdentity sample_identity_crypto ''p'' (d'\<lparr>pdFaults := []\<rparr>)) = Some i \<and> iyAgentID i = second_agent"
proof -
  let ?E = sample_identity_crypto
  obtain d' where e: "Enroll ?E sample_get sample_post (Some (''2'', ''q'')) sample_enrollment_options enrolled_dir =
     (Some (sample_identity_of 12 second_agent ''2''), Some (sample_ca_cert, \<lparr>ebCode = ''c'', ebCSR = ''Rq'', ebNodeID = ''n'', ebVersion = ''v''\<rparr>), d')"
    using sample_enrolls by blast
  have url: "eoPanelURL sample_enrollment_options = ''p''" "eoNodeID sample_enrollment_options = ''n''" by (simp_all add: sample_enrollment_options_def)
  have before: "load_files ?E (eoPanelURL sample_enrollment_options) (map_of (pdFiles enrolled_dir)) = Some (sample_identity_of 11 first_agent ''1'')"
    using persisted_loads [OF sample_identity_laws sample_builds(1), of Map.empty] by (simp add: url enrolled_dir_def map_of_put_files)
  have keys: "icPublic ?E (iyKey (sample_identity_of 11 first_agent ''1'')) \<noteq> icPublic ?E ''2''" by (simp add: sample_identity_crypto_def sample_identity_of_def)
  have other: "\<forall>out ca i. validateAndBuildIdentity ?E (eoPanelURL sample_enrollment_options) (eoNodeID sample_enrollment_options) ''2'' ca out = Some i \<longrightarrow>
      iyAgentID (sample_identity_of 11 first_agent ''1'') \<noteq> iyAgentID i"
  proof (intro allI impI)
    fix out ca i assume "validateAndBuildIdentity ?E (eoPanelURL sample_enrollment_options) (eoNodeID sample_enrollment_options) ''2'' ca out = Some i"
    note v = validateAndBuildIdentity_Some [OF this]
    have "lcKey (iyLeaf i) = Some ''2''" using v by (simp add: sample_identity_crypto_def)
    moreover have "parseSingleCertificate ?E (imCertificate out) = Some (iyLeaf i)" using v by simp
    moreover have "parseSingleCertificate ?E b = Some c \<Longrightarrow> c \<in> {sample_ca_cert, sample_leaf 11 first_agent ''1'', sample_leaf 12 second_agent ''2''}" for b c
      by (auto simp: parseSingleCertificate_def sample_identity_crypto_def split: option.splits if_splits list.splits)
    ultimately have "iyLeaf i = sample_leaf 12 second_agent ''2''" by (fastforce simp: sample_ca_cert_def sample_leaf_def)
    then have "lcURIs (iyLeaf i) = [''spiffe://net-probe/agent/'' @ second_agent]" by (simp add: sample_leaf_def)
    then have "iyAgentID i = second_agent" using v by simp
    then show "iyAgentID (sample_identity_of 11 first_agent ''1'') \<noteq> iyAgentID i" using agents_valid(3) by (simp add: sample_identity_of_def)
  qed
  from enrolled_identity_loads [OF sample_identity_laws e before refl keys other]
  have "fst (LoadIdentity ?E ''p'' (d'\<lparr>pdFaults := []\<rparr>)) = Some (sample_identity_of 12 second_agent ''2'')" by (simp add: url)
  then show ?thesis by (simp add: e sample_identity_of_def)
qed

end
