(* ===== verification/Egress.thy ===== *)
theory Egress
  imports GeoRefresher Scheduler GoStrings "HOL-Library.Multiset"
begin

text \<open>
  \<open>internal/egressip\<close> (cache, resolver and fetcher of the Agent's public addresses), \<open>internal/urlpolicy\<close>, and the HTTP lookup of
  \<open>internal/panel/geo/geo.go\<close>. The HTTP client, the codec of the cache file and the texts of addresses are parameters; every call on the
  cache file consumes one entry of \<open>cdFaults\<close>. Times are nanoseconds, and \<open>None\<close> is the zero time.
\<close>

subsection \<open>Secure endpoints and redirects\<close>

record endpoint_url =
  euScheme :: bytes
  euHostname :: bytes

definition isLocalHost :: "bytes \<Rightarrow> bool" where
  "isLocalHost hostname \<longleftrightarrow> to_lower hostname \<in> {''localhost'', ''127.0.0.1'', ''::1''}"

definition IsSecureEndpoint :: "endpoint_url option \<Rightarrow> bool" where
  "IsSecureEndpoint u =
     (case u of
        None \<Rightarrow> False
      | Some u \<Rightarrow>
          if euHostname u = [] then False
          else if equal_fold (euScheme u) ''https'' then True
          else if \<not> equal_fold (euScheme u) ''http'' then False
          else isLocalHost (euHostname u))"

text \<open>The redirect check of both clients; \<open>via\<close> holds the earlier requests, the oldest first.\<close>

definition checkSecureRedirect :: "(endpoint_url option \<Rightarrow> bool) \<Rightarrow> endpoint_url \<Rightarrow> endpoint_url list \<Rightarrow> bool" where
  "checkSecureRedirect secure target via =
     (if 3 < length via then False
      else if via \<noteq> [] \<and> euScheme (last via) = ''https'' \<and> euScheme target = ''http'' then False
      else secure (Some target))"

definition safeRedirectTarget :: "endpoint_url option \<Rightarrow> bool" where
  "safeRedirectTarget u =
     (case u of
        None \<Rightarrow> False
      | Some u \<Rightarrow>
          if euHostname u = [] then False
          else if equal_fold (euScheme u) ''https'' then True
          else equal_fold (euScheme u) ''http'' \<and> isLocalHost (euHostname u))"

text \<open>A response: the status, and the bytes of the body with a flag when reading it fails. A client gives no response when the URL is
  invalid, the request fails or its check refuses a redirect.\<close>

record web_response =
  wbStatus :: int
  wbBody :: bytes
  wbReadOk :: bool

type_synonym web_client = "(endpoint_url \<Rightarrow> endpoint_url list \<Rightarrow> bool) \<Rightarrow> bytes \<Rightarrow> web_response option"

subsection \<open>The fetcher\<close>

definition maxResponseBytes :: nat where "maxResponseBytes = 64"

type_synonym family = nat

definition FamilyIPv4 :: family where "FamilyIPv4 = 4"
definition FamilyIPv6 :: family where "FamilyIPv6 = 6"

fun matchesFamily :: "ip_addr \<Rightarrow> family \<Rightarrow> bool" where
  "matchesFamily addr f = (if f = FamilyIPv4 then Is4 addr else if f = FamilyIPv6 then \<not> Is4 addr else False)"

definition discoverEndpoint :: "addr_text \<Rightarrow> web_client \<Rightarrow> family \<Rightarrow> bytes \<Rightarrow> bytes option" where
  "discoverEndpoint T client f endpoint =
     (case client (checkSecureRedirect IsSecureEndpoint) endpoint of
        None \<Rightarrow> None
      | Some resp \<Rightarrow>
          if wbStatus resp < 200 \<or> 300 \<le> wbStatus resp then None
          else if \<not> wbReadOk resp then None
          else if maxResponseBytes < length (wbBody resp) then None
          else (case atParse T (trim_space (wbBody resp)) of
            None \<Rightarrow> None
          | Some addr \<Rightarrow>
              let addr = Unmap addr in
              if \<not> matchesFamily addr f then None
              else if \<not> IsPublic (Some addr) then None
              else Some (atString T addr)))"

fun Discover :: "addr_text \<Rightarrow> web_client option \<Rightarrow> family \<Rightarrow> bytes list \<Rightarrow> bytes option" where
  "Discover T None f endpoints = None"
| "Discover T (Some client) f [] = None"
| "Discover T (Some client) f (e # es) =
     (case discoverEndpoint T client f e of Some a \<Rightarrow> Some a | None \<Rightarrow> Discover T (Some client) f es)"

subsection \<open>The cache file\<close>

definition maxCacheBytes :: nat where "maxCacheBytes = 4 * 1024"

record cache_entry =
  ceAddress :: bytes
  ceObservedAt :: "int option"
  ceLastAttemptAt :: int
  ceFailureCount :: int
  ceRetryAt :: int

record cache_file =
  cfIPv4 :: cache_entry
  cfIPv6 :: cache_entry

definition noEntry :: cache_entry where
  "noEntry = \<lparr>ceAddress = [], ceObservedAt = None, ceLastAttemptAt = 0, ceFailureCount = 0, ceRetryAt = 0\<rparr>"

definition noCache :: cache_file where "noCache = \<lparr>cfIPv4 = noEntry, cfIPv6 = noEntry\<rparr>"

record cache_codec =
  ccDecode :: "bytes \<Rightarrow> cache_file option"
  ccEncode :: "cache_file \<Rightarrow> bytes"

text \<open>The file at the cache path, if there is one.\<close>

record cache_disk =
  cdFile :: "bytes option"
  cdFaults :: "bool list"

definition cacheCall :: "cache_disk \<Rightarrow> bool \<times> cache_disk" where
  "cacheCall d = (case cdFaults d of [] \<Rightarrow> (True, d) | f # fs \<Rightarrow> (\<not> f, d\<lparr>cdFaults := fs\<rparr>))"

definition validateCacheEntry :: "addr_text \<Rightarrow> cache_entry \<Rightarrow> family \<Rightarrow> bool" where
  "validateCacheEntry T e f =
     (if ceFailureCount e < 0 \<or> ceLastAttemptAt e < 0 \<or> ceRetryAt e < 0 then False
      else if ceAddress e = [] then True
      else (case atParse T (ceAddress e) of
        None \<Rightarrow> False
      | Some addr \<Rightarrow>
          let addr = Unmap addr in
          if \<not> matchesFamily addr f \<or> \<not> IsPublic (Some addr) then False else True))"

text \<open>\<open>None\<close> is an error.\<close>

definition readCache :: "addr_text \<Rightarrow> cache_codec \<Rightarrow> cache_disk \<Rightarrow> cache_file option \<times> cache_disk" where
  "readCache T C d =
     (let (ok, d) = cacheCall d in
      if \<not> ok then (None, d)
      else (case cdFile d of
        None \<Rightarrow> (Some noCache, d)
      | Some b \<Rightarrow>
          let (ok, d) = cacheCall d in
          if \<not> ok then (None, d)
          else if maxCacheBytes < length b then (None, d)
          else (case ccDecode C b of
            None \<Rightarrow> (None, d)
          | Some cache \<Rightarrow>
              if \<not> validateCacheEntry T (cfIPv4 cache) FamilyIPv4 then (None, d)
              else if \<not> validateCacheEntry T (cfIPv6 cache) FamilyIPv6 then (None, d)
              else (Some cache, d))))"

fun cacheCalls :: "nat \<Rightarrow> cache_disk \<Rightarrow> bool \<times> cache_disk" where
  "cacheCalls 0 d = (True, d)"
| "cacheCalls (Suc n) d = (let (ok, d) = cacheCall d in if \<not> ok then (False, d) else cacheCalls n d)"

text \<open>Directory, temporary file, mode, contents, close and rename: six calls, of which the last replaces the file.\<close>

definition writeCache :: "cache_codec \<Rightarrow> cache_file \<Rightarrow> cache_disk \<Rightarrow> bool \<times> cache_disk" where
  "writeCache C cache d =
     (let (ok, d) = cacheCalls 6 d in if \<not> ok then (False, d) else (True, d\<lparr>cdFile := Some (ccEncode C cache)\<rparr>))"

subsection \<open>The resolver\<close>

record egress_options =
  eoEnabled :: bool
  eoRefreshInterval :: duration
  eoIPv4Endpoints :: "bytes list"
  eoIPv6Endpoints :: "bytes list"

record egress_result =
  egIPv4 :: bytes
  egIPv6 :: bytes

definition needsRefresh :: "cache_entry \<Rightarrow> int \<Rightarrow> duration \<Rightarrow> bool" where
  "needsRefresh e now interval =
     (if now div second < ceRetryAt e then False
      else (case ceObservedAt e of
        None \<Rightarrow> True
      | Some t \<Rightarrow> if ceAddress e = [] then True else \<not> now < t + interval))"

definition cacheEntryForFamily :: "cache_file \<Rightarrow> family \<Rightarrow> cache_entry" where
  "cacheEntryForFamily cache f = (if f = FamilyIPv6 then cfIPv6 cache else cfIPv4 cache)"

definition setCacheEntryForFamily :: "family \<Rightarrow> cache_entry \<Rightarrow> cache_file \<Rightarrow> cache_file" where
  "setCacheEntryForFamily f e cache = (if f = FamilyIPv6 then cache\<lparr>cfIPv6 := e\<rparr> else cache\<lparr>cfIPv4 := e\<rparr>)"

definition setResultForFamily :: "family \<Rightarrow> bytes \<Rightarrow> egress_result \<Rightarrow> egress_result" where
  "setResultForFamily f a r =
     (if f = FamilyIPv4 then r\<lparr>egIPv4 := a\<rparr> else if f = FamilyIPv6 then r\<lparr>egIPv6 := a\<rparr> else r)"

definition failedAttempt :: "int \<Rightarrow> cache_entry \<Rightarrow> cache_entry" where
  "failedAttempt now e =
     (let n = (if ceFailureCount e < 32 then ceFailureCount e + 1 else ceFailureCount e) in
      e\<lparr>ceLastAttemptAt := now div second, ceFailureCount := n, ceRetryAt := (now + Delay n) div second\<rparr>)"

definition pendingFamilies :: "egress_options \<Rightarrow> int \<Rightarrow> cache_file \<Rightarrow> (family \<times> bytes list) list" where
  "pendingFamilies opts now cache =
     (if needsRefresh (cfIPv4 cache) now (eoRefreshInterval opts) \<and> (ceAddress (cfIPv4 cache) \<noteq> [] \<or> eoIPv4Endpoints opts \<noteq> [])
      then [(FamilyIPv4, eoIPv4Endpoints opts)] else []) @
     (if needsRefresh (cfIPv6 cache) now (eoRefreshInterval opts) \<and> (ceAddress (cfIPv6 cache) \<noteq> [] \<or> eoIPv6Endpoints opts \<noteq> [])
      then [(FamilyIPv6, eoIPv6Endpoints opts)] else [])"

text \<open>One answer from a goroutine; an address is what the discoverer returned, \<open>None\<close> its error.\<close>

fun takeAnswer :: "int \<Rightarrow> family \<times> bytes option \<Rightarrow> cache_file \<times> egress_result \<Rightarrow> cache_file \<times> egress_result" where
  "takeAnswer now (f, None) (cache, r) =
     (setCacheEntryForFamily f (failedAttempt now (cacheEntryForFamily cache f)) cache, r)"
| "takeAnswer now (f, Some a) (cache, r) =
     (let e = \<lparr>ceAddress = a, ceObservedAt = Some now, ceLastAttemptAt = now div second, ceFailureCount = 0, ceRetryAt = 0\<rparr> in
      (if f = FamilyIPv4 \<or> f = FamilyIPv6 then setCacheEntryForFamily f e cache else cache, setResultForFamily f a r))"

text \<open>\<open>order\<close> is the order in which the goroutines answer, \<open>discover\<close> the resolver's discoverer if it has one.\<close>

definition Resolve ::
    "addr_text \<Rightarrow> cache_codec \<Rightarrow> (family \<Rightarrow> bytes list \<Rightarrow> bytes option) option \<Rightarrow>
      ((family \<times> bytes option) list \<Rightarrow> (family \<times> bytes option) list) \<Rightarrow> egress_options \<Rightarrow> int \<Rightarrow> cache_disk \<Rightarrow> egress_result \<times> cache_disk" where
  "Resolve T C discover order opts now d =
     (if \<not> eoEnabled opts then (\<lparr>egIPv4 = [], egIPv6 = []\<rparr>, d)
      else
        let (read, d) = readCache T C d;
            cache = (case read of None \<Rightarrow> noCache | Some c \<Rightarrow> c);
            result = \<lparr>egIPv4 = ceAddress (cfIPv4 cache), egIPv6 = ceAddress (cfIPv6 cache)\<rparr>;
            pending = pendingFamilies opts now cache
        in if pending = [] then (result, d)
           else
             let answers = order (map (\<lambda>(f, es). (f, case discover of None \<Rightarrow> None | Some g \<Rightarrow> g f es)) pending);
                 (cache, result) = fold (takeAnswer now) answers (cache, result);
                 (ok, d) = writeCache C cache d
             in (result, d))"

subsection \<open>Looking up a location\<close>

definition maxGeoResponseBody :: nat where "maxGeoResponseBody = 2 ^ 20"

record ip_whois_response =
  iwSuccess :: bool
  iwCountry :: bytes
  iwRegion :: bytes
  iwCity :: bytes

text \<open>\<open>strings.Replace(s, p, t, 1)\<close>.\<close>

definition replace_first :: "bytes \<Rightarrow> bytes \<Rightarrow> bytes \<Rightarrow> bytes" where
  "replace_first s p t = (case index_sub s p of None \<Rightarrow> s | Some i \<Rightarrow> take i s @ t @ drop (i + length p) s)"

text \<open>\<open>client\<close> takes the value of the Authorization header, empty when there is none.\<close>

definition LookupWhois ::
    "addr_text \<Rightarrow> (bytes \<Rightarrow> ip_whois_response option) \<Rightarrow> (bytes \<Rightarrow> web_client) \<Rightarrow> bytes \<Rightarrow> bytes \<Rightarrow> bytes \<Rightarrow> geo_location option" where
  "LookupWhois T decode client urlTemplate bearerToken ip =
     (case atParse T ip of
        None \<Rightarrow> None
      | Some parsed \<Rightarrow>
          let endpoint = replace_first urlTemplate ''{ip}'' (atString T (Unmap parsed));
              header = (if bearerToken \<noteq> [] then ''Bearer '' @ bearerToken else [])
          in (case client header (checkSecureRedirect safeRedirectTarget) endpoint of
             None \<Rightarrow> None
           | Some resp \<Rightarrow>
               if wbStatus resp < 200 \<or> 300 \<le> wbStatus resp then None
               else if \<not> wbReadOk resp \<or> maxGeoResponseBody < length (wbBody resp) then None
               else (case decode (wbBody resp) of
                 None \<Rightarrow> None
               | Some out \<Rightarrow>
                   if \<not> iwSuccess out then None
                   else Some \<lparr>glCountry = iwCountry out, glRegionName = iwRegion out, glCity = iwCity out\<rparr>)))"

subsection \<open>Which families are asked, and what is kept\<close>

definition endpointsFor :: "egress_options \<Rightarrow> family \<Rightarrow> bytes list" where
  "endpointsFor opts f = (if f = FamilyIPv6 then eoIPv6Endpoints opts else eoIPv4Endpoints opts)"

definition families :: "family set" where "families = {FamilyIPv4, FamilyIPv6}"

definition due :: "egress_options \<Rightarrow> int \<Rightarrow> cache_file \<Rightarrow> family \<Rightarrow> bool" where
  "due opts now cache f \<longleftrightarrow>
     needsRefresh (cacheEntryForFamily cache f) now (eoRefreshInterval opts) \<and>
     (ceAddress (cacheEntryForFamily cache f) \<noteq> [] \<or> endpointsFor opts f \<noteq> [])"

definition ask :: "(family \<Rightarrow> bytes list \<Rightarrow> bytes option) option \<Rightarrow> egress_options \<Rightarrow> family \<Rightarrow> bytes option" where
  "ask discover opts f = (case discover of None \<Rightarrow> None | Some g \<Rightarrow> g f (endpointsFor opts f))"

definition resultFor :: "egress_result \<Rightarrow> family \<Rightarrow> bytes" where
  "resultFor r f = (if f = FamilyIPv6 then egIPv6 r else egIPv4 r)"

definition loadedCache :: "addr_text \<Rightarrow> cache_codec \<Rightarrow> cache_disk \<Rightarrow> cache_file" where
  "loadedCache T C d = (case fst (readCache T C d) of None \<Rightarrow> noCache | Some c \<Rightarrow> c)"

text \<open>The entry of a family after its answer.\<close>

definition answeredEntry :: "int \<Rightarrow> bytes option \<Rightarrow> cache_entry \<Rightarrow> cache_entry" where
  "answeredEntry now answer e =
     (case answer of
        None \<Rightarrow> failedAttempt now e
      | Some a \<Rightarrow> \<lparr>ceAddress = a, ceObservedAt = Some now, ceLastAttemptAt = now div second, ceFailureCount = 0, ceRetryAt = 0\<rparr>)"

lemmas family_defs = FamilyIPv4_def FamilyIPv6_def

lemma entry_set [simp]:
  "f \<in> families \<Longrightarrow> g \<in> families \<Longrightarrow>
     cacheEntryForFamily (setCacheEntryForFamily f e c) g = (if f = g then e else cacheEntryForFamily c g)"
  by (auto simp: cacheEntryForFamily_def setCacheEntryForFamily_def families_def family_defs)

lemma result_set [simp]:
  "f \<in> families \<Longrightarrow> g \<in> families \<Longrightarrow> resultFor (setResultForFamily f a r) g = (if f = g then a else resultFor r g)"
  by (auto simp: resultFor_def setResultForFamily_def families_def family_defs)

lemma cache_by_families:
  assumes "\<And>f. f \<in> families \<Longrightarrow> cacheEntryForFamily c f = cacheEntryForFamily c' f"
  shows "c = c'"
  using assms [of FamilyIPv4] assms [of FamilyIPv6]
  by (cases c; cases c') (simp add: cacheEntryForFamily_def families_def family_defs)

lemma pending_families:
  "pendingFamilies opts now cache = map (\<lambda>f. (f, endpointsFor opts f)) (filter (due opts now cache) [FamilyIPv4, FamilyIPv6])"
  by (auto simp: pendingFamilies_def due_def endpointsFor_def cacheEntryForFamily_def family_defs)

text \<open>In whatever order the answers arrive, every family gets its own.\<close>

lemma takeAnswer_entry:
  assumes "f \<in> families" "g \<in> families"
  shows "cacheEntryForFamily (fst (takeAnswer now (f, a) (c, r))) g =
           (if f = g then answeredEntry now a (cacheEntryForFamily c g) else cacheEntryForFamily c g)"
    and "resultFor (snd (takeAnswer now (f, a) (c, r))) g =
           (if f = g then (case a of None \<Rightarrow> resultFor r g | Some t \<Rightarrow> t) else resultFor r g)"
  using assms by (cases a; auto simp: answeredEntry_def Let_def families_def)+

lemma fold_answers:
  assumes "distinct (map fst answers)" and "fst ` set answers \<subseteq> families" and "g \<in> families"
  shows "cacheEntryForFamily (fst (fold (takeAnswer now) answers (c, r))) g =
           (case map_of answers g of None \<Rightarrow> cacheEntryForFamily c g | Some a \<Rightarrow> answeredEntry now a (cacheEntryForFamily c g)) \<and>
         resultFor (snd (fold (takeAnswer now) answers (c, r))) g =
           (case map_of answers g of Some (Some t) \<Rightarrow> t | _ \<Rightarrow> resultFor r g)"
  using assms
proof (induction answers arbitrary: c r)
  case Nil
  then show ?case by simp
next
  case (Cons x xs)
  obtain f a where x: "x = (f, a)" by (cases x)
  obtain c1 r1 where s: "takeAnswer now (f, a) (c, r) = (c1, r1)" by (metis surj_pair)
  have f: "f \<in> families" using Cons.prems x by simp
  have e: "cacheEntryForFamily c1 g = (if f = g then answeredEntry now a (cacheEntryForFamily c g) else cacheEntryForFamily c g)"
    "resultFor r1 g = (if f = g then (case a of None \<Rightarrow> resultFor r g | Some t \<Rightarrow> t) else resultFor r g)"
    using takeAnswer_entry [OF f Cons.prems(3), of now a c r] s by simp_all
  have no: "f = g \<Longrightarrow> map_of xs g = None" using Cons.prems x by (auto simp: map_of_eq_None_iff)
  have ih: "cacheEntryForFamily (fst (fold (takeAnswer now) xs (c1, r1))) g =
           (case map_of xs g of None \<Rightarrow> cacheEntryForFamily c1 g | Some a \<Rightarrow> answeredEntry now a (cacheEntryForFamily c1 g))"
      "resultFor (snd (fold (takeAnswer now) xs (c1, r1))) g = (case map_of xs g of Some (Some t) \<Rightarrow> t | _ \<Rightarrow> resultFor r1 g)"
    using Cons.IH [of c1 r1] Cons.prems by auto
  show ?case using ih e no by (auto simp: x s split: option.split)
qed

lemma distinct_permuted: "mset xs = mset ys \<Longrightarrow> distinct (map fst ys) \<Longrightarrow> distinct (map fst xs)"
  by (metis mset_map mset_eq_imp_distinct_iff)

lemma map_of_permuted:
  assumes "mset xs = mset ys" "distinct (map fst ys)"
  shows "map_of xs = map_of ys"
proof -
  have "distinct (map fst xs)" using assms by (rule distinct_permuted)
  moreover have "set xs = set ys" using assms(1) by (metis set_mset_mset)
  ultimately show ?thesis using assms(2) by (simp add: map_of_inject_set)
qed

lemma map_of_answers:
  "map_of (map (\<lambda>(f, es). (f, case D of None \<Rightarrow> None | Some g \<Rightarrow> g f es)) (pendingFamilies opts now cache)) f =
     (if f \<in> families \<and> due opts now cache f then Some (ask D opts f) else None)"
  by (auto simp: pending_families ask_def families_def family_defs)

lemma pending_empty: "pendingFamilies opts now cache = [] \<longleftrightarrow> (\<forall>f\<in>families. \<not> due opts now cache f)"
  by (auto simp: pending_families families_def)

subsection \<open>The file\<close>

lemma cacheCalls_ok [simp]: "cdFaults d = [] \<Longrightarrow> cacheCalls n d = (True, d)"
  by (induction n) (simp_all add: cacheCall_def)

lemma cacheCall_ok [simp]: "cdFaults d = [] \<Longrightarrow> cacheCall d = (True, d)"
  by (simp add: cacheCall_def)

lemma cacheCall_file: "cdFile (snd (cacheCall d)) = cdFile d"
  by (simp add: cacheCall_def split: list.split)

lemma cacheCalls_file: "cdFile (snd (cacheCalls n d)) = cdFile d"
proof (induction n arbitrary: d)
  case (Suc n)
  obtain ok d1 where c: "cacheCall d = (ok, d1)" by (metis surj_pair)
  show ?case using Suc [of d1] cacheCall_file [of d] by (simp add: c Let_def)
qed simp

lemma writeCache_file:
  "writeCache C cache d = (ok, d') \<Longrightarrow> cdFile d' = (if ok then Some (ccEncode C cache) else cdFile d)"
  using cacheCalls_file [of 6 d] by (auto simp: writeCache_def split: prod.splits if_splits)

lemma readCache_file: "cdFile (snd (readCache T C d)) = cdFile d"
proof -
  obtain ok1 d1 where c1: "cacheCall d = (ok1, d1)" by (metis surj_pair)
  obtain ok2 d2 where c2: "cacheCall d1 = (ok2, d2)" by (metis surj_pair)
  have "cdFile d1 = cdFile d" "cdFile d2 = cdFile d1" using cacheCall_file [of d] cacheCall_file [of d1] c1 c2 by simp_all
  then show ?thesis by (auto simp: readCache_def c1 c2 Let_def split: option.split)
qed

text \<open>A public address of its family, in the text the program keeps.\<close>

definition address_of_family :: "addr_text \<Rightarrow> family \<Rightarrow> bytes \<Rightarrow> bool" where
  "address_of_family T f t \<longleftrightarrow> (\<exists>a. atParse T t = Some a \<and> matchesFamily (Unmap a) f \<and> IsPublic (Some (Unmap a)))"

definition cache_ok :: "addr_text \<Rightarrow> cache_file \<Rightarrow> bool" where
  "cache_ok T c \<longleftrightarrow> (\<forall>f\<in>families. validateCacheEntry T (cacheEntryForFamily c f) f)"

lemma valid_entry_address:
  "validateCacheEntry T e f \<Longrightarrow> ceAddress e = [] \<or> address_of_family T f (ceAddress e)"
  by (auto simp: validateCacheEntry_def address_of_family_def Let_def split: if_splits option.splits)

lemma validateCacheEntry_iff:
  "validateCacheEntry T e f \<longleftrightarrow>
     0 \<le> ceFailureCount e \<and> 0 \<le> ceLastAttemptAt e \<and> 0 \<le> ceRetryAt e \<and> (ceAddress e = [] \<or> address_of_family T f (ceAddress e))"
  by (auto simp: validateCacheEntry_def address_of_family_def Let_def split: if_splits option.splits)

lemma loadedCache_ok: "cache_ok T (loadedCache T C d)"
proof -
  obtain ok1 d1 where c1: "cacheCall d = (ok1, d1)" by (metis surj_pair)
  obtain ok2 d2 where c2: "cacheCall d1 = (ok2, d2)" by (metis surj_pair)
  have no: "cache_ok T noCache"
    by (simp add: cache_ok_def noCache_def noEntry_def cacheEntryForFamily_def validateCacheEntry_def)
  have "cache_ok T c" if "fst (readCache T C d) = Some c" for c
    using that no
    by (auto simp: readCache_def c1 c2 Let_def cache_ok_def families_def cacheEntryForFamily_def family_defs split: if_splits option.splits)
  then show ?thesis using no by (auto simp: loadedCache_def split: option.split)
qed

lemma readCache_stored:
  assumes "cdFaults d = []" and "cdFile d = Some (ccEncode C c)" and "ccDecode C (ccEncode C c) = Some c"
    and "length (ccEncode C c) \<le> maxCacheBytes" and "cache_ok T c"
  shows "loadedCache T C d = c"
  using assms by (simp add: loadedCache_def readCache_def cache_ok_def families_def cacheEntryForFamily_def family_defs)

subsection \<open>The answers of the fetcher\<close>

text \<open>\<open>Addr.String\<close> writes an address \<open>ParseAddr\<close> reads back.\<close>

definition canonical_texts :: "addr_text \<Rightarrow> bool" where
  "canonical_texts T \<longleftrightarrow> (\<forall>a. atParse T (atString T a) = Some a)"

text \<open>What JSON keeps of a cache: every number is an \<open>int64\<close> and the time one of the years \<open>time.Time\<close> can write.\<close>

definition int64_range :: "int \<Rightarrow> bool" where "int64_range i \<longleftrightarrow> - (2 ^ 63) \<le> i \<and> i < 2 ^ 63"

definition representable_entry :: "cache_entry \<Rightarrow> bool" where
  "representable_entry e \<longleftrightarrow>
     int64_range (ceLastAttemptAt e) \<and> int64_range (ceFailureCount e) \<and> int64_range (ceRetryAt e) \<and>
     (case ceObservedAt e of None \<Rightarrow> True | Some t \<Rightarrow> int64_range t)"

definition representable :: "cache_file \<Rightarrow> bool" where
  "representable c \<longleftrightarrow> representable_entry (cfIPv4 c) \<and> representable_entry (cfIPv6 c)"

definition codec_laws :: "cache_codec \<Rightarrow> bool" where
  "codec_laws C \<longleftrightarrow>
     (\<forall>c. representable c \<longrightarrow> ccDecode C (ccEncode C c) = Some c) \<and> (\<forall>b c. ccDecode C b = Some c \<longrightarrow> representable c)"

lemma loadedCache_representable:
  assumes "codec_laws C"
  shows "representable (loadedCache T C d)"
proof -
  obtain ok1 d1 where c1: "cacheCall d = (ok1, d1)" by (metis surj_pair)
  obtain ok2 d2 where c2: "cacheCall d1 = (ok2, d2)" by (metis surj_pair)
  have no: "representable noCache" by (simp add: representable_def noCache_def noEntry_def representable_entry_def int64_range_def)
  have "representable c" if "fst (readCache T C d) = Some c" for c
    using that assms no by (auto simp: readCache_def c1 c2 Let_def codec_laws_def split: if_splits option.splits)
  then show ?thesis using no by (auto simp: loadedCache_def split: option.split)
qed

lemma representable_families: "representable c \<longleftrightarrow> (\<forall>f\<in>families. representable_entry (cacheEntryForFamily c f))"
  by (simp add: representable_def families_def cacheEntryForFamily_def family_defs)

lemma Unix_bounds: "0 \<le> t \<Longrightarrow> 0 \<le> t div second \<and> t div second \<le> t"
  using div_mult_mod_eq [of t second] pos_mod_sign [of second t] pos_imp_zdiv_nonneg_iff [of second t] by linarith

lemma Delay_bounds: "5 * minute \<le> Delay n \<and> Delay n \<le> 6 * hour"
  using delay_loop_bounds [of Initial 1] by (simp add: Delay_def Initial_def Maximum_def)

lemma representable_answered:
  assumes "representable_entry e" and "0 \<le> now" and "now < 2 ^ 62"
  shows "representable_entry (answeredEntry now a e)"
proof -
  have "0 \<le> now + Delay n" for n using Delay_bounds [of n] assms(2) by simp
  then have "int64_range ((now + Delay n) div second)" for n
    using Unix_bounds [of "now + Delay n"] Delay_bounds [of n] assms(3) by (simp add: int64_range_def)
  moreover have "int64_range (now div second)" "int64_range now"
    using Unix_bounds [of now] assms(2,3) by (simp_all add: int64_range_def)
  ultimately show ?thesis
    using assms(1) by (cases a) (auto simp: representable_entry_def answeredEntry_def failedAttempt_def Let_def int64_range_def split: option.splits)
qed

lemma Unmap_idem [simp]: "Unmap (Unmap a) = Unmap a"
  by (cases a) auto

lemma discoverEndpoint_address:
  assumes "canonical_texts T" and "discoverEndpoint T client f e = Some t"
  shows "address_of_family T f t"
  using assms
  by (auto simp: discoverEndpoint_def address_of_family_def canonical_texts_def Let_def split: option.splits if_splits)

lemma Discover_address:
  "canonical_texts T \<Longrightarrow> Discover T client f es = Some t \<Longrightarrow> address_of_family T f t"
  by (induction T client f es rule: Discover.induct) (auto dest: discoverEndpoint_address split: option.splits)

lemma Discover_first:
  "Discover T (Some client) f es = Some t \<longleftrightarrow>
     (\<exists>i<length es. discoverEndpoint T client f (es ! i) = Some t \<and> (\<forall>j<i. discoverEndpoint T client f (es ! j) = None))"
proof (induction es)
  case (Cons e es)
  show ?case
  proof (cases "discoverEndpoint T client f e")
    case None
    then show ?thesis
      using Cons by (auto simp: Ex_less_Suc2 All_less_Suc2)
  next
    case (Some a)
    then show ?thesis by (fastforce simp: Ex_less_Suc2 All_less_Suc2)
  qed
qed simp

subsection \<open>Properties\<close>

lemma Resolve_cases:
  assumes "eoEnabled opts" and perm: "\<forall>xs. mset (order xs) = mset xs"
    and run: "Resolve T C discover order opts now d = (r, d')"
  defines "cache \<equiv> loadedCache T C d"
  obtains (idle) "\<forall>f\<in>families. \<not> due opts now cache f" "cdFile d' = cdFile d"
      "\<forall>f\<in>families. resultFor r f = ceAddress (cacheEntryForFamily cache f)"
    | (asked) c' where "\<exists>f\<in>families. due opts now cache f"
      "\<forall>f\<in>families. cacheEntryForFamily c' f =
         (if due opts now cache f then answeredEntry now (ask discover opts f) (cacheEntryForFamily cache f) else cacheEntryForFamily cache f)"
      "\<forall>f\<in>families. resultFor r f =
         (case if due opts now cache f then ask discover opts f else None of
            Some t \<Rightarrow> t | None \<Rightarrow> ceAddress (cacheEntryForFamily cache f))"
      "cdFile d' \<in> {cdFile d, Some (ccEncode C c')}" "cdFaults d = [] \<longrightarrow> d' = d\<lparr>cdFile := Some (ccEncode C c')\<rparr>"
proof -
  obtain rd d1 where rd: "readCache T C d = (rd, d1)" by (metis surj_pair)
  have cache: "(case rd of None \<Rightarrow> noCache | Some c \<Rightarrow> c) = cache" using rd by (simp add: cache_def loadedCache_def)
  have f1: "cdFile d1 = cdFile d" using readCache_file [of T C d] rd by simp
  let ?r0 = "\<lparr>egIPv4 = ceAddress (cfIPv4 cache), egIPv6 = ceAddress (cfIPv6 cache)\<rparr>"
  have r0: "resultFor ?r0 f = ceAddress (cacheEntryForFamily cache f)" for f
    by (simp add: resultFor_def cacheEntryForFamily_def)
  let ?as = "map (\<lambda>(f, es). (f, case discover of None \<Rightarrow> None | Some g \<Rightarrow> g f es)) (pendingFamilies opts now cache)"
  show thesis
  proof (cases "pendingFamilies opts now cache = []")
    case True
    then have "r = ?r0" "d' = d1" using run assms(1) by (simp_all add: Resolve_def rd cache Let_def)
    then show thesis using idle True r0 f1 by (simp add: pending_empty)
  next
    case False
    obtain c1 r1 where fo: "fold (takeAnswer now) (order ?as) (cache, ?r0) = (c1, r1)" by (rule prod.exhaust)
    obtain ok d2 where w: "writeCache C c1 d1 = (ok, d2)" by (metis surj_pair)
    have rr: "r = r1" "d' = d2" using run assms(1) False fo w by (simp_all add: Resolve_def rd cache Let_def)
    have dist: "distinct (map fst ?as)" by (auto simp: pending_families family_defs)
    have m: "mset (order ?as) = mset ?as" using perm by blast
    have mo: "map_of (order ?as) = map_of ?as" by (rule map_of_permuted [OF m dist])
    have dist': "distinct (map fst (order ?as))" by (rule distinct_permuted [OF m dist])
    have "fst ` set ?as \<subseteq> families" by (auto simp: pending_families families_def)
    then have fam: "fst ` set (order ?as) \<subseteq> families" using mset_eq_setD [OF m] by simp
    have ans: "map_of (order ?as) f = (if due opts now cache f then Some (ask discover opts f) else None)" if "f \<in> families" for f
      unfolding mo map_of_answers using that by simp
    have e: "cacheEntryForFamily c1 f =
         (if due opts now cache f then answeredEntry now (ask discover opts f) (cacheEntryForFamily cache f) else cacheEntryForFamily cache f)"
      "resultFor r1 f = (case if due opts now cache f then ask discover opts f else None of
            Some t \<Rightarrow> t | None \<Rightarrow> ceAddress (cacheEntryForFamily cache f))" if "f \<in> families" for f
      using fold_answers [OF dist' fam that, of now cache ?r0] ans [OF that] r0 [of f] fo by (auto split: option.splits)
    have "d' = d\<lparr>cdFile := Some (ccEncode C c1)\<rparr>" if nf: "cdFaults d = []"
    proof -
      have "d1 = d" using rd nf by (auto simp: readCache_def Let_def split: option.splits if_splits)
      then show ?thesis using w rr nf by (simp add: writeCache_def)
    qed
    then show thesis
      using asked [of c1] e False rr writeCache_file [OF w] f1 by (auto simp: pending_empty)
  qed
qed

text \<open>C20. With discovery enabled, the resolver reports for each family what its discoverer answered, if the family was due, and
  else the cached address, whatever order the answers arrive in; a failed discovery keeps the cached address. With the HTTP fetcher every
  reported text is a public address of its family. The file is only written when a family was asked, and then holds every answer.\<close>

theorem Resolve_reports_known_addresses:
  assumes "eoEnabled opts" and "\<forall>xs. mset (order xs) = mset xs" and "canonical_texts T"
    and run: "Resolve T C (Some (Discover T client)) order opts now d = (r, d')"
  defines "cache \<equiv> loadedCache T C d" and "discover \<equiv> Some (Discover T client)"
  shows "(\<forall>f\<in>families.
            resultFor r f =
              (case if due opts now cache f then Discover T client f (endpointsFor opts f) else None of
                 Some t \<Rightarrow> t | None \<Rightarrow> ceAddress (cacheEntryForFamily cache f)) \<and>
            (resultFor r f = [] \<or> address_of_family T f (resultFor r f))) \<and>
         ((\<forall>f\<in>families. \<not> due opts now cache f) \<longrightarrow> cdFile d' = cdFile d) \<and>
         (cdFaults d = [] \<and> (\<exists>f\<in>families. due opts now cache f) \<longrightarrow>
            (\<exists>c'. cdFile d' = Some (ccEncode C c') \<and>
              (\<forall>f\<in>families. cacheEntryForFamily c' f =
                 (if due opts now cache f then answeredEntry now (Discover T client f (endpointsFor opts f)) (cacheEntryForFamily cache f)
                  else cacheEntryForFamily cache f))))"
proof -
  have ask: "ask (Some (Discover T client)) opts f = Discover T client f (endpointsFor opts f)" for f by (simp add: ask_def)
  have old_ok: "ceAddress (cacheEntryForFamily cache f) = [] \<or> address_of_family T f (ceAddress (cacheEntryForFamily cache f))" if "f \<in> families" for f
    using loadedCache_ok [of T C d] valid_entry_address that by (auto simp: cache_ok_def cache_def)
  have new_ok: "Discover T client f es = Some t \<Longrightarrow> address_of_family T f t" for f es t
    by (rule Discover_address [OF assms(3)])
  from assms(1,2) run show ?thesis
  proof (cases rule: Resolve_cases)
    case idle
    then show ?thesis using old_ok by (auto simp: cache_def)
  next
    case (asked c')
    have res: "resultFor r f = (case if due opts now cache f then Discover T client f (endpointsFor opts f) else None of
                 Some t \<Rightarrow> t | None \<Rightarrow> ceAddress (cacheEntryForFamily cache f))" if "f \<in> families" for f
      using asked(3) that unfolding cache_def ask by blast
    have "resultFor r f = [] \<or> address_of_family T f (resultFor r f)" if "f \<in> families" for f
      using old_ok [OF that] new_ok [of f] unfolding res [OF that] by (auto split: option.split)
    then show ?thesis using res asked(1,2,5) unfolding cache_def ask by auto
  qed
qed

text \<open>A family that was asked is not asked again at once: with the written file readable, no discovery of that family is due until the
  refresh interval is over after an answer, and for the five minutes of the first backoff (less the second \<open>Unix\<close> cuts off) after a failure.\<close>

theorem Resolve_waits_before_asking_again:
  assumes "eoEnabled opts" and "\<forall>xs. mset (order xs) = mset xs" and "canonical_texts T" and "atParse T [] = None"
    and laws: "codec_laws C"
    and run: "Resolve T C (Some (Discover T client)) order opts now d = (r, d')"
    and "cdFaults d = []" and small: "cdFile d' = Some b" "length b \<le> maxCacheBytes"
    and "0 \<le> now" "now < 2 ^ 62" and "now \<le> now'" and "now' < now + eoRefreshInterval opts" and "now' + second \<le> now + 5 * minute"
    and "f \<in> families" and "due opts now (loadedCache T C d) f"
  shows "\<not> due opts now' (loadedCache T C d') f"
  using assms(1,2) run
proof (cases rule: Resolve_cases)
  case idle
  then show ?thesis using assms(15,16) by blast
next
  case (asked c')
  let ?c = "loadedCache T C d"
  let ?a = "\<lambda>f. Discover T client f (endpointsFor opts f)"
  have ask: "ask (Some (Discover T client)) opts f = ?a f" for f by (simp add: ask_def)
  have file': "d' = d\<lparr>cdFile := Some (ccEncode C c')\<rparr>" using asked(5) assms(7) by blast
  have e: "cacheEntryForFamily c' g = (if due opts now ?c g then answeredEntry now (?a g) (cacheEntryForFamily ?c g) else cacheEntryForFamily ?c g)"
    if "g \<in> families" for g using asked(2) that by (simp add: ask)
  have old_ok: "validateCacheEntry T (cacheEntryForFamily ?c g) g" if "g \<in> families" for g
    using loadedCache_ok [of T C d] that by (simp add: cache_ok_def)
  have low: "5 * minute \<le> Delay n" for n using Delay_bounds by simp
  have "validateCacheEntry T (answeredEntry now (?a g) (cacheEntryForFamily ?c g)) g" if "g \<in> families" for g
  proof (cases "?a g")
    case None
    have "0 \<le> (now + Delay n) div second" for n using low [of n] assms(10) by (intro pos_imp_zdiv_nonneg_iff [THEN iffD2]) auto
    then show ?thesis
      using old_ok [OF that] None assms(10)
      by (auto simp: validateCacheEntry_iff answeredEntry_def failedAttempt_def Let_def pos_imp_zdiv_nonneg_iff)
  next
    case (Some t)
    then show ?thesis
      using Discover_address [OF assms(3) Some] assms(10) by (auto simp: validateCacheEntry_iff answeredEntry_def pos_imp_zdiv_nonneg_iff)
  qed
  then have ok: "cache_ok T c'" using e old_ok by (simp add: cache_ok_def)
  have "representable_entry (answeredEntry now (?a g) (cacheEntryForFamily ?c g))" if "g \<in> families" for g
    using representable_answered loadedCache_representable [OF laws, of T d] that assms(10,11) by (simp add: representable_families)
  then have rep: "representable c'"
    using e loadedCache_representable [OF laws, of T d] by (simp add: representable_families)
  have enc: "ccDecode C (ccEncode C c') = Some c'" using laws rep by (simp add: codec_laws_def)
  have ld: "loadedCache T C d' = c'"
    using readCache_stored [OF _ _ enc _ ok, of d'] assms(7) small file' by simp
  have entry: "cacheEntryForFamily c' f = answeredEntry now (?a f) (cacheEntryForFamily ?c f)" using e assms(15,16) by simp
  show ?thesis
  proof (cases "?a f")
    case None
    have "now' div second < (now + Delay n) div second" for n
    proof -
      have "(now' + second) div second \<le> (now + Delay n) div second" using assms(14) low [of n] by (intro zdiv_mono1) auto
      then show ?thesis by simp
    qed
    then show ?thesis by (simp add: due_def ld entry answeredEntry_def None needsRefresh_def failedAttempt_def Let_def)
  next
    case (Some t)
    have "t \<noteq> []" using Discover_address [OF assms(3) Some] assms(4) by (auto simp: address_of_family_def)
    moreover have "0 \<le> now' div second" using assms(10,12) by (simp add: pos_imp_zdiv_nonneg_iff)
    ultimately show ?thesis using assms(13) by (simp add: due_def ld entry answeredEntry_def Some needsRefresh_def)
  qed
qed

subsection \<open>A concrete run\<close>

definition sample_text :: addr_text where
  "sample_text =
     \<lparr>atParse = (\<lambda>t. case t of
         [] \<Rightarrow> None
       | c # r \<Rightarrow>
           if c = CHR ''4'' \<and> length r = 4 then Some (V4 (word_of_int (int (be_value r))))
           else if c = CHR ''6'' \<and> 16 \<le> length r then Some (V6 (word_of_int (int (be_value (take 16 r)))) (drop 16 r))
           else None),
      atString = (\<lambda>a. case a of V4 w \<Rightarrow> CHR ''4'' # be_bytes 4 (unat w) | V6 w zone \<Rightarrow> CHR ''6'' # be_bytes 16 (unat w) @ zone)\<rparr>"

lemma be_value_unat: "LENGTH('a::len) \<le> 8 * k \<Longrightarrow> word_of_int (int (be_value (be_bytes k (unat (w :: 'a word))))) = w"
proof -
  assume "LENGTH('a) \<le> 8 * k"
  then have "2 ^ LENGTH('a) \<le> (2::nat) ^ (8 * k)" by (intro power_increasing) auto
  also have "\<dots> = 256 ^ k" by (simp add: power_mult)
  finally have "2 ^ LENGTH('a) \<le> (256::nat) ^ k" .
  then have "unat w < 256 ^ k" by (meson unsigned_less order_less_le_trans)
  then show ?thesis using be_value_bytes [of "unat w" k] by simp
qed

lemma sample_text_canonical: "canonical_texts sample_text"
proof -
  have "atParse sample_text (atString sample_text a) = Some a" for a
    using be_value_unat [of 4, where ?'a = 32] be_value_unat [of 16, where ?'a = 128]
    by (cases a) (simp_all add: sample_text_def del: be_value.simps)
  then show ?thesis by (simp add: canonical_texts_def)
qed

text \<open>The wide fields first, then the length of the first address in unary.\<close>

definition int_bytes :: "int \<Rightarrow> bytes" where "int_bytes i = be_bytes 8 (nat (i + 2 ^ 63))"
definition bytes_int :: "bytes \<Rightarrow> int" where "bytes_int s = int (be_value (take 8 s)) - 2 ^ 63"

definition entry_bytes :: "cache_entry \<Rightarrow> bytes" where
  "entry_bytes e =
     int_bytes (ceLastAttemptAt e) @ int_bytes (ceFailureCount e) @ int_bytes (ceRetryAt e) @
     (case ceObservedAt e of None \<Rightarrow> ''n'' @ int_bytes 0 | Some t \<Rightarrow> ''t'' @ int_bytes t)"

definition bytes_entry :: "bytes \<Rightarrow> bytes \<Rightarrow> cache_entry" where
  "bytes_entry s a =
     \<lparr>ceAddress = a, ceObservedAt = (if take 1 (drop 24 s) = ''t'' then Some (bytes_int (drop 25 s)) else None),
      ceLastAttemptAt = bytes_int s, ceFailureCount = bytes_int (drop 8 s), ceRetryAt = bytes_int (drop 16 s)\<rparr>"

definition sample_codec :: cache_codec where
  "sample_codec =
     \<lparr>ccDecode = (\<lambda>s.
         let t = drop 66 s; n = length (takeWhile (\<lambda>c. c = CHR ''x'') t); a = drop (n + 1) t;
             c = \<lparr>cfIPv4 = bytes_entry s (take n a), cfIPv6 = bytes_entry (drop 33 s) (drop n a)\<rparr>
         in if representable c then Some c else None),
      ccEncode = (\<lambda>c. entry_bytes (cfIPv4 c) @ entry_bytes (cfIPv6 c) @
         replicate (length (ceAddress (cfIPv4 c))) (CHR ''x'') @ '';'' @ ceAddress (cfIPv4 c) @ ceAddress (cfIPv6 c))\<rparr>"

lemma length_int_bytes [simp]: "length (int_bytes i) = 8"
  by (simp add: int_bytes_def)

lemma length_entry_bytes [simp]: "length (entry_bytes e) = 33"
  by (simp add: entry_bytes_def split: option.split)

lemma bytes_int_bytes [simp]: "int64_range i \<Longrightarrow> bytes_int (int_bytes i @ s) = i"
proof -
  assume "int64_range i"
  then have "nat (i + 2 ^ 63) < 256 ^ 8" "0 \<le> i + 2 ^ 63" by (simp_all add: int64_range_def nat_less_iff)
  then show ?thesis using be_value_bytes [of "nat (i + 2 ^ 63)" 8] by (simp add: bytes_int_def int_bytes_def del: be_value.simps)
qed

lemma bytes_entry_bytes: "representable_entry e \<Longrightarrow> bytes_entry (entry_bytes e @ s) (ceAddress e) = e"
proof -
  assume r: "representable_entry e"
  have d: "drop 8 (int_bytes i @ t) = t" "drop 16 (int_bytes i @ int_bytes j @ t) = t"
      "drop 24 (int_bytes i @ int_bytes j @ int_bytes k @ t) = t" "drop 25 (int_bytes i @ int_bytes j @ int_bytes k @ c # t) = t" for i j k c t
    by simp_all
  show ?thesis
    using r by (cases e; cases "ceObservedAt e") (auto simp: bytes_entry_def entry_bytes_def d representable_entry_def)
qed

lemma takeWhile_unary: "takeWhile (\<lambda>c. c = x) (replicate n x @ y # zs) = replicate n x" if "y \<noteq> x"
  using that by (induction n) auto

lemma sample_codec_laws: "codec_laws sample_codec"
proof -
  have dec: "ccDecode sample_codec b =
       (let t = drop 66 b; n = length (takeWhile (\<lambda>c. c = CHR ''x'') t); a = drop (n + 1) t;
             c = \<lparr>cfIPv4 = bytes_entry b (take n a), cfIPv6 = bytes_entry (drop 33 b) (drop n a)\<rparr>
         in if representable c then Some c else None)" for b
    by (simp add: sample_codec_def)
  have "ccDecode sample_codec (ccEncode sample_codec c) = Some c" if r: "representable c" for c
  proof -
    let ?s = "ccEncode sample_codec c"
    let ?u = "replicate (length (ceAddress (cfIPv4 c))) (CHR ''x'')"
    have s: "?s = entry_bytes (cfIPv4 c) @ entry_bytes (cfIPv6 c) @ ?u @ CHR '';'' # ceAddress (cfIPv4 c) @ ceAddress (cfIPv6 c)"
      by (simp add: sample_codec_def)
    have t: "drop 66 ?s = ?u @ CHR '';'' # ceAddress (cfIPv4 c) @ ceAddress (cfIPv6 c)" "drop 33 ?s = entry_bytes (cfIPv6 c) @ ?u @ CHR '';'' # ceAddress (cfIPv4 c) @ ceAddress (cfIPv6 c)"
      unfolding s by simp_all
    have n: "takeWhile (\<lambda>c. c = CHR ''x'') (drop 66 ?s) = ?u" unfolding t by (rule takeWhile_unary) simp
    have e: "bytes_entry ?s (ceAddress (cfIPv4 c)) = cfIPv4 c" "bytes_entry (drop 33 ?s) (ceAddress (cfIPv6 c)) = cfIPv6 c"
      using r bytes_entry_bytes unfolding representable_def t s by simp_all
    have a: "drop (length ?u + 1) (drop 66 ?s) = ceAddress (cfIPv4 c) @ ceAddress (cfIPv6 c)" unfolding t by simp
    show ?thesis unfolding dec Let_def n a using e r by (simp add: representable_def)
  qed
  moreover have "ccDecode sample_codec b = Some c \<Longrightarrow> representable c" for b c
    unfolding dec Let_def by (metis option.inject option.distinct(1))
  ultimately show ?thesis by (simp add: codec_laws_def)
qed

definition sample_now :: int where "sample_now = 100 * second"

text \<open>Only the IPv4 endpoint answers.\<close>

definition sample_client :: web_client where
  "sample_client secure endpoint =
     (if endpoint = ''four'' then Some \<lparr>wbStatus = 200, wbBody = atString sample_text (V4 0x08080808), wbReadOk = True\<rparr> else None)"

definition sample_options :: egress_options where
  "sample_options = \<lparr>eoEnabled = True, eoRefreshInterval = hour, eoIPv4Endpoints = [''down'', ''four''], eoIPv6Endpoints = [''six'']\<rparr>"

definition no_disk :: cache_disk where "no_disk = \<lparr>cdFile = None, cdFaults = []\<rparr>"

lemma sample_loaded: "loadedCache sample_text sample_codec no_disk = noCache"
  by (simp add: loadedCache_def readCache_def no_disk_def)

lemma public_sample: "IsPublic (Some (V4 0x08080808))"
  by (simp add: IsPublic_def globallyReachableExceptions_def specialUsePrefixes_def)

lemma sample_body: "atString sample_text (V4 0x08080808) = [CHR ''4'', CHR 8, CHR 8, CHR 8, CHR 8]"
proof -
  have "be_bytes (Suc (Suc (Suc (Suc 0)))) 0x08080808 = [CHR 8, CHR 8, CHR 8, CHR 8]"
    by (simp add: char_of_eq_iff take_bit_eq_mod)
  moreover have "Suc (Suc (Suc (Suc 0))) = 4" by simp
  ultimately have "be_bytes 4 0x08080808 = [CHR 8, CHR 8, CHR 8, CHR 8]" by metis
  then show ?thesis by (simp add: sample_text_def)
qed

lemma sample_trim: "trim_space [CHR ''4'', CHR 8, CHR 8, CHR 8, CHR 8] = [CHR ''4'', CHR 8, CHR 8, CHR 8, CHR 8]"
  by code_simp

lemma sample_answers:
  "Discover sample_text (Some sample_client) FamilyIPv4 [''down'', ''four''] = Some (atString sample_text (V4 0x08080808))"
  "Discover sample_text (Some sample_client) FamilyIPv6 [''six''] = None"
proof -
  have p: "atParse sample_text [CHR ''4'', CHR 8, CHR 8, CHR 8, CHR 8] = Some (V4 0x08080808)"
    using sample_text_canonical by (simp add: canonical_texts_def flip: sample_body)
  show "Discover sample_text (Some sample_client) FamilyIPv4 [''down'', ''four''] = Some (atString sample_text (V4 0x08080808))"
    using public_sample by (simp add: discoverEndpoint_def sample_client_def sample_body sample_trim p maxResponseBytes_def family_defs)
  show "Discover sample_text (Some sample_client) FamilyIPv6 [''six''] = None"
    by (simp add: discoverEndpoint_def sample_client_def)
qed

lemma sample_due: "due sample_options sample_now noCache FamilyIPv4" "due sample_options sample_now noCache FamilyIPv6"
  by (simp_all add: due_def needsRefresh_def noCache_def sample_now_def noEntry_def cacheEntryForFamily_def endpointsFor_def sample_options_def family_defs)

theorem Resolve_reports_known_addresses_witness:
  "resultFor (fst (Resolve sample_text sample_codec (Some (Discover sample_text (Some sample_client))) rev sample_options sample_now no_disk))
     FamilyIPv4 = atString sample_text (V4 0x08080808)"
proof -
  let ?R = "Resolve sample_text sample_codec (Some (Discover sample_text (Some sample_client))) rev sample_options sample_now no_disk"
  obtain r d' where run: "?R = (r, d')" by (rule prod.exhaust)
  have s: "FamilyIPv4 \<in> families" "endpointsFor sample_options FamilyIPv4 = [''down'', ''four'']" "eoEnabled sample_options"
    by (simp_all add: families_def endpointsFor_def sample_options_def family_defs)
  then show ?thesis
    using Resolve_reports_known_addresses [OF s(3) _ sample_text_canonical run] sample_answers sample_due s
    unfolding sample_loaded by (simp add: run del: Discover.simps)
qed


lemma sample_file:
  assumes "Resolve sample_text sample_codec (Some (Discover sample_text (Some sample_client))) rev sample_options sample_now no_disk = (r, d')"
  shows "\<exists>b. cdFile d' = Some b \<and> length b \<le> maxCacheBytes"
proof -
  have en: "eoEnabled sample_options" by (simp add: sample_options_def)
  have perm: "\<forall>xs. mset (rev xs) = mset xs" by simp
  from en perm assms have "\<exists>c'. cdFile d' = Some (ccEncode sample_codec c') \<and> length (ceAddress (cfIPv4 c')) = 5 \<and> ceAddress (cfIPv6 c') = []"
  proof (cases rule: Resolve_cases)
    case idle
    then show ?thesis using idle(1) sample_due by (simp add: sample_loaded families_def)
  next
    case (asked c')
    have "cacheEntryForFamily c' FamilyIPv4 = answeredEntry sample_now (Some (atString sample_text (V4 0x08080808))) noEntry"
      "cacheEntryForFamily c' FamilyIPv6 = answeredEntry sample_now None noEntry"
      using asked(2) sample_due sample_answers
      by (simp_all add: sample_loaded families_def ask_def endpointsFor_def sample_options_def family_defs del: Discover.simps)
        (simp_all add: cacheEntryForFamily_def noCache_def family_defs)
    then show ?thesis
      using asked(5) by (intro exI [of _ c'])
        (simp add: no_disk_def cacheEntryForFamily_def answeredEntry_def failedAttempt_def noEntry_def sample_body Let_def family_defs)
  qed
  then show ?thesis by (auto simp: sample_codec_def maxCacheBytes_def)
qed

theorem Resolve_waits_before_asking_again_witness:
  "\<not> due sample_options (2 * sample_now)
     (loadedCache sample_text sample_codec
        (snd (Resolve sample_text sample_codec (Some (Discover sample_text (Some sample_client))) rev sample_options sample_now no_disk)))
     FamilyIPv6"
proof -
  let ?R = "Resolve sample_text sample_codec (Some (Discover sample_text (Some sample_client))) rev sample_options sample_now no_disk"
  obtain r d' where run: "?R = (r, d')" by (rule prod.exhaust)
  obtain b where b: "cdFile d' = Some b" "length b \<le> maxCacheBytes" using sample_file [OF run] by blast
  have s: "FamilyIPv6 \<in> families" "eoEnabled sample_options" "eoRefreshInterval sample_options = hour" "atParse sample_text [] = None" "cdFaults no_disk = []"
    by (simp_all add: families_def sample_options_def sample_text_def no_disk_def)
  have "\<not> due sample_options (2 * sample_now) (loadedCache sample_text sample_codec d') FamilyIPv6"
    by (rule Resolve_waits_before_asking_again [OF s(2) _ sample_text_canonical s(4) sample_codec_laws run s(5) b])
      (use s sample_due in \<open>simp_all add: sample_loaded sample_now_def\<close>)
  then show ?thesis by (simp add: run)
qed

end
