(* ===== verification/AgentConfig.thy ===== *)
theory AgentConfig
  imports AgentIdentity Egress
begin

text \<open>
  \<open>internal/config/config.go\<close> and \<open>internal/sink/sink.go\<close>: the configuration of the Agent with its defaults, its validation, and the
  destinations of reports. The TOML decoder, URL and duration texts, the environment, the file system and the HTTP client are
  parameters. Durations are nanoseconds.
\<close>

subsection \<open>Configuration\<close>

record sink_config =
  skType :: bytes
  skURL :: bytes
  skMethod :: bytes
  skHeaders :: "(bytes \<times> bytes) list"
  skTokenEnv :: bytes
  skTokenFile :: bytes
  skInsecureAllowHTTP :: bool
  skTLSSkipVerify :: bool
  skTLSCAFile :: bytes

record agent_section =
  acNodeID :: bytes
  acLogLevel :: bytes
  acReportInterval :: bytes
  acCollectTimeout :: bytes
  acShutdownTimeout :: bytes

record panel_section =
  plURL :: bytes
  plCAFile :: bytes
  plCertFile :: bytes
  plKeyFile :: bytes
  plCommandKeyFile :: bytes
  plReleaseKeyFile :: bytes

record egress_section =
  egEnabled :: bool
  egRefreshInterval :: bytes
  egTimeout :: bytes
  egIPv4Endpoints :: "bytes list"
  egIPv6Endpoints :: "bytes list"

record collect_section =
  clDiskMounts :: "bytes list"
  clUpgradable :: bool
  clEgressIP :: egress_section

record detect_section =
  dtInclude :: "bytes list"
  dtCustomDir :: bytes

record stats_service =
  svEnabled :: "bool option"
  svEndpoint :: bytes
  svSecret :: bytes

record agent_config =
  cfAgent :: agent_section
  cfPanel :: panel_section
  cfSinks :: "sink_config list"
  cfCollect :: collect_section
  cfDetect :: detect_section
  cfStats :: "(bytes \<times> stats_service) list"

definition DefaultAgentConfig :: agent_config where
  "DefaultAgentConfig =
     \<lparr>cfAgent = \<lparr>acNodeID = [], acLogLevel = ''info'', acReportInterval = ''60s'', acCollectTimeout = ''45s'', acShutdownTimeout = ''20s''\<rparr>,
      cfPanel = \<lparr>plURL = [], plCAFile = ''/etc/net-probe/pki/ca.crt'', plCertFile = ''/etc/net-probe/pki/agent.crt'',
        plKeyFile = ''/etc/net-probe/pki/agent.key'', plCommandKeyFile = ''/etc/net-probe/pki/command-signing.pub'',
        plReleaseKeyFile = ''/etc/net-probe/pki/release-signing.pub''\<rparr>,
      cfSinks = [],
      cfCollect = \<lparr>clDiskMounts = [''/''], clUpgradable = True,
        clEgressIP = \<lparr>egEnabled = True, egRefreshInterval = ''6h'', egTimeout = ''3s'',
          egIPv4Endpoints = [''https://api.ipify.org'', ''https://4.ident.me''],
          egIPv6Endpoints = [''https://api6.ipify.org'', ''https://6.ident.me'']\<rparr>\<rparr>,
      cfDetect = \<lparr>dtInclude = [''hysteria2'', ''xray'', ''v2ray'', ''sing-box'', ''shadowsocks'', ''trojan'', ''tuic'', ''anytls''],
        dtCustomDir = ''/etc/net-probe/services.d''\<rparr>,
      cfStats = []\<rparr>"

record config_env =
  ceURL :: "bytes \<Rightarrow> panel_url option"
  ceDuration :: "bytes \<Rightarrow> duration option"
  ceGetenv :: "bytes \<Rightarrow> bytes"
  ceReadFile :: "bytes \<Rightarrow> bytes option"
  ceAppendCerts :: "bytes \<Rightarrow> bool"

text \<open>The decoder fills in a configuration and reports the keys it did not know.\<close>

definition LoadAgentConfig :: "(agent_config \<Rightarrow> (agent_config \<times> bytes list) option) \<Rightarrow> agent_config option" where
  "LoadAgentConfig decode =
     (case decode DefaultAgentConfig of
        None \<Rightarrow> None
      | Some (cfg, unknown) \<Rightarrow>
          if unknown \<noteq> [] then None
          else Some (if acLogLevel (cfAgent cfg) = [] then cfg\<lparr>cfAgent := (cfAgent cfg)\<lparr>acLogLevel := ''info''\<rparr>\<rparr> else cfg))"

datatype config_error =
    PanelURLRequired | PanelURLInsecure | PanelFileRequired
  | BadReportInterval | BadCollectTimeout | BadShutdownTimeout | CollectTimeoutTooLong
  | PanelSinkUnsupported nat | SinkTypeUnsupported nat bytes | SinkURLRequired nat
  | BadEgressInterval | BadEgressTimeout | NoEgressEndpoints bytes | BadEgressEndpoint bytes nat | InsecureEgressEndpoint bytes nat

text \<open>The map of the required files is ranged over in any order; the error does not say which of them is missing.\<close>

definition validatePanel :: "config_env \<Rightarrow> panel_section \<Rightarrow> config_error option" where
  "validatePanel C p =
     (if plURL p = [] then Some PanelURLRequired
      else case ceURL C (plURL p) of
        None \<Rightarrow> Some PanelURLInsecure
      | Some u \<Rightarrow>
          if puScheme u \<noteq> ''https'' \<or> puHostname u = [] then Some PanelURLInsecure
          else if [] \<in> set [plCAFile p, plCertFile p, plKeyFile p, plCommandKeyFile p, plReleaseKeyFile p] then Some PanelFileRequired
          else None)"

definition positive :: "duration option \<Rightarrow> bool" where
  "positive d \<longleftrightarrow> (case d of None \<Rightarrow> False | Some d \<Rightarrow> 0 < d)"

definition validateResidentTiming :: "config_env \<Rightarrow> agent_section \<Rightarrow> config_error option" where
  "validateResidentTiming C a =
     (let reportInterval = ceDuration C (acReportInterval a); collectTimeout = ceDuration C (acCollectTimeout a);
          shutdownTimeout = ceDuration C (acShutdownTimeout a) in
      if \<not> positive reportInterval then Some BadReportInterval
      else if \<not> positive collectTimeout then Some BadCollectTimeout
      else if \<not> positive shutdownTimeout then Some BadShutdownTimeout
      else if the reportInterval \<le> the collectTimeout then Some CollectTimeoutTooLong
      else None)"

definition endpoint_of :: "panel_url \<Rightarrow> endpoint_url" where
  "endpoint_of u = \<lparr>euScheme = puScheme u, euHostname = puHostname u\<rparr>"

fun validateEgressEndpoints :: "config_env \<Rightarrow> bytes \<Rightarrow> nat \<Rightarrow> bytes list \<Rightarrow> config_error option" where
  "validateEgressEndpoints C fam i [] = None"
| "validateEgressEndpoints C fam i (raw # endpoints) =
     (case ceURL C raw of
        None \<Rightarrow> Some (BadEgressEndpoint fam i)
      | Some u \<Rightarrow>
          if puScheme u = [] \<or> puHostname u = [] then Some (BadEgressEndpoint fam i)
          else if \<not> IsSecureEndpoint (Some (endpoint_of u)) then Some (InsecureEgressEndpoint fam i)
          else validateEgressEndpoints C fam (Suc i) endpoints)"

definition validateEgressIP :: "config_env \<Rightarrow> egress_section \<Rightarrow> config_error option" where
  "validateEgressIP C g =
     (if \<not> egEnabled g then None
      else if \<not> positive (ceDuration C (egRefreshInterval g)) then Some BadEgressInterval
      else if \<not> positive (ceDuration C (egTimeout g)) then Some BadEgressTimeout
      else if egIPv4Endpoints g = [] then Some (NoEgressEndpoints ''IPv4'')
      else if egIPv6Endpoints g = [] then Some (NoEgressEndpoints ''IPv6'')
      else case validateEgressEndpoints C ''IPv4'' 0 (egIPv4Endpoints g) of
        Some e \<Rightarrow> Some e
      | None \<Rightarrow> validateEgressEndpoints C ''IPv6'' 0 (egIPv6Endpoints g))"

fun validateSinks :: "nat \<Rightarrow> sink_config list \<Rightarrow> config_error option" where
  "validateSinks i [] = None"
| "validateSinks i (s # ss) =
     (if skType s \<noteq> ''webhook'' then
        (if skType s = ''panel'' then Some (PanelSinkUnsupported i) else Some (SinkTypeUnsupported i (skType s)))
      else if skURL s = [] then Some (SinkURLRequired i)
      else validateSinks (Suc i) ss)"

definition ValidateAgentConfig :: "config_env \<Rightarrow> agent_config \<Rightarrow> config_error option" where
  "ValidateAgentConfig C cfg =
     (case validatePanel C (cfPanel cfg) of
        Some e \<Rightarrow> Some e
      | None \<Rightarrow>
          (case validateResidentTiming C (cfAgent cfg) of
             Some e \<Rightarrow> Some e
           | None \<Rightarrow>
               (case validateSinks 0 (cfSinks cfg) of
                  Some e \<Rightarrow> Some e
                | None \<Rightarrow> validateEgressIP C (clEgressIP (cfCollect cfg)))))"

definition ResolveToken :: "config_env \<Rightarrow> sink_config \<Rightarrow> bytes option" where
  "ResolveToken C s =
     (if skTokenEnv s \<noteq> [] then (if ceGetenv C (skTokenEnv s) \<noteq> [] then Some (ceGetenv C (skTokenEnv s)) else None)
      else if skTokenFile s \<noteq> [] then map_option trim_space (ceReadFile C (skTokenFile s))
      else Some [])"

subsection \<open>Destinations of reports\<close>

record http_sink =
  hkConfig :: sink_config
  hkToken :: bytes
  hkMethod :: bytes
  hkNodeID :: bytes

definition NewSink :: "config_env \<Rightarrow> sink_config \<Rightarrow> bytes \<Rightarrow> http_sink option" where
  "NewSink C s nodeID =
     (if skType s = ''panel'' then None
      else case ResolveToken C s of
        None \<Rightarrow> None
      | Some token \<Rightarrow>
          if skTLSCAFile s \<noteq> [] \<and> (case ceReadFile C (skTLSCAFile s) of None \<Rightarrow> True | Some b \<Rightarrow> \<not> ceAppendCerts C b) then None
          else Some \<lparr>hkConfig = s, hkToken = token, hkMethod = (if skMethod s = [] then ''POST'' else skMethod s), hkNodeID = nodeID\<rparr>)"

definition NewPanelSink :: "bytes \<Rightarrow> bool \<Rightarrow> http_sink option" where
  "NewPanelSink panelURL hasTLS =
     (if \<not> hasTLS then None
      else if \<not> has_prefix (to_lower panelURL) ''https://'' then None
      else Some \<lparr>hkConfig = \<lparr>skType = ''panel'', skURL = panelURL, skMethod = [], skHeaders = [], skTokenEnv = [], skTokenFile = [],
                   skInsecureAllowHTTP = False, skTLSSkipVerify = False, skTLSCAFile = []\<rparr>,
                 hkToken = [], hkMethod = ''POST'', hkNodeID = []\<rparr>)"

text \<open>A request: the headers are set in this order, the configured ones last, in any order the map is ranged over.\<close>

record sink_request =
  srMethod :: bytes
  srURL :: bytes
  srHeaders :: "(bytes \<times> bytes) list"
  srBody :: bytes

definition sinkRequest :: "http_sink \<Rightarrow> bytes \<Rightarrow> sink_request" where
  "sinkRequest s body =
     (let url = skURL (hkConfig s);
          url = (if skType (hkConfig s) = ''panel'' then trim_right url ''/'' @ ''/api/v1/agents/report'' else url)
      in \<lparr>srMethod = hkMethod s, srURL = url,
          srHeaders = [(''Content-Type'', ''application/json'')] @ (if hkNodeID s \<noteq> [] then [(''X-Agent-Id'', hkNodeID s)] else []) @
            (if hkToken s \<noteq> [] then [(''Authorization'', ''Bearer '' @ hkToken s)] else []) @ skHeaders (hkConfig s),
          srBody = body\<rparr>)"

text \<open>\<open>do\<close> is the status of the answer, if the request could be made and there was one.\<close>

definition httpSinkSend :: "(sink_request \<Rightarrow> int option) \<Rightarrow> http_sink \<Rightarrow> bytes \<Rightarrow> bool" where
  "httpSinkSend client s body =
     (case client (sinkRequest s body) of None \<Rightarrow> False | Some status \<Rightarrow> \<not> (status < 200 \<or> 300 \<le> status))"

end
