(* ===== verification/Enrollment.thy ===== *)
theory Enrollment
  imports GoEncoding ControlProto Hub
begin

text \<open>
  \<open>internal/panel/api/enrollment.go\<close>, \<open>agentauth.go\<close> and the functions of \<open>internal/panel/pki/manager.go\<close> that issue and
  read Agent certificates: one-time enrollment codes, the identities they create, renewal, revocation and the
  authentication of every Agent request. X.509, PEM and URL parsing are fields of \<open>pki_env\<close>; the random bytes are arguments; every
  statement, every file read and every random read consumes one entry of \<open>agFaults\<close>. Times are nanoseconds.
\<close>

unbundle bit_operations_syntax

subsection \<open>Certificates\<close>

record url_parts =
  upScheme :: bytes
  upHost :: bytes
  upHasUser :: bool
  upPath :: bytes
  upEscapedPath :: bytes
  upRawQuery :: bytes
  upFragment :: bytes
  upOpaque :: bytes

record certificate =
  ctSerial :: nat
  ctNotBefore :: int
  ctNotAfter :: int
  ctURIs :: "url_parts option list"
  ctRaw :: bytes

record cert_template =
  tpSerial :: nat
  tpNotBefore :: int
  tpNotAfter :: int
  tpURI :: url_parts

record csr =
  csSignatureOK :: bool
  csP256 :: bool
  csKey :: bytes

text \<open>\<open>pePem\<close> gives the type, the bytes and the rest of the first PEM block of a text.\<close>

record pki_env =
  peURL :: "bytes \<Rightarrow> url_parts option"
  peCSR :: "bytes \<Rightarrow> csr option"
  peCreate :: "cert_template \<Rightarrow> bytes \<Rightarrow> bytes option"
  peCertificate :: "bytes \<Rightarrow> certificate option"
  pePem :: "bytes \<Rightarrow> (bytes \<times> bytes \<times> bytes) option"
  peEncode :: "bytes \<Rightarrow> bytes \<Rightarrow> bytes"
  peSHA256 :: "bytes \<Rightarrow> bytes"

definition agentValidity :: duration where "agentValidity = 90 * 24 * hour"

text \<open>\<open>strings.ReplaceAll(value, "-", "")\<close> drops the dashes.\<close>

definition validUUID :: "bytes \<Rightarrow> bool" where
  "validUUID value \<longleftrightarrow>
     (if length value \<noteq> 36 \<or> value \<noteq> to_lower value \<or> value ! 8 \<noteq> CHR ''-'' \<or> value ! 13 \<noteq> CHR ''-'' \<or>
         value ! 18 \<noteq> CHR ''-'' \<or> value ! 23 \<noteq> CHR ''-''
      then False
      else
        let raw = filter (\<lambda>c. c \<noteq> CHR ''-'') value in
        if length raw \<noteq> 32 then False else hex_decode raw \<noteq> None)"

text \<open>The serial number is drawn again while it is 0; \<open>None\<close> is a failing random source.\<close>

fun randomSerial :: "nat list \<Rightarrow> nat option" where
  "randomSerial [] = None"
| "randomSerial (n # ns) = (let serial = n mod 2 ^ 128 in if serial = 0 then randomSerial ns else Some serial)"

datatype issue_error = IssueID | IssueCSR | IssueSignature | IssueKey | IssueURI | IssueSerial | IssueSign

definition agentURI :: bytes where "agentURI = ''spiffe://net-probe/agent/''"

definition IssueAgent :: "pki_env \<Rightarrow> nat list \<Rightarrow> bytes \<Rightarrow> bytes \<Rightarrow> int \<Rightarrow> issue_error + bytes \<times> nat" where
  "IssueAgent P serials agentID csrDER now =
     (if \<not> validUUID agentID then Inl IssueID
      else (case peCSR P csrDER of
        None \<Rightarrow> Inl IssueCSR
      | Some c \<Rightarrow>
          if \<not> csSignatureOK c then Inl IssueSignature
          else if \<not> csP256 c then Inl IssueKey
          else (case peURL P (agentURI @ agentID) of
            None \<Rightarrow> Inl IssueURI
          | Some identity \<Rightarrow>
              (case randomSerial serials of
                 None \<Rightarrow> Inl IssueSerial
               | Some serial \<Rightarrow>
                   let notBefore = now - 5 * minute;
                       tmpl = \<lparr>tpSerial = serial, tpNotBefore = notBefore, tpNotAfter = notBefore + agentValidity, tpURI = identity\<rparr>
                   in (case peCreate P tmpl (csKey c) of
                         None \<Rightarrow> Inl IssueSign
                       | Some der \<Rightarrow> Inr (peEncode P ''CERTIFICATE'' der, serial))))))"

datatype identity_error = OneURI | BadURI | BadPath | BadAgentID

definition AgentIDFromCertificate :: "certificate \<Rightarrow> identity_error + bytes" where
  "AgentIDFromCertificate cert =
     (case ctURIs cert of
        [u] \<Rightarrow>
          (case u of
             None \<Rightarrow> Inl BadURI
           | Some u \<Rightarrow>
               if upScheme u \<noteq> ''spiffe'' \<or> upHost u \<noteq> ''net-probe'' \<or> upHasUser u \<or> upRawQuery u \<noteq> [] \<or> upFragment u \<noteq> [] \<or>
                  upOpaque u \<noteq> []
               then Inl BadURI
               else if \<not> has_prefix (upPath u) ''/agent/'' \<or> upEscapedPath u \<noteq> upPath u then Inl BadPath
               else
                 let agentID = trim_prefix (upPath u) ''/agent/'' in
                 if CHR ''/'' \<in> set agentID \<or> \<not> validUUID agentID then Inl BadAgentID else Inr agentID)
      | _ \<Rightarrow> Inl OneURI)"

definition parseCSR :: "pki_env \<Rightarrow> bytes \<Rightarrow> bytes option" where
  "parseCSR P body =
     (case pePem P body of
        None \<Rightarrow> None
      | Some (typ, der, rest) \<Rightarrow>
          if typ \<noteq> ''CERTIFICATE REQUEST'' \<or> trim_space rest \<noteq> [] then None
          else (case peCSR P der of
            None \<Rightarrow> None
          | Some c \<Rightarrow> if \<not> csSignatureOK c then None else if \<not> csP256 c then None else Some der))"

definition parseCertificatePEM :: "pki_env \<Rightarrow> bytes \<Rightarrow> certificate option" where
  "parseCertificatePEM P body =
     (case pePem P body of
        None \<Rightarrow> None
      | Some (typ, der, rest) \<Rightarrow>
          if typ \<noteq> ''CERTIFICATE'' \<or> trim_space rest \<noteq> [] then None else peCertificate P der)"

subsection \<open>Identifiers and codes\<close>

text \<open>Version 4, variant 1: \<open>raw[6]\<close> and \<open>raw[8]\<close> have fixed bits.\<close>

definition uuidBytes :: "bytes \<Rightarrow> bytes" where
  "uuidBytes raw = raw[6 := char_of ((of_char (raw ! 6) AND 0x0f OR 0x40 :: nat)),
                       8 := char_of ((of_char (raw ! 8) AND 0x3f OR 0x80 :: nat))]"

definition randomUUID :: "bytes \<Rightarrow> bytes" where
  "randomUUID raw =
     (let encoded = hex_encode (uuidBytes raw) in
      take 8 encoded @ ''-'' @ take 4 (drop 8 encoded) @ ''-'' @ take 4 (drop 12 encoded) @ ''-'' @
      take 4 (drop 16 encoded) @ ''-'' @ drop 20 encoded)"

text \<open>\<open>base64.RawURLEncoding\<close>: the alphabet of URLs, without padding.\<close>

definition raw_url_encode :: "bytes \<Rightarrow> bytes" where
  "raw_url_encode s =
     map (\<lambda>c. if c = CHR ''+'' then CHR ''-'' else if c = CHR ''/'' then CHR ''_'' else c)
       (filter (\<lambda>c. c \<noteq> CHR ''='') (b64_encode s))"

subsection \<open>State\<close>

record enrollment_token =
  etHash :: bytes
  etCreatedBy :: int
  etCreatedAt :: int
  etExpiresAt :: int
  etConsumedAt :: int
  etLabel :: bytes

record identity_row =
  irAgentID :: bytes
  irNodeID :: bytes
  irSerial :: nat
  irFingerprint :: bytes
  irIssuedAt :: int
  irExpiresAt :: int
  irRevokedAt :: int
  irVersion :: bytes
  irOS :: bytes
  irArch :: bytes

record agent_db =
  agTokens :: "enrollment_token list"
  agIdentities :: "identity_row list"
  agFaults :: "bool list"

text \<open>What the server is configured with: the PKI manager with its files, and the release key provider.\<close>

record pki_server =
  psConfigured :: bool
  psCAFile :: bytes
  psCommandKeyFile :: bytes
  psFingerprint :: bytes
  psReleaseKey :: "bytes option"
  psMarshal :: "bytes \<Rightarrow> bytes option"

definition attempt :: "agent_db \<Rightarrow> bool \<times> agent_db" where
  "attempt d = (case agFaults d of [] \<Rightarrow> (True, d) | f # fs \<Rightarrow> (\<not> f, d\<lparr>agFaults := fs\<rparr>))"

definition StaticReleasePublicKey :: "bytes \<Rightarrow> bytes option" where
  "StaticReleasePublicKey k = (if length k \<noteq> PublicKeySize then None else Some k)"

subsection \<open>Requests and answers\<close>

record enrollment_response =
  rsAgentID :: bytes
  rsCertificate :: bytes
  rsCABundle :: bytes
  rsCommandKey :: bytes
  rsReleaseKey :: bytes

text \<open>An error answer has a status and a code.\<close>

datatype answer =
    Refused nat bytes
  | CAPem bytes
  | CodeCreated bytes int bytes bytes
  | Enrolled enrollment_response
  | Renewed bytes
  | NoContent

record enrollment_request =
  erCode :: bytes
  erCSR :: bytes
  erNodeID :: bytes
  erAgentVersion :: bytes
  erOS :: bytes
  erArch :: bytes

record code_request =
  crExpiresInSeconds :: int
  crLabel :: bytes

record request_identity =
  idAgentID :: bytes
  idNodeID :: bytes
  idSerial :: nat

definition enrollmentLifetime :: duration where "enrollmentLifetime = 10 * minute"

text \<open>The argument is what the decoder makes of the first 64 KiB of the body.\<close>

fun decodeRequest :: "'a json_doc \<Rightarrow> 'a option" where
  "decodeRequest (JsonDoc v) = Some v"
| "decodeRequest (JsonTrailing v) = None"
| "decodeRequest (JsonGarbage v) = None"
| "decodeRequest JsonBad = None"

definition validEnrollmentMetadata :: "enrollment_request \<Rightarrow> bool" where
  "validEnrollmentMetadata r \<longleftrightarrow>
     erCode r \<noteq> [] \<and> length (erCode r) \<le> 256 \<and> erNodeID r \<noteq> [] \<and> length (erNodeID r) \<le> 256 \<and>
     length (erAgentVersion r) \<le> 128 \<and> length (erOS r) \<le> 64 \<and> length (erArch r) \<le> 64 \<and> length (erCSR r) \<le> 16 * 1024"

definition enrollmentTrustMaterial :: "pki_env \<Rightarrow> pki_server \<Rightarrow> agent_db \<Rightarrow> (bytes \<times> bytes \<times> bytes) option \<times> agent_db" where
  "enrollmentTrustMaterial P s d =
     (let (ok, d) = attempt d in
      if \<not> ok then (None, d)
      else
        let (ok, d) = attempt d in
        if \<not> ok then (None, d)
        else (case psReleaseKey s of
          None \<Rightarrow> (None, d)
        | Some key \<Rightarrow>
            (case psMarshal s key of
               None \<Rightarrow> (None, d)
             | Some der \<Rightarrow> (Some (psCAFile s, psCommandKeyFile s, peEncode P ''PUBLIC KEY'' der), d))))"

definition handleCA :: "pki_server \<Rightarrow> agent_db \<Rightarrow> answer \<times> agent_db" where
  "handleCA s d =
     (if \<not> psConfigured s then (Refused 503 ''unavailable'', d)
      else let (ok, d) = attempt d in if \<not> ok then (Refused 500 ''pki_error'', d) else (CAPem (psCAFile s), d))"

text \<open>\<open>actor\<close> is the authenticated user, \<open>raw\<close> the 32 random bytes.\<close>

definition handleCreateEnrollment ::
    "pki_env \<Rightarrow> pki_server \<Rightarrow> code_request json_doc \<Rightarrow> int option \<Rightarrow> bytes \<Rightarrow> int \<Rightarrow> agent_db \<Rightarrow> answer \<times> agent_db" where
  "handleCreateEnrollment P s body actor raw now d =
     (if \<not> psConfigured s then (Refused 503 ''unavailable'', d)
      else (case psReleaseKey s of
        None \<Rightarrow> (Refused 503 ''unavailable'', d)
      | Some releasePublicKey \<Rightarrow>
      if length releasePublicKey \<noteq> PublicKeySize then (Refused 503 ''unavailable'', d)
      else (case decodeRequest body of
        None \<Rightarrow> (Refused 400 ''bad_request'', d)
      | Some r \<Rightarrow>
          let secs = (if crExpiresInSeconds r = 0 then enrollmentLifetime div second else crExpiresInSeconds r) in
          if secs < 1 \<or> enrollmentLifetime div second < secs \<or> 256 < length (crLabel r) then (Refused 400 ''bad_request'', d)
          else (case actor of
            None \<Rightarrow> (Refused 401 ''unauthorized'', d)
          | Some user \<Rightarrow>
              let (ok, d) = attempt d in
              if \<not> ok then (Refused 500 ''random_error'', d)
              else
                let code = raw_url_encode raw; h = hex_encode (peSHA256 P code); t = now div second; (ok, d) = attempt d in
                if \<not> ok \<or> h \<in> etHash ` set (agTokens d) then (Refused 500 ''db_error'', d)
                else (CodeCreated code (t + secs) (psFingerprint s) (hex_encode releasePublicKey),
                      d\<lparr>agTokens := agTokens d @ [\<lparr>etHash = h, etCreatedBy = user, etCreatedAt = t, etExpiresAt = t + secs,
                                                    etConsumedAt = 0, etLabel = crLabel r\<rparr>]\<rparr>)))))"

definition usable :: "bytes \<Rightarrow> int \<Rightarrow> enrollment_token \<Rightarrow> bool" where
  "usable h t k \<longleftrightarrow> etHash k = h \<and> etConsumedAt k = 0 \<and> t < etExpiresAt k"

text \<open>The transaction: consume the code, issue the certificate, insert the identity and commit. \<open>Inl\<close> rolls back.\<close>

definition enrolled_row :: "pki_env \<Rightarrow> enrollment_request \<Rightarrow> bytes \<Rightarrow> nat \<Rightarrow> certificate \<Rightarrow> identity_row" where
  "enrolled_row P r agentID serial cert =
     \<lparr>irAgentID = agentID, irNodeID = erNodeID r, irSerial = serial, irFingerprint = hex_encode (peSHA256 P (ctRaw cert)),
      irIssuedAt = ctNotBefore cert div second, irExpiresAt = ctNotAfter cert div second, irRevokedAt = 0,
      irVersion = erAgentVersion r, irOS = erOS r, irArch = erArch r\<rparr>"

definition insertIdentity :: "identity_row \<Rightarrow> agent_db \<Rightarrow> answer option \<times> agent_db" where
  "insertIdentity row d =
     (let (ok, d) = attempt d in
      if \<not> ok \<or> irAgentID row \<in> irAgentID ` set (agIdentities d) \<or> irNodeID row \<in> irNodeID ` set (agIdentities d)
      then (Some (Refused 409 ''identity_conflict''), d)
      else
        let (ok, d) = attempt (d\<lparr>agIdentities := agIdentities d @ [row]\<rparr>) in
        if \<not> ok then (Some (Refused 500 ''db_error''), d) else (None, d))"

definition issueIdentity ::
    "pki_env \<Rightarrow> enrollment_request \<Rightarrow> bytes \<Rightarrow> bytes \<Rightarrow> nat list \<Rightarrow> int \<Rightarrow> agent_db \<Rightarrow> (answer + bytes \<times> bytes) \<times> agent_db" where
  "issueIdentity P r csrDER raw serials now d =
     (let (ok, d) = attempt d in
      if \<not> ok then (Inl (Refused 500 ''random_error''), d)
      else
        let agentID = randomUUID raw in
        (case IssueAgent P serials agentID csrDER now of
           Inl e \<Rightarrow> (Inl (Refused 400 ''bad_request''), d)
         | Inr (certificate, serial) \<Rightarrow>
             (case parseCertificatePEM P certificate of
                None \<Rightarrow> (Inl (Refused 500 ''pki_error''), d)
              | Some cert \<Rightarrow>
                  (case insertIdentity (enrolled_row P r agentID serial cert) d of
                     (Some a, d) \<Rightarrow> (Inl a, d)
                   | (None, d) \<Rightarrow> (Inr (agentID, certificate), d)))))"

definition consume :: "bytes \<Rightarrow> int \<Rightarrow> enrollment_token list \<Rightarrow> enrollment_token list" where
  "consume h t = map (\<lambda>k. if usable h t k then k\<lparr>etConsumedAt := t\<rparr> else k)"

definition enrollTransaction ::
    "pki_env \<Rightarrow> enrollment_request \<Rightarrow> bytes \<Rightarrow> bytes \<Rightarrow> nat list \<Rightarrow> int \<Rightarrow> agent_db \<Rightarrow> (answer + bytes \<times> bytes) \<times> agent_db" where
  "enrollTransaction P r csrDER raw serials now d =
     (let h = hex_encode (peSHA256 P (erCode r)); t = now div second; (begun, d) = attempt d in
      if \<not> begun then (Inl (Refused 500 ''db_error''), d)
      else
        let (ok, d) = attempt d in
        if \<not> ok then (Inl (Refused 500 ''db_error''), d)
        else if length (filter (usable h t) (agTokens d)) \<noteq> 1 then (Inl (Refused 401 ''enrollment_failed''), d)
        else issueIdentity P r csrDER raw serials now (d\<lparr>agTokens := consume h t (agTokens d)\<rparr>))"

definition handleEnroll ::
    "pki_env \<Rightarrow> pki_server \<Rightarrow> enrollment_request json_doc \<Rightarrow> bytes \<Rightarrow> nat list \<Rightarrow> int \<Rightarrow> agent_db \<Rightarrow> answer \<times> agent_db" where
  "handleEnroll P s body raw serials now d =
     (if \<not> psConfigured s then (Refused 503 ''unavailable'', d)
      else (case decodeRequest body of
        None \<Rightarrow> (Refused 400 ''bad_request'', d)
      | Some r \<Rightarrow>
          if \<not> validEnrollmentMetadata r then (Refused 400 ''bad_request'', d)
          else (case parseCSR P (erCSR r) of
            None \<Rightarrow> (Refused 400 ''bad_request'', d)
          | Some csrDER \<Rightarrow>
              (case enrollmentTrustMaterial P s d of
                 (None, d) \<Rightarrow> (Refused 500 ''pki_error'', d)
               | (Some (ca, commandKey, releaseKey), d) \<Rightarrow>
                   (case enrollTransaction P r csrDER raw serials now d of
                      (Inl a, e) \<Rightarrow> (a, d\<lparr>agFaults := agFaults e\<rparr>)
                    | (Inr (agentID, certificate), e) \<Rightarrow>
                        (Enrolled \<lparr>rsAgentID = agentID, rsCertificate = certificate, rsCABundle = ca, rsCommandKey = commandKey,
                                   rsReleaseKey = releaseKey\<rparr>, e))))))"

subsection \<open>Authenticated requests\<close>

text \<open>\<open>requireAgent\<close>: \<open>verified\<close> are the chains that TLS verified, \<open>None\<close> without TLS.\<close>

definition requireAgent ::
    "certificate option list list option \<Rightarrow> int \<Rightarrow> agent_db \<Rightarrow> request_identity option \<times> agent_db" where
  "requireAgent verified now d =
     (case verified of
        Some [Some leaf # _] \<Rightarrow>
          if now < ctNotBefore leaf \<or> \<not> now < ctNotAfter leaf then (None, d)
          else (case AgentIDFromCertificate leaf of
            Inl _ \<Rightarrow> (None, d)
          | Inr agentID \<Rightarrow>
              let (ok, d) = attempt d in
              (case find (\<lambda>r. irAgentID r = agentID \<and> irSerial r = ctSerial leaf) (agIdentities d) of
                 None \<Rightarrow> (None, d)
               | Some r \<Rightarrow>
                   if \<not> ok \<or> irRevokedAt r \<noteq> 0 \<or> irExpiresAt r \<le> now div second then (None, d)
                   else (Some \<lparr>idAgentID = agentID, idNodeID = irNodeID r, idSerial = ctSerial leaf\<rparr>, d)))
      | _ \<Rightarrow> (None, d))"

definition current :: "request_identity \<Rightarrow> identity_row \<Rightarrow> bool" where
  "current i r \<longleftrightarrow> irAgentID r = idAgentID i \<and> irSerial r = idSerial i \<and> irRevokedAt r = 0"

definition handleRenew ::
    "pki_env \<Rightarrow> bytes json_doc \<Rightarrow> request_identity \<Rightarrow> nat list \<Rightarrow> int \<Rightarrow> agent_db \<Rightarrow> answer \<times> agent_db" where
  "handleRenew P body i serials now d =
     (case decodeRequest body of
        None \<Rightarrow> (Refused 400 ''bad_request'', d)
      | Some pem \<Rightarrow>
          (case parseCSR P pem of
             None \<Rightarrow> (Refused 400 ''bad_request'', d)
           | Some csrDER \<Rightarrow>
               let (ok, d) = attempt d in
               (case find (current i) (agIdentities d) of
                  None \<Rightarrow> (Refused 401 ''unauthorized'', d)
                | Some r \<Rightarrow>
                    if \<not> ok then (Refused 401 ''unauthorized'', d)
                    else if (30 * 24 * hour) div second < irExpiresAt r - now div second then (Refused 409 ''renewal_not_due'', d)
                    else (case IssueAgent P serials (idAgentID i) csrDER now of
                      Inl e \<Rightarrow> (Refused 400 ''bad_request'', d)
                    | Inr (certificate, serial) \<Rightarrow>
                        (case parseCertificatePEM P certificate of
                           None \<Rightarrow> (Refused 500 ''pki_error'', d)
                         | Some cert \<Rightarrow>
                             let (ok, d) = attempt d in
                             if \<not> ok then (Refused 500 ''db_error'', d)
                             else
                               let updated = length (filter (current i) (agIdentities d));
                                   d = d\<lparr>agIdentities := map (\<lambda>r. if current i r
                                         then r\<lparr>irSerial := serial, irFingerprint := hex_encode (peSHA256 P (ctRaw cert)),
                                                irIssuedAt := ctNotBefore cert div second, irExpiresAt := ctNotAfter cert div second\<rparr>
                                         else r) (agIdentities d)\<rparr>
                               in if updated \<noteq> 1 then (Refused 401 ''unauthorized'', d) else (Renewed certificate, d))))))"

definition handleRevokeAgent ::
    "bytes \<Rightarrow> int \<Rightarrow> agent_db \<Rightarrow> 'm hub option \<Rightarrow> answer \<times> agent_db \<times> 'm hub option" where
  "handleRevokeAgent agentID now d h =
     (if agentID = [] then (Refused 400 ''bad_request'', d, h)
      else
        let t = now div second; (ok, d) = attempt d in
        if \<not> ok then (Refused 500 ''db_error'', d, h)
        else
          let hit = (\<lambda>r. irAgentID r = agentID \<and> irRevokedAt r = 0);
              updated = length (filter hit (agIdentities d));
              d = d\<lparr>agIdentities := map (\<lambda>r. if hit r then r\<lparr>irRevokedAt := t\<rparr> else r) (agIdentities d)\<rparr>
          in if updated \<noteq> 1 then (Refused 404 ''not_found'', d, h)
             else (NoContent, d, map_option (\<lambda>h. snd (Disconnect agentID ''revoked'' h)) h))"

subsection \<open>What the operations keep\<close>

text \<open>The unique columns of the two tables.\<close>

definition tables_ok :: "agent_db \<Rightarrow> bool" where
  "tables_ok d \<longleftrightarrow> distinct (map etHash (agTokens d)) \<and> distinct (map irAgentID (agIdentities d)) \<and>
     distinct (map irNodeID (agIdentities d))"

definition same_data :: "agent_db \<Rightarrow> agent_db \<Rightarrow> bool" where
  "same_data d d' \<longleftrightarrow> agTokens d' = agTokens d \<and> agIdentities d' = agIdentities d"

lemma same_data_refl [simp]: "same_data d d"
  by (simp add: same_data_def)

lemma same_data_trans: "same_data a b \<Longrightarrow> same_data b c \<Longrightarrow> same_data a c"
  by (simp add: same_data_def)

lemma attempt_same: "attempt d = (ok, d') \<Longrightarrow> same_data d d'"
  by (auto simp: attempt_def same_data_def split: list.splits)

lemma trust_same: "enrollmentTrustMaterial P s d = (x, d') \<Longrightarrow> same_data d d'"
proof -
  assume run: "enrollmentTrustMaterial P s d = (x, d')"
  obtain b u where 1: "attempt d = (b, u)" by (metis surj_pair)
  obtain c v where 2: "attempt u = (c, v)" by (metis surj_pair)
  have "d' = u \<or> d' = v"
    using run unfolding enrollmentTrustMaterial_def 1 2 Let_def prod.case by (simp split: if_split_asm option.split_asm)
  then show ?thesis using attempt_same [OF 1] attempt_same [OF 2] same_data_trans by blast
qed

lemma insertIdentity_None:
  assumes "insertIdentity row d = (None, d')"
  shows "agTokens d' = agTokens d" "agIdentities d' = agIdentities d @ [row]"
    "irAgentID row \<notin> irAgentID ` set (agIdentities d)" "irNodeID row \<notin> irNodeID ` set (agIdentities d)"
proof -
  obtain b u where 1: "attempt d = (b, u)" by (metis surj_pair)
  obtain c v where 2: "attempt (u\<lparr>agIdentities := agIdentities u @ [row]\<rparr>) = (c, v)" by (metis surj_pair)
  have s: "same_data d u" "same_data (u\<lparr>agIdentities := agIdentities u @ [row]\<rparr>) v"
    using attempt_same [OF 1] attempt_same [OF 2] by simp_all
  have "v = d'" and f: "irAgentID row \<notin> irAgentID ` set (agIdentities u)" "irNodeID row \<notin> irNodeID ` set (agIdentities u)"
    using assms unfolding insertIdentity_def 1 2 Let_def prod.case by (simp_all split: if_split_asm)
  then show "agTokens d' = agTokens d" "agIdentities d' = agIdentities d @ [row]"
    "irAgentID row \<notin> irAgentID ` set (agIdentities d)" "irNodeID row \<notin> irNodeID ` set (agIdentities d)"
    using s by (simp_all add: same_data_def)
qed

lemma issueIdentity_Inr:
  assumes "issueIdentity P r csrDER raw serials now d = (Inr (a, certificate), d')"
  obtains serial cert where "a = randomUUID raw" "IssueAgent P serials a csrDER now = Inr (certificate, serial)"
    "parseCertificatePEM P certificate = Some cert" "agTokens d' = agTokens d"
    "agIdentities d' = agIdentities d @ [enrolled_row P r a serial cert]"
    "a \<notin> irAgentID ` set (agIdentities d)" "erNodeID r \<notin> irNodeID ` set (agIdentities d)"
proof -
  obtain b u where 1: "attempt d = (b, u)" by (metis surj_pair)
  note run = assms [unfolded issueIdentity_def 1 Let_def prod.case]
  have b using run by (cases b) simp_all
  then obtain c serial where i: "IssueAgent P serials (randomUUID raw) csrDER now = Inr (c, serial)"
    using run by (cases "IssueAgent P serials (randomUUID raw) csrDER now") auto
  then obtain cert where p: "parseCertificatePEM P c = Some cert"
    using run \<open>b\<close> by (cases "parseCertificatePEM P c") simp_all
  obtain x v where 2: "insertIdentity (enrolled_row P r (randomUUID raw) serial cert) u = (x, v)" by (metis surj_pair)
  have "x = None" using run \<open>b\<close> i p 2 by (cases x) simp_all
  then have e: "a = randomUUID raw" "certificate = c" "d' = v" using run \<open>b\<close> i p 2 by simp_all
  note f = insertIdentity_None [OF 2 [unfolded \<open>x = None\<close>]]
  show ?thesis
    using that [of serial cert] i p e f attempt_same [OF 1] by (simp add: same_data_def enrolled_row_def)
qed

lemma enrollTransaction_commit:
  assumes "enrollTransaction P r csrDER raw serials now d = (Inr (a, certificate), d')"
  obtains serial cert where "a = randomUUID raw" "IssueAgent P serials a csrDER now = Inr (certificate, serial)"
    "parseCertificatePEM P certificate = Some cert"
    "length (filter (usable (hex_encode (peSHA256 P (erCode r))) (now div second)) (agTokens d)) = 1"
    "agTokens d' = consume (hex_encode (peSHA256 P (erCode r))) (now div second) (agTokens d)"
    "agIdentities d' = agIdentities d @ [enrolled_row P r a serial cert]"
    "a \<notin> irAgentID ` set (agIdentities d)" "erNodeID r \<notin> irNodeID ` set (agIdentities d)"
proof -
  let ?h = "hex_encode (peSHA256 P (erCode r))" and ?t = "now div second"
  obtain b u where 1: "attempt d = (b, u)" by (metis surj_pair)
  obtain c v where 2: "attempt u = (c, v)" by (metis surj_pair)
  have one: "length (filter (usable ?h ?t) (agTokens v)) = 1"
    and run: "issueIdentity P r csrDER raw serials now (v\<lparr>agTokens := consume ?h ?t (agTokens v)\<rparr>) = (Inr (a, certificate), d')"
    using assms unfolding enrollTransaction_def 1 2 Let_def prod.case by (simp_all split: if_split_asm)
  from run obtain serial cert where "a = randomUUID raw" "IssueAgent P serials a csrDER now = Inr (certificate, serial)"
    "parseCertificatePEM P certificate = Some cert" "agTokens d' = consume ?h ?t (agTokens v)"
    "agIdentities d' = agIdentities v @ [enrolled_row P r a serial cert]"
    "a \<notin> irAgentID ` set (agIdentities v)" "erNodeID r \<notin> irNodeID ` set (agIdentities v)"
    by (rule issueIdentity_Inr) simp
  then show ?thesis
    using that [of serial cert] one attempt_same [OF 1] attempt_same [OF 2] by (simp add: same_data_def)
qed

definition is_enrolled :: "answer \<Rightarrow> bool" where
  "is_enrolled a \<longleftrightarrow> (case a of Enrolled r \<Rightarrow> True | _ \<Rightarrow> False)"

lemma enrollTransaction_rollback:
  "enrollTransaction P r csrDER raw serials now d = (Inl a, d') \<Longrightarrow> \<not> is_enrolled a"
  by (auto simp: enrollTransaction_def issueIdentity_def insertIdentity_def is_enrolled_def Let_def
      split: if_split_asm prod.split_asm sum.split_asm option.split_asm)

lemma handleEnroll_cases:
  assumes "handleEnroll P s body raw serials now d = (a, d')"
  obtains (refused) "\<not> is_enrolled a" "same_data d d'"
  | (enrolled) r csrDER certificate serial cert where "body = JsonDoc r" "validEnrollmentMetadata r" "parseCSR P (erCSR r) = Some csrDER"
    "IssueAgent P serials (randomUUID raw) csrDER now = Inr (certificate, serial)" "parseCertificatePEM P certificate = Some cert"
    "\<exists>ca key rel. a = Enrolled \<lparr>rsAgentID = randomUUID raw, rsCertificate = certificate, rsCABundle = ca, rsCommandKey = key,
       rsReleaseKey = rel\<rparr>"
    "length (filter (usable (hex_encode (peSHA256 P (erCode r))) (now div second)) (agTokens d)) = 1"
    "agTokens d' = consume (hex_encode (peSHA256 P (erCode r))) (now div second) (agTokens d)"
    "agIdentities d' = agIdentities d @ [enrolled_row P r (randomUUID raw) serial cert]"
    "randomUUID raw \<notin> irAgentID ` set (agIdentities d)" "erNodeID r \<notin> irNodeID ` set (agIdentities d)"
proof -
  note run = assms [unfolded handleEnroll_def]
  have early: ?thesis if "a = Refused n c" "same_data d d'" for n c
    using that refused by (simp add: is_enrolled_def)
  show ?thesis
  proof (cases "psConfigured s \<and> (\<exists>r. body = JsonDoc r \<and> validEnrollmentMetadata r \<and> parseCSR P (erCSR r) \<noteq> None)")
    case False
    then show ?thesis
      using run early by (cases body) (auto split: if_split_asm option.split_asm)
  next
    case True
    then obtain r csrDER where r: "body = JsonDoc r" "validEnrollmentMetadata r" "parseCSR P (erCSR r) = Some csrDER" "psConfigured s" by auto
    obtain m u where 1: "enrollmentTrustMaterial P s d = (m, u)" by (metis surj_pair)
    note same = trust_same [OF 1]
    obtain x e where 2: "enrollTransaction P r csrDER raw serials now u = (x, e)" by (metis surj_pair)
    show ?thesis
    proof (cases m)
      case None
      then have "a = Refused 500 ''pki_error''" "same_data d d'" using run r 1 same by auto
      then show ?thesis by (rule early)
    next
      case (Some t)
      obtain ca key rel where t: "t = (ca, key, rel)" by (metis surj_pair)
      show ?thesis
      proof (cases x)
        case (Inl b)
        then show ?thesis
          using run r 1 2 Some t same refused enrollTransaction_rollback [of P r csrDER raw serials now u b e]
          by (auto simp: same_data_def)
      next
        case (Inr y)
        obtain ag certificate where y: "y = (ag, certificate)" by (metis surj_pair)
        obtain serial cert where c: "ag = randomUUID raw" "IssueAgent P serials ag csrDER now = Inr (certificate, serial)"
          "parseCertificatePEM P certificate = Some cert"
          "length (filter (usable (hex_encode (peSHA256 P (erCode r))) (now div second)) (agTokens u)) = 1"
          "agTokens e = consume (hex_encode (peSHA256 P (erCode r))) (now div second) (agTokens u)"
          "agIdentities e = agIdentities u @ [enrolled_row P r ag serial cert]"
          "ag \<notin> irAgentID ` set (agIdentities u)" "erNodeID r \<notin> irNodeID ` set (agIdentities u)"
          by (rule enrollTransaction_commit [OF 2 [unfolded Inr y]])
        have "a = Enrolled \<lparr>rsAgentID = ag, rsCertificate = certificate, rsCABundle = ca, rsCommandKey = key, rsReleaseKey = rel\<rparr>"
          and "d' = e"
          using run r 1 2 Some t Inr y by simp_all
        then show ?thesis
          using enrolled [OF r(1-3) c(2) [unfolded c(1)] c(3)] c same by (simp add: same_data_def)
      qed
    qed
  qed
qed

subsection \<open>The operations in any order\<close>

text \<open>The requests that write the two tables, with what each of them gets from outside; \<open>OpFaults\<close> decides which of the following
  calls fail.\<close>

datatype agent_op =
    OpCode "code_request json_doc" "int option" bytes
  | OpEnroll "enrollment_request json_doc" bytes "nat list"
  | OpRenew "bytes json_doc" request_identity "nat list"
  | OpRevoke bytes
  | OpFaults "bool list"

fun apply_op :: "pki_env \<Rightarrow> pki_server \<Rightarrow> int \<Rightarrow> agent_op \<Rightarrow> agent_db \<Rightarrow> answer \<times> agent_db" where
  "apply_op P s now (OpCode body actor raw) d = handleCreateEnrollment P s body actor raw now d"
| "apply_op P s now (OpEnroll body raw serials) d = handleEnroll P s body raw serials now d"
| "apply_op P s now (OpRenew body i serials) d = handleRenew P body i serials now d"
| "apply_op P s now (OpRevoke agentID) d = (let (a, d, h) = handleRevokeAgent agentID now d (None :: unit hub option) in (a, d))"
| "apply_op P s now (OpFaults fs) d = (NoContent, d\<lparr>agFaults := fs\<rparr>)"

fun run_ops :: "pki_env \<Rightarrow> pki_server \<Rightarrow> (int \<times> agent_op) list \<Rightarrow> agent_db \<Rightarrow> answer list \<times> agent_db" where
  "run_ops P s [] d = ([], d)"
| "run_ops P s ((now, op) # ops) d =
     (let (a, d) = apply_op P s now op d; (as, d) = run_ops P s ops d in (a # as, d))"

lemma handleCreateEnrollment_cases:
  assumes "handleCreateEnrollment P s body actor raw now d = (a, d')"
  obtains (same) "same_data d d'"
  | (created) k where "agTokens d' = agTokens d @ [k]" "agIdentities d' = agIdentities d" "etHash k \<notin> etHash ` set (agTokens d)"
proof -
  obtain b u where 1: "attempt d = (b, u)" by (metis surj_pair)
  obtain c v where 2: "attempt u = (c, v)" by (metis surj_pair)
  have s: "same_data d u" "same_data d v" using attempt_same [OF 1] attempt_same [OF 2] same_data_trans by blast+
  have "d' \<in> {d, u, v} \<or> (\<exists>k. d' = v\<lparr>agTokens := agTokens v @ [k]\<rparr> \<and> etHash k \<notin> etHash ` set (agTokens v))"
    using assms unfolding handleCreateEnrollment_def 1 2 Let_def prod.case
    by (simp split: if_split_asm option.split_asm) auto
  then show ?thesis
  proof
    assume "d' \<in> {d, u, v}"
    then show ?thesis using s same by auto
  next
    assume "\<exists>k. d' = v\<lparr>agTokens := agTokens v @ [k]\<rparr> \<and> etHash k \<notin> etHash ` set (agTokens v)"
    then obtain k where "d' = v\<lparr>agTokens := agTokens v @ [k]\<rparr>" "etHash k \<notin> etHash ` set (agTokens v)" by blast
    then show ?thesis using s(2) created [of k] by (simp add: same_data_def)
  qed
qed

definition renewed_row :: "pki_env \<Rightarrow> nat \<Rightarrow> certificate \<Rightarrow> identity_row \<Rightarrow> identity_row" where
  "renewed_row P serial cert r =
     r\<lparr>irSerial := serial, irFingerprint := hex_encode (peSHA256 P (ctRaw cert)),
       irIssuedAt := ctNotBefore cert div second, irExpiresAt := ctNotAfter cert div second\<rparr>"

lemma handleRenew_cases:
  assumes "handleRenew P body i serials now d = (a, d')"
  obtains (same) "same_data d d'" "\<And>c. a \<noteq> Renewed c"
  | (renewed) pem csrDER r certificate serial cert where "body = JsonDoc pem" "parseCSR P pem = Some csrDER"
      "find (current i) (agIdentities d) = Some r" "irExpiresAt r - now div second \<le> (30 * 24 * hour) div second"
      "IssueAgent P serials (idAgentID i) csrDER now = Inr (certificate, serial)" "parseCertificatePEM P certificate = Some cert"
      "agTokens d' = agTokens d" "agIdentities d' = map (\<lambda>r. if current i r then renewed_row P serial cert r else r) (agIdentities d)"
      "a = (if length (filter (current i) (agIdentities d)) = 1 then Renewed certificate else Refused 401 ''unauthorized'')"
proof -
  note run = assms [unfolded handleRenew_def]
  show ?thesis
  proof (cases "decodeRequest body")
    case None
    then show ?thesis using run same by auto
  next
    case (Some pem)
    then have body: "body = JsonDoc pem" by (cases body) auto
    show ?thesis
    proof (cases "parseCSR P pem")
      case None
      then show ?thesis using run body same by auto
    next
      case csr: (Some csrDER)
      obtain b u where 1: "attempt d = (b, u)" by (metis surj_pair)
      note s1 = attempt_same [OF 1]
      obtain c v where 2: "attempt u = (c, v)" by (metis surj_pair)
      have s2: "same_data d v" using s1 attempt_same [OF 2] same_data_trans by blast
      note run = run [unfolded body decodeRequest.simps option.case csr 1 Let_def prod.case 2]
      have early: ?thesis if "a = Refused n m" "d' = u \<or> d' = v" for n m
        using that same s1 s2 by auto
      show ?thesis
      proof (cases "find (current i) (agIdentities u)")
        case None
        then show ?thesis using run early by auto
      next
        case r: (Some r)
        show ?thesis
        proof (cases "b \<and> \<not> (30 * 24 * hour) div second < irExpiresAt r - now div second")
          case False
          then show ?thesis using run r early by (auto split: if_split_asm)
        next
          case due: True
          show ?thesis
          proof (cases "IssueAgent P serials (idAgentID i) csrDER now")
            case (Inl e)
            then show ?thesis using run r due early by auto
          next
            case (Inr y)
            obtain certificate serial where y: "y = (certificate, serial)" by (metis surj_pair)
            show ?thesis
            proof (cases "parseCertificatePEM P certificate")
              case None
              then show ?thesis using run r due Inr y early by auto
            next
              case cert: (Some cert)
              show ?thesis
              proof (cases c)
                case False
                then show ?thesis using run r due Inr y cert early by auto
              next
                case True
                have d': "d' = v\<lparr>agIdentities := map (\<lambda>r. if current i r then renewed_row P serial cert r else r) (agIdentities v)\<rparr>"
                  and a: "a = (if length (filter (current i) (agIdentities v)) = 1 then Renewed certificate
                      else Refused 401 ''unauthorized'')"
                  using run r due Inr y cert True by (auto simp: renewed_row_def split: if_split_asm)
                show ?thesis
                  using renewed [OF body csr _ _ Inr [unfolded y] cert] r due d' a s1 s2 by (simp add: same_data_def)
              qed
            qed
          qed
        qed
      qed
    qed
  qed
qed

lemma handleRevokeAgent_cases:
  assumes "handleRevokeAgent agentID now d h = (a, d', h')"
  obtains (same) "same_data d d'" "a \<noteq> NoContent"
  | (marked) "agTokens d' = agTokens d"
      "agIdentities d' = map (\<lambda>r. if irAgentID r = agentID \<and> irRevokedAt r = 0 then r\<lparr>irRevokedAt := now div second\<rparr> else r)
         (agIdentities d)"
      "a = NoContent \<longleftrightarrow> length (filter (\<lambda>r. irAgentID r = agentID \<and> irRevokedAt r = 0) (agIdentities d)) = 1"
proof -
  obtain b u where 1: "attempt d = (b, u)" by (metis surj_pair)
  note s = attempt_same [OF 1]
  note run = assms [unfolded handleRevokeAgent_def 1 Let_def prod.case]
  show ?thesis
  proof (cases "agentID = [] \<or> \<not> b")
    case True
    then show ?thesis using run same s by (auto split: if_split_asm)
  next
    case False
    then show ?thesis using run marked s by (auto simp: same_data_def split: if_split_asm)
  qed
qed

text \<open>The rows of the identities keep their keys, and a revocation stays.\<close>

definition rows_kept :: "agent_db \<Rightarrow> agent_db \<Rightarrow> bool" where
  "rows_kept d d' \<longleftrightarrow> (\<exists>g new. agIdentities d' = map g (agIdentities d) @ new \<and>
     (\<forall>r. irAgentID (g r) = irAgentID r \<and> irNodeID (g r) = irNodeID r \<and> (irRevokedAt r \<noteq> 0 \<longrightarrow> irRevokedAt (g r) = irRevokedAt r)) \<and>
     (\<forall>r\<in>set new. irAgentID r \<notin> irAgentID ` set (agIdentities d) \<and> irNodeID r \<notin> irNodeID ` set (agIdentities d)) \<and>
     length new \<le> 1)"

lemma rows_keptI:
  assumes "agIdentities d' = map g (agIdentities d)"
    and "\<And>r. irAgentID (g r) = irAgentID r \<and> irNodeID (g r) = irNodeID r \<and> (irRevokedAt r \<noteq> 0 \<longrightarrow> irRevokedAt (g r) = irRevokedAt r)"
  shows "rows_kept d d'"
  unfolding rows_kept_def using assms by (intro exI [of _ g] exI [of _ "[]"]) simp

lemma rows_kept_same: "agIdentities d' = agIdentities d \<Longrightarrow> rows_kept d d'"
  by (rule rows_keptI [of _ id]) simp_all

lemma rows_kept_ok:
  assumes "rows_kept d d'" and "distinct (map irAgentID (agIdentities d))" and "distinct (map irNodeID (agIdentities d))"
  shows "distinct (map irAgentID (agIdentities d'))" "distinct (map irNodeID (agIdentities d'))"
proof -
  obtain g new where g: "agIdentities d' = map g (agIdentities d) @ new" "\<And>r. irAgentID (g r) = irAgentID r" "\<And>r. irNodeID (g r) = irNodeID r"
    "\<forall>r\<in>set new. irAgentID r \<notin> irAgentID ` set (agIdentities d) \<and> irNodeID r \<notin> irNodeID ` set (agIdentities d)" "length new \<le> 1"
    using assms(1) unfolding rows_kept_def by blast
  have "new = [] \<or> (\<exists>x. new = [x])" using g(5) by (cases new) auto
  then show "distinct (map irAgentID (agIdentities d'))" "distinct (map irNodeID (agIdentities d'))"
    using g(4) assms(2,3) by (auto simp: g(1) comp_def g(2,3)) (metis imageI)+
qed

lemma apply_op_rows:
  assumes "apply_op P s now op d = (a, d')"
  shows "rows_kept d d'"
proof (cases op)
  case (OpCode body actor raw)
  then have "handleCreateEnrollment P s body actor raw now d = (a, d')" using assms by simp
  then show ?thesis by (rule handleCreateEnrollment_cases) (auto intro: rows_kept_same simp: same_data_def)
next
  case (OpEnroll body raw serials)
  then have "handleEnroll P s body raw serials now d = (a, d')" using assms by simp
  then show ?thesis
  proof (cases rule: handleEnroll_cases)
    case refused
    then show ?thesis by (auto intro: rows_kept_same simp: same_data_def)
  next
    case (enrolled r csrDER certificate serial cert)
    then show ?thesis unfolding rows_kept_def
      by (intro exI [of _ id] exI [of _ "[enrolled_row P r (randomUUID raw) serial cert]"]) (simp add: enrolled_row_def)
  qed
next
  case (OpRenew body i serials)
  then have "handleRenew P body i serials now d = (a, d')" using assms by simp
  then show ?thesis
  proof (cases rule: handleRenew_cases)
    case same
    then show ?thesis by (auto intro: rows_kept_same simp: same_data_def)
  next
    case (renewed pem csrDER r certificate serial cert)
    show ?thesis by (rule rows_keptI [OF renewed(8)]) (simp add: renewed_row_def)
  qed
next
  case (OpRevoke agentID)
  obtain h where "handleRevokeAgent agentID now d (None :: unit hub option) = (a, d', h)"
    using assms OpRevoke by (auto simp: Let_def split: prod.splits)
  then show ?thesis
  proof (cases rule: handleRevokeAgent_cases)
    case same
    then show ?thesis by (auto intro: rows_kept_same simp: same_data_def)
  next
    case marked
    show ?thesis by (rule rows_keptI [OF marked(2)]) simp
  qed
next
  case (OpFaults fs)
  then show ?thesis using assms by (auto intro: rows_kept_same)
qed

text \<open>The tokens keep their hashes; a consumed one stays consumed, and a new one has a new hash.\<close>

definition tokens_kept :: "agent_db \<Rightarrow> agent_db \<Rightarrow> bool" where
  "tokens_kept d d' \<longleftrightarrow> (\<exists>g new. agTokens d' = map g (agTokens d) @ new \<and>
     (\<forall>k. etHash (g k) = etHash k \<and> (etConsumedAt k \<noteq> 0 \<longrightarrow> etConsumedAt (g k) \<noteq> 0)) \<and>
     (\<forall>k\<in>set new. etHash k \<notin> etHash ` set (agTokens d)) \<and> length new \<le> 1)"

lemma tokens_kept_same: "agTokens d' = agTokens d \<Longrightarrow> tokens_kept d d'"
  unfolding tokens_kept_def by (intro exI [of _ id] exI [of _ "[]"]) simp

lemma tokens_kept_distinct: "tokens_kept d d' \<Longrightarrow> distinct (map etHash (agTokens d)) \<Longrightarrow> distinct (map etHash (agTokens d'))"
proof -
  assume k: "tokens_kept d d'" and d: "distinct (map etHash (agTokens d))"
  obtain g new where g: "agTokens d' = map g (agTokens d) @ new" "\<And>k. etHash (g k) = etHash k"
    "\<forall>k\<in>set new. etHash k \<notin> etHash ` set (agTokens d)" "length new \<le> 1"
    using k unfolding tokens_kept_def by blast
  have "new = [] \<or> (\<exists>x. new = [x])" using g(4) by (cases new) auto
  then show ?thesis using g(3) d by (auto simp: g(1) comp_def g(2)) (metis imageI)
qed

lemma apply_op_tokens:
  assumes "apply_op P s now op d = (a, d')"
  shows "tokens_kept d d'"
proof (cases op)
  case (OpCode body actor raw)
  then have "handleCreateEnrollment P s body actor raw now d = (a, d')" using assms by simp
  then show ?thesis
  proof (cases rule: handleCreateEnrollment_cases)
    case same
    then show ?thesis by (auto intro: tokens_kept_same simp: same_data_def)
  next
    case (created k)
    then show ?thesis unfolding tokens_kept_def by (intro exI [of _ id] exI [of _ "[k]"]) simp
  qed
next
  case (OpEnroll body raw serials)
  then have "handleEnroll P s body raw serials now d = (a, d')" using assms by simp
  then show ?thesis
  proof (cases rule: handleEnroll_cases)
    case refused
    then show ?thesis by (auto intro: tokens_kept_same simp: same_data_def)
  next
    case (enrolled r csrDER certificate serial cert)
    then show ?thesis unfolding tokens_kept_def consume_def
      by (intro exI [of _ "\<lambda>k. if usable _ _ k then _ k else k"] exI [of _ "[]"]) (auto simp: usable_def)
  qed
next
  case (OpRenew body i serials)
  then have "handleRenew P body i serials now d = (a, d')" using assms by simp
  then show ?thesis by (rule handleRenew_cases) (auto intro: tokens_kept_same simp: same_data_def)
next
  case (OpRevoke agentID)
  obtain h where "handleRevokeAgent agentID now d (None :: unit hub option) = (a, d', h)"
    using assms OpRevoke by (auto simp: Let_def split: prod.splits)
  then show ?thesis by (rule handleRevokeAgent_cases) (auto intro: tokens_kept_same simp: same_data_def)
next
  case (OpFaults fs)
  then show ?thesis using assms by (auto intro: tokens_kept_same)
qed

lemma apply_op_ok:
  assumes "apply_op P s now op d = (a, d')" and "tables_ok d"
  shows "tables_ok d'"
  using assms(2) tokens_kept_distinct [OF apply_op_tokens [OF assms(1)]] rows_kept_ok [OF apply_op_rows [OF assms(1)]]
  unfolding tables_ok_def by simp

subsection \<open>Codes\<close>

text \<open>A token with the hash exists, and every such token has been consumed.\<close>

definition spent :: "bytes \<Rightarrow> agent_db \<Rightarrow> bool" where
  "spent h d \<longleftrightarrow> h \<in> etHash ` set (agTokens d) \<and> (\<forall>k\<in>set (agTokens d). etHash k = h \<longrightarrow> etConsumedAt k \<noteq> 0)"

lemma spent_kept:
  assumes "tokens_kept d d'" and "spent h d"
  shows "spent h d'"
proof -
  obtain g new where g: "agTokens d' = map g (agTokens d) @ new" "\<And>k. etHash (g k) = etHash k"
    "\<And>k. etConsumedAt k \<noteq> 0 \<Longrightarrow> etConsumedAt (g k) \<noteq> 0" "\<forall>k\<in>set new. etHash k \<notin> etHash ` set (agTokens d)"
    using assms(1) unfolding tokens_kept_def by blast
  obtain k where k: "k \<in> set (agTokens d)" "etHash k = h" using assms(2) unfolding spent_def by blast
  then have "h \<in> etHash ` set (agTokens d')" using g(1,2) by (metis UnI1 imageI list.set_map set_append)
  moreover have "etConsumedAt x \<noteq> 0" if x: "x \<in> set (agTokens d')" "etHash x = h" for x
  proof -
    have "etHash x \<in> etHash ` set (agTokens d)" using imageI [OF k(1), of etHash] k(2) that(2) by simp
    then have "x \<notin> set new" using g(4) by blast
    then obtain y where "y \<in> set (agTokens d)" "x = g y" using x(1) g(1) by auto
    then show ?thesis using assms(2) that(2) g(2,3) unfolding spent_def by metis
  qed
  ultimately show ?thesis unfolding spent_def by blast
qed

text \<open>The answers that enrolled an Agent with a code.\<close>

definition enrolls :: "bytes \<Rightarrow> agent_op \<Rightarrow> answer \<Rightarrow> bool" where
  "enrolls code op a \<longleftrightarrow>
     (case op of OpEnroll (JsonDoc r) _ _ \<Rightarrow> erCode r = code \<and> is_enrolled a | _ \<Rightarrow> False)"

lemma enrolls_spends:
  assumes "apply_op P s now op d = (a, d')" and "enrolls code op a" and "tables_ok d" and "0 < now div second"
  shows "\<not> spent (hex_encode (peSHA256 P code)) d \<and> spent (hex_encode (peSHA256 P code)) d'"
proof -
  let ?h = "hex_encode (peSHA256 P code)"
  obtain r raw serials where op: "op = OpEnroll (JsonDoc r) raw serials" "erCode r = code" "is_enrolled a"
    using assms(2) unfolding enrolls_def by (auto split: agent_op.split_asm json_doc.split_asm)
  then have "handleEnroll P s (JsonDoc r) raw serials now d = (a, d')" using assms(1) by simp
  then show ?thesis
  proof (cases rule: handleEnroll_cases)
    case (enrolled r' csrDER certificate serial cert)
    then have one: "length (filter (usable ?h (now div second)) (agTokens d)) = 1"
      and t: "agTokens d' = consume ?h (now div second) (agTokens d)" using op(2) by auto
    then obtain k where k: "k \<in> set (agTokens d)" "usable ?h (now div second) k"
    proof -
      have "filter (usable ?h (now div second)) (agTokens d) \<noteq> []" using one by auto
      then show ?thesis using that unfolding filter_empty_conv by blast
    qed
    have same: "x = k" if "x \<in> set (agTokens d)" "etHash x = ?h" for x
      using that k inj_onD [of etHash "set (agTokens d)" x k] assms(3) by (simp add: tables_ok_def usable_def distinct_map)
    have "\<not> spent ?h d" using k unfolding spent_def usable_def by blast
    moreover have "spent ?h d'"
    proof -
      let ?g = "\<lambda>x. if usable ?h (now div second) x then x\<lparr>etConsumedAt := now div second\<rparr> else x"
      have hk: "etHash (?g k) = ?h" using k by (simp add: usable_def)
      have gk: "?g k \<in> ?g ` set (agTokens d)" by (rule imageI [OF k(1)])
      have hash: "?h \<in> etHash ` set (map ?g (agTokens d))" unfolding set_map using imageI [OF gk, of etHash] unfolding hk .
      have "etConsumedAt (?g x) \<noteq> 0" if "x \<in> set (agTokens d)" "etHash (?g x) = ?h" for x
      proof -
        have "etHash x = ?h" using that(2) by (simp split: if_splits)
        then have "x = k" using same that(1) by blast
        then show ?thesis using k assms(4) by simp
      qed
      then show ?thesis using hash unfolding spent_def t consume_def by (simp only: set_map) blast
    qed
    ultimately show ?thesis by blast
  qed (use op in simp)
qed

lemma spent_never_enrolls:
  assumes "spent (hex_encode (peSHA256 P code)) d" and "tables_ok d" and "\<forall>(now, op)\<in>set ops. 0 < now div second"
    and "run_ops P s ops d = (answers, d')"
  shows "filter (\<lambda>((now, op), a). enrolls code op a) (zip ops answers) = []"
  using assms
proof (induction ops arbitrary: d answers)
  case (Cons o' ops)
  obtain now op where o': "o' = (now, op)" by (metis surj_pair)
  obtain a u where 1: "apply_op P s now op d = (a, u)" by (metis surj_pair)
  obtain as v where 2: "run_ops P s ops u = (as, v)" by (metis surj_pair)
  have res: "answers = a # as" "d' = v" using Cons.prems(4) by (simp_all add: o' 1 2)
  have t: "0 < now div second" using Cons.prems(3) o' by simp
  have "\<not> enrolls code op a" using enrolls_spends [OF 1 _ Cons.prems(2) t] Cons.prems(1) by blast
  moreover have "spent (hex_encode (peSHA256 P code)) u" by (rule spent_kept [OF apply_op_tokens [OF 1] Cons.prems(1)])
  ultimately show ?case
    using Cons.IH [of u as] apply_op_ok [OF 1 Cons.prems(2)] 2 res Cons.prems(3) o' by simp
qed simp

text \<open>C18. An enrollment code works at most once: however code creations, enrollments (of any body, by anyone), renewals, revocations and
  failures of the database follow each other, at most one request with a given code is answered with a certificate.\<close>

theorem enrollment_code_works_once:
  assumes "tables_ok d" and "\<forall>(now, op)\<in>set ops. 0 < now div second" and "run_ops P s ops d = (answers, d')"
  shows "length (filter (\<lambda>((now, op), a). enrolls code op a) (zip ops answers)) \<le> 1"
  using assms
proof (induction ops arbitrary: d answers)
  case (Cons o' ops)
  obtain now op where o': "o' = (now, op)" by (metis surj_pair)
  obtain a u where 1: "apply_op P s now op d = (a, u)" by (metis surj_pair)
  obtain as v where 2: "run_ops P s ops u = (as, v)" by (metis surj_pair)
  have res: "answers = a # as" "d' = v" using Cons.prems(3) by (simp_all add: o' 1 2)
  have t: "0 < now div second" "\<forall>(now, op)\<in>set ops. 0 < now div second" using Cons.prems(2) o' by simp_all
  note ok = apply_op_ok [OF 1 Cons.prems(1)]
  show ?case
  proof (cases "enrolls code op a")
    case True
    then have "spent (hex_encode (peSHA256 P code)) u" using enrolls_spends [OF 1 True Cons.prems(1) t(1)] by blast
    from spent_never_enrolls [OF this ok t(2) 2] show ?thesis by (simp add: res o')
  next
    case False
    then show ?thesis using Cons.IH [OF ok t(2)] 2 res by (simp add: o')
  qed
qed simp

subsection \<open>Revocation\<close>

definition revoked :: "bytes \<Rightarrow> bytes \<Rightarrow> agent_db \<Rightarrow> bool" where
  "revoked agentID nodeID d \<longleftrightarrow> (\<exists>r\<in>set (agIdentities d). irAgentID r = agentID \<and> irNodeID r = nodeID) \<and>
     (\<forall>r\<in>set (agIdentities d). irAgentID r = agentID \<longrightarrow> irRevokedAt r \<noteq> 0)"

lemma revoked_kept:
  assumes "rows_kept d d'" and "revoked agentID nodeID d"
  shows "revoked agentID nodeID d'"
proof -
  obtain g new where g: "agIdentities d' = map g (agIdentities d) @ new" "\<And>r. irAgentID (g r) = irAgentID r"
    "\<And>r. irNodeID (g r) = irNodeID r" "\<And>r. irRevokedAt r \<noteq> 0 \<Longrightarrow> irRevokedAt (g r) = irRevokedAt r"
    "\<forall>r\<in>set new. irAgentID r \<notin> irAgentID ` set (agIdentities d)"
    using assms(1) unfolding rows_kept_def by blast
  obtain r where r: "r \<in> set (agIdentities d)" "irAgentID r = agentID" "irNodeID r = nodeID"
    using assms(2) unfolding revoked_def by blast
  then have "\<exists>r\<in>set (agIdentities d'). irAgentID r = agentID \<and> irNodeID r = nodeID"
    using g(1-3) by (intro bexI [of _ "g r"]) simp_all
  moreover have "irRevokedAt x \<noteq> 0" if x: "x \<in> set (agIdentities d')" "irAgentID x = agentID" for x
  proof -
    have "irAgentID x \<in> irAgentID ` set (agIdentities d)" using imageI [OF r(1), of irAgentID] r(2) that(2) by simp
    then have "x \<notin> set new" using g(5) by blast
    then obtain y where "y \<in> set (agIdentities d)" "x = g y" using x(1) g(1) by auto
    then show ?thesis using assms(2) that(2) g(2,4) unfolding revoked_def by metis
  qed
  ultimately show ?thesis unfolding revoked_def by blast
qed

lemma run_ops_revoked:
  "run_ops P s ops d = (answers, d') \<Longrightarrow> revoked agentID nodeID d \<Longrightarrow> revoked agentID nodeID d'"
proof (induction ops arbitrary: d answers)
  case (Cons o' ops)
  obtain now op where o': "o' = (now, op)" by (metis surj_pair)
  obtain a u where 1: "apply_op P s now op d = (a, u)" by (metis surj_pair)
  show ?case using Cons revoked_kept [OF apply_op_rows [OF 1]] by (auto simp: o' 1 Let_def split: prod.splits)
qed simp

lemma requireAgent_Some:
  assumes "requireAgent verified now d = (Some i, d')"
  obtains leaf rest r where "verified = Some [Some leaf # rest]" "ctNotBefore leaf \<le> now" "now < ctNotAfter leaf"
    "AgentIDFromCertificate leaf = Inr (idAgentID i)" "idSerial i = ctSerial leaf" "r \<in> set (agIdentities d)"
    "irAgentID r = idAgentID i" "irSerial r = idSerial i" "irNodeID r = idNodeID i" "irRevokedAt r = 0" "now div second < irExpiresAt r"
    "agIdentities d' = agIdentities d"
proof -
  obtain leaf rest where v: "verified = Some [Some leaf # rest]"
    using assms by (auto simp: requireAgent_def split: option.split_asm list.split_asm)
  obtain b u where 1: "attempt d = (b, u)" by (metis surj_pair)
  note run = assms [unfolded requireAgent_def v option.case list.case 1 Let_def prod.case]
  have t: "ctNotBefore leaf \<le> now" "now < ctNotAfter leaf" using run by (auto split: if_split_asm)
  obtain x where x: "AgentIDFromCertificate leaf = Inr x" using run t by (cases "AgentIDFromCertificate leaf") auto
  obtain r where r: "find (\<lambda>r. irAgentID r = x \<and> irSerial r = ctSerial leaf) (agIdentities u) = Some r"
    using run t x by (cases "find (\<lambda>r. irAgentID r = x \<and> irSerial r = ctSerial leaf) (agIdentities u)") auto
  have e: "b" "irRevokedAt r = 0" "now div second < irExpiresAt r" "d' = u"
    "i = \<lparr>idAgentID = x, idNodeID = irNodeID r, idSerial = ctSerial leaf\<rparr>"
    using run t x r by (auto split: if_split_asm)
  note f = find_Some_in [OF r]
  show ?thesis
  proof (rule that [OF v t])
    show "AgentIDFromCertificate leaf = Inr (idAgentID i)" "idSerial i = ctSerial leaf" using x e(5) by simp_all
    show "r \<in> set (agIdentities d)" "agIdentities d' = agIdentities d" using f e(4) attempt_same [OF 1] by (simp_all add: same_data_def)
    show "irAgentID r = idAgentID i" "irSerial r = idSerial i" "irNodeID r = idNodeID i" using f e(5) by simp_all
    show "irRevokedAt r = 0" "now div second < irExpiresAt r" by (rule e(2), rule e(3))
  qed
qed

text \<open>C19. Revocation is final: once an Agent has been revoked, no request authenticates as this Agent any more, whatever enrollments, renewals,
  revocations and failures follow and whatever certificate is presented, and its session is closed. It is final for the node as
  well: the row keeps its node identifier, so no later enrollment of the node is ever accepted.\<close>

theorem revocation_is_final:
  assumes rev: "handleRevokeAgent agentID now d h = (NoContent, d1, h1)" and "0 < now div second"
    and r: "r \<in> set (agIdentities d)" "irAgentID r = agentID" and run: "run_ops P s ops d1 = (answers, d2)"
  shows "(\<forall>verified t. case fst (requireAgent verified t d2) of None \<Rightarrow> True | Some i \<Rightarrow> idAgentID i \<noteq> agentID) \<and>
    (\<forall>q raw serials t. erNodeID q = irNodeID r \<longrightarrow> \<not> is_enrolled (fst (handleEnroll P s (JsonDoc q) raw serials t d2))) \<and>
    (\<forall>h'. h1 = Some h' \<longrightarrow> \<not> IsOnline agentID h')"
proof -
  let ?g = "\<lambda>r. if irAgentID r = agentID \<and> irRevokedAt r = 0 then r\<lparr>irRevokedAt := now div second\<rparr> else r"
  have ids: "agIdentities d1 = map ?g (agIdentities d)" using rev by (cases rule: handleRevokeAgent_cases) auto
  have "irAgentID (?g r) = agentID \<and> irNodeID (?g r) = irNodeID r" using r(2) by simp
  then have "\<exists>x\<in>set (agIdentities d1). irAgentID x = agentID \<and> irNodeID x = irNodeID r"
    unfolding ids set_map using r(1) by (intro bexI [of _ "?g r"] imageI)
  moreover have "\<forall>x\<in>set (agIdentities d1). irAgentID x = agentID \<longrightarrow> irRevokedAt x \<noteq> 0"
    unfolding ids set_map
  proof (intro ballI impI)
    fix x assume "x \<in> ?g ` set (agIdentities d)" and a: "irAgentID x = agentID"
    then obtain y where y: "x = ?g y" by blast
    show "irRevokedAt x \<noteq> 0"
      using a assms(2) unfolding y by (cases "irAgentID y = agentID \<and> irRevokedAt y = 0") auto
  qed
  ultimately have "revoked agentID (irNodeID r) d1" unfolding revoked_def by blast
  then have gone: "revoked agentID (irNodeID r) d2" by (rule run_ops_revoked [OF run])
  have auth: "case fst (requireAgent verified t d2) of None \<Rightarrow> True | Some i \<Rightarrow> idAgentID i \<noteq> agentID" for verified t
  proof (cases "fst (requireAgent verified t d2)")
    case (Some i)
    then have "requireAgent verified t d2 = (Some i, snd (requireAgent verified t d2))" by (metis prod.collapse)
    then show ?thesis using gone Some unfolding revoked_def by (elim requireAgent_Some) auto
  qed simp
  have enroll: "\<not> is_enrolled (fst (handleEnroll P s (JsonDoc q) raw serials t d2))" if "erNodeID q = irNodeID r" for q raw serials t
  proof -
    obtain a e where 1: "handleEnroll P s (JsonDoc q) raw serials t d2 = (a, e)" by (metis surj_pair)
    then show ?thesis
    proof (cases rule: handleEnroll_cases)
      case (enrolled q' csrDER certificate serial cert)
      then have "irNodeID r \<notin> irNodeID ` set (agIdentities d2)" using that by simp
      moreover obtain x where "x \<in> set (agIdentities d2)" "irNodeID x = irNodeID r" using gone unfolding revoked_def by blast
      ultimately show ?thesis using imageI [of x _ irNodeID] by simp
    qed (simp add: 1)
  qed
  have "\<not> IsOnline agentID h'" if hub: "h1 = Some h'" for h'
  proof -
    obtain h0 where "h = Some h0" "h' = snd (Disconnect agentID ''revoked'' h0)"
      using rev hub by (auto simp: handleRevokeAgent_def Let_def split: if_split_asm prod.split_asm)
    then show ?thesis by (auto simp: Disconnect_def IsOnline_def delete_conv split: option.splits)
  qed
  then show ?thesis using auth enroll by blast
qed

subsection \<open>Issued certificates\<close>

text \<open>What the code relies on: \<open>url.Parse\<close> on the URI of an identifier, a created certificate that carries the fields of its template with times in whole
  seconds, and PEM blocks that decode to what was encoded.\<close>

definition agent_url :: "bytes \<Rightarrow> url_parts" where
  "agent_url agentID = \<lparr>upScheme = ''spiffe'', upHost = ''net-probe'', upHasUser = False, upPath = ''/agent/'' @ agentID,
     upEscapedPath = ''/agent/'' @ agentID, upRawQuery = [], upFragment = [], upOpaque = []\<rparr>"

definition pki_laws :: "pki_env \<Rightarrow> bool" where
  "pki_laws P \<longleftrightarrow> (\<forall>a. validUUID a \<longrightarrow> peURL P (agentURI @ a) = Some (agent_url a)) \<and>
     (\<forall>t k der. peCreate P t k = Some der \<longrightarrow>
        peCertificate P der = Some \<lparr>ctSerial = tpSerial t, ctNotBefore = tpNotBefore t div second * second,
          ctNotAfter = tpNotAfter t div second * second, ctURIs = [Some (tpURI t)], ctRaw = der\<rparr>) \<and>
     (\<forall>typ der. pePem P (peEncode P typ der) = Some (typ, der, []))"

lemma hex_decode_chars: "hex_decode s = Some x \<Longrightarrow> c \<in> set s \<Longrightarrow> hex_value c \<noteq> None"
  by (induction s arbitrary: x rule: hex_decode.induct) (auto split: option.splits)

lemma validUUID_no_slash: "validUUID a \<Longrightarrow> CHR ''/'' \<notin> set a"
proof
  assume v: "validUUID a" and c: "CHR ''/'' \<in> set a"
  let ?raw = "filter (\<lambda>c. c \<noteq> CHR ''-'') a"
  obtain x where x: "hex_decode ?raw = Some x" using v by (auto simp: validUUID_def Let_def split: if_splits)
  have "CHR ''/'' \<in> set ?raw" using c by simp
  then have "hex_value (CHR ''/'') \<noteq> None" by (rule hex_decode_chars [OF x])
  then show False by (simp add: hex_value_def digit_value_def)
qed

lemma AgentIDFromCertificate_agent_url:
  "validUUID a \<Longrightarrow> ctURIs cert = [Some (agent_url a)] \<Longrightarrow> AgentIDFromCertificate cert = Inr a"
  using validUUID_no_slash [of a]
  by (simp add: AgentIDFromCertificate_def agent_url_def has_prefix_def trim_prefix_def)

lemma issued_certificate:
  assumes "pki_laws P" and "IssueAgent P serials a csrDER now = Inr (certificate, serial)"
    and "parseCertificatePEM P certificate = Some cert"
  shows "AgentIDFromCertificate cert = Inr a" "ctSerial cert = serial" "ctNotBefore cert = (now - 5 * minute) div second * second"
    "ctNotAfter cert = (now - 5 * minute + agentValidity) div second * second"
proof -
  have v: "validUUID a" using assms(2) by (auto simp: IssueAgent_def split: if_splits)
  obtain c where c: "peCSR P csrDER = Some c" "csSignatureOK c" "csP256 c"
    using assms(2) v by (auto simp: IssueAgent_def split: option.splits if_splits)
  have u: "peURL P (agentURI @ a) = Some (agent_url a)" using assms(1) v by (simp add: pki_laws_def)
  let ?t = "\<lparr>tpSerial = serial, tpNotBefore = now - 5 * minute, tpNotAfter = now - 5 * minute + agentValidity, tpURI = agent_url a\<rparr>"
  obtain der where der: "peCreate P ?t (csKey c) = Some der" "certificate = peEncode P ''CERTIFICATE'' der"
    using assms(2) v c u by (auto simp: IssueAgent_def Let_def split: option.splits)
  have "pePem P certificate = Some (''CERTIFICATE'', der, [])" using assms(1) der(2) by (simp add: pki_laws_def)
  then have "peCertificate P der = Some cert" using assms(3) by (simp add: parseCertificatePEM_def split: if_splits)
  moreover have "peCertificate P der = Some \<lparr>ctSerial = serial, ctNotBefore = (now - 5 * minute) div second * second,
      ctNotAfter = (now - 5 * minute + agentValidity) div second * second, ctURIs = [Some (agent_url a)], ctRaw = der\<rparr>"
    using assms(1) der(1) unfolding pki_laws_def by fastforce
  ultimately have cert: "cert = \<lparr>ctSerial = serial, ctNotBefore = (now - 5 * minute) div second * second,
      ctNotAfter = (now - 5 * minute + agentValidity) div second * second, ctURIs = [Some (agent_url a)], ctRaw = der\<rparr>" by simp
  show "AgentIDFromCertificate cert = Inr a" by (rule AgentIDFromCertificate_agent_url [OF v]) (simp add: cert)
  show "ctSerial cert = serial" "ctNotBefore cert = (now - 5 * minute) div second * second"
    "ctNotAfter cert = (now - 5 * minute + agentValidity) div second * second" by (simp_all add: cert)
qed

lemma find_row:
  assumes "distinct (map irAgentID rows)" and "r \<in> set rows"
  shows "find (\<lambda>x. irAgentID x = irAgentID r \<and> irSerial x = n) rows = (if irSerial r = n then Some r else None)"
proof (cases "find (\<lambda>x. irAgentID x = irAgentID r \<and> irSerial x = n) rows")
  case None
  then have "irSerial r \<noteq> n" using assms(2) unfolding find_None_all by blast
  then show ?thesis using None by simp
next
  case (Some x)
  then have "x \<in> set rows" "irAgentID x = irAgentID r" "irSerial x = n" using find_Some_in by fastforce+
  moreover from this have "x = r" using assms by (simp add: distinct_map inj_on_def)
  ultimately show ?thesis using Some by simp
qed

lemma requireAgent_row:
  assumes "distinct (map irAgentID (agIdentities d))" and "r \<in> set (agIdentities d)" and "AgentIDFromCertificate cert = Inr (irAgentID r)"
    and "agFaults d = []" and "ctNotBefore cert \<le> t" and "t < ctNotAfter cert"
  shows "fst (requireAgent (Some [Some cert # rest]) t d) =
    (if irSerial r = ctSerial cert \<and> irRevokedAt r = 0 \<and> t div second < irExpiresAt r
     then Some \<lparr>idAgentID = irAgentID r, idNodeID = irNodeID r, idSerial = ctSerial cert\<rparr> else None)"
  using assms(3-) find_row [OF assms(1,2), of "ctSerial cert"] by (auto simp: requireAgent_def attempt_def)

lemma whole_seconds: "c = q * second \<Longrightarrow> t < c \<Longrightarrow> t div second < c div second"
  by simp

text \<open>The certificate that answers an enrollment authenticates the new Agent: presented over TLS at any time of its validity, to the state the enrollment
  left, it is recognised as the identity just stored, with the serial number of the certificate and the node of the request; and
  the node had no identity before.\<close>

theorem enrolled_certificate_authenticates:
  assumes "pki_laws P" and "tables_ok d" and "handleEnroll P s body raw serials now d = (Enrolled rs, d')" and "agFaults d' = []"
  shows "\<exists>r cert. body = JsonDoc r \<and> parseCertificatePEM P (rsCertificate rs) = Some cert \<and>
    erNodeID r \<notin> irNodeID ` set (agIdentities d) \<and>
    (\<forall>t rest. ctNotBefore cert \<le> t \<and> t < ctNotAfter cert \<longrightarrow>
       fst (requireAgent (Some [Some cert # rest]) t d') =
         Some \<lparr>idAgentID = rsAgentID rs, idNodeID = erNodeID r, idSerial = ctSerial cert\<rparr>)"
  using assms(3)
proof (cases rule: handleEnroll_cases)
  case refused
  then show ?thesis by (simp add: is_enrolled_def)
next
  case (enrolled r csrDER certificate serial cert)
  then have rs: "rsAgentID rs = randomUUID raw" "rsCertificate rs = certificate" by auto
  note c = issued_certificate [OF assms(1) enrolled(4,5)]
  let ?row = "enrolled_row P r (randomUUID raw) serial cert"
  have "apply_op P s now (OpEnroll body raw serials) d = (Enrolled rs, d')" using assms(3) by simp
  from apply_op_ok [OF this assms(2)] have dist: "distinct (map irAgentID (agIdentities d'))" by (simp add: tables_ok_def)
  have row: "?row \<in> set (agIdentities d')" using enrolled(9) by simp
  have "AgentIDFromCertificate cert = Inr (irAgentID ?row)" using c(1) by (simp add: enrolled_row_def)
  note auth = requireAgent_row [OF dist row this assms(4)]
  have "t div second < irExpiresAt ?row" if "t < ctNotAfter cert" for t
    using whole_seconds [OF c(4) that] by (simp add: enrolled_row_def)
  then show ?thesis using auth enrolled(1,5,11) rs c(2) by (auto simp: enrolled_row_def)
qed

lemma renewal_effect:
  assumes "pki_laws P" and "tables_ok d" and "handleRenew P body i serials now d = (Renewed certificate, d')" and "agFaults d' = []"
  shows "\<exists>cert r. parseCertificatePEM P certificate = Some cert \<and> r \<in> set (agIdentities d) \<and> irAgentID r = idAgentID i \<and>
    irSerial r = idSerial i \<and>
    (\<forall>t rest. ctNotBefore cert \<le> t \<and> t < ctNotAfter cert \<longrightarrow>
       fst (requireAgent (Some [Some cert # rest]) t d') =
         Some \<lparr>idAgentID = idAgentID i, idNodeID = irNodeID r, idSerial = ctSerial cert\<rparr>) \<and>
    (\<forall>stale t rest. AgentIDFromCertificate stale = Inr (idAgentID i) \<and> ctSerial stale = idSerial i \<and> ctSerial cert \<noteq> idSerial i \<longrightarrow>
       fst (requireAgent (Some [Some stale # rest]) t d') = None)"
  using assms(3)
proof (cases rule: handleRenew_cases)
  case same
  then show ?thesis by blast
next
  case (renewed pem csrDER r cert_text serial cert)
  then have eqt: "certificate = cert_text" by (simp split: if_splits)
  note c = issued_certificate [OF assms(1) renewed(5,6)]
  note f = find_Some_in [OF renewed(3)]
  let ?row = "renewed_row P serial cert r"
  have "apply_op P s now (OpRenew body i serials) d = (Renewed certificate, d')" for s using assms(3) by simp
  from apply_op_ok [OF this assms(2)] have dist: "distinct (map irAgentID (agIdentities d'))" by (simp add: tables_ok_def)
  have row: "?row \<in> set (agIdentities d')" unfolding renewed(8) set_map using f
    by (intro image_eqI [of _ _ r]) simp_all
  have id: "irAgentID ?row = idAgentID i" "irSerial ?row = serial" "irNodeID ?row = irNodeID r" "irRevokedAt ?row = 0"
    using f by (simp_all add: renewed_row_def current_def)
  have "AgentIDFromCertificate cert = Inr (irAgentID ?row)" using c(1) id by simp
  note auth = requireAgent_row [OF dist row this assms(4)]
  have exp: "t div second < irExpiresAt ?row" if "t < ctNotAfter cert" for t
    using whole_seconds [OF c(4) that] by (simp add: renewed_row_def)
  have stale: "fst (requireAgent (Some [Some stale # rest]) t d') = None"
    if "AgentIDFromCertificate stale = Inr (idAgentID i)" "ctSerial stale = idSerial i" "ctSerial cert \<noteq> idSerial i" for stale t rest
  proof (cases "ctNotBefore stale \<le> t \<and> t < ctNotAfter stale")
    case True
    then show ?thesis using requireAgent_row [OF dist row, of stale t rest] that id c(2) assms(4) by simp
  qed (auto simp: requireAgent_def)
  show ?thesis
    by (intro exI [of _ cert] exI [of _ r] conjI) (use auth exp stale id c(2) eqt renewed(6) f in \<open>auto simp: current_def\<close>)
qed

text \<open>A renewal replaces the certificate at once: the new certificate authenticates the Agent with the node it had, and from that moment
  every certificate with the old serial number is refused. An Agent that never received the answer can therefore not authenticate any
  more.\<close>

theorem renewal_replaces_certificate:
  assumes "pki_laws P" and "tables_ok d" and "handleRenew P body i serials now d = (Renewed certificate, d')" and "agFaults d' = []"
  shows "\<exists>cert r. parseCertificatePEM P certificate = Some cert \<and> r \<in> set (agIdentities d) \<and> irAgentID r = idAgentID i \<and>
    irSerial r = idSerial i \<and>
    (\<forall>t rest. ctNotBefore cert \<le> t \<and> t < ctNotAfter cert \<longrightarrow>
       fst (requireAgent (Some [Some cert # rest]) t d') =
         Some \<lparr>idAgentID = idAgentID i, idNodeID = irNodeID r, idSerial = ctSerial cert\<rparr>) \<and>
    (\<forall>stale t rest. AgentIDFromCertificate stale = Inr (idAgentID i) \<and> ctSerial stale = idSerial i \<and> ctSerial cert \<noteq> idSerial i \<longrightarrow>
       fst (requireAgent (Some [Some stale # rest]) t d') = None)"
  by (rule renewal_effect [OF assms])

subsection \<open>Witnesses\<close>

text \<open>A PEM text with unary length, and a certificate authority that signs one template.\<close>

definition sample_encode :: "bytes \<Rightarrow> bytes \<Rightarrow> bytes" where
  "sample_encode typ der = replicate (length typ) CHR ''a'' @ CHR ''b'' # typ @ der"

definition sample_pem :: "bytes \<Rightarrow> (bytes \<times> bytes \<times> bytes) option" where
  "sample_pem text =
     (let n = length (takeWhile (\<lambda>c. c = CHR ''a'') text); rest = drop (Suc n) text in Some (take n rest, drop n rest, []))"

lemma sample_pem_encode: "sample_pem (sample_encode typ der) = Some (typ, der, [])"
proof -
  have "takeWhile (\<lambda>c. c = CHR ''a'') (sample_encode typ der) = replicate (length typ) CHR ''a''"
  proof -
    have "takeWhile (\<lambda>c. c = CHR ''a'') (replicate n CHR ''a'' @ CHR ''b'' # s) = replicate n CHR ''a''" for n s
      by (induction n) simp_all
    then show ?thesis by (simp add: sample_encode_def)
  qed
  then show ?thesis by (simp add: sample_pem_def sample_encode_def)
qed

definition sample_agent :: bytes where "sample_agent = ''00000000-0000-4000-8000-000000000000''"

definition sample_issued :: int where "sample_issued = 1000 * second"

definition sample_template :: cert_template where
  "sample_template = \<lparr>tpSerial = 7, tpNotBefore = sample_issued - 5 * minute,
     tpNotAfter = sample_issued - 5 * minute + agentValidity, tpURI = agent_url sample_agent\<rparr>"

definition sample_pki :: pki_env where
  "sample_pki = \<lparr>peURL = (\<lambda>u. Some (agent_url (drop (length agentURI) u))),
     peCSR = (\<lambda>_. Some \<lparr>csSignatureOK = True, csP256 = True, csKey = ''k''\<rparr>),
     peCreate = (\<lambda>t k. if t = sample_template then Some ''d'' else None),
     peCertificate = (\<lambda>_. Some \<lparr>ctSerial = 7, ctNotBefore = tpNotBefore sample_template div second * second,
        ctNotAfter = tpNotAfter sample_template div second * second, ctURIs = [Some (agent_url sample_agent)], ctRaw = ''d''\<rparr>),
     pePem = sample_pem, peEncode = sample_encode, peSHA256 = id\<rparr>"

lemma sample_laws: "pki_laws sample_pki"
  by (auto simp: pki_laws_def sample_pki_def sample_pem_encode) (simp_all add: sample_template_def)

definition sample_server :: pki_server where
  "sample_server = \<lparr>psConfigured = True, psCAFile = ''ca'', psCommandKeyFile = ''ck'', psFingerprint = [],
     psReleaseKey = Some ''r'', psMarshal = Some\<rparr>"

definition sample_token :: enrollment_token where
  "sample_token = \<lparr>etHash = hex_encode ''c'', etCreatedBy = 1, etCreatedAt = 900, etExpiresAt = 1500, etConsumedAt = 0, etLabel = []\<rparr>"

definition sample_agents :: agent_db where
  "sample_agents = \<lparr>agTokens = [sample_token], agIdentities = [], agFaults = []\<rparr>"

definition sample_enrollment :: enrollment_request where
  "sample_enrollment = \<lparr>erCode = ''c'', erCSR = sample_encode ''CERTIFICATE REQUEST'' ''q'', erNodeID = ''n'', erAgentVersion = [],
     erOS = [], erArch = []\<rparr>"

lemma sample_uuid_random: "randomUUID (replicate 16 CHR 0x00) = sample_agent"
  by code_simp

lemma sample_agent_valid: "validUUID sample_agent"
  by code_simp

lemma sample_IssueAgent:
  "IssueAgent sample_pki [7] sample_agent csrDER sample_issued = Inr (sample_encode ''CERTIFICATE'' ''d'', 7)"
  using sample_agent_valid
  by (simp add: IssueAgent_def sample_pki_def Let_def sample_template_def)

definition sample_row :: identity_row where
  "sample_row = \<lparr>irAgentID = sample_agent, irNodeID = ''n'', irSerial = 7, irFingerprint = hex_encode ''d'', irIssuedAt = 700,
     irExpiresAt = 7776700, irRevokedAt = 0, irVersion = [], irOS = [], irArch = []\<rparr>"

lemma sample_parse: "parseCertificatePEM sample_pki (sample_encode ''CERTIFICATE'' ''d'') =
    Some \<lparr>ctSerial = 7, ctNotBefore = 700 * second, ctNotAfter = 7776700 * second, ctURIs = [Some (agent_url sample_agent)], ctRaw = ''d''\<rparr>"
  by (simp add: parseCertificatePEM_def sample_pki_def sample_pem_encode trim_space_def sample_template_def sample_issued_def
      agentValidity_def)

definition sample_answer :: enrollment_response where
  "sample_answer = \<lparr>rsAgentID = sample_agent, rsCertificate = sample_encode ''CERTIFICATE'' ''d'', rsCABundle = ''ca'',
     rsCommandKey = ''ck'', rsReleaseKey = sample_encode ''PUBLIC KEY'' ''r''\<rparr>"

lemma sample_enrolled:
  "handleEnroll sample_pki sample_server (JsonDoc sample_enrollment) (replicate 16 CHR 0x00) [7] sample_issued sample_agents =
     (Enrolled sample_answer,
      \<lparr>agTokens = [sample_token\<lparr>etConsumedAt := 1000\<rparr>], agIdentities = [sample_row], agFaults = []\<rparr>)"
proof -
  have csr: "parseCSR sample_pki (erCSR sample_enrollment) = Some ''q''"
    by (simp add: parseCSR_def sample_pki_def sample_enrollment_def sample_pem_encode trim_space_def)
  have meta: "validEnrollmentMetadata sample_enrollment"
    by (simp add: validEnrollmentMetadata_def sample_enrollment_def sample_encode_def)
  have trust: "enrollmentTrustMaterial sample_pki sample_server sample_agents =
      (Some (''ca'', ''ck'', sample_encode ''PUBLIC KEY'' ''r''), sample_agents)"
    by (simp add: enrollmentTrustMaterial_def attempt_def sample_agents_def sample_server_def sample_pki_def)
  have row: "enrolled_row sample_pki sample_enrollment sample_agent 7
      \<lparr>ctSerial = 7, ctNotBefore = 700 * second, ctNotAfter = 7776700 * second, ctURIs = [Some (agent_url sample_agent)], ctRaw = ''d''\<rparr> = sample_row"
    by (simp add: enrolled_row_def sample_row_def sample_enrollment_def sample_pki_def)
  have tx: "enrollTransaction sample_pki sample_enrollment ''q'' (replicate 16 CHR 0x00) [7] sample_issued sample_agents =
      (Inr (sample_agent, sample_encode ''CERTIFICATE'' ''d''),
       \<lparr>agTokens = [sample_token\<lparr>etConsumedAt := 1000\<rparr>], agIdentities = [sample_row], agFaults = []\<rparr>)"
    unfolding enrollTransaction_def issueIdentity_def Let_def sample_uuid_random sample_IssueAgent sum.case prod.case sample_parse
      option.case row
    by (simp add: attempt_def sample_agents_def usable_def consume_def sample_token_def sample_enrollment_def sample_pki_def
        sample_issued_def insertIdentity_def)
  show ?thesis
    using csr meta trust tx by (simp add: handleEnroll_def sample_server_def sample_answer_def)
qed

lemma sample_agents_ok: "tables_ok sample_agents"
  by (simp add: tables_ok_def sample_agents_def)

theorem enrollment_code_works_once_witness:
  "let enroll = (sample_issued, OpEnroll (JsonDoc sample_enrollment) (replicate 16 CHR 0x00) [7]);
       answers = fst (run_ops sample_pki sample_server [enroll, enroll] sample_agents)
   in enrolls ''c'' (snd enroll) (answers ! 0) \<and> \<not> enrolls ''c'' (snd enroll) (answers ! 1)"
proof -
  let ?e = "(sample_issued, OpEnroll (JsonDoc sample_enrollment) (replicate 16 CHR 0x00) [7])"
  let ?d = "\<lparr>agTokens = [sample_token\<lparr>etConsumedAt := 1000\<rparr>], agIdentities = [sample_row], agFaults = []\<rparr>"
  obtain a d' where 2: "handleEnroll sample_pki sample_server (JsonDoc sample_enrollment) (replicate 16 CHR 0x00) [7] sample_issued ?d = (a, d')"
    by (metis surj_pair)
  have run: "run_ops sample_pki sample_server [?e, ?e] sample_agents = ([Enrolled sample_answer, a], d')"
    by (simp add: sample_enrolled 2)
  have one: "enrolls ''c'' (snd ?e) (Enrolled sample_answer)"
    by (simp add: enrolls_def is_enrolled_def sample_enrollment_def)
  have "length (filter (\<lambda>((now, op), a). enrolls ''c'' op a) (zip [?e, ?e] [Enrolled sample_answer, a])) \<le> 1"
    by (rule enrollment_code_works_once [OF sample_agents_ok _ run]) (simp add: sample_issued_def)
  then show ?thesis using one unfolding Let_def run by (simp split: if_splits)
qed

theorem enrolled_certificate_authenticates_witness:
  "\<exists>cert. parseCertificatePEM sample_pki (rsCertificate sample_answer) = Some cert \<and>
     fst (requireAgent (Some [[Some cert]]) (2000 * second)
       \<lparr>agTokens = [sample_token\<lparr>etConsumedAt := 1000\<rparr>], agIdentities = [sample_row], agFaults = []\<rparr>) =
     Some \<lparr>idAgentID = sample_agent, idNodeID = ''n'', idSerial = 7\<rparr>"
proof -
  let ?d = "\<lparr>agTokens = [sample_token\<lparr>etConsumedAt := 1000\<rparr>], agIdentities = [sample_row], agFaults = []\<rparr>"
  let ?c = "\<lparr>ctSerial = 7, ctNotBefore = 700 * second, ctNotAfter = 7776700 * second, ctURIs = [Some (agent_url sample_agent)], ctRaw = ''d''\<rparr>"
  have parse: "parseCertificatePEM sample_pki (rsCertificate sample_answer) = Some ?c"
    using sample_parse by (simp add: sample_answer_def)
  have "agFaults ?d = []" by simp
  from enrolled_certificate_authenticates [OF sample_laws sample_agents_ok sample_enrolled this]
  obtain r where r: "JsonDoc sample_enrollment = JsonDoc r"
    "\<forall>t rest. ctNotBefore ?c \<le> t \<and> t < ctNotAfter ?c \<longrightarrow> fst (requireAgent (Some [Some ?c # rest]) t ?d) =
       Some \<lparr>idAgentID = rsAgentID sample_answer, idNodeID = erNodeID r, idSerial = ctSerial ?c\<rparr>"
    unfolding parse by blast
  have "fst (requireAgent (Some [[Some ?c]]) (2000 * second) ?d) =
      Some \<lparr>idAgentID = rsAgentID sample_answer, idNodeID = erNodeID r, idSerial = ctSerial ?c\<rparr>"
    by (rule r(2) [rule_format]) simp
  moreover have "rsAgentID sample_answer = sample_agent" "erNodeID r = ''n''" using r(1) by (auto simp: sample_answer_def sample_enrollment_def)
  ultimately show ?thesis using parse by simp
qed

definition sample_due :: agent_db where
  "sample_due = \<lparr>agTokens = [], agIdentities = [sample_row\<lparr>irSerial := 5, irExpiresAt := 2000\<rparr>], agFaults = []\<rparr>"

theorem renewal_replaces_certificate_witness:
  "\<exists>d'. handleRenew sample_pki (JsonDoc (erCSR sample_enrollment)) \<lparr>idAgentID = sample_agent, idNodeID = ''n'', idSerial = 5\<rparr> [7]
     sample_issued sample_due = (Renewed (sample_encode ''CERTIFICATE'' ''d''), d') \<and>
   fst (requireAgent (Some [[Some \<lparr>ctSerial = 5, ctNotBefore = 0, ctNotAfter = 2000 * second,
     ctURIs = [Some (agent_url sample_agent)], ctRaw = []\<rparr>]]) (1500 * second) d') = None"
proof -
  let ?i = "\<lparr>idAgentID = sample_agent, idNodeID = ''n'', idSerial = 5\<rparr>"
  let ?old = "\<lparr>ctSerial = 5, ctNotBefore = 0, ctNotAfter = 2000 * second, ctURIs = [Some (agent_url sample_agent)], ctRaw = []\<rparr>"
  have csr: "parseCSR sample_pki (erCSR sample_enrollment) = Some ''q''"
    by (simp add: parseCSR_def sample_pki_def sample_enrollment_def sample_pem_encode trim_space_def)
  have secs: "sample_issued div second = 1000" by (simp add: sample_issued_def)
  have ok: "tables_ok sample_due" by (simp add: tables_ok_def sample_due_def)
  obtain d' where run: "handleRenew sample_pki (JsonDoc (erCSR sample_enrollment)) ?i [7] sample_issued sample_due =
      (Renewed (sample_encode ''CERTIFICATE'' ''d''), d')" and nf: "agFaults d' = []"
    using secs by (simp add: handleRenew_def csr attempt_def sample_due_def current_def sample_row_def sample_IssueAgent sample_parse)
  have id: "AgentIDFromCertificate ?old = Inr sample_agent"
    by (rule AgentIDFromCertificate_agent_url [OF sample_agent_valid]) simp
  from renewal_replaces_certificate [OF sample_laws ok run nf]
  have "\<forall>stale t rest. AgentIDFromCertificate stale = Inr (idAgentID ?i) \<and> ctSerial stale = idSerial ?i \<and> 7 \<noteq> idSerial ?i \<longrightarrow>
      fst (requireAgent (Some [Some stale # rest]) t d') = None"
    unfolding sample_parse by auto
  then have "fst (requireAgent (Some [[Some ?old]]) (1500 * second) d') = None" using id by simp
  then show ?thesis using run by blast
qed

theorem revocation_is_final_witness:
  "\<exists>d'. fst (handleRevokeAgent sample_agent sample_issued sample_due (None :: unit hub option)) = NoContent \<and>
     d' = fst (snd (handleRevokeAgent sample_agent sample_issued sample_due (None :: unit hub option))) \<and>
     \<not> is_enrolled (fst (handleEnroll sample_pki sample_server (JsonDoc sample_enrollment) [] [7] sample_issued d'))"
proof -
  have ne: "sample_agent \<noteq> []" by (simp add: sample_agent_def)
  obtain d1 where rev: "handleRevokeAgent sample_agent sample_issued sample_due (None :: unit hub option) = (NoContent, d1, None)"
    using ne by (simp add: handleRevokeAgent_def attempt_def sample_due_def sample_row_def)
  have t: "0 < sample_issued div second" by (simp add: sample_issued_def)
  have row: "sample_row\<lparr>irSerial := 5, irExpiresAt := 2000\<rparr> \<in> set (agIdentities sample_due)"
    "irAgentID (sample_row\<lparr>irSerial := 5, irExpiresAt := 2000\<rparr>) = sample_agent"
    by (simp_all add: sample_due_def sample_row_def)
  have run: "run_ops sample_pki sample_server [] d1 = ([], d1)" by simp
  have "erNodeID sample_enrollment = irNodeID (sample_row\<lparr>irSerial := 5, irExpiresAt := 2000\<rparr>)"
    by (simp add: sample_enrollment_def sample_row_def)
  then have "\<not> is_enrolled (fst (handleEnroll sample_pki sample_server (JsonDoc sample_enrollment) [] [7] sample_issued d1))"
    using revocation_is_final [OF rev t row run] by blast
  then show ?thesis using rev by simp
qed

end
