(* ===== verification/ControlSession.thy ===== *)
theory ControlSession
  imports Dispatcher Enrollment
begin

text \<open>
  \<open>internal/panel/api/control.go\<close>: the control session of an Agent, from its hello to the deferred cleanup. Every session is a handler
  that advances in atomic stages; between two stages other handlers, the command API and a revocation may act on the hub, the command
  store and the table \<open>agent_identities\<close>. JSON decoding of one message for each destination is the parameter record \<open>wire_codec\<close>, and
  each statement on the database consumes one entry of \<open>pwFaults\<close>. Times are nanoseconds.
\<close>

subsection \<open>State\<close>

datatype wire_kind = KHello | KHeartbeat | KResult

record wire_codec =
  wcType :: "bytes \<Rightarrow> bytes option"
  wcDecode :: "wire_kind \<Rightarrow> bytes \<Rightarrow> message json_text"

text \<open>The columns of an identity that the session reads or writes.\<close>

record connection_row =
  cnAgentID :: bytes
  cnSerial :: nat
  cnRevokedAt :: int
  cnConnectedAt :: int
  cnHeartbeatAt :: int
  cnDisconnectedAt :: int
  cnReason :: bytes
  cnVersion :: bytes
  cnOS :: bytes
  cnArch :: bytes
  cnCapabilities :: "action list"
  cnBootID :: bytes
  cnUpdatedAt :: int

record 'm panel_world =
  pwHub :: "'m hub"
  pwStore :: store
  pwRows :: "connection_row list"
  pwFaults :: "bool list"

record 'm control_server =
  pcHub :: bool
  pcStore :: bool
  pcDispatcher :: bool
  pcMessageRate :: int
  pcVersion :: bytes
  pcValid :: "bytes \<Rightarrow> bool"
  pcEncode :: "command \<Rightarrow> 'm option"
  pcCodec :: wire_codec

text \<open>The deferred function runs in two stages, first the hub and then the database.\<close>

datatype stage = Registered | Connected | Welcomed | Serving | Leaving | Recording

record control_session =
  kID :: bytes
  kIdentity :: request_identity
  kHello :: hello
  kReason :: bytes
  kWindow :: int
  kMessages :: int
  kNow :: int
  kStage :: stage

datatype inbound = ReadTimeout | ReadFailed | Received bool bytes

definition exec_sql :: "'m panel_world \<Rightarrow> bool \<times> 'm panel_world" where
  "exec_sql w = (case pwFaults w of [] \<Rightarrow> (True, w) | f # fs \<Rightarrow> (\<not> f, w\<lparr>pwFaults := fs\<rparr>))"

subsection \<open>Messages\<close>

definition validHello :: "hello \<Rightarrow> request_identity \<Rightarrow> bool" where
  "validHello h i \<longleftrightarrow>
     hAgentID h = idAgentID i \<and> hNodeID h = idNodeID i \<and> hBootID h \<noteq> [] \<and> length (hBootID h) \<le> 256 \<and>
     length (hAgentVersion h) \<le> 128 \<and> length (hOS h) \<le> 64 \<and> length (hArch h) \<le> 64 \<and> length (hCapabilities h) \<le> 4"

definition validHeartbeat :: "heartbeat \<Rightarrow> bool" where
  "validHeartbeat b \<longleftrightarrow>
     length (bAgentVersion b) \<le> 128 \<and> length (bLastReportCode b) \<le> 128 \<and> length (bCurrentCommandID b) \<le> 128 \<and>
     0 \<le>s bUptimeSeconds b \<and> 0 \<le> bOutboxDepth b \<and> bOutboxDepth b \<le> 120"

definition decodeHello :: "wire_codec \<Rightarrow> bytes \<Rightarrow> hello option" where
  "decodeHello W b = (case StrictDecode (wcDecode W KHello b) of Inr (MHello h) \<Rightarrow> Some h | _ \<Rightarrow> None)"

definition decodeHeartbeat :: "wire_codec \<Rightarrow> bytes \<Rightarrow> heartbeat option" where
  "decodeHeartbeat W b = (case StrictDecode (wcDecode W KHeartbeat b) of Inr (MHeartbeat h) \<Rightarrow> Some h | _ \<Rightarrow> None)"

definition decodeResult :: "wire_codec \<Rightarrow> bytes \<Rightarrow> command_result option" where
  "decodeResult W b = (case StrictDecode (wcDecode W KResult b) of Inr (MCommandResult r) \<Rightarrow> Some r | _ \<Rightarrow> None)"

subsection \<open>Opening a session\<close>

text \<open>Everything up to the registration; \<open>raw\<close> are the random bytes of the session identifier, if they could be read.\<close>

definition acceptHello ::
    "'m control_server \<Rightarrow> request_identity \<Rightarrow> inbound \<Rightarrow> bytes option \<Rightarrow> 'm panel_world \<Rightarrow> control_session option \<times> 'm panel_world" where
  "acceptHello S i ev raw w =
     (if \<not> pcHub S then (None, w)
      else case ev of
        Received True body \<Rightarrow>
          (case decodeHello (pcCodec S) body of
             None \<Rightarrow> (None, w)
           | Some h \<Rightarrow>
               if \<not> validHello h i then (None, w)
               else (case raw of
                 None \<Rightarrow> (None, w)
               | Some raw \<Rightarrow>
                   let sessionID = randomUUID raw;
                       (err, hub) = Register (idAgentID i) \<lparr>hsID = sessionID, hsCapacity = hbQueueSize (pwHub w), hsQueue = []\<rparr> (pwHub w)
                   in if err \<noteq> None then (None, w\<lparr>pwHub := hub\<rparr>)
                      else (Some \<lparr>kID = sessionID, kIdentity = i, kHello = h, kReason = ''closed'', kWindow = 0, kMessages = 0,
                                   kNow = 0, kStage = Registered\<rparr>, w\<lparr>pwHub := hub\<rparr>)))
      | _ \<Rightarrow> (None, w))"

definition own_row :: "control_session \<Rightarrow> connection_row \<Rightarrow> bool" where
  "own_row k r \<longleftrightarrow> cnAgentID r = idAgentID (kIdentity k) \<and> cnSerial r = idSerial (kIdentity k)"

definition leave_with :: "bytes \<Rightarrow> control_session \<Rightarrow> control_session" where
  "leave_with reason k = k\<lparr>kReason := reason, kStage := Leaving\<rparr>"

definition connectSession :: "int \<Rightarrow> control_session \<Rightarrow> 'm panel_world \<Rightarrow> control_session \<times> 'm panel_world" where
  "connectSession now k w =
     (let (ok, w) = exec_sql w; h = kHello k; t = now div second in
      if \<not> ok then (leave_with ''db_error'' k, w)
      else (k\<lparr>kNow := t, kStage := Connected\<rparr>,
            w\<lparr>pwRows := map (\<lambda>r. if own_row k r
               then r\<lparr>cnConnectedAt := t, cnHeartbeatAt := t, cnReason := [], cnVersion := hAgentVersion h, cnOS := hOS h, cnArch := hArch h,
                      cnCapabilities := hCapabilities h, cnBootID := hBootID h, cnUpdatedAt := t\<rparr>
               else r) (pwRows w)\<rparr>))"

definition welcomeFor :: "'m control_server \<Rightarrow> control_session \<Rightarrow> welcome_msg" where
  "welcomeFor S k =
     \<lparr>wControlVersion = Version, wType = ''welcome'', wSessionID = kID k, wServerTime = word_of_int (kNow k),
      wHeartbeatSeconds = HeartbeatInterval div second, wOfflineSeconds = OfflineTimeout div second,
      wMaxMessageBytes = int MaxMessageBytes, wPanelVersion = pcVersion S, wAgentVersion = hAgentVersion (kHello k),
      wBootID = hBootID (kHello k), wNextSequence = 0\<rparr>"

definition sendWelcome :: "bool \<Rightarrow> control_session \<Rightarrow> control_session" where
  "sendWelcome written k = (if written then k\<lparr>kStage := Welcomed\<rparr> else leave_with ''welcome_failed'' k)"

definition dispatchSession :: "'m control_server \<Rightarrow> int \<Rightarrow> control_session \<Rightarrow> 'm panel_world \<Rightarrow> control_session \<times> 'm panel_world" where
  "dispatchSession S now k w =
     (let serving = k\<lparr>kWindow := now, kMessages := 0, kStage := Serving\<rparr> in
      if \<not> pcDispatcher S then (serving, w)
      else
        let (err, st, hub) = DispatchAgent Send (pcEncode S) (pcValid S) (idAgentID (kIdentity k)) (word_of_int (now div second)) (pwStore w) (pwHub w);
            w = w\<lparr>pwStore := st, pwHub := hub\<rparr>
        in if err \<noteq> None then (leave_with ''dispatch_failed'' k, w) else (serving, w))"

subsection \<open>One message\<close>

definition takeHeartbeat :: "'m control_server \<Rightarrow> bytes \<Rightarrow> int \<Rightarrow> control_session \<Rightarrow> 'm panel_world \<Rightarrow> control_session \<times> 'm panel_world" where
  "takeHeartbeat S body now k w =
     (case decodeHeartbeat (pcCodec S) body of
        None \<Rightarrow> (leave_with ''invalid_heartbeat'' k, w)
      | Some b \<Rightarrow>
          if \<not> validHeartbeat b then (leave_with ''invalid_heartbeat'' k, w)
          else
            let t = now div second; (ok, w) = exec_sql w in
            if \<not> ok then (leave_with ''db_error'' k, w)
            else
              let live = (\<lambda>r. own_row k r \<and> cnRevokedAt r = 0);
                  w' = w\<lparr>pwRows := map (\<lambda>r. if live r
                         then r\<lparr>cnHeartbeatAt := t, cnVersion := bAgentVersion b, cnUpdatedAt := t\<rparr> else r) (pwRows w)\<rparr>
              in if length (filter live (pwRows w)) \<noteq> 1 then (leave_with ''revoked'' k, w') else (k, w'))"

definition takeResult :: "'m control_server \<Rightarrow> bytes \<Rightarrow> int \<Rightarrow> control_session \<Rightarrow> 'm panel_world \<Rightarrow> control_session \<times> 'm panel_world" where
  "takeResult S body now k w =
     (if \<not> pcStore S then (leave_with ''command_store_unavailable'' k, w)
      else case decodeResult (pcCodec S) body of
        None \<Rightarrow> (leave_with ''invalid_command_result'' k, w)
      | Some r \<Rightarrow>
          let (err, st) = ApplyAgentResult (pcValid S) (idAgentID (kIdentity k)) r (word_of_int (now div second)) (pwStore w);
              w = w\<lparr>pwStore := st\<rparr>
          in if err \<noteq> None then (leave_with ''invalid_command_result'' k, w) else (k, w))"

definition countMessage :: "int \<Rightarrow> control_session \<Rightarrow> control_session" where
  "countMessage now k =
     (let k = (if minute \<le> now - kWindow k then k\<lparr>kWindow := now, kMessages := 0\<rparr> else k) in k\<lparr>kMessages := kMessages k + 1\<rparr>)"

text \<open>One pass of the loop; \<open>writer\<close> is what \<open>writerDone\<close> holds after the message, \<open>Some True\<close> an error.\<close>

definition handleMessage :: "'m control_server \<Rightarrow> bytes \<Rightarrow> int \<Rightarrow> control_session \<Rightarrow> 'm panel_world \<Rightarrow> control_session \<times> 'm panel_world" where
  "handleMessage S body now k w =
     (case wcType (pcCodec S) body of
        None \<Rightarrow> (leave_with ''invalid_message'' k, w)
      | Some t \<Rightarrow>
          if t = ''heartbeat'' then takeHeartbeat S body now k w
          else if t = ''command_result'' then takeResult S body now k w
          else (leave_with ''invalid_message'' k, w))"

definition checkWriter :: "bool option \<Rightarrow> control_session \<Rightarrow> control_session" where
  "checkWriter writer k =
     (if kStage k \<noteq> Serving then k
      else case writer of
        None \<Rightarrow> k
      | Some failed \<Rightarrow> leave_with (if failed then ''write_failed'' else kReason k) k)"

definition receive ::
    "'m control_server \<Rightarrow> inbound \<Rightarrow> int \<Rightarrow> bool option \<Rightarrow> control_session \<Rightarrow> 'm panel_world \<Rightarrow> control_session \<times> 'm panel_world" where
  "receive S ev now writer k w =
     (case ev of
        ReadTimeout \<Rightarrow> (leave_with ''heartbeat_timeout'' k, w)
      | ReadFailed \<Rightarrow> (leave_with ''transport_closed'' k, w)
      | Received text body \<Rightarrow>
          if \<not> text then (leave_with ''invalid_message_type'' k, w)
          else
            let k = countMessage now k in
            if pcMessageRate S < kMessages k then (leave_with ''rate_limited'' k, w)
            else let (k, w) = handleMessage S body now k w in (checkWriter writer k, w))"

subsection \<open>Leaving\<close>

definition unregisterSession :: "control_session \<Rightarrow> 'm panel_world \<Rightarrow> control_session \<times> 'm panel_world" where
  "unregisterSession k w =
     (k\<lparr>kStage := Recording\<rparr>, w\<lparr>pwHub := Unregister (idAgentID (kIdentity k)) (kID k) (pwHub w)\<rparr>)"

text \<open>\<open>webSocketSession.Reason\<close>: the first reason \<open>Close\<close> was called with, if it was called with a text.\<close>

definition sessionReason :: "bytes \<Rightarrow> (bytes \<times> bytes) list \<Rightarrow> bytes \<Rightarrow> bytes" where
  "sessionReason sid closed fallback =
     (case map_of closed sid of None \<Rightarrow> fallback | Some reason \<Rightarrow> if reason \<noteq> [] then reason else fallback)"

definition recordDisconnect :: "int \<Rightarrow> control_session \<Rightarrow> 'm panel_world \<Rightarrow> 'm panel_world" where
  "recordDisconnect now k w =
     (let (ok, w) = exec_sql w; t = now div second in
      if \<not> ok then w
      else w\<lparr>pwRows := map (\<lambda>r. if own_row k r
             then r\<lparr>cnDisconnectedAt := t, cnReason := sessionReason (kID k) (hbClosed (pwHub w)) (kReason k), cnUpdatedAt := t\<rparr>
             else r) (pwRows w)\<rparr>)"

subsection \<open>The writer\<close>

text \<open>Taking one message of the outbound channel of a registered session.\<close>

definition takeOutbound :: "bytes \<Rightarrow> bytes \<Rightarrow> 'm hub \<Rightarrow> 'm option \<times> 'm hub" where
  "takeOutbound agentID sid h =
     (case map_of (hbSessions h) agentID of
        None \<Rightarrow> (None, h)
      | Some s \<Rightarrow>
          if hsID s \<noteq> sid then (None, h)
          else (case hsQueue s of
            [] \<Rightarrow> (None, h)
          | m # ms \<Rightarrow> (Some m, h\<lparr>hbSessions := AList.update agentID (s\<lparr>hsQueue := ms\<rparr>) (hbSessions h)\<rparr>)))"

subsection \<open>All sessions of a Panel\<close>

text \<open>A new session identifier is random and not that of a running handler. Each rule is one atomic step; \<open>revoke_row\<close> and
  \<open>revoke_hub\<close> are the two halves of \<open>handleRevokeAgent\<close>, \<open>api_dispatch\<close> the delivery after a new command, and \<open>store_change\<close> any
  operation of the command store by another handler.\<close>

type_synonym 'm panel_sys = "'m panel_world \<times> control_session list"

definition put_session :: "control_session \<Rightarrow> control_session list \<Rightarrow> control_session list" where
  "put_session k ks = map (\<lambda>x. if kID x = kID k then k else x) ks"

inductive panel_step :: "'m control_server \<Rightarrow> 'm panel_sys \<Rightarrow> 'm panel_sys \<Rightarrow> bool" for S where
  ps_accept: "acceptHello S i ev raw w = (Some k, w') \<Longrightarrow> kID k \<notin> kID ` set ks \<Longrightarrow> panel_step S (w, ks) (w', k # ks)"
| ps_refuse: "acceptHello S i ev raw w = (None, w') \<Longrightarrow> panel_step S (w, ks) (w', ks)"
| ps_connect: "k \<in> set ks \<Longrightarrow> kStage k = Registered \<Longrightarrow> connectSession now k w = (k', w') \<Longrightarrow> panel_step S (w, ks) (w', put_session k' ks)"
| ps_welcome: "k \<in> set ks \<Longrightarrow> kStage k = Connected \<Longrightarrow> panel_step S (w, ks) (w, put_session (sendWelcome written k) ks)"
| ps_dispatch: "k \<in> set ks \<Longrightarrow> kStage k = Welcomed \<Longrightarrow> dispatchSession S now k w = (k', w') \<Longrightarrow> panel_step S (w, ks) (w', put_session k' ks)"
| ps_receive: "k \<in> set ks \<Longrightarrow> kStage k = Serving \<Longrightarrow> receive S ev now writer k w = (k', w') \<Longrightarrow> panel_step S (w, ks) (w', put_session k' ks)"
| ps_unregister: "k \<in> set ks \<Longrightarrow> kStage k = Leaving \<Longrightarrow> unregisterSession k w = (k', w') \<Longrightarrow> panel_step S (w, ks) (w', put_session k' ks)"
| ps_record: "k \<in> set ks \<Longrightarrow> kStage k = Recording \<Longrightarrow> panel_step S (w, ks) (recordDisconnect now k w, filter (\<lambda>x. kID x \<noteq> kID k) ks)"
| ps_write: "takeOutbound a sid (pwHub w) = (m, h) \<Longrightarrow> panel_step S (w, ks) (w\<lparr>pwHub := h\<rparr>, ks)"
| ps_revoke_row: "panel_step S (w, ks) (w\<lparr>pwRows := map (\<lambda>r. if cnAgentID r = a \<and> cnRevokedAt r = 0 then r\<lparr>cnRevokedAt := t\<rparr> else r) (pwRows w)\<rparr>, ks)"
| ps_revoke_hub: "Disconnect a ''revoked'' (pwHub w) = (b, h) \<Longrightarrow> panel_step S (w, ks) (w\<lparr>pwHub := h\<rparr>, ks)"
| ps_api_dispatch: "DispatchAgent Send (pcEncode S) (pcValid S) a now (pwStore w) (pwHub w) = (err, st, h) \<Longrightarrow>
     panel_step S (w, ks) (w\<lparr>pwStore := st, pwHub := h\<rparr>, ks)"
| ps_store_change: "store_inv st \<Longrightarrow> panel_step S (w, ks) (w\<lparr>pwStore := st\<rparr>, ks)"

inductive panel_reachable :: "'m control_server \<Rightarrow> 'm panel_sys \<Rightarrow> 'm panel_sys \<Rightarrow> bool" for S x where
  panel_start: "panel_reachable S x x"
| panel_next: "panel_reachable S x y \<Longrightarrow> panel_step S y z \<Longrightarrow> panel_reachable S x z"

subsection \<open>The sessions of the hub\<close>

lemma Snapshot_map_of: "map_of (Snapshot h) = map_option hsID \<circ> map_of (hbSessions h)"
  by (simp add: Snapshot_def map_of_map)

lemma distinct_Snapshot: "hub_ok h \<Longrightarrow> distinct (map fst (Snapshot h))"
proof -
  have "map fst (Snapshot h) = map fst (hbSessions h)" by (auto simp: Snapshot_def)
  then show "hub_ok h \<Longrightarrow> ?thesis" by (simp add: hub_ok_def)
qed

lemma Snapshot_iff: "hub_ok h \<Longrightarrow> (a, i) \<in> set (Snapshot h) \<longleftrightarrow> (\<exists>s. map_of (hbSessions h) a = Some s \<and> hsID s = i)"
  using map_of_eq_Some_iff [OF distinct_Snapshot] by (auto simp: Snapshot_map_of simp flip: map_of_eq_Some_iff [OF distinct_Snapshot])

lemma Register_entries:
  assumes "hub_ok h" and "Register a s h = (e, h')" and "(b, i) \<in> set (Snapshot h')"
  shows "(b, i) \<in> set (Snapshot h) \<or> (e = None \<and> b = a \<and> i = hsID s)"
  using assms Register_ok [OF assms(1,2)]
  by (auto simp: Snapshot_iff Register_def Let_def update_conv split: if_splits option.splits)

lemma Unregister_entries:
  assumes "hub_ok h" and "(b, i) \<in> set (Snapshot (Unregister a j h))"
  shows "(b, i) \<in> set (Snapshot h) \<and> \<not> (b = a \<and> i = j)"
  using assms Unregister_ok [OF assms(1), of a j]
  by (auto simp: Snapshot_iff Unregister_def delete_conv split: option.splits if_splits)

lemma Disconnect_entries:
  assumes "hub_ok h" and "Disconnect a r h = (x, h')" and "(b, i) \<in> set (Snapshot h')"
  shows "(b, i) \<in> set (Snapshot h)"
  using assms Disconnect_ok [OF assms(1,2)]
  by (auto simp: Snapshot_iff Disconnect_def delete_conv split: option.splits if_splits)

lemma hub_entries_update:
  assumes "hub_ok h" and "map_of (hbSessions h) a = Some s" and "hsID s' = hsID s"
  shows "hub_ok (h\<lparr>hbSessions := AList.update a s' (hbSessions h)\<rparr>) \<and>
    set (Snapshot (h\<lparr>hbSessions := AList.update a s' (hbSessions h)\<rparr>)) = set (Snapshot h)"
proof -
  have "(a, s) \<in> set (hbSessions h)" using assms(2) by (rule map_of_SomeD)
  then have "a \<noteq> []" "hsID s \<noteq> []" using assms(1) by (auto simp: hub_ok_def)
  then have ok: "hub_ok (h\<lparr>hbSessions := AList.update a s' (hbSessions h)\<rparr>)" using assms hub_ok_update [of h a s'] by simp
  then show ?thesis using assms by (auto simp: Snapshot_iff update_conv split: if_splits)
qed

lemma Send_entries: "hub_ok h \<Longrightarrow> Send a m h = (e, h') \<Longrightarrow> hub_ok h' \<and> set (Snapshot h') = set (Snapshot h)"
  using hub_entries_update [of h a _ "_\<lparr>hsQueue := _\<rparr>"] by (fastforce simp: Send_def split: option.splits if_splits)

lemma takeOutbound_entries: "hub_ok h \<Longrightarrow> takeOutbound a sid h = (m, h') \<Longrightarrow> hub_ok h' \<and> set (Snapshot h') = set (Snapshot h)"
  using hub_entries_update [of h a _ "_\<lparr>hsQueue := _\<rparr>"]
  by (fastforce simp: takeOutbound_def split: option.splits if_splits list.splits)

lemma dispatch_entries:
  assumes "DispatchAgent Send encode jv a now st h = (err, st', h')" and "store_inv st" and "hub_ok h"
  shows "hub_ok h' \<and> set (Snapshot h') = set (Snapshot h) \<and> store_inv st'"
proof -
  let ?P = "\<lambda>x. hub_ok x \<and> set (Snapshot x) = set (Snapshot h)"
  have "?P s'" if "Send b m s = (e, s')" "?P s" for b m s e s' using Send_entries [OF _ that(1)] that(2) by simp
  from DispatchAgent_keeps [where P = ?P, OF this assms(1)] show ?thesis using assms(2,3) by simp
qed

subsection \<open>The invariant\<close>

definition session_ok :: "'m control_server \<Rightarrow> control_session \<Rightarrow> bool" where
  "session_ok S k \<longleftrightarrow> validHello (kHello k) (kIdentity k) \<and> (kStage k = Serving \<longrightarrow> 0 \<le> kMessages k \<and> kMessages k \<le> max 0 (pcMessageRate S))"

definition entry_live :: "control_session list \<Rightarrow> bytes \<Rightarrow> bytes \<Rightarrow> bool" where
  "entry_live ks a i \<longleftrightarrow> (\<exists>k\<in>set ks. kID k = i \<and> idAgentID (kIdentity k) = a \<and> kStage k \<noteq> Recording)"

definition panel_ok :: "'m control_server \<Rightarrow> 'm panel_sys \<Rightarrow> bool" where
  "panel_ok S x \<longleftrightarrow>
     hub_ok (pwHub (fst x)) \<and> store_inv (pwStore (fst x)) \<and> distinct (map kID (snd x)) \<and> (\<forall>k\<in>set (snd x). session_ok S k) \<and>
     (\<forall>(a, i)\<in>set (Snapshot (pwHub (fst x))). entry_live (snd x) a i)"

text \<open>What a stage other than the cleanup keeps.\<close>

definition same_session :: "control_session \<Rightarrow> control_session \<Rightarrow> bool" where
  "same_session k k' \<longleftrightarrow> kID k' = kID k \<and> kIdentity k' = kIdentity k \<and> kHello k' = kHello k"

lemma leave_same [simp]: "same_session k (leave_with r k)" "kStage (leave_with r k) = Leaving" "kReason (leave_with r k) = r"
  by (simp_all add: same_session_def leave_with_def)

lemma same_session_refl [simp]: "same_session k k"
  by (simp add: same_session_def)

lemma exec_sql_frame [simp]:
  "pwHub (snd (exec_sql w)) = pwHub w" "pwStore (snd (exec_sql w)) = pwStore w" "pwRows (snd (exec_sql w)) = pwRows w"
  by (auto simp: exec_sql_def split: list.split)

lemma exec_sql_cases:
  obtains ok w1 where "exec_sql w = (ok, w1)" "pwHub w1 = pwHub w" "pwStore w1 = pwStore w" "pwRows w1 = pwRows w"
  using exec_sql_frame [of w] by (metis surj_pair fst_conv snd_conv)

lemma connectSession_frame:
  assumes "connectSession now k w = (k', w')"
  shows "same_session k k' \<and> kStage k' \<in> {Connected, Leaving} \<and> pwHub w' = pwHub w \<and> pwStore w' = pwStore w"
proof -
  obtain ok w1 where e: "exec_sql w = (ok, w1)" "pwHub w1 = pwHub w" "pwStore w1 = pwStore w" by (rule exec_sql_cases)
  show ?thesis using assms e by (cases ok) (auto simp: connectSession_def Let_def same_session_def leave_with_def)
qed

lemma sendWelcome_frame: "same_session k (sendWelcome b k) \<and> kStage (sendWelcome b k) \<in> {Welcomed, Leaving}"
  by (simp add: sendWelcome_def same_session_def leave_with_def)

lemma dispatchSession_frame:
  assumes "dispatchSession S now k w = (k', w')" and "store_inv (pwStore w)" and "hub_ok (pwHub w)"
  shows "same_session k k' \<and> kStage k' \<in> {Serving, Leaving} \<and> (kStage k' = Serving \<longrightarrow> kMessages k' = 0) \<and>
    hub_ok (pwHub w') \<and> set (Snapshot (pwHub w')) = set (Snapshot (pwHub w)) \<and> store_inv (pwStore w')"
proof (cases "pcDispatcher S")
  case True
  obtain err st h where d: "DispatchAgent Send (pcEncode S) (pcValid S) (idAgentID (kIdentity k)) (word_of_int (now div second)) (pwStore w) (pwHub w) = (err, st, h)"
    by (metis prod_cases3)
  note f = dispatch_entries [OF d assms(2,3)]
  show ?thesis
  proof (cases err)
    case None
    then have "k' = k\<lparr>kWindow := now, kMessages := 0, kStage := Serving\<rparr>" "w' = w\<lparr>pwStore := st, pwHub := h\<rparr>"
      using assms(1) True by (simp_all add: dispatchSession_def d Let_def)
    then show ?thesis using f by (simp add: same_session_def)
  next
    case (Some e)
    then have "k' = leave_with ''dispatch_failed'' k" "w' = w\<lparr>pwStore := st, pwHub := h\<rparr>"
      using assms(1) True by (simp_all add: dispatchSession_def d Let_def)
    then show ?thesis using f by simp
  qed
next
  case False
  then show ?thesis using assms by (auto simp: dispatchSession_def Let_def same_session_def)
qed

lemma takeHeartbeat_frame:
  assumes "takeHeartbeat S body now k w = (k', w')"
  shows "same_session k k' \<and> (k' = k \<or> kStage k' = Leaving) \<and> pwHub w' = pwHub w \<and> pwStore w' = pwStore w"
proof -
  obtain ok w1 where e: "exec_sql w = (ok, w1)" "pwHub w1 = pwHub w" "pwStore w1 = pwStore w" by (rule exec_sql_cases)
  show ?thesis using assms e by (auto simp: takeHeartbeat_def Let_def split: option.splits if_splits)
qed

lemma takeResult_frame:
  assumes "takeResult S body now k w = (k', w')" and "store_inv (pwStore w)"
  shows "same_session k k' \<and> (k' = k \<or> kStage k' = Leaving) \<and> pwHub w' = pwHub w \<and> pwRows w' = pwRows w \<and> store_inv (pwStore w') \<and>
    foreign_rows (idAgentID (kIdentity k)) (pwStore w') = foreign_rows (idAgentID (kIdentity k)) (pwStore w)"
proof (cases "pcStore S \<and> decodeResult (pcCodec S) body \<noteq> None")
  case True
  then obtain r where r: "pcStore S" "decodeResult (pcCodec S) body = Some r" by auto
  obtain err st where a: "ApplyAgentResult (pcValid S) (idAgentID (kIdentity k)) r (word_of_int (now div second)) (pwStore w) = (err, st)"
    by (metis surj_pair)
  show ?thesis
    using assms r a ApplyAgentResult_inv [OF a assms(2)] ApplyAgentResult_foreign [OF a assms(2)]
    by (auto simp: takeResult_def Let_def split: if_splits)
next
  case False
  then show ?thesis using assms by (auto simp: takeResult_def Let_def split: option.splits if_splits)
qed

lemma handleMessage_frame:
  assumes "handleMessage S body now k w = (k', w')" and "store_inv (pwStore w)"
  shows "same_session k k' \<and> (k' = k \<or> kStage k' = Leaving) \<and> pwHub w' = pwHub w \<and> store_inv (pwStore w') \<and>
    foreign_rows (idAgentID (kIdentity k)) (pwStore w') = foreign_rows (idAgentID (kIdentity k)) (pwStore w)"
  using assms takeHeartbeat_frame [of S body now k w k' w'] takeResult_frame [of S body now k w k' w']
  by (auto simp: handleMessage_def split: option.splits if_splits)

lemma countMessage_frame [simp]:
  "same_session k (countMessage now k)" "kStage (countMessage now k) = kStage k" "kIdentity (countMessage now k) = kIdentity k"
  "kReason (countMessage now k) = kReason k"
  by (simp_all add: countMessage_def Let_def same_session_def)

lemma countMessage_pos: "0 \<le> kMessages k \<Longrightarrow> 0 < kMessages (countMessage now k)"
  by (simp add: countMessage_def Let_def)

lemma checkWriter_frame: "same_session k (checkWriter w k) \<and> (checkWriter w k = k \<or> kStage (checkWriter w k) = Leaving)"
  by (simp add: checkWriter_def split: option.split)

lemma same_session_trans: "same_session a b \<Longrightarrow> same_session b c \<Longrightarrow> same_session a c"
  by (simp add: same_session_def)

lemma receive_frame:
  assumes "receive S ev now writer k w = (k', w')" and "store_inv (pwStore w)" and "kStage k = Serving" and "session_ok S k"
  shows "same_session k k' \<and> kStage k' \<in> {Serving, Leaving} \<and> session_ok S k' \<and> pwHub w' = pwHub w \<and> store_inv (pwStore w') \<and>
    foreign_rows (idAgentID (kIdentity k)) (pwStore w') = foreign_rows (idAgentID (kIdentity k)) (pwStore w)"
proof -
  have ok: "session_ok S k'" if "same_session k k'" "kStage k' = Leaving" for k'
    using assms(4) that by (simp add: session_ok_def same_session_def)
  have stop: ?thesis if "k' = leave_with r k1" "same_session k k1" "w' = w" for r k1
    using that ok [of "leave_with r k1"] assms(2) same_session_trans [of k k1] by simp
  show ?thesis
  proof (cases ev)
    case (Received t body)
    let ?c = "countMessage now k"
    show ?thesis
    proof (cases "t \<and> kMessages ?c \<le> pcMessageRate S")
      case True
      obtain k1 w1 where h: "handleMessage S body now ?c w = (k1, w1)" by (metis surj_pair)
      have r: "k' = checkWriter writer k1" "w' = w1" using assms(1) Received True h by (auto simp: receive_def Let_def)
      note f = handleMessage_frame [OF h assms(2)]
      have c_ok: "session_ok S ?c"
        using assms(3,4) True countMessage_pos [of k now] countMessage_frame(1) [of k now] by (auto simp: session_ok_def same_session_def)
      have s: "same_session k k'"
        using f r(1) checkWriter_frame [of k1 writer] countMessage_frame(1) [of k now] by (metis same_session_trans)
      have "k' = ?c \<or> kStage k' = Leaving" using f r(1) checkWriter_frame [of k1 writer] by metis
      then show ?thesis using s ok [OF s] c_ok f r(2) assms(3) by auto
    next
      case False
      then show ?thesis using stop assms(1) Received by (cases t) (auto simp: receive_def Let_def)
    qed
  qed (use stop assms(1) in \<open>auto simp: receive_def\<close>)
qed

lemma acceptHello_refused:
  assumes "acceptHello S i ev raw w = (None, w')" and "hub_ok (pwHub w)"
  shows "hub_ok (pwHub w') \<and> set (Snapshot (pwHub w')) \<subseteq> set (Snapshot (pwHub w)) \<and> pwStore w' = pwStore w \<and> pwRows w' = pwRows w"
proof (cases "w' = w")
  case False
  then obtain t where t: "raw = Some t" using assms(1) by (auto simp: acceptHello_def split: if_splits inbound.splits bool.splits option.splits)
  let ?s = "\<lparr>hsID = randomUUID t, hsCapacity = hbQueueSize (pwHub w), hsQueue = []\<rparr>"
  obtain e h where r: "Register (idAgentID i) ?s (pwHub w) = (e, h)" by (metis surj_pair)
  have "e \<noteq> None" "w' = w\<lparr>pwHub := h\<rparr>"
    using assms(1) False t r by (auto simp: acceptHello_def Let_def split: if_splits inbound.splits bool.splits option.splits)
  then show ?thesis using Register_ok [OF assms(2) r] Register_entries [OF assms(2) r] by auto
qed (use assms in simp)

lemma acceptHello_accepted:
  assumes "acceptHello S i ev raw w = (Some k, w')"
  obtains t body h hub where "pcHub S" "ev = Received True body" "decodeHello (pcCodec S) body = Some h" "validHello h i" "raw = Some t"
    "k = \<lparr>kID = randomUUID t, kIdentity = i, kHello = h, kReason = ''closed'', kWindow = 0, kMessages = 0, kNow = 0, kStage = Registered\<rparr>"
    "Register (idAgentID i) \<lparr>hsID = randomUUID t, hsCapacity = hbQueueSize (pwHub w), hsQueue = []\<rparr> (pwHub w) = (None, hub)"
    "w' = w\<lparr>pwHub := hub\<rparr>"
proof -
  obtain body where 1: "pcHub S" "ev = Received True body"
    using assms by (auto simp: acceptHello_def split: if_splits inbound.splits bool.splits)
  obtain h t where 2: "decodeHello (pcCodec S) body = Some h" "validHello h i" "raw = Some t"
    using assms 1 by (auto simp: acceptHello_def split: if_splits option.splits)
  obtain e hub where r: "Register (idAgentID i) \<lparr>hsID = randomUUID t, hsCapacity = hbQueueSize (pwHub w), hsQueue = []\<rparr> (pwHub w) = (e, hub)"
    by (metis surj_pair)
  have "e = None" using assms 1 2 r by (cases e) (simp_all add: acceptHello_def)
  then show thesis using that [OF 1 2 _ r [unfolded \<open>e = None\<close>]] assms 1 2 r by (simp add: acceptHello_def)
qed

lemma put_session_simps [simp]:
  "map kID (put_session k ks) = map kID ks"
  by (auto simp: put_session_def)

lemma set_put_session: "distinct (map kID ks) \<Longrightarrow> k \<in> set ks \<Longrightarrow> kID k' = kID k \<Longrightarrow> set (put_session k' ks) = insert k' (set ks - {k})"
proof (intro set_eqI iffI)
  fix x assume d: "distinct (map kID ks)" "k \<in> set ks" "kID k' = kID k" and x: "x \<in> set (put_session k' ks)"
  then obtain y where y: "y \<in> set ks" "x = (if kID y = kID k' then k' else y)" by (auto simp: put_session_def)
  then show "x \<in> insert k' (set ks - {k})" using d by (auto simp: distinct_map inj_on_def)
next
  fix x assume d: "distinct (map kID ks)" "k \<in> set ks" "kID k' = kID k" and x: "x \<in> insert k' (set ks - {k})"
  show "x \<in> set (put_session k' ks)"
  proof (cases "x = k'")
    case True
    then show ?thesis using d by (auto simp: put_session_def image_iff intro!: bexI [of _ k])
  next
    case False
    then have "x \<in> set ks" "kID x \<noteq> kID k'" using d x by (auto simp: distinct_map inj_on_def)
    then show ?thesis by (auto simp: put_session_def image_iff intro!: bexI [of _ x])
  qed
qed

text \<open>A handler that advances to a stage before the last keeps every entry of the hub alive.\<close>

lemma put_session_ok:
  assumes ok: "panel_ok S (w, ks)" and k: "k \<in> set ks" and s: "same_session k k'" "session_ok S k'" "kStage k' \<noteq> Recording"
    and w: "hub_ok (pwHub w')" "set (Snapshot (pwHub w')) = set (Snapshot (pwHub w))" "store_inv (pwStore w')"
  shows "panel_ok S (w', put_session k' ks)"
proof -
  have d: "distinct (map kID ks)" and id: "kID k' = kID k" using ok s by (simp_all add: panel_ok_def same_session_def)
  note set = set_put_session [OF d k id]
  have "entry_live (put_session k' ks) a i" if "(a, i) \<in> set (Snapshot (pwHub w'))" for a i
  proof -
    have "entry_live ks a i" using ok that w(2) by (auto simp: panel_ok_def)
    then obtain x where x: "x \<in> set ks" "kID x = i" "idAgentID (kIdentity x) = a" "kStage x \<noteq> Recording" by (auto simp: entry_live_def)
    show ?thesis
    proof (cases "x = k")
      case True
      then show ?thesis using x s id unfolding entry_live_def set same_session_def by auto
    qed (use x in \<open>auto simp: entry_live_def set\<close>)
  qed
  then show ?thesis using ok s w by (auto simp: panel_ok_def set)
qed

lemma panel_ok_world:
  "panel_ok S (w, ks) \<Longrightarrow> hub_ok (pwHub w') \<Longrightarrow> set (Snapshot (pwHub w')) \<subseteq> set (Snapshot (pwHub w)) \<Longrightarrow> store_inv (pwStore w') \<Longrightarrow>
     panel_ok S (w', ks)"
  by (auto simp: panel_ok_def)

lemma same_session_ok: "session_ok S k \<Longrightarrow> same_session k k' \<Longrightarrow> kStage k' \<noteq> Serving \<Longrightarrow> session_ok S k'"
  by (simp add: session_ok_def same_session_def)

inductive_cases panel_stepE: "panel_step S x y"

lemma recordDisconnect_frame: "pwHub (recordDisconnect now k w) = pwHub w \<and> pwStore (recordDisconnect now k w) = pwStore w"
proof -
  obtain ok w1 where e: "exec_sql w = (ok, w1)" "pwHub w1 = pwHub w" "pwStore w1 = pwStore w" by (rule exec_sql_cases)
  then show ?thesis by (cases ok) (simp_all add: recordDisconnect_def Let_def)
qed

lemma panel_ok_step: "panel_step S x y \<Longrightarrow> panel_ok S x \<Longrightarrow> panel_ok S y"
proof (induction rule: panel_step.induct)
  case (ps_accept i ev raw w k w' ks)
  from ps_accept(1) show ?case
  proof (cases rule: acceptHello_accepted)
    case (1 t body h hub)
    have ok: "hub_ok (pwHub w)" using ps_accept(3) by (simp add: panel_ok_def)
    have "entry_live (k # ks) a j" if "(a, j) \<in> set (Snapshot hub)" for a j
      using Register_entries [OF ok 1(7) that] ps_accept(3) 1(6) by (fastforce simp: panel_ok_def entry_live_def)
    moreover have "session_ok S k" using 1 by (simp add: session_ok_def)
    ultimately show ?thesis using ps_accept(2,3) Register_ok [OF ok 1(7)] 1(8) by (auto simp: panel_ok_def)
  qed
next
  case (ps_refuse i ev raw w w' ks)
  then show ?case using acceptHello_refused [OF ps_refuse(1)] panel_ok_world [of S w ks w'] by (simp add: panel_ok_def)
next
  case (ps_connect k ks now w k' w')
  then show ?case
    using connectSession_frame [OF ps_connect(3)]
    by (intro put_session_ok [of S w ks k k' w']) (auto simp: panel_ok_def intro: same_session_ok)
next
  case (ps_welcome k ks w written)
  then show ?case
    using sendWelcome_frame [of k written]
    by (intro put_session_ok [of S w ks k _ w]) (auto simp: panel_ok_def intro: same_session_ok)
next
  case (ps_dispatch k ks now w k' w')
  have inv: "store_inv (pwStore w)" "hub_ok (pwHub w)" "session_ok S k" using ps_dispatch by (auto simp: panel_ok_def)
  note f = dispatchSession_frame [OF ps_dispatch(3) inv(1,2)]
  have "session_ok S k'" using inv(3) f by (simp add: session_ok_def same_session_def)
  then show ?case using f ps_dispatch by (intro put_session_ok [of S w ks k k' w']) auto
next
  case (ps_receive k ks ev now writer w k' w')
  have inv: "store_inv (pwStore w)" "session_ok S k" "hub_ok (pwHub w)" using ps_receive by (auto simp: panel_ok_def)
  note f = receive_frame [OF ps_receive(3) inv(1) ps_receive(2) inv(2)]
  then show ?case using inv ps_receive by (intro put_session_ok [of S w ks k k' w']) auto
next
  case (ps_unregister k ks w k' w')
  have d: "distinct (map kID ks)" and ok: "hub_ok (pwHub w)" and so: "session_ok S k" using ps_unregister by (auto simp: panel_ok_def)
  have k': "k' = k\<lparr>kStage := Recording\<rparr>" "w' = w\<lparr>pwHub := Unregister (idAgentID (kIdentity k)) (kID k) (pwHub w)\<rparr>"
    using ps_unregister(3) by (simp_all add: unregisterSession_def)
  have id: "kID k' = kID k" using k' by simp
  note set = set_put_session [OF d ps_unregister(1) id]
  have "entry_live (put_session k' ks) a i" if e: "(a, i) \<in> set (Snapshot (pwHub w'))" for a i
  proof -
    have e': "(a, i) \<in> set (Snapshot (pwHub w))" "\<not> (a = idAgentID (kIdentity k) \<and> i = kID k)"
      using Unregister_entries [OF ok, of a i "idAgentID (kIdentity k)" "kID k"] e k' by auto
    then have "entry_live ks a i" using ps_unregister(4) by (auto simp: panel_ok_def)
    then show ?thesis using e'(2) unfolding entry_live_def set by auto
  qed
  moreover have "\<forall>x\<in>set (put_session k' ks). session_ok S x"
    using so k' ps_unregister(4) unfolding set by (auto simp: session_ok_def panel_ok_def)
  ultimately show ?case using ps_unregister(4) k' Unregister_ok [OF ok] by (auto simp: panel_ok_def)
next
  case (ps_record k ks w now)
  have "entry_live (filter (\<lambda>x. kID x \<noteq> kID k) ks) a i" if "entry_live ks a i" for a i
    using that ps_record by (auto simp: entry_live_def panel_ok_def distinct_map inj_on_def)
  then show ?case using ps_record recordDisconnect_frame [of now k w] by (auto simp: panel_ok_def distinct_map_filter)
next
  case (ps_write a sid w m h ks)
  then show ?case using takeOutbound_entries [OF _ ps_write(1)] panel_ok_world [of S w ks] by (simp add: panel_ok_def)
next
  case (ps_revoke_row w ks a t)
  then show ?case by (simp add: panel_ok_def)
next
  case (ps_revoke_hub a w b h ks)
  have ok: "hub_ok (pwHub w)" using ps_revoke_hub by (simp add: panel_ok_def)
  have "set (Snapshot h) \<subseteq> set (Snapshot (pwHub w))" using Disconnect_entries [OF ok ps_revoke_hub(1)] by auto
  then show ?case
    using panel_ok_world [OF ps_revoke_hub(2), of "w\<lparr>pwHub := h\<rparr>"] Disconnect_ok [OF ok ps_revoke_hub(1)] ps_revoke_hub(2)
    by (simp add: panel_ok_def)
next
  case (ps_api_dispatch a now w err st h ks)
  then show ?case using dispatch_entries [OF ps_api_dispatch(1)] by (simp add: panel_ok_def)
next
  case (ps_store_change st w ks)
  then show ?case by (simp add: panel_ok_def)
qed

lemma panel_ok_reachable: "panel_reachable S x y \<Longrightarrow> panel_ok S x \<Longrightarrow> panel_ok S y"
  by (induction rule: panel_reachable.induct) (auto intro: panel_ok_step)

subsection \<open>Properties\<close>

text \<open>Whatever sessions are opened, replaced, served, revoked and closed in any interleaving, the hub holds at most one session per
  Agent within its capacity, and each is that of a running handler that has not started its final database update, whose hello named the
  Agent and the node of its certificate; when a handler has ended nothing in the hub leads to it. No handler that serves has taken
  more messages in its window than the rate allows.\<close>

theorem hub_entries_are_live_sessions:
  assumes "panel_reachable S (w0, []) (w, ks)" and "hub_ok (pwHub w0)" and "hbSessions (pwHub w0) = []" and "store_inv (pwStore w0)"
  shows "hub_ok (pwHub w) \<and>
    (\<forall>a s. map_of (hbSessions (pwHub w)) a = Some s \<longrightarrow>
       (\<exists>!k. k \<in> set ks \<and> kID k = hsID s) \<and>
       (\<exists>k\<in>set ks. kID k = hsID s \<and> kStage k \<noteq> Recording \<and> idAgentID (kIdentity k) = a \<and>
          hAgentID (kHello k) = a \<and> hNodeID (kHello k) = idNodeID (kIdentity k))) \<and>
    (\<forall>k\<in>set ks. kStage k = Serving \<longrightarrow> kMessages k \<le> max 0 (pcMessageRate S))"
proof -
  have "panel_ok S (w0, [])" using assms(2-4) by (simp add: panel_ok_def Snapshot_def)
  with assms(1) have "panel_ok S (w, ks)" by (rule panel_ok_reachable)
  then have ok: "hub_ok (pwHub w)" "distinct (map kID ks)" "\<And>k. k \<in> set ks \<Longrightarrow> session_ok S k"
      "\<And>a i. (a, i) \<in> set (Snapshot (pwHub w)) \<Longrightarrow> entry_live ks a i" by (auto simp: panel_ok_def)
  have "\<exists>k\<in>set ks. kID k = hsID s \<and> kStage k \<noteq> Recording \<and> idAgentID (kIdentity k) = a \<and>
          hAgentID (kHello k) = a \<and> hNodeID (kHello k) = idNodeID (kIdentity k)" if "map_of (hbSessions (pwHub w)) a = Some s" for a s
    using ok(3) ok(4) [of a "hsID s"] that by (auto simp: Snapshot_iff [OF ok(1)] entry_live_def session_ok_def validHello_def)
  moreover have "x = y" if "x \<in> set ks" "y \<in> set ks" "kID x = kID y" for x y
    using ok(2) that by (auto simp: distinct_map inj_on_def)
  ultimately show ?thesis using ok by (fastforce simp: session_ok_def)
qed

lemma takeHeartbeat_serving:
  assumes "takeHeartbeat S body now k w = (k', w')" and "kStage k = Serving"
  shows "(kStage k' = Serving \<longleftrightarrow> (\<exists>b. decodeHeartbeat (pcCodec S) body = Some b \<and> validHeartbeat b) \<and> fst (exec_sql w) \<and>
       length (filter (\<lambda>r. own_row k r \<and> cnRevokedAt r = 0) (pwRows w)) = 1) \<and>
    filter (\<lambda>r. \<not> own_row k r) (pwRows w') = filter (\<lambda>r. \<not> own_row k r) (pwRows w)"
proof -
  obtain ok w1 where e: "exec_sql w = (ok, w1)" "pwRows w1 = pwRows w" by (rule exec_sql_cases)
  have keep: "filter (\<lambda>r. \<not> own_row k r) (map (\<lambda>r. if own_row k r \<and> cnRevokedAt r = 0
      then r\<lparr>cnHeartbeatAt := t, cnVersion := v, cnUpdatedAt := t\<rparr> else r) xs) = filter (\<lambda>r. \<not> own_row k r) xs" for t v xs
    by (induction xs) (auto simp: own_row_def)
  have lv: "kStage (leave_with r k) \<noteq> Serving" for r by simp
  consider (bad) "\<not> (\<exists>b. decodeHeartbeat (pcCodec S) body = Some b \<and> validHeartbeat b)"
    | (good) b where "decodeHeartbeat (pcCodec S) body = Some b" "validHeartbeat b" by blast
  then show ?thesis
  proof cases
    case bad
    then have "k' = leave_with ''invalid_heartbeat'' k" "w' = w"
      using assms(1) by (auto simp: takeHeartbeat_def split: option.splits if_splits)
    then show ?thesis using bad lv by simp
  next
    case good
    show ?thesis
    proof (cases ok)
      case True
      let ?w = "w1\<lparr>pwRows := map (\<lambda>r. if own_row k r \<and> cnRevokedAt r = 0
        then r\<lparr>cnHeartbeatAt := now div second, cnVersion := bAgentVersion b, cnUpdatedAt := now div second\<rparr> else r) (pwRows w1)\<rparr>"
      have "w' = ?w" "k' = (if length (filter (\<lambda>r. own_row k r \<and> cnRevokedAt r = 0) (pwRows w)) \<noteq> 1 then leave_with ''revoked'' k else k)"
        using assms(1) True good e by (auto simp: takeHeartbeat_def Let_def split: if_splits)
      then show ?thesis using True assms(2) good e lv by (simp add: keep)
    next
      case False
      then have "k' = leave_with ''db_error'' k" "w' = w1" using assms(1) good e by (simp_all add: takeHeartbeat_def Let_def)
      then show ?thesis using False e lv by simp
    qed
  qed
qed

lemma takeResult_serving:
  assumes "takeResult S body now k w = (k', w')" and "kStage k = Serving"
  shows "(kStage k' = Serving \<longleftrightarrow> pcStore S \<and> (\<exists>r. decodeResult (pcCodec S) body = Some r \<and>
       fst (ApplyAgentResult (pcValid S) (idAgentID (kIdentity k)) r (word_of_int (now div second)) (pwStore w)) = None)) \<and> pwRows w' = pwRows w"
  using assms by (auto simp: takeResult_def Let_def split: if_splits option.splits prod.splits)

text \<open>What keeps a session open, exactly: a text message within the rate, while the writer runs, that is a valid heartbeat of an
  identity whose row is not revoked, or a result that the command store applies to a command of this Agent. Everything else, errors of
  the database included, ends it. No message touches the hub, another Agent's commands or another identity's row.\<close>

theorem receive_keeps_serving_iff:
  assumes "receive S ev now writer k w = (k', w')" and "kStage k = Serving" and "store_inv (pwStore w)" and "session_ok S k"
  shows "(kStage k' = Serving \<longleftrightarrow>
      (\<exists>body. ev = Received True body \<and> kMessages (countMessage now k) \<le> pcMessageRate S \<and> writer = None \<and>
         (wcType (pcCodec S) body = Some ''heartbeat'' \<and> (\<exists>b. decodeHeartbeat (pcCodec S) body = Some b \<and> validHeartbeat b) \<and>
            fst (exec_sql w) \<and> length (filter (\<lambda>r. own_row k r \<and> cnRevokedAt r = 0) (pwRows w)) = 1 \<or>
          wcType (pcCodec S) body = Some ''command_result'' \<and> pcStore S \<and>
            (\<exists>r. decodeResult (pcCodec S) body = Some r \<and>
               fst (ApplyAgentResult (pcValid S) (idAgentID (kIdentity k)) r (word_of_int (now div second)) (pwStore w)) = None)))) \<and>
    pwHub w' = pwHub w \<and> foreign_rows (idAgentID (kIdentity k)) (pwStore w') = foreign_rows (idAgentID (kIdentity k)) (pwStore w) \<and>
    filter (\<lambda>r. \<not> own_row k r) (pwRows w') = filter (\<lambda>r. \<not> own_row k r) (pwRows w)"
proof -
  note frame = receive_frame [OF assms(1,3,2,4)]
  let ?c = "countMessage now k"
  have own: "own_row ?c = own_row k" by (simp add: own_row_def fun_eq_iff)
  show ?thesis
  proof (cases "\<exists>body. ev = Received True body \<and> kMessages ?c \<le> pcMessageRate S")
    case False
    then have "kStage k' = Leaving" "w' = w"
      using assms(1) by (auto simp: receive_def Let_def split: inbound.splits if_splits)
    then show ?thesis using False by auto
  next
    case True
    then obtain body where b: "ev = Received True body" "kMessages ?c \<le> pcMessageRate S" by blast
    obtain k1 w1 where h: "handleMessage S body now ?c w = (k1, w1)" by (metis surj_pair)
    have r: "k' = checkWriter writer k1" "w' = w1" using assms(1) b h by (auto simp: receive_def Let_def)
    have s: "kStage k' = Serving \<longleftrightarrow> kStage k1 = Serving \<and> writer = None"
      unfolding r by (simp add: checkWriter_def split: option.split)
    have c: "kStage ?c = Serving" using assms(2) by simp
    consider (heart) "wcType (pcCodec S) body = Some ''heartbeat''" "takeHeartbeat S body now ?c w = (k1, w1)"
      | (res) "wcType (pcCodec S) body = Some ''command_result''" "takeResult S body now ?c w = (k1, w1)"
      | (other) "wcType (pcCodec S) body \<noteq> Some ''heartbeat''" "wcType (pcCodec S) body \<noteq> Some ''command_result''"
          "k1 = leave_with ''invalid_message'' ?c" "w1 = w"
      using h by (auto simp: handleMessage_def split: option.splits if_splits)
    then show ?thesis
    proof cases
      case heart
      have "wcType (pcCodec S) body \<noteq> Some ''command_result''" using heart(1) by simp
      then show ?thesis
        using takeHeartbeat_serving [OF heart(2) c, unfolded own] frame [THEN conjunct2, THEN conjunct2, THEN conjunct2] heart(1)
        unfolding s b(1) r(2) [symmetric] by (auto simp: b(2) simp del: One_nat_def)
    next
      case res
      have "wcType (pcCodec S) body \<noteq> Some ''heartbeat''" using res(1) by simp
      then show ?thesis
        using takeResult_serving [OF res(2) c] frame [THEN conjunct2, THEN conjunct2, THEN conjunct2] res(1)
        unfolding s b(1) r(2) [symmetric] by (auto simp: b(2) simp del: One_nat_def)
    next
      case other
      then show ?thesis using frame s b r(2) by auto
    qed
  qed
qed

subsection \<open>Replacement\<close>

lemma rows_of_session:
  "length (filter (own_row k) (map (\<lambda>r. if own_row k r then f r else r) rs)) = length (filter (own_row k) rs)" if "\<And>r. own_row k (f r) = own_row k r"
  using that by (induction rs) auto

text \<open>When an Agent reconnects before the Panel has noticed that its old connection is gone, the old handler's cleanup runs after the
  new session has been recorded, and its update has no condition on the session: the identity is left with a disconnection time and the
  reason replaced although the hub holds the new session.\<close>

theorem replaced_session_overwrites_successor:
  assumes "hub_ok (pwHub w4)" and "SessionID (idAgentID (kIdentity k2)) (pwHub w4) = kID k2" and "kIdentity k1 = kIdentity k2"
    and "kID k1 \<noteq> kID k2" and "map_of (hbClosed (pwHub w4)) (kID k1) = Some ''replaced''" and "pwFaults w4 = []"
    and "receive S ReadFailed t writer k1 w4 = (k1', w5)" and "unregisterSession k1' w5 = (k1'', w6)"
    and "r \<in> set (pwRows w4)" and "own_row k2 r"
  shows "SessionID (idAgentID (kIdentity k2)) (pwHub (recordDisconnect t' k1'' w6)) = kID k2 \<and>
    r\<lparr>cnDisconnectedAt := t' div second, cnReason := ''replaced'', cnUpdatedAt := t' div second\<rparr> \<in> set (pwRows (recordDisconnect t' k1'' w6))"
proof -
  have 5: "k1' = leave_with ''transport_closed'' k1" "w5 = w4" using assms(7) by (simp_all add: receive_def)
  have 6: "k1'' = k1'\<lparr>kStage := Recording\<rparr>" "w6 = w4\<lparr>pwHub := Unregister (idAgentID (kIdentity k1)) (kID k1) (pwHub w4)\<rparr>"
    using assms(8) 5 by (simp_all add: unregisterSession_def leave_with_def)
  have hub: "pwHub w6 = pwHub w4"
    using assms(2-4) 6(2) by (auto simp: Unregister_def SessionID_def split: option.splits)
  have own: "own_row k1'' = own_row k2" using 5 6 assms(3) by (simp add: own_row_def fun_eq_iff leave_with_def)
  have id: "kID k1'' = kID k1" using 5 6 by (simp add: leave_with_def)
  have ex: "exec_sql w6 = (True, w6)" using assms(6) 6(2) by (simp add: exec_sql_def)
  have rows: "pwRows w6 = pwRows w4" using 6(2) by simp
  have "recordDisconnect t' k1'' w6 = w6\<lparr>pwRows := map (\<lambda>r. if own_row k2 r
      then r\<lparr>cnDisconnectedAt := t' div second, cnReason := ''replaced'', cnUpdatedAt := t' div second\<rparr> else r) (pwRows w4)\<rparr>"
    unfolding recordDisconnect_def ex Let_def prod.case own id hub rows by (simp add: sessionReason_def assms(5))
  moreover have "r\<lparr>cnDisconnectedAt := t' div second, cnReason := ''replaced'', cnUpdatedAt := t' div second\<rparr> \<in>
      (\<lambda>r. if own_row k2 r then r\<lparr>cnDisconnectedAt := t' div second, cnReason := ''replaced'', cnUpdatedAt := t' div second\<rparr> else r) ` set (pwRows w4)"
    by (rule image_eqI [OF _ assms(9)]) (simp add: assms(10))
  ultimately show ?thesis using assms(2) hub by simp
qed

subsection \<open>A creator who has logged out\<close>


subsection \<open>Concrete sessions\<close>

definition sample_identity :: request_identity where
  "sample_identity = \<lparr>idAgentID = ''a1'', idNodeID = ''n1'', idSerial = 7\<rparr>"

definition sample_hello :: hello where
  "sample_hello = \<lparr>hControlVersion = Version, hType = ''hello'', hAgentID = ''a1'', hNodeID = ''n1'', hAgentVersion = ''v1.0.0'', hOS = ''linux'',
     hArch = ''amd64'', hCapabilities = [CollectNow], hBootID = ''boot'', hHighestCompleted = 0\<rparr>"

text \<open>Bodies are recognised by their first letter.\<close>

definition sample_codec_of :: wire_codec where
  "sample_codec_of =
     \<lparr>wcType = (\<lambda>b. if b = ''r'' then Some ''command_result'' else None),
      wcDecode = (\<lambda>kind b. \<lparr>text_len = length b, text_doc =
        (if kind = KHello \<and> b = ''h'' then JsonDoc (MHello sample_hello)
         else if kind = KResult \<and> b = ''r'' then JsonDoc (MCommandResult sample_result) else JsonBad)\<rparr>)\<rparr>"

definition sample_panel :: "command control_server" where
  "sample_panel = \<lparr>pcHub = True, pcStore = True, pcDispatcher = True, pcMessageRate = 120, pcVersion = ''v1.0.0'', pcValid = (\<lambda>_. True),
     pcEncode = Some, pcCodec = sample_codec_of\<rparr>"

definition sample_connection :: connection_row where
  "sample_connection = \<lparr>cnAgentID = ''a1'', cnSerial = 7, cnRevokedAt = 0, cnConnectedAt = 0, cnHeartbeatAt = 0, cnDisconnectedAt = 0, cnReason = [],
     cnVersion = [], cnOS = [], cnArch = [], cnCapabilities = [], cnBootID = [], cnUpdatedAt = 0\<rparr>"

definition sample_world :: "command panel_world" where
  "sample_world = \<lparr>pwHub = NewHub 2 4, pwStore = delivered_store\<lparr>stSessions := []\<rparr>, pwRows = [sample_connection], pwFaults = []\<rparr>"

definition sample_handler :: "bytes \<Rightarrow> stage \<Rightarrow> control_session" where
  "sample_handler sid s = \<lparr>kID = sid, kIdentity = sample_identity, kHello = sample_hello, kReason = ''closed'', kWindow = 0, kMessages = 0, kNow = 0, kStage = s\<rparr>"

definition sample_raw :: bytes where "sample_raw = replicate 16 CHR ''x''"

lemma randomUUID_ne: "randomUUID t \<noteq> []"
  by (simp add: randomUUID_def Let_def)

lemma sample_decode: "decodeHello sample_codec_of ''h'' = Some sample_hello" "decodeResult sample_codec_of ''r'' = Some sample_result"
  by (simp_all add: decodeHello_def decodeResult_def StrictDecode_def sample_codec_of_def MaxMessageBytes_def validateHeader_def
      sample_hello_def sample_result_def Version_def validAction_def)

lemma sample_accepted:
  "acceptHello sample_panel sample_identity (Received True ''h'') (Some sample_raw) sample_world =
     (Some (sample_handler (randomUUID sample_raw) Registered),
      sample_world\<lparr>pwHub := (NewHub 2 4)\<lparr>hbSessions := [(''a1'', \<lparr>hsID = randomUUID sample_raw, hsCapacity = 4, hsQueue = []\<rparr>)]\<rparr>\<rparr>)"
proof -
  have "validHello sample_hello sample_identity" by (simp add: validHello_def sample_hello_def sample_identity_def)
  then show ?thesis
    using sample_decode randomUUID_ne [of sample_raw]
    by (simp add: acceptHello_def sample_panel_def sample_world_def Register_def NewHub_def sample_handler_def Let_def)
      (simp add: sample_identity_def)
qed

theorem hub_entries_are_live_sessions_witness:
  "\<exists>w ks k. panel_reachable sample_panel (sample_world, []) (w, ks) \<and> k \<in> set ks \<and> kID k = SessionID ''a1'' (pwHub w) \<and>
     IsOnline ''a1'' (pwHub w) \<and> hNodeID (kHello k) = ''n1''"
proof -
  let ?k = "sample_handler (randomUUID sample_raw) Registered"
  let ?w = "sample_world\<lparr>pwHub := (NewHub 2 4)\<lparr>hbSessions := [(''a1'', \<lparr>hsID = randomUUID sample_raw, hsCapacity = 4, hsQueue = []\<rparr>)]\<rparr>\<rparr>"
  have r: "panel_reachable sample_panel (sample_world, []) (?w, [?k])"
    by (rule panel_next [OF panel_start]) (rule ps_accept [OF sample_accepted], simp)
  have i: "hub_ok (pwHub sample_world)" "hbSessions (pwHub sample_world) = []" "store_inv (pwStore sample_world)"
    using delivered_store_inv(2) by (simp_all add: sample_world_def NewHub_def hub_ok_def)
  have m: "map_of (hbSessions (pwHub ?w)) ''a1'' = Some \<lparr>hsID = randomUUID sample_raw, hsCapacity = 4, hsQueue = []\<rparr>" by simp
  obtain k where k: "k \<in> set [?k]" "kID k = randomUUID sample_raw" "hNodeID (kHello k) = idNodeID (kIdentity k)"
    using hub_entries_are_live_sessions [OF r i, THEN conjunct2, THEN conjunct1, rule_format, OF m] by auto
  have "kID k = SessionID ''a1'' (pwHub ?w)" "IsOnline ''a1'' (pwHub ?w)" using k(2) by (simp_all add: SessionID_def IsOnline_def)
  moreover have "hNodeID (kHello k) = ''n1''" using k(1,3) by (simp add: sample_handler_def sample_identity_def)
  ultimately show ?thesis using r k(1) by blast
qed

theorem receive_keeps_serving_iff_witness:
  "kStage (fst (receive sample_panel (Received True ''x'') minute None (sample_handler ''s1'' Serving) sample_world)) \<noteq> Serving"
proof -
  obtain k' w' where r: "receive sample_panel (Received True ''x'') minute None (sample_handler ''s1'' Serving) sample_world = (k', w')"
    by (metis surj_pair)
  have "store_inv (pwStore sample_world)" "session_ok sample_panel (sample_handler ''s1'' Serving)" "kStage (sample_handler ''s1'' Serving) = Serving"
    using delivered_store_inv(2)
    by (simp_all add: sample_world_def session_ok_def sample_handler_def validHello_def sample_hello_def sample_identity_def sample_panel_def)
  note s = this(3,1,2)
  have "wcType (pcCodec sample_panel) ''x'' = None" by (simp add: sample_panel_def sample_codec_of_def)
  then have "kStage k' \<noteq> Serving" using receive_keeps_serving_iff [OF r s, THEN conjunct1] by simp
  then show ?thesis by (simp add: r)
qed

theorem replaced_session_overwrites_successor_witness:
  "\<exists>w :: command panel_world. SessionID ''a1'' (pwHub w) = ''new'' \<and> (\<exists>r\<in>set (pwRows w). cnReason r = ''replaced'' \<and> cnDisconnectedAt r = 9)"
proof -
  let ?h = "snd (Register ''a1'' \<lparr>hsID = ''new'', hsCapacity = 4, hsQueue = []\<rparr>
    ((NewHub 2 4)\<lparr>hbSessions := [(''a1'', \<lparr>hsID = ''old'', hsCapacity = 4, hsQueue = []\<rparr>)]\<rparr>))"
  let ?w = "sample_world\<lparr>pwHub := ?h\<rparr>"
  let ?k = "sample_handler ''old'' Serving"
  have h: "hub_ok ?h" "SessionID ''a1'' ?h = ''new''" "map_of (hbClosed ?h) ''old'' = Some ''replaced''"
    by (simp_all add: Register_def NewHub_def hub_ok_def SessionID_def)
  obtain k1 w1 where r: "receive sample_panel ReadFailed 0 None ?k ?w = (k1, w1)" by (metis surj_pair)
  obtain k2 w2 where u: "unregisterSession k1 w1 = (k2, w2)" by (metis surj_pair)
  have "SessionID ''a1'' (pwHub (recordDisconnect (9 * second) k2 w2)) = ''new'' \<and>
      sample_connection\<lparr>cnDisconnectedAt := 9, cnReason := ''replaced'', cnUpdatedAt := 9\<rparr> \<in> set (pwRows (recordDisconnect (9 * second) k2 w2))"
    using replaced_session_overwrites_successor [OF _ _ _ _ _ _ r u, of "sample_handler ''new'' Connected" sample_connection "9 * second"] h
    by (simp add: sample_handler_def sample_identity_def sample_world_def own_row_def sample_connection_def)
  then show ?thesis
    by (intro exI [of _ "recordDisconnect (9 * second) k2 w2"] conjI) (auto intro!: bexI [of _ "sample_connection\<lparr>cnDisconnectedAt := 9, cnReason := ''replaced'', cnUpdatedAt := 9\<rparr>"])
qed


end
