(* ===== verification/ControlClient.thy ===== *)
theory ControlClient
  imports AgentIdentity ControlSession
begin

text \<open>
  \<open>internal/agent/control.go\<close>: the Agent's end of the control channel, and its handshake with the Panel's handler. The connection is its
  events, the handler of commands and the random bytes are parameters, and JSON decoding is the codec of the Panel's theory with one
  more destination. Durations are nanoseconds.
\<close>

definition permanentControlRetry :: duration where "permanentControlRetry = 15 * minute"

subsection \<open>The client\<close>

record control_options =
  coPanelURL :: bytes
  coIdentity :: "identity option"
  coNodeID :: bytes
  coVersion :: bytes
  coCapabilities :: "action list"
  coHandles :: bool

record control_client =
  ctOptions :: control_options
  ctURL :: panel_url
  ctBootID :: bytes

text \<open>\<open>file\<close> is \<open>/proc/sys/kernel/random/boot_id\<close> if it can be read, \<open>random\<close> sixteen random bytes.\<close>

definition readBootID :: "bytes option \<Rightarrow> bytes option \<Rightarrow> bytes option" where
  "readBootID bootfile random =
     (let value = (case bootfile of None \<Rightarrow> [] | Some body \<Rightarrow> trim_space body) in
      if value \<noteq> [] \<and> length value \<le> 256 then Some value
      else map_option (\<lambda>r. ''process-'' @ hex_encode r) random)"

definition NewControlClient :: "identity_crypto \<Rightarrow> control_options \<Rightarrow> bytes option \<Rightarrow> bytes option \<Rightarrow> control_client option" where
  "NewControlClient E o' bootfile random =
     (case coIdentity o' of
        None \<Rightarrow> None
      | Some i \<Rightarrow>
          if iyAgentID i = [] \<or> coNodeID o' = [] then None
          else (case icParseURL E (coPanelURL o') of
            None \<Rightarrow> None
          | Some u \<Rightarrow>
              if puScheme u \<noteq> ''https'' \<or> puHostname u = [] then None
              else (case readBootID bootfile random of
                None \<Rightarrow> None
              | Some boot \<Rightarrow>
                  Some \<lparr>ctOptions = o',
                    ctURL = u\<lparr>puScheme := ''wss'', puPath := trim_right (puPath u) ''/'' @ ''/api/v1/agents/control'',
                              puRawPath := [], puRawQuery := [], puFragment := []\<rparr>,
                    ctBootID = boot\<rparr>)))"

text \<open>Truncating division of Go, as in \<open>time.Duration(percent)*base/100\<close>.\<close>

definition go_div :: "int \<Rightarrow> int \<Rightarrow> int" where
  "go_div a b = (if a < 0 then - (- a div b) else a div b)"

function backoff_loop :: "int \<Rightarrow> int \<Rightarrow> duration \<Rightarrow> duration" where
  "backoff_loop i failures base =
     (if i < failures \<and> base < 60 * second then backoff_loop (i + 1) failures (base * 2) else base)"
  by pat_completeness auto
termination by (relation "measure (\<lambda>(i, failures, base). nat (failures - i))") auto

declare backoff_loop.simps [simp del]

text \<open>\<open>random\<close> is one random byte.\<close>

definition transientControlDelay :: "int \<Rightarrow> nat \<Rightarrow> duration" where
  "transientControlDelay failures random =
     (let failures = (if failures < 1 then 1 else failures);
          base = backoff_loop 1 failures second;
          base = (if 60 * second < base then 60 * second else base);
          percent = int random mod 41 - 20
      in base + go_div (percent * base) 100)"

subsection \<open>The handshake\<close>

datatype session_end = Shutdown | Transient bytes | Permanent bytes

datatype dial_result = Dialed | DialFailed "int option"

definition clientHello :: "control_client \<Rightarrow> bytes \<Rightarrow> bytes \<Rightarrow> uint64 \<Rightarrow> hello" where
  "clientHello c os arch highest =
     \<lparr>hControlVersion = Version, hType = ''hello'',
      hAgentID = (case coIdentity (ctOptions c) of None \<Rightarrow> [] | Some i \<Rightarrow> iyAgentID i), hNodeID = coNodeID (ctOptions c),
      hAgentVersion = coVersion (ctOptions c), hOS = os, hArch = arch, hCapabilities = coCapabilities (ctOptions c),
      hBootID = ctBootID c, hHighestCompleted = highest\<rparr>"

definition validWelcome :: "welcome_msg \<Rightarrow> hello \<Rightarrow> bool" where
  "validWelcome w h \<longleftrightarrow>
     wSessionID w \<noteq> [] \<and> 0 < wHeartbeatSeconds w \<and> wHeartbeatSeconds w \<le> wOfflineSeconds w \<and>
     0 < wMaxMessageBytes w \<and> wMaxMessageBytes w \<le> int MaxMessageBytes \<and>
     wPanelVersion w \<noteq> [] \<and> length (wPanelVersion w) \<le> 128 \<and> wAgentVersion w = hAgentVersion h \<and> wBootID w = hBootID h"

definition decodeWelcome :: "(bytes \<Rightarrow> message json_text) \<Rightarrow> bytes \<Rightarrow> welcome_msg option" where
  "decodeWelcome read b = (case StrictDecode (read b) of Inr (MWelcome w) \<Rightarrow> Some w | _ \<Rightarrow> None)"

definition decodeCommand :: "(bytes \<Rightarrow> message json_text) \<Rightarrow> bytes \<Rightarrow> command option" where
  "decodeCommand read b = (case StrictDecode (read b) of Inr (MCommand c) \<Rightarrow> Some c | _ \<Rightarrow> None)"

text \<open>\<open>runSession\<close> up to the welcome; \<open>written\<close> tells whether the hello could be written.\<close>

definition clientHandshake ::
    "(bytes \<Rightarrow> message json_text) \<Rightarrow> hello \<Rightarrow> dial_result \<Rightarrow> bool \<Rightarrow> inbound \<Rightarrow> session_end + welcome_msg" where
  "clientHandshake read h dial written ev =
     (case dial of
        DialFailed status \<Rightarrow>
          if status = Some 401 \<or> status = Some 403 then Inl (Permanent ''control identity rejected'') else Inl (Transient ''dial control channel'')
      | Dialed \<Rightarrow>
          if \<not> written then Inl (Transient ''write control hello'')
          else (case ev of
            Received True body \<Rightarrow>
              (case decodeWelcome read body of
                 None \<Rightarrow> Inl (Permanent ''control welcome invalid'')
               | Some w \<Rightarrow> if \<not> validWelcome w h then Inl (Permanent ''control welcome invalid'') else Inr w)
          | _ \<Rightarrow> Inl (Permanent ''control welcome missing'')))"

subsection \<open>The session\<close>

text \<open>\<open>startCommandWorker\<close>: two channels and a goroutine that is idle, runs the handler, or holds a result for the second channel.\<close>

datatype work = Idle | Working command | Holding command_result

record client_session =
  csQueue :: "command list"
  csWork :: work
  csResults :: "command_result list"

definition workerQueueSize :: "int \<Rightarrow> nat" where
  "workerQueueSize n = (if n \<le> 0 \<or> 32 < n then 32 else nat n)"

definition newSession :: client_session where
  "newSession = \<lparr>csQueue = [], csWork = Idle, csResults = []\<rparr>"

datatype client_output = WroteResult command_result | WroteHeartbeat heartbeat | WrotePing

text \<open>The cases of the select statement; \<open>written\<close> tells whether the write it makes succeeds. The result is the end of the session, if it
  ends, the message written, if one was, and the session.\<close>

definition takeInbound ::
    "(bytes \<Rightarrow> message json_text) \<Rightarrow> bool \<Rightarrow> inbound \<Rightarrow> bool \<Rightarrow> client_session \<Rightarrow> session_end option \<times> client_output option \<times> client_session" where
  "takeInbound read handles ev written s =
     (case ev of
        ReadTimeout \<Rightarrow> (Some (Transient ''read control channel''), None, s)
      | ReadFailed \<Rightarrow> (Some (Transient ''read control channel''), None, s)
      | Received textual body \<Rightarrow>
          if \<not> textual then (Some (Permanent ''unsupported control message type''), None, s)
          else (case decodeCommand read body of
            None \<Rightarrow> (Some (Permanent ''invalid control command''), None, s)
          | Some c \<Rightarrow>
              if \<not> handles then (Some (Permanent ''control command executor unavailable''), None, s)
              else if length (csQueue s) < workerQueueSize 32 then (None, None, s\<lparr>csQueue := csQueue s @ [c]\<rparr>)
              else if written then (None, Some (WroteResult (failedCommandResult c ''command_backpressure'')), s)
              else (Some (Transient ''write command result''), None, s)))"

definition sendResult :: "bool \<Rightarrow> client_session \<Rightarrow> session_end option \<times> client_output option \<times> client_session" where
  "sendResult written s =
     (case csResults s of
        [] \<Rightarrow> (None, None, s)
      | r # rs \<Rightarrow>
          if written then (None, Some (WroteResult r), s\<lparr>csResults := rs\<rparr>) else (Some (Transient ''write command result''), None, s\<lparr>csResults := rs\<rparr>))"

definition clientHeartbeat :: "control_client \<Rightarrow> duration \<Rightarrow> int \<Rightarrow> bytes \<Rightarrow> bytes \<Rightarrow> heartbeat" where
  "clientHeartbeat c uptime depth code cid =
     \<lparr>bControlVersion = Version, bType = ''heartbeat'', bAgentVersion = coVersion (ctOptions c), bUptimeSeconds = word_of_int (uptime div second),
      bLastReportCode = code, bCurrentCommandID = cid, bOutboxDepth = depth\<rparr>"

definition sendHeartbeat :: "heartbeat \<Rightarrow> bool \<Rightarrow> client_session \<Rightarrow> session_end option \<times> client_output option \<times> client_session" where
  "sendHeartbeat b written s = (if written then (None, Some (WroteHeartbeat b), s) else (Some (Transient ''write control heartbeat''), None, s))"

definition sendPing :: "bool \<Rightarrow> client_session \<Rightarrow> session_end option \<times> client_output option \<times> client_session" where
  "sendPing answered s = (if answered then (None, Some WrotePing, s) else (Some (Transient ''control ping''), None, s))"

text \<open>The steps of the worker; \<open>handler\<close> is what executing a command returns.\<close>

definition workerTake :: "client_session \<Rightarrow> client_session" where
  "workerTake s = (case (csWork s, csQueue s) of (Idle, c # cs) \<Rightarrow> s\<lparr>csQueue := cs, csWork := Working c\<rparr> | _ \<Rightarrow> s)"

definition workerRun :: "(command \<Rightarrow> command_result) \<Rightarrow> client_session \<Rightarrow> client_session" where
  "workerRun handler s = (case csWork s of Working c \<Rightarrow> s\<lparr>csWork := Holding (handler c)\<rparr> | _ \<Rightarrow> s)"

definition workerPut :: "client_session \<Rightarrow> client_session" where
  "workerPut s =
     (case csWork s of
        Holding r \<Rightarrow> if length (csResults s) < workerQueueSize 32 then s\<lparr>csWork := Idle, csResults := csResults s @ [r]\<rparr> else s
      | _ \<Rightarrow> s)"

subsection \<open>Reconnecting\<close>

text \<open>One session of \<open>Run\<close>: how it ended, whether the context was done by then, the random byte, and whether it was done while waiting.\<close>

record session_attempt =
  saEnd :: session_end
  saCancelled :: bool
  saRandom :: nat
  saWaitCancelled :: bool

definition retryDelay :: "int \<Rightarrow> session_attempt \<Rightarrow> duration" where
  "retryDelay failures a =
     (case saEnd a of Permanent _ \<Rightarrow> permanentControlRetry | _ \<Rightarrow> transientControlDelay failures (saRandom a))"

text \<open>The delays before the next sessions.\<close>

fun clientRun :: "int \<Rightarrow> session_attempt list \<Rightarrow> duration list" where
  "clientRun failures [] = []"
| "clientRun failures (a # as) =
     (if saCancelled a then []
      else let failures = failures + 1 in
        retryDelay failures a # (if saWaitCancelled a then [] else clientRun failures as))"

datatype probe_result = ProbeOk | ProbeCancelled | ProbeEnded | ProbeFailed session_end

text \<open>The session of a probe is cancelled by its own ready callback as soon as the welcome is valid.\<close>

definition Probe :: "bool \<Rightarrow> session_end + welcome_msg \<Rightarrow> probe_result" where
  "Probe cancelled outcome =
     (case outcome of
        Inr _ \<Rightarrow> ProbeOk
      | Inl e \<Rightarrow> if cancelled then ProbeCancelled else if e = Shutdown then ProbeEnded else ProbeFailed e)"


subsection \<open>Delays\<close>

lemma backoff_loop_closed:
  assumes "1 \<le> i" and "i \<le> failures" and "base = second * 2 ^ nat (i - 1)"
  shows "min (60 * second) (backoff_loop i failures base) = min (60 * second) (second * 2 ^ nat (failures - 1))"
  using assms
proof (induction i failures base rule: backoff_loop.induct)
  case (1 i failures base)
  show ?case
  proof (cases "i < failures \<and> base < 60 * second")
    case True
    have "nat (i + 1 - 1) = Suc (nat (i - 1))" using 1(2) by simp
    then have "base * 2 = second * 2 ^ nat (i + 1 - 1)" using 1(4) by simp
    then show ?thesis using 1(1) [OF True] True 1(2) by (subst backoff_loop.simps) simp
  next
    case False
    show ?thesis
    proof (cases "i < failures")
      case lt: True
      then have big: "60 * second \<le> base" using False by simp
      have "(2::int) ^ nat (i - 1) \<le> 2 ^ nat (failures - 1)" using lt by (intro power_increasing) auto
      then have "second * 2 ^ nat (i - 1) \<le> second * 2 ^ nat (failures - 1)" by (intro mult_left_mono) auto
      then have "60 * second \<le> second * 2 ^ nat (failures - 1)" using big unfolding 1(4) by (rule order_trans [rotated])
      then show ?thesis using big False by (subst backoff_loop.simps) (simp only: if_False min_absorb1)
    next
      case ge: False
      then have "i = failures" using 1(3) by simp
      then show ?thesis using 1(4) by (subst backoff_loop.simps) simp
    qed
  qed
qed

definition backoff_target :: "nat \<Rightarrow> duration" where
  "backoff_target k = min (60 * second) (second * 2 ^ k)"

lemma backoff_target_values: "backoff_target k \<in> {second, 2 * second, 4 * second, 8 * second, 16 * second, 32 * second, 60 * second}"
proof (cases "k < 6")
  case True
  then have "k \<in> {0, 1, 2, 3, 4, 5}" by auto
  then show ?thesis by (auto simp: backoff_target_def)
next
  case False
  have "(2::int) ^ 6 \<le> 2 ^ k" using False by (intro power_increasing) auto
  then have "backoff_target k = 60 * second" by (simp add: backoff_target_def)
  then show ?thesis by simp
qed

lemma backoff_target_late: "6 \<le> k \<Longrightarrow> backoff_target k = 60 * second"
proof -
  assume "6 \<le> k"
  then have "(2::int) ^ 6 \<le> 2 ^ k" by (intro power_increasing) auto
  then show ?thesis by (simp add: backoff_target_def)
qed

lemma transientControlDelay_exact:
  "transientControlDelay (int (Suc k)) r = backoff_target k + (int r mod 41 - 20) * (backoff_target k div 100)"
proof -
  have b: "(if 60 * second < backoff_loop 1 (int (Suc k)) second then 60 * second else backoff_loop 1 (int (Suc k)) second) = backoff_target k"
    using backoff_loop_closed [of 1 "int (Suc k)" second] by (auto simp: backoff_target_def min_def split: if_splits)
  have div: "go_div (p * backoff_target k) 100 = p * (backoff_target k div 100)" for p
  proof -
    have "\<exists>c. backoff_target k = 100 * c" using backoff_target_values [of k] by (auto intro: exI [of _ "backoff_target k div 100"])
    then obtain c where c: "backoff_target k = 100 * c" by blast
    have "p * (100 * c) = 100 * (p * c)" "- (100 * (p * c)) = 100 * - (p * c)" by simp_all
    then show ?thesis unfolding c go_div_def by (simp only: nonzero_mult_div_cancel_left) simp
  qed
  have "\<not> int (Suc k) < 1" by simp
  then show ?thesis unfolding transientControlDelay_def Let_def by (simp only: if_False b div)
qed

lemma transientControlDelay_bounds:
  "4 * backoff_target k \<le> 5 * transientControlDelay (int (Suc k)) r \<and> 5 * transientControlDelay (int (Suc k)) r \<le> 6 * backoff_target k"
proof -
  have "0 \<le> int r mod 41" "int r mod 41 < 41" by simp_all
  then obtain p where p: "int r mod 41 - 20 = p" "- 20 \<le> p" "p \<le> 20" by fastforce
  show ?thesis using backoff_target_values [of k] p(2,3) unfolding transientControlDelay_exact p(1) by auto
qed

lemma clientRun_delays:
  "k < length (clientRun (int n) as) \<Longrightarrow> clientRun (int n) as ! k = retryDelay (int (Suc (n + k))) (as ! k)"
proof (induction as arbitrary: n k)
  case (Cons a as)
  have s: "int n + 1 = int (Suc n)" by simp
  show ?case
  proof (cases k)
    case 0
    then show ?thesis using Cons.prems by (auto simp: Let_def add.commute split: if_splits)
  next
    case (Suc j)
    then have j: "j < length (clientRun (int (Suc n)) as)" "\<not> saCancelled a" "\<not> saWaitCancelled a"
      using Cons.prems unfolding s by (auto simp: Let_def s simp del: of_nat_Suc split: if_splits)
    then show ?thesis using Cons.IH [OF j(1)] Suc by (simp add: Let_def s del: of_nat_Suc)
  qed
qed simp

text \<open>The delay before the session with number \<open>k + 1\<close> is fifteen minutes after a permanent error, and otherwise within a fifth of
  one second doubled \<open>k\<close> times, capped at a minute. Only the number of sessions counts: from the seventh on an Agent waits at least 48
  seconds, however long its sessions lasted.\<close>

theorem reconnect_delays:
  assumes "k < length (clientRun 0 as)"
  defines "d \<equiv> clientRun 0 as ! k"
  shows "(case saEnd (as ! k) of
      Permanent _ \<Rightarrow> d = 15 * minute
    | _ \<Rightarrow> 4 * min (60 * second) (second * 2 ^ k) \<le> 5 * d \<and> 5 * d \<le> 6 * min (60 * second) (second * 2 ^ k)) \<and>
    (6 \<le> k \<longrightarrow> 48 * second \<le> d)"
proof -
  have d: "d = retryDelay (int (Suc k)) (as ! k)" unfolding d_def using clientRun_delays [of k 0 as] assms(1) by simp
  note b = transientControlDelay_bounds [of k "saRandom (as ! k)"]
  show ?thesis
    using b backoff_target_late [of k] unfolding d retryDelay_def backoff_target_def
    by (cases "saEnd (as ! k)") (auto simp: permanentControlRetry_def simp del: of_nat_Suc)
qed

subsection \<open>The handshake agrees with the Panel's\<close>

lemma decodeHello_doc:
  "decodeHello W body = Some h \<Longrightarrow> text_doc (wcDecode W KHello body) = JsonDoc (MHello h)"
  by (auto simp: decodeHello_def StrictDecode_def ensureEOF_ok split: sum.splits message.splits if_splits)

lemma decodeWelcome_doc:
  "text_doc (read b) = JsonDoc (MWelcome w) \<Longrightarrow> text_len (read b) \<le> MaxMessageBytes \<Longrightarrow> wControlVersion w = Version \<Longrightarrow>
   wType w = ''welcome'' \<Longrightarrow> decodeWelcome read b = Some w"
  by (simp add: decodeWelcome_def StrictDecode_def validateHeader_def)

lemma validWelcome_welcomeFor:
  assumes "kID k \<noteq> []"
  shows "validWelcome (welcomeFor S k) (kHello k) \<longleftrightarrow> pcVersion S \<noteq> [] \<and> length (pcVersion S) \<le> 128"
  using assms by (simp add: validWelcome_def welcomeFor_def HeartbeatInterval_def OfflineTimeout_def MaxMessageBytes_def)

lemma connectSession_keeps: "kHello (fst (connectSession now k w)) = kHello k" "kID (fst (connectSession now k w)) = kID k"
  by (simp_all add: connectSession_def leave_with_def Let_def exec_sql_def split: list.splits prod.splits)

text \<open>C25. The two ends of the handshake fit: when the Panel accepts the hello an Agent wrote and connects the session, the Agent accepts
  the welcome it gets back, so a probe succeeds, unless the version of the Panel is empty or longer than 128 bytes. Then the Agent
  treats the Panel as permanently incompatible.\<close>

theorem accepted_hello_completes_handshake:
  assumes "acceptHello S i (Received True body) raw w = (Some k, w')"
    and "text_doc (wcDecode (pcCodec S) KHello body) = JsonDoc (MHello (clientHello c os arch highest))"
    and "text_doc (read reply) = JsonDoc (MWelcome (welcomeFor S (fst (connectSession now k v))))"
    and "text_len (read reply) \<le> 65536"
  defines "result \<equiv> clientHandshake read (clientHello c os arch highest) Dialed True (Received True reply)"
  shows "(Probe cancelled result = ProbeOk \<longleftrightarrow> pcVersion S \<noteq> [] \<and> length (pcVersion S) \<le> 128) \<and>
    (pcVersion S = [] \<or> 128 < length (pcVersion S) \<longrightarrow> result = Inl (Permanent ''control welcome invalid''))"
proof -
  obtain h where h: "decodeHello (pcCodec S) body = Some h" "kHello k = h" "kID k \<noteq> []"
    using assms(1) by (cases rule: acceptHello_accepted) (auto simp: randomUUID_ne)
  have hk: "kHello k = clientHello c os arch highest" using decodeHello_doc [OF h(1)] assms(2) h(2) by simp
  note v = validWelcome_welcomeFor [of "fst (connectSession now k v)" S, unfolded connectSession_keeps hk, OF h(3)]
  have "decodeWelcome read reply = Some (welcomeFor S (fst (connectSession now k v)))"
    by (rule decodeWelcome_doc [where read = read and b = reply, OF assms(3)]) (use assms(4) in \<open>simp_all add: MaxMessageBytes_def welcomeFor_def\<close>)
  then show ?thesis using v unfolding result_def by (auto simp: clientHandshake_def Probe_def)
qed

subsection \<open>The session as a transition system\<close>

datatype client_label = Accepted command | Declined command_result | Took | Ran command command_result | Put | Wrote command_result | Quiet

text \<open>A step of an open session; the handler may return any result.\<close>

inductive client_step :: "(bytes \<Rightarrow> message json_text) \<Rightarrow> bool \<Rightarrow> client_session \<Rightarrow> client_label \<Rightarrow> client_session \<Rightarrow> bool"
  for read handles where
  cs_accept: "takeInbound read handles (Received t body) written s = (None, None, s') \<Longrightarrow> decodeCommand read body = Some c \<Longrightarrow>
    client_step read handles s (Accepted c) s'"
| cs_refuse: "takeInbound read handles ev written s = (None, Some (WroteResult r), s') \<Longrightarrow> client_step read handles s (Declined r) s'"
| cs_write: "sendResult True s = (None, Some (WroteResult r), s') \<Longrightarrow> client_step read handles s (Wrote r) s'"
| cs_beat: "sendHeartbeat b True s = (None, out, s') \<Longrightarrow> client_step read handles s Quiet s'"
| cs_ping: "sendPing True s = (None, out, s') \<Longrightarrow> client_step read handles s Quiet s'"
| cs_take: "csWork s = Idle \<Longrightarrow> csQueue s \<noteq> [] \<Longrightarrow> client_step read handles s Took (workerTake s)"
| cs_run: "csWork s = Working c \<Longrightarrow> client_step read handles s (Ran c r) (workerRun (\<lambda>_. r) s)"
| cs_put: "csWork s = Holding r \<Longrightarrow> length (csResults s) < workerQueueSize 32 \<Longrightarrow> client_step read handles s Put (workerPut s)"

text \<open>The labels so far, the oldest first, and the session they lead to.\<close>

inductive client_run :: "(bytes \<Rightarrow> message json_text) \<Rightarrow> bool \<Rightarrow> client_label list \<Rightarrow> client_session \<Rightarrow> bool" for read handles where
  cr_init: "client_run read handles [] newSession"
| cr_step: "client_run read handles ls s \<Longrightarrow> client_step read handles s l s' \<Longrightarrow> client_run read handles (ls @ [l]) s'"

definition accepted :: "client_label list \<Rightarrow> command list" where
  "accepted ls = concat (map (\<lambda>l. case l of Accepted c \<Rightarrow> [c] | _ \<Rightarrow> []) ls)"

definition executed :: "client_label list \<Rightarrow> (command \<times> command_result) list" where
  "executed ls = concat (map (\<lambda>l. case l of Ran c r \<Rightarrow> [(c, r)] | _ \<Rightarrow> []) ls)"

definition answered :: "client_label list \<Rightarrow> command_result list" where
  "answered ls = concat (map (\<lambda>l. case l of Wrote r \<Rightarrow> [r] | _ \<Rightarrow> []) ls)"

definition working :: "work \<Rightarrow> command list" where
  "working k = (case k of Working c \<Rightarrow> [c] | _ \<Rightarrow> [])"

definition holding :: "work \<Rightarrow> command_result list" where
  "holding k = (case k of Holding r \<Rightarrow> [r] | _ \<Rightarrow> [])"

lemma labels_snoc:
  "accepted (ls @ [l]) = accepted ls @ (case l of Accepted c \<Rightarrow> [c] | _ \<Rightarrow> [])"
  "executed (ls @ [l]) = executed ls @ (case l of Ran c r \<Rightarrow> [(c, r)] | _ \<Rightarrow> [])"
  "answered (ls @ [l]) = answered ls @ (case l of Wrote r \<Rightarrow> [r] | _ \<Rightarrow> [])"
  by (simp_all add: accepted_def executed_def answered_def)

text \<open>What a step does to the session, by its label.\<close>

definition step_effect :: "client_session \<Rightarrow> client_label \<Rightarrow> client_session \<Rightarrow> bool" where
  "step_effect s l s' =
     (case l of
        Accepted c \<Rightarrow> length (csQueue s) < 32 \<and> s' = s\<lparr>csQueue := csQueue s @ [c]\<rparr>
      | Declined r \<Rightarrow> 32 \<le> length (csQueue s) \<and> rCode r = ''command_backpressure'' \<and> s' = s
      | Took \<Rightarrow> \<exists>c cs. csQueue s = c # cs \<and> csWork s = Idle \<and> s' = s\<lparr>csQueue := cs, csWork := Working c\<rparr>
      | Ran c r \<Rightarrow> csWork s = Working c \<and> s' = s\<lparr>csWork := Holding r\<rparr>
      | Put \<Rightarrow> \<exists>r. csWork s = Holding r \<and> length (csResults s) < 32 \<and> s' = s\<lparr>csWork := Idle, csResults := csResults s @ [r]\<rparr>
      | Wrote r \<Rightarrow> \<exists>rs. csResults s = r # rs \<and> s' = s\<lparr>csResults := rs\<rparr>
      | Quiet \<Rightarrow> s' = s)"

lemma client_step_effect:
  assumes "client_step read handles s l s'"
  shows "step_effect s l s'"
  using assms
proof cases
  case (cs_accept t body written c)
  then show ?thesis by (auto simp: takeInbound_def step_effect_def workerQueueSize_def split: if_splits)
next
  case (cs_refuse ev written r)
  then show ?thesis
    by (auto simp: takeInbound_def step_effect_def workerQueueSize_def failedCommandResult_def split: if_splits inbound.splits option.splits)
next
  case (cs_write r)
  then show ?thesis by (auto simp: sendResult_def step_effect_def split: list.splits)
next
  case cs_take
  then show ?thesis by (cases "csQueue s") (simp_all add: workerTake_def step_effect_def)
next
  case (cs_put r)
  then show ?thesis by (simp add: workerPut_def step_effect_def workerQueueSize_def)
qed (simp_all add: sendHeartbeat_def sendPing_def workerRun_def step_effect_def)

text \<open>C23. While a session lasts, the commands it accepted are those executed, then the one being executed, then the queue, in the order
  they came; the results of those executed are the ones written, then the ones waiting, then the one the worker holds. So the Agent
  answers in order, each result once. Neither channel ever holds more than 32.\<close>

theorem session_answers_in_order:
  assumes "client_run read handles ls s"
  shows "accepted ls = map fst (executed ls) @ working (csWork s) @ csQueue s \<and>
    map snd (executed ls) = answered ls @ csResults s @ holding (csWork s) \<and>
    length (csQueue s) \<le> 32 \<and> length (csResults s) \<le> 32"
  using assms
proof (induction rule: client_run.induct)
  case cr_init
  show ?case by (simp add: newSession_def accepted_def executed_def answered_def working_def holding_def)
next
  case (cr_step ls s l s')
  then show ?case using client_step_effect [OF cr_step(2)]
    by (cases l) (auto simp: step_effect_def labels_snoc working_def holding_def)
qed

subsection \<open>Draining\<close>

text \<open>The steps that bring a command already accepted closer to its answer.\<close>

definition draining :: "client_label \<Rightarrow> bool" where
  "draining l = (case l of Took \<Rightarrow> True | Ran _ _ \<Rightarrow> True | Put \<Rightarrow> True | Wrote _ \<Rightarrow> True | _ \<Rightarrow> False)"

definition pending_work :: "client_session \<Rightarrow> nat" where
  "pending_work s = 4 * length (csQueue s) + (case csWork s of Idle \<Rightarrow> 0 | Working _ \<Rightarrow> 3 | Holding _ \<Rightarrow> 2) + length (csResults s)"

inductive drain_run :: "(bytes \<Rightarrow> message json_text) \<Rightarrow> bool \<Rightarrow> nat \<Rightarrow> client_session \<Rightarrow> client_session \<Rightarrow> bool" for read handles where
  dr_done: "drain_run read handles 0 s s"
| dr_step: "client_step read handles s l t \<Longrightarrow> draining l \<Longrightarrow> drain_run read handles n t u \<Longrightarrow> drain_run read handles (Suc n) s u"

lemma draining_step_progress:
  assumes "client_step read handles s l s'" and "draining l"
  shows "pending_work s = Suc (pending_work s')"
  using client_step_effect [OF assms(1)] assms(2)
  by (cases l) (auto simp: step_effect_def draining_def pending_work_def)

lemma pending_work_0: "pending_work s = 0 \<longleftrightarrow> s = newSession"
  by (cases s) (auto simp: pending_work_def newSession_def split: work.splits)

lemma draining_step_enabled:
  assumes "0 < pending_work s"
  shows "\<exists>l s'. client_step read handles s l s' \<and> draining l"
proof (cases "csResults s")
  case (Cons r rs)
  then have "client_step read handles s (Wrote r) (s\<lparr>csResults := rs\<rparr>)" by (intro cs_write) (simp add: sendResult_def)
  then show ?thesis by (intro exI [of _ "Wrote r"] exI) (auto simp: draining_def)
next
  case Nil
  show ?thesis
  proof (cases "csWork s")
    case Idle
    then have "csQueue s \<noteq> []" using assms Nil by (auto simp: pending_work_def)
    then have "client_step read handles s Took (workerTake s)" using Idle by (intro cs_take)
    then show ?thesis by (intro exI [of _ Took] exI) (auto simp: draining_def)
  next
    case (Working c)
    then have "client_step read handles s (Ran c r) (workerRun (\<lambda>_. r) s)" for r by (rule cs_run)
    then show ?thesis by (intro exI [of _ "Ran c undefined"] exI) (auto simp: draining_def)
  next
    case (Holding r)
    then have "client_step read handles s Put (workerPut s)" using Nil by (intro cs_put) (simp_all add: workerQueueSize_def)
    then show ?thesis by (intro exI [of _ Put] exI) (auto simp: draining_def)
  qed
qed


subsection \<open>A concrete client\<close>

definition sample_client :: control_client where
  "sample_client =
     \<lparr>ctOptions = \<lparr>coPanelURL = ''p'', coIdentity = Some (sample_identity_of 7 ''a1'' ''1''), coNodeID = ''n1'', coVersion = ''v1.0.0'',
        coCapabilities = [CollectNow], coHandles = True\<rparr>,
      ctURL = \<lparr>puScheme = ''wss'', puHost = ''p'', puHostname = ''p'', puHasUser = False, puPath = [], puRawPath = [], puRawQuery = [], puFragment = []\<rparr>,
      ctBootID = ''boot''\<rparr>"

definition sample_command :: command where
  "sample_command = \<lparr>cControlVersion = Version, cType = ''command'', cCommandID = ''c'', cSequence = 1, cAgentID = ''a1'', cAction = CollectNow,
     cIssuedAt = 0, cExpiresAt = 300, cPayload = [], cSignature = []\<rparr>"

definition sample_handler_after :: control_session where
  "sample_handler_after = fst (connectSession 0 (sample_handler (randomUUID sample_raw) Registered) sample_world)"

definition sample_client_reader :: "bytes \<Rightarrow> message json_text" where
  "sample_client_reader b = \<lparr>text_len = length b, text_doc =
     (if b = ''w'' then JsonDoc (MWelcome (welcomeFor sample_panel sample_handler_after))
      else if b = ''c'' then JsonDoc (MCommand sample_command) else JsonBad)\<rparr>"

lemma sample_client_hello: "clientHello sample_client ''linux'' ''amd64'' 0 = sample_hello"
  by (simp add: clientHello_def sample_client_def sample_identity_of_def sample_hello_def)

lemma sample_reads_command: "decodeCommand sample_client_reader ''c'' = Some sample_command"
  by (simp add: decodeCommand_def StrictDecode_def sample_client_reader_def MaxMessageBytes_def validateHeader_def validAction_def sample_command_def)

theorem accepted_hello_completes_handshake_witness:
  "Probe False (clientHandshake sample_client_reader (clientHello sample_client ''linux'' ''amd64'' 0) Dialed True (Received True ''w'')) = ProbeOk"
proof -
  have "text_doc (wcDecode (pcCodec sample_panel) KHello ''h'') = JsonDoc (MHello (clientHello sample_client ''linux'' ''amd64'' 0))"
    by (simp add: sample_client_hello sample_panel_def sample_codec_of_def)
  moreover have "text_doc (sample_client_reader ''w'') =
      JsonDoc (MWelcome (welcomeFor sample_panel (fst (connectSession 0 (sample_handler (randomUUID sample_raw) Registered) sample_world))))"
    "text_len (sample_client_reader ''w'') \<le> 65536"
    by (simp_all add: sample_client_reader_def sample_handler_after_def)
  moreover have "pcVersion sample_panel \<noteq> [] \<and> length (pcVersion sample_panel) \<le> 128" by (simp add: sample_panel_def)
  ultimately show ?thesis
    using accepted_hello_completes_handshake [OF sample_accepted, where read = sample_client_reader and reply = "''w''" and cancelled = False]
    by blast
qed

definition busy_session :: client_session where
  "busy_session = \<lparr>csQueue = [], csWork = Working sample_command, csResults = []\<rparr>"

theorem session_answers_in_order_witness:
  "client_run sample_client_reader True [Accepted sample_command, Took] busy_session \<and>
   accepted [Accepted sample_command, Took] = [sample_command] @ csQueue busy_session"
proof -
  have 1: "client_run sample_client_reader True ([] @ [Accepted sample_command]) (newSession\<lparr>csQueue := [sample_command]\<rparr>)"
    by (rule cr_step [OF cr_init], rule cs_accept [where body = "''c''" and t = True])
      (simp_all add: takeInbound_def sample_reads_command workerQueueSize_def newSession_def)
  have "client_run sample_client_reader True (([] @ [Accepted sample_command]) @ [Took]) (workerTake (newSession\<lparr>csQueue := [sample_command]\<rparr>))"
    by (rule cr_step [OF 1], rule cs_take) (simp_all add: newSession_def)
  then have 2: "client_run sample_client_reader True [Accepted sample_command, Took] busy_session"
    by (simp add: workerTake_def newSession_def busy_session_def)
  then show ?thesis using session_answers_in_order [OF 2] by (simp add: executed_def working_def busy_session_def)
qed


theorem reconnect_delays_witness:
  "\<exists>d. clientRun 0 (replicate 7 \<lparr>saEnd = Transient [], saCancelled = False, saRandom = 0, saWaitCancelled = False\<rparr>) ! 6 = d \<and>
     48 * second \<le> d \<and> 5 * d \<le> 6 * min (60 * second) (second * 2 ^ 6)"
proof -
  let ?as = "replicate 7 \<lparr>saEnd = Transient [], saCancelled = False, saRandom = 0, saWaitCancelled = False\<rparr>"
  have len: "length (clientRun n (replicate m \<lparr>saEnd = Transient [], saCancelled = False, saRandom = 0, saWaitCancelled = False\<rparr>)) = m" for n m
    by (induction m arbitrary: n) (simp_all add: Let_def)
  have "6 < length (clientRun 0 ?as)" unfolding len by simp
  from reconnect_delays [OF this] have "48 * second \<le> clientRun 0 ?as ! 6 \<and> 5 * (clientRun 0 ?as ! 6) \<le> 6 * min (60 * second) (second * 2 ^ 6)"
    by (auto simp: nth_replicate split: session_end.splits)
  then show ?thesis by blast
qed

end
