(* ===== verification/ReportQueue.thy ===== *)
theory ReportQueue
  imports GoStrings
begin

text \<open>
  The interface between the reporter and the durable queue it delivers from: the items a listing
  hands out, and the laws the reporter relies on. \<open>pending_of q i\<close> is the report stored under
  the identifier \<open>i\<close> with the destinations still to receive it.
\<close>

record outbox_item =
  itID :: bytes
  itBody :: bytes
  itPending :: "bytes list"
  itName :: bytes

definition drop_destination :: "bytes \<Rightarrow> (bytes \<times> bytes list) option \<Rightarrow> (bytes \<times> bytes list) option" where
  "drop_destination d p =
     (case p of
        None \<Rightarrow> None
      | Some (b, ds) \<Rightarrow>
          let ds' = filter (\<lambda>x. x \<noteq> d) ds in if ds' = [] then None else Some (b, ds'))"

definition uniqueDestinations :: "bytes list \<Rightarrow> bytes list" where
  "uniqueDestinations values =
     fold (\<lambda>v out. if v = [] \<or> v \<in> set out then out else out @ [v]) values []"

lemma uniqueDestinations_fold:
  "set (fold (\<lambda>v out. if v = [] \<or> v \<in> set out then out else out @ [v]) vs out) =
     set out \<union> {v \<in> set vs. v \<noteq> []} \<and>
   (distinct out \<longrightarrow> distinct (fold (\<lambda>v out. if v = [] \<or> v \<in> set out then out else out @ [v]) vs out))"
  by (induction vs arbitrary: out) auto

lemma set_uniqueDestinations [simp]: "set (uniqueDestinations vs) = {v \<in> set vs. v \<noteq> []}"
  using uniqueDestinations_fold [of vs "[]"] by (simp add: uniqueDestinations_def)

lemma distinct_uniqueDestinations [simp]: "distinct (uniqueDestinations vs)"
  using uniqueDestinations_fold [of vs "[]"] by (simp add: uniqueDestinations_def)

locale report_queue =
  fixes inv :: "'q \<Rightarrow> bool"
    and pending_of :: "'q \<Rightarrow> bytes \<Rightarrow> (bytes \<times> bytes list) option"
    and plain :: "bytes \<Rightarrow> bool"
    and fresh :: "'q \<Rightarrow> 'i \<Rightarrow> bool"
    and ident :: "'i \<Rightarrow> bytes"
    and listq :: "'q \<Rightarrow> outbox_item list option \<times> 'q"
    and putq :: "bytes \<Rightarrow> bytes list \<Rightarrow> 'i \<Rightarrow> 'q \<Rightarrow> ('e + bytes) \<times> 'q"
    and ackq :: "bytes \<Rightarrow> bytes \<Rightarrow> 'q \<Rightarrow> bool \<times> 'q"
  assumes list_law: "inv q \<Longrightarrow> listq q = (lres, q') \<Longrightarrow> inv q' \<and> pending_of q' = pending_of q"
    and list_items: "inv q \<Longrightarrow> listq q = (Some items, q') \<Longrightarrow>
      (\<forall>it\<in>set items. plain (itID it) \<and> pending_of q (itID it) = Some (itBody it, itPending it)) \<and>
      (\<forall>i. pending_of q i \<noteq> None \<longrightarrow> i \<in> itID ` set items)"
    and put_law: "inv q \<Longrightarrow> fresh q x \<Longrightarrow> putq b ds x q = (pres, q') \<Longrightarrow>
      inv q' \<and> (\<forall>i. i \<noteq> ident x \<longrightarrow> pending_of q' i = pending_of q i \<or> pending_of q' i = None)"
    and put_stored: "inv q \<Longrightarrow> fresh q x \<Longrightarrow> putq b ds x q = (Inr i, q') \<Longrightarrow>
      i = ident x \<and> pending_of q' i = Some (b, uniqueDestinations ds)"
    and ack_law: "inv q \<Longrightarrow> plain i \<Longrightarrow> ackq i d q = (ok, q') \<Longrightarrow>
      inv q' \<and> (\<forall>j. j \<noteq> i \<longrightarrow> pending_of q' j = pending_of q j) \<and>
      (pending_of q' i = pending_of q i \<or> pending_of q' i = drop_destination d (pending_of q i))"
    and ack_done: "inv q \<Longrightarrow> plain i \<Longrightarrow> ackq i d q = (True, q') \<Longrightarrow>
      pending_of q' i = drop_destination d (pending_of q i)"

end
