(* ===== verification/Outbox.thy ===== *)
theory Outbox
  imports Files ReportQueue GoEncoding
begin

text \<open>
  \<open>internal/agent/outbox.go\<close>: the durable queue of reports. Each report is a file of the queue
  directory that names the destinations still to receive it; unreadable files are moved to a
  second directory that keeps at most sixteen of them; when the limits are exceeded the oldest
  reports are removed. Every call of the file system consumes one entry of \<open>obFaults\<close>: \<open>True\<close>
  makes it fail, an exhausted list means that it succeeds.
\<close>

subsection \<open>State\<close>

record limits =
  MaxItems :: nat
  MaxBytes :: nat

record outbox_record =
  orVersion :: bytes
  orID :: bytes
  orBody :: bytes
  orPending :: "bytes list"

datatype outbox_file = SubDirectory | Unreadable | RecordText "outbox_record json_doc"

record outbox =
  obDir :: "outbox_file dir"
  obBad :: "outbox_file dir"
  obLimits :: limits
  obFaults :: "bool list"

definition outboxRecordVersion :: bytes where "outboxRecordVersion = ''1''"

definition NewOutbox :: "nat \<Rightarrow> nat \<Rightarrow> outbox_file dir \<Rightarrow> outbox_file dir \<Rightarrow> bool list \<Rightarrow> outbox option" where
  "NewOutbox maxItems maxBytes files badFiles faults =
     (if maxItems = 0 \<or> maxBytes = 0 then None
      else if True \<in> set (take 3 faults) then None
      else Some \<lparr>obDir = files, obBad = badFiles,
                 obLimits = \<lparr>MaxItems = maxItems, MaxBytes = maxBytes\<rparr>, obFaults = drop 3 faults\<rparr>)"

text \<open>One call of the file system: whether it succeeds.\<close>

definition io :: "outbox \<Rightarrow> bool \<times> outbox" where
  "io q = (case obFaults q of [] \<Rightarrow> (True, q) | f # fs \<Rightarrow> (\<not> f, q\<lparr>obFaults := fs\<rparr>))"

subsection \<open>Records and identifiers\<close>

definition pad_zeros :: "nat \<Rightarrow> bytes \<Rightarrow> bytes" where
  "pad_zeros w s = replicate (w - length s) CHR ''0'' @ s"

definition newOutboxID :: "nat \<Rightarrow> bytes \<Rightarrow> bytes" where
  "newOutboxID nanos random = pad_zeros 20 (dec_digits nanos) @ ''-'' @ hex_encode random"

definition json_name :: "bytes \<Rightarrow> bytes" where
  "json_name i = i @ ''.json''"

definition itemCost :: "outbox_item \<Rightarrow> nat" where
  "itemCost item = length (itBody item) + sum_list (map length (itPending item))"

definition valid_record :: "outbox_record \<Rightarrow> bool" where
  "valid_record r \<longleftrightarrow> orVersion r = outboxRecordVersion \<and> orID r \<noteq> [] \<and> orBody r \<noteq> [] \<and> orPending r \<noteq> []"

fun readOutboxRecord :: "outbox_file option \<Rightarrow> outbox_record option" where
  "readOutboxRecord (Some (RecordText (JsonDoc r))) = (if valid_record r then Some r else None)"
| "readOutboxRecord _ = None"

definition item_of :: "bytes \<Rightarrow> outbox_record \<Rightarrow> outbox_item" where
  "item_of name r = \<lparr>itID = orID r, itBody = orBody r, itPending = orPending r, itName = name\<rparr>"

subsection \<open>Listing and quarantine\<close>

fun pruneBad :: "bytes list \<Rightarrow> outbox \<Rightarrow> bool \<times> outbox" where
  "pruneBad names q =
     (if 16 < length names
      then let (ok, q) = io q in
           if \<not> ok then (False, q)
           else pruneBad (tl names) (q\<lparr>obBad := dir_remove (hd names) (obBad q)\<rparr>)
      else io q)"

declare pruneBad.simps [simp del]

definition quarantineLocked :: "bytes \<Rightarrow> outbox_file \<Rightarrow> outbox \<Rightarrow> bool \<times> outbox" where
  "quarantineLocked name file q =
     (let (ok, q) = io q in
      if \<not> ok then (False, q)
      else
        let q = q\<lparr>obDir := dir_remove name (obDir q), obBad := dir_put name file (obBad q)\<rparr>;
            (ok, q) = io q
        in if \<not> ok then (False, q) else pruneBad (map fst (obBad q)) q)"

fun listEntries :: "outbox_file dir \<Rightarrow> outbox \<Rightarrow> outbox_item list option \<times> outbox" where
  "listEntries [] q = (Some [], q)"
| "listEntries ((name, file) # es) q =
     (if file = SubDirectory \<or> \<not> has_suffix name ''.json'' then listEntries es q
      else case readOutboxRecord (Some file) of
        None \<Rightarrow>
          let (ok, q) = quarantineLocked name file q in
          if \<not> ok then (None, q) else listEntries es q
      | Some r \<Rightarrow>
          (case listEntries es q of
             (None, q) \<Rightarrow> (None, q)
           | (Some items, q) \<Rightarrow> (Some (item_of name r # items), q)))"

definition listLocked :: "outbox \<Rightarrow> outbox_item list option \<times> outbox" where
  "listLocked q = (let (ok, q) = io q in if \<not> ok then (None, q) else listEntries (obDir q) q)"

definition Depth :: "outbox \<Rightarrow> nat" where
  "Depth q = (case fst (listLocked q) of None \<Rightarrow> 0 | Some items \<Rightarrow> length items)"

subsection \<open>Limits\<close>

text \<open>The loop never indexes an empty list, because the limits are positive.\<close>

fun evict :: "outbox_item list \<Rightarrow> nat \<Rightarrow> outbox \<Rightarrow> bool \<times> outbox" where
  "evict [] cost q = io q"
| "evict (oldest # items) cost q =
     (if MaxItems (obLimits q) < length (oldest # items) \<or> MaxBytes (obLimits q) < cost
      then let (ok, q) = io q in
           if \<not> ok then (False, q)
           else evict items (cost - itemCost oldest)
                  (q\<lparr>obDir := dir_remove (itName oldest) (obDir q)\<rparr>)
      else io q)"

definition enforceLimitsLocked :: "outbox \<Rightarrow> bool \<times> outbox" where
  "enforceLimitsLocked q =
     (case listLocked q of
        (None, q) \<Rightarrow> (False, q)
      | (Some items, q) \<Rightarrow> evict items (sum_list (map itemCost items)) q)"

subsection \<open>\<open>Put\<close>, \<open>List\<close> and \<open>Ack\<close>\<close>

datatype put_error = PutRequired | PutDestinations | PutIO | PutExceedsLimits

definition Put :: "bytes \<Rightarrow> bytes list \<Rightarrow> nat \<Rightarrow> bytes \<Rightarrow> outbox \<Rightarrow> (put_error + bytes) \<times> outbox" where
  "Put body destinations nanos random q =
     (if body = [] \<or> destinations = [] then (Inl PutRequired, q)
      else
        let pending = uniqueDestinations destinations in
        if pending = [] then (Inl PutDestinations, q)
        else
          let i = newOutboxID nanos random;
              r = \<lparr>orVersion = outboxRecordVersion, orID = i, orBody = body, orPending = pending\<rparr>;
              name = json_name i;
              (ok, q) = io q
          in if \<not> ok then (Inl PutIO, q)
             else
               let q = q\<lparr>obDir := dir_put name (RecordText (JsonDoc r)) (obDir q)\<rparr>;
                   (ok, q) = enforceLimitsLocked q
               in if \<not> ok then (Inl PutIO, q)
                  else let (ok, q) = io q in
                       if \<not> ok then (Inl PutIO, q)
                       else if map_of (obDir q) name = None then (Inl PutExceedsLimits, q)
                       else (Inr i, q))"

definition Ack :: "bytes \<Rightarrow> bytes \<Rightarrow> outbox \<Rightarrow> bool \<times> outbox" where
  "Ack i destination q =
     (if i = [] \<or> destination = [] then (False, q)
      else
        let name = json_name (path_base i);
            (ok, q) = io q
        in if \<not> ok then (False, q)
           else case readOutboxRecord (map_of (obDir q) name) of
             None \<Rightarrow> (False, q)
           | Some r \<Rightarrow>
               let pending = filter (\<lambda>d. d \<noteq> destination) (orPending r);
                   (ok, q) = io q
               in if \<not> ok then (False, q)
                  else if pending = [] then io (q\<lparr>obDir := dir_remove name (obDir q)\<rparr>)
                  else io (q\<lparr>obDir := dir_put name (RecordText (JsonDoc (r\<lparr>orPending := pending\<rparr>))) (obDir q)\<rparr>))"

subsection \<open>The queue as a list of items\<close>

fun items_of :: "outbox_file dir \<Rightarrow> outbox_item list" where
  "items_of [] = []"
| "items_of ((name, file) # es) =
     (case readOutboxRecord (Some file) of
        Some r \<Rightarrow> if has_suffix name ''.json'' then item_of name r # items_of es else items_of es
      | None \<Rightarrow> items_of es)"

lemma has_suffix_json [simp]: "has_suffix (json_name i) ''.json''"
  by (simp add: has_suffix_def has_prefix_def json_name_def)

lemma json_name_inject [simp]: "json_name i = json_name j \<longleftrightarrow> i = j"
  by (simp add: json_name_def)

lemma item_of_simps [simp]:
  "itName (item_of n r) = n" "itID (item_of n r) = orID r" "itBody (item_of n r) = orBody r"
  "itPending (item_of n r) = orPending r"
  by (simp_all add: item_of_def)

lemma io_frame:
  "io q = (ok, q') \<Longrightarrow> obDir q' = obDir q \<and> obBad q' = obBad q \<and> obLimits q' = obLimits q"
  by (auto simp: io_def split: list.splits)

lemma items_of_filter: "items_of (filter (\<lambda>e. P (fst e)) d) = filter (\<lambda>it. P (itName it)) (items_of d)"
  by (induction d rule: items_of.induct) (auto split: option.splits)

lemma items_of_dir_remove: "items_of (dir_remove n d) = filter (\<lambda>it. itName it \<noteq> n) (items_of d)"
  unfolding dir_remove_def by (rule items_of_filter)

lemma in_items_of:
  "it \<in> set (items_of d) \<longleftrightarrow>
     (\<exists>n f r. (n, f) \<in> set d \<and> has_suffix n ''.json'' \<and> readOutboxRecord (Some f) = Some r \<and> it = item_of n r)"
proof (induction d rule: items_of.induct)
  case (2 name f es)
  define P where "P = (\<lambda>n f r. has_suffix n ''.json'' \<and> readOutboxRecord (Some f) = Some r \<and> it = item_of n r)"
  have "it \<in> set (items_of ((name, f) # es)) \<longleftrightarrow> (\<exists>r. P name f r) \<or> it \<in> set (items_of es)"
    by (auto simp: P_def split: option.splits)
  moreover have "it \<in> set (items_of es) \<longleftrightarrow> (\<exists>n f r. (n, f) \<in> set es \<and> P n f r)"
    using 2 unfolding P_def by (cases "readOutboxRecord (Some f)"; cases "has_suffix name ''.json''") blast+
  ultimately have "it \<in> set (items_of ((name, f) # es)) \<longleftrightarrow>
      (\<exists>n g r. (n, g) \<in> set ((name, f) # es) \<and> P n g r)" by auto
  then show ?case unfolding P_def .
qed simp

lemma items_of_names: "it \<in> set (items_of d) \<Longrightarrow> itName it \<in> fst ` set d"
  by (force simp: in_items_of)

lemma items_of_sorted:
  "dir_ok d \<Longrightarrow> sorted_wrt (\<lambda>a b. itName a < itName b) (items_of d)"
proof (induction d rule: items_of.induct)
  case (2 n f es)
  then have "\<forall>it\<in>set (items_of es). n < itName it"
    using items_of_names [of _ es] by (fastforce simp: dir_ok_Cons)
  then show ?case using 2 by (auto simp: dir_ok_Cons split: option.splits)
qed simp

lemma items_of_insort:
  assumes "readOutboxRecord (Some f) = Some r" and "has_suffix n ''.json''"
    and "dir_ok d" and "n \<notin> fst ` set d"
  shows "items_of (insort_key fst (n, f) d) = insort_key itName (item_of n r) (items_of d)"
  using assms(3,4)
proof (induction d)
  case Nil
  then show ?case using assms by simp
next
  case (Cons e d)
  obtain m g where e: "e = (m, g)" by (cases e)
  have later: "\<forall>it\<in>set (items_of d). m < itName it"
    using items_of_names [of _ d] Cons.prems(1) by (fastforce simp: dir_ok_Cons e)
  have IH: "items_of (insort_key fst (n, f) d) = insort_key itName (item_of n r) (items_of d)"
    using Cons.IH Cons.prems by (simp add: dir_ok_Cons)
  show ?case
  proof (cases "n \<le> m")
    case True
    then have "insort_key itName (item_of n r) (items_of d) = item_of n r # items_of d"
      using later by (cases "items_of d") auto
    then show ?thesis using True assms e by (auto split: option.splits)
  next
    case False
    then show ?thesis using IH assms e by (auto split: option.splits)
  qed
qed

lemma items_of_dir_put:
  assumes "readOutboxRecord (Some f) = Some r" and "has_suffix n ''.json''" and "dir_ok d"
  shows "items_of (dir_put n f d) =
    insort_key itName (item_of n r) (filter (\<lambda>it. itName it \<noteq> n) (items_of d))"
proof -
  have "n \<notin> fst ` set (filter (\<lambda>e. fst e \<noteq> n) d)" by auto
  then show ?thesis
    using items_of_insort [OF assms(1,2) dir_ok_filter [OF assms(3)]]
      items_of_filter [of "\<lambda>m. m \<noteq> n" d]
    by (simp add: dir_put_def)
qed

subsection \<open>Listing\<close>

lemma pruneBad_frame:
  "pruneBad names q = (ok, q') \<Longrightarrow> obDir q' = obDir q \<and> obLimits q' = obLimits q"
proof (induction names q arbitrary: q' rule: pruneBad.induct)
  case (1 names q)
  obtain ok1 q1 where i: "io q = (ok1, q1)" by (cases "io q")
  show ?case
  proof (cases "16 < length names \<and> ok1")
    case True
    then have "pruneBad (tl names) (q1\<lparr>obBad := dir_remove (hd names) (obBad q1)\<rparr>) = (ok, q')"
      using 1(2) i pruneBad.simps [of names q] by simp
    then show ?thesis using 1(1) [OF _ i [symmetric] refl] True io_frame [OF i] by simp
  next
    case False
    then show ?thesis using 1(2) i io_frame [OF i] pruneBad.simps [of names q] by (auto split: if_splits)
  qed
qed

lemma pruneBad_bound:
  "pruneBad names q = (True, q') \<Longrightarrow> map fst (obBad q) = names \<Longrightarrow> dir_ok (obBad q) \<Longrightarrow>
     length (obBad q') \<le> 16 \<and> dir_ok (obBad q')"
proof (induction names q arbitrary: q' rule: pruneBad.induct)
  case (1 names q)
  obtain ok1 q1 where i: "io q = (ok1, q1)" by (cases "io q")
  show ?case
  proof (cases "16 < length names")
    case True
    then obtain e d where bad: "obBad q = e # d" using 1(3) by (cases "obBad q") auto
    have "dir_remove (fst e) (obBad q) = d"
      using 1(4) unfolding bad by (auto simp: dir_remove_def dir_ok_Cons filter_id_conv)
    then have "map fst (dir_remove (hd names) (obBad q1)) = tl names"
        "dir_ok (dir_remove (hd names) (obBad q1))"
      using 1(3,4) io_frame [OF i] by (auto simp: bad)
    moreover have "pruneBad (tl names) (q1\<lparr>obBad := dir_remove (hd names) (obBad q1)\<rparr>) = (True, q')" "ok1"
      using 1(2) True i pruneBad.simps [of names q] by (auto split: if_splits)
    ultimately show ?thesis
      using 1(1) [OF True i [symmetric] refl] by simp
  next
    case False
    then have "obBad q' = obBad q"
      using 1(2) i io_frame [OF i] pruneBad.simps [of names q] by auto
    then show ?thesis using 1(3,4) False by (metis length_map not_less)
  qed
qed

lemma quarantineLocked_frame:
  assumes "quarantineLocked name file q = (ok, q')"
  shows "obLimits q' = obLimits q" "obDir q' = obDir q \<or> obDir q' = dir_remove name (obDir q)"
    "ok \<Longrightarrow> obDir q' = dir_remove name (obDir q)"
    "ok \<Longrightarrow> dir_ok (obBad q) \<Longrightarrow> length (obBad q') \<le> 16 \<and> dir_ok (obBad q')"
proof -
  obtain ok1 q1 where i1: "io q = (ok1, q1)" by (cases "io q")
  let ?q = "q1\<lparr>obDir := dir_remove name (obDir q1), obBad := dir_put name file (obBad q1)\<rparr>"
  obtain ok2 q2 where i2: "io ?q = (ok2, q2)" by (cases "io ?q")
  note f = io_frame [OF i1] io_frame [OF i2]
  have eq: "(ok, q') = (if \<not> ok1 then (False, q1) else if \<not> ok2 then (False, q2)
      else pruneBad (map fst (obBad q2)) q2)"
    using assms i1 i2 by (auto simp: quarantineLocked_def Let_def)
  then show "obLimits q' = obLimits q" "obDir q' = obDir q \<or> obDir q' = dir_remove name (obDir q)"
    "ok \<Longrightarrow> obDir q' = dir_remove name (obDir q)"
    using f by (auto split: if_splits dest!: pruneBad_frame [OF sym])
  show "length (obBad q') \<le> 16 \<and> dir_ok (obBad q')" if "ok" "dir_ok (obBad q)"
    using eq f that by (auto split: if_splits intro!: pruneBad_bound [of _ q2, OF _ refl] dest: sym)
qed

text \<open>Reading a listing drops corrupt files and nothing else.\<close>

definition listed :: "outbox \<Rightarrow> outbox \<Rightarrow> bool" where
  "listed q q' \<longleftrightarrow> dir_ok (obDir q') \<and> items_of (obDir q') = items_of (obDir q) \<and>
     obLimits q' = obLimits q \<and> set (obDir q') \<subseteq> set (obDir q)"

lemma listed_refl [simp]: "dir_ok (obDir q) \<Longrightarrow> listed q q"
  by (simp add: listed_def)

lemma listed_trans: "listed a b \<Longrightarrow> listed b c \<Longrightarrow> listed a c"
  by (auto simp: listed_def)

lemma io_listed: "io q = (ok, q') \<Longrightarrow> dir_ok (obDir q) \<Longrightarrow> listed q q'"
  using io_frame [of q ok q'] by (simp add: listed_def)

lemma corrupt_removed:
  assumes "dir_ok d" and "(n, f) \<in> set d" and "readOutboxRecord (Some f) = None"
  shows "items_of (dir_remove n d) = items_of d"
proof -
  have "itName it \<noteq> n" if elem: "it \<in> set (items_of d)" for it
  proof
    assume "itName it = n"
    then obtain g r where gr: "(n, g) \<in> set d" "readOutboxRecord (Some g) = Some r"
      using elem in_items_of [of it d] by auto
    have "g = f" using gr(1) assms(1,2) eq_key_imp_eq_value [of d n g f] by (simp add: dir_ok_def)
    then show False using gr(2) assms(3) by simp
  qed
  then show ?thesis by (simp add: items_of_dir_remove filter_id_conv)
qed

lemma listEntries_listed:
  assumes "listEntries es q = (res, q')" and "dir_ok (obDir q)" and "set es \<subseteq> set (obDir q)"
    and "distinct (map fst es)"
  shows "listed q q' \<and> (\<forall>items. res = Some items \<longrightarrow> items = items_of es)"
  using assms
proof (induction es q arbitrary: res q' rule: listEntries.induct)
  case (2 n f es q)
  show ?case
  proof (cases "f = SubDirectory \<or> \<not> has_suffix n ''.json''")
    case True
    then show ?thesis using 2(1) [OF True] 2(4-) by (cases f) (auto split: option.split)
  next
    case False
    show ?thesis
    proof (cases "readOutboxRecord (Some f)")
      case (Some r)
      obtain res1 q1 where rest: "listEntries es q = (res1, q1)" by (cases "listEntries es q")
      then show ?thesis
        using 2(3) [OF False Some rest] 2(4-) False Some by (auto split: option.splits)
    next
      case None
      obtain ok q1 where qu: "quarantineLocked n f q = (ok, q1)" by (cases "quarantineLocked n f q")
      note fr = quarantineLocked_frame [OF qu]
      have l1: "listed q q1"
        using fr(1,2) corrupt_removed [of "obDir q" n f] None 2(5,6)
        by (auto simp: listed_def set_dir_remove)
      show ?thesis
      proof (cases ok)
        case False
        then show ?thesis using 2(4) l1 qu None \<open>\<not> (f = SubDirectory \<or> \<not> has_suffix n ''.json'')\<close> by simp
      next
        case True
        have "set es \<subseteq> set (obDir q1)"
          using fr(3) [OF True] 2(6,7) by (force simp: set_dir_remove)
        then have "listed q1 q' \<and> (\<forall>items. res = Some items \<longrightarrow> items = items_of es)"
          using 2(2) [OF False None qu [symmetric]] 2(4,7) l1 qu None True False
          by (simp add: listed_def)
        then show ?thesis using l1 listed_trans None by auto
      qed
    qed
  qed
qed simp

lemma listLocked_listed:
  assumes "listLocked q = (res, q')" and "dir_ok (obDir q)"
  shows "listed q q'" "res = Some items \<Longrightarrow> items = items_of (obDir q)"
proof -
  obtain ok q1 where i: "io q = (ok, q1)" by (cases "io q")
  note l = io_listed [OF i assms(2)]
  have "listed q q' \<and> (\<forall>items. res = Some items \<longrightarrow> items = items_of (obDir q))"
  proof (cases ok)
    case False
    then show ?thesis using assms i l by (simp add: listLocked_def)
  next
    case True
    then have "listEntries (obDir q1) q1 = (res, q')" using assms i by (simp add: listLocked_def)
    from listEntries_listed [OF this] show ?thesis
      using l io_frame [OF i] assms(2) listed_trans [OF l] by (simp add: dir_ok_def)
  qed
  then show "listed q q'" "res = Some items \<Longrightarrow> items = items_of (obDir q)" by blast+
qed

subsection \<open>Eviction\<close>

definition within_limits :: "limits \<Rightarrow> outbox_item list \<Rightarrow> bool" where
  "within_limits l items \<longleftrightarrow> length items \<le> MaxItems l \<and> sum_list (map itemCost items) \<le> MaxBytes l"

text \<open>The fewest oldest items whose removal brings the queue within its limits.\<close>

fun keep_newest :: "limits \<Rightarrow> outbox_item list \<Rightarrow> outbox_item list" where
  "keep_newest l [] = []"
| "keep_newest l (item # items) =
     (if within_limits l (item # items) then item # items else keep_newest l items)"

lemma keep_newest_suffix: "\<exists>k. keep_newest l items = drop k items"
proof (induction items)
  case (Cons x xs)
  then obtain k where "keep_newest l xs = drop k xs" ..
  then show ?case by (auto intro: exI [of _ 0] exI [of _ "Suc k"])
qed simp

lemma keep_newest_within [simp]: "within_limits l (keep_newest l items)"
  by (induction items) (auto simp: within_limits_def)

lemma evict_keeps_newest:
  assumes "evict items cost q = (ok, q')" and "dir_ok (obDir q)" and "items_of (obDir q) = items"
    and "cost = sum_list (map itemCost items)"
  shows "dir_ok (obDir q') \<and> obLimits q' = obLimits q \<and> (\<exists>k. items_of (obDir q') = drop k items) \<and>
    set (obDir q') \<subseteq> set (obDir q) \<and>
    (ok \<longrightarrow> items_of (obDir q') = keep_newest (obLimits q) items)"
  using assms
proof (induction items cost q arbitrary: ok q' rule: evict.induct)
  case (1 cost q)
  then show ?case using io_frame by fastforce
next
  case (2 oldest items cost q)
  obtain ok1 q1 where i: "io q = (ok1, q1)" by (cases "io q")
  note f = io_frame [OF i]
  have over: "MaxItems (obLimits q) < length (oldest # items) \<or> MaxBytes (obLimits q) < cost \<longleftrightarrow>
      \<not> within_limits (obLimits q) (oldest # items)"
    using 2(5) by (auto simp: within_limits_def)
  show ?case
  proof (cases "\<not> within_limits (obLimits q) (oldest # items) \<and> ok1")
    case True
    let ?q = "q1\<lparr>obDir := dir_remove (itName oldest) (obDir q1)\<rparr>"
    have ev: "evict items (cost - itemCost oldest) ?q = (ok, q')"
      using 2(2) True over i by simp
    have "sorted_wrt (\<lambda>a b. itName a < itName b) (oldest # items)"
      using items_of_sorted [OF 2(3)] 2(4) by simp
    then have "filter (\<lambda>it. itName it \<noteq> itName oldest) (oldest # items) = items"
      by (auto simp: filter_id_conv)
    then have items: "items_of (obDir ?q) = items"
      using 2(4) f by (simp add: items_of_dir_remove)
    have "dir_ok (obDir q') \<and> obLimits q' = obLimits ?q \<and> (\<exists>k. items_of (obDir q') = drop k items) \<and>
        set (obDir q') \<subseteq> set (obDir ?q) \<and>
        (ok \<longrightarrow> items_of (obDir q') = keep_newest (obLimits ?q) items)"
      by (rule 2(1) [OF _ refl i [symmetric] _ ev])
        (use True over 2(3,5) f items in simp_all)
    then show ?thesis
      using True f by (auto simp: set_dir_remove intro: exI [of _ "Suc k" for k])
  next
    case False
    then have "obDir q' = obDir q \<and> obLimits q' = obLimits q \<and>
        (ok \<longrightarrow> within_limits (obLimits q) (oldest # items))"
      using 2(2) over i f by (auto split: if_splits)
    then show ?thesis using 2(3,4) by (auto intro: exI [of _ 0])
  qed
qed

lemma enforceLimitsLocked_keeps:
  assumes "enforceLimitsLocked q = (ok, q')" and "dir_ok (obDir q)"
  shows "dir_ok (obDir q') \<and> obLimits q' = obLimits q \<and>
    (\<exists>k. items_of (obDir q') = drop k (items_of (obDir q))) \<and> set (obDir q') \<subseteq> set (obDir q) \<and>
    (ok \<longrightarrow> items_of (obDir q') = keep_newest (obLimits q) (items_of (obDir q)))"
proof -
  obtain res q1 where l: "listLocked q = (res, q1)" by (cases "listLocked q")
  note ls = listLocked_listed [OF l assms(2)]
  show ?thesis
  proof (cases res)
    case None
    then show ?thesis using assms l ls(1) by (auto simp: enforceLimitsLocked_def listed_def intro: exI [of _ 0])
  next
    case (Some items)
    then have "evict items (sum_list (map itemCost items)) q1 = (ok, q')"
      using assms(1) l by (simp add: enforceLimitsLocked_def)
    from evict_keeps_newest [OF this] show ?thesis
      using ls Some by (auto simp: listed_def)
  qed
qed

lemma keep_newest_fits: "within_limits l items \<Longrightarrow> keep_newest l items = items"
  by (cases items) auto

subsection \<open>The queue's contract\<close>

definition queue_inv :: "outbox \<Rightarrow> bool" where
  "queue_inv q \<longleftrightarrow> dir_ok (obDir q) \<and>
     (\<forall>it\<in>set (items_of (obDir q)). itName it = json_name (itID it) \<and> path_base (itID it) = itID it)"

definition contents :: "outbox \<Rightarrow> bytes \<Rightarrow> (bytes \<times> bytes list) option" where
  "contents q i = map_option (\<lambda>r. (orBody r, orPending r))
     (readOutboxRecord (map_of (obDir q) (json_name i)))"

lemma map_of_item:
  assumes "dir_ok (obDir q)" and "map_of (obDir q) (json_name i) = Some f"
    and "readOutboxRecord (Some f) = Some r"
  shows "item_of (json_name i) r \<in> set (items_of (obDir q))"
  unfolding in_items_of using assms(3) map_of_SomeD [OF assms(2)] has_suffix_json by blast

lemma item_map_of:
  assumes "dir_ok (obDir q)" and "it \<in> set (items_of (obDir q))"
  obtains f r where "map_of (obDir q) (itName it) = Some f" "readOutboxRecord (Some f) = Some r"
    "it = item_of (itName it) r"
proof -
  obtain n f r where nf: "(n, f) \<in> set (obDir q)" "readOutboxRecord (Some f) = Some r" "it = item_of n r"
    using assms(2) in_items_of [of it "obDir q"] by auto
  then have "map_of (obDir q) n = Some f"
    using assms(1) by (simp add: dir_ok_def)
  then show thesis using nf by (intro that [of f r]) simp_all
qed

lemma contents_items:
  assumes "queue_inv q"
  shows "contents q i = Some (b, ds) \<longleftrightarrow>
    (\<exists>it\<in>set (items_of (obDir q)). itID it = i \<and> itBody it = b \<and> itPending it = ds)"
proof
  assume "contents q i = Some (b, ds)"
  then obtain f r where f: "map_of (obDir q) (json_name i) = Some f"
      "readOutboxRecord (Some f) = Some r" "b = orBody r" "ds = orPending r"
    by (cases "map_of (obDir q) (json_name i)") (auto simp: contents_def)
  have "item_of (json_name i) r \<in> set (items_of (obDir q))"
    using map_of_item [OF _ f(1,2)] assms by (simp add: queue_inv_def)
  moreover from this have "orID r = i" using assms by (force simp: queue_inv_def)
  ultimately show "\<exists>it\<in>set (items_of (obDir q)). itID it = i \<and> itBody it = b \<and> itPending it = ds"
    using f(3,4) by (intro bexI [of _ "item_of (json_name i) r"]) simp_all
next
  assume "\<exists>it\<in>set (items_of (obDir q)). itID it = i \<and> itBody it = b \<and> itPending it = ds"
  then obtain it where it: "it \<in> set (items_of (obDir q))" "itID it = i" "itBody it = b" "itPending it = ds"
    by blast
  have ok: "dir_ok (obDir q)" and nm: "itName it = json_name i"
    using assms it by (auto simp: queue_inv_def)
  obtain f r where "map_of (obDir q) (itName it) = Some f" "readOutboxRecord (Some f) = Some r"
      "it = item_of (itName it) r"
    by (rule item_map_of [OF ok it(1)])
  then show "contents q i = Some (b, ds)" using it nm by (auto simp: contents_def)
qed

lemma contents_eqI:
  assumes "queue_inv q" and "queue_inv q'" and "items_of (obDir q') = items_of (obDir q)"
  shows "contents q' = contents q"
proof
  fix i
  have "contents q' i = Some bp \<longleftrightarrow> contents q i = Some bp" for bp
    using contents_items [OF assms(1)] contents_items [OF assms(2)] assms(3) by (cases bp) simp
  then show "contents q' i = contents q i" by (metis not_Some_eq)
qed

lemma listed_contract: "listed q q' \<Longrightarrow> queue_inv q \<Longrightarrow> queue_inv q' \<and> contents q' = contents q"
  using contents_eqI [of q q'] by (simp add: listed_def queue_inv_def)

lemma dec_digits_plain: "CHR ''/'' \<notin> set (dec_digits n)"
proof (induction n rule: dec_digits.induct)
  case (1 n)
  have "CHR ''/'' \<noteq> char_of (d + 48)" if "d < 10" for d :: nat
  proof
    assume "CHR ''/'' = char_of (d + 48)"
    then have "of_char (char_of (d + 48) :: char) = (of_char CHR ''/'' :: nat)" by metis
    then show False using that by simp
  qed
  then show ?case using 1 by (subst dec_digits.simps) (auto simp: not_less)
qed

lemma hex_digit_plain: "d < 16 \<Longrightarrow> CHR ''/'' \<noteq> hex_digit d"
proof
  assume "d < 16" "CHR ''/'' = hex_digit d"
  then have "hex_value CHR ''/'' = Some d" using hex_value_digit [of d] by simp
  then show False by (simp add: hex_value_def digit_value_def Let_def)
qed

lemma nibble_bound: "of_char (c :: char) div 16 < (16 :: nat)"
  by (rule less_mult_imp_div_less) simp

lemma path_base_newOutboxID [simp]: "path_base (newOutboxID nanos random) = newOutboxID nanos random"
proof (rule path_base_plain)
  show "newOutboxID nanos random \<noteq> []" by (simp add: newOutboxID_def)
  have "CHR ''/'' \<notin> set (hex_encode random)"
    using hex_digit_plain [of "of_char c div 16" for c :: char]
      hex_digit_plain [of "of_char c mod 16" for c :: char] nibble_bound by (auto simp: hex_encode_def)
  then show "CHR ''/'' \<notin> set (newOutboxID nanos random)"
    by (simp add: newOutboxID_def pad_zeros_def dec_digits_plain)
qed

lemma newOutboxID_ne [simp]: "newOutboxID nanos random \<noteq> []"
  by (simp add: newOutboxID_def)

definition fresh_id :: "outbox \<Rightarrow> nat \<times> bytes \<Rightarrow> bool" where
  "fresh_id q x \<longleftrightarrow> map_of (obDir q) (json_name (newOutboxID (fst x) (snd x))) = None"

definition new_item :: "bytes \<Rightarrow> bytes list \<Rightarrow> bytes \<Rightarrow> outbox_item" where
  "new_item body destinations i =
     \<lparr>itID = i, itBody = body, itPending = uniqueDestinations destinations, itName = json_name i\<rparr>"

text \<open>What \<open>Put\<close> does to the queue, with a fresh identifier.\<close>

lemma Put_items:
  assumes "Put body destinations nanos random q = (res, q')" and "queue_inv q"
    and "fresh_id q (nanos, random)"
  defines "i \<equiv> newOutboxID nanos random"
  defines "items \<equiv> insort_key itName (new_item body destinations i) (items_of (obDir q))"
  shows "queue_inv q' \<and> obLimits q' = obLimits q \<and>
    (items_of (obDir q') = items_of (obDir q) \<and> (\<forall>j. res \<noteq> Inr j) \<or> (\<exists>k. items_of (obDir q') = drop k items)) \<and>
    (\<forall>j. res = Inr j \<longrightarrow> j = i \<and> items_of (obDir q') = keep_newest (obLimits q) items \<and>
       new_item body destinations i \<in> set (items_of (obDir q')))"
proof (cases "body = [] \<or> uniqueDestinations destinations = [] \<or> destinations = []")
  case True
  then show ?thesis using assms(1,2) by (auto simp: Put_def Let_def split: if_splits)
next
  case False
  let ?r = "\<lparr>orVersion = outboxRecordVersion, orID = i, orBody = body,
               orPending = uniqueDestinations destinations\<rparr>"
  let ?f = "RecordText (JsonDoc ?r)"
  have rd: "readOutboxRecord (Some ?f) = Some ?r" using False by (simp add: valid_record_def i_def)
  have it: "item_of (json_name i) ?r = new_item body destinations i"
    by (simp add: item_of_def new_item_def)
  have d: "dir_ok (obDir q)" using assms(2) by (simp add: queue_inv_def)
  obtain ok1 q1 where i1: "io q = (ok1, q1)" by (cases "io q")
  note f1 = io_frame [OF i1]
  let ?q1 = "q1\<lparr>obDir := dir_put (json_name i) ?f (obDir q1)\<rparr>"
  have "filter (\<lambda>it. itName it \<noteq> json_name i) (items_of (obDir q)) = items_of (obDir q)"
    using assms(3) unfolding filter_id_conv fresh_id_def i_def map_of_eq_None_iff fst_conv snd_conv
    by (metis items_of_names)
  then have items1: "items_of (obDir ?q1) = items"
    using items_of_dir_put [OF rd has_suffix_json d] f1 it by (simp add: items_def)
  have ok1: "dir_ok (obDir ?q1)" using d f1 by simp
  obtain ok2 q2 where e2: "enforceLimitsLocked ?q1 = (ok2, q2)" by (cases "enforceLimitsLocked ?q1")
  note en = enforceLimitsLocked_keeps [OF e2 ok1, unfolded items1]
  obtain ok3 q3 where i3: "io q2 = (ok3, q3)" by (cases "io q2")
  note f3 = io_frame [OF i3]
  have eq: "(res, q') = (if \<not> ok1 then (Inl PutIO, q1) else if \<not> ok2 then (Inl PutIO, q2)
      else if \<not> ok3 then (Inl PutIO, q3)
      else if map_of (obDir q3) (json_name i) = None then (Inl PutExceedsLimits, q3) else (Inr i, q3))"
    using assms(1) False unfolding Put_def Let_def i_def [symmetric] i1 prod.case e2 i3 by simp
  have inv_items: "itName it = json_name (itID it) \<and> path_base (itID it) = itID it" if "it \<in> set items" for it
    using that assms(2) by (auto simp: items_def set_insort_key queue_inv_def new_item_def i_def)
  have inv_drop: "queue_inv p" if "dir_ok (obDir p)" "items_of (obDir p) = drop k items" for p k
    using that inv_items by (auto simp: queue_inv_def dest: in_set_dropD)
  show ?thesis
  proof (cases ok1)
    case False
    then show ?thesis using eq f1 assms(2) by (auto simp: queue_inv_def)
  next
    case True
    then have dir: "obDir q' = obDir q2" "obLimits q' = obLimits q"
      using eq f3 en f1 by (auto split: if_splits)
    have "new_item body destinations i \<in> set (items_of (obDir q'))" "items_of (obDir q') = keep_newest (obLimits q) items"
      "j = i" if "res = Inr j" for j
    proof -
      have oks: "ok2" "map_of (obDir q2) (json_name i) \<noteq> None" and "j = i"
        using eq that f3 by (auto split: if_splits)
      then show "j = i" by simp
      show kn: "items_of (obDir q') = keep_newest (obLimits q) items" using en oks(1) dir f1 by simp
      obtain f where f: "map_of (obDir q2) (json_name i) = Some f" using oks(2) by blast
      then have "(json_name i, f) \<in> set (obDir ?q1)" using en by (auto dest: map_of_SomeD)
      then have "map_of (obDir ?q1) (json_name i) = Some f" unfolding dir_ok_lookup [OF ok1] .
      then have "f = ?f" by simp
      then show "new_item body destinations i \<in> set (items_of (obDir q'))"
        using map_of_item [of q2 i f ?r] f rd it en dir by simp
    qed
    moreover have "queue_inv q'" using en dir inv_drop by metis
    ultimately show ?thesis using en dir by auto
  qed
qed

lemma Put_contract:
  assumes "Put body destinations nanos random q = (res, q')" and "queue_inv q"
    and "fresh_id q (nanos, random)"
  defines "i \<equiv> newOutboxID nanos random"
  shows "queue_inv q'" "j \<noteq> i \<Longrightarrow> contents q' j = contents q j \<or> contents q' j = None"
    "res = Inr k \<Longrightarrow> k = i \<and> contents q' k = Some (body, uniqueDestinations destinations)"
proof -
  note p = Put_items [OF assms(1-3), folded i_def]
  show qi: "queue_inv q'" using p by blast
  let ?new = "new_item body destinations i"
  have sub: "set (items_of (obDir q')) \<subseteq> insert ?new (set (items_of (obDir q)))"
    using p set_drop_subset [of _ "insort_key itName ?new (items_of (obDir q))"]
    by (metis set_insort_key subset_insertI order_refl)
  show "contents q' j = contents q j \<or> contents q' j = None" if "j \<noteq> i"
  proof (cases "contents q' j")
    case (Some bp)
    then obtain it where it: "it \<in> set (items_of (obDir q'))" "itID it = j" "bp = (itBody it, itPending it)"
      using contents_items [OF qi, of j] by (cases bp) auto
    then have "it \<in> set (items_of (obDir q))" using sub that by (auto simp: new_item_def)
    then have "contents q j = Some bp" using contents_items [OF assms(2)] it by auto
    then show ?thesis using Some by simp
  qed simp
  show "k = i \<and> contents q' k = Some (body, uniqueDestinations destinations)" if "res = Inr k"
  proof -
    have "k = i" "?new \<in> set (items_of (obDir q'))" using p that by blast+
    moreover from this have "contents q' i = Some (body, uniqueDestinations destinations)"
      unfolding contents_items [OF qi] by (intro bexI [of _ ?new]) (simp_all add: new_item_def)
    ultimately show ?thesis by simp
  qed
qed

lemma readOutboxRecord_Some:
  "readOutboxRecord f = Some r \<Longrightarrow> f = Some (RecordText (JsonDoc r)) \<and> valid_record r"
  by (induction f rule: readOutboxRecord.induct) (auto split: if_splits)

lemma Ack_contract:
  assumes "Ack i d q = (ok, q')" and "queue_inv q" and "path_base i = i"
  shows "queue_inv q' \<and> (\<forall>j. j \<noteq> i \<longrightarrow> contents q' j = contents q j) \<and>
    (contents q' i = contents q i \<or> contents q' i = drop_destination d (contents q i)) \<and>
    (ok \<longrightarrow> contents q' i = drop_destination d (contents q i))"
proof -
  have same: ?thesis if "obDir q' = obDir q" "\<not> ok"
    using that assms(2) by (simp add: queue_inv_def contents_def)
  have dirok: "dir_ok (obDir q)" using assms(2) by (simp add: queue_inv_def)
  obtain ok1 q1 where i1: "io q = (ok1, q1)" by (cases "io q")
  obtain ok2 q2 where i2: "io q1 = (ok2, q2)" by (cases "io q1")
  note f = io_frame [OF i1] io_frame [OF i2]
  let ?n = "json_name (path_base i)"
  show ?thesis
  proof (cases "i = [] \<or> d = [] \<or> \<not> ok1 \<or> readOutboxRecord (map_of (obDir q) ?n) = None \<or> \<not> ok2")
    case True
    then have "obDir q' = obDir q \<and> \<not> ok"
      using assms(1) i1 i2 f by (auto simp: Ack_def Let_def split: if_splits option.splits)
    then show ?thesis using same by blast
  next
    case False
    then obtain r where r: "readOutboxRecord (map_of (obDir q) ?n) = Some r" by auto
    then obtain g where g: "map_of (obDir q) ?n = Some g" "readOutboxRecord (Some g) = Some r"
      by (cases "map_of (obDir q) ?n") auto
    have id: "orID r = path_base i" "path_base i = i"
      using map_of_item [OF dirok g] assms(2,3) by (force simp: queue_inv_def)+
    have ci: "contents q i = Some (orBody r, orPending r)" using r id by (simp add: contents_def)
    let ?pend = "filter (\<lambda>x. x \<noteq> d) (orPending r)"
    let ?r = "r\<lparr>orPending := ?pend\<rparr>"
    let ?f = "RecordText (JsonDoc ?r)"
    have dir: "obDir q' = (if ?pend = [] then dir_remove ?n (obDir q) else dir_put ?n ?f (obDir q))"
      using assms(1) False i1 i2 f r
      by (auto simp: Ack_def Let_def split: if_splits dest: io_frame [THEN conjunct1])
    have inv: "queue_inv q'"
    proof (cases "?pend = []")
      case True
      then show ?thesis using assms(2) dir by (auto simp: queue_inv_def items_of_dir_remove)
    next
      case False
      have rd: "readOutboxRecord (Some ?f) = Some ?r"
        using False readOutboxRecord_Some [OF r] by (simp add: valid_record_def)
      show ?thesis
        using assms(2) dir False id items_of_dir_put [OF rd has_suffix_json dirok]
        by (auto simp: queue_inv_def set_insort_key)
    qed
    have other: "contents q' j = contents q j" if "j \<noteq> i" for j
      using that id by (simp add: contents_def dir)
    have "contents q' i = drop_destination d (contents q i)"
      using id readOutboxRecord_Some [OF r] unfolding ci contents_def dir
      by (auto simp: drop_destination_def valid_record_def)
    then show ?thesis using inv other by blast
  qed
qed

text \<open>The outbox provides the reporter's interface.\<close>

interpretation outbox_queue: report_queue queue_inv contents "\<lambda>i. path_base i = i" fresh_id "\<lambda>x. newOutboxID (fst x) (snd x)"
  listLocked "\<lambda>b ds x. Put b ds (fst x) (snd x)" Ack
proof (unfold_locales, goal_cases)
  case (1 q res q')
  then show ?case using listed_contract [OF listLocked_listed(1)] by (simp add: queue_inv_def)
next
  case (2 q items q')
  then have items: "items = items_of (obDir q)" using listLocked_listed(2) by (auto simp: queue_inv_def)
  show ?case
  proof (intro conjI ballI allI impI)
    fix it assume "it \<in> set items"
    then show "path_base (itID it) = itID it" "contents q (itID it) = Some (itBody it, itPending it)"
      using contents_items [OF 2(1)] items 2(1) by (auto simp: queue_inv_def)
  next
    fix i assume "contents q i \<noteq> None"
    then obtain b ds where "contents q i = Some (b, ds)" by auto
    then show "i \<in> itID ` set items" using contents_items [OF 2(1)] items by force
  qed
next
  case (3 q x b ds res q')
  then show ?case using Put_contract(1,2) [OF 3(3,1)] by simp
next
  case (4 q x b ds i q')
  then show ?case using Put_contract(3) [OF 4(3,1)] by (metis prod.collapse)
next
  case (5 q i d ok q')
  then show ?case using Ack_contract [OF 5(3,1,2)] by blast
next
  case (6 q i d q')
  then show ?case using Ack_contract [OF 6(3,1,2)] by blast
qed

subsection \<open>Properties\<close>

definition sample_outbox :: outbox where
  "sample_outbox = \<lparr>obDir = [], obBad = [],
     obLimits = \<lparr>MaxItems = 2, MaxBytes = 100\<rparr>, obFaults = []\<rparr>"

lemma sample_outbox_inv: "queue_inv sample_outbox" "fresh_id sample_outbox (5, ''r'')"
  by (simp_all add: queue_inv_def sample_outbox_def dir_ok_def fresh_id_def json_name_def
      newOutboxID_def pad_zeros_def)

text \<open>A report that \<open>Put\<close> accepts is stored, and the queue then holds exactly the newest items that
  fit the configured number and total size: the fewest oldest items are evicted.\<close>

theorem Put_keeps_newest:
  assumes "queue_inv q" and "fresh_id q (nanos, random)"
    and "Put body destinations nanos random q = (Inr i, q')"
  shows "i = newOutboxID nanos random \<and> within_limits (obLimits q) (items_of (obDir q')) \<and>
    new_item body destinations i \<in> set (items_of (obDir q')) \<and>
    items_of (obDir q') = keep_newest (obLimits q)
      (insort_key itName (new_item body destinations i) (items_of (obDir q)))"
  using Put_items [OF assms(3,1,2)] by auto

lemma sample_put:
  "fst (Put ''report'' [''a'', ''b'', ''a''] 5 ''r'' sample_outbox) = Inr (newOutboxID 5 ''r'')"
  by (simp add: Put_def sample_outbox_def uniqueDestinations_def io_def enforceLimitsLocked_def
      listLocked_def dir_put_def json_name_def newOutboxID_def pad_zeros_def valid_record_def
      outboxRecordVersion_def has_suffix_def has_prefix_def dec_digits.simps hex_encode_def
      hex_digit_def item_of_def itemCost_def Let_def)

theorem Put_keeps_newest_witness:
  "new_item ''report'' [''a'', ''b'', ''a''] (newOutboxID 5 ''r'') \<in>
     set (items_of (obDir (snd (Put ''report'' [''a'', ''b'', ''a''] 5 ''r'' sample_outbox))))"
proof -
  have "Put ''report'' [''a'', ''b'', ''a''] 5 ''r'' sample_outbox =
      (Inr (newOutboxID 5 ''r''), snd (Put ''report'' [''a'', ''b'', ''a''] 5 ''r'' sample_outbox))"
    using sample_put by (metis prod.collapse)
  from Put_keeps_newest [OF sample_outbox_inv this] show ?thesis by blast
qed

text \<open>Listing the queue never loses a readable report: it returns exactly the readable report files
  in name order, and what it moves away are only files it cannot read.\<close>

theorem listLocked_complete:
  assumes "dir_ok (obDir q)" and "listLocked q = (res, q')"
  shows "(\<forall>items. res = Some items \<longrightarrow> items = items_of (obDir q)) \<and>
    items_of (obDir q') = items_of (obDir q) \<and> set (obDir q') \<subseteq> set (obDir q)"
  using listLocked_listed [OF assms(2,1)] by (auto simp: listed_def)

theorem listLocked_complete_witness:
  "items_of (obDir (snd (listLocked (sample_outbox\<lparr>obDir :=
      [(''a.json'', Unreadable), (''b.json'', RecordText (JsonDoc
        \<lparr>orVersion = ''1'', orID = ''b'', orBody = ''x'', orPending = [''d'']\<rparr>))]\<rparr>)))) =
   [\<lparr>itID = ''b'', itBody = ''x'', itPending = [''d''], itName = ''b.json''\<rparr>]"
  using listLocked_complete [OF _ surjective_pairing, of "sample_outbox\<lparr>obDir :=
      [(''a.json'', Unreadable), (''b.json'', RecordText (JsonDoc
        \<lparr>orVersion = ''1'', orID = ''b'', orBody = ''x'', orPending = [''d'']\<rparr>))]\<rparr>"]
  by (simp add: dir_ok_def valid_record_def outboxRecordVersion_def has_suffix_def has_prefix_def item_of_def)

end
