(* ===== verification/Reporter.thy ===== *)
theory Reporter
  imports Outbox
begin

text \<open>
  \<open>internal/agent/reporter.go\<close>: delivery of queued reports to the configured destinations. The
  operations take the queue's \<open>List\<close>, \<open>Put\<close> and \<open>Ack\<close>, so that the delivery guarantees are proved from
  the interface \<open>report_queue\<close> and hold for the outbox through its interpretation. The network is the
  record \<open>delivery\<close>: the answers of the next checks of the context and of the next sends, and the log
  of the bodies that destinations accepted.
\<close>

record delivery =
  deCancels :: "bool list"
  deSends :: "bool list"
  deLog :: "(bytes \<times> bytes) list"

datatype flush_error = FlushList | FlushCancelled | FlushAck | ReportPending

definition contextErr :: "delivery \<Rightarrow> bool \<times> delivery" where
  "contextErr e = (case deCancels e of [] \<Rightarrow> (False, e) | b # bs \<Rightarrow> (b, e\<lparr>deCancels := bs\<rparr>))"

definition sinkSend :: "bytes \<Rightarrow> bytes \<Rightarrow> delivery \<Rightarrow> bool \<times> delivery" where
  "sinkSend destination body e =
     (let (ok, rest) = (case deSends e of [] \<Rightarrow> (True, []) | b # bs \<Rightarrow> (b, bs)) in
      (ok, e\<lparr>deSends := rest,
             deLog := (if ok then deLog e @ [(destination, body)] else deLog e)\<rparr>))"

fun NewReporter :: "(bytes \<times> bool) list \<Rightarrow> bytes list \<Rightarrow> bytes list option" where
  "NewReporter [] ids = (if ids = [] then None else Some ids)"
| "NewReporter ((i, hasSink) # ds) ids =
     (if i = [] \<or> \<not> hasSink \<or> i \<in> set ids then None else NewReporter ds (ids @ [i]))"

fun flushDestinations ::
    "(bytes \<Rightarrow> bytes \<Rightarrow> 'q \<Rightarrow> bool \<times> 'q) \<Rightarrow> bytes list \<Rightarrow> outbox_item \<Rightarrow> bytes list \<Rightarrow> bool \<Rightarrow> 'q \<Rightarrow> delivery \<Rightarrow>
     flush_error option \<times> bool \<times> 'q \<times> delivery" where
  "flushDestinations ack ids item [] pending q e = (None, pending, q, e)"
| "flushDestinations ack ids item (d # ds) pending q e =
     (let (cancelled, e) = contextErr e in
      if cancelled then (Some FlushCancelled, pending, q, e)
      else if d \<notin> set ids then flushDestinations ack ids item ds True q e
      else
        let (ok, e) = sinkSend d (itBody item) e in
        if \<not> ok then flushDestinations ack ids item ds True q e
        else
          let (ok, q) = ack (itID item) d q in
          if \<not> ok then (Some FlushAck, pending, q, e)
          else flushDestinations ack ids item ds pending q e)"

fun flushItems ::
    "(bytes \<Rightarrow> bytes \<Rightarrow> 'q \<Rightarrow> bool \<times> 'q) \<Rightarrow> bytes list \<Rightarrow> outbox_item list \<Rightarrow> bool \<Rightarrow> 'q \<Rightarrow> delivery \<Rightarrow>
     flush_error option \<times> bool \<times> 'q \<times> delivery" where
  "flushItems ack ids [] pending q e = (None, pending, q, e)"
| "flushItems ack ids (item # items) pending q e =
     (case flushDestinations ack ids item (itPending item) pending q e of
        (Some err, pending, q, e) \<Rightarrow> (Some err, pending, q, e)
      | (None, pending, q, e) \<Rightarrow> flushItems ack ids items pending q e)"

definition Flush ::
    "('q \<Rightarrow> outbox_item list option \<times> 'q) \<Rightarrow> (bytes \<Rightarrow> bytes \<Rightarrow> 'q \<Rightarrow> bool \<times> 'q) \<Rightarrow> bytes list \<Rightarrow>
     'q \<Rightarrow> delivery \<Rightarrow> flush_error option \<times> 'q \<times> delivery" where
  "Flush listq ack ids q e =
     (case listq q of
        (None, q) \<Rightarrow> (Some FlushList, q, e)
      | (Some items, q) \<Rightarrow>
          (case flushItems ack ids items False q e of
             (Some err, pending, q, e) \<Rightarrow> (Some err, q, e)
           | (None, pending, q, e) \<Rightarrow> (if pending then Some ReportPending else None, q, e)))"

datatype 'e send_error = SendPut 'e | SendFlush flush_error | NotConfigured | RequiredPending | SendList

definition SendReport ::
    "('q \<Rightarrow> outbox_item list option \<times> 'q) \<Rightarrow> (bytes \<Rightarrow> bytes list \<Rightarrow> 'i \<Rightarrow> 'q \<Rightarrow> ('e + bytes) \<times> 'q) \<Rightarrow>
     (bytes \<Rightarrow> bytes \<Rightarrow> 'q \<Rightarrow> bool \<times> 'q) \<Rightarrow> bytes list \<Rightarrow> bytes \<Rightarrow> 'i \<Rightarrow> 'q \<Rightarrow> delivery \<Rightarrow>
     'e send_error option \<times> 'q \<times> delivery" where
  "SendReport listq put ack ids body x q e =
     (case put body ids x q of
        (Inl err, q) \<Rightarrow> (Some (SendPut err), q, e)
      | (Inr i, q) \<Rightarrow> (case Flush listq ack ids q e of (err, q, e) \<Rightarrow> (map_option SendFlush err, q, e)))"

definition requiredPending :: "bytes \<Rightarrow> bytes \<Rightarrow> outbox_item list \<Rightarrow> bool" where
  "requiredPending i required items =
     (case find (\<lambda>item. itID item = i) items of
        None \<Rightarrow> False
      | Some item \<Rightarrow> required \<in> set (itPending item))"

definition SendRequired ::
    "('q \<Rightarrow> outbox_item list option \<times> 'q) \<Rightarrow> (bytes \<Rightarrow> bytes list \<Rightarrow> 'i \<Rightarrow> 'q \<Rightarrow> ('e + bytes) \<times> 'q) \<Rightarrow>
     (bytes \<Rightarrow> bytes \<Rightarrow> 'q \<Rightarrow> bool \<times> 'q) \<Rightarrow> bytes list \<Rightarrow> bytes \<Rightarrow> bytes \<Rightarrow> 'i \<Rightarrow> 'q \<Rightarrow> delivery \<Rightarrow>
     'e send_error option \<times> 'q \<times> delivery" where
  "SendRequired listq put ack ids body required x q e =
     (if required \<notin> set ids then (Some NotConfigured, q, e)
      else case put body ids x q of
        (Inl err, q) \<Rightarrow> (Some (SendPut err), q, e)
      | (Inr i, q) \<Rightarrow>
          (case Flush listq ack ids q e of (err, q, e) \<Rightarrow>
             (case listq q of
                (None, q) \<Rightarrow> (Some SendList, q, e)
              | (Some items, q) \<Rightarrow>
                  (if requiredPending i required items then Some RequiredPending else None, q, e))))"

subsection \<open>Delivery from any queue\<close>

definition owes :: "(bytes \<Rightarrow> (bytes \<times> bytes list) option) \<Rightarrow> bytes \<Rightarrow> bytes \<Rightarrow> bytes \<Rightarrow> bool" where
  "owes p i d b \<longleftrightarrow> (case p i of None \<Rightarrow> False | Some (b', ds) \<Rightarrow> b' = b \<and> d \<in> set ds)"

text \<open>From one state to the next, the log grows and every delivery that is no longer owed is in it.\<close>

definition delivers ::
    "(bytes \<Rightarrow> (bytes \<times> bytes list) option) \<Rightarrow> delivery \<Rightarrow> (bytes \<Rightarrow> (bytes \<times> bytes list) option) \<Rightarrow> delivery \<Rightarrow> bool" where
  "delivers p e p' e' \<longleftrightarrow>
     (\<exists>l. deLog e' = deLog e @ l \<and>
        (\<forall>i d b. owes p' i d b \<longrightarrow> owes p i d b) \<and>
        (\<forall>i d b. owes p i d b \<longrightarrow> owes p' i d b \<or> (d, b) \<in> set l))"

lemma delivers_refl [simp]: "delivers p e p e"
  by (auto simp: delivers_def)

lemma delivers_trans:
  assumes "delivers p e p' e'" and "delivers p' e' p'' e''"
  shows "delivers p e p'' e''"
proof -
  obtain l l' where l: "deLog e' = deLog e @ l" "deLog e'' = deLog e' @ l'"
      "\<And>i d b. owes p' i d b \<Longrightarrow> owes p i d b" "\<And>i d b. owes p'' i d b \<Longrightarrow> owes p' i d b"
      "\<And>i d b. owes p i d b \<Longrightarrow> owes p' i d b \<or> (d, b) \<in> set l"
      "\<And>i d b. owes p' i d b \<Longrightarrow> owes p'' i d b \<or> (d, b) \<in> set l'"
    using assms unfolding delivers_def by blast
  have "deLog e'' = deLog e @ (l @ l')" using l(1,2) by simp
  moreover have "owes p'' i d b \<or> (d, b) \<in> set (l @ l')" if "owes p i d b" for i d b
    using l(5,6) that by (metis UnCI set_append)
  moreover have "owes p i d b" if "owes p'' i d b" for i d b
    using l(3,4) that by blast
  ultimately show ?thesis unfolding delivers_def by blast
qed

lemma delivers_log: "deLog e' = deLog e @ l \<Longrightarrow> delivers p e p e'"
  by (auto simp: delivers_def)

lemma owes_drop:
  "owes (p(i := drop_destination d (p i))) j d' b \<longleftrightarrow> owes p j d' b \<and> \<not> (j = i \<and> d' = d)"
proof (cases "j = i")
  case True
  show ?thesis
  proof (cases "p i")
    case (Some bp)
    obtain b' ds where "bp = (b', ds)" by (cases bp)
    moreover have "d' \<in> set ds \<and> d' \<noteq> d \<Longrightarrow> filter (\<lambda>x. x \<noteq> d) ds \<noteq> []"
      by (auto simp: filter_empty_conv)
    ultimately show ?thesis using True Some by (auto simp: owes_def drop_destination_def Let_def)
  qed (simp add: owes_def drop_destination_def True)
qed (simp add: owes_def)

lemma contextErr_log: "contextErr e = (c, e') \<Longrightarrow> deLog e' = deLog e"
  by (auto simp: contextErr_def split: list.splits)

lemma sinkSend_log: "sinkSend d b e = (ok, e') \<Longrightarrow> deLog e' = deLog e @ (if ok then [(d, b)] else [])"
  by (auto simp: sinkSend_def Let_def split: list.splits)

definition body_is :: "(bytes \<Rightarrow> (bytes \<times> bytes list) option) \<Rightarrow> outbox_item \<Rightarrow> bool" where
  "body_is p item \<longleftrightarrow> (\<forall>d b. owes p (itID item) d b \<longrightarrow> b = itBody item)"

lemma body_is_mono: "body_is p item \<Longrightarrow> delivers p e p' e' \<Longrightarrow> body_is p' item"
  unfolding body_is_def delivers_def by blast

context report_queue
begin

lemma ack_step:
  assumes "inv q" and "plain i" and "ackq i d q = (ok, q')"
  shows "inv q'"
    "pending_of q' = pending_of q \<or> pending_of q' = (pending_of q)(i := drop_destination d (pending_of q i))"
    "ok \<Longrightarrow> pending_of q' = (pending_of q)(i := drop_destination d (pending_of q i))"
proof -
  have eqI: "pending_of q' = (pending_of q)(i := x)" if "pending_of q' i = x" for x
  proof
    fix j show "pending_of q' j = ((pending_of q)(i := x)) j"
      using that ack_law [OF assms] by (cases "j = i") simp_all
  qed
  show "inv q'" using ack_law [OF assms] by blast
  show "pending_of q' = pending_of q \<or> pending_of q' = (pending_of q)(i := drop_destination d (pending_of q i))"
    using ack_law [OF assms] eqI by (metis fun_upd_triv)
  show "pending_of q' = (pending_of q)(i := drop_destination d (pending_of q i))" if ok
    using ack_done [OF assms(1,2), of d q'] assms(3) that by (intro eqI) simp
qed

lemma acked_delivers:
  assumes "inv q" and "plain i" and "ackq i d q = (ok, q')" and "(d, b) \<in> set l"
    and "\<And>d' b'. owes (pending_of q) i d' b' \<Longrightarrow> b' = b" and "deLog e' = deLog e @ l"
  shows "delivers (pending_of q) e (pending_of q') e'"
  using ack_step(2) [OF assms(1-3)] assms(4-6)
  by (auto simp: delivers_def owes_drop)

lemma flushDestinations_delivers:
  assumes "flushDestinations ackq ids item ds pending q e = (err, pending', q', e')" and "inv q"
    and "plain (itID item)" and "body_is (pending_of q) item"
  shows "inv q' \<and> delivers (pending_of q) e (pending_of q') e' \<and> (err = None \<and> pending \<longrightarrow> pending') \<and>
    (err = None \<and> \<not> pending' \<longrightarrow> (\<forall>d\<in>set ds. \<forall>b. \<not> owes (pending_of q') (itID item) d b))"
  using assms(1,2,4)
proof (induction ds arbitrary: pending q e)
  case Nil
  then show ?case by simp
next
  case (Cons d ds)
  obtain c e1 where c: "contextErr e = (c, e1)" by (cases "contextErr e")
  obtain ok e2 where s: "sinkSend d (itBody item) e1 = (ok, e2)" by (cases "sinkSend d (itBody item) e1")
  obtain ok' q1 where a: "ackq (itID item) d q = (ok', q1)" by (cases "ackq (itID item) d q")
  have log1: "deLog e1 = deLog e" using contextErr_log [OF c] .
  have log2: "deLog e2 = deLog e @ (if ok then [(d, itBody item)] else [])"
    using sinkSend_log [OF s] log1 by simp
  have d1: "delivers (pending_of q) e (pending_of q) e1" using log1 by (intro delivers_log [of _ _ "[]"]) simp
  have d2: "delivers (pending_of q) e (pending_of q) e2" by (rule delivers_log [OF log2])
  consider (cancel) "c" | (skip) "\<not> c" "d \<notin> set ids" | (failed) "\<not> c" "d \<in> set ids" "\<not> ok"
    | (noack) "\<not> c" "d \<in> set ids" "ok" "\<not> ok'" | (acked) "\<not> c" "d \<in> set ids" "ok" "ok'" by blast
  then show ?case
  proof cases
    case cancel
    then show ?thesis using Cons.prems c d1 by auto
  next
    case skip
    then have "flushDestinations ackq ids item ds True q e1 = (err, pending', q', e')"
      using Cons.prems(1) c by simp
    from Cons.IH [OF this Cons.prems(2,3)] show ?thesis using delivers_trans [OF d1] by blast
  next
    case failed
    then have "flushDestinations ackq ids item ds True q e2 = (err, pending', q', e')"
      using Cons.prems(1) c s by simp
    from Cons.IH [OF this Cons.prems(2,3)] show ?thesis using delivers_trans [OF d2] by blast
  next
    case noack
    then have res: "err = Some FlushAck" "q' = q1" "e' = e2"
      using Cons.prems(1) c s a by auto
    have "delivers (pending_of q) e (pending_of q1) e2"
      by (rule acked_delivers [OF Cons.prems(2) assms(3) a _ _ log2])
        (use noack Cons.prems(3) in \<open>auto simp: body_is_def\<close>)
    then show ?thesis using res ack_step(1) [OF Cons.prems(2) assms(3) a] by simp
  next
    case acked
    then have rest: "flushDestinations ackq ids item ds pending q1 e2 = (err, pending', q', e')"
      using Cons.prems(1) c s a by simp
    have d3: "delivers (pending_of q) e (pending_of q1) e2"
      by (rule acked_delivers [OF Cons.prems(2) assms(3) a _ _ log2])
        (use acked Cons.prems(3) in \<open>auto simp: body_is_def\<close>)
    have IH: "inv q' \<and> delivers (pending_of q1) e2 (pending_of q') e' \<and> (err = None \<and> pending \<longrightarrow> pending') \<and>
      (err = None \<and> \<not> pending' \<longrightarrow> (\<forall>d\<in>set ds. \<forall>b. \<not> owes (pending_of q') (itID item) d b))"
      using Cons.IH [OF rest ack_step(1) [OF Cons.prems(2) assms(3) a] body_is_mono [OF Cons.prems(3) d3]] .
    have "\<not> owes (pending_of q1) (itID item) d b" for b
      using ack_step(3) [OF Cons.prems(2) assms(3) a] acked(4) by (simp add: owes_drop)
    then have "\<not> owes (pending_of q') (itID item) d b" for b
      using IH by (auto simp: delivers_def)
    then show ?thesis using IH delivers_trans [OF d3] by auto
  qed
qed

lemma flushItems_delivers:
  assumes "flushItems ackq ids items pending q e = (err, pending', q', e')" and "inv q"
    and "\<forall>it\<in>set items. plain (itID it) \<and> body_is (pending_of q) it"
  shows "inv q' \<and> delivers (pending_of q) e (pending_of q') e' \<and> (err = None \<and> pending \<longrightarrow> pending') \<and>
    (err = None \<and> \<not> pending' \<longrightarrow>
       (\<forall>it\<in>set items. \<forall>d\<in>set (itPending it). \<forall>b. \<not> owes (pending_of q') (itID it) d b))"
  using assms
proof (induction items arbitrary: pending q e)
  case (Cons it items)
  obtain err1 p1 q1 e1 where f: "flushDestinations ackq ids it (itPending it) pending q e = (err1, p1, q1, e1)"
    by (metis prod_cases4)
  note one = flushDestinations_delivers [OF f Cons.prems(2)]
  have pl: "plain (itID it)" "body_is (pending_of q) it" using Cons.prems(3) by auto
  show ?case
  proof (cases err1)
    case (Some x)
    then have "err = Some x" "q' = q1" "e' = e1" using Cons.prems(1) f by auto
    then show ?thesis using Some one [OF pl] by simp
  next
    case None
    have rest: "flushItems ackq ids items p1 q1 e1 = (err, pending', q', e')"
      using Cons.prems(1) f None by simp
    have bodies: "\<forall>it\<in>set items. plain (itID it) \<and> body_is (pending_of q1) it"
      using Cons.prems(3) one [OF pl] body_is_mono by auto
    have IH: "inv q' \<and> delivers (pending_of q1) e1 (pending_of q') e' \<and> (err = None \<and> p1 \<longrightarrow> pending') \<and>
      (err = None \<and> \<not> pending' \<longrightarrow>
       (\<forall>it\<in>set items. \<forall>d\<in>set (itPending it). \<forall>b. \<not> owes (pending_of q') (itID it) d b))"
      using Cons.IH [OF rest _ bodies] one [OF pl] by blast
    have "\<forall>d\<in>set (itPending it). \<forall>b. \<not> owes (pending_of q') (itID it) d b" if "err = None" "\<not> pending'"
      using that IH one [OF pl] None unfolding delivers_def by blast
    moreover have "delivers (pending_of q) e (pending_of q') e'"
      using IH one [OF pl] delivers_trans by blast
    ultimately show ?thesis using IH one [OF pl] None by auto
  qed
qed simp

lemma Flush_delivers:
  assumes "Flush listq ackq ids q e = (err, q', e')" and "inv q"
  shows "inv q' \<and> delivers (pending_of q) e (pending_of q') e' \<and>
    (err = None \<longrightarrow> (\<forall>i d b. \<not> owes (pending_of q') i d b))"
proof -
  obtain res q1 where l: "listq q = (res, q1)" by (cases "listq q")
  note law = list_law [OF assms(2) l]
  show ?thesis
  proof (cases res)
    case None
    then show ?thesis using assms(1) l law by (auto simp: Flush_def)
  next
    case (Some items)
    note its = list_items [OF assms(2) l [unfolded Some]]
    obtain err1 p1 q2 e2 where f: "flushItems ackq ids items False q1 e = (err1, p1, q2, e2)"
      by (metis prod_cases4)
    have "\<forall>it\<in>set items. plain (itID it) \<and> body_is (pending_of q1) it"
      using its law by (auto simp: body_is_def owes_def)
    from flushItems_delivers [OF f _ this] have fl: "inv q2"
        "delivers (pending_of q) e (pending_of q2) e2"
        "err1 = None \<and> \<not> p1 \<longrightarrow>
         (\<forall>it\<in>set items. \<forall>d\<in>set (itPending it). \<forall>b. \<not> owes (pending_of q2) (itID it) d b)"
      using law by auto
    have res: "q' = q2" "e' = e2" "err = None \<longleftrightarrow> err1 = None \<and> \<not> p1"
      using assms(1) l Some f by (auto simp: Flush_def split: option.splits if_splits)
    have "\<not> owes (pending_of q') i d b" if "err = None" for i d b
    proof
      assume o1: "owes (pending_of q') i d b"
      then have o2: "owes (pending_of q) i d b" using fl(2) res by (auto simp: delivers_def)
      then obtain it where it: "it \<in> set items" "itID it = i"
        using its by (fastforce simp: owes_def split: option.splits)
      then have "d \<in> set (itPending it)" using its o2 by (auto simp: owes_def)
      then show False using fl(3) it o1 res that by blast
    qed
    then show ?thesis using fl res by blast
  qed
qed

lemma SendRequired_delivers:
  assumes "SendRequired listq putq ackq ids body required x q e = (None, q', e')" and "inv q"
    and "fresh q x" and "required \<noteq> []"
  shows "\<exists>l. deLog e' = deLog e @ l \<and> (required, body) \<in> set l"
proof -
  have req: "required \<in> set ids" using assms(1) by (auto simp: SendRequired_def split: if_splits)
  obtain pres q1 where p: "putq body ids x q = (pres, q1)" by (cases "putq body ids x q")
  obtain i where i: "pres = Inr i"
    using assms(1) p req by (cases pres) (auto simp: SendRequired_def)
  obtain err q2 e2 where f: "Flush listq ackq ids q1 e = (err, q2, e2)" by (metis prod_cases3)
  obtain lres q3 where l: "listq q2 = (lres, q3)" by (cases "listq q2")
  obtain items where items: "lres = Some items" "\<not> requiredPending i required items" "e' = e2"
    using assms(1) p i f l req by (cases lres) (auto simp: SendRequired_def split: if_splits)
  have put: "inv q1" "pending_of q1 i = Some (body, uniqueDestinations ids)"
    using put_law [OF assms(2,3) p] put_stored [OF assms(2,3) p [unfolded i]] by auto
  note fl = Flush_delivers [OF f put(1)]
  have owed: "owes (pending_of q1) i required body"
    using put(2) req assms(4) by (simp add: owes_def)
  have "\<not> owes (pending_of q2) i required body"
  proof
    assume o2: "owes (pending_of q2) i required body"
    have inv2: "inv q2" using fl by blast
    note li = list_items [OF inv2 l [unfolded items(1)]]
    obtain it where "it \<in> set items" "itID it = i"
      using li o2 by (fastforce simp: owes_def split: option.splits)
    then obtain it' where it': "find (\<lambda>item. itID item = i) items = Some it'"
      by (cases "find (\<lambda>item. itID item = i) items") (auto simp: find_None_iff)
    then have "it' \<in> set items" "itID it' = i" by (auto simp: find_Some_iff)
    then have "required \<in> set (itPending it')" using li o2 by (auto simp: owes_def)
    then show False using items(2) it' by (simp add: requiredPending_def)
  qed
  then show ?thesis using fl owed unfolding items(3) delivers_def by blast
qed

end


subsection \<open>Properties\<close>


definition sample_delivery :: delivery where
  "sample_delivery = \<lparr>deCancels = [], deSends = [True, False], deLog = []\<rparr>"


text \<open>When \<open>SendRequired\<close> reports success the required destination has accepted exactly this body
  during the call.\<close>

theorem SendRequired_delivered:
  assumes "queue_inv q" and "fresh_id q x" and "required \<noteq> []"
    and "SendRequired listLocked (\<lambda>b ds x. Put b ds (fst x) (snd x)) Ack ids body required x q e =
      (None, q', e')"
  shows "\<exists>l. deLog e' = deLog e @ l \<and> (required, body) \<in> set l"
  by (rule outbox_queue.SendRequired_delivers [OF assms(4,1-3)])

lemma sample_required:
  "fst (SendRequired listLocked (\<lambda>b ds x. Put b ds (fst x) (snd x)) Ack [''a'', ''b''] ''rep'' ''a''
     (5, ''r'') sample_outbox sample_delivery) = None"
  by (simp add: SendRequired_def Flush_def requiredPending_def sample_delivery_def contextErr_def
      sinkSend_def Ack_def Put_def sample_outbox_def uniqueDestinations_def io_def
      enforceLimitsLocked_def listLocked_def dir_put_def dir_remove_def
      valid_record_def outboxRecordVersion_def item_of_def itemCost_def Let_def)

theorem SendRequired_delivered_witness:
  "\<exists>l. deLog (snd (snd (SendRequired listLocked (\<lambda>b ds x. Put b ds (fst x) (snd x)) Ack [''a'', ''b'']
     ''rep'' ''a'' (5, ''r'') sample_outbox sample_delivery))) = deLog sample_delivery @ l \<and>
     (''a'', ''rep'') \<in> set l"
proof -
  let ?s = "SendRequired listLocked (\<lambda>b ds x. Put b ds (fst x) (snd x)) Ack [''a'', ''b'']
     ''rep'' ''a'' (5, ''r'') sample_outbox sample_delivery"
  have "?s = (None, fst (snd ?s), snd (snd ?s))" using sample_required by (intro prod_eqI) simp_all
  from SendRequired_delivered [OF sample_outbox_inv _ this] show ?thesis by simp
qed

end
