(* ===== verification/Runtime.thy ===== *)
theory Runtime
  imports AgentConfig ControlClient CommandExecutor Reporter Scheduler
begin

text \<open>
  \<open>internal/agent/runtime.go\<close>, \<open>run.go\<close> and \<open>selfcheck.go\<close>: the resident Agent. A snapshot holds what one configuration gives (identity,
  reporter, control client and timing); a reload replaces it while the scheduler, the command executor, the upgrade manager and the
  client that \<open>Run\<close> started stay. Collecting a report is a parameter, and so are the environment, the clock and the HTTP client.
\<close>

subsection \<open>The node identifier\<close>

text \<open>What one call of \<open>NodeID\<close> finds: the machine identifier, the stored identifier, sixteen random bytes.\<close>

record node_env =
  neMachine :: "bytes option"
  neStored :: "bytes option"
  neRandom :: "bytes option"

definition persistedNodeID :: "node_env \<Rightarrow> bytes" where
  "persistedNodeID n =
     (case neStored n of
        Some b \<Rightarrow>
          if trim_space b \<noteq> [] then trim_space b
          else (case neRandom n of None \<Rightarrow> [] | Some r \<Rightarrow> ''g-'' @ hex_encode r)
      | None \<Rightarrow> (case neRandom n of None \<Rightarrow> [] | Some r \<Rightarrow> ''g-'' @ hex_encode r))"

definition NodeID :: "node_env \<Rightarrow> agent_config \<Rightarrow> bytes" where
  "NodeID n cfg =
     (if acNodeID (cfAgent cfg) \<noteq> [] then acNodeID (cfAgent cfg)
      else case neMachine n of
        None \<Rightarrow> persistedNodeID n
      | Some b \<Rightarrow>
          let i = trim_space b in
          if i \<noteq> [] then ''m-'' @ (if 12 < length i then take 12 i else i) else persistedNodeID n)"

subsection \<open>Snapshots\<close>

record reporter =
  rpDestinations :: "(bytes \<times> http_sink) list"

definition orderedIDs :: "reporter \<Rightarrow> bytes list" where
  "orderedIDs r = map fst (rpDestinations r)"

record runtime_snapshot =
  snConfig :: agent_config
  snIdentity :: identity
  snReporter :: reporter
  snControl :: control_client
  snReportInterval :: duration
  snCollectTimeout :: duration
  snShutdownTimeout :: duration

text \<open>The environment of one call: \<open>reNode k\<close> is what the \<open>k\<close>-th call of \<open>NodeID\<close> finds.\<close>

record runtime_env =
  reConfig :: config_env
  reCrypto :: identity_crypto
  reVersion :: bytes
  reNode :: "nat \<Rightarrow> node_env"
  reBootFile :: "bytes option"
  reBootRandom :: "bytes option"
  reCSR :: "bytes option"
  reRenew :: "bytes \<Rightarrow> panel_request"
  reNow :: int

definition capabilitiesOf :: "agent_config \<Rightarrow> action list" where
  "capabilitiesOf cfg =
     (let capabilities = [CollectNow, ReloadConfig, SelfCheck] in
      if clUpgradable (cfCollect cfg) then capabilities @ [Upgrade] else capabilities)"

fun webhookDestinations :: "runtime_env \<Rightarrow> agent_config \<Rightarrow> nat \<Rightarrow> sink_config list \<Rightarrow> (bytes \<times> http_sink) list option" where
  "webhookDestinations R cfg index [] = Some []"
| "webhookDestinations R cfg index (s # ss) =
     (case NewSink (reConfig R) s (NodeID (reNode R index) cfg) of
        None \<Rightarrow> None
      | Some webhook \<Rightarrow>
          map_option (\<lambda>ds. (''webhook:'' @ dec_digits index, webhook) # ds) (webhookDestinations R cfg (Suc index) ss))"

definition controlOptionsFor :: "runtime_env \<Rightarrow> agent_config \<Rightarrow> nat \<Rightarrow> identity \<Rightarrow> control_options" where
  "controlOptionsFor R cfg k i =
     \<lparr>coPanelURL = plURL (cfPanel cfg), coIdentity = Some i, coNodeID = NodeID (reNode R k) cfg, coVersion = reVersion R,
      coCapabilities = capabilitiesOf cfg, coHandles = False\<rparr>"

text \<open>The part of \<open>buildSnapshot\<close> after the identity.\<close>

definition assembleSnapshot :: "runtime_env \<Rightarrow> agent_config \<Rightarrow> duration \<Rightarrow> duration \<Rightarrow> duration \<Rightarrow> identity \<Rightarrow> runtime_snapshot option" where
  "assembleSnapshot R cfg reportInterval collectTimeout shutdownTimeout i =
     (case NewPanelSink (plURL (cfPanel cfg)) True of
        None \<Rightarrow> None
      | Some panelSink \<Rightarrow>
          (case webhookDestinations R cfg 0 (cfSinks cfg) of
             None \<Rightarrow> None
           | Some webhooks \<Rightarrow>
               let destinations = (''panel'', panelSink) # webhooks in
               (case NewReporter (map (\<lambda>d. (fst d, True)) destinations) [] of
                  None \<Rightarrow> None
                | Some ids \<Rightarrow>
                    (case NewControlClient (reCrypto R) (controlOptionsFor R cfg (length (cfSinks cfg)) i) (reBootFile R) (reBootRandom R) of
                       None \<Rightarrow> None
                     | Some controlClient \<Rightarrow>
                         Some \<lparr>snConfig = cfg, snIdentity = i, snReporter = \<lparr>rpDestinations = destinations\<rparr>, snControl = controlClient,
                           snReportInterval = reportInterval, snCollectTimeout = collectTimeout, snShutdownTimeout = shutdownTimeout\<rparr>))))"

text \<open>The directory is the one of the CA file.\<close>

definition buildSnapshot :: "runtime_env \<Rightarrow> agent_config \<Rightarrow> pki_dir \<Rightarrow> runtime_snapshot option \<times> pki_dir" where
  "buildSnapshot R cfg d =
     (case ceDuration (reConfig R) (acReportInterval (cfAgent cfg)) of
        None \<Rightarrow> (None, d)
      | Some reportInterval \<Rightarrow>
          (case ceDuration (reConfig R) (acCollectTimeout (cfAgent cfg)) of
             None \<Rightarrow> (None, d)
           | Some collectTimeout \<Rightarrow>
               (case ceDuration (reConfig R) (acShutdownTimeout (cfAgent cfg)) of
                  None \<Rightarrow> (None, d)
                | Some shutdownTimeout \<Rightarrow>
                    (case LoadIdentity (reCrypto R) (plURL (cfPanel cfg)) d of
                       (None, d) \<Rightarrow> (None, d)
                     | (Some i, d) \<Rightarrow>
                         (case RenewIfNeeded (reCrypto R) (reRenew R) (reCSR R) (reNow R) i d of
                            (ok, i, d) \<Rightarrow>
                              if \<not> ok then (None, d)
                              else (assembleSnapshot R cfg reportInterval collectTimeout shutdownTimeout i, d))))))"

subsection \<open>The runtime\<close>

text \<open>\<open>rtClient\<close> is the client \<open>Run\<close> has started, if it is running.\<close>

record runtime_state =
  rtCurrent :: runtime_snapshot
  rtScheduler :: "scheduler option"
  rtClient :: "control_client option"
  rtExecutor :: executor
  rtUpgrade :: upgrade_manager
  rtLastReport :: bytes

definition attachCommandExecutor :: "runtime_snapshot \<Rightarrow> runtime_snapshot" where
  "attachCommandExecutor s = s\<lparr>snControl := (snControl s)\<lparr>ctOptions := (ctOptions (snControl s))\<lparr>coHandles := True\<rparr>\<rparr>\<rparr>"

record runtime_files =
  rfOutbox :: "outbox option"
  rfStateDir :: bytes
  rfUpgradeEnv :: upgrade_env
  rfUID :: int
  rfGID :: int
  rfMkdirOk :: bool
  rfState :: "executor_state file_read"
  rfWrites :: "write_outcome list"

definition NewRuntime ::
    "runtime_env \<Rightarrow> runtime_files \<Rightarrow> (action \<times> handler option) list \<Rightarrow> agent_config \<Rightarrow> pki_dir \<Rightarrow> runtime_state option \<times> pki_dir" where
  "NewRuntime R F handlers cfg d =
     (if ValidateAgentConfig (reConfig R) cfg \<noteq> None then (None, d)
      else if rfOutbox F = None then (None, d)
      else (case buildSnapshot R cfg d of
        (None, d) \<Rightarrow> (None, d)
      | (Some s, d) \<Rightarrow>
          (case NewUpgradeManager (rfStateDir F) (Some \<lparr>aiAgentID = iyAgentID (snIdentity s), aiReleaseKey = iyReleaseKey (snIdentity s)\<rparr>)
                  (reVersion R) (rfUpgradeEnv F) (rfUID F) (rfGID F) of
             None \<Rightarrow> (None, d)
           | Some upgrade \<Rightarrow>
               (case OpenCommandExecutor (rfStateDir F) (rfMkdirOk F) (iyAgentID (snIdentity s)) (iyCommandKey (snIdentity s)) handlers
                       (rfState F) (rfWrites F) of
                  Inl e \<Rightarrow> (None, d)
                | Inr executor \<Rightarrow>
                    (Some \<lparr>rtCurrent = attachCommandExecutor s, rtScheduler = None, rtClient = None, rtExecutor = executor,
                       rtUpgrade = upgrade, rtLastReport = []\<rparr>, d)))))"

definition Reload ::
    "runtime_env \<Rightarrow> (agent_config \<Rightarrow> (agent_config \<times> bytes list) option) \<Rightarrow> runtime_state \<Rightarrow> pki_dir \<Rightarrow> bool \<times> runtime_state \<times> pki_dir" where
  "Reload R decode rt d =
     (case LoadAgentConfig decode of
        None \<Rightarrow> (False, rt, d)
      | Some candidate \<Rightarrow>
          if ValidateAgentConfig (reConfig R) candidate \<noteq> None then (False, rt, d)
          else (case buildSnapshot R candidate d of
            (None, d) \<Rightarrow> (False, rt, d)
          | (Some replacement, d) \<Rightarrow>
              if iyAgentID (snIdentity (rtCurrent rt)) \<noteq> iyAgentID (snIdentity replacement) \<or>
                 iyCommandKey (snIdentity (rtCurrent rt)) \<noteq> iyCommandKey (snIdentity replacement)
              then (False, rt, d)
              else (True, rt\<lparr>rtCurrent := attachCommandExecutor replacement,
                             rtScheduler := map_option (SetInterval (snReportInterval replacement)) (rtScheduler rt)\<rparr>, d)))"

text \<open>\<open>Run\<close> up to its select statement; \<open>notified\<close> is the answer of the service manager, if the notification could be sent.\<close>

definition RunStart :: "crypto \<Rightarrow> codec \<Rightarrow> bool option \<Rightarrow> runtime_state \<Rightarrow> bool \<times> runtime_state" where
  "RunStart c C notified rt =
     (let scheduler = NewScheduler c (iyAgentID (snIdentity (rtCurrent rt))) (snReportInterval (rtCurrent rt));
          rt = rt\<lparr>rtScheduler := Some scheduler\<rparr>
      in case notified of
           None \<Rightarrow> (False, rt)
         | Some ready \<Rightarrow>
             (True, rt\<lparr>rtUpgrade := (if ready then markReady C SystemSignal (rtUpgrade rt) else rtUpgrade rt),
                       rtClient := Some (snControl (rtCurrent rt))\<rparr>))"

text \<open>The callback of a welcome.\<close>

definition onWelcome :: "codec \<Rightarrow> welcome_msg \<Rightarrow> runtime_state \<Rightarrow> runtime_state" where
  "onWelcome C w rt = rt\<lparr>rtUpgrade := markReady C ControlSignal (SetPanelVersion (wPanelVersion w) (rtUpgrade rt))\<rparr>"

text \<open>The end of \<open>Run\<close>: the client and the scheduler have stopped.\<close>

definition RunEnd :: "runtime_state \<Rightarrow> runtime_state" where
  "RunEnd rt = rt\<lparr>rtScheduler := None, rtClient := None\<rparr>"

text \<open>The grace period of a shutdown is that of the latest snapshot, if it has one.\<close>

definition shutdownGrace :: "runtime_snapshot \<Rightarrow> runtime_state \<Rightarrow> duration" where
  "shutdownGrace started rt =
     (if 0 < snShutdownTimeout (rtCurrent rt) then snShutdownTimeout (rtCurrent rt) else snShutdownTimeout started)"

definition collectOnce ::
    "codec \<Rightarrow> 'r option \<Rightarrow> ('r \<Rightarrow> bytes option) \<Rightarrow> nat \<times> bytes \<Rightarrow> runtime_state \<Rightarrow> outbox \<Rightarrow> delivery \<Rightarrow> bool \<times> runtime_state \<times> outbox \<times> delivery" where
  "collectOnce C report marshal x rt q e =
     (case report of
        None \<Rightarrow> (False, rt\<lparr>rtLastReport := ''collect_failed''\<rparr>, q, e)
      | Some report \<Rightarrow>
          (case marshal report of
             None \<Rightarrow> (False, rt\<lparr>rtLastReport := ''encode_failed''\<rparr>, q, e)
           | Some body \<Rightarrow>
               (case SendRequired listLocked (\<lambda>b ds x. Put b ds (fst x) (snd x)) Ack (orderedIDs (snReporter (rtCurrent rt))) body ''panel'' x q e of
                  (Some err, q, e) \<Rightarrow> (False, rt\<lparr>rtLastReport := ''panel_not_acknowledged''\<rparr>, q, e)
                | (None, q, e) \<Rightarrow>
                    (True, rt\<lparr>rtLastReport := ''report_acknowledged'', rtUpgrade := markReady C ReportSignal (rtUpgrade rt)\<rparr>, q, e))))"

subsection \<open>Command handlers\<close>

definition outcomeOf :: "bytes \<Rightarrow> bool \<Rightarrow> outcome" where
  "outcomeOf code bad = \<lparr>oCode = code, oData = emptyObject, oFailed = bad, oPending = False, oAfterPersist = False\<rparr>"

definition exactEmptyObject :: "(bytes \<times> bytes) list option json_doc \<Rightarrow> bool" where
  "exactEmptyObject doc = (case doc of JsonDoc (Some m) \<Rightarrow> m = [] | _ \<Rightarrow> False)"

text \<open>\<open>acknowledged\<close> is what the request of the scheduler returns.\<close>

definition HandleCollectNow :: "(bytes \<times> bytes) list option json_doc \<Rightarrow> bool \<Rightarrow> runtime_state \<Rightarrow> outcome" where
  "HandleCollectNow payload acknowledged rt =
     (if \<not> exactEmptyObject payload then outcomeOf ''invalid_payload'' True
      else if rtScheduler rt = None then outcomeOf ''runtime_not_running'' True
      else if \<not> acknowledged then outcomeOf ''report_not_acknowledged'' True
      else outcomeOf ''report_acknowledged'' False)"

definition HandleReloadConfig ::
    "runtime_env \<Rightarrow> (agent_config \<Rightarrow> (agent_config \<times> bytes list) option) \<Rightarrow> (bytes \<times> bytes) list option json_doc \<Rightarrow> runtime_state \<Rightarrow>
      pki_dir \<Rightarrow> outcome \<times> runtime_state \<times> pki_dir" where
  "HandleReloadConfig R decode payload rt d =
     (if \<not> exactEmptyObject payload then (outcomeOf ''invalid_payload'' True, rt, d)
      else case Reload R decode rt d of
        (ok, rt, d) \<Rightarrow> (if \<not> ok then outcomeOf ''reload_failed'' True else outcomeOf ''reload_applied'' False, rt, d))"

text \<open>The guard of the handler of upgrades.\<close>

definition upgradeEnabled :: "runtime_state \<Rightarrow> bool" where
  "upgradeEnabled rt = clUpgradable (cfCollect (snConfig (rtCurrent rt)))"

subsection \<open>A validated configuration builds a snapshot\<close>

lemma uuid_nonempty: "validCanonicalUUID a \<Longrightarrow> a \<noteq> []"
  by (auto simp: validCanonicalUUID_def)

lemma LoadIdentity_Some:
  assumes "LoadIdentity E url d = (Some i, d')"
  shows "validCanonicalUUID (iyAgentID i) \<and> length (iyCommandKey i) = PublicKeySize \<and> length (iyReleaseKey i) = PublicKeySize \<and> iyPanelURL i = url"
proof -
  obtain node key ca out where b: "validateAndBuildIdentity E url node key ca out = Some i"
    using assms by (auto simp: LoadIdentity_def split: prod.splits option.splits list.splits)
  have "length (iyCommandKey i) = PublicKeySize \<and> length (iyReleaseKey i) = PublicKeySize"
    using b by (auto simp: validateAndBuildIdentity_def parseEd25519PublicKey_def split: option.splits if_splits prod.splits pkix_key.splits)
  then show ?thesis using validateAndBuildIdentity_Some [OF b] by simp
qed

lemma RenewIfNeeded_keeps:
  assumes "RenewIfNeeded E renew csr now i d = (ok, i', d')"
  shows "iyAgentID i' = iyAgentID i \<and> iyCommandKey i' = iyCommandKey i \<and> iyReleaseKey i' = iyReleaseKey i \<and> iyPanelURL i' = iyPanelURL i"
proof (cases "i' = i")
  case False
  then have "i' = i\<lparr>iyLeaf := iyLeaf i', iyCertificate := iyCertificate i'\<rparr>" using RenewIfNeeded_outcome [OF assms] by simp
  then show ?thesis by (metis identity.surjective identity.simps identity.update_convs)
qed simp

lemma NewReporter_distinct:
  "ids @ map fst ds \<noteq> [] \<Longrightarrow> distinct (ids @ map fst ds) \<Longrightarrow> [] \<notin> set (map fst ds) \<Longrightarrow>
   NewReporter (map (\<lambda>d. (fst d, True)) ds) ids = Some (ids @ map fst ds)"
  by (induction ds arbitrary: ids) auto

lemma NewReporter_Some:
  "NewReporter (map (\<lambda>d. (fst d, True)) ds) ids = Some xs \<Longrightarrow> distinct ids \<Longrightarrow> xs = ids @ map fst ds \<and> distinct xs"
proof (induction ds arbitrary: ids)
  case (Cons d ds)
  then have "NewReporter (map (\<lambda>d. (fst d, True)) ds) (ids @ [fst d]) = Some xs" "distinct (ids @ [fst d])" by (simp_all split: if_splits)
  note r = Cons.IH [OF this]
  then have "xs = ids @ map fst (d # ds)" by simp
  then show ?case using r by blast
qed (simp split: if_splits)

definition webhook_id :: "nat \<Rightarrow> bytes" where
  "webhook_id k = ''webhook:'' @ dec_digits k"

lemma webhook_id_inject: "webhook_id j = webhook_id k \<longleftrightarrow> j = k" and webhook_id_ne: "webhook_id k \<noteq> []" "webhook_id k \<noteq> ''panel''"
  by (simp_all add: webhook_id_def)

lemma webhookDestinations_ids:
  "webhookDestinations R cfg k ss = Some ds \<Longrightarrow> map fst ds = map webhook_id [k..<k + length ss]"
proof (induction ss arbitrary: k ds)
  case (Cons s ss)
  have "[k..<k + length (s # ss)] = k # [Suc k..<Suc k + length ss]" by (simp add: upt_conv_Cons del: upt_Suc)
  moreover obtain ds' where "webhookDestinations R cfg (Suc k) ss = Some ds'" "map fst ds = webhook_id k # map fst ds'"
    using Cons.prems by (auto simp: webhook_id_def split: option.splits)
  ultimately show ?case using Cons.IH [of "Suc k" ds'] by (simp del: upt_Suc)
qed simp

lemma webhookDestinations_total:
  "(\<And>s n. s \<in> set ss \<Longrightarrow> NewSink (reConfig R) s n \<noteq> None) \<Longrightarrow> \<exists>ds. webhookDestinations R cfg k ss = Some ds"
proof (induction ss arbitrary: k)
  case (Cons s ss)
  obtain w where "NewSink (reConfig R) s (NodeID (reNode R k) cfg) = Some w" using Cons.prems by fastforce
  moreover obtain ds where "webhookDestinations R cfg (Suc k) ss = Some ds" using Cons.IH Cons.prems by fastforce
  ultimately show ?case by simp
qed simp

lemma ValidateAgentConfig_None:
  assumes "ValidateAgentConfig C cfg = None"
  obtains u ri ct st where "ceURL C (plURL (cfPanel cfg)) = Some u" "puScheme u = ''https''" "puHostname u \<noteq> []"
    "ceDuration C (acReportInterval (cfAgent cfg)) = Some ri" "ceDuration C (acCollectTimeout (cfAgent cfg)) = Some ct"
    "ceDuration C (acShutdownTimeout (cfAgent cfg)) = Some st" "0 < ct" "ct < ri" "0 < st"
proof -
  have p: "validatePanel C (cfPanel cfg) = None" "validateResidentTiming C (cfAgent cfg) = None"
    using assms by (auto simp: ValidateAgentConfig_def split: option.splits)
  obtain u where "ceURL C (plURL (cfPanel cfg)) = Some u" "puScheme u = ''https''" "puHostname u \<noteq> []"
    using p(1) by (auto simp: validatePanel_def split: option.splits if_splits)
  moreover obtain ri ct st where "ceDuration C (acReportInterval (cfAgent cfg)) = Some ri" "ceDuration C (acCollectTimeout (cfAgent cfg)) = Some ct"
    "ceDuration C (acShutdownTimeout (cfAgent cfg)) = Some st" "0 < ct" "ct < ri" "0 < st"
    using p(2) by (auto simp: validateResidentTiming_def positive_def Let_def split: option.splits if_splits)
  ultimately show thesis using that by blast
qed

text \<open>The Agent parses a URL in one way, and a URL whose scheme is \<open>https\<close> and that has a host begins with \<open>https://\<close>.\<close>

definition url_laws :: "runtime_env \<Rightarrow> bool" where
  "url_laws R \<longleftrightarrow> icParseURL (reCrypto R) = ceURL (reConfig R) \<and>
     (\<forall>raw u. ceURL (reConfig R) raw = Some u \<and> puScheme u = ''https'' \<and> puHostname u \<noteq> [] \<longrightarrow> has_prefix (to_lower raw) ''https://'')"

lemma capabilities_valid: "firstInvalid (capabilitiesOf cfg) = None \<and> distinct (capabilitiesOf cfg) \<and> length (capabilitiesOf cfg) \<le> 4"
  by (simp add: capabilitiesOf_def validAction_def action_defs Let_def)

lemma assembleSnapshot_Some:
  assumes "assembleSnapshot R cfg ri ct st i = Some s"
  obtains ds c where "webhookDestinations R cfg 0 (cfSinks cfg) = Some ds" "distinct (orderedIDs (snReporter s))"
    "orderedIDs (snReporter s) = ''panel'' # map webhook_id [0..<length (cfSinks cfg)]"
    "NewControlClient (reCrypto R) (controlOptionsFor R cfg (length (cfSinks cfg)) i) (reBootFile R) (reBootRandom R) = Some c"
    "snConfig s = cfg" "snIdentity s = i" "snControl s = c" "snReportInterval s = ri" "snCollectTimeout s = ct" "snShutdownTimeout s = st"
proof -
  obtain p ds ids c where a: "NewPanelSink (plURL (cfPanel cfg)) True = Some p" "webhookDestinations R cfg 0 (cfSinks cfg) = Some ds"
    "NewReporter (map (\<lambda>d. (fst d, True)) ((''panel'', p) # ds)) [] = Some ids"
    "NewControlClient (reCrypto R) (controlOptionsFor R cfg (length (cfSinks cfg)) i) (reBootFile R) (reBootRandom R) = Some c"
    "s = \<lparr>snConfig = cfg, snIdentity = i, snReporter = \<lparr>rpDestinations = (''panel'', p) # ds\<rparr>, snControl = c,
       snReportInterval = ri, snCollectTimeout = ct, snShutdownTimeout = st\<rparr>"
    using assms by (auto simp: assembleSnapshot_def Let_def split: option.splits)
  have n: "ids = [] @ map fst ((''panel'', p) # ds) \<and> distinct ids" by (rule NewReporter_Some [OF a(3)]) simp
  then have "map fst ((''panel'', p) # ds) = ids" "distinct ids" by (simp, blast)
  moreover have "orderedIDs (snReporter s) = map fst ((''panel'', p) # ds)" using a(5) by (simp add: orderedIDs_def)
  ultimately have "distinct (orderedIDs (snReporter s))" "orderedIDs (snReporter s) = ''panel'' # map webhook_id [0..<length (cfSinks cfg)]"
    using webhookDestinations_ids [OF a(2)] by simp_all
  then show thesis using that a by simp
qed

lemma buildSnapshot_cases:
  assumes "buildSnapshot R cfg d = (res, d')"
  obtains (failed) "res = None"
    | (built) ri ct st j d1 i s where "ceDuration (reConfig R) (acReportInterval (cfAgent cfg)) = Some ri"
        "ceDuration (reConfig R) (acCollectTimeout (cfAgent cfg)) = Some ct" "ceDuration (reConfig R) (acShutdownTimeout (cfAgent cfg)) = Some st"
        "LoadIdentity (reCrypto R) (plURL (cfPanel cfg)) d = (Some j, d1)"
        "RenewIfNeeded (reCrypto R) (reRenew R) (reCSR R) (reNow R) j d1 = (True, i, d')"
        "assembleSnapshot R cfg ri ct st i = Some s" "res = Some s"
  using assms
  by (cases res) (auto simp: buildSnapshot_def split: option.split_asm prod.split_asm if_split_asm)

lemma validated_builds:
  assumes "ValidateAgentConfig (reConfig R) cfg = None" and "url_laws R"
    and "LoadIdentity (reCrypto R) (plURL (cfPanel cfg)) d = (Some j, d1)"
    and "RenewIfNeeded (reCrypto R) (reRenew R) (reCSR R) (reNow R) j d1 = (True, i, d2)"
    and "\<And>s n. s \<in> set (cfSinks cfg) \<Longrightarrow> NewSink (reConfig R) s n \<noteq> None"
    and "NodeID (reNode R (length (cfSinks cfg))) cfg \<noteq> []" and "readBootID (reBootFile R) (reBootRandom R) \<noteq> None"
  shows "\<exists>s. buildSnapshot R cfg d = (Some s, d2) \<and> snIdentity s = i \<and> 0 < snCollectTimeout s \<and> snCollectTimeout s < snReportInterval s \<and>
    0 < snShutdownTimeout s \<and> distinct (orderedIDs (snReporter s)) \<and>
    orderedIDs (snReporter s) = ''panel'' # map (\<lambda>k. ''webhook:'' @ dec_digits k) [0..<length (cfSinks cfg)] \<and>
    firstInvalid (coCapabilities (ctOptions (snControl s))) = None \<and> length (coCapabilities (ctOptions (snControl s))) \<le> 4"
proof -
  obtain u ri ct st where v: "ceURL (reConfig R) (plURL (cfPanel cfg)) = Some u" "puScheme u = ''https''" "puHostname u \<noteq> []"
    "ceDuration (reConfig R) (acReportInterval (cfAgent cfg)) = Some ri" "ceDuration (reConfig R) (acCollectTimeout (cfAgent cfg)) = Some ct"
    "ceDuration (reConfig R) (acShutdownTimeout (cfAgent cfg)) = Some st" "0 < ct" "ct < ri" "0 < st"
    by (rule ValidateAgentConfig_None [OF assms(1)])
  obtain ds where ds: "webhookDestinations R cfg 0 (cfSinks cfg) = Some ds"
    using webhookDestinations_total [of "cfSinks cfg" R cfg 0] assms(5) by auto
  have "has_prefix (to_lower (plURL (cfPanel cfg))) ''https://''" using assms(2) v(1-3) unfolding url_laws_def by blast
  then obtain p where p: "NewPanelSink (plURL (cfPanel cfg)) True = Some p" by (simp add: NewPanelSink_def)
  have "distinct (map webhook_id [0..<length (cfSinks cfg)])" by (auto simp: distinct_map inj_on_def webhook_id_inject)
  moreover have "''panel'' \<notin> range webhook_id" "[] \<notin> range webhook_id" using webhook_id_ne by (metis imageE)+
  ultimately have "distinct (map fst ((''panel'', p) # ds))" "[] \<notin> set (map fst ((''panel'', p) # ds))"
    using webhookDestinations_ids [OF ds] by auto
  then have rep: "NewReporter (map (\<lambda>d. (fst d, True)) ((''panel'', p) # ds)) [] = Some (map fst ((''panel'', p) # ds))"
    using NewReporter_distinct [of "[]" "(''panel'', p) # ds"] by simp
  have "iyAgentID i \<noteq> []" using RenewIfNeeded_keeps [OF assms(4)] LoadIdentity_Some [OF assms(3)] uuid_nonempty by auto
  moreover have "icParseURL (reCrypto R) (plURL (cfPanel cfg)) = Some u" using assms(2) v(1) by (simp add: url_laws_def)
  ultimately obtain c where c: "NewControlClient (reCrypto R) (controlOptionsFor R cfg (length (cfSinks cfg)) i) (reBootFile R) (reBootRandom R) = Some c"
      "coCapabilities (ctOptions c) = capabilitiesOf cfg"
    using assms(6,7) v(2,3) by (auto simp: NewControlClient_def controlOptionsFor_def)
  obtain s where s: "assembleSnapshot R cfg ri ct st i = Some s" "snControl s = c" "snIdentity s = i" "snReportInterval s = ri"
      "snCollectTimeout s = ct" "snShutdownTimeout s = st"
    using p ds rep c(1) by (simp add: assembleSnapshot_def Let_def)
  obtain "distinct (orderedIDs (snReporter s))" "orderedIDs (snReporter s) = ''panel'' # map webhook_id [0..<length (cfSinks cfg)]"
    by (rule assembleSnapshot_Some [OF s(1)])
  moreover have "buildSnapshot R cfg d = (Some s, d2)" using v(4-6) assms(3,4) s(1) by (simp add: buildSnapshot_def)
  ultimately show ?thesis using s(2-) v(7-) c(2) capabilities_valid [of cfg] unfolding webhook_id_def by (intro exI [of _ s]) simp
qed

text \<open>C27. A configuration that validates never fails for its own sake: when the identity loads and needs no renewal or is renewed, every
  webhook has its token and CA file and the node and the boot have identifiers, the snapshot is built. It has positive times with the
  collection shorter than the interval, distinct destinations with the Panel first, and at most four capabilities, all of them
  known.\<close>

theorem validated_config_builds:
  assumes "ValidateAgentConfig (reConfig R) cfg = None" and "url_laws R"
    and "LoadIdentity (reCrypto R) (plURL (cfPanel cfg)) d = (Some j, d1)"
    and "RenewIfNeeded (reCrypto R) (reRenew R) (reCSR R) (reNow R) j d1 = (True, i, d2)"
    and "\<And>s n. s \<in> set (cfSinks cfg) \<Longrightarrow> NewSink (reConfig R) s n \<noteq> None"
    and "NodeID (reNode R (length (cfSinks cfg))) cfg \<noteq> []" and "readBootID (reBootFile R) (reBootRandom R) \<noteq> None"
  shows "\<exists>s. buildSnapshot R cfg d = (Some s, d2) \<and> snIdentity s = i \<and> 0 < snCollectTimeout s \<and> snCollectTimeout s < snReportInterval s \<and>
    0 < snShutdownTimeout s \<and> distinct (orderedIDs (snReporter s)) \<and>
    orderedIDs (snReporter s) = ''panel'' # map (\<lambda>k. ''webhook:'' @ dec_digits k) [0..<length (cfSinks cfg)] \<and>
    firstInvalid (coCapabilities (ctOptions (snControl s))) = None \<and> length (coCapabilities (ctOptions (snControl s))) \<le> 4"
  by (rule validated_builds [OF assms])

subsection \<open>What stays across reloads\<close>

definition snapshot_ok :: "executor \<Rightarrow> runtime_snapshot \<Rightarrow> bool" where
  "snapshot_ok e s \<longleftrightarrow> iyAgentID (snIdentity s) = exAgentID e \<and> iyCommandKey (snIdentity s) = exPublicKey e \<and>
     coIdentity (ctOptions (snControl s)) = Some (snIdentity s) \<and> coHandles (ctOptions (snControl s)) \<and>
     0 < snCollectTimeout s \<and> snCollectTimeout s < snReportInterval s \<and> 0 < snShutdownTimeout s \<and> ''panel'' \<in> set (orderedIDs (snReporter s))"

definition runtime_ok :: "runtime_state \<Rightarrow> bool" where
  "runtime_ok rt \<longleftrightarrow> executor_ok (rtExecutor rt) \<and> exCurrentID (rtExecutor rt) = [] \<and> snapshot_ok (rtExecutor rt) (rtCurrent rt) \<and>
     (\<forall>sc. rtScheduler rt = Some sc \<longrightarrow> scInterval sc = snReportInterval (rtCurrent rt)) \<and>
     (\<forall>c. rtClient rt = Some c \<longrightarrow> coHandles (ctOptions c) \<and>
        (\<exists>i. coIdentity (ctOptions c) = Some i \<and> iyAgentID i = exAgentID (rtExecutor rt) \<and> iyCommandKey i = exPublicKey (rtExecutor rt)))"

text \<open>The steps of a resident Agent. Any other program may change the files of the PKI directory, such as an enrollment does.\<close>

inductive runtime_step :: "runtime_state \<times> pki_dir \<Rightarrow> runtime_state \<times> pki_dir \<Rightarrow> bool" where
  rs_reload: "Reload R decode rt d = (ok, rt', d') \<Longrightarrow> runtime_step (rt, d) (rt', d')"
| rs_start: "RunStart c C notified rt = (ok, rt') \<Longrightarrow> runtime_step (rt, d) (rt', d)"
| rs_end: "runtime_step (rt, d) (RunEnd rt, d)"
| rs_welcome: "runtime_step (rt, d) (onWelcome C w rt, d)"
| rs_collect: "collectOnce C (report :: bytes option) marshal x rt q e = (ok, rt', q', e') \<Longrightarrow> runtime_step (rt, d) (rt', d)"
| rs_execute: "Execute c jv now (rtExecutor rt) command = (res, ex) \<Longrightarrow> runtime_step (rt, d) (rt\<lparr>rtExecutor := ex\<rparr>, d)"
| rs_schedule: "rtScheduler rt = Some s \<Longrightarrow> sched_step s s' \<Longrightarrow> scInterval s' = scInterval s \<Longrightarrow>
    runtime_step (rt, d) (rt\<lparr>rtScheduler := Some s'\<rparr>, d)"
| rs_files: "runtime_step (rt, d) (rt, d')"

inductive runtime_run :: "runtime_state \<times> pki_dir \<Rightarrow> runtime_state \<times> pki_dir \<Rightarrow> bool" for r0 where
  rr_start: "runtime_run r0 r0"
| rr_step: "runtime_run r0 r \<Longrightarrow> runtime_step r r' \<Longrightarrow> runtime_run r0 r'"

lemma controlOptions_identity:
  "NewControlClient E (controlOptionsFor R cfg k i) b r = Some c \<Longrightarrow> coIdentity (ctOptions c) = Some i"
  by (auto simp: NewControlClient_def controlOptionsFor_def split: option.splits if_splits)

lemma built_snapshot:
  assumes "buildSnapshot R cfg d = (Some s, d')" and "ValidateAgentConfig (reConfig R) cfg = None"
  shows "0 < snCollectTimeout s \<and> snCollectTimeout s < snReportInterval s \<and> 0 < snShutdownTimeout s \<and>
    ''panel'' \<in> set (orderedIDs (snReporter s)) \<and> coIdentity (ctOptions (snControl s)) = Some (snIdentity s)"
  using assms(1)
proof (cases rule: buildSnapshot_cases)
  case (built ri ct st j d1 i s')
  obtain ri' ct' st' where v: "ceDuration (reConfig R) (acReportInterval (cfAgent cfg)) = Some ri'"
    "ceDuration (reConfig R) (acCollectTimeout (cfAgent cfg)) = Some ct'" "ceDuration (reConfig R) (acShutdownTimeout (cfAgent cfg)) = Some st'"
    "0 < ct'" "ct' < ri'" "0 < st'"
    by (rule ValidateAgentConfig_None [OF assms(2)])
  show ?thesis
    by (rule assembleSnapshot_Some [OF built(6)]) (use v built(1-3,7) controlOptions_identity in auto)
qed simp

lemma Reload_cases:
  assumes "Reload R decode rt d = (ok, rt', d')"
  obtains (kept) "\<not> ok" "rt' = rt"
    | (replaced) cfg s where "ok" "LoadAgentConfig decode = Some cfg" "ValidateAgentConfig (reConfig R) cfg = None"
        "buildSnapshot R cfg d = (Some s, d')" "iyAgentID (snIdentity s) = iyAgentID (snIdentity (rtCurrent rt))"
        "iyCommandKey (snIdentity s) = iyCommandKey (snIdentity (rtCurrent rt))"
        "rt' = rt\<lparr>rtCurrent := attachCommandExecutor s, rtScheduler := map_option (SetInterval (snReportInterval s)) (rtScheduler rt)\<rparr>"
  using assms
  by (cases ok) (auto simp: Reload_def split: option.split_asm prod.split_asm if_split_asm)

lemma attach_simps [simp]:
  "snIdentity (attachCommandExecutor s) = snIdentity s" "snReportInterval (attachCommandExecutor s) = snReportInterval s"
  "snCollectTimeout (attachCommandExecutor s) = snCollectTimeout s" "snShutdownTimeout (attachCommandExecutor s) = snShutdownTimeout s"
  "snReporter (attachCommandExecutor s) = snReporter s" "coHandles (ctOptions (snControl (attachCommandExecutor s)))"
  "coIdentity (ctOptions (snControl (attachCommandExecutor s))) = coIdentity (ctOptions (snControl s))"
  by (simp_all add: attachCommandExecutor_def)

lemma SetInterval_interval: "0 < i \<Longrightarrow> scInterval (SetInterval i s) = i"
  by (simp add: SetInterval_def Trigger_def)

lemma collectOnce_frame:
  "collectOnce C report marshal x rt q e = (ok, rt', q', e') \<Longrightarrow>
     rtCurrent rt' = rtCurrent rt \<and> rtScheduler rt' = rtScheduler rt \<and> rtClient rt' = rtClient rt \<and> rtExecutor rt' = rtExecutor rt"
  by (auto simp: collectOnce_def split: option.split_asm prod.split_asm)

lemma runtime_ok_step:
  assumes "runtime_step r r'" and "runtime_ok (fst r)"
  shows "runtime_ok (fst r')"
  using assms
proof (induction rule: runtime_step.induct)
  case (rs_reload R decode rt d ok rt' d')
  from rs_reload(1) show ?case
  proof (cases rule: Reload_cases)
    case kept
    then show ?thesis using rs_reload(2) by simp
  next
    case (replaced cfg s)
    note b = built_snapshot [OF replaced(4,3)]
    then show ?thesis using rs_reload(2) replaced(5-7)
      by (auto simp: runtime_ok_def snapshot_ok_def SetInterval_interval)
  qed
next
  case (rs_start c C notified rt ok rt' d)
  then show ?case
    by (auto simp: RunStart_def Let_def NewScheduler_def runtime_ok_def snapshot_ok_def split: option.splits)
next
  case (rs_collect C report marshal x rt q e ok rt' q' e' d)
  then show ?case using collectOnce_frame [OF rs_collect(1)] by (simp add: runtime_ok_def)
next
  case (rs_execute c jv now rt command res ex d)
  then have "executor_ok ex" "exCurrentID ex = []" "same_setup (rtExecutor rt) ex"
    using Execute_preserves [OF _ _ rs_execute(1)] by (auto simp: runtime_ok_def)
  then show ?case using rs_execute(2) by (simp add: runtime_ok_def snapshot_ok_def same_setup_def)
qed (simp_all add: runtime_ok_def RunEnd_def onWelcome_def)

lemma NewRuntime_ok:
  assumes "NewRuntime R F handlers cfg d = (Some rt, d')" and "executor_ok (rtExecutor rt)"
  shows "runtime_ok rt"
proof -
  obtain s upgrade ex where n: "ValidateAgentConfig (reConfig R) cfg = None" "buildSnapshot R cfg d = (Some s, d')"
    "OpenCommandExecutor (rfStateDir F) (rfMkdirOk F) (iyAgentID (snIdentity s)) (iyCommandKey (snIdentity s)) handlers (rfState F) (rfWrites F) = Inr ex"
    "rt = \<lparr>rtCurrent = attachCommandExecutor s, rtScheduler = None, rtClient = None, rtExecutor = ex, rtUpgrade = upgrade, rtLastReport = []\<rparr>"
    using assms(1) by (auto simp: NewRuntime_def split: if_split_asm prod.split_asm option.split_asm sum.split_asm)
  have "exAgentID ex = iyAgentID (snIdentity s)" "exPublicKey ex = iyCommandKey (snIdentity s)" "exCurrentID ex = []"
    using n(3) by (auto simp: OpenCommandExecutor_def split: if_splits sum.splits)
  then show ?thesis using built_snapshot [OF n(2,1)] n(4) assms(2) by (simp add: runtime_ok_def snapshot_ok_def)
qed


subsection \<open>Reports\<close>

text \<open>A collection succeeds exactly when it leaves \<open>report_acknowledged\<close> as the code of the last report; then the Panel has accepted
  this very report. A collection that fails signals nothing to the upgrade manager, whatever the other destinations did.\<close>

theorem acknowledged_report_reached_the_panel:
  assumes "collectOnce C report marshal x rt q e = (ok, rt', q', e')" and "queue_inv q" and "fresh_id q x"
  shows "(ok \<longleftrightarrow> rtLastReport rt' = ''report_acknowledged'') \<and>
    (ok \<longrightarrow> (\<exists>rep body l. report = Some rep \<and> marshal rep = Some body \<and> deLog e' = deLog e @ l \<and> (''panel'', body) \<in> set l)) \<and>
    (\<not> ok \<longrightarrow> rtUpgrade rt' = rtUpgrade rt)"
proof (cases ok)
  case True
  then obtain rep body where s: "report = Some rep" "marshal rep = Some body" "rtLastReport rt' = ''report_acknowledged''"
    "SendRequired listLocked (\<lambda>b ds x. Put b ds (fst x) (snd x)) Ack (orderedIDs (snReporter (rtCurrent rt))) body ''panel'' x q e = (None, q', e')"
    using assms(1) by (auto simp: collectOnce_def split: option.split_asm prod.split_asm)
  have "\<exists>l. deLog e' = deLog e @ l \<and> (''panel'', body) \<in> set l" by (rule SendRequired_delivered [OF assms(2,3) _ s(4)]) simp
  then show ?thesis using True s(1-3) by blast
next
  case False
  then show ?thesis using assms(1) by (auto simp: collectOnce_def split: option.split_asm prod.split_asm)
qed

subsection \<open>Renewal during a reload\<close>

text \<open>The request of a renewal, answered by the handler of the Panel; \<open>encode\<close> is the text of its answer.\<close>

definition panel_renews :: "pki_env \<Rightarrow> (answer \<Rightarrow> bytes) \<Rightarrow> request_identity \<Rightarrow> nat list \<Rightarrow> int \<Rightarrow> agent_db \<Rightarrow> bytes \<Rightarrow> panel_request" where
  "panel_renews P encode i serials now db csr check url =
     (let a = fst (handleRenew P (JsonDoc csr) i serials now db) in
      Some \<lparr>plStatus = (case a of Renewed _ \<Rightarrow> 200 | Refused n _ \<Rightarrow> int n | _ \<Rightarrow> 500), plBody = encode a, plReadOk = True, plServerOk = (\<lambda>_. True)\<rparr>)"

text \<open>The Agent reads back the answer of the Panel, and both read the same serial number in a certificate.\<close>

definition renewal_formats :: "identity_crypto \<Rightarrow> pki_env \<Rightarrow> (answer \<Rightarrow> bytes) \<Rightarrow> bool" where
  "renewal_formats E P encode \<longleftrightarrow>
     (\<forall>c x. decodeIdentityJSON (icReadRenewed E (take 65536 (encode (Renewed c)))) = Some x \<longrightarrow> x = c) \<and>
     (\<forall>c leaf cert. parseSingleCertificate E c = Some leaf \<and> parseCertificatePEM P c = Some cert \<longrightarrow> lcSerial leaf = ctSerial cert)"

lemma handleRenew_faultless: "agFaults db = [] \<Longrightarrow> agFaults (snd (handleRenew P body i serials now db)) = []"
  by (auto simp: handleRenew_def attempt_def Let_def split: option.split sum.split)

lemma RenewIfNeeded_from_panel:
  assumes "RenewIfNeeded E (panel_renews P encode i serials t db) csr now j d = (True, j', d')" and "j' \<noteq> j" and "renewal_formats E P encode"
  obtains der c where "csr = Some der" "handleRenew P (JsonDoc (icPemEncode E ''CERTIFICATE REQUEST'' der)) i serials t db =
      (Renewed c, snd (handleRenew P (JsonDoc (icPemEncode E ''CERTIFICATE REQUEST'' der)) i serials t db))"
    "parseSingleCertificate E c = Some (iyLeaf j')" "lcSerial (iyLeaf j') \<noteq> lcSerial (iyLeaf j)"
proof -
  obtain der where der: "csr = Some der" using assms(1,2) by (cases csr) (auto simp: RenewIfNeeded_def split: if_splits)
  let ?a = "fst (handleRenew P (JsonDoc (icPemEncode E ''CERTIFICATE REQUEST'' der)) i serials t db)"
  let ?status = "(case ?a of Renewed _ \<Rightarrow> (200::int) | Refused n _ \<Rightarrow> int n | _ \<Rightarrow> 500)"
  have r: "?status = 200 \<and> (\<exists>x. decodeIdentityJSON (icReadRenewed E (take 65536 (encode ?a))) = Some x \<and> parseSingleCertificate E x = Some (iyLeaf j'))"
    using assms(1,2) der
    by (auto simp: RenewIfNeeded_def panel_renews_def Let_def split: option.split_asm if_split_asm prod.split_asm)
  have serial: "lcSerial (iyLeaf j') \<noteq> lcSerial (iyLeaf j)" using RenewIfNeeded_outcome [OF assms(1)] assms(2) by simp
  have no200: "?a \<noteq> Refused 200 x" for x
    by (auto simp: handleRenew_def Let_def split: option.split sum.split prod.split)
  have "\<exists>c. ?a = Renewed c"
  proof (cases ?a)
    case (Refused n x)
    then have "int n = 200" using r by simp
    then show ?thesis using no200 [of x] Refused by simp
  qed (use r in auto)
  then obtain c where c: "?a = Renewed c" by blast
  have "parseSingleCertificate E c = Some (iyLeaf j')" using r assms(3) unfolding c renewal_formats_def by blast
  then show thesis using that [of der c] der c serial by (metis prod.collapse)
qed

text \<open>A reload never reaches the control client that is running. When it renews the certificate, because less than thirty days are
  left, the Panel from then on refuses the certificate that client presents: the client was made from the identity loaded before, and
  only a restart replaces it.\<close>

theorem reload_strands_running_client:
  assumes "pki_laws P" and "tables_ok db" and "agFaults db = []" and "renewal_formats (reCrypto R) P encode"
    and "reRenew R = panel_renews P encode \<lparr>idAgentID = agent, idNodeID = node, idSerial = serial\<rparr> serials t db"
    and "Reload R decode rt d = (True, rt', d')"
    and "\<And>url j d1. LoadIdentity (reCrypto R) url d = (Some j, d1) \<Longrightarrow> lcSerial (iyLeaf j) = serial"
    and "lcSerial (iyLeaf (snIdentity (rtCurrent rt'))) \<noteq> serial"
  shows "rtClient rt' = rtClient rt \<and>
    (\<exists>der. reCSR R = Some der \<and>
       (\<forall>presented now rest. AgentIDFromCertificate presented = Inr agent \<and> ctSerial presented = serial \<longrightarrow>
          fst (requireAgent (Some [Some presented # rest]) now
            (snd (handleRenew P (JsonDoc (icPemEncode (reCrypto R) ''CERTIFICATE REQUEST'' der)) \<lparr>idAgentID = agent, idNodeID = node, idSerial = serial\<rparr> serials t db))) = None))"
  using assms(6)
proof (cases rule: Reload_cases)
  case (replaced cfg s)
  from replaced(4) show ?thesis
  proof (cases rule: buildSnapshot_cases)
    case (built ri ct st j d1 i s')
    have s: "snIdentity s = i" by (rule assembleSnapshot_Some [OF built(6)]) (use built(7) in simp)
    then have cur: "snIdentity (rtCurrent rt') = i" using replaced(7) by simp
    have old: "lcSerial (iyLeaf j) = serial" by (rule assms(7) [OF built(4)])
    then have "i \<noteq> j" using assms(8) cur by auto
    let ?r = "\<lparr>idAgentID = agent, idNodeID = node, idSerial = serial\<rparr>"
    obtain der c where n: "reCSR R = Some der" "handleRenew P (JsonDoc (icPemEncode (reCrypto R) ''CERTIFICATE REQUEST'' der)) ?r serials t db =
        (Renewed c, snd (handleRenew P (JsonDoc (icPemEncode (reCrypto R) ''CERTIFICATE REQUEST'' der)) ?r serials t db))"
      "parseSingleCertificate (reCrypto R) c = Some (iyLeaf i)" "lcSerial (iyLeaf i) \<noteq> lcSerial (iyLeaf j)"
      by (rule RenewIfNeeded_from_panel [OF built(5) [unfolded assms(5)] \<open>i \<noteq> j\<close> assms(4)])
    obtain cert where cert: "parseCertificatePEM P c = Some cert"
      "\<forall>stale now rest. AgentIDFromCertificate stale = Inr (idAgentID ?r) \<and> ctSerial stale = idSerial ?r \<and> ctSerial cert \<noteq> idSerial ?r \<longrightarrow>
         fst (requireAgent (Some [Some stale # rest]) now
           (snd (handleRenew P (JsonDoc (icPemEncode (reCrypto R) ''CERTIFICATE REQUEST'' der)) ?r serials t db))) = None"
      using renewal_effect [OF assms(1,2) n(2) handleRenew_faultless [OF assms(3)]] by blast
    have "ctSerial cert \<noteq> serial" using n(3,4) cert(1) assms(4) old unfolding renewal_formats_def by metis
    then show ?thesis using n(1) cert(2) replaced(7) by auto
  qed simp
qed simp

subsection \<open>A concrete Agent\<close>

text \<open>Texts that begin with \<open>a\<close> are those of the Panel, the others those of the enrolled Agent; the certificate \<open>1\<close> has serial number 5
  and \<open>d\<close>, which the Panel issues, has 7.\<close>

definition resident_url :: "bytes \<Rightarrow> panel_url option" where
  "resident_url raw =
     (if has_prefix (to_lower raw) ''https://''
      then Some \<lparr>puScheme = ''https'', puHost = raw, puHostname = raw, puHasUser = False, puPath = [], puRawPath = [], puRawQuery = [], puFragment = []\<rparr>
      else None)"

definition resident_crypto :: identity_crypto where
  "resident_crypto = sample_identity_crypto
     \<lparr>icParseURL := resident_url,
      icPem := (\<lambda>b. case b of [] \<Rightarrow> None | c # der \<Rightarrow>
        if c = CHR ''a'' then (case sample_pem b of None \<Rightarrow> None | Some (typ, x, rest) \<Rightarrow> if x = ''d'' then Some (typ, x, rest) else None)
        else icPem sample_identity_crypto b),
      icPemEncode := (\<lambda>typ der. if typ = ''CERTIFICATE REQUEST'' then sample_encode typ der else pem_letter typ @ der),
      icCert := (\<lambda>der. if der = ''ca'' then Some sample_ca_cert else if der = ''1'' then Some (sample_leaf 5 sample_agent ''1'')
        else if der = ''d'' then Some (sample_leaf 7 sample_agent ''1'') else None),
      icReadRenewed := (\<lambda>s. if length s < 65536 then JsonDoc s else JsonBad)\<rparr>"

definition resident_answer :: "answer \<Rightarrow> bytes" where
  "resident_answer a = (case a of Renewed c \<Rightarrow> if length c < 65536 then c else replicate 65536 (CHR ''x'') | _ \<Rightarrow> [])"

definition resident_identity :: identity where
  "resident_identity = (sample_identity_of 5 sample_agent ''1'')\<lparr>iyPanelURL := ''https://p''\<rparr>"

definition resident_dir :: pki_dir where
  "resident_dir = \<lparr>pdFiles = put_files (identityContents resident_crypto resident_identity (sample_material sample_agent ''1'')) [], pdFaults = []\<rparr>"

definition resident_config :: agent_config where
  "resident_config = DefaultAgentConfig\<lparr>cfAgent := (cfAgent DefaultAgentConfig)\<lparr>acNodeID := ''n''\<rparr>,
     cfPanel := (cfPanel DefaultAgentConfig)\<lparr>plURL := ''https://p''\<rparr>\<rparr>"

definition resident_cenv :: config_env where
  "resident_cenv = \<lparr>ceURL = resident_url,
     ceDuration = (\<lambda>s. if s = ''60s'' then Some (60 * second) else if s = ''45s'' then Some (45 * second) else if s = ''20s'' then Some (20 * second)
       else if s = ''6h'' then Some (6 * hour) else if s = ''3s'' then Some (3 * second) else None),
     ceGetenv = (\<lambda>_. []), ceReadFile = (\<lambda>_. None), ceAppendCerts = (\<lambda>_. False)\<rparr>"

definition resident_env :: "int \<Rightarrow> runtime_env" where
  "resident_env now = \<lparr>reConfig = resident_cenv, reCrypto = resident_crypto, reVersion = ''v1'',
     reNode = (\<lambda>_. \<lparr>neMachine = None, neStored = None, neRandom = None\<rparr>), reBootFile = Some ''boot'', reBootRandom = None, reCSR = Some ''q'',
     reRenew = panel_renews sample_pki resident_answer \<lparr>idAgentID = sample_agent, idNodeID = ''n'', idSerial = 5\<rparr> [7] sample_issued sample_due,
     reNow = now\<rparr>"

lemma resident_valid: "ValidateAgentConfig resident_cenv resident_config = None"
  by (simp add: ValidateAgentConfig_def validatePanel_def validateResidentTiming_def validateEgressIP_def resident_config_def DefaultAgentConfig_def
      resident_cenv_def resident_url_def has_prefix_def to_lower_def lower_char_def positive_def Let_def IsSecureEndpoint_def endpoint_of_def equal_fold_def)

lemma resident_urls: "url_laws (resident_env now)"
  by (auto simp: url_laws_def resident_env_def resident_cenv_def resident_crypto_def resident_url_def)

lemma resident_agent: "validCanonicalUUID sample_agent"
  by code_simp

lemma resident_parses:
  "parseSingleCertificate resident_crypto ''C1'' = Some (sample_leaf 5 sample_agent ''1'')"
  "parseSingleCertificate resident_crypto ''Cca'' = Some sample_ca_cert"
  "parseEd25519PublicKey resident_crypto ''K'' = Some (replicate 32 (CHR ''k''))"
  "parseSingleCertificate resident_crypto (sample_encode ''CERTIFICATE'' ''d'') = Some (sample_leaf 7 sample_agent ''1'')"
proof -
  have panel: "icPem resident_crypto (CHR ''a'' # r) =
      (case sample_pem (CHR ''a'' # r) of None \<Rightarrow> None | Some (typ, x, rest) \<Rightarrow> if x = ''d'' then Some (typ, x, rest) else None)" for r
    by (simp add: resident_crypto_def)
  have "sample_encode ''CERTIFICATE'' ''d'' = CHR ''a'' # tl (sample_encode ''CERTIFICATE'' ''d'')" by (simp add: sample_encode_def)
  then have "icPem resident_crypto (sample_encode ''CERTIFICATE'' ''d'') = Some (''CERTIFICATE'', ''d'', [])"
    using panel [of "tl (sample_encode ''CERTIFICATE'' ''d'')"] sample_pem_encode [of "''CERTIFICATE''" "''d''"] by simp
  then show "parseSingleCertificate resident_crypto (sample_encode ''CERTIFICATE'' ''d'') = Some (sample_leaf 7 sample_agent ''1'')"
    by (simp add: parseSingleCertificate_def trim_space_def resident_crypto_def)
qed (simp_all add: parseSingleCertificate_def parseEd25519PublicKey_def resident_crypto_def sample_identity_crypto_def trim_space_def PublicKeySize_def)

lemma resident_builds:
  "validateAndBuildIdentity resident_crypto ''https://p'' ''n'' ''1'' sample_ca_cert (sample_material sample_agent ''1'') = Some resident_identity"
  using resident_agent
  by (simp add: validateAndBuildIdentity_def sample_material_def resident_parses)
    (simp add: resident_identity_def sample_identity_of_def sample_leaf_def resident_crypto_def sample_identity_crypto_def verifyAgentCertificate_def)

lemma resident_laws: "identity_laws resident_crypto"
  by (auto simp: identity_laws_def parseAgentKey_def encodeECPrivateKey_def resident_crypto_def sample_identity_crypto_def pem_letter_def trim_space_def)

lemma resident_loads: "LoadIdentity resident_crypto ''https://p'' resident_dir = (Some resident_identity, resident_dir)"
  using persisted_loads [OF resident_laws resident_builds, of Map.empty]
  by (simp add: LoadIdentity_files resident_dir_def map_of_put_files)

lemma resident_loads_serial: "LoadIdentity resident_crypto url resident_dir = (Some j, d1) \<Longrightarrow> lcSerial (iyLeaf j) = 5"
proof -
  assume l: "LoadIdentity resident_crypto url resident_dir = (Some j, d1)"
  have "pdFaults resident_dir = []" by (simp add: resident_dir_def)
  then have "load_files resident_crypto url (map_of (pdFiles resident_dir)) = Some j" using l LoadIdentity_files by simp
  then obtain node key ca out where b: "validateAndBuildIdentity resident_crypto url node key ca out = Some j" "Some (imCertificate out) = map_of (pdFiles resident_dir) agentCertFile"
    by (auto simp: load_files_def split: option.splits if_splits)
  have "map_of (pdFiles resident_dir) agentCertFile = Some ''C1''"
    by (simp add: resident_dir_def map_of_put_files identityContents_lookup sample_material_def)
  then have "parseSingleCertificate resident_crypto ''C1'' = Some (iyLeaf j)" using validateAndBuildIdentity_Some [OF b(1)] b(2) by simp
  then have "iyLeaf j = sample_leaf 5 sample_agent ''1''" using resident_parses(1) by simp
  then show ?thesis by (simp add: sample_leaf_def)
qed

lemma resident_fresh: "RenewIfNeeded resident_crypto renew csr 0 resident_identity resident_dir = (True, resident_identity, resident_dir)"
  by (simp add: RenewIfNeeded_def renewalWindow_def resident_identity_def sample_identity_of_def sample_leaf_def)

theorem validated_config_builds_witness:
  "\<exists>s. buildSnapshot (resident_env 0) resident_config resident_dir = (Some s, resident_dir) \<and> snIdentity s = resident_identity \<and>
     orderedIDs (snReporter s) = [''panel'']"
proof -
  have "LoadIdentity (reCrypto (resident_env 0)) (plURL (cfPanel resident_config)) resident_dir = (Some resident_identity, resident_dir)"
    using resident_loads by (simp add: resident_env_def resident_config_def)
  moreover have "cfSinks resident_config = []" by (simp add: resident_config_def DefaultAgentConfig_def)
  moreover have "NodeID n resident_config \<noteq> []" for n by (simp add: NodeID_def resident_config_def)
  moreover have "readBootID (reBootFile (resident_env 0)) (reBootRandom (resident_env 0)) \<noteq> None"
    by (simp add: readBootID_def resident_env_def trim_space_def is_space_def)
  ultimately show ?thesis
    using validated_config_builds [of "resident_env 0" resident_config resident_dir resident_identity resident_dir resident_identity resident_dir]
      resident_valid resident_urls [of 0] resident_fresh by (auto simp: resident_env_def)
qed

definition resident_upgrade_env :: upgrade_env where
  "resident_upgrade_env = \<lparr>ueDirectory = [], ueStat = None, ueMkdirOk = True, ueChmodOk = True, ueBootID = Some ''boot'', ueRuntimeDir = [],
     ueContents = [], ueProof = None, ueRemoveOk = True, ueFaults = []\<rparr>"

definition resident_files :: runtime_files where
  "resident_files = \<lparr>rfOutbox = Some sample_outbox, rfStateDir = ''/s'', rfUpgradeEnv = resident_upgrade_env, rfUID = 0, rfGID = 0, rfMkdirOk = True,
     rfState = file_read.FileMissing, rfWrites = []\<rparr>"

lemma resident_env_simps:
  "reCrypto (resident_env now) = resident_crypto" "reConfig (resident_env now) = resident_cenv" "reCSR (resident_env now) = Some ''q''"
  "reNow (resident_env now) = now" "reVersion (resident_env now) = ''v1''"
  "reRenew (resident_env now) = panel_renews sample_pki resident_answer \<lparr>idAgentID = sample_agent, idNodeID = ''n'', idSerial = 5\<rparr> [7] sample_issued sample_due"
  by (simp_all add: resident_env_def)

lemma resident_snapshot:
  assumes "RenewIfNeeded resident_crypto (reRenew (resident_env now)) (Some ''q'') now resident_identity resident_dir = (True, i, d')"
  shows "\<exists>s. buildSnapshot (resident_env now) resident_config resident_dir = (Some s, d') \<and> snIdentity s = i"
proof -
  have "ValidateAgentConfig (reConfig (resident_env now)) resident_config = None" using resident_valid by (simp add: resident_env_simps)
  moreover have "LoadIdentity (reCrypto (resident_env now)) (plURL (cfPanel resident_config)) resident_dir = (Some resident_identity, resident_dir)"
    using resident_loads by (simp add: resident_env_simps resident_config_def)
  moreover have "RenewIfNeeded (reCrypto (resident_env now)) (reRenew (resident_env now)) (reCSR (resident_env now)) (reNow (resident_env now))
      resident_identity resident_dir = (True, i, d')"
    using assms by (simp only: resident_env_simps)
  moreover have "NewSink (reConfig (resident_env now)) s n \<noteq> None" if "s \<in> set (cfSinks resident_config)" for s n
    using that by (simp add: resident_config_def DefaultAgentConfig_def)
  moreover have "NodeID n resident_config \<noteq> []" for n by (simp add: NodeID_def resident_config_def)
  moreover have "readBootID (reBootFile (resident_env now)) (reBootRandom (resident_env now)) \<noteq> None"
    by (simp add: readBootID_def resident_env_def trim_space_def is_space_def)
  ultimately show ?thesis using validated_builds [OF _ resident_urls] by blast
qed

lemma resident_starts:
  "\<exists>rt. NewRuntime (resident_env 0) resident_files [] resident_config resident_dir = (Some rt, resident_dir) \<and> executor_ok (rtExecutor rt) \<and>
     snIdentity (rtCurrent rt) = resident_identity \<and> exAgentID (rtExecutor rt) = sample_agent"
proof -
  obtain s where s: "buildSnapshot (resident_env 0) resident_config resident_dir = (Some s, resident_dir)" "snIdentity s = resident_identity"
    using resident_snapshot [OF resident_fresh] by blast
  have dir: "path_abs (path_join [''/s'', ''updates''])" "path_clean (path_join [''/s'', ''updates'']) \<noteq> ''/''" by code_simp+
  have i: "iyAgentID resident_identity = sample_agent" "length (iyReleaseKey resident_identity) = PublicKeySize" "length (iyCommandKey resident_identity) = PublicKeySize"
    by (simp_all add: resident_identity_def sample_identity_of_def PublicKeySize_def)
  have v: "ValidateAgentConfig (reConfig (resident_env 0)) resident_config = None" "reVersion (resident_env 0) = ''v1''"
    using resident_valid by (simp_all add: resident_env_def)
  obtain up where up: "NewUpgradeManager ''/s'' (Some \<lparr>aiAgentID = iyAgentID resident_identity, aiReleaseKey = iyReleaseKey resident_identity\<rparr>) ''v1''
      resident_upgrade_env 0 0 = Some up"
    using dir i resident_agent by (simp add: NewUpgradeManager_def upgradeDirectory_def directoryUsable_def resident_upgrade_env_def Let_def)
  obtain ex where ex: "OpenCommandExecutor ''/s'' True (iyAgentID resident_identity) (iyCommandKey resident_identity) [] file_read.FileMissing [] = Inr ex"
      "exAgentID ex = sample_agent" "executor_ok ex"
    using i uuid_nonempty [OF resident_agent]
    by (auto simp: OpenCommandExecutor_def loadState_def executor_ok_def executor_inv_def initialState_def)
  show ?thesis using s up ex v by (simp add: NewRuntime_def resident_files_def)
qed


definition renewal_day :: int where "renewal_day = 900 * hour"

definition renewed_identity :: identity where
  "renewed_identity = resident_identity\<lparr>iyLeaf := sample_leaf 7 sample_agent ''1'', iyCertificate := sample_encode ''CERTIFICATE'' ''d''\<rparr>"

lemma panel_answers:
  "\<exists>db'. handleRenew sample_pki (JsonDoc (sample_encode ''CERTIFICATE REQUEST'' ''q'')) \<lparr>idAgentID = sample_agent, idNodeID = ''n'', idSerial = 5\<rparr> [7]
     sample_issued sample_due = (Renewed (sample_encode ''CERTIFICATE'' ''d''), db')"
proof -
  have csr: "parseCSR sample_pki (sample_encode ''CERTIFICATE REQUEST'' ''q'') = Some ''q''"
    by (simp add: parseCSR_def sample_pki_def sample_pem_encode trim_space_def)
  have "sample_issued div second = 1000" by (simp add: sample_issued_def)
  then show ?thesis
    by (simp add: handleRenew_def csr attempt_def sample_due_def current_def Enrollment.sample_row_def sample_IssueAgent sample_parse)
qed

lemma resident_renews:
  "\<exists>d'. RenewIfNeeded resident_crypto (reRenew (resident_env now)) (Some ''q'') renewal_day resident_identity resident_dir = (True, renewed_identity, d')"
proof -
  obtain db' where h: "handleRenew sample_pki (JsonDoc (sample_encode ''CERTIFICATE REQUEST'' ''q'')) \<lparr>idAgentID = sample_agent, idNodeID = ''n'', idSerial = 5\<rparr>
      [7] sample_issued sample_due = (Renewed (sample_encode ''CERTIFICATE'' ''d''), db')"
    using panel_answers by blast
  have short: "length (sample_encode ''CERTIFICATE'' ''d'') < 65536" by (simp add: sample_encode_def)
  have req: "icPemEncode resident_crypto ''CERTIFICATE REQUEST'' ''q'' = sample_encode ''CERTIFICATE REQUEST'' ''q''" by (simp add: resident_crypto_def)
  have rd: "icReadRenewed resident_crypto (sample_encode ''CERTIFICATE'' ''d'') = JsonDoc (sample_encode ''CERTIFICATE'' ''d'')"
    using short by (simp add: resident_crypto_def)
  have p: "reRenew (resident_env now) (sample_encode ''CERTIFICATE REQUEST'' ''q'') check url =
      Some \<lparr>plStatus = 200, plBody = sample_encode ''CERTIFICATE'' ''d'', plReadOk = True, plServerOk = (\<lambda>_. True)\<rparr>" for check url
    using short by (simp add: resident_env_def panel_renews_def h resident_answer_def)
  have i: "iyAgentID resident_identity = sample_agent" "iyLeaf resident_identity = sample_leaf 5 sample_agent ''1''" "iyKey resident_identity = ''1''"
    "iyPanelURL resident_identity = ''https://p''"
    by (simp_all add: resident_identity_def sample_identity_of_def)
  have u: "\<exists>u. icParseURL resident_crypto ''https://p'' = Some u"
    by (simp add: resident_crypto_def resident_url_def has_prefix_def to_lower_def lower_char_def)
  have due: "\<not> renewalWindow < lcNotAfter (sample_leaf 5 sample_agent ''1'') - renewal_day" by (simp add: renewalWindow_def sample_leaf_def renewal_day_def)
  have ok: "lcKey (sample_leaf 7 sample_agent ''1'') = Some (icPublic resident_crypto ''1'')"
    "lcSerial (sample_leaf 7 sample_agent ''1'') \<noteq> lcSerial (sample_leaf 5 sample_agent ''1'')"
    "verifyAgentCertificate resident_crypto (sample_leaf 7 sample_agent ''1'') ca sample_agent" "icKeyPair resident_crypto x y" for ca x y
    using resident_agent by (simp_all add: sample_leaf_def resident_crypto_def sample_identity_crypto_def verifyAgentCertificate_def)
  have store: "storeIdentityFile n b resident_dir = (True, resident_dir\<lparr>pdFiles := dir_put n b (pdFiles resident_dir)\<rparr>)" for n b
    by (simp add: storeIdentityFile_def resident_dir_def)
  have "pkiCalls 2 (resident_dir\<lparr>pdFiles := f\<rparr>) = (True, resident_dir\<lparr>pdFiles := f\<rparr>)" for f by (simp add: resident_dir_def)
  then show ?thesis using u short due
    by (auto simp: RenewIfNeeded_def i req p rd resident_parses(4) ok store renewed_identity_def simp del: not_less)
qed

lemma resident_formats: "renewal_formats resident_crypto sample_pki resident_answer"
  unfolding renewal_formats_def
proof (intro conjI allI impI)
  fix c x assume a: "decodeIdentityJSON (icReadRenewed resident_crypto (take 65536 (resident_answer (Renewed c)))) = Some x"
  show "x = c"
  proof (cases "length c < 65536")
    case True
    then show ?thesis using a by (simp add: resident_answer_def resident_crypto_def)
  next
    case False
    then have "take 65536 (resident_answer (Renewed c)) = replicate 65536 (CHR ''x'')" by (simp add: resident_answer_def)
    then show ?thesis using a by (simp add: resident_crypto_def del: replicate_Suc)
  qed
next
  fix c leaf cert assume a: "parseSingleCertificate resident_crypto c = Some leaf \<and> parseCertificatePEM sample_pki c = Some cert"
  then have "ctSerial cert = 7" by (auto simp: parseCertificatePEM_def sample_pki_def split: option.splits if_splits)
  moreover obtain b der where c: "c = b # der" using a by (cases c) (auto simp: parseSingleCertificate_def resident_crypto_def)
  moreover have "lcSerial leaf = 7"
  proof (cases "b = CHR ''a''")
    case True
    then show ?thesis using a c
      by (auto simp: parseSingleCertificate_def resident_crypto_def sample_leaf_def split: option.splits if_splits prod.splits)
  next
    case False
    then have "sample_pem c = Some ([], der, [])" using c by (simp add: sample_pem_def)
    then show ?thesis using a by (simp add: parseCertificatePEM_def sample_pki_def)
  qed
  ultimately show "lcSerial leaf = ctSerial cert" by simp
qed

theorem reload_strands_running_client_witness:
  "\<exists>rt rt' d'. Reload (resident_env renewal_day) (\<lambda>_. Some (resident_config, [])) rt resident_dir = (True, rt', d') \<and> rtClient rt' = rtClient rt \<and>
     rtClient rt \<noteq> None \<and> lcSerial (iyLeaf (snIdentity (rtCurrent rt'))) = 7 \<and>
     fst (requireAgent (Some [[Some \<lparr>ctSerial = 5, ctNotBefore = 0, ctNotAfter = 2000 * second, ctURIs = [Some (agent_url sample_agent)], ctRaw = []\<rparr>]]) (1500 * second)
       (snd (handleRenew sample_pki (JsonDoc (sample_encode ''CERTIFICATE REQUEST'' ''q'')) \<lparr>idAgentID = sample_agent, idNodeID = ''n'', idSerial = 5\<rparr> [7]
         sample_issued sample_due))) = None"
proof -
  let ?R = "resident_env renewal_day"
  obtain rt0 where s: "NewRuntime (resident_env 0) resident_files [] resident_config resident_dir = (Some rt0, resident_dir)"
    "executor_ok (rtExecutor rt0)" "snIdentity (rtCurrent rt0) = resident_identity"
    using resident_starts by blast
  obtain rt where rt: "RunStart pad_crypto undefined (Some False) rt0 = (True, rt)" "rtClient rt \<noteq> None" "rtCurrent rt = rtCurrent rt0"
    by (simp add: RunStart_def Let_def)
  obtain d' where ren: "RenewIfNeeded resident_crypto (reRenew ?R) (Some ''q'') renewal_day resident_identity resident_dir = (True, renewed_identity, d')"
    using resident_renews by blast
  note R = resident_env_simps [of renewal_day]
  obtain n where n: "buildSnapshot ?R resident_config resident_dir = (Some n, d')" "snIdentity n = renewed_identity"
    using resident_snapshot [OF ren] by blast
  have load: "LoadAgentConfig (\<lambda>_. Some (resident_config, [])) = Some resident_config"
    by (simp add: LoadAgentConfig_def resident_config_def DefaultAgentConfig_def)
  have same: "iyAgentID renewed_identity = iyAgentID resident_identity" "iyCommandKey renewed_identity = iyCommandKey resident_identity"
    "lcSerial (iyLeaf renewed_identity) = 7"
    by (simp_all add: renewed_identity_def sample_leaf_def)
  obtain rt' where rl: "Reload ?R (\<lambda>_. Some (resident_config, [])) rt resident_dir = (True, rt', d')" "snIdentity (rtCurrent rt') = renewed_identity"
    using n load same resident_valid s(3) rt(3) by (simp add: Reload_def R)
  have db: "tables_ok sample_due" "agFaults sample_due = []" by (simp_all add: tables_ok_def sample_due_def)
  have ser: "lcSerial (iyLeaf j) = 5" if "LoadIdentity (reCrypto ?R) url resident_dir = (Some j, d1)" for url j d1
    using that resident_loads_serial by (simp add: R)
  let ?old = "\<lparr>ctSerial = 5, ctNotBefore = 0, ctNotAfter = 2000 * second, ctURIs = [Some (agent_url sample_agent)], ctRaw = []\<rparr>"
  have id: "AgentIDFromCertificate ?old = Inr sample_agent" by (rule AgentIDFromCertificate_agent_url [OF sample_agent_valid]) simp
  have new: "lcSerial (iyLeaf (snIdentity (rtCurrent rt'))) \<noteq> 5" using rl(2) same(3) by simp
  have fmt: "renewal_formats (reCrypto ?R) sample_pki resident_answer" using resident_formats by (simp add: R)
  have req: "icPemEncode (reCrypto ?R) ''CERTIFICATE REQUEST'' ''q'' = sample_encode ''CERTIFICATE REQUEST'' ''q''" by (simp add: R resident_crypto_def)
  from reload_strands_running_client [OF sample_laws db fmt R(6) rl(1) ser new]
  have k: "rtClient rt' = rtClient rt"
    "fst (requireAgent (Some [[Some ?old]]) (1500 * second)
       (snd (handleRenew sample_pki (JsonDoc (sample_encode ''CERTIFICATE REQUEST'' ''q'')) \<lparr>idAgentID = sample_agent, idNodeID = ''n'', idSerial = 5\<rparr> [7]
         sample_issued sample_due))) = None"
    using id by (auto simp: R(3) req)
  show ?thesis using rl rt(2) k same(3) by (intro exI [of _ rt] exI [of _ rt'] exI [of _ d']) simp
qed


definition panel_only :: reporter where
  "panel_only = \<lparr>rpDestinations = [(''panel'', the (NewPanelSink ''https://p'' True))]\<rparr>"

lemma sample_panel_required:
  "fst (SendRequired listLocked (\<lambda>b ds x. Put b ds (fst x) (snd x)) Ack (orderedIDs panel_only) ''rep'' ''panel'' (5, ''r'') sample_outbox sample_delivery) = None"
proof -
  have "orderedIDs panel_only = [''panel'']" by (simp add: orderedIDs_def panel_only_def)
  then show ?thesis
    by (simp add: SendRequired_def Flush_def requiredPending_def sample_delivery_def contextErr_def sinkSend_def Ack_def Put_def
        sample_outbox_def uniqueDestinations_def io_def enforceLimitsLocked_def listLocked_def dir_put_def dir_remove_def
        valid_record_def outboxRecordVersion_def item_of_def itemCost_def Let_def)
qed

theorem acknowledged_report_reached_the_panel_witness:
  "\<forall>C. \<exists>rt rt' q' e' l. collectOnce C (Some ''rep'') Some (5, ''r'') rt sample_outbox sample_delivery = (True, rt', q', e') \<and>
     rtLastReport rt' = ''report_acknowledged'' \<and> deLog e' = deLog sample_delivery @ l \<and> (''panel'', ''rep'') \<in> set l"
proof
  fix C
  obtain rt0 where "NewRuntime (resident_env 0) resident_files [] resident_config resident_dir = (Some rt0, resident_dir)"
    using resident_starts by blast
  define rt where "rt = rt0\<lparr>rtCurrent := (rtCurrent rt0)\<lparr>snReporter := panel_only\<rparr>\<rparr>"
  obtain r q' e' where s: "SendRequired listLocked (\<lambda>b ds x. Put b ds (fst x) (snd x)) Ack (orderedIDs panel_only) ''rep'' ''panel'' (5, ''r'') sample_outbox sample_delivery = (r, q', e')"
    by (rule prod_cases3)
  then have "r = None" using sample_panel_required by simp
  then obtain rt' where c: "collectOnce C (Some ''rep'') Some (5, ''r'') rt sample_outbox sample_delivery = (True, rt', q', e')"
    using s by (simp add: collectOnce_def rt_def)
  note t = acknowledged_report_reached_the_panel [OF c sample_outbox_inv]
  then obtain l where l: "deLog e' = deLog sample_delivery @ l" "(''panel'', ''rep'') \<in> set l" by auto
  show "\<exists>rt rt' q' e' l. collectOnce C (Some ''rep'') Some (5, ''r'') rt sample_outbox sample_delivery = (True, rt', q', e') \<and>
     rtLastReport rt' = ''report_acknowledged'' \<and> deLog e' = deLog sample_delivery @ l \<and> (''panel'', ''rep'') \<in> set l"
    by (intro exI [of _ rt] exI [of _ rt'] exI [of _ q'] exI [of _ e'] exI [of _ l] conjI) (use c l t in simp_all)
qed

end
