(* ===== verification/AgentRun.thy ===== *)
theory AgentRun
  imports Runtime
begin

text \<open>
  \<open>internal/agent/run.go\<close>, \<open>selfcheck.go\<close> and \<open>cmd/net-probe/main.go\<close>: one report and exit, the preflight of an installation, the self
  check and the command line. Building a report is a parameter; the requests to the destinations are answered by a list, and the
  log holds those that were accepted.
\<close>

subsection \<open>Self check\<close>

definition CheckConfig :: bytes where "CheckConfig = ''config''"
definition CheckCertificate :: bytes where "CheckCertificate = ''certificate''"
definition CheckPanel :: bytes where "CheckPanel = ''panel''"
definition CheckDetectors :: bytes where "CheckDetectors = ''detectors''"
definition CheckFilesystem :: bytes where "CheckFilesystem = ''filesystem''"
definition CheckUpdate :: bytes where "CheckUpdate = ''update''"

lemmas check_ids = CheckConfig_def CheckCertificate_def CheckPanel_def CheckDetectors_def CheckFilesystem_def CheckUpdate_def

text \<open>What a check comes to: no error, an error, or its deadline has passed.\<close>

datatype check_outcome = CheckPassed | CheckFailed | CheckDeadline

record check_result =
  ckCheck :: bytes
  ckStatus :: bytes
  ckCode :: bytes

definition checkTimeout :: "duration \<Rightarrow> duration" where
  "checkTimeout timeout = (if timeout \<le> 0 \<or> 5 * second < timeout then 3 * second else timeout)"

fun validChecks :: "(bytes \<rightharpoonup> check_outcome) \<Rightarrow> bytes list \<Rightarrow> bytes list \<Rightarrow> bool" where
  "validChecks checks seen [] = True"
| "validChecks checks seen (c # cs) = (if checks c = None then False else if c \<in> set seen then False else validChecks checks (c # seen) cs)"

definition selfCheckResult :: "(bytes \<rightharpoonup> check_outcome) \<Rightarrow> bytes \<Rightarrow> check_result" where
  "selfCheckResult checks c =
     (case checks c of
        Some CheckDeadline \<Rightarrow> \<lparr>ckCheck = c, ckStatus = ''error'', ckCode = ''timeout''\<rparr>
      | Some CheckFailed \<Rightarrow> \<lparr>ckCheck = c, ckStatus = ''error'', ckCode = ''check_failed''\<rparr>
      | _ \<Rightarrow> \<lparr>ckCheck = c, ckStatus = ''ok'', ckCode = ''ok''\<rparr>)"

definition SelfCheckerRun ::
    "(bytes \<rightharpoonup> check_outcome) option \<Rightarrow> (check_result list \<Rightarrow> bytes option) \<Rightarrow> bytes list json_text \<Rightarrow> outcome" where
  "SelfCheckerRun checker marshal raw =
     (case checker of
        None \<Rightarrow> outcomeOf ''self_check_unavailable'' True
      | Some checks \<Rightarrow>
          if checks = Map.empty then outcomeOf ''self_check_unavailable'' True
          else (case StrictDecodePayload raw of
            Inl e \<Rightarrow> outcomeOf ''invalid_payload'' True
          | Inr requested \<Rightarrow>
              if requested = [] \<or> 6 < length requested then outcomeOf ''invalid_payload'' True
              else if \<not> validChecks checks [] requested then outcomeOf ''invalid_payload'' True
              else (case marshal (map (selfCheckResult checks) requested) of
                None \<Rightarrow> outcomeOf ''self_check_failed'' True
              | Some body \<Rightarrow>
                  if 16 * 1024 < length body then outcomeOf ''self_check_failed'' True
                  else \<lparr>oCode = ''self_check_completed'', oData = body, oFailed = False, oPending = False, oAfterPersist = False\<rparr>)))"

text \<open>What the checks find: the answer of the Panel, if it came before the deadline, whether the detector templates load and register,
  and the calls that write a file into the state directory.\<close>

datatype panel_answer = PanelStatus int | PanelUnreachable | PanelDeadline

record check_world =
  cwPanel :: panel_answer
  cwDetectors :: bool
  cwFileCalls :: "bool list"

definition passes :: "bool \<Rightarrow> check_outcome" where
  "passes ok = (if ok then CheckPassed else CheckFailed)"

definition selfChecks :: "runtime_env \<Rightarrow> check_world \<Rightarrow> runtime_snapshot \<Rightarrow> bytes \<rightharpoonup> check_outcome" where
  "selfChecks R w s =
     [CheckConfig \<mapsto> passes (ValidateAgentConfig (reConfig R) (snConfig s) = None),
      CheckCertificate \<mapsto> passes (\<not> lcNotAfter (iyLeaf (snIdentity s)) - reNow R \<le> 0),
      CheckPanel \<mapsto> (case ceURL (reConfig R) (plURL (cfPanel (snConfig s))) of
         None \<Rightarrow> CheckFailed
       | Some u \<Rightarrow> (case cwPanel w of PanelStatus status \<Rightarrow> passes (status = 200) | PanelUnreachable \<Rightarrow> CheckFailed | PanelDeadline \<Rightarrow> CheckDeadline)),
      CheckDetectors \<mapsto> passes (cwDetectors w),
      CheckFilesystem \<mapsto> passes (True \<notin> set (take 5 (cwFileCalls w))),
      CheckUpdate \<mapsto> passes (length (iyReleaseKey (snIdentity s)) = PublicKeySize)]"

definition HandleSelfCheck ::
    "runtime_env \<Rightarrow> check_world \<Rightarrow> (check_result list \<Rightarrow> bytes option) \<Rightarrow> bytes list json_text \<Rightarrow> runtime_state \<Rightarrow> outcome" where
  "HandleSelfCheck R w marshal raw rt = SelfCheckerRun (Some (selfChecks R w (rtCurrent rt))) marshal raw"

subsection \<open>One report\<close>

text \<open>The answers of the next requests, true when a request was made and accepted; an exhausted list accepts.\<close>

record send_world =
  swAnswers :: "bool list"
  swAccepted :: "sink_request list"
  swAttempts :: nat

definition sendOnce :: "http_sink \<Rightarrow> bytes \<Rightarrow> send_world \<Rightarrow> bool \<times> send_world" where
  "sendOnce s body w =
     (let (ok, rest) = (case swAnswers w of [] \<Rightarrow> (True, []) | a # as \<Rightarrow> (a, as)) in
      (ok, w\<lparr>swAnswers := rest, swAccepted := (if ok then swAccepted w @ [sinkRequest s body] else swAccepted w), swAttempts := Suc (swAttempts w)\<rparr>))"

fun sendTimes :: "nat \<Rightarrow> http_sink \<Rightarrow> bytes \<Rightarrow> send_world \<Rightarrow> bool \<times> send_world" where
  "sendTimes 0 s body w = (False, w)"
| "sendTimes (Suc n) s body w = (let (ok, w) = sendOnce s body w in if ok then (True, w) else sendTimes n s body w)"

definition sendWithRetry :: "http_sink \<Rightarrow> bytes \<Rightarrow> send_world \<Rightarrow> bool \<times> send_world" where
  "sendWithRetry s body w = sendTimes 3 s body w"

text \<open>The Panel part of \<open>Run\<close>: whether it went well.\<close>

definition sendPanelReport :: "runtime_env \<Rightarrow> agent_config \<Rightarrow> bytes \<Rightarrow> pki_dir \<Rightarrow> send_world \<Rightarrow> bool \<times> pki_dir \<times> send_world" where
  "sendPanelReport R cfg body d w =
     (case LoadIdentity (reCrypto R) (plURL (cfPanel cfg)) d of
        (None, d) \<Rightarrow> (False, d, w)
      | (Some i, d) \<Rightarrow>
          (case RenewIfNeeded (reCrypto R) (reRenew R) (reCSR R) (reNow R) i d of
             (ok, i, d) \<Rightarrow>
               if \<not> ok then (False, d, w)
               else (case NewPanelSink (plURL (cfPanel cfg)) True of
                 None \<Rightarrow> (False, d, w)
               | Some s \<Rightarrow> (case sendWithRetry s body w of (ok, w) \<Rightarrow> (ok, d, w)))))"

fun sendWebhooks :: "runtime_env \<Rightarrow> bytes \<Rightarrow> bytes \<Rightarrow> sink_config list \<Rightarrow> bool \<Rightarrow> send_world \<Rightarrow> bool \<times> send_world" where
  "sendWebhooks R nodeID body [] ok w = (ok, w)"
| "sendWebhooks R nodeID body (c # cs) ok w =
     (case NewSink (reConfig R) c nodeID of
        None \<Rightarrow> sendWebhooks R nodeID body cs False w
      | Some s \<Rightarrow> (case sendWithRetry s body w of (sent, w) \<Rightarrow> sendWebhooks R nodeID body cs (ok \<and> sent) w))"

text \<open>\<open>report\<close> is the report, with its node identifier, if it could be built.\<close>

definition RunOnce ::
    "runtime_env \<Rightarrow> agent_config \<Rightarrow> (bytes \<times> 'r) option \<Rightarrow> ('r \<Rightarrow> bytes option) \<Rightarrow> pki_dir \<Rightarrow> send_world \<Rightarrow> int \<times> pki_dir \<times> send_world" where
  "RunOnce R cfg report marshal d w =
     (case report of
        None \<Rightarrow> (2, d, w)
      | Some (nodeID, rep) \<Rightarrow>
          (case marshal rep of
             None \<Rightarrow> (2, d, w)
           | Some body \<Rightarrow>
               (case (if plURL (cfPanel cfg) \<noteq> [] then sendPanelReport R cfg body d w else (True, d, w)) of
                  (ok, d, w) \<Rightarrow> (case sendWebhooks R nodeID body (cfSinks cfg) ok w of (ok, w) \<Rightarrow> (if ok then 0 else 1, d, w)))))"

subsection \<open>Preflight\<close>

datatype preflight_error =
    PreflightTimeout | PreflightBuild | PreflightEncode | PreflightIdentity | PreflightRenew | PreflightSink | PreflightReport
  | PreflightControl | PreflightProbe probe_result

text \<open>\<open>probe\<close> is what the probe of a client returns.\<close>

definition Preflight ::
    "runtime_env \<Rightarrow> agent_config \<Rightarrow> 'r option \<Rightarrow> ('r \<Rightarrow> bytes option) \<Rightarrow> (control_client \<Rightarrow> probe_result) \<Rightarrow> pki_dir \<Rightarrow> send_world \<Rightarrow>
      preflight_error option \<times> pki_dir \<times> send_world" where
  "Preflight R cfg report marshal probe d w =
     (if \<not> positive (ceDuration (reConfig R) (acCollectTimeout (cfAgent cfg))) then (Some PreflightTimeout, d, w)
      else case report of
        None \<Rightarrow> (Some PreflightBuild, d, w)
      | Some rep \<Rightarrow>
          (case marshal rep of
             None \<Rightarrow> (Some PreflightEncode, d, w)
           | Some body \<Rightarrow>
               (case LoadIdentity (reCrypto R) (plURL (cfPanel cfg)) d of
                  (None, d) \<Rightarrow> (Some PreflightIdentity, d, w)
                | (Some i, d) \<Rightarrow>
                    (case RenewIfNeeded (reCrypto R) (reRenew R) (reCSR R) (reNow R) i d of
                       (ok, i, d) \<Rightarrow>
                         if \<not> ok then (Some PreflightRenew, d, w)
                         else (case NewPanelSink (plURL (cfPanel cfg)) True of
                           None \<Rightarrow> (Some PreflightSink, d, w)
                         | Some s \<Rightarrow>
                             (case sendWithRetry s body w of
                                (sent, w) \<Rightarrow>
                                  if \<not> sent then (Some PreflightReport, d, w)
                                  else (case NewControlClient (reCrypto R) (controlOptionsFor R cfg 0 i) (reBootFile R) (reBootRandom R) of
                                    None \<Rightarrow> (Some PreflightControl, d, w)
                                  | Some c \<Rightarrow> (if probe c = ProbeOk then None else Some (PreflightProbe (probe c)), d, w))))))))"

subsection \<open>The command line\<close>

record cli_flags =
  fgConfig :: bytes
  fgCheck :: bool
  fgOnce :: bool
  fgPreflight :: bool
  fgVersion :: bool

datatype cli_action = ExitCode int | PrintVersion | PrintReport agent_config | OnceMode agent_config | PreflightMode agent_config | ResidentMode agent_config

text \<open>\<open>flags\<close> are the parsed flags, \<open>decode\<close> reads the configuration file of a path and \<open>pinned\<close> is the release key built into the binary.\<close>

definition runCLI ::
    "runtime_env \<Rightarrow> cli_flags option \<Rightarrow> bytes \<Rightarrow> (bytes \<Rightarrow> agent_config \<Rightarrow> (agent_config \<times> bytes list) option) \<Rightarrow> bytes \<Rightarrow> cli_action" where
  "runCLI R flags configDir decode pinned =
     (case flags of
        None \<Rightarrow> ExitCode 2
      | Some f \<Rightarrow>
          if 1 < length (filter id [fgCheck f, fgOnce f, fgPreflight f]) then ExitCode 2
          else if fgVersion f then PrintVersion
          else (case LoadAgentConfig (decode (if fgConfig f = [] then configDir @ ''/config.toml'' else fgConfig f)) of
            None \<Rightarrow> ExitCode 2
          | Some cfg \<Rightarrow>
              if ValidateAgentConfig (reConfig R) cfg \<noteq> None then ExitCode 2
              else if pinned \<noteq> [] \<and> \<not> VerifyReleaseKeyPin (reCrypto R) (ceReadFile (reConfig R) (plReleaseKeyFile (cfPanel cfg))) pinned then ExitCode 2
              else if fgCheck f then PrintReport cfg
              else if fgOnce f then OnceMode cfg
              else if fgPreflight f then PreflightMode cfg
              else ResidentMode cfg))"

record enroll_flags =
  efPanelURL :: bytes
  efFingerprint :: bytes
  efCodeStdin :: bool

text \<open>The configuration file is missing, unreadable or decoded.\<close>

datatype config_file = NoConfigFile | BadConfigFile | ConfigFile agent_config

text \<open>\<open>ReadString\<close> of the first 4097 bytes ends at the first newline.\<close>

definition readCode :: "bytes \<Rightarrow> bytes" where
  "readCode input = trim_space (takeWhile (\<lambda>c. c \<noteq> CHR 0x0A) (take 4097 input))"

definition runEnroll :: "runtime_env \<Rightarrow> enroll_flags option \<Rightarrow> bytes option \<Rightarrow> config_file \<Rightarrow> enrollment_options option" where
  "runEnroll R flags input file =
     (case flags of
        None \<Rightarrow> None
      | Some f \<Rightarrow>
          if \<not> efCodeStdin f \<or> efPanelURL f = [] \<or> efFingerprint f = [] then None
          else (case input of
            None \<Rightarrow> None
          | Some inp \<Rightarrow>
              let code = readCode inp in
              if code = [] \<or> 4096 < length code then None
              else (case (case file of NoConfigFile \<Rightarrow> Some DefaultAgentConfig | BadConfigFile \<Rightarrow> None | ConfigFile cfg \<Rightarrow> Some cfg) of
                None \<Rightarrow> None
              | Some cfg \<Rightarrow>
                  let cfg = cfg\<lparr>cfPanel := (cfPanel cfg)\<lparr>plURL := efPanelURL f\<rparr>\<rparr> in
                  if ValidateAgentConfig (reConfig R) cfg \<noteq> None then None
                  else Some \<lparr>eoPanelURL = efPanelURL f, eoCAFingerprint = efFingerprint f, eoCode = code,
                         eoPKIDir = path_dir (plCAFile (cfPanel cfg)), eoNodeID = NodeID (reNode R 0) cfg, eoVersion = reVersion R\<rparr>)))"

subsection \<open>Sending\<close>

lemma sendOnce_effect:
  "sendOnce s body w = (ok, w') \<Longrightarrow>
     swAccepted w' = swAccepted w @ (if ok then [sinkRequest s body] else []) \<and> swAttempts w' = Suc (swAttempts w)"
  by (auto simp: sendOnce_def Let_def split: prod.splits list.splits)

lemma sendTimes_effect:
  "sendTimes n s body w = (ok, w') \<Longrightarrow>
     swAccepted w' = swAccepted w @ (if ok then [sinkRequest s body] else []) \<and> swAttempts w \<le> swAttempts w' \<and> swAttempts w' \<le> swAttempts w + n"
proof (induction n arbitrary: w)
  case (Suc n)
  obtain b v where o': "sendOnce s body w = (b, v)" by (metis surj_pair)
  note e = sendOnce_effect [OF o']
  show ?case
  proof (cases b)
    case True
    then show ?thesis using Suc.prems o' e by simp
  next
    case False
    then have "sendTimes n s body v = (ok, w')" using Suc.prems o' by simp
    from Suc.IH [OF this] show ?thesis using e False by simp
  qed
qed simp

text \<open>The requests of the webhooks that can be made at all.\<close>

definition webhookRequests :: "runtime_env \<Rightarrow> bytes \<Rightarrow> bytes \<Rightarrow> sink_config list \<Rightarrow> sink_request list" where
  "webhookRequests R nodeID body cs = map (\<lambda>s. sinkRequest s body) (List.map_filter (\<lambda>c. NewSink (reConfig R) c nodeID) cs)"

lemma sendWebhooks_effect:
  "sendWebhooks R nodeID body cs ok w = (ok', w') \<Longrightarrow>
     \<exists>sent. swAccepted w' = swAccepted w @ sent \<and> set sent \<subseteq> set (webhookRequests R nodeID body cs) \<and> length sent \<le> length cs \<and>
       (ok' \<longleftrightarrow> ok \<and> length sent = length cs) \<and> (ok' \<longrightarrow> sent = webhookRequests R nodeID body cs) \<and>
       swAttempts w \<le> swAttempts w' \<and> swAttempts w' \<le> swAttempts w + 3 * length cs"
proof (induction cs arbitrary: ok w)
  case Nil
  then show ?case by (simp add: webhookRequests_def map_filter_simps)
next
  case (Cons c cs)
  show ?case
  proof (cases "NewSink (reConfig R) c nodeID")
    case None
    then have "sendWebhooks R nodeID body cs False w = (ok', w')" using Cons.prems by simp
    from Cons.IH [OF this] obtain sent where s: "swAccepted w' = swAccepted w @ sent" "set sent \<subseteq> set (webhookRequests R nodeID body cs)"
      "length sent \<le> length cs" "\<not> ok'" "swAttempts w \<le> swAttempts w'" "swAttempts w' \<le> swAttempts w + 3 * length cs" by blast
    moreover have "webhookRequests R nodeID body (c # cs) = webhookRequests R nodeID body cs"
      using None by (simp add: webhookRequests_def map_filter_simps)
    ultimately show ?thesis by (intro exI [of _ sent]) simp
  next
    case (Some s)
    obtain b v where o': "sendWithRetry s body w = (b, v)" by (metis surj_pair)
    note e = sendTimes_effect [OF o' [unfolded sendWithRetry_def]]
    have "sendWebhooks R nodeID body cs (ok \<and> b) v = (ok', w')" using Cons.prems Some o' by simp
    from Cons.IH [OF this] obtain sent where r: "swAccepted w' = swAccepted v @ sent" "set sent \<subseteq> set (webhookRequests R nodeID body cs)"
      "length sent \<le> length cs" "ok' \<longleftrightarrow> (ok \<and> b) \<and> length sent = length cs" "ok' \<longrightarrow> sent = webhookRequests R nodeID body cs"
      "swAttempts v \<le> swAttempts w'" "swAttempts w' \<le> swAttempts v + 3 * length cs" by blast
    have req: "webhookRequests R nodeID body (c # cs) = sinkRequest s body # webhookRequests R nodeID body cs"
      using Some by (simp add: webhookRequests_def map_filter_simps)
    show ?thesis
      by (rule exI [of _ "(if b then [sinkRequest s body] else []) @ sent"]) (use r e req in auto)
  qed
qed

lemma webhookRequests_body: "r \<in> set (webhookRequests R nodeID body cs) \<Longrightarrow> srBody r = body"
  by (auto simp: webhookRequests_def sinkRequest_def Let_def)

text \<open>The request that carries a report to the Panel.\<close>

definition panelRequest :: "agent_config \<Rightarrow> bytes \<Rightarrow> sink_request" where
  "panelRequest cfg body =
     \<lparr>srMethod = ''POST'', srURL = trim_right (plURL (cfPanel cfg)) ''/'' @ ''/api/v1/agents/report'',
      srHeaders = [(''Content-Type'', ''application/json'')], srBody = body\<rparr>"

lemma NewPanelSink_request: "NewPanelSink (plURL (cfPanel cfg)) True = Some s \<Longrightarrow> sinkRequest s body = panelRequest cfg body"
  by (auto simp: NewPanelSink_def sinkRequest_def panelRequest_def split: if_splits)

lemma sendPanelReport_effect:
  assumes "sendPanelReport R cfg body d w = (ok, d', w')"
  shows "swAccepted w' = swAccepted w @ (if ok then [panelRequest cfg body] else []) \<and> swAttempts w \<le> swAttempts w' \<and>
    swAttempts w' \<le> swAttempts w + 3"
proof -
  have "(\<not> ok \<and> w' = w) \<or> (\<exists>s. NewPanelSink (plURL (cfPanel cfg)) True = Some s \<and> sendTimes 3 s body w = (ok, w'))"
    using assms by (auto simp: sendPanelReport_def sendWithRetry_def split: option.split_asm prod.split_asm if_split_asm)
  then show ?thesis using sendTimes_effect [of 3 _ body w ok w'] NewPanelSink_request by auto
qed

text \<open>The exit code of a single run tells what happened: 2 when no report could be built, and then nothing was sent and no file
  changed; 0 exactly when every destination accepted this report once, the Panel first; 1 otherwise, the other destinations having
  been tried all the same. No destination is asked more than three times.\<close>

theorem run_once_exit_code:
  assumes "RunOnce R cfg report marshal d w = (rc, d', w')" and "plURL (cfPanel cfg) \<noteq> []"
  shows "(rc = 2 \<and> (report = None \<or> (\<exists>n rep. report = Some (n, rep) \<and> marshal rep = None)) \<and> d' = d \<and> w' = w) \<or>
    (\<exists>n rep body sent. report = Some (n, rep) \<and> marshal rep = Some body \<and> swAccepted w' = swAccepted w @ sent \<and>
       (\<forall>r\<in>set sent. srBody r = body) \<and> length sent \<le> Suc (length (cfSinks cfg)) \<and>
       rc = (if length sent = Suc (length (cfSinks cfg)) then 0 else 1) \<and>
       (rc = 0 \<longrightarrow> sent = panelRequest cfg body # webhookRequests R n body (cfSinks cfg)) \<and>
       swAttempts w' \<le> swAttempts w + 3 * Suc (length (cfSinks cfg)))"
proof (cases "\<exists>n rep body. report = Some (n, rep) \<and> marshal rep = Some body")
  case False
  then show ?thesis using assms(1) by (auto simp: RunOnce_def split: option.splits)
next
  case True
  then obtain n rep body where r: "report = Some (n, rep)" "marshal rep = Some body" by blast
  obtain ok1 d1 w1 where p: "sendPanelReport R cfg body d w = (ok1, d1, w1)" by (rule prod_cases3)
  obtain ok2 w2 where h: "sendWebhooks R n body (cfSinks cfg) ok1 w1 = (ok2, w2)" by (metis surj_pair)
  note pe = sendPanelReport_effect [OF p]
  obtain sent where s: "swAccepted w2 = swAccepted w1 @ sent" "set sent \<subseteq> set (webhookRequests R n body (cfSinks cfg))"
    "length sent \<le> length (cfSinks cfg)" "ok2 \<longleftrightarrow> ok1 \<and> length sent = length (cfSinks cfg)" "ok2 \<longrightarrow> sent = webhookRequests R n body (cfSinks cfg)"
    "swAttempts w2 \<le> swAttempts w1 + 3 * length (cfSinks cfg)"
    using sendWebhooks_effect [OF h] by blast
  have rc: "rc = (if ok2 then 0 else 1)" "w' = w2" using assms p h r by (auto simp: RunOnce_def)
  let ?sent = "(if ok1 then [panelRequest cfg body] else []) @ sent"
  have "\<forall>q\<in>set ?sent. srBody q = body" using s(2) webhookRequests_body by (auto simp: panelRequest_def)
  moreover have "swAccepted w' = swAccepted w @ ?sent" using pe s(1) rc(2) by simp
  moreover have "length ?sent \<le> Suc (length (cfSinks cfg))" "ok2 \<longleftrightarrow> length ?sent = Suc (length (cfSinks cfg))"
    "swAttempts w' \<le> swAttempts w + 3 * Suc (length (cfSinks cfg))" "rc = 0 \<longrightarrow> ?sent = panelRequest cfg body # webhookRequests R n body (cfSinks cfg)"
    using s(3-6) pe rc by auto
  ultimately show ?thesis using r rc(1) by (intro disjI2 exI [of _ n] exI [of _ rep] exI [of _ body] exI [of _ ?sent]) simp
qed

subsection \<open>Preflight\<close>

lemma readIdentityFile_files: "pdFiles (snd (readIdentityFile n d)) = pdFiles d"
  using pkiCall_files [of d] by (cases "pkiCall d") (simp add: readIdentityFile_def Let_def)

lemma readIdentityFiles_files: "pdFiles (snd (readIdentityFiles ns d)) = pdFiles d"
proof (induction ns arbitrary: d)
  case (Cons n ns)
  obtain r d1 where 1: "readIdentityFile n d = (r, d1)" by (metis surj_pair)
  have f: "pdFiles d1 = pdFiles d" using readIdentityFile_files [of n d] 1 by simp
  obtain q d2 where 2: "readIdentityFiles ns d1 = (q, d2)" by (metis surj_pair)
  have "pdFiles d2 = pdFiles d" using Cons.IH [of d1] 2 f by simp
  then show ?case using 1 2 f by (cases r; cases q) simp_all
qed simp

lemma LoadIdentity_keeps_files: "LoadIdentity E url d = (res, d') \<Longrightarrow> pdFiles d' = pdFiles d"
proof -
  assume l: "LoadIdentity E url d = (res, d')"
  obtain a d1 where 1: "readState E url d = (a, d1)" by (metis surj_pair)
  have f1: "pdFiles d1 = pdFiles d" using 1 readIdentityFile_files [of identityStateFile d]
    by (auto simp: readState_def split: prod.split_asm option.split_asm if_split_asm)
  obtain b d2 where 2: "readAgentKey E d1 = (b, d2)" by (metis surj_pair)
  have f2: "pdFiles d2 = pdFiles d1" using 2 readIdentityFile_files [of agentKeyFile d1]
    by (auto simp: readAgentKey_def split: prod.split_asm option.split_asm)
  obtain c d3 where 3: "readIdentityFiles [agentCertFile, caBundleFile, commandKeyFile, releaseKeyFile] d2 = (c, d3)" by (metis surj_pair)
  have f3: "pdFiles d3 = pdFiles d2" using readIdentityFiles_files [of "[agentCertFile, caBundleFile, commandKeyFile, releaseKeyFile]" d2] 3 by simp
  have "d' = d1 \<or> d' = d2 \<or> d' = d3"
    using l 1 2 3 by (auto simp: LoadIdentity_def split: option.split_asm list.split_asm)
  then show ?thesis using f1 f2 f3 by auto
qed

text \<open>A preflight that succeeds has delivered the report to the Panel and completed the handshake with a client of the very identity that
  is stored afterwards. It is not free of effects: whether it succeeds or not, a certificate close to its end has been replaced, in
  the directory of the configured CA file and nowhere else.\<close>

theorem preflight_proves_report_and_control:
  assumes "Preflight R cfg report marshal probe d w = (err, d', w')"
  shows "(err = None \<longrightarrow> (\<exists>j i c rep body. fst (LoadIdentity (reCrypto R) (plURL (cfPanel cfg)) d) = Some j \<and> iyAgentID i = iyAgentID j \<and>
       report = Some rep \<and> marshal rep = Some body \<and> swAccepted w' = swAccepted w @ [panelRequest cfg body] \<and>
       coIdentity (ctOptions c) = Some i \<and> probe c = ProbeOk \<and>
       (i \<noteq> j \<longrightarrow> map_of (pdFiles d') agentCertFile = Some (iyCertificate i)))) \<and>
    (\<forall>n. n \<noteq> agentCertFile \<longrightarrow> map_of (pdFiles d') n = map_of (pdFiles d) n)"
proof -
  have files: "\<forall>n. n \<noteq> agentCertFile \<longrightarrow> map_of (pdFiles d') n = map_of (pdFiles d) n"
  proof -
    have "d' = d \<or> (\<exists>r. LoadIdentity (reCrypto R) (plURL (cfPanel cfg)) d = (r, d')) \<or>
        (\<exists>j d1 ok i. LoadIdentity (reCrypto R) (plURL (cfPanel cfg)) d = (Some j, d1) \<and>
           RenewIfNeeded (reCrypto R) (reRenew R) (reCSR R) (reNow R) j d1 = (ok, i, d'))"
      using assms by (auto simp: Preflight_def split: if_split_asm option.split_asm prod.split_asm)
    then show ?thesis
    proof (elim disjE exE conjE)
      fix j d1 ok i
      assume l: "LoadIdentity (reCrypto R) (plURL (cfPanel cfg)) d = (Some j, d1)"
        and r: "RenewIfNeeded (reCrypto R) (reRenew R) (reCSR R) (reNow R) j d1 = (ok, i, d')"
      show ?thesis using RenewIfNeeded_outcome [OF r] LoadIdentity_keeps_files [OF l] by simp
    qed (use LoadIdentity_keeps_files in auto)
  qed
  have "\<exists>j i c rep body. fst (LoadIdentity (reCrypto R) (plURL (cfPanel cfg)) d) = Some j \<and> iyAgentID i = iyAgentID j \<and>
       report = Some rep \<and> marshal rep = Some body \<and> swAccepted w' = swAccepted w @ [panelRequest cfg body] \<and>
       coIdentity (ctOptions c) = Some i \<and> probe c = ProbeOk \<and> (i \<noteq> j \<longrightarrow> map_of (pdFiles d') agentCertFile = Some (iyCertificate i))"
    if ok: "err = None"
  proof -
    obtain rep body j d1 i s c where p: "report = Some rep" "marshal rep = Some body"
      "LoadIdentity (reCrypto R) (plURL (cfPanel cfg)) d = (Some j, d1)"
      "RenewIfNeeded (reCrypto R) (reRenew R) (reCSR R) (reNow R) j d1 = (True, i, d')"
      "NewPanelSink (plURL (cfPanel cfg)) True = Some s" "sendTimes 3 s body w = (True, w')"
      "NewControlClient (reCrypto R) (controlOptionsFor R cfg 0 i) (reBootFile R) (reBootRandom R) = Some c" "probe c = ProbeOk"
      using assms ok by (auto simp: Preflight_def sendWithRetry_def split: if_split_asm option.split_asm prod.split_asm)
    have "swAccepted w' = swAccepted w @ [panelRequest cfg body]" using sendTimes_effect [OF p(6)] NewPanelSink_request [OF p(5)] by simp
    then show ?thesis
      using p RenewIfNeeded_keeps [OF p(4)] RenewIfNeeded_outcome [OF p(4)] controlOptions_identity [OF p(7)]
      by (intro exI [of _ j] exI [of _ i] exI [of _ c] exI [of _ rep] exI [of _ body]) simp
  qed
  then show ?thesis using files by blast
qed

subsection \<open>The pinned release key\<close>

lemma runCLI_pinned:
  assumes "runCLI R flags dir decode pinned = ResidentMode cfg" and "pinned \<noteq> []"
  shows "VerifyReleaseKeyPin (reCrypto R) (ceReadFile (reConfig R) (plReleaseKeyFile (cfPanel cfg))) pinned \<and> ValidateAgentConfig (reConfig R) cfg = None"
  using assms by (auto simp: runCLI_def split: option.split_asm if_split_asm)

lemma LoadIdentity_release_key:
  assumes "LoadIdentity E url d = (Some i, d')" and "pdFaults d = []"
  shows "\<exists>body. map_of (pdFiles d) releaseKeyFile = Some body \<and> parseEd25519PublicKey E body = Some (iyReleaseKey i)"
proof -
  have "load_files E url (map_of (pdFiles d)) = Some i" using assms(1) LoadIdentity_files [OF assms(2), of E url] by auto
  then obtain node key ca out where b: "validateAndBuildIdentity E url node key ca out = Some i" "map_of (pdFiles d) releaseKeyFile = Some (imReleaseKey out)"
    by (auto simp: load_files_def split: option.splits if_splits)
  have "parseEd25519PublicKey E (imReleaseKey out) = Some (iyReleaseKey i)"
    using b(1) by (auto simp: validateAndBuildIdentity_def split: option.splits if_splits)
  then show ?thesis using b(2) by blast
qed


subsection \<open>The self check\<close>

lemma validChecks_iff: "validChecks checks seen cs \<longleftrightarrow> distinct cs \<and> set cs \<inter> set seen = {} \<and> set cs \<subseteq> dom checks"
  by (induction cs arbitrary: seen) auto

lemma dom_selfChecks: "dom (selfChecks R w s) = {CheckConfig, CheckCertificate, CheckPanel, CheckDetectors, CheckFilesystem, CheckUpdate}"
  by (auto simp: selfChecks_def check_ids)

text \<open>A self check answers every request for some of the six known checks, each named once, with one result for each of them in the
  order asked, and a result is \<open>ok\<close> exactly when its check passed. A check that does not pass is a result, not a failure of the
  command; the command fails for any other request, or when the answer cannot be encoded in 16 KiB.\<close>

theorem self_check_reports_every_check:
  fixes R :: runtime_env and w :: check_world and marshal :: "check_result list \<Rightarrow> bytes option" and rt :: runtime_state
  assumes "StrictDecodePayload raw = Inr requested"
  defines "out \<equiv> HandleSelfCheck R w marshal raw rt" and "checks \<equiv> selfChecks R w (rtCurrent rt)"
  shows "(\<exists>results. \<not> oFailed out \<and> marshal results = Some (oData out) \<and> length (oData out) \<le> 16 * 1024 \<and> map ckCheck results = requested \<and>
       requested \<noteq> [] \<and> distinct requested \<and>
       (\<forall>r\<in>set results. ckStatus r = (if checks (ckCheck r) = Some CheckPassed then ''ok'' else ''error''))) \<or>
    (oFailed out \<and> (requested = [] \<or> \<not> distinct requested \<or>
       \<not> set requested \<subseteq> {CheckConfig, CheckCertificate, CheckPanel, CheckDetectors, CheckFilesystem, CheckUpdate} \<or>
       (\<forall>body. marshal (map (selfCheckResult checks) requested) = Some body \<longrightarrow> 16 * 1024 < length body)))"
proof -
  have six: "length requested \<le> 6" if "distinct requested" "set requested \<subseteq> {CheckConfig, CheckCertificate, CheckPanel, CheckDetectors, CheckFilesystem, CheckUpdate}"
  proof -
    have "card (set requested) \<le> card {CheckConfig, CheckCertificate, CheckPanel, CheckDetectors, CheckFilesystem, CheckUpdate}"
      by (rule card_mono) (use that in auto)
    also have "\<dots> \<le> 6" by (simp add: card_insert_if)
    finally show ?thesis using distinct_card [OF that(1)] by simp
  qed
  have ne: "checks \<noteq> Map.empty" using dom_selfChecks [of R w "rtCurrent rt"] unfolding checks_def by auto
  have dom: "dom checks = {CheckConfig, CheckCertificate, CheckPanel, CheckDetectors, CheckFilesystem, CheckUpdate}" unfolding checks_def by (rule dom_selfChecks)
  have run: "out = SelfCheckerRun (Some checks) marshal raw" by (simp add: out_def checks_def HandleSelfCheck_def)
  show ?thesis
  proof (cases "requested \<noteq> [] \<and> distinct requested \<and> set requested \<subseteq> dom checks \<and>
      (\<exists>body. marshal (map (selfCheckResult checks) requested) = Some body \<and> length body \<le> 16 * 1024)")
    case True
    then obtain body where body: "marshal (map (selfCheckResult checks) requested) = Some body" "length body \<le> 16 * 1024" by blast
    have "length requested \<le> 6" using True six dom by simp
    then have "out = \<lparr>oCode = ''self_check_completed'', oData = body, oFailed = False, oPending = False, oAfterPersist = False\<rparr>"
      unfolding run using True ne assms(1) body by (simp add: SelfCheckerRun_def validChecks_iff)
    moreover have "map ckCheck (map (selfCheckResult checks) requested) = requested"
      by (rule map_idI [THEN trans [OF map_map]]) (simp add: selfCheckResult_def split: option.split check_outcome.split)
    moreover have "ckStatus (selfCheckResult checks c) = (if checks (ckCheck (selfCheckResult checks c)) = Some CheckPassed then ''ok'' else ''error'')"
      if "c \<in> set requested" for c
    proof -
      have "c \<in> dom checks" using True that by blast
      then obtain k where "checks c = Some k" by blast
      then show ?thesis by (cases k) (simp_all add: selfCheckResult_def)
    qed
    ultimately show ?thesis using True body by (intro disjI1 exI [of _ "map (selfCheckResult checks) requested"]) auto
  next
    case False
    then have "oFailed out" unfolding run using ne assms(1)
      by (auto simp: SelfCheckerRun_def validChecks_iff outcomeOf_def split: option.split)
    then show ?thesis using False dom by (intro disjI2) (auto simp: not_le)
  qed
qed

subsection \<open>Concrete runs\<close>

definition flaky_world :: send_world where
  "flaky_world = \<lparr>swAnswers = [False, True], swAccepted = [], swAttempts = 0\<rparr>"

lemma resident_panel_sink: "\<exists>s. NewPanelSink (plURL (cfPanel resident_config)) True = Some s"
  by (simp add: NewPanelSink_def resident_config_def has_prefix_def to_lower_def lower_char_def)

lemma resident_url_simps: "plURL (cfPanel resident_config) = ''https://p''" "cfSinks resident_config = []"
  by (simp_all add: resident_config_def DefaultAgentConfig_def)

lemma flaky_send: "\<exists>w'. sendWithRetry s body flaky_world = (True, w')"
  by (simp add: sendWithRetry_def numeral_3_eq_3 sendOnce_def flaky_world_def)

theorem run_once_exit_code_witness:
  "\<exists>w'. RunOnce (resident_env 0) resident_config (Some (''n'', ''rep'')) Some resident_dir flaky_world = (0, resident_dir, w') \<and>
     swAccepted w' = [panelRequest resident_config ''rep'']"
proof -
  obtain s where s: "NewPanelSink (plURL (cfPanel resident_config)) True = Some s" using resident_panel_sink by blast
  obtain w' where w: "sendWithRetry s ''rep'' flaky_world = (True, w')" using flaky_send by blast
  have run: "RunOnce (resident_env 0) resident_config (Some (''n'', ''rep'')) Some resident_dir flaky_world = (0, resident_dir, w')"
    using s w resident_loads resident_fresh by (simp add: RunOnce_def sendPanelReport_def resident_url_simps resident_env_simps)
  have ne: "plURL (cfPanel resident_config) \<noteq> []" by (simp add: resident_url_simps)
  from run_once_exit_code [OF run ne] show ?thesis using run
    by (auto simp: resident_url_simps webhookRequests_def map_filter_simps flaky_world_def)
qed

theorem preflight_proves_report_and_control_witness:
  "\<exists>w'. Preflight (resident_env 0) resident_config (Some ''rep'') Some (\<lambda>_. ProbeOk) resident_dir flaky_world = (None, resident_dir, w') \<and>
     swAccepted w' = [panelRequest resident_config ''rep'']"
proof -
  obtain s where s: "NewPanelSink (plURL (cfPanel resident_config)) True = Some s" using resident_panel_sink by blast
  obtain w' where w: "sendWithRetry s ''rep'' flaky_world = (True, w')" using flaky_send by blast
  have boot: "readBootID (reBootFile (resident_env 0)) (reBootRandom (resident_env 0)) \<noteq> None"
    by (simp add: readBootID_def resident_env_def trim_space_def is_space_def)
  have "iyAgentID resident_identity \<noteq> []" using resident_agent uuid_nonempty by (simp add: resident_identity_def sample_identity_of_def)
  moreover have "NodeID (reNode (resident_env 0) 0) resident_config \<noteq> []" by (simp add: NodeID_def resident_config_def)
  moreover have "\<exists>u. icParseURL resident_crypto ''https://p'' = Some u \<and> puScheme u = ''https'' \<and> puHostname u \<noteq> []"
    by (simp add: resident_crypto_def resident_url_def has_prefix_def to_lower_def lower_char_def)
  ultimately obtain c where c: "NewControlClient resident_crypto (controlOptionsFor (resident_env 0) resident_config 0 resident_identity)
      (reBootFile (resident_env 0)) (reBootRandom (resident_env 0)) = Some c"
    using boot by (auto simp: NewControlClient_def controlOptionsFor_def resident_url_simps)
  have "positive (ceDuration resident_cenv (acCollectTimeout (cfAgent resident_config)))"
    by (simp add: positive_def resident_cenv_def resident_config_def DefaultAgentConfig_def)
  then have run: "Preflight (resident_env 0) resident_config (Some ''rep'') Some (\<lambda>_. ProbeOk) resident_dir flaky_world = (None, resident_dir, w')"
    using s w c resident_loads resident_fresh by (simp add: Preflight_def resident_url_simps resident_env_simps)
  from preflight_proves_report_and_control [OF run] run show ?thesis by (auto simp: flaky_world_def)
qed

definition pinned_env :: runtime_env where
  "pinned_env = (resident_env 0)\<lparr>reConfig := resident_cenv\<lparr>ceReadFile := (\<lambda>_. Some ''K'')\<rparr>\<rparr>"

definition resident_flags :: cli_flags where
  "resident_flags = \<lparr>fgConfig = ''c'', fgCheck = False, fgOnce = False, fgPreflight = False, fgVersion = False\<rparr>"

definition pinned_hex :: bytes where "pinned_hex = concat (replicate 32 ''6b'')"


theorem self_check_reports_every_check_witness:
  "\<exists>rt. \<not> oFailed (HandleSelfCheck (resident_env 0) \<lparr>cwPanel = PanelUnreachable, cwDetectors = True, cwFileCalls = []\<rparr> (\<lambda>rs. Some (concat (map ckStatus rs)))
     \<lparr>text_len = 9, text_doc = JsonDoc [CheckCertificate, CheckPanel]\<rparr> rt)"
proof -
  let ?raw = "\<lparr>text_len = 9, text_doc = JsonDoc [CheckCertificate, CheckPanel]\<rparr>" and ?m = "\<lambda>rs. Some (concat (map ckStatus rs))"
    and ?w = "\<lparr>cwPanel = PanelUnreachable, cwDetectors = True, cwFileCalls = []\<rparr>"
  obtain rt where "NewRuntime (resident_env 0) resident_files [] resident_config resident_dir = (Some rt, resident_dir)"
    using resident_starts by blast
  have dec: "StrictDecodePayload ?raw = Inr [CheckCertificate, CheckPanel]" by (simp add: StrictDecodePayload_def MaxMessageBytes_def)
  have len: "length (ckStatus (selfCheckResult checks c)) \<le> 5" for checks c
    by (simp add: selfCheckResult_def split: option.split check_outcome.split)
  have short: "length (concat (map ckStatus (map (selfCheckResult checks) [CheckCertificate, CheckPanel]))) \<le> 16 * 1024" for checks
    using len [of checks CheckCertificate] len [of checks CheckPanel] by simp
  have d: "distinct [CheckCertificate, CheckPanel]" "[CheckCertificate, CheckPanel] \<noteq> []" by (simp_all add: check_ids)
  have "\<not> oFailed (HandleSelfCheck (resident_env 0) ?w ?m ?raw rt)"
    using self_check_reports_every_check [OF dec, of "resident_env 0" ?w ?m rt] d short [of "selfChecks (resident_env 0) ?w (rtCurrent rt)"] by auto
  then show ?thesis by blast
qed

end
