(* ===== verification/WsClient.thy ===== *)
theory WsClient
  imports GoEncoding
begin

text \<open>
  \<open>internal/wsclient/wsclient.go\<close>: the WebSocket client of the Agent. \<open>wsIn\<close> holds the bytes that arrive before the stream
  ends, by the peer, by a failure or because the context was done; then \<open>ctx\<close> says which error the caller sees. A write appends to
  \<open>wsOut\<close>, unless the connection is closed or \<open>wsFaults\<close> lets it fail; the random source hands out the entries of
  \<open>wsRandom\<close>. \<open>wsPongs\<close> holds the tokens of the pings that wait, \<open>wsResolved\<close> those that were answered. Parsing of URLs,
  the HTTP client and SHA-1 are parameters of \<open>Dial\<close>.
\<close>

unbundle bit_operations_syntax

subsection \<open>Connections\<close>

datatype ws_error =
    StreamEnded | ContextDone | BadFlags | BadLength | BadControl | FrameTooLarge | UnfinishedMessage | UnexpectedContinuation
  | BadOpcode | MessageTooLarge | PeerClosed | ControlTooLarge | BadMessageType | NoRandom

record ws_conn =
  wsIn :: bytes
  wsOut :: bytes
  wsClosed :: bool
  wsLimit :: nat
  wsPongs :: "bytes list"
  wsResolved :: "bytes list"
  wsRandom :: "bytes option list"
  wsFaults :: "bool list"

definition MessageText :: nat where "MessageText = 1"
definition MessageBinary :: nat where "MessageBinary = 2"
definition StatusNormalClosure :: nat where "StatusNormalClosure = 1000"
definition websocketGUID :: bytes where "websocketGUID = ''258EAFA5-E914-47DA-95CA-C5AB0DC85B11''"

definition readError :: "bool \<Rightarrow> ws_error" where
  "readError ctx = (if ctx then ContextDone else StreamEnded)"

definition SetReadLimit :: "int \<Rightarrow> ws_conn \<Rightarrow> ws_conn" where
  "SetReadLimit limit c = (if 0 < limit then c\<lparr>wsLimit := nat limit\<rparr> else c)"

definition CloseNow :: "ws_conn \<Rightarrow> ws_conn" where
  "CloseNow c = c\<lparr>wsClosed := True\<rparr>"

definition readFull :: "nat \<Rightarrow> ws_conn \<Rightarrow> bytes option \<times> ws_conn" where
  "readFull n c = (if length (wsIn c) < n then (None, c\<lparr>wsIn := []\<rparr>) else (Some (take n (wsIn c)), c\<lparr>wsIn := drop n (wsIn c)\<rparr>))"

definition drawRandom :: "nat \<Rightarrow> ws_conn \<Rightarrow> bytes option \<times> ws_conn" where
  "drawRandom n c =
     (case wsRandom c of
        Some r # rs \<Rightarrow> (if length r = n then Some r else None, c\<lparr>wsRandom := rs\<rparr>)
      | None # rs \<Rightarrow> (None, c\<lparr>wsRandom := rs\<rparr>)
      | [] \<Rightarrow> (None, c))"

definition sendBytes :: "bytes \<Rightarrow> ws_conn \<Rightarrow> bool \<times> ws_conn" where
  "sendBytes b c =
     (if wsClosed c then (False, c)
      else case wsFaults c of
        True # fs \<Rightarrow> (False, c\<lparr>wsFaults := fs\<rparr>)
      | False # fs \<Rightarrow> (True, c\<lparr>wsFaults := fs, wsOut := wsOut c @ b\<rparr>)
      | [] \<Rightarrow> (True, c\<lparr>wsOut := wsOut c @ b\<rparr>))"

subsection \<open>Frames\<close>

text \<open>The second byte with the mask bit, and the extended length.\<close>

definition lengthHeader :: "nat \<Rightarrow> nat \<Rightarrow> bytes" where
  "lengthHeader maskBit n =
     (if n < 126 then [char_of (maskBit OR n)]
      else if n \<le> 2 ^ 16 - 1 then char_of (maskBit OR 126) # be_bytes 2 n
      else char_of (maskBit OR 127) # be_bytes 8 n)"

fun maskFrom :: "nat \<Rightarrow> bytes \<Rightarrow> bytes \<Rightarrow> bytes" where
  "maskFrom i mk [] = []"
| "maskFrom i mk (p # ps) = char_of ((of_char p :: nat) XOR of_char (mk ! (i AND 3))) # maskFrom (Suc i) mk ps"

definition writeFrame :: "bool \<Rightarrow> nat \<Rightarrow> bytes \<Rightarrow> ws_conn \<Rightarrow> ws_error option \<times> ws_conn" where
  "writeFrame ctx opcode payload c =
     (if 0x8 \<le> opcode \<and> 125 < length payload then (Some ControlTooLarge, c)
      else case drawRandom 4 c of
        (None, c) \<Rightarrow> (Some NoRandom, c)
      | (Some mk, c) \<Rightarrow>
          let (ok, c) = sendBytes (char_of (0x80 OR opcode) # lengthHeader 0x80 (length payload) @ mk @ maskFrom 0 mk payload) c
          in if ok then (None, c) else (Some (readError ctx), c))"

text \<open>The length after the header, which may be followed by two or eight bytes.\<close>

definition readLength :: "bool \<Rightarrow> nat \<Rightarrow> ws_conn \<Rightarrow> (ws_error + nat) \<times> ws_conn" where
  "readLength ctx n c =
     (if n = 126 then
        (case readFull 2 c of (None, c) \<Rightarrow> (Inl (readError ctx), c) | (Some e, c) \<Rightarrow> (Inr (be_value e), c))
      else if n = 127 then
        (case readFull 8 c of
           (None, c) \<Rightarrow> (Inl (readError ctx), c)
         | (Some e, c) \<Rightarrow> if be_value e div 2 ^ 63 \<noteq> 0 then (Inl BadLength, c) else (Inr (be_value e), c))
      else (Inr n, c))"

definition readFrame :: "bool \<Rightarrow> ws_conn \<Rightarrow> (ws_error + bool \<times> nat \<times> bytes) \<times> ws_conn" where
  "readFrame ctx c =
     (case readFull 2 c of
        (None, c) \<Rightarrow> (Inl (readError ctx), c)
      | (Some header, c) \<Rightarrow>
          let h0 = (of_char (header ! 0) :: nat); h1 = (of_char (header ! 1) :: nat) in
          if h0 AND 0x70 \<noteq> 0 \<or> h1 AND 0x80 \<noteq> 0 then (Inl BadFlags, c)
          else
            let fin = (h0 AND 0x80 \<noteq> 0); opcode = h0 AND 0x0F in
            (case readLength ctx (h1 AND 0x7F) c of
               (Inl e, c) \<Rightarrow> (Inl e, c)
             | (Inr n, c) \<Rightarrow>
                 if 0x8 \<le> opcode \<and> (\<not> fin \<or> 125 < n) then (Inl BadControl, c)
                 else if wsLimit c < n then (Inl FrameTooLarge, c)
                 else (case readFull n c of
                   (None, c) \<Rightarrow> (Inl (readError ctx), c)
                 | (Some payload, c) \<Rightarrow> (Inr (fin, opcode, payload), c))))"

definition resolvePong :: "bytes \<Rightarrow> ws_conn \<Rightarrow> ws_conn" where
  "resolvePong token c =
     (if token \<in> set (wsPongs c) then c\<lparr>wsPongs := filter (\<lambda>t. t \<noteq> token) (wsPongs c), wsResolved := token # wsResolved c\<rparr> else c)"

lemma readFull_Some:
  "readFull n c = (Some b, c') \<Longrightarrow> length (wsIn c') + n = length (wsIn c) \<and> length b = n"
  by (auto simp: readFull_def split: if_splits)

lemma readFull_le: "readFull n c = (x, c') \<Longrightarrow> length (wsIn c') \<le> length (wsIn c)"
  by (auto simp: readFull_def split: if_splits)

lemma readLength_le: "readLength ctx n c = (x, c') \<Longrightarrow> length (wsIn c') \<le> length (wsIn c)"
  by (auto simp: readLength_def split: if_splits prod.splits option.splits dest!: readFull_le)

lemma writeFrame_in [simp]: "writeFrame ctx op p c = (e, c') \<Longrightarrow> wsIn c' = wsIn c \<and> wsLimit c' = wsLimit c"
  by (auto simp: writeFrame_def drawRandom_def sendBytes_def Let_def split: if_splits option.splits list.splits prod.splits bool.splits)

lemma readFrame_less: "readFrame ctx c = (Inr f, c') \<Longrightarrow> length (wsIn c') < length (wsIn c)"
  by (auto simp: readFrame_def Let_def split: if_splits prod.splits option.splits sum.splits dest!: readFull_Some readLength_le)

subsection \<open>Messages\<close>

text \<open>The loop of \<open>Read\<close>: \<open>t\<close> is the type of the message that is being assembled, 0 when there is none.\<close>

function readMessage :: "bool \<Rightarrow> nat \<Rightarrow> bytes \<Rightarrow> ws_conn \<Rightarrow> (ws_error + nat \<times> bytes) \<times> ws_conn" where
  "readMessage ctx t message c =
     (case readFrame ctx c of
        (Inl e, c) \<Rightarrow> (Inl e, c)
      | (Inr (fin, opcode, payload), c) \<Rightarrow>
          if opcode = 0x8 then (Inl PeerClosed, CloseNow (snd (writeFrame False 0x8 payload c)))
          else if opcode = 0x9 then
            (case writeFrame ctx 0xA payload c of (Some e, c) \<Rightarrow> (Inl e, c) | (None, c) \<Rightarrow> readMessage ctx t message c)
          else if opcode = 0xA then readMessage ctx t message (resolvePong payload c)
          else if opcode \<in> {0x1, 0x2} \<and> t \<noteq> 0 then (Inl UnfinishedMessage, c)
          else if opcode = 0x0 \<and> t = 0 then (Inl UnexpectedContinuation, c)
          else if opcode \<notin> {0x0, 0x1, 0x2} then (Inl BadOpcode, c)
          else if wsLimit c < length message + length payload then (Inl MessageTooLarge, c)
          else
            let t = (if opcode = 0x0 then t else opcode) in
            if fin then (Inr (t, message @ payload), c) else readMessage ctx t (message @ payload) c)"
  by pat_completeness auto

termination
proof (relation "measure (\<lambda>(ctx, t, message, c). length (wsIn c))", goal_cases)
  case (2 ctx t message c x c' b fin y opcode payload r c'')
  then show ?case by (auto dest!: readFrame_less [OF sym] writeFrame_in [OF sym])
next
  case 3
  then show ?case by (auto simp: resolvePong_def dest!: readFrame_less [OF sym])
next
  case 4
  then show ?case by (auto dest!: readFrame_less [OF sym])
qed simp

declare readMessage.simps [simp del]

definition Read :: "bool \<Rightarrow> ws_conn \<Rightarrow> (ws_error + nat \<times> bytes) \<times> ws_conn" where
  "Read ctx c = readMessage ctx 0 [] c"

definition Write :: "bool \<Rightarrow> nat \<Rightarrow> bytes \<Rightarrow> ws_conn \<Rightarrow> ws_error option \<times> ws_conn" where
  "Write ctx messageType payload c =
     (if messageType \<noteq> MessageText \<and> messageType \<noteq> MessageBinary then (Some BadMessageType, c) else writeFrame ctx messageType payload c)"

definition Close :: "nat \<Rightarrow> bytes \<Rightarrow> ws_conn \<Rightarrow> ws_error option \<times> ws_conn" where
  "Close status reason c = (let (e, c) = writeFrame False 0x8 (be_bytes 2 status @ reason) c in (e, CloseNow c))"

text \<open>\<open>Ping\<close> up to the point where it waits, and its end: the waiting caller sees its token resolved or its context done. The
  deferred function removes the token either way.\<close>

definition pingSend :: "bool \<Rightarrow> ws_conn \<Rightarrow> (ws_error + bytes) \<times> ws_conn" where
  "pingSend ctx c =
     (case drawRandom 8 c of
        (None, c) \<Rightarrow> (Inl NoRandom, c)
      | (Some token, c) \<Rightarrow>
          (case writeFrame ctx 0x9 token (c\<lparr>wsPongs := token # wsPongs c\<rparr>) of
             (Some e, c) \<Rightarrow> (Inl e, c\<lparr>wsPongs := filter (\<lambda>t. t \<noteq> token) (wsPongs c)\<rparr>)
           | (None, c) \<Rightarrow> (Inr token, c)))"

definition pingWait :: "bytes \<Rightarrow> ws_conn \<Rightarrow> ws_error option \<times> ws_conn" where
  "pingWait token c =
     (if token \<in> set (wsResolved c) then (None, c\<lparr>wsPongs := filter (\<lambda>t. t \<noteq> token) (wsPongs c)\<rparr>)
      else (Some ContextDone, CloseNow (c\<lparr>wsPongs := filter (\<lambda>t. t \<noteq> token) (wsPongs c)\<rparr>)))"

subsection \<open>The upgrade\<close>

text \<open>\<open>wrHeaders\<close> are the values of a header; \<open>wrStream\<close> is what arrives on the connection, \<open>None\<close> when the body is not
  writable. \<open>weParse\<close> splits a URL into its scheme and the rest.\<close>

record ws_reply =
  wrStatus :: nat
  wrHeaders :: "bytes \<Rightarrow> bytes list"
  wrStream :: "bytes option"

record ws_env =
  weParse :: "bytes \<Rightarrow> (bytes \<times> bytes) option"
  weRequest :: "bytes \<Rightarrow> bytes \<Rightarrow> bool"
  weDo :: "bytes \<Rightarrow> bytes \<Rightarrow> (bytes \<times> bytes) list \<Rightarrow> ws_reply option"
  weSha1 :: "bytes \<Rightarrow> bytes"

datatype dial_error = DialAddress | DialScheme | DialKey | DialRequest | DialFailed | DialStatus nat | DialUpgrade | DialNotWritable

definition headerHasToken :: "(bytes \<Rightarrow> bytes list) \<Rightarrow> bytes \<Rightarrow> bytes \<Rightarrow> bool" where
  "headerHasToken header name token \<longleftrightarrow>
     list_ex (\<lambda>value. list_ex (\<lambda>part. equal_fold (trim_space part) token) (split_char (CHR '','') value)) (header name)"

definition header_get :: "(bytes \<Rightarrow> bytes list) \<Rightarrow> bytes \<Rightarrow> bytes" where
  "header_get header name = (case header name of [] \<Rightarrow> [] | v # _ \<Rightarrow> v)"

definition Dial :: "ws_env \<Rightarrow> bytes option \<Rightarrow> bytes option list \<Rightarrow> bytes \<Rightarrow> dial_error + ws_conn" where
  "Dial E keyBytes random address =
     (case weParse E address of
        None \<Rightarrow> Inl DialAddress
      | Some (scheme, rest) \<Rightarrow>
          if scheme \<noteq> ''wss'' \<and> scheme \<noteq> ''ws'' then Inl DialScheme
          else
            let scheme = (if scheme = ''wss'' then ''https'' else ''http'') in
            (case keyBytes of
               None \<Rightarrow> Inl DialKey
             | Some raw \<Rightarrow>
                 let key = b64_encode raw in
                 if \<not> weRequest E scheme rest then Inl DialRequest
                 else (case weDo E scheme rest [(''Connection'', ''Upgrade''), (''Upgrade'', ''websocket''),
                                                (''Sec-WebSocket-Version'', ''13''), (''Sec-WebSocket-Key'', key)] of
                   None \<Rightarrow> Inl DialFailed
                 | Some r \<Rightarrow>
                     if wrStatus r \<noteq> 101 then Inl (DialStatus (wrStatus r))
                     else if \<not> headerHasToken (wrHeaders r) ''Connection'' ''upgrade'' \<or> \<not> headerHasToken (wrHeaders r) ''Upgrade'' ''websocket'' \<or>
                             header_get (wrHeaders r) ''Sec-WebSocket-Accept'' \<noteq> b64_encode (weSha1 E (key @ websocketGUID)) \<or>
                             header_get (wrHeaders r) ''Sec-WebSocket-Extensions'' \<noteq> []
                     then Inl DialUpgrade
                     else (case wrStream r of
                       None \<Rightarrow> Inl DialNotWritable
                     | Some input \<Rightarrow> Inr \<lparr>wsIn = input, wsOut = [], wsClosed = False, wsLimit = 2 ^ 20, wsPongs = [], wsResolved = [],
                                         wsRandom = random, wsFaults = []\<rparr>))))"

subsection \<open>Bits of a header\<close>

lemma first_byte:
  assumes "op < (16::nat)"
  shows "(if fin then 0x80 else 0) OR op < 256" "((if fin then 0x80 else 0) OR op) AND 0x70 = 0"
    "((if fin then 0x80 else 0) OR op) AND 0x80 \<noteq> 0 \<longleftrightarrow> fin" "((if fin then 0x80 else 0) OR op) AND 0x0F = op"
proof -
  have "op \<in> set [0..<16]" using assms by simp
  moreover have "[0..<16] = [0, 1, 2, 3, 4, 5, 6, 7, 8, 9, 10, 11, 12, 13, 14, 15::nat]" by (simp add: upt_rec)
  ultimately have "op \<in> set [0, 1, 2, 3, 4, 5, 6, 7, 8, 9, 10, 11, 12, 13, 14, 15]" by (simp only:)
  then show "(if fin then 0x80 else 0) OR op < 256" "((if fin then 0x80 else 0) OR op) AND 0x70 = 0"
    "((if fin then 0x80 else 0) OR op) AND 0x80 \<noteq> 0 \<longleftrightarrow> fin" "((if fin then 0x80 else 0) OR op) AND 0x0F = op"
    by (auto simp del: One_nat_def)
qed

lemma and_7F: "(x :: nat) AND 0x7F = x mod 128"
  using take_bit_eq_mask [of 7 x] by (simp add: take_bit_eq_mod mask_eq_exp_minus_1)

lemma and_3: "(x :: nat) AND 3 = x mod 4"
  using take_bit_eq_mask [of 2 x] by (simp add: take_bit_eq_mod mask_eq_exp_minus_1)

lemma or_mask_bit:
  assumes "n < (128::nat)"
  shows "0x80 OR n = 128 + n"
proof -
  have "\<not> bit n 7" using assms by (simp add: bit_iff_odd)
  then have "128 AND n = 0" using and_exp_eq_0_iff_not_bit [of n 7] by (simp add: and.commute)
  then show ?thesis using disjunctive_add_eq_or [of 128 n] by simp
qed

lemma and_exp: "(x :: nat) AND 2 ^ k = (if bit x k then 2 ^ k else 0)"
  by (rule bit_eqI) (auto simp: bit_simps)

lemma second_byte:
  assumes "n < (128::nat)" "m \<in> {0, 0x80}"
  shows "m OR n < 256" "(m OR n) AND 0x7F = n" "(m OR n) AND 0x80 = m"
proof -
  have eq: "m OR n = m + n" using assms or_mask_bit [OF assms(1)] by auto
  show "m OR n < 256" using assms eq by auto
  show "(m OR n) AND 0x7F = n" using assms by (auto simp: eq and_7F)
  have "(128 + n) div 128 = 1" using assms by simp
  then have b: "bit (m + n) 7 \<longleftrightarrow> m = 0x80" using assms by (auto simp: bit_iff_odd)
  show "(m OR n) AND 0x80 = m" using b assms and_exp [of "m + n" 7] by (auto simp: eq)
qed

lemma xor_char_twice:
  "char_of ((of_char (char_of ((of_char p :: nat) XOR of_char m) :: char) :: nat) XOR of_char m) = (p :: char)"
proof -
  have "take_bit 8 ((of_char p :: nat) XOR of_char m) = (of_char p :: nat) XOR of_char m"
    by (simp add: take_bit_xor take_bit_nat_eq_self)
  then have "(of_char (char_of ((of_char p :: nat) XOR of_char m) :: char) :: nat) = of_char p XOR of_char m"
    by (simp add: take_bit_eq_mod)
  then show ?thesis by (simp add: xor.assoc)
qed

lemma length_maskFrom [simp]: "length (maskFrom i mk p) = length p"
  by (induction i mk p rule: maskFrom.induct) simp_all

lemma maskFrom_twice [simp]: "maskFrom i mk (maskFrom i mk p) = p"
  by (induction i mk p rule: maskFrom.induct) (simp_all only: maskFrom.simps xor_char_twice)

subsection \<open>Frames of the peer\<close>

text \<open>What an RFC 6455 server sends, and how it reads a masked frame of the client.\<close>

definition serverFrame :: "bool \<Rightarrow> nat \<Rightarrow> bytes \<Rightarrow> bytes" where
  "serverFrame fin opcode payload = char_of ((if fin then 0x80 else 0) OR opcode) # lengthHeader 0 (length payload) @ payload"

definition parseClientFrame :: "bytes \<Rightarrow> (bool \<times> nat \<times> bytes \<times> bytes) option" where
  "parseClientFrame s =
     (case s of
        h0 # h1 # s \<Rightarrow>
          let n = (of_char h1 :: nat) AND 0x7F; ext = (if n = 126 then 2 else if n = 127 then 8 else 0);
              len = (if ext = 0 then n else be_value (take ext s)); body = drop (ext + 4) s in
          if (of_char h1 :: nat) AND 0x80 = 0 \<or> (of_char h0 :: nat) AND 0x70 \<noteq> 0 \<or> length s < ext + 4 + len then None
          else Some ((of_char h0 :: nat) AND 0x80 \<noteq> 0, (of_char h0 :: nat) AND 0x0F,
                     maskFrom 0 (take 4 (drop ext s)) (take len body), drop len body)
      | _ \<Rightarrow> None)"

lemma of_char_char_of [simp]: "n < 256 \<Longrightarrow> (of_char (char_of n :: char) :: nat) = n"
  by simp

lemma lengthHeader_cases:
  assumes "n < 2 ^ 63"
  obtains (small) "n < 126" "lengthHeader m n = [char_of (m OR n)]"
    | (medium) "126 \<le> n" "n < 2 ^ 16" "lengthHeader m n = char_of (m OR 126) # be_bytes 2 n"
    | (large) "2 ^ 16 \<le> n" "n < 2 ^ 63" "lengthHeader m n = char_of (m OR 127) # be_bytes 8 n"
  using assms by (cases "n < 126"; cases "n < 2 ^ 16") (auto simp: lengthHeader_def)

lemma take_append_eq: "length xs = n \<Longrightarrow> take n (xs @ ys) = xs" "length xs = n \<Longrightarrow> drop n (xs @ ys) = ys"
  by auto

lemma parse_masked:
  assumes "op < 16" "length p < 2 ^ 63" "length mk = 4"
  shows "parseClientFrame (char_of (0x80 OR op) # lengthHeader 0x80 (length p) @ mk @ maskFrom 0 mk p @ rest) = Some (True, op, p, rest)"
proof -
  note fb = first_byte [OF assms(1), of True, unfolded if_True]
  from assms(2) show ?thesis
  proof (cases rule: lengthHeader_cases [of "length p" "0x80"])
    case small
    note sb = second_byte [of "length p" "0x80"]
    show ?thesis using small sb fb assms(3) by (simp add: parseClientFrame_def Let_def)
  next
    case medium
    have "be_value (be_bytes 2 (length p)) = length p" using medium by (intro be_value_bytes) simp
    then show ?thesis using medium fb assms(3) second_byte [of 126 "0x80"]
      by (simp add: parseClientFrame_def Let_def take_append_eq del: be_value.simps)
  next
    case large
    have "be_value (be_bytes 8 (length p)) = length p" using large by (intro be_value_bytes) simp
    then show ?thesis using large fb assms(3) second_byte [of 127 "0x80"]
      by (simp add: parseClientFrame_def Let_def take_append_eq del: be_value.simps)
  qed
qed

lemma readFull_prefix: "wsIn c = b @ rest \<Longrightarrow> length b = n \<Longrightarrow> readFull n c = (Some b, c\<lparr>wsIn := rest\<rparr>)"
  by (simp add: readFull_def)

lemma readFrame_serverFrame:
  assumes "op < 16" "length p < 2 ^ 63" "wsIn c = serverFrame fin op p @ rest" "length p \<le> wsLimit c"
    "0x8 \<le> op \<Longrightarrow> fin \<and> length p \<le> 125"
  shows "readFrame ctx c = (Inr (fin, op, p), c\<lparr>wsIn := rest\<rparr>)"
proof -
  let ?h0 = "(if fin then 0x80 else 0) OR op"
  note fb = first_byte [OF assms(1), of fin]
  have ctl: "\<not> (0x8 \<le> op \<and> (\<not> fin \<or> 125 < length p))" using assms(5) by auto
  have lim: "\<not> wsLimit c < length p" using assms(4) by simp
  from assms(2) show ?thesis
  proof (cases rule: lengthHeader_cases [of "length p" 0])
    case small
    have "readFull 2 c = (Some [char_of ?h0, char_of (0 OR length p :: nat)], c\<lparr>wsIn := p @ rest\<rparr>)"
      using small assms(3) by (intro readFull_prefix) (simp_all add: serverFrame_def)
    then show ?thesis using small fb second_byte [of "length p" 0] ctl lim
      by (simp add: readFrame_def readLength_def Let_def readFull_prefix)
  next
    case medium
    have "be_value (be_bytes 2 (length p)) = length p" using medium by (intro be_value_bytes) simp
    moreover have "readFull 2 c = (Some [char_of ?h0, char_of (0 OR 126 :: nat)], c\<lparr>wsIn := be_bytes 2 (length p) @ p @ rest\<rparr>)"
      using medium assms(3) by (intro readFull_prefix) (simp_all add: serverFrame_def)
    ultimately show ?thesis using medium fb second_byte [of 126 0] ctl lim
      by (simp add: readFrame_def readLength_def Let_def readFull_prefix [of _ "be_bytes 2 (length p)"] readFull_prefix [of _ p] del: be_value.simps)
  next
    case large
    have "be_value (be_bytes 8 (length p)) = length p" using large by (intro be_value_bytes) simp
    moreover have "readFull 2 c = (Some [char_of ?h0, char_of (0 OR 127 :: nat)], c\<lparr>wsIn := be_bytes 8 (length p) @ p @ rest\<rparr>)"
      using large assms(3) by (intro readFull_prefix) (simp_all add: serverFrame_def)
    ultimately show ?thesis using large fb second_byte [of 127 0] ctl lim
      by (simp add: readFrame_def readLength_def Let_def readFull_prefix [of _ "be_bytes 8 (length p)"] readFull_prefix [of _ p] del: be_value.simps)
  qed
qed

lemma readFrame_limit: "readFrame ctx c = (r, c') \<Longrightarrow> wsLimit c' = wsLimit c"
  by (auto simp: readFrame_def readLength_def readFull_def Let_def split: if_splits prod.splits option.splits sum.splits)

lemma guards_pass:
  "(if a then (Inl x1, s1) else if b then (Inl x2, s2) else if d then (Inl x3, s3) else if e then (Inl x4, s4)
    else if f then (Inl x5, s5) else rest) = (Inr m, s) \<Longrightarrow> \<not> (a \<or> b \<or> d \<or> e \<or> f) \<and> rest = (Inr m, s)"
  by (auto split: if_splits)

lemma readMessage_bounded:
  "readMessage ctx t message c = (Inr (t', m), c') \<Longrightarrow> t \<in> {0, 1, 2} \<Longrightarrow> length m \<le> wsLimit c \<and> t' \<in> {1, 2} \<and> wsLimit c' = wsLimit c"
proof (induction ctx t message c rule: readMessage.induct)
  case (1 ctx t message c)
  obtain r c1 where r: "readFrame ctx c = (r, c1)" by (cases "readFrame ctx c") auto
  show ?case
  proof (cases r)
    case (Inl e)
    then show ?thesis using "1.prems" r by (simp add: readMessage.simps)
  next
    case (Inr f)
    obtain fin opcode payload where f: "f = (fin, opcode, payload)" by (rule prod_cases3)
    have lim: "wsLimit c1 = wsLimit c" using r by (rule readFrame_limit)
    note rr = r [unfolded Inr f]
    note step = readMessage.simps [of ctx t message c, unfolded rr prod.case sum.case]
    note res = "1.prems"(1) [unfolded step]
    show ?thesis
    proof (cases "opcode = 0x9")
      case True
      obtain e c2 where w: "writeFrame ctx 0xA payload c1 = (e, c2)" by (cases "writeFrame ctx 0xA payload c1") auto
      show ?thesis
      proof (cases e)
        case None
        then show ?thesis
          using "1.IH" (1) [OF rr [symmetric] refl refl refl] res "1.prems"(2) w True lim writeFrame_in [OF w] by simp
      next
        case (Some x)
        then show ?thesis using res w True by simp
      qed
    next
      case no9: False
      show ?thesis
      proof (cases "opcode = 0xA")
        case True
        then show ?thesis
          using "1.IH" (2) [OF rr [symmetric] refl refl refl] res "1.prems"(2) True lim
          by (simp add: resolvePong_def split: if_splits)
      next
        case no10: False
        let ?bad = "opcode = 0x8 \<or> opcode \<in> {0x1, 0x2} \<and> t \<noteq> 0 \<or> opcode = 0x0 \<and> t = 0 \<or> opcode \<notin> {0x0, 0x1, 0x2} \<or>
          wsLimit c1 < length message + length payload"
        have res10: "(if opcode = 0x8 then (Inl PeerClosed, CloseNow (snd (writeFrame False 0x8 payload c1)))
            else if opcode \<in> {0x1, 0x2} \<and> t \<noteq> 0 then (Inl UnfinishedMessage, c1)
            else if opcode = 0x0 \<and> t = 0 then (Inl UnexpectedContinuation, c1)
            else if opcode \<notin> {0x0, 0x1, 0x2} then (Inl BadOpcode, c1)
            else if wsLimit c1 < length message + length payload then (Inl MessageTooLarge, c1)
            else if fin then (Inr (if opcode = 0x0 then t else opcode, message @ payload), c1)
            else readMessage ctx (if opcode = 0x0 then t else opcode) (message @ payload) c1) = (Inr (t', m), c')"
          using res by (simp only: no9 no10 if_False Let_def)
        have ok: "\<not> ?bad"
          by (rule guards_pass [OF res10, THEN conjunct1])
        note last = guards_pass [OF res10, THEN conjunct2]
        have t: "(if opcode = 0x0 then t else opcode) \<in> {1, 2}"
        proof (cases "opcode = 0x0")
          case True
          then have "t \<noteq> 0" using ok by simp
          then show ?thesis using True "1.prems"(2) by simp
        next
          case False
          then have "opcode \<in> {0x1, 0x2}" using ok by simp
          then show ?thesis using False by simp
        qed
        show ?thesis
        proof (cases fin)
          case True
          then have e: "m = message @ payload" "t' = (if opcode = 0x0 then t else opcode)" "c' = c1" using last by simp_all
          have "length m \<le> wsLimit c1" using ok e(1) by simp
          then show ?thesis using t lim e by simp
        next
          case False
          then have "readMessage ctx (if opcode = 0x0 then t else opcode) (message @ payload) c1 = (Inr (t', m), c')"
            using last by simp
          then show ?thesis
            using "1.IH" (3) [OF rr [symmetric] refl refl refl _ no9 no10 _ _ _ _ refl] ok t False lim by simp
        qed
      qed
    qed
  qed
qed

subsection \<open>Reading what a server sends\<close>

text \<open>A message as the server sends it: fragments, and control frames between them. Only the last frame of the message is final.\<close>

datatype peer_frame = Fragment bytes | PingFrame bytes | PongFrame bytes

fun encodeFrames :: "nat \<Rightarrow> peer_frame list \<Rightarrow> bytes" where
  "encodeFrames op [] = []"
| "encodeFrames op (Fragment p # s) = serverFrame (s = []) op p @ encodeFrames 0 s"
| "encodeFrames op (PingFrame p # s) = serverFrame True 9 p @ encodeFrames op s"
| "encodeFrames op (PongFrame p # s) = serverFrame True 10 p @ encodeFrames op s"

fun fragments :: "peer_frame list \<Rightarrow> bytes" where
  "fragments [] = []"
| "fragments (Fragment p # s) = p @ fragments s"
| "fragments (_ # s) = fragments s"

fun pings :: "peer_frame list \<Rightarrow> bytes list" where
  "pings [] = []"
| "pings (PingFrame p # s) = p # pings s"
| "pings (_ # s) = pings s"

fun control_ok :: "peer_frame \<Rightarrow> bool" where
  "control_ok (Fragment p) = True"
| "control_ok (PingFrame p) = (length p \<le> 125)"
| "control_ok (PongFrame p) = (length p \<le> 125)"

definition is_frame :: "bytes \<Rightarrow> nat \<Rightarrow> bytes \<Rightarrow> bool" where
  "is_frame f op p \<longleftrightarrow> (\<forall>rest. parseClientFrame (f @ rest) = Some (True, op, p, rest))"

lemma sendBytes_True: "sendBytes b c = (True, c') \<Longrightarrow> wsOut c' = wsOut c @ b"
  by (auto simp: sendBytes_def split: if_splits list.splits bool.splits)

lemma writeFrame_is_frame:
  assumes "writeFrame ctx op p c = (None, c')" "op < 16" "length p < 2 ^ 63"
  obtains f where "wsOut c' = wsOut c @ f" "is_frame f op p"
proof -
  obtain x c1 where d: "drawRandom 4 c = (x, c1)" by (cases "drawRandom 4 c")
  then obtain mk where m: "drawRandom 4 c = (Some mk, c1)"
    using assms(1) unfolding writeFrame_def d prod.case by (cases x) (simp_all split: if_splits)
  have len: "length mk = 4" and out: "wsOut c1 = wsOut c"
    using m by (auto simp: drawRandom_def split: list.splits option.splits if_splits)
  let ?f = "char_of (0x80 OR op) # lengthHeader 0x80 (length p) @ mk @ maskFrom 0 mk p"
  obtain ok c2 where b: "sendBytes ?f c1 = (ok, c2)" by (cases "sendBytes ?f c1")
  then have "sendBytes ?f c1 = (True, c')"
    using assms(1) unfolding writeFrame_def m Let_def prod.case option.case b by (simp split: if_splits)
  then have "wsOut c' = wsOut c @ ?f" using out by (simp only: sendBytes_True)
  moreover have "is_frame ?f op p" using parse_masked [OF assms(2,3) len] by (simp add: is_frame_def)
  ultimately show ?thesis by (rule that)
qed

text \<open>A connection that can answer \<open>n\<close> pings.\<close>

definition can_write :: "nat \<Rightarrow> ws_conn \<Rightarrow> bool" where
  "can_write n c \<longleftrightarrow> \<not> wsClosed c \<and> wsFaults c = [] \<and> n \<le> length (wsRandom c) \<and>
     (\<forall>x\<in>set (wsRandom c). \<exists>r. x = Some r \<and> length r = 4)"

lemma writeFrame_ok:
  assumes "can_write (Suc n) c" "length p \<le> 125"
  obtains c' where "writeFrame ctx op p c = (None, c')" "can_write n c'" "wsPongs c' = wsPongs c" "wsResolved c' = wsResolved c"
proof -
  obtain x xs where "wsRandom c = x # xs" using assms(1) by (cases "wsRandom c") (auto simp: can_write_def)
  moreover obtain r where "x = Some r" "length r = 4" using assms(1) calculation by (auto simp: can_write_def)
  ultimately show ?thesis using assms
    by (intro that [of "snd (writeFrame ctx op p c)"]) (auto simp: writeFrame_def drawRandom_def sendBytes_def can_write_def Let_def)
qed

lemma readMessage_fragment:
  assumes "readFrame ctx c = (Inr (fin, op, q), c1)" "op \<in> {0, 1, 2}" "op = 0 \<longleftrightarrow> t \<noteq> 0" "length acc + length q \<le> wsLimit c1"
  shows "readMessage ctx t acc c =
    (if fin then (Inr (if op = 0 then t else op, acc @ q), c1) else readMessage ctx (if op = 0 then t else op) (acc @ q) c1)"
proof -
  have "op = 0 \<or> op = 1 \<or> op = 2" using assms(2) by simp
  then show ?thesis using assms(3,4)
    by (elim disjE; subst readMessage.simps) (simp_all add: assms(1) not_less [symmetric])
qed

lemma readMessage_script:
  assumes "wsIn c = encodeFrames op (s @ [Fragment p]) @ rest"
    and "t = 0 \<and> op \<in> {1, 2} \<or> t \<in> {1, 2} \<and> op = 0" and "ty = (if op = 0 then t else op)"
    and "length acc + length (fragments s) + length p \<le> wsLimit c" "wsLimit c < 2 ^ 63" "125 \<le> wsLimit c"
    and "list_all control_ok s" "can_write (length (pings s)) c"
  shows "\<exists>c' fs. readMessage ctx t acc c = (Inr (ty, acc @ fragments s @ p), c') \<and> wsIn c' = rest \<and>
    wsOut c' = wsOut c @ concat fs \<and> list_all2 (\<lambda>f q. is_frame f 10 q) fs (pings s)"
  using assms
proof (induction s arbitrary: t op acc c)
  case Nil
  have op: "op \<in> {0, 1, 2}" "op = 0 \<longleftrightarrow> t \<noteq> 0" using Nil.prems(2) by auto
  then have "op < 16" "\<not> 8 \<le> op" by auto
  moreover have "length p < 2 ^ 63" "length p \<le> wsLimit c" using Nil.prems(4,5) by simp_all
  ultimately have "readFrame ctx c = (Inr (True, op, p), c\<lparr>wsIn := rest\<rparr>)"
    using Nil.prems(1) by (intro readFrame_serverFrame) simp_all
  from readMessage_fragment [OF this op, of acc] have "readMessage ctx t acc c = (Inr (ty, acc @ p), c\<lparr>wsIn := rest\<rparr>)"
    using Nil.prems(3,4) by simp
  then show ?case using Nil by (intro exI [of _ "c\<lparr>wsIn := rest\<rparr>"] exI [of _ "[]"]) simp
next
  case (Cons fr s)
  have op: "op \<in> {0, 1, 2}" "op = 0 \<longleftrightarrow> t \<noteq> 0" using Cons.prems(2) by auto
  then have op16: "op < 16" "\<not> 8 \<le> op" by auto
  have ty: "ty \<in> {1, 2}" "ty \<noteq> 0" using Cons.prems(2,3) by auto
  show ?case
  proof (cases fr)
    case (Fragment q)
    let ?c = "c\<lparr>wsIn := encodeFrames 0 (s @ [Fragment p]) @ rest\<rparr>"
    have q: "length q \<le> wsLimit c" using Cons.prems(4) Fragment by simp
    moreover have "wsIn c = serverFrame False op q @ encodeFrames 0 (s @ [Fragment p]) @ rest"
      using Cons.prems(1) unfolding Fragment by simp
    ultimately have "readFrame ctx c = (Inr (False, op, q), ?c)"
      using op16(2) by (intro readFrame_serverFrame [OF op16(1) le_less_trans [OF q Cons.prems(5)]]) blast+
    moreover have "length acc + length q \<le> wsLimit ?c" using Cons.prems(4) Fragment by simp
    ultimately have "readMessage ctx t acc c = readMessage ctx ty (acc @ q) ?c"
      using readMessage_fragment [of ctx c False op q ?c t acc] op Cons.prems(3) by (simp only: if_False)
    moreover have "\<exists>c' fs. readMessage ctx ty (acc @ q) ?c = (Inr (ty, (acc @ q) @ fragments s @ p), c') \<and> wsIn c' = rest \<and>
        wsOut c' = wsOut ?c @ concat fs \<and> list_all2 (\<lambda>f q. is_frame f 10 q) fs (pings s)"
      using Cons.prems(4-8) Fragment ty by (intro Cons.IH [where op = 0]) (simp_all add: can_write_def)
    ultimately show ?thesis using Fragment by simp
  next
    case (PingFrame q)
    let ?c = "c\<lparr>wsIn := encodeFrames op (s @ [Fragment p]) @ rest\<rparr>"
    have f: "readFrame ctx c = (Inr (True, 9, q), ?c)"
      using Cons.prems(1,5,6,7) PingFrame by (intro readFrame_serverFrame) simp_all
    have q: "length q \<le> 125" "can_write (Suc (length (pings s))) ?c" using Cons.prems PingFrame by (auto simp: can_write_def)
    obtain c2 where w: "writeFrame ctx 0xA q ?c = (None, c2)" "can_write (length (pings s)) c2"
      by (rule writeFrame_ok [OF q(2,1)])
    obtain g where g: "wsOut c2 = wsOut ?c @ g" "is_frame g 10 q"
      by (rule writeFrame_is_frame [OF w(1)]) (use q in auto)
    have "readMessage ctx t acc c = readMessage ctx t acc c2"
      using f w by (simp add: readMessage.simps [of ctx t acc c])
    moreover have "\<exists>c' fs. readMessage ctx t acc c2 = (Inr (ty, acc @ fragments s @ p), c') \<and> wsIn c' = rest \<and>
        wsOut c' = wsOut c2 @ concat fs \<and> list_all2 (\<lambda>f q. is_frame f 10 q) fs (pings s)"
      using Cons.prems(2-7) PingFrame w(2) writeFrame_in [OF w(1)] by (intro Cons.IH [where op = op]) simp_all
    then obtain c' fs where "readMessage ctx t acc c2 = (Inr (ty, acc @ fragments s @ p), c')" "wsIn c' = rest"
        "wsOut c' = wsOut c2 @ concat fs" "list_all2 (\<lambda>f q. is_frame f 10 q) fs (pings s)" by blast
    ultimately show ?thesis using PingFrame g
      by (intro exI [of _ c'] exI [of _ "g # fs"]) simp
  next
    case (PongFrame q)
    let ?c = "resolvePong q (c\<lparr>wsIn := encodeFrames op (s @ [Fragment p]) @ rest\<rparr>)"
    have "readFrame ctx c = (Inr (True, 10, q), c\<lparr>wsIn := encodeFrames op (s @ [Fragment p]) @ rest\<rparr>)"
      using Cons.prems(1,5,6,7) PongFrame by (intro readFrame_serverFrame) simp_all
    then have "readMessage ctx t acc c = readMessage ctx t acc ?c" by (simp add: readMessage.simps [of ctx t acc c])
    moreover have "\<exists>c' fs. readMessage ctx t acc ?c = (Inr (ty, acc @ fragments s @ p), c') \<and> wsIn c' = rest \<and>
        wsOut c' = wsOut ?c @ concat fs \<and> list_all2 (\<lambda>f q. is_frame f 10 q) fs (pings s)"
      using Cons.prems(2-8) PongFrame by (intro Cons.IH [where op = op]) (simp_all add: can_write_def resolvePong_def)
    moreover have "wsOut ?c = wsOut c" by (simp add: resolvePong_def)
    ultimately show ?thesis unfolding PongFrame by simp
  qed
qed

text \<open>C29. A message arrives whole, however the server fragments it and whatever control frames it puts in between: \<open>Read\<close> returns the
  type of its first frame and the concatenation of its fragments, leaves the rest of the stream unread, and has sent one masked pong
  for every ping, with its payload and in its order.\<close>

theorem Read_reassembles:
  assumes "wsIn c = encodeFrames op (s @ [Fragment p]) @ rest" and "op \<in> {MessageText, MessageBinary}"
    and "length (fragments s) + length p \<le> wsLimit c" "wsLimit c < 2 ^ 63" "125 \<le> wsLimit c"
    and "list_all control_ok s" "can_write (length (pings s)) c"
  shows "\<exists>c' fs. Read ctx c = (Inr (op, fragments s @ p), c') \<and> wsIn c' = rest \<and>
    wsOut c' = wsOut c @ concat fs \<and> list_all2 (\<lambda>f q. is_frame f 0xA q) fs (pings s)"
proof -
  have "op \<in> {1, 2}" using assms(2) by (simp add: MessageText_def MessageBinary_def)
  then show ?thesis using readMessage_script [of c op s p rest 0 op "[]" ctx] assms unfolding Read_def by simp
qed

text \<open>C30. Every input: a message that \<open>Read\<close> returns is a text or a binary message within the read limit, whatever the stream
  contains, and every frame that \<open>Write\<close> reports as sent is one final masked frame that an RFC 6455 server reads back as the
  payload, of whatever length.\<close>

theorem messages_within_limit:
  "(Read ctx c = (Inr (t, m), c') \<longrightarrow> t \<in> {MessageText, MessageBinary} \<and> length m \<le> wsLimit c) \<and>
   (Write ctx op p c = (None, c') \<and> length p < 2 ^ 63 \<longrightarrow>
      op \<in> {MessageText, MessageBinary} \<and> (\<exists>f. wsOut c' = wsOut c @ f \<and> is_frame f op p))"
proof (intro conjI impI)
  assume "Read ctx c = (Inr (t, m), c')"
  then show "t \<in> {MessageText, MessageBinary}" "length m \<le> wsLimit c"
    using readMessage_bounded [of ctx 0 "[]" c t m c'] by (auto simp: Read_def MessageText_def MessageBinary_def)
next
  assume w: "Write ctx op p c = (None, c') \<and> length p < 2 ^ 63"
  then have op: "op \<in> {MessageText, MessageBinary}" and f: "writeFrame ctx op p c = (None, c')"
    by (auto simp: Write_def split: if_splits)
  show "op \<in> {MessageText, MessageBinary}" by (rule op)
  have "op < 16" using op by (auto simp: MessageText_def MessageBinary_def)
  then show "\<exists>f. wsOut c' = wsOut c @ f \<and> is_frame f op p" using w writeFrame_is_frame [OF f] by blast
qed

subsection \<open>A message in two fragments\<close>

definition sample_frames :: "peer_frame list" where
  "sample_frames = [Fragment ''he'', PingFrame ''now'', Fragment [], PongFrame ''old'']"

definition sample_conn :: ws_conn where
  "sample_conn = \<lparr>wsIn = encodeFrames MessageText (sample_frames @ [Fragment ''llo'']) @ ''rest'', wsOut = [], wsClosed = False, wsLimit = 2 ^ 20,
     wsPongs = [''old''], wsResolved = [], wsRandom = [Some ''abcd''], wsFaults = []\<rparr>"

theorem Read_reassembles_witness:
  "\<exists>c' f. Read False sample_conn = (Inr (MessageText, ''hello''), c') \<and> wsIn c' = ''rest'' \<and> wsOut c' = f \<and> is_frame f 0xA ''now''"
proof -
  have "\<exists>c' fs. Read False sample_conn = (Inr (MessageText, fragments sample_frames @ ''llo''), c') \<and> wsIn c' = ''rest'' \<and>
      wsOut c' = wsOut sample_conn @ concat fs \<and> list_all2 (\<lambda>f q. is_frame f 0xA q) fs (pings sample_frames)"
    by (rule Read_reassembles) (simp_all add: sample_conn_def sample_frames_def can_write_def)
  then show ?thesis by (auto simp: sample_frames_def sample_conn_def list_all2_Cons2)
qed

theorem messages_within_limit_witness:
  "\<exists>f. wsOut (snd (Write False MessageBinary ''ok'' sample_conn)) = f \<and> is_frame f MessageBinary ''ok''"
proof -
  have "Write False MessageBinary ''ok'' sample_conn = (None, snd (Write False MessageBinary ''ok'' sample_conn))"
    by (simp add: Write_def writeFrame_def drawRandom_def sendBytes_def sample_conn_def MessageBinary_def MessageText_def Let_def)
  then have "\<exists>f. wsOut (snd (Write False MessageBinary ''ok'' sample_conn)) = wsOut sample_conn @ f \<and> is_frame f MessageBinary ''ok''"
    using messages_within_limit [of False sample_conn MessageBinary "''ok''" "snd (Write False MessageBinary ''ok'' sample_conn)" MessageBinary "''ok''"]
    by simp
  then show ?thesis by (simp add: sample_conn_def)
qed

end
