(* ===== verification/DetectStats.thy ===== *)
theory DetectStats
  imports GoStrings "HOL-Library.Multiset"
begin

text \<open>
  \<open>internal/report/types.go\<close> and \<open>internal/detect/stats.go\<close>: the observations of a proxy service, how they are collected
  from its statistics interface, and the older fields that are derived from them. The HTTP client, the JSON and YAML decoders and the
  command runner are parameters: \<open>tele_env\<close> gives what a request or a command answers and what a text decodes to. Byte counters
  are 64-bit words.
\<close>

unbundle bit_operations_syntax

subsection \<open>Observations\<close>

datatype observation_state = ObservationOK | ObservationNotConfigured | ObservationDisabled | ObservationError

datatype capability_support = CapabilitySupported | CapabilityUnsupported | CapabilityUnknown

record metric_capability =
  mcSupport :: capability_support
  mcSource :: bytes
  mcReason :: bytes

record service_capabilities =
  scTraffic :: metric_capability
  scOnlineClients :: metric_capability

record traffic_telemetry =
  ttState :: observation_state
  ttTxBytes :: "uint64 option"
  ttRxBytes :: "uint64 option"
  ttErrorCode :: bytes

record count_telemetry =
  ctState :: observation_state
  ctValue :: "uint64 option"
  ctErrorCode :: bytes

record service_telemetry =
  stTraffic :: "traffic_telemetry option"
  stOnlineClients :: "count_telemetry option"

record legacy_stats =
  lsTx :: uint64
  lsRx :: uint64
  lsOnlineClients :: uint64

datatype telemetry_error = TelemetryError (teCode: bytes) (teDeadline: bool) | HttpStatusError nat

record telemetry_diagnostic =
  tdMetric :: bytes
  tdErr :: telemetry_error

record telemetry_result =
  trTelemetry :: service_telemetry
  trDiagnostics :: "telemetry_diagnostic list"

subsection \<open>The outside\<close>

text \<open>What a request answers: no request could be made, there was no answer (in time or not), or a status and a body of which
  \<open>encoding/json\<close> decodes a value or not.\<close>

datatype 'a http_outcome = BadRequest | NoAnswer bool | Answered nat "bool + 'a"

datatype yaml_value = YamlString bytes | YamlMap "(bytes \<times> yaml_value) list" | YamlOther

text \<open>\<open>None\<close> stands for JSON's null and for an absent member. Go visits the entries of a map in the order of the list.\<close>

record tele_env =
  teTraffic :: "bytes \<Rightarrow> bytes \<Rightarrow> (bytes \<times> uint64 option \<times> uint64 option) list option http_outcome"
  teOnline :: "bytes \<Rightarrow> bytes \<Rightarrow> (bytes \<times> uint64 option) list option http_outcome"
  teClash :: "bytes \<Rightarrow> bytes \<Rightarrow> (uint64 option \<times> uint64 option) http_outcome"
  teRun :: "bytes \<Rightarrow> bytes list \<Rightarrow> bool + bytes"
  teStats :: "bytes \<Rightarrow> bytes list option json_doc"
  teRecord :: "bytes \<Rightarrow> (bytes option \<times> bytes) json_doc"
  teString :: "bytes \<Rightarrow> bytes option"
  teUsers :: "bytes \<Rightarrow> bytes list option list option option"
  teReadFile :: "bytes \<Rightarrow> bytes option"
  teYaml :: "bytes \<Rightarrow> (bytes \<times> yaml_value) list option"

subsection \<open>Errors\<close>

definition observationError :: "bytes \<Rightarrow> traffic_telemetry" where
  "observationError code = \<lparr>ttState = ObservationError, ttTxBytes = None, ttRxBytes = None, ttErrorCode = code\<rparr>"

definition countObservationError :: "bytes \<Rightarrow> count_telemetry" where
  "countObservationError code = \<lparr>ctState = ObservationError, ctValue = None, ctErrorCode = code\<rparr>"

definition invalidTelemetryResponse :: telemetry_error where
  "invalidTelemetryResponse = TelemetryError ''invalid_response'' False"

fun errorCode :: "telemetry_error \<Rightarrow> bytes" where
  "errorCode (TelemetryError code deadline) = (if deadline then ''timeout'' else code)"
| "errorCode (HttpStatusError n) = (if n = 401 \<or> n = 403 then ''unauthorized'' else ''connection_failed'')"

fun getStatsJSON :: "'a http_outcome \<Rightarrow> telemetry_error + 'a" where
  "getStatsJSON BadRequest = Inl (TelemetryError ''invalid_response'' False)"
| "getStatsJSON (NoAnswer deadline) = Inl (TelemetryError ''connection_failed'' deadline)"
| "getStatsJSON (Answered status body) =
     (if status < 200 \<or> 300 \<le> status then Inl (HttpStatusError status)
      else case body of Inl deadline \<Rightarrow> Inl (TelemetryError ''invalid_response'' deadline) | Inr v \<Rightarrow> Inr v)"

definition ensureHTTP :: "bytes \<Rightarrow> bytes" where
  "ensureHTTP endpoint = (if contains_sub endpoint ''://'' then endpoint else ''http://'' @ endpoint)"

definition traffic_ok :: "uint64 \<Rightarrow> uint64 \<Rightarrow> traffic_telemetry" where
  "traffic_ok tx rx = \<lparr>ttState = ObservationOK, ttTxBytes = Some tx, ttRxBytes = Some rx, ttErrorCode = []\<rparr>"

definition count_ok :: "uint64 \<Rightarrow> count_telemetry" where
  "count_ok n = \<lparr>ctState = ObservationOK, ctValue = Some n, ctErrorCode = []\<rparr>"

subsection \<open>Hysteria2\<close>

fun sumTraffic :: "(bytes \<times> uint64 option \<times> uint64 option) list \<Rightarrow> uint64 \<Rightarrow> uint64 \<Rightarrow> (uint64 \<times> uint64) option" where
  "sumTraffic [] tx rx = Some (tx, rx)"
| "sumTraffic ((_, Some t, Some r) # s) tx rx = sumTraffic s (tx + t) (rx + r)"
| "sumTraffic (_ # s) tx rx = None"

definition hysteria2Traffic :: "tele_env \<Rightarrow> bytes \<Rightarrow> bytes \<Rightarrow> telemetry_error + traffic_telemetry" where
  "hysteria2Traffic E endpoint secret =
     (case getStatsJSON (teTraffic E (endpoint @ ''/traffic'') secret) of
        Inl e \<Rightarrow> Inl e
      | Inr None \<Rightarrow> Inl invalidTelemetryResponse
      | Inr (Some txRx) \<Rightarrow>
          (case sumTraffic txRx 0 0 of None \<Rightarrow> Inl invalidTelemetryResponse | Some (tx, rx) \<Rightarrow> Inr (traffic_ok tx rx)))"

fun sumOnline :: "(bytes \<times> uint64 option) list \<Rightarrow> uint64 \<Rightarrow> uint64 option" where
  "sumOnline [] tot = Some tot"
| "sumOnline ((_, Some n) # s) tot = sumOnline s (tot + n)"
| "sumOnline (_ # s) tot = None"

definition hysteria2OnlineClients :: "tele_env \<Rightarrow> bytes \<Rightarrow> bytes \<Rightarrow> telemetry_error + count_telemetry" where
  "hysteria2OnlineClients E endpoint secret =
     (case getStatsJSON (teOnline E (endpoint @ ''/online'') secret) of
        Inl e \<Rightarrow> Inl e
      | Inr None \<Rightarrow> Inl invalidTelemetryResponse
      | Inr (Some online) \<Rightarrow>
          (case sumOnline online 0 of None \<Rightarrow> Inl invalidTelemetryResponse | Some tot \<Rightarrow> Inr (count_ok tot)))"

text \<open>Both metrics are collected and each keeps its own error.\<close>

definition both_metrics :: "telemetry_error + traffic_telemetry \<Rightarrow> telemetry_error + count_telemetry \<Rightarrow> telemetry_result" where
  "both_metrics traffic online =
     \<lparr>trTelemetry = \<lparr>stTraffic = Some (case traffic of Inl e \<Rightarrow> observationError (errorCode e) | Inr t \<Rightarrow> t),
                     stOnlineClients = Some (case online of Inl e \<Rightarrow> countObservationError (errorCode e) | Inr n \<Rightarrow> n)\<rparr>,
      trDiagnostics = (case traffic of Inl e \<Rightarrow> [\<lparr>tdMetric = ''traffic'', tdErr = e\<rparr>] | Inr _ \<Rightarrow> []) @
                      (case online of Inl e \<Rightarrow> [\<lparr>tdMetric = ''online_clients'', tdErr = e\<rparr>] | Inr _ \<Rightarrow> [])\<rparr>"

definition traffic_failed :: "telemetry_error \<Rightarrow> telemetry_result" where
  "traffic_failed e =
     \<lparr>trTelemetry = \<lparr>stTraffic = Some (observationError (errorCode e)), stOnlineClients = None\<rparr>,
      trDiagnostics = [\<lparr>tdMetric = ''traffic'', tdErr = e\<rparr>]\<rparr>"

definition hysteria2Telemetry :: "tele_env \<Rightarrow> bytes \<Rightarrow> bytes \<Rightarrow> telemetry_result" where
  "hysteria2Telemetry E endpoint secret =
     (let endpoint = ensureHTTP endpoint in both_metrics (hysteria2Traffic E endpoint secret) (hysteria2OnlineClients E endpoint secret))"

subsection \<open>sing-box\<close>

definition singBoxTelemetry :: "tele_env \<Rightarrow> bytes \<Rightarrow> bytes \<Rightarrow> telemetry_result" where
  "singBoxTelemetry E endpoint secret =
     (let endpoint = ensureHTTP endpoint; authHeader = (if secret \<noteq> [] then ''Bearer '' @ secret else []) in
      case getStatsJSON (teClash E (endpoint @ ''/traffic'') authHeader) of
        Inl e \<Rightarrow> traffic_failed e
      | Inr (Some up, Some down) \<Rightarrow>
          \<lparr>trTelemetry = \<lparr>stTraffic = Some (traffic_ok up down), stOnlineClients = None\<rparr>, trDiagnostics = []\<rparr>
      | Inr _ \<Rightarrow> traffic_failed invalidTelemetryResponse)"

subsection \<open>Xray\<close>

definition strictValue :: "'a json_doc \<Rightarrow> 'a option" where
  "strictValue d = (case d of JsonDoc v \<Rightarrow> Some v | _ \<Rightarrow> None)"

definition xrayCounterScopeAndDirection :: "bytes \<Rightarrow> (bytes \<times> bytes) option" where
  "xrayCounterScopeAndDirection name =
     (case split_sub ''>>>'' name of
        [scope, tag, kind, direction] \<Rightarrow>
          if trim_space tag = [] \<or> kind \<noteq> ''traffic'' then None
          else if scope \<noteq> ''inbound'' \<and> scope \<noteq> ''outbound'' \<and> scope \<noteq> ''user'' then None
          else if direction \<noteq> ''uplink'' \<and> direction \<noteq> ''downlink'' then None
          else Some (scope, direction)
      | _ \<Rightarrow> None)"

definition counterNumber :: "bytes \<Rightarrow> uint64 option" where
  "counterNumber s =
     (if s = [] \<or> list_ex (\<lambda>c. \<not> is_digit c) s then None
      else case parse_uint s 10 63 of (n, None) \<Rightarrow> Some (word_of_nat n) | (_, Some _) \<Rightarrow> None)"

definition xrayCounterValue :: "tele_env \<Rightarrow> bytes \<Rightarrow> uint64 option" where
  "xrayCounterValue E raw =
     (if raw = [] then Some 0
      else
        let s = trim_space raw in
        if s \<noteq> [] \<and> hd s = CHR 0x22 then (case teString E raw of None \<Rightarrow> None | Some s \<Rightarrow> counterNumber s)
        else counterNumber s)"

text \<open>The loop over the counters: the totals of every scope and the names that were seen.\<close>

definition scope_total :: "bytes \<Rightarrow> (bytes \<times> uint64 \<times> uint64) list \<Rightarrow> uint64 \<times> uint64" where
  "scope_total scope totals = (case map_of totals scope of None \<Rightarrow> (0, 0) | Some t \<Rightarrow> t)"

definition addCounter :: "bytes \<Rightarrow> bytes \<Rightarrow> uint64 \<Rightarrow> (bytes \<times> uint64 \<times> uint64) list \<Rightarrow> (bytes \<times> uint64 \<times> uint64) list option" where
  "addCounter scope direction v totals =
     (let (up, down) = scope_total scope totals in
      if direction = ''uplink'' then
        (if NOT 0 - up < v then None else Some (AList.update scope (up + v, down) totals))
      else
        (if NOT 0 - down < v then None else Some (AList.update scope (up, down + v) totals)))"

fun xrayTotals ::
    "tele_env \<Rightarrow> bytes list \<Rightarrow> bytes list \<Rightarrow> (bytes \<times> uint64 \<times> uint64) list \<Rightarrow> (bytes \<times> uint64 \<times> uint64) list option" where
  "xrayTotals E [] seen totals = Some totals"
| "xrayTotals E (raw # rs) seen totals =
     (case strictValue (teRecord E raw) of
        Some (Some name, value) \<Rightarrow>
          (case xrayCounterScopeAndDirection name of
             None \<Rightarrow> None
           | Some (scope, direction) \<Rightarrow>
               if name \<in> set seen then None
               else (case xrayCounterValue E value of
                 None \<Rightarrow> None
               | Some v \<Rightarrow>
                   (case addCounter scope direction v totals of
                      None \<Rightarrow> None
                    | Some totals \<Rightarrow> xrayTotals E rs (name # seen) totals)))
      | _ \<Rightarrow> None)"

definition xrayTraffic :: "tele_env \<Rightarrow> bytes \<Rightarrow> telemetry_error + traffic_telemetry" where
  "xrayTraffic E server =
     (case teRun E ''xray'' [''api'', ''statsquery'', ''-s'', server, ''-pattern'', ''>>>traffic>>>''] of
        Inl deadline \<Rightarrow> Inl (TelemetryError ''command_failed'' deadline)
      | Inr out \<Rightarrow>
          (case strictValue (teStats E out) of
             Some (Some stats) \<Rightarrow>
               if stats = [] then Inl invalidTelemetryResponse
               else (case xrayTotals E stats [] [] of
                 None \<Rightarrow> Inl invalidTelemetryResponse
               | Some totals \<Rightarrow>
                   (case find (\<lambda>scope. map_of totals scope \<noteq> None) [''inbound'', ''outbound'', ''user''] of
                      None \<Rightarrow> Inl invalidTelemetryResponse
                    | Some scope \<Rightarrow> (let (up, down) = scope_total scope totals in Inr (traffic_ok up down))))
           | _ \<Rightarrow> Inl invalidTelemetryResponse))"

fun countClients :: "bytes list option list \<Rightarrow> uint64 \<Rightarrow> uint64 option" where
  "countClients [] tot = Some tot"
| "countClients (None # us) tot = None"
| "countClients (Some ips # us) tot =
     (if list_ex (\<lambda>ip. trim_space ip = []) ips then None else countClients us (tot + word_of_nat (length ips)))"

definition xrayOnlineClients :: "tele_env \<Rightarrow> bytes \<Rightarrow> telemetry_error + count_telemetry" where
  "xrayOnlineClients E server =
     (case teRun E ''xray'' [''api'', ''statsonlineiplist'', ''-s'', server, ''-all''] of
        Inl deadline \<Rightarrow> Inl (TelemetryError ''command_failed'' deadline)
      | Inr out \<Rightarrow>
          (case teUsers E out of
             Some (Some users) \<Rightarrow>
               (case countClients users 0 of None \<Rightarrow> Inl invalidTelemetryResponse | Some tot \<Rightarrow> Inr (count_ok tot))
           | _ \<Rightarrow> Inl invalidTelemetryResponse))"

definition xrayTelemetry :: "tele_env \<Rightarrow> bytes \<Rightarrow> telemetry_result" where
  "xrayTelemetry E server = both_metrics (xrayTraffic E server) (xrayOnlineClients E server)"

subsection \<open>Every kind\<close>

definition CollectTelemetryWithRunner :: "tele_env \<Rightarrow> bytes \<Rightarrow> bytes \<Rightarrow> bytes \<Rightarrow> telemetry_result" where
  "CollectTelemetryWithRunner E kind endpoint secret =
     (if kind = ''hysteria2'' then hysteria2Telemetry E endpoint secret
      else if kind = ''sing-box'' then singBoxTelemetry E endpoint secret
      else if kind = ''xray'' then xrayTelemetry E endpoint
      else traffic_failed (TelemetryError ''unknown'' False))"

definition legacyStatsError :: "bytes \<Rightarrow> telemetry_result \<Rightarrow> telemetry_error option" where
  "legacyStatsError kind r =
     (case trDiagnostics r of
        [] \<Rightarrow> None
      | d # _ \<Rightarrow>
          if kind = ''xray'' \<and> (case stTraffic (trTelemetry r) of None \<Rightarrow> False | Some t \<Rightarrow> ttState t = ObservationOK) then None
          else Some (tdErr d))"

text \<open>\<open>None\<close> when a missing value of a successful observation is dereferenced.\<close>

definition legacyStats :: "service_telemetry \<Rightarrow> legacy_stats option" where
  "legacyStats t =
     (let counters = (case stTraffic t of
            Some tr \<Rightarrow> if ttState tr = ObservationOK then (case (ttTxBytes tr, ttRxBytes tr) of (Some tx, Some rx) \<Rightarrow> Some (tx, rx) | _ \<Rightarrow> None)
                       else Some (0, 0)
          | None \<Rightarrow> Some (0, 0));
          clients = (case stOnlineClients t of
            Some oc \<Rightarrow> if ctState oc = ObservationOK then ctValue oc else Some 0
          | None \<Rightarrow> Some 0)
      in case (counters, clients) of
           (Some (tx, rx), Some n) \<Rightarrow> Some \<lparr>lsTx = tx, lsRx = rx, lsOnlineClients = n\<rparr>
         | _ \<Rightarrow> None)"

definition CollectStatsWithRunner :: "tele_env \<Rightarrow> bytes \<Rightarrow> bytes \<Rightarrow> bytes \<Rightarrow> telemetry_error + legacy_stats option" where
  "CollectStatsWithRunner E kind endpoint secret =
     (let r = CollectTelemetryWithRunner E kind endpoint secret in
      case legacyStatsError kind r of Some e \<Rightarrow> Inl e | None \<Rightarrow> Inr (legacyStats (trTelemetry r)))"

definition CollectStats :: "tele_env \<Rightarrow> bytes \<Rightarrow> bytes \<Rightarrow> bytes \<Rightarrow> telemetry_error option + legacy_stats option" where
  "CollectStats E kind endpoint secret =
     (if kind = ''xray'' then Inl None
      else case CollectStatsWithRunner E kind endpoint secret of Inl e \<Rightarrow> Inl (Some e) | Inr s \<Rightarrow> Inr s)"

text \<open>\<open>report.Service.PopulateLegacyStats\<close> on the fields it reads and writes.\<close>

definition PopulateLegacyStats :: "service_telemetry option \<Rightarrow> legacy_stats option \<Rightarrow> legacy_stats option" where
  "PopulateLegacyStats telemetry stats =
     (case telemetry of
        None \<Rightarrow> stats
      | Some t \<Rightarrow>
          let base = (case stats of None \<Rightarrow> \<lparr>lsTx = 0, lsRx = 0, lsOnlineClients = 0\<rparr> | Some s \<Rightarrow> s);
              (s1, ok1) = (case stTraffic t of
                 Some tr \<Rightarrow> (case (ttTxBytes tr, ttRxBytes tr) of
                     (Some tx, Some rx) \<Rightarrow> if ttState tr = ObservationOK then (base\<lparr>lsTx := tx, lsRx := rx\<rparr>, True) else (base, False)
                   | _ \<Rightarrow> (base, False))
               | None \<Rightarrow> (base, False));
              (s2, ok2) = (case stOnlineClients t of
                 Some oc \<Rightarrow> (case ctValue oc of
                     Some n \<Rightarrow> if ctState oc = ObservationOK then (s1\<lparr>lsOnlineClients := n\<rparr>, True) else (s1, ok1)
                   | None \<Rightarrow> (s1, ok1))
               | None \<Rightarrow> (s1, ok1))
          in if ok2 then Some s2 else stats)"

subsection \<open>Endpoints of the configuration files\<close>

definition yaml_map :: "(bytes \<times> yaml_value) list \<Rightarrow> bytes \<Rightarrow> (bytes \<times> yaml_value) list option" where
  "yaml_map m key = (case map_of m key of Some (YamlMap v) \<Rightarrow> Some v | _ \<Rightarrow> None)"

definition yaml_string :: "(bytes \<times> yaml_value) list \<Rightarrow> bytes \<Rightarrow> bytes" where
  "yaml_string m key = (case map_of m key of Some (YamlString v) \<Rightarrow> v | _ \<Rightarrow> [])"

definition statsSection :: "bytes \<Rightarrow> (bytes \<times> yaml_value) list \<Rightarrow> (bytes \<times> bytes) option" where
  "statsSection kind m =
     (if kind = ''hysteria2'' then
        (case yaml_map m ''trafficStats'' of
           None \<Rightarrow> None
         | Some ts \<Rightarrow> if yaml_string ts ''listen'' \<noteq> [] then Some (yaml_string ts ''listen'', yaml_string ts ''secret'') else None)
      else if kind = ''sing-box'' then
        (case yaml_map m ''experimental'' of
           None \<Rightarrow> None
         | Some ex \<Rightarrow>
             (case yaml_map ex ''clash_api'' of
                None \<Rightarrow> None
              | Some clash \<Rightarrow>
                  if yaml_string clash ''external_controller'' \<noteq> []
                  then Some (yaml_string clash ''external_controller'', yaml_string clash ''secret'') else None))
      else None)"

fun discoverStats :: "tele_env \<Rightarrow> bytes \<Rightarrow> bytes list \<Rightarrow> (bytes \<times> bytes) option" where
  "discoverStats E kind [] = None"
| "discoverStats E kind (p # ps) =
     (case teReadFile E p of
        None \<Rightarrow> discoverStats E kind ps
      | Some b \<Rightarrow>
          (case teYaml E b of
             None \<Rightarrow> discoverStats E kind ps
           | Some m \<Rightarrow> (case statsSection kind m of None \<Rightarrow> discoverStats E kind ps | Some ep \<Rightarrow> Some ep)))"

subsection \<open>Every observation is a value or an error\<close>

definition traffic_wf :: "traffic_telemetry \<Rightarrow> bool" where
  "traffic_wf t \<longleftrightarrow>
     (ttState t = ObservationOK \<and> ttTxBytes t \<noteq> None \<and> ttRxBytes t \<noteq> None \<and> ttErrorCode t = []) \<or>
     (ttState t = ObservationError \<and> ttTxBytes t = None \<and> ttRxBytes t = None \<and>
        ttErrorCode t \<in> {''invalid_response'', ''connection_failed'', ''unauthorized'', ''command_failed'', ''timeout'', ''unknown''})"

definition count_wf :: "count_telemetry \<Rightarrow> bool" where
  "count_wf t \<longleftrightarrow>
     (ctState t = ObservationOK \<and> ctValue t \<noteq> None \<and> ctErrorCode t = []) \<or>
     (ctState t = ObservationError \<and> ctValue t = None \<and>
        ctErrorCode t \<in> {''invalid_response'', ''connection_failed'', ''unauthorized'', ''command_failed'', ''timeout'', ''unknown''})"

definition known_error :: "telemetry_error \<Rightarrow> bool" where
  "known_error e \<longleftrightarrow> (case e of TelemetryError code _ \<Rightarrow> code \<in> {''invalid_response'', ''connection_failed'', ''command_failed'', ''unknown''} | _ \<Rightarrow> True)"

lemma known_error_wf [simp]:
  "known_error e \<Longrightarrow> traffic_wf (observationError (errorCode e))" "known_error e \<Longrightarrow> count_wf (countObservationError (errorCode e))"
  by (cases e; auto simp: traffic_wf_def count_wf_def observationError_def countObservationError_def known_error_def)+

lemma ok_wf [simp]: "traffic_wf (traffic_ok tx rx)" "count_wf (count_ok n)"
  by (simp_all add: traffic_wf_def count_wf_def traffic_ok_def count_ok_def)

lemma ok_state [simp]: "ttState (traffic_ok tx rx) = ObservationOK" "ctState (count_ok n) = ObservationOK"
  by (simp_all add: traffic_ok_def count_ok_def)

lemma invalid_known [simp]: "known_error invalidTelemetryResponse" "known_error (TelemetryError ''command_failed'' d)"
    "known_error (TelemetryError ''unknown'' d)"
  by (simp_all add: known_error_def invalidTelemetryResponse_def)

lemma getStatsJSON_known: "getStatsJSON a = Inl e \<Longrightarrow> known_error e"
  by (cases a) (auto simp: known_error_def split: if_splits sum.splits)

lemma hysteria2Traffic_cases:
  obtains e where "hysteria2Traffic E p s = Inl e" "known_error e" | tx rx where "hysteria2Traffic E p s = Inr (traffic_ok tx rx)"
proof (cases "hysteria2Traffic E p s")
  case (Inl e)
  then have "known_error e"
    by (auto simp: hysteria2Traffic_def dest: getStatsJSON_known split: sum.splits option.splits)
  then show ?thesis using that Inl by blast
next
  case (Inr t)
  then show ?thesis using that by (auto simp: hysteria2Traffic_def split: sum.splits option.splits)
qed

lemma hysteria2OnlineClients_cases:
  obtains e where "hysteria2OnlineClients E p s = Inl e" "known_error e" | n where "hysteria2OnlineClients E p s = Inr (count_ok n)"
proof (cases "hysteria2OnlineClients E p s")
  case (Inl e)
  then have "known_error e"
    by (auto simp: hysteria2OnlineClients_def dest: getStatsJSON_known split: sum.splits option.splits)
  then show ?thesis using that Inl by blast
next
  case (Inr t)
  then show ?thesis using that by (auto simp: hysteria2OnlineClients_def split: sum.splits option.splits)
qed

lemma xrayTraffic_cases:
  obtains e where "xrayTraffic E s = Inl e" "known_error e" | tx rx where "xrayTraffic E s = Inr (traffic_ok tx rx)"
proof (cases "xrayTraffic E s")
  case (Inl e)
  then have "known_error e"
    by (auto simp: xrayTraffic_def Let_def split: sum.splits option.splits if_splits prod.splits)
  then show ?thesis using that Inl by blast
next
  case (Inr t)
  then show ?thesis using that by (auto simp: xrayTraffic_def Let_def split: sum.splits option.splits if_splits prod.splits)
qed

lemma xrayOnlineClients_cases:
  obtains e where "xrayOnlineClients E s = Inl e" "known_error e" | n where "xrayOnlineClients E s = Inr (count_ok n)"
proof (cases "xrayOnlineClients E s")
  case (Inl e)
  then have "known_error e" by (auto simp: xrayOnlineClients_def split: sum.splits option.splits)
  then show ?thesis using that Inl by blast
next
  case (Inr t)
  then show ?thesis using that by (auto simp: xrayOnlineClients_def split: sum.splits option.splits)
qed

definition result_wf :: "telemetry_result \<Rightarrow> bool" where
  "result_wf r \<longleftrightarrow>
     (\<exists>t. stTraffic (trTelemetry r) = Some t \<and> traffic_wf t \<and>
        (trDiagnostics r = [] \<longrightarrow> ttState t = ObservationOK)) \<and>
     (\<forall>c. stOnlineClients (trTelemetry r) = Some c \<longrightarrow> count_wf c \<and> (trDiagnostics r = [] \<longrightarrow> ctState c = ObservationOK))"

lemma both_metrics_wf:
  assumes "(\<exists>e. t = Inl e \<and> known_error e) \<or> (\<exists>tx rx. t = Inr (traffic_ok tx rx))"
    and "(\<exists>e. c = Inl e \<and> known_error e) \<or> (\<exists>n. c = Inr (count_ok n))"
  shows "result_wf (both_metrics t c)"
  using assms by (elim disjE exE conjE) (simp_all add: result_wf_def both_metrics_def)

lemma traffic_failed_wf: "known_error e \<Longrightarrow> result_wf (traffic_failed e)"
  by (simp add: result_wf_def traffic_failed_def)

lemma singBox_wf: "result_wf (singBoxTelemetry E p s)"
proof -
  let ?a = "teClash E (ensureHTTP p @ ''/traffic'') (if s \<noteq> [] then ''Bearer '' @ s else [])"
  show ?thesis
  proof (cases "getStatsJSON ?a")
    case (Inl e)
    then show ?thesis using getStatsJSON_known [OF Inl] by (simp add: singBoxTelemetry_def Let_def traffic_failed_wf)
  next
    case (Inr v)
    obtain up down where v: "v = (up, down)" by (cases v)
    show ?thesis
    proof (cases "up = None \<or> down = None")
      case True
      then have "singBoxTelemetry E p s = traffic_failed invalidTelemetryResponse"
        using Inr v by (auto simp: singBoxTelemetry_def Let_def split: option.splits)
      then show ?thesis by (simp add: traffic_failed_wf)
    next
      case False
      then obtain u d where "v = (Some u, Some d)" using v by auto
      then show ?thesis using Inr by (simp add: singBoxTelemetry_def Let_def result_wf_def)
    qed
  qed
qed

lemma collected_wf: "result_wf (CollectTelemetryWithRunner E kind p s)"
proof -
  have h: "result_wf (hysteria2Telemetry E p s)"
    unfolding hysteria2Telemetry_def Let_def
    by (rule both_metrics_wf; cases rule: hysteria2Traffic_cases [of E "ensureHTTP p" s];
        cases rule: hysteria2OnlineClients_cases [of E "ensureHTTP p" s]) auto
  have x: "result_wf (xrayTelemetry E p)"
    unfolding xrayTelemetry_def
    by (rule both_metrics_wf; cases rule: xrayTraffic_cases [of E p]; cases rule: xrayOnlineClients_cases [of E p]) auto
  show ?thesis using h x singBox_wf by (simp add: CollectTelemetryWithRunner_def traffic_failed_wf)
qed

text \<open>Whatever a statistics interface answers, an observation is either a value without an error code or one of the six error
  codes without a value; so the conversion to the old statistics never dereferences a missing value, and a collection without
  diagnostics succeeds with the observed numbers.\<close>

theorem telemetry_well_formed:
  "result_wf (CollectTelemetryWithRunner E kind endpoint secret) \<and>
   legacyStats (trTelemetry (CollectTelemetryWithRunner E kind endpoint secret)) \<noteq> None \<and>
   (trDiagnostics (CollectTelemetryWithRunner E kind endpoint secret) = [] \<longrightarrow>
      (\<exists>s. CollectStatsWithRunner E kind endpoint secret = Inr (Some s) \<and>
           PopulateLegacyStats (Some (trTelemetry (CollectTelemetryWithRunner E kind endpoint secret))) None = Some s))"
proof -
  define r where "r = CollectTelemetryWithRunner E kind endpoint secret"
  have wf: "result_wf r" unfolding r_def by (rule collected_wf)
  then obtain t where t: "stTraffic (trTelemetry r) = Some t" "traffic_wf t" by (auto simp: result_wf_def)
  have some: "legacyStats (trTelemetry r) \<noteq> None"
    using wf t by (auto simp: legacyStats_def Let_def result_wf_def traffic_wf_def count_wf_def split: option.splits)
  moreover have "\<exists>s. CollectStatsWithRunner E kind endpoint secret = Inr (Some s) \<and> PopulateLegacyStats (Some (trTelemetry r)) None = Some s"
    if "trDiagnostics r = []"
  proof -
    have ok: "ttState t = ObservationOK" using wf t that by (simp add: result_wf_def)
    then obtain tx rx where v: "ttTxBytes t = Some tx" "ttRxBytes t = Some rx" using t(2) by (auto simp: traffic_wf_def)
    have "CollectStatsWithRunner E kind endpoint secret = Inr (legacyStats (trTelemetry r))"
      using that by (simp add: CollectStatsWithRunner_def r_def [symmetric] legacyStatsError_def Let_def)
    moreover have "PopulateLegacyStats (Some (trTelemetry r)) None = legacyStats (trTelemetry r)"
    proof (cases "stOnlineClients (trTelemetry r)")
      case None
      then show ?thesis using t(1) ok v by (simp add: PopulateLegacyStats_def legacyStats_def Let_def)
    next
      case (Some c)
      then have "ctState c = ObservationOK" "count_wf c" using wf that by (auto simp: result_wf_def)
      then obtain n where "ctValue c = Some n" by (auto simp: count_wf_def)
      then show ?thesis using Some t(1) ok v \<open>ctState c = ObservationOK\<close> by (simp add: PopulateLegacyStats_def legacyStats_def Let_def)
    qed
    ultimately show ?thesis using some by auto
  qed
  ultimately show ?thesis using wf unfolding r_def by blast
qed

subsection \<open>The Xray counters are summed exactly\<close>

type_synonym counter = "bytes \<times> bytes \<times> bytes \<times> uint64"

definition decodeCounter :: "tele_env \<Rightarrow> bytes \<Rightarrow> counter option" where
  "decodeCounter E raw =
     (case strictValue (teRecord E raw) of
        Some (Some name, value) \<Rightarrow>
          (case (xrayCounterScopeAndDirection name, xrayCounterValue E value) of
             (Some (scope, direction), Some v) \<Rightarrow> Some (name, scope, direction, v)
           | _ \<Rightarrow> None)
      | _ \<Rightarrow> None)"

definition counterSum :: "bytes \<Rightarrow> bytes \<Rightarrow> counter list \<Rightarrow> nat" where
  "counterSum scope direction cs = (\<Sum>(n, s, d, v) \<leftarrow> cs. if s = scope \<and> d = direction then unat v else 0)"

definition counterScopes :: "counter list \<Rightarrow> bytes set" where
  "counterScopes cs = (\<lambda>(n, s, d, v). s) ` set cs"

definition counterNames :: "counter list \<Rightarrow> bytes list" where
  "counterNames cs = map fst cs"

definition represents :: "(bytes \<times> uint64 \<times> uint64) list \<Rightarrow> counter list \<Rightarrow> bool" where
  "represents totals cs \<longleftrightarrow>
     (\<forall>s. map_of totals s =
        (if s \<in> counterScopes cs then Some (word_of_nat (counterSum s ''uplink'' cs), word_of_nat (counterSum s ''downlink'' cs)) else None)) \<and>
     (\<forall>s d. counterSum s d cs < 2 ^ 64)"

lemma counterSum_Nil [simp]: "counterSum s d [] = 0" by (simp add: counterSum_def)

lemma counterSum_snoc [simp]:
  "counterSum s d (cs @ [(n, s', d', v)]) = counterSum s d cs + (if s' = s \<and> d' = d then unat v else 0)"
  by (simp add: counterSum_def)

lemma counterSum_append [simp]: "counterSum s d (cs @ cs') = counterSum s d cs + counterSum s d cs'"
  by (simp add: counterSum_def)

lemma counterSum_other: "s \<notin> counterScopes cs \<Longrightarrow> counterSum s d cs = 0"
  by (induction cs) (auto simp: counterSum_def counterScopes_def)

lemma counterScopes_snoc [simp]: "counterScopes (cs @ [(n, s, d, v)]) = insert s (counterScopes cs)"
  by (auto simp: counterScopes_def)

lemma direction_known: "xrayCounterScopeAndDirection name = Some (s, d) \<Longrightarrow> s \<in> {''inbound'', ''outbound'', ''user''} \<and> d \<in> {''uplink'', ''downlink''}"
  by (auto simp: xrayCounterScopeAndDirection_def split: list.splits if_splits)

lemma word_room: "- 1 - (word_of_nat a :: uint64) < v \<longleftrightarrow> 2 ^ 64 \<le> a + unat v" if "a < 2 ^ 64"
proof -
  have "unat (- 1 - (word_of_nat a :: uint64)) = 2 ^ 64 - 1 - a"
  proof -
    have "(word_of_nat a :: uint64) \<le> - 1" by (simp add: word_order.extremum)
    then have "unat (- 1 - (word_of_nat a :: uint64)) = unat (- 1 :: uint64) - unat (word_of_nat a :: uint64)"
      by (rule unat_sub)
    moreover have "unat (- 1 :: uint64) = 2 ^ 64 - 1" by (simp add: unsigned_minus_1_eq_mask mask_eq_exp_minus_1)
    moreover have "unat (word_of_nat a :: uint64) = a" using that by (simp add: unsigned_of_nat take_bit_nat_eq_self)
    ultimately show ?thesis by simp
  qed
  then show ?thesis using that by (auto simp: word_less_nat_alt)
qed

lemma addCounter_represents:
  assumes "represents totals cs" "d \<in> {''uplink'', ''downlink''}"
  shows "if counterSum s d cs + unat v < 2 ^ 64
    then \<exists>totals'. addCounter s d v totals = Some totals' \<and> represents totals' (cs @ [(n, s, d, v)])
    else addCounter s d v totals = None"
proof -
  let ?u = "counterSum s ''uplink'' cs" and ?d = "counterSum s ''downlink'' cs"
  have m: "scope_total s totals = (word_of_nat ?u, word_of_nat ?d)"
    using assms(1) counterSum_other [of s cs] by (simp add: scope_total_def represents_def)
  have b: "?u < 2 ^ 64" "?d < 2 ^ 64" using assms(1) by (simp_all only: represents_def)
  have step: "addCounter s d v totals =
      (if counterSum s d cs + unat v < 2 ^ 64
       then Some (AList.update s (word_of_nat (?u + (if d = ''uplink'' then unat v else 0)), word_of_nat (?d + (if d = ''downlink'' then unat v else 0))) totals)
       else None)"
    using assms(2) b by (auto simp: addCounter_def m word_room not_le)
  let ?t = "AList.update s (word_of_nat (?u + (if d = ''uplink'' then unat v else 0)), word_of_nat (?d + (if d = ''downlink'' then unat v else 0))) totals"
  have "represents ?t (cs @ [(n, s, d, v)])" if room: "counterSum s d cs + unat v < 2 ^ 64"
    unfolding represents_def
  proof (intro conjI allI)
    fix x e
    have old: "map_of totals x =
        (if x \<in> counterScopes cs then Some (word_of_nat (counterSum x ''uplink'' cs), word_of_nat (counterSum x ''downlink'' cs)) else None)"
      "counterSum x e cs < 2 ^ 64"
      using assms(1) unfolding represents_def by blast+
    show "map_of ?t x = (if x \<in> counterScopes (cs @ [(n, s, d, v)])
        then Some (word_of_nat (counterSum x ''uplink'' (cs @ [(n, s, d, v)])), word_of_nat (counterSum x ''downlink'' (cs @ [(n, s, d, v)]))) else None)"
    proof (cases "x = s")
      case False
      then show ?thesis using old(1) by (simp only: map_of_update fun_upd_apply counterScopes_snoc insert_iff counterSum_snoc) simp
    next
      case True
      then show ?thesis by (simp only: map_of_update fun_upd_apply counterScopes_snoc insert_iff counterSum_snoc) simp
    qed
    show "counterSum x e (cs @ [(n, s, d, v)]) < 2 ^ 64"
      using old(2) room by (cases "s = x \<and> d = e") (simp_all only: counterSum_snoc if_True if_False, simp_all)
  qed
  then show ?thesis unfolding step by simp
qed

lemma xrayTotals_iff:
  assumes "represents totals cs0" "seen = rev (counterNames cs0)" "distinct seen"
  shows "xrayTotals E raws seen totals = Some totals' \<Longrightarrow>
      \<exists>cs. those (map (decodeCounter E) raws) = Some cs \<and> represents totals' (cs0 @ cs) \<and> distinct (counterNames (cs0 @ cs))"
    and "those (map (decodeCounter E) raws) = Some cs \<Longrightarrow> distinct (counterNames (cs0 @ cs)) \<Longrightarrow> \<forall>s d. counterSum s d (cs0 @ cs) < 2 ^ 64 \<Longrightarrow>
      xrayTotals E raws seen totals \<noteq> None"
  using assms
proof (induction raws arbitrary: seen totals cs0 cs)
  case Nil
  {
    case 1
    then show ?case by (simp add: counterNames_def)
  next
    case 2
    then show ?case by simp
  }
next
  case (Cons raw raws)
  {
    case 1
    then obtain name val s d v t1 where
      r: "strictValue (teRecord E raw) = Some (Some name, val)" "xrayCounterScopeAndDirection name = Some (s, d)" "name \<notin> set seen"
        "xrayCounterValue E val = Some v" "addCounter s d v totals = Some t1" "xrayTotals E raws (name # seen) t1 = Some totals'"
      by (auto split: option.splits if_splits prod.splits)
    have dec: "decodeCounter E raw = Some (name, s, d, v)" using r by (simp add: decodeCounter_def)
    have "represents t1 (cs0 @ [(name, s, d, v)])"
      using addCounter_represents [OF 1(2), of d s v name] direction_known [OF r(2)] r(5) by (auto split: if_splits)
    moreover have "name # seen = rev (counterNames (cs0 @ [(name, s, d, v)]))" using 1 by (simp add: counterNames_def)
    moreover have "distinct (name # seen)" using 1 r by simp
    ultimately obtain cs where "those (map (decodeCounter E) raws) = Some cs" "represents totals' ((cs0 @ [(name, s, d, v)]) @ cs)"
        "distinct (counterNames ((cs0 @ [(name, s, d, v)]) @ cs))"
      using Cons.IH(1) [OF r(6)] by blast
    then show ?case using dec by simp
  next
    case 2
    from 2(1) obtain x cs1 where x: "decodeCounter E raw = Some x" "cs = x # cs1" "those (map (decodeCounter E) raws) = Some cs1"
      by (auto split: option.splits)
    obtain n s d v where "x = (n, s, d, v)" by (rule prod_cases4)
    with x have dec: "decodeCounter E raw = Some (n, s, d, v)" "cs = (n, s, d, v) # cs1" "those (map (decodeCounter E) raws) = Some cs1"
      by simp_all
    from dec(1) obtain val where r: "strictValue (teRecord E raw) = Some (Some n, val)" "xrayCounterScopeAndDirection n = Some (s, d)"
        "xrayCounterValue E val = Some v"
      by (auto simp: decodeCounter_def split: option.splits prod.splits)
    have n: "n \<notin> set seen" using 2(2) unfolding 2(5) dec(2) by (auto simp: counterNames_def)
    have "counterSum s d (cs0 @ cs) = counterSum s d (cs0 @ [(n, s, d, v)]) + counterSum s d cs1"
      unfolding dec(2) counterSum_def map_append sum_list_append list.map sum_list.Cons sum_list.Nil by (simp only: add.assoc add_0_right)
    moreover have "counterSum s d (cs0 @ [(n, s, d, v)]) = counterSum s d cs0 + unat v" by (simp only: counterSum_snoc) simp
    moreover have "counterSum s d (cs0 @ cs) < 2 ^ 64" using 2(3) by blast
    ultimately have "counterSum s d cs0 + unat v < 2 ^ 64" by linarith
    then obtain t1 where t1: "addCounter s d v totals = Some t1" "represents t1 (cs0 @ [(n, s, d, v)])"
      using addCounter_represents [OF 2(4), of d s v n] direction_known [OF r(2)] by auto
    have all: "(cs0 @ [(n, s, d, v)]) @ cs1 = cs0 @ cs" using dec(2) by simp
    have "xrayTotals E raws (n # seen) t1 \<noteq> None"
    proof (rule Cons.IH(2) [OF dec(3) _ _ t1(2)])
      show "distinct (counterNames ((cs0 @ [(n, s, d, v)]) @ cs1))" unfolding all by (rule 2(2))
      show "\<forall>s' d'. counterSum s' d' ((cs0 @ [(n, s, d, v)]) @ cs1) < 2 ^ 64" unfolding all by (rule 2(3))
      show "n # seen = rev (counterNames (cs0 @ [(n, s, d, v)]))" using 2(5) by (simp add: counterNames_def)
      show "distinct (n # seen)" using 2(6) n by simp
    qed
    then show ?case using r n t1(1) by simp
  }
qed

lemma represents_Nil: "represents [] []"
  by (simp add: represents_def counterScopes_def)

lemma xrayTotals_None_iff:
  "xrayTotals E raws [] [] = Some totals \<Longrightarrow>
     \<exists>cs. those (map (decodeCounter E) raws) = Some cs \<and> represents totals cs \<and> distinct (counterNames cs)"
  "those (map (decodeCounter E) raws) = Some cs \<Longrightarrow> distinct (counterNames cs) \<Longrightarrow> \<forall>s d. counterSum s d cs < 2 ^ 64 \<Longrightarrow>
     xrayTotals E raws [] [] \<noteq> None"
  using xrayTotals_iff [OF represents_Nil, of "[]"] by (simp_all add: counterNames_def)

text \<open>The scope whose totals are reported: the first of the three that has a counter.\<close>

definition reportedScope :: "counter list \<Rightarrow> bytes option" where
  "reportedScope cs = find (\<lambda>s. s \<in> counterScopes cs) [''inbound'', ''outbound'', ''user'']"

definition exact_traffic :: "counter list \<Rightarrow> traffic_telemetry \<Rightarrow> bool" where
  "exact_traffic cs t \<longleftrightarrow> (\<exists>s. reportedScope cs = Some s \<and>
     (\<exists>tx rx. t = traffic_ok tx rx \<and> unat tx = counterSum s ''uplink'' cs \<and> unat rx = counterSum s ''downlink'' cs))"

lemma unat_sum: "n < 2 ^ 64 \<Longrightarrow> unat (word_of_nat n :: uint64) = n"
  by (simp add: unsigned_of_nat take_bit_nat_eq_self)

lemma represents_scope:
  assumes "represents totals cs"
  shows "find (\<lambda>scope. map_of totals scope \<noteq> None) xs = find (\<lambda>s. s \<in> counterScopes cs) xs"
proof -
  have "(map_of totals s \<noteq> None) = (s \<in> counterScopes cs)" for s using assms by (simp add: represents_def)
  then show ?thesis by simp
qed

lemma reported_traffic:
  assumes "represents totals cs" "reportedScope cs = Some s" "scope_total s totals = (up, down)"
  shows "exact_traffic cs (traffic_ok up down)"
proof -
  have "s \<in> counterScopes cs" using find_Some_in assms(2) unfolding reportedScope_def by fast
  then have "up = word_of_nat (counterSum s ''uplink'' cs)" "down = word_of_nat (counterSum s ''downlink'' cs)"
    using assms(1,3) by (simp_all add: represents_def scope_total_def)
  moreover have "counterSum s d cs < 2 ^ 64" for d using assms(1) by (simp only: represents_def)
  ultimately have "unat up = counterSum s ''uplink'' cs" "unat down = counterSum s ''downlink'' cs" by (simp_all only: unat_sum)
  then show ?thesis using assms(2) unfolding exact_traffic_def by blast
qed

lemma reportedScope_Some:
  assumes "those (map (decodeCounter E) raws) = Some cs" "raws \<noteq> []"
  shows "reportedScope cs \<noteq> None"
proof -
  obtain raw rs where "raws = raw # rs" using assms(2) by (cases raws) auto
  with assms(1) obtain n s d v cs' where "decodeCounter E raw = Some (n, s, d, v)" "cs = (n, s, d, v) # cs'"
    by (auto split: option.splits)
  then have "s \<in> counterScopes cs" "s \<in> {''inbound'', ''outbound'', ''user''}"
    using direction_known [of n s d] by (auto simp: counterScopes_def decodeCounter_def split: option.splits prod.splits)
  then show ?thesis by (auto simp: reportedScope_def)
qed

text \<open>C31. The Xray collector computes on unbounded numbers: it answers exactly when the command's output is a non-empty list of well-formed
  counters with distinct names of which no sum reaches 2^64, and the answer is the exact sum of the uplink and the downlink
  counters of the first scope present, inbound before outbound before user, in whatever order the counters come.\<close>

theorem xrayTraffic_exact:
  assumes "teRun E ''xray'' [''api'', ''statsquery'', ''-s'', server, ''-pattern'', ''>>>traffic>>>''] = Inr out"
    and "strictValue (teStats E out) = Some (Some raws)"
  shows "(\<forall>t. xrayTraffic E server = Inr t \<longrightarrow>
      (\<exists>cs. those (map (decodeCounter E) raws) = Some cs \<and> distinct (counterNames cs) \<and> exact_traffic cs t)) \<and>
    ((\<exists>t. xrayTraffic E server = Inr t) \<longleftrightarrow> raws \<noteq> [] \<and>
      (\<exists>cs. those (map (decodeCounter E) raws) = Some cs \<and> distinct (counterNames cs) \<and> (\<forall>s d. counterSum s d cs < 2 ^ 64)))"
proof -
  have run: "xrayTraffic E server = (if raws = [] then Inl invalidTelemetryResponse
      else case xrayTotals E raws [] [] of
        None \<Rightarrow> Inl invalidTelemetryResponse
      | Some totals \<Rightarrow>
          (case find (\<lambda>scope. map_of totals scope \<noteq> None) [''inbound'', ''outbound'', ''user''] of
             None \<Rightarrow> Inl invalidTelemetryResponse
           | Some scope \<Rightarrow> (let (up, down) = scope_total scope totals in Inr (traffic_ok up down))))"
    using assms by (simp add: xrayTraffic_def)
  show ?thesis
  proof (cases "raws = [] \<or> xrayTotals E raws [] [] = None")
    case True
    then have none: "xrayTraffic E server = Inl invalidTelemetryResponse" unfolding run by auto
    have "\<not> (raws \<noteq> [] \<and> (\<exists>cs. those (map (decodeCounter E) raws) = Some cs \<and> distinct (counterNames cs) \<and> (\<forall>s d. counterSum s d cs < 2 ^ 64)))"
      using True xrayTotals_None_iff(2) by blast
    then show ?thesis unfolding none by blast
  next
    case False
    then obtain totals where t: "xrayTotals E raws [] [] = Some totals" "raws \<noteq> []" by blast
    obtain cs where cs: "those (map (decodeCounter E) raws) = Some cs" "represents totals cs" "distinct (counterNames cs)"
      using xrayTotals_None_iff(1) [OF t(1)] by blast
    obtain s where s: "reportedScope cs = Some s" using reportedScope_Some [OF cs(1) t(2)] by blast
    then have f: "find (\<lambda>scope. map_of totals scope \<noteq> None) [''inbound'', ''outbound'', ''user''] = Some s"
      unfolding represents_scope [OF cs(2)] reportedScope_def .
    obtain up down where sc: "scope_total s totals = (up, down)" by (cases "scope_total s totals")
    have r: "xrayTraffic E server = Inr (traffic_ok up down)"
      unfolding run using t by (simp only: f sc option.case if_False Let_def prod.case)
    have "exact_traffic cs (traffic_ok up down)" by (rule reported_traffic [OF cs(2) s sc])
    moreover have "\<forall>s d. counterSum s d cs < 2 ^ 64" using cs(2) unfolding represents_def by blast
    ultimately show ?thesis unfolding r using cs(1,3) t(2) by blast
  qed
qed

subsection \<open>Two counters\<close>

definition sample_stats_env :: tele_env where
  "sample_stats_env = \<lparr>teTraffic = (\<lambda>_ _. NoAnswer True), teOnline = (\<lambda>_ _. NoAnswer True), teClash = (\<lambda>_ _. NoAnswer True),
     teRun = (\<lambda>_ _. Inr ''out''), teStats = (\<lambda>_. JsonDoc (Some [''u'', ''d''])),
     teRecord = (\<lambda>raw. if raw = ''u'' then JsonDoc (Some ''user>>>a>>>traffic>>>uplink'', ''7'')
                       else JsonDoc (Some ''user>>>a>>>traffic>>>downlink'', ''9'')),
     teString = (\<lambda>_. None), teUsers = (\<lambda>_. None), teReadFile = (\<lambda>_. None), teYaml = (\<lambda>_. None)\<rparr>"

lemma sample_counters:
  "those (map (decodeCounter sample_stats_env) [''u'', ''d'']) =
     Some [(''user>>>a>>>traffic>>>uplink'', ''user'', ''uplink'', 7), (''user>>>a>>>traffic>>>downlink'', ''user'', ''downlink'', 9)]"
  by (simp add: decodeCounter_def sample_stats_env_def strictValue_def xrayCounterScopeAndDirection_def xrayCounterValue_def counterNumber_def
      split_sub.simps has_prefix_def trim_space_def is_space_def is_digit_def parse_uint_def digit_value_def Let_def)

theorem xrayTraffic_exact_witness:
  "\<exists>t. xrayTraffic sample_stats_env ''s'' = Inr t \<and> exact_traffic [(''user>>>a>>>traffic>>>uplink'', ''user'', ''uplink'', 7),
     (''user>>>a>>>traffic>>>downlink'', ''user'', ''downlink'', 9)] t"
proof -
  let ?cs = "[(''user>>>a>>>traffic>>>uplink'', ''user'', ''uplink'', 7), (''user>>>a>>>traffic>>>downlink'', ''user'', ''downlink'', 9)] :: counter list"
  have "counterSum s d ?cs \<le> 7 + 9" for s d by (simp add: counterSum_def)
  then have "counterSum s d ?cs < 2 ^ 64" for s d by (rule le_less_trans) simp
  then have "\<forall>s d. counterSum s d ?cs < 2 ^ 64" by blast
  moreover have "distinct (counterNames ?cs)" by (simp add: counterNames_def)
  ultimately have ex: "\<exists>t. xrayTraffic sample_stats_env ''s'' = Inr t"
    using xrayTraffic_exact [of sample_stats_env "''s''" "''out''" "[''u'', ''d'']"] sample_counters
    by (simp add: sample_stats_env_def strictValue_def)
  then show ?thesis
    using xrayTraffic_exact [of sample_stats_env "''s''" "''out''" "[''u'', ''d'']"] sample_counters
    by (auto simp: sample_stats_env_def strictValue_def)
qed

subsection \<open>Hysteria2 answers in any order\<close>

lemma sumTraffic_sum:
  "sumTraffic l tx rx = (if list_all (\<lambda>(_, t, r). t \<noteq> None \<and> r \<noteq> None) l
     then Some (tx + sum_list (map (\<lambda>(_, t, r). the t) l), rx + sum_list (map (\<lambda>(_, t, r). the r) l)) else None)"
  by (induction l tx rx rule: sumTraffic.induct) (simp_all add: algebra_simps)

lemma sumOnline_sum:
  "sumOnline l n = (if list_all (\<lambda>(_, v). v \<noteq> None) l then Some (n + sum_list (map (\<lambda>(_, v). the v) l)) else None)"
  by (induction l n rule: sumOnline.induct) (simp_all add: algebra_simps)

theorem hysteria2_any_order:
  assumes "mset l = mset l'" "mset k = mset k'"
  shows "sumTraffic l tx rx = sumTraffic l' tx rx \<and> sumOnline k n = sumOnline k' n"
proof -
  have "set l = set l'" "set k = set k'" using assms by (metis set_mset_mset)+
  moreover have "sum_list (map f l) = sum_list (map f l')" for f :: "_ \<Rightarrow> uint64"
    using assms(1) by (metis mset_map sum_mset_sum_list)
  moreover have "sum_list (map f k) = sum_list (map f k')" for f :: "_ \<Rightarrow> uint64"
    using assms(2) by (metis mset_map sum_mset_sum_list)
  ultimately show ?thesis by (simp add: sumTraffic_sum sumOnline_sum list_all_iff)
qed

theorem hysteria2_any_order_witness:
  "sumTraffic [(''a'', Some 1, Some 2), (''b'', Some 3, Some 4)] 0 0 = sumTraffic [(''b'', Some 3, Some 4), (''a'', Some 1, Some 2)] 0 0"
  using hysteria2_any_order [of "[(''a'', Some 1, Some 2), (''b'', Some 3, Some 4)]" "[(''b'', Some 3, Some 4), (''a'', Some 1, Some 2)]" "[]" "[]" 0 0]
  by simp

end
