(* ===== verification/DetectUnits.thy ===== *)
theory DetectUnits
  imports DetectStats
begin

text \<open>
  \<open>internal/detect\<close> without the statistics: \<open>systemd.go\<close>, \<open>template.go\<close>, \<open>builtin.go\<close>, \<open>capabilities.go\<close>,
  \<open>ports.go\<close>, \<open>protocols.go\<close>, \<open>version.go\<close> and \<open>cert.go\<close>: what the Agent reads from systemd, from the kernel and from the files of a
  service. A command gives its output or \<open>None\<close>, a regular expression is the set of strings it matches.
\<close>

type_synonym runner = "bytes \<Rightarrow> bytes list \<Rightarrow> bytes option"

definition lines :: "bytes \<Rightarrow> bytes list" where
  "lines s = split_char (CHR 0x0A) s"

subsection \<open>Units\<close>

record unit_info =
  uiName :: bytes
  uiActive :: bool
  uiEnabled :: bool
  uiMainPID :: int
  uiNRestarts :: int
  uiExecStart :: bytes
  uiExecArgs :: "bytes list"

definition ListUnitNames :: "runner \<Rightarrow> bytes list option" where
  "ListUnitNames R =
     (case R ''systemctl'' [''list-unit-files'', ''--type=service'', ''--no-legend'', ''--no-pager''] of
        None \<Rightarrow> None
      | Some out \<Rightarrow> Some (concat (map (\<lambda>line. case GoStrings.fields line of [] \<Rightarrow> [] | f # _ \<Rightarrow> [f]) (lines out))))"

definition parseExecStart :: "bytes \<Rightarrow> bytes \<times> bytes list" where
  "parseExecStart v =
     (let path = (case index_sub v ''path='' of
            None \<Rightarrow> []
          | Some i \<Rightarrow> let rest = drop (i + 5) v in (case index_any rest '' ;'' of None \<Rightarrow> rest | Some j \<Rightarrow> take j rest))
      in case index_sub v ''argv[]='' of
           Some i \<Rightarrow>
             let rest = drop (i + 7) v;
                 rest = (case index_sub rest '' ;'' of None \<Rightarrow> rest | Some j \<Rightarrow> take j rest)
             in (path, GoStrings.fields rest)
         | None \<Rightarrow> (if path = [] then v else path, []))"

definition unitProperty :: "bytes \<Rightarrow> unit_info \<Rightarrow> unit_info" where
  "unitProperty line u =
     (case cut_char (CHR ''='') line of
        None \<Rightarrow> u
      | Some (k, v) \<Rightarrow>
          if k = ''ActiveState'' then u\<lparr>uiActive := (v = ''active'')\<rparr>
          else if k = ''UnitFileState'' then u\<lparr>uiEnabled := (v = ''enabled'')\<rparr>
          else if k = ''MainPID'' then u\<lparr>uiMainPID := fst (atoi v)\<rparr>
          else if k = ''NRestarts'' then u\<lparr>uiNRestarts := fst (atoi v)\<rparr>
          else if k = ''ExecStart'' then (let (path, args) = parseExecStart v in u\<lparr>uiExecStart := path, uiExecArgs := args\<rparr>)
          else u)"

definition ShowUnit :: "runner \<Rightarrow> bytes \<Rightarrow> unit_info option" where
  "ShowUnit R name =
     (case R ''systemctl'' [''show'', name, ''--property=ActiveState,SubState,UnitFileState,NRestarts,MainPID,ExecStart''] of
        None \<Rightarrow> None
      | Some out \<Rightarrow> Some (foldl (\<lambda>u line. unitProperty line u)
          \<lparr>uiName = name, uiActive = False, uiEnabled = False, uiMainPID = 0, uiNRestarts = 0, uiExecStart = [], uiExecArgs = []\<rparr> (lines out)))"

definition parseVersion :: "bytes \<Rightarrow> bytes" where
  "parseVersion out =
     (let out = trim_space out in
      case find (\<lambda>line. has_prefix line ''Version:'') (map trim_space (lines out)) of
        Some line \<Rightarrow> trim_space (trim_prefix line ''Version:'')
      | None \<Rightarrow> out)"

definition serviceVersion :: "runner \<Rightarrow> bytes \<Rightarrow> bytes list \<Rightarrow> bytes option" where
  "serviceVersion R binary args = map_option parseVersion (R binary args)"

subsection \<open>Templates\<close>

record service_template =
  tmID :: bytes
  tmName :: bytes
  tmUnits :: "bytes list"
  tmBinaryPatterns :: "bytes list"
  tmVersionCmd :: "bytes list"
  tmTransport :: "bytes list"
  tmCertPaths :: "bytes list"
  tmListenPorts :: "nat list"
  tmStatsKind :: bytes
  tmStatsConfigPaths :: "bytes list"
  tmUnitRe :: "(bytes \<Rightarrow> bool) list"
  tmBinRe :: "(bytes \<Rightarrow> bool) list"

fun compileAll :: "(bytes \<Rightarrow> (bytes \<Rightarrow> bool) option) \<Rightarrow> bytes list \<Rightarrow> (bytes \<Rightarrow> bool) list option" where
  "compileAll re [] = Some []"
| "compileAll re (p # ps) =
     (case re p of None \<Rightarrow> None | Some m \<Rightarrow> (case compileAll re ps of None \<Rightarrow> None | Some ms \<Rightarrow> Some (m # ms)))"

definition Compile :: "(bytes \<Rightarrow> (bytes \<Rightarrow> bool) option) \<Rightarrow> service_template \<Rightarrow> service_template option" where
  "Compile re t =
     (case compileAll re (map (\<lambda>p. ''^'' @ p @ ''$'') (tmUnits t)) of
        None \<Rightarrow> None
      | Some us \<Rightarrow>
          (case compileAll re (tmBinaryPatterns t) of
             None \<Rightarrow> None
           | Some bs \<Rightarrow> Some (t\<lparr>tmUnitRe := tmUnitRe t @ us, tmBinRe := tmBinRe t @ bs\<rparr>)))"

definition MatchUnit :: "service_template \<Rightarrow> bytes \<Rightarrow> bool" where
  "MatchUnit t u \<longleftrightarrow> list_ex (\<lambda>re. re u) (tmUnitRe t)"

definition MatchBinary :: "service_template \<Rightarrow> bytes \<Rightarrow> bool" where
  "MatchBinary t path \<longleftrightarrow> list_ex (\<lambda>re. re path) (tmBinRe t)"

fun NewRegistry :: "(bytes \<Rightarrow> (bytes \<Rightarrow> bool) option) \<Rightarrow> service_template list \<Rightarrow> service_template list option" where
  "NewRegistry re [] = Some []"
| "NewRegistry re (t # ts) =
     (case Compile re t of None \<Rightarrow> None | Some t \<Rightarrow> (case NewRegistry re ts of None \<Rightarrow> None | Some ts \<Rightarrow> Some (t # ts)))"

definition FindUnit :: "service_template list \<Rightarrow> bytes \<Rightarrow> service_template option" where
  "FindUnit reg u = find (\<lambda>t. MatchUnit t u) reg"

definition FindBinary :: "service_template list \<Rightarrow> bytes \<Rightarrow> service_template option" where
  "FindBinary reg path = find (\<lambda>t. MatchBinary t path) reg"

text \<open>A directory of templates: its entries with whether they are directories, the contents of the files, and the YAML decoder. A missing
  directory of custom templates is an empty one.\<close>

datatype template_dir = DirMissing | DirUnreadable | DirEntries "(bytes \<times> bool \<times> bytes option) list"

fun loadTemplates :: "(bytes \<Rightarrow> service_template option) \<Rightarrow> (bytes \<times> bool \<times> bytes option) list \<Rightarrow> service_template list option" where
  "loadTemplates yaml [] = Some []"
| "loadTemplates yaml ((name, isDir, content) # es) =
     (if isDir \<or> \<not> has_suffix name ''.yaml'' then loadTemplates yaml es
      else case content of
        None \<Rightarrow> None
      | Some b \<Rightarrow>
          (case yaml b of
             None \<Rightarrow> None
           | Some t \<Rightarrow> (case loadTemplates yaml es of None \<Rightarrow> None | Some ts \<Rightarrow> Some (t # ts))))"

fun Builtin :: "(bytes \<Rightarrow> service_template option) \<Rightarrow> template_dir \<Rightarrow> service_template list option" where
  "Builtin yaml (DirEntries es) = loadTemplates yaml es"
| "Builtin yaml _ = None"

fun LoadCustom :: "(bytes \<Rightarrow> service_template option) \<Rightarrow> template_dir \<Rightarrow> service_template list option" where
  "LoadCustom yaml DirMissing = Some []"
| "LoadCustom yaml DirUnreadable = None"
| "LoadCustom yaml (DirEntries es) = loadTemplates yaml es"

definition supported :: metric_capability where
  "supported = \<lparr>mcSupport = CapabilitySupported, mcSource = ''native_api'', mcReason = []\<rparr>"

definition unsupported :: "bytes \<Rightarrow> metric_capability" where
  "unsupported reason = \<lparr>mcSupport = CapabilityUnsupported, mcSource = [], mcReason = reason\<rparr>"

definition serviceCapabilities :: "(bytes \<times> service_capabilities) list" where
  "serviceCapabilities =
     [(''hysteria2'', \<lparr>scTraffic = supported, scOnlineClients = supported\<rparr>),
      (''xray'', \<lparr>scTraffic = supported, scOnlineClients = supported\<rparr>),
      (''sing-box'', \<lparr>scTraffic = supported, scOnlineClients = unsupported ''native_api_unavailable''\<rparr>),
      (''anytls'', \<lparr>scTraffic = unsupported ''native_api_unavailable'', scOnlineClients = unsupported ''native_api_unavailable''\<rparr>),
      (''v2ray'', \<lparr>scTraffic = unsupported ''collector_not_implemented'', scOnlineClients = unsupported ''collector_not_implemented''\<rparr>),
      (''shadowsocks'', \<lparr>scTraffic = unsupported ''collector_not_implemented'', scOnlineClients = unsupported ''collector_not_implemented''\<rparr>),
      (''trojan'', \<lparr>scTraffic = unsupported ''collector_not_implemented'', scOnlineClients = unsupported ''collector_not_implemented''\<rparr>),
      (''tuic'', \<lparr>scTraffic = unsupported ''collector_not_implemented'', scOnlineClients = unsupported ''collector_not_implemented''\<rparr>)]"

definition CapabilitiesFor :: "bytes \<Rightarrow> service_capabilities" where
  "CapabilitiesFor serviceType =
     (case map_of serviceCapabilities serviceType of
        Some c \<Rightarrow> c
      | None \<Rightarrow> \<lparr>scTraffic = \<lparr>mcSupport = CapabilityUnknown, mcSource = [], mcReason = []\<rparr>,
                 scOnlineClients = \<lparr>mcSupport = CapabilityUnknown, mcSource = [], mcReason = []\<rparr>\<rparr>)"

subsection \<open>Sockets\<close>

record socket =
  soProto :: bytes
  soState :: bytes
  soAddr :: bytes
  soPort :: nat
  soInode :: nat

record listen =
  liProto :: bytes
  liAddr :: bytes
  liPort :: nat

fun hexPairs :: "bytes \<Rightarrow> bytes list" where
  "hexPairs (a # b # s) = dec_digits (fst (parse_uint [a, b] 16 8)) # hexPairs s"
| "hexPairs _ = []"

definition hexIP :: "bytes \<Rightarrow> bytes" where
  "hexIP hex =
     (if length hex = 8 then join ''.'' (hexPairs hex)
      else if length hex = 32 \<and> list_all (\<lambda>c. c = CHR ''0'') hex then ''::''
      else hex)"

definition splitAddrPort :: "bytes \<Rightarrow> (bytes \<times> nat) option" where
  "splitAddrPort s =
     (case cut_char (CHR '':'') s of
        None \<Rightarrow> None
      | Some (ipHex, portHex) \<Rightarrow> (case parse_uint portHex 16 16 of (n, None) \<Rightarrow> Some (hexIP ipHex, n) | (_, Some _) \<Rightarrow> None))"

definition parseProcLine :: "bytes \<Rightarrow> bytes \<Rightarrow> socket list" where
  "parseProcLine proto line =
     (let f = GoStrings.fields line in
      if length f < 10 \<or> f ! 0 = ''sl'' then []
      else case splitAddrPort (f ! 1) of
        None \<Rightarrow> []
      | Some (addr, port) \<Rightarrow> [\<lparr>soProto = proto, soState = f ! 3, soAddr = addr, soPort = port, soInode = fst (parse_uint (f ! 9) 10 64)\<rparr>])"

definition ParseProcSockets :: "bytes \<Rightarrow> bytes \<Rightarrow> bytes \<Rightarrow> bytes \<Rightarrow> socket list" where
  "ParseProcSockets tcp4 tcp6 udp4 udp6 =
     concat (map (\<lambda>(proto, data). concat (map (parseProcLine proto) (lines data)))
       [(''tcp'', tcp4), (''tcp'', tcp6), (''udp'', udp4), (''udp'', udp6)])"

text \<open>The links below \<open>/proc/<pid>/fd\<close>, \<open>None\<close> when the directory or a link cannot be read.\<close>

definition socketInode :: "bytes \<Rightarrow> nat option" where
  "socketInode target =
     (if has_prefix target ''socket:['' \<and> has_suffix target '']''
      then (case parse_uint (take (length target - 1 - 8) (drop 8 target)) 10 64 of (n, None) \<Rightarrow> Some n | (_, Some _) \<Rightarrow> None)
      else None)"

definition pidInodes :: "bytes option list option \<Rightarrow> nat list" where
  "pidInodes fd =
     (case fd of
        None \<Rightarrow> []
      | Some links \<Rightarrow> List.map_filter (\<lambda>l. case l of None \<Rightarrow> None | Some target \<Rightarrow> socketInode target) links)"

definition ListenForPID :: "bytes option list option \<Rightarrow> socket list \<Rightarrow> listen list" where
  "ListenForPID fd socks =
     (let inodes = pidInodes fd in
      map (\<lambda>s. \<lparr>liProto = soProto s, liAddr = soAddr s, liPort = soPort s\<rparr>)
        (filter (\<lambda>s. soInode s \<in> set inodes \<and> \<not> (soProto s = ''tcp'' \<and> soState s \<noteq> ''0A'')) socks))"

definition splitSSAddrPort :: "bytes \<Rightarrow> bytes \<times> nat" where
  "splitSSAddrPort loc =
     (let loc = (if has_prefix loc ''['' then
                   (case index_sub loc '']'' of Some i \<Rightarrow> if 0 < i then take (i - 1) (drop 1 loc) @ drop (i + 1) loc else loc | None \<Rightarrow> loc)
                 else loc)
      in case last_index_char (CHR '':'') loc of
           None \<Rightarrow> ([], 0)
         | Some idx \<Rightarrow>
             (case parse_uint (drop (idx + 1) loc) 10 16 of
                (_, Some _) \<Rightarrow> ([], 0)
              | (port, None) \<Rightarrow> (if take idx loc = ''*'' then ''0.0.0.0'' else take idx loc, port)))"

definition int_digits :: "int \<Rightarrow> bytes" where
  "int_digits i = (if i < 0 then ''-'' @ dec_digits (nat (- i)) else dec_digits (nat i))"

definition ssLine :: "bytes \<Rightarrow> bytes \<Rightarrow> bytes \<Rightarrow> listen list" where
  "ssLine proto want line =
     (if \<not> contains_sub line want then []
      else
        let f = GoStrings.fields line in
        if length f < 4 then []
        else (let (addr, port) = splitSSAddrPort (f ! 3) in
              if port = 0 then [] else [\<lparr>liProto = proto, liAddr = addr, liPort = port\<rparr>]))"

definition ListenForPIDFromSS :: "runner \<Rightarrow> int \<Rightarrow> listen list" where
  "ListenForPIDFromSS R pid =
     (let want = ''pid='' @ int_digits pid in
      concat (map (\<lambda>(proto, arg). case R ''ss'' [arg] of None \<Rightarrow> [] | Some out \<Rightarrow> concat (map (ssLine proto want) (lines out)))
        [(''tcp'', ''-lntp''), (''udp'', ''-lnup'')]))"

subsection \<open>Certificates\<close>

record cert_info =
  ciNotAfter :: bytes
  ciDaysLeft :: int

text \<open>The decoder gives the end of validity in nanoseconds and its text. \<open>math.Round\<close> rounds half away from zero.\<close>

definition round_days :: "int \<Rightarrow> int" where
  "round_days ns = (let d = 24 * hour in if 0 \<le> ns then (2 * ns + d) div (2 * d) else - ((2 * (- ns) + d) div (2 * d)))"

definition CertInfo :: "(bytes \<Rightarrow> bytes option) \<Rightarrow> (bytes \<Rightarrow> (int \<times> bytes) option) \<Rightarrow> int \<Rightarrow> bytes \<Rightarrow> cert_info option" where
  "CertInfo readFile parseCert now path =
     (case readFile path of
        None \<Rightarrow> None
      | Some b \<Rightarrow>
          (case parseCert b of
             None \<Rightarrow> None
           | Some (notAfter, formatted) \<Rightarrow> Some \<lparr>ciNotAfter = formatted, ciDaysLeft = round_days (notAfter - now)\<rparr>))"

subsection \<open>Protocols\<close>

record protocol_info =
  piState :: bytes
  piItems :: "bytes list"
  piSource :: bytes

datatype stat_result = StatMissing | StatFailed | StatRegular | StatDirectory "(bytes \<times> bool \<times> bool option) list option" | StatOther

text \<open>A directory lists its entries by name, with whether they are directories and regular files (\<open>None\<close>: no information). The decoder
  gives the members of every inbound that are strings.\<close>

record protocol_env =
  peStat :: "bytes \<Rightarrow> stat_result"
  peRead :: "bytes \<Rightarrow> bytes option"
  peYaml :: "bytes \<Rightarrow> (bytes \<times> bytes) list list option"
  peJoin :: "bytes \<Rightarrow> bytes \<Rightarrow> bytes"
  peExt :: "bytes \<Rightarrow> bytes"

definition protocolDiscoverySpec :: "bytes \<Rightarrow> (bytes \<times> bytes list) option" where
  "protocolDiscoverySpec serviceType =
     (if serviceType = ''xray'' then Some (''protocol'', [''-config'', ''-c'', ''-confdir''])
      else if serviceType = ''sing-box'' then Some (''type'', [''-c'', ''--config'', ''-C'', ''--config-directory''])
      else None)"

fun flagPath :: "bytes \<Rightarrow> bytes list \<Rightarrow> bytes list \<Rightarrow> bytes list" where
  "flagPath arg following [] = []"
| "flagPath arg following (flag # flags) =
     (if arg = flag \<and> following \<noteq> [] then [hd following]
      else case cut_prefix arg (flag @ ''='') of
        Some v \<Rightarrow> if v \<noteq> [] then [v] else flagPath arg following flags
      | None \<Rightarrow> flagPath arg following flags)"

fun configPathsFromArgs :: "bytes list \<Rightarrow> bytes list \<Rightarrow> bytes list" where
  "configPathsFromArgs [] flags = []"
| "configPathsFromArgs (arg # args) flags = flagPath arg args flags @ configPathsFromArgs args flags"

definition isConfigExtension :: "protocol_env \<Rightarrow> bytes \<Rightarrow> bool" where
  "isConfigExtension E name \<longleftrightarrow> to_lower (peExt E name) \<in> {''.json'', ''.yaml'', ''.yml''}"

fun configEntries :: "protocol_env \<Rightarrow> bytes \<Rightarrow> (bytes \<times> bool \<times> bool option) list \<Rightarrow> bytes list option" where
  "configEntries E path [] = Some []"
| "configEntries E path ((name, isDir, info) # es) =
     (if isDir \<or> \<not> isConfigExtension E name then configEntries E path es
      else case info of
        None \<Rightarrow> None
      | Some regular \<Rightarrow>
          (case configEntries E path es of
             None \<Rightarrow> None
           | Some fs \<Rightarrow> Some (if regular then peJoin E path name # fs else fs)))"

text \<open>\<open>Inl True\<close> is the error of a path that does not exist.\<close>

definition protocolConfigFiles :: "protocol_env \<Rightarrow> bytes \<Rightarrow> bool + bytes list" where
  "protocolConfigFiles E path =
     (case peStat E path of
        StatMissing \<Rightarrow> Inl True
      | StatFailed \<Rightarrow> Inl False
      | StatRegular \<Rightarrow> Inr [path]
      | StatOther \<Rightarrow> Inl False
      | StatDirectory None \<Rightarrow> Inl False
      | StatDirectory (Some es) \<Rightarrow> (case configEntries E path es of None \<Rightarrow> Inl False | Some fs \<Rightarrow> Inr (sort fs)))"

definition vlessInbound :: "bytes \<Rightarrow> (bytes \<times> bytes) list \<Rightarrow> bool" where
  "vlessInbound key inbound \<longleftrightarrow> (case map_of inbound key of None \<Rightarrow> False | Some v \<Rightarrow> to_lower v = ''vless'')"

text \<open>The files of one path: whether one of them has a VLESS inbound, \<open>None\<close> on an error.\<close>

fun readConfigs :: "protocol_env \<Rightarrow> bytes \<Rightarrow> bytes list \<Rightarrow> bool option" where
  "readConfigs E key [] = Some False"
| "readConfigs E key (f # fs) =
     (case peRead E f of
        None \<Rightarrow> None
      | Some b \<Rightarrow>
          (case peYaml E b of
             None \<Rightarrow> None
           | Some inbounds \<Rightarrow>
               (case readConfigs E key fs of None \<Rightarrow> None | Some v \<Rightarrow> Some (list_ex (vlessInbound key) inbounds \<or> v))))"

text \<open>All paths: \<open>None\<close> on an error, else whether a file was read and whether VLESS was found.\<close>

fun scanPaths :: "protocol_env \<Rightarrow> bytes \<Rightarrow> bool \<Rightarrow> bytes list \<Rightarrow> bool \<Rightarrow> bool \<Rightarrow> (bool \<times> bool) option" where
  "scanPaths E key explicit [] readAny vless = Some (readAny, vless)"
| "scanPaths E key explicit (p # ps) readAny vless =
     (case protocolConfigFiles E p of
        Inl missing \<Rightarrow> if \<not> explicit \<and> missing then scanPaths E key explicit ps readAny vless else None
      | Inr fs \<Rightarrow>
          (case readConfigs E key fs of
             None \<Rightarrow> None
           | Some v \<Rightarrow> scanPaths E key explicit ps (readAny \<or> fs \<noteq> []) (vless \<or> v)))"

definition DiscoverProtocols :: "protocol_env \<Rightarrow> bytes \<Rightarrow> bytes list \<Rightarrow> bytes list \<Rightarrow> protocol_info" where
  "DiscoverProtocols E serviceType execArgs fallbackPaths =
     (case protocolDiscoverySpec serviceType of
        None \<Rightarrow> \<lparr>piState = ''unknown'', piItems = [], piSource = []\<rparr>
      | Some (key, flags) \<Rightarrow>
          let paths = configPathsFromArgs execArgs flags;
              explicit = (paths \<noteq> []);
              paths = (if explicit then paths else fallbackPaths)
          in case scanPaths E key explicit (rev (remdups (rev paths))) False False of
               None \<Rightarrow> \<lparr>piState = ''error'', piItems = [], piSource = []\<rparr>
             | Some (False, _) \<Rightarrow> \<lparr>piState = ''unknown'', piItems = [], piSource = []\<rparr>
             | Some (True, vless) \<Rightarrow> \<lparr>piState = ''ok'', piItems = (if vless then [''vless''] else []), piSource = ''config''\<rparr>)"

subsection \<open>Addresses of the kernel\<close>

text \<open>\<open>/proc/net/tcp\<close> prints an IPv4 address as the number that its four bytes are in memory; on a little-endian machine the last byte
  comes first.\<close>

definition upper_hex :: "nat \<Rightarrow> char" where
  "upper_hex d = (if d < 10 then char_of (d + 48) else char_of (d + 55))"

definition kernel_hex :: "nat list \<Rightarrow> bytes" where
  "kernel_hex ip = concat (map (\<lambda>b. [upper_hex (b div 16), upper_hex (b mod 16)]) (rev ip))"

definition dotted :: "nat list \<Rightarrow> bytes" where
  "dotted ip = join ''.'' (map dec_digits ip)"

lemma digit_value_upper [simp]: "d < 16 \<Longrightarrow> digit_value (upper_hex d) = Some d"
  by (auto simp: upper_hex_def digit_value_def Let_def)

lemma parse_hex_pair: "b < 256 \<Longrightarrow> parse_uint [upper_hex (b div 16), upper_hex (b mod 16)] 16 8 = (b, None)"
proof -
  assume "b < 256"
  then have "b div 16 < 16" "b mod 16 < 16" by simp_all
  then show ?thesis by (simp add: parse_uint_def not_le [symmetric])
qed

lemma hexPairs_kernel:
  "\<forall>b\<in>set ip. b < 256 \<Longrightarrow> hexPairs (concat (map (\<lambda>b. [upper_hex (b div 16), upper_hex (b mod 16)]) ip)) = map dec_digits ip"
  by (induction ip) (simp_all add: parse_hex_pair)

lemma dotted_inject:
  assumes "dotted a = dotted b" "a \<noteq> []" "b \<noteq> []"
  shows "a = b"
proof -
  have "split_char (CHR ''.'') (dotted x) = map dec_digits x" if "x \<noteq> []" for x
    unfolding dotted_def using that dec_digits_no_dot by (intro split_join) auto
  then have "map dec_digits a = map dec_digits b" using assms by metis
  then show ?thesis by (rule map_injective) (auto intro: injI)
qed

text \<open>The parser reads the bytes of an IPv4 address of \<open>/proc/net/tcp\<close> in the order in which they are printed: it reports every
  address backwards, so that a listener on a.b.c.d is reported right only when d.c.b.a is the same address.\<close>

theorem proc_addresses_are_reversed:
  assumes "length ip = 4" "\<forall>b\<in>set ip. b < 256"
  shows "hexIP (kernel_hex ip) = dotted (rev ip) \<and> (hexIP (kernel_hex ip) = dotted ip \<longleftrightarrow> rev ip = ip)"
proof -
  have "length (kernel_hex ip) = 8"
    unfolding kernel_hex_def length_concat map_map comp_def using assms(1) by (simp add: sum_list_triv)
  then have "hexIP (kernel_hex ip) = dotted (rev ip)"
    using hexPairs_kernel [of "rev ip"] assms(2) by (simp add: hexIP_def dotted_def kernel_hex_def)
  moreover have "dotted (rev ip) = dotted ip \<longleftrightarrow> rev ip = ip"
    using dotted_inject [of "rev ip" ip] assms(1) by auto
  ultimately show ?thesis by simp
qed

theorem proc_addresses_are_reversed_witness: "hexIP (kernel_hex [127, 0, 0, 1]) \<noteq> dotted [127, 0, 0, 1]"
proof -
  have "hexIP (kernel_hex [127, 0, 0, 1]) = dotted [127, 0, 0, 1] \<longleftrightarrow> rev [127, 0, 0, 1 :: nat] = [127, 0, 0, 1]"
    by (rule proc_addresses_are_reversed [THEN conjunct2]) simp_all
  then show ?thesis by simp
qed

subsection \<open>Sockets of other processes\<close>

lemma has_prefix_append: "has_prefix s (p @ q) \<Longrightarrow> has_prefix s p"
proof -
  assume h: "has_prefix s (p @ q)"
  have "take (length p) s = take (length p) (take (length (p @ q)) s)" by (simp add: min_def)
  also have "\<dots> = p" using h by (simp only: has_prefix_def) simp
  finally show ?thesis by (simp only: has_prefix_def)
qed

lemma index_sub_prefix: "index_sub s (p @ q) \<noteq> None \<Longrightarrow> index_sub s p \<noteq> None"
  by (induction s) (auto dest: has_prefix_append split: if_splits)

lemma longer_pid: "0 < pid \<Longrightarrow> d < 10 \<Longrightarrow> int_digits (10 * pid + int d) = int_digits pid @ [char_of (d + 48)]"
proof -
  assume a: "0 < pid" "d < 10"
  have "nat (10 * pid + int d) = 10 * nat pid + d" using a by (simp add: nat_add_distrib nat_mult_distrib)
  moreover have "\<not> 10 * nat pid + d < 10" using a by simp
  ultimately have "dec_digits (nat (10 * pid + int d)) = dec_digits (nat pid) @ [char_of (d + 48)]"
    using a by (subst dec_digits.simps) simp
  then show ?thesis using a by (simp add: int_digits_def)
qed

lemma ssLine_longer:
  assumes "0 < pid" "d < 10"
  shows "set (ssLine proto (''pid='' @ int_digits (10 * pid + int d)) line) \<subseteq> set (ssLine proto (''pid='' @ int_digits pid) line)"
proof (cases "contains_sub line (''pid='' @ int_digits (10 * pid + int d))")
  case True
  then have "contains_sub line (''pid='' @ int_digits pid)"
    unfolding contains_sub_def longer_pid [OF assms] append_assoc [symmetric] by (rule index_sub_prefix)
  with True show ?thesis by (simp add: ssLine_def)
qed (simp add: ssLine_def)

lemma concat_map_mono: "(\<And>x. set (f x) \<subseteq> set (g x)) \<Longrightarrow> set (concat (map f ls)) \<subseteq> set (concat (map g ls))"
  by (induction ls) auto

text \<open>When the kernel's table gives nothing, the listeners come from the output of \<open>ss\<close>, where the process is searched as a
  substring: the listeners of every process whose number continues that of the service are reported as the service's own.\<close>

theorem ss_reports_foreign_listeners:
  assumes "0 < pid" "d < 10"
  shows "set (ListenForPIDFromSS R (10 * pid + int d)) \<subseteq> set (ListenForPIDFromSS R pid)"
proof -
  have "set (concat (map (ssLine proto (''pid='' @ int_digits (10 * pid + int d))) ls)) \<subseteq>
      set (concat (map (ssLine proto (''pid='' @ int_digits pid)) ls))" for proto ls
    by (rule concat_map_mono [OF ssLine_longer [OF assms]])
  note step = this
  show ?thesis unfolding ListenForPIDFromSS_def Let_def
  proof (rule concat_map_mono, goal_cases)
    case (1 x)
    obtain proto arg where x: "x = (proto, arg)" by (cases x)
    show ?case using step [of proto] by (cases "R ''ss'' [arg]") (simp_all only: x prod.case option.case)
  qed
qed

definition sample_ss :: runner where
  "sample_ss name args = (if name = ''ss'' \<and> args = [''-lntp''] then Some ''LISTEN 0 128 *:80 *:* pid=123'' else None)"

lemma sample_ss_digits: "int_digits 123 = ''123''"
  by code_simp

theorem ss_reports_foreign_listeners_witness:
  "\<lparr>liProto = ''tcp'', liAddr = ''0.0.0.0'', liPort = 80\<rparr> \<in> set (ListenForPIDFromSS sample_ss 12)"
proof -
  have "\<lparr>liProto = ''tcp'', liAddr = ''0.0.0.0'', liPort = 80\<rparr> \<in> set (ListenForPIDFromSS sample_ss 123)"
    by (simp add: ListenForPIDFromSS_def sample_ss_def sample_ss_digits lines_def split_char_def ssLine_def contains_sub_def
        has_prefix_def GoStrings.fields_def is_space_def splitSSAddrPort_def parse_uint_def digit_value_def Let_def)
  then show ?thesis using ss_reports_foreign_listeners [of 12 3 sample_ss] by auto
qed

end
