(* ===== verification/Detect.thy ===== *)
theory Detect
  imports DetectUnits Runtime Egress Complex_Main
begin

text \<open>
  \<open>internal/detect/detect.go\<close>, \<open>internal/collect/host.go\<close> and \<open>Build\<close> of \<open>internal/agent/run.go\<close>: one report of the Agent, the
  services of the host with their status, the state of the host and its public addresses. A finite \<open>float64\<close> is the real number it
  denotes; parsing, division and printing of floats are parameters, as are the files of the kernel and the network interfaces. The log
  lines of a collection are not modelled.
\<close>

subsection \<open>Services\<close>

record report_service =
  rsType :: bytes
  rsRuntime :: bytes
  rsUnit :: bytes
  rsBinary :: bytes
  rsVersion :: bytes
  rsActive :: bool
  rsEnabled :: bool
  rsMainPID :: int
  rsNRestarts :: int
  rsListen :: "listen list"
  rsListenOK :: bool
  rsCert :: "cert_info option"
  rsStats :: "legacy_stats option"
  rsProtocols :: "protocol_info option"
  rsCapabilities :: "service_capabilities option"
  rsTelemetry :: "service_telemetry option"
  rsStatus :: bytes
  rsError :: bytes

record detect_env =
  deRunner :: runner
  deTele :: tele_env
  deProto :: protocol_env
  deNet :: "bytes \<Rightarrow> bytes"
  deLinks :: "int \<Rightarrow> bytes option list option"
  deReadFile :: "bytes \<Rightarrow> bytes option"
  deParseCert :: "bytes \<Rightarrow> (int \<times> bytes) option"
  deNow :: int

definition certWarnDays :: int where "certWarnDays = 30"

definition statsDisabled :: "service_template \<Rightarrow> (bytes \<times> stats_service) list \<Rightarrow> bool" where
  "statsDisabled t cfg = (case map_of cfg (tmStatsKind t) of None \<Rightarrow> False | Some s \<Rightarrow> svEnabled s = Some False)"

definition telemetryWithState :: "service_capabilities \<Rightarrow> observation_state \<Rightarrow> service_telemetry" where
  "telemetryWithState c state =
     \<lparr>stTraffic = (if mcSupport (scTraffic c) = CapabilitySupported
                   then Some \<lparr>ttState = state, ttTxBytes = None, ttRxBytes = None, ttErrorCode = []\<rparr> else None),
      stOnlineClients = (if mcSupport (scOnlineClients c) = CapabilitySupported
                         then Some \<lparr>ctState = state, ctValue = None, ctErrorCode = []\<rparr> else None)\<rparr>"

definition disabledTelemetry :: "service_capabilities \<Rightarrow> service_telemetry" where
  "disabledTelemetry c = telemetryWithState c ObservationDisabled"

definition notConfiguredTelemetry :: "service_capabilities \<Rightarrow> service_telemetry" where
  "notConfiguredTelemetry c = telemetryWithState c ObservationNotConfigured"

definition commandFailedTelemetry :: "service_capabilities \<Rightarrow> service_telemetry option" where
  "commandFailedTelemetry c =
     (let t = \<lparr>stTraffic = (if mcSupport (scTraffic c) = CapabilitySupported then Some (observationError ''command_failed'') else None),
               stOnlineClients = (if mcSupport (scOnlineClients c) = CapabilitySupported then Some (countObservationError ''command_failed'') else None)\<rparr>
      in if stTraffic t = None \<and> stOnlineClients t = None then None else Some t)"

definition classifyServiceStatus :: "bool \<Rightarrow> cert_info option \<Rightarrow> bool \<Rightarrow> bool \<Rightarrow> bytes \<times> bytes" where
  "classifyServiceStatus active cert hasDeclaredPorts listenOK =
     (if \<not> active then (''error'', ''service not active'')
      else if (case cert of None \<Rightarrow> False | Some c \<Rightarrow> ciDaysLeft c < 0) then (''error'', ''certificate expired'')
      else if (case cert of None \<Rightarrow> False | Some c \<Rightarrow> ciDaysLeft c < certWarnDays) then (''warn'', [])
      else if hasDeclaredPorts \<and> \<not> listenOK then (''warn'', [])
      else (''ok'', []))"

definition statsEndpointFor :: "tele_env \<Rightarrow> service_template \<Rightarrow> (bytes \<times> stats_service) list \<Rightarrow> (bytes \<times> bytes) option" where
  "statsEndpointFor E t cfg =
     (case map_of cfg (tmStatsKind t) of
        Some s \<Rightarrow> if svEndpoint s \<noteq> [] then Some (svEndpoint s, svSecret s) else discoverStats E (tmStatsKind t) (tmStatsConfigPaths t)
      | None \<Rightarrow> discoverStats E (tmStatsKind t) (tmStatsConfigPaths t))"

definition readProcSockets :: "detect_env \<Rightarrow> socket list" where
  "readProcSockets D = ParseProcSockets (deNet D ''tcp'') (deNet D ''tcp6'') (deNet D ''udp'') (deNet D ''udp6'')"

definition hasPorts :: "listen list \<Rightarrow> nat list \<Rightarrow> bool" where
  "hasPorts ls ports \<longleftrightarrow> list_all (\<lambda>p. list_ex (\<lambda>l. liPort l = p) ls) ports"

fun firstCert :: "detect_env \<Rightarrow> bytes list \<Rightarrow> cert_info option" where
  "firstCert D [] = None"
| "firstCert D (p # ps) = (case CertInfo (deReadFile D) (deParseCert D) (deNow D) p of Some c \<Rightarrow> Some c | None \<Rightarrow> firstCert D ps)"

definition serviceTelemetry :: "detect_env \<Rightarrow> service_template \<Rightarrow> (bytes \<times> stats_service) list \<Rightarrow> service_capabilities \<Rightarrow> service_telemetry" where
  "serviceTelemetry D t cfg c =
     (if statsDisabled t cfg then disabledTelemetry c
      else case statsEndpointFor (deTele D) t cfg of
        None \<Rightarrow> notConfiguredTelemetry c
      | Some (endpoint, secret) \<Rightarrow> trTelemetry (CollectTelemetryWithRunner (deTele D) (tmStatsKind t) endpoint secret))"

definition unknown_service :: "bytes \<Rightarrow> bytes \<Rightarrow> service_capabilities \<Rightarrow> report_service" where
  "unknown_service typ u c =
     \<lparr>rsType = typ, rsRuntime = ''systemd'', rsUnit = u, rsBinary = [], rsVersion = [], rsActive = False, rsEnabled = False, rsMainPID = 0,
      rsNRestarts = 0, rsListen = [], rsListenOK = False, rsCert = None, rsStats = None, rsProtocols = None, rsCapabilities = Some c,
      rsTelemetry = None, rsStatus = [], rsError = []\<rparr>"

definition inspectService :: "detect_env \<Rightarrow> (bytes \<times> stats_service) list \<Rightarrow> service_template \<Rightarrow> unit_info \<Rightarrow> bytes \<Rightarrow> report_service" where
  "inspectService D cfg t info u =
     (let c = CapabilitiesFor (tmID t);
          ls = (if 0 < uiMainPID info
                then let ls = ListenForPID (deLinks D (uiMainPID info)) (readProcSockets D) in
                     if ls = [] then ListenForPIDFromSS (deRunner D) (uiMainPID info) else ls
                else []);
          ok = (if tmListenPorts t \<noteq> [] then hasPorts ls (tmListenPorts t) else ls \<noteq> []);
          cert = firstCert D (tmCertPaths t);
          telemetry = (if tmStatsKind t \<noteq> [] then Some (serviceTelemetry D t cfg c) else None);
          (status, err) = classifyServiceStatus (uiActive info) cert (tmListenPorts t \<noteq> []) ok
      in (unknown_service (tmID t) u c)\<lparr>
           rsBinary := uiExecStart info, rsActive := uiActive info, rsEnabled := uiEnabled info, rsMainPID := uiMainPID info,
           rsNRestarts := uiNRestarts info,
           rsProtocols := (if tmID t = ''xray'' \<or> tmID t = ''sing-box''
                           then Some (DiscoverProtocols (deProto D) (tmID t) (uiExecArgs info) (tmStatsConfigPaths t)) else None),
           rsVersion := (if uiExecStart info \<noteq> []
                         then (case serviceVersion (deRunner D) (uiExecStart info) (tmVersionCmd t) of Some v \<Rightarrow> v | None \<Rightarrow> []) else []),
           rsListen := ls, rsListenOK := ok, rsCert := cert, rsTelemetry := telemetry, rsStats := PopulateLegacyStats telemetry None,
           rsStatus := status, rsError := err\<rparr>)"

fun detectUnits :: "detect_env \<Rightarrow> service_template list \<Rightarrow> (bytes \<times> stats_service) list \<Rightarrow> bytes list \<Rightarrow> report_service list" where
  "detectUnits D reg cfg [] = []"
| "detectUnits D reg cfg (name # names) =
     (let u = trim_suffix name ''.service'' in
      case FindUnit reg u of
        None \<Rightarrow> detectUnits D reg cfg names
      | Some t \<Rightarrow>
          (case ShowUnit (deRunner D) u of
             None \<Rightarrow> (unknown_service (tmID t) u (CapabilitiesFor (tmID t)))\<lparr>rsTelemetry := commandFailedTelemetry (CapabilitiesFor (tmID t)),
                       rsStatus := ''error'', rsError := ''show''\<rparr>
           | Some info \<Rightarrow> inspectService D cfg t info u) # detectUnits D reg cfg names)"

definition Detect :: "detect_env \<Rightarrow> service_template list \<Rightarrow> (bytes \<times> stats_service) list \<Rightarrow> report_service list option" where
  "Detect D reg cfg = map_option (detectUnits D reg cfg) (ListUnitNames (deRunner D))"

subsection \<open>The host\<close>

record report_host =
  rhHostname :: bytes
  rhOS :: bytes
  rhOSVersion :: bytes
  rhKernel :: bytes
  rhArch :: bytes
  rhIPv4 :: bytes
  rhIPv6 :: bytes
  rhEgressIPv4 :: bytes
  rhEgressIPv6 :: bytes
  rhUptimeSeconds :: int
  rhLoad1 :: real
  rhLoad5 :: real
  rhLoad15 :: real
  rhMemTotalBytes :: uint64
  rhMemAvailableBytes :: uint64
  rhMemUsedPct :: real
  rhDiskTotalBytes :: uint64
  rhDiskUsedBytes :: uint64
  rhDiskTotalHuman :: bytes
  rhDiskUsedHuman :: bytes
  rhDiskUsedPct :: real
  rhUpgradableCount :: nat

text \<open>An address of an interface: \<open>iaNet\<close> says whether it is an \<open>*net.IPNet\<close>.\<close>

record interface_address =
  iaNet :: bool
  iaLoopback :: bool
  iaV4 :: bool
  iaLinkLocal :: bool
  iaString :: bytes

record host_env =
  heArch :: bytes
  heHostname :: "bytes option"
  heInterfaces :: "(bool \<times> bool \<times> interface_address list option) list option"
  heReadFile :: "bytes \<Rightarrow> bytes option"
  heFloat :: "bytes \<Rightarrow> real \<times> bool"
  hePercent :: "uint64 \<Rightarrow> uint64 \<Rightarrow> real"
  heFixed2 :: "uint64 \<Rightarrow> nat \<Rightarrow> bytes"
  heTruncate :: "real \<Rightarrow> int"
  heRunner :: "runner option"

definition ParseLoadavg :: "host_env \<Rightarrow> bytes \<Rightarrow> real \<times> real \<times> real" where
  "ParseLoadavg H s =
     (let f = GoStrings.fields s in
      if length f < 3 then (0, 0, 0) else (fst (heFloat H (f ! 0)), fst (heFloat H (f ! 1)), fst (heFloat H (f ! 2))))"

definition meminfoLine :: "uint64 \<times> uint64 \<Rightarrow> bytes \<Rightarrow> uint64 \<times> uint64" where
  "meminfoLine ta line =
     (let f = GoStrings.fields line in
      if length f < 2 then ta
      else
        let v = word_of_nat (fst (parse_uint (f ! 1) 10 64)) in
        if f ! 0 = ''MemTotal:'' then (v * 1024, snd ta)
        else if f ! 0 = ''MemAvailable:'' then (fst ta, v * 1024)
        else ta)"

definition ParseMeminfo :: "bytes \<Rightarrow> uint64 \<times> uint64" where
  "ParseMeminfo s = foldl meminfoLine (0, 0) (lines s)"

definition ParseUptime :: "host_env \<Rightarrow> bytes \<Rightarrow> int" where
  "ParseUptime H s = (case GoStrings.fields s of [] \<Rightarrow> 0 | f # _ \<Rightarrow> heTruncate H (fst (heFloat H f)))"

definition osReleaseLine :: "bytes \<times> bytes \<Rightarrow> bytes \<Rightarrow> bytes \<times> bytes" where
  "osReleaseLine nv line =
     (case cut_char (CHR ''='') line of
        None \<Rightarrow> nv
      | Some (k, v) \<Rightarrow>
          let v = trim_right (trim_left (trim_space v) [CHR 0x22]) [CHR 0x22] in
          if k = ''PRETTY_NAME'' then (v, snd nv) else if k = ''VERSION_ID'' then (fst nv, v) else nv)"

definition ParseOSRelease :: "bytes \<Rightarrow> bytes \<times> bytes" where
  "ParseOSRelease s = foldl osReleaseLine ([], []) (lines s)"

definition ParseDfFull :: "host_env \<Rightarrow> bytes \<Rightarrow> (uint64 \<times> uint64 \<times> real) option" where
  "ParseDfFull H s =
     (case lines (trim_space s) of
        _ # line # _ \<Rightarrow>
          let f = GoStrings.fields line in
          if length f < 3 then None
          else (case (parse_uint (f ! 1) 10 64, parse_uint (f ! 2) 10 64) of
            ((tot, None), (used, None)) \<Rightarrow>
              if tot = 0 then None
              else let t = word_of_nat tot * 1024; u = word_of_nat used * 1024 in Some (t, u, hePercent H u t)
          | _ \<Rightarrow> None)
      | _ \<Rightarrow> None)"

definition ParseDf :: "host_env \<Rightarrow> bytes \<Rightarrow> real option" where
  "ParseDf H s = map_option (\<lambda>(_, _, p). p) (ParseDfFull H s)"

definition formatBytes :: "host_env \<Rightarrow> uint64 \<Rightarrow> bytes" where
  "formatBytes H b =
     (if 1000000000 \<le> b then heFixed2 H b 1000000000 @ '' GB''
      else if 1000000 \<le> b then heFixed2 H b 1000000 @ '' MB''
      else dec_digits (unat b) @ '' B'')"

fun interfaceIPs :: "interface_address list \<Rightarrow> bytes \<times> bytes \<Rightarrow> bytes \<times> bytes" where
  "interfaceIPs [] ips = ips"
| "interfaceIPs (a # as) (v4, v6) =
     (if \<not> iaNet a \<or> iaLoopback a then interfaceIPs as (v4, v6)
      else if iaV4 a then interfaceIPs as (if v4 = [] then iaString a else v4, v6)
      else interfaceIPs as (v4, if v6 = [] \<and> \<not> iaLinkLocal a then iaString a else v6))"

fun scanInterfaces :: "(bool \<times> bool \<times> interface_address list option) list \<Rightarrow> bytes \<times> bytes \<Rightarrow> bytes \<times> bytes" where
  "scanInterfaces [] ips = ips"
| "scanInterfaces ((up, loopback, addrs) # is) ips =
     (if \<not> up \<or> loopback then scanInterfaces is ips
      else case addrs of None \<Rightarrow> scanInterfaces is ips | Some as \<Rightarrow> scanInterfaces is (interfaceIPs as ips))"

definition hostIPs :: "host_env \<Rightarrow> bytes \<times> bytes" where
  "hostIPs H = (case heInterfaces H of None \<Rightarrow> ([], []) | Some is \<Rightarrow> scanInterfaces is ([], []))"

definition upgradableCount :: "runner \<Rightarrow> nat" where
  "upgradableCount R =
     (case R ''apt'' [''list'', ''--upgradable''] of
        Some out \<Rightarrow> length (filter (\<lambda>line. contains_sub line ''/'') (lines out))
      | None \<Rightarrow>
          (case R ''dnf'' [''check-update'', ''-q''] of
             Some out \<Rightarrow> length (filter (\<lambda>line. trim_space line \<noteq> []) (lines out))
           | None \<Rightarrow> 0))"

definition Host :: "host_env \<Rightarrow> collect_section \<Rightarrow> report_host" where
  "Host H cfg =
     (let (v4, v6) = hostIPs H;
          (os, osv) = (case heReadFile H ''/etc/os-release'' of None \<Rightarrow> ([], []) | Some b \<Rightarrow> ParseOSRelease b);
          (l1, l5, l15) = (case heReadFile H ''/proc/loadavg'' of None \<Rightarrow> (0, 0, 0) | Some b \<Rightarrow> ParseLoadavg H b);
          (tot, avail) = (case heReadFile H ''/proc/meminfo'' of None \<Rightarrow> (0, 0) | Some b \<Rightarrow> ParseMeminfo b);
          df = (case (clDiskMounts cfg, heRunner H) of
                  (mount # _, Some R) \<Rightarrow> (case R ''df'' [''-P'', mount] of None \<Rightarrow> None | Some out \<Rightarrow> ParseDfFull H out)
                | _ \<Rightarrow> None)
      in \<lparr>rhHostname = (case heHostname H of None \<Rightarrow> [] | Some n \<Rightarrow> n), rhOS = os, rhOSVersion = osv,
          rhKernel = (case heReadFile H ''/proc/sys/kernel/osrelease'' of None \<Rightarrow> [] | Some b \<Rightarrow> trim_space b),
          rhArch = heArch H, rhIPv4 = v4, rhIPv6 = v6, rhEgressIPv4 = [], rhEgressIPv6 = [],
          rhUptimeSeconds = (case heReadFile H ''/proc/uptime'' of None \<Rightarrow> 0 | Some b \<Rightarrow> ParseUptime H b),
          rhLoad1 = l1, rhLoad5 = l5, rhLoad15 = l15, rhMemTotalBytes = tot, rhMemAvailableBytes = avail,
          rhMemUsedPct = (if 0 < tot then hePercent H (tot - avail) tot else 0),
          rhDiskTotalBytes = (case df of None \<Rightarrow> 0 | Some (t, u, p) \<Rightarrow> t),
          rhDiskUsedBytes = (case df of None \<Rightarrow> 0 | Some (t, u, p) \<Rightarrow> u),
          rhDiskTotalHuman = (case df of None \<Rightarrow> [] | Some (t, u, p) \<Rightarrow> formatBytes H t),
          rhDiskUsedHuman = (case df of None \<Rightarrow> [] | Some (t, u, p) \<Rightarrow> formatBytes H u),
          rhDiskUsedPct = (case df of None \<Rightarrow> 0 | Some (t, u, p) \<Rightarrow> p),
          rhUpgradableCount = (case heRunner H of Some R \<Rightarrow> if clUpgradable cfg then upgradableCount R else 0 | None \<Rightarrow> 0)\<rparr>)"

subsection \<open>The report\<close>

record agent_report =
  rpSchemaVersion :: bytes
  rpAgentVersion :: bytes
  rpNodeID :: bytes
  rpCollectedAt :: bytes
  rpHost :: report_host
  rpServices :: "report_service list"

record build_env =
  beBuiltin :: template_dir
  beCustom :: "bytes \<Rightarrow> template_dir"
  beTemplate :: "bytes \<Rightarrow> service_template option"
  beRegexp :: "bytes \<Rightarrow> (bytes \<Rightarrow> bool) option"
  beDetect :: detect_env
  beHost :: host_env
  beDuration :: "bytes \<Rightarrow> duration option"
  beNode :: node_env
  beTime :: bytes

definition allTemplates :: "build_env \<Rightarrow> agent_config \<Rightarrow> service_template list option" where
  "allTemplates B cfg =
     (case Builtin (beTemplate B) (beBuiltin B) of
        None \<Rightarrow> None
      | Some bs \<Rightarrow> (case LoadCustom (beTemplate B) (beCustom B (dtCustomDir (cfDetect cfg))) of None \<Rightarrow> None | Some cs \<Rightarrow> Some (bs @ cs)))"

text \<open>The resolver of the public addresses is a function of its options with its own state; \<open>parsed\<close> keeps the zero that
  \<open>ParseDuration\<close> leaves on an error.\<close>

definition buildWithEgress ::
    "build_env \<Rightarrow> (egress_options \<Rightarrow> 's \<Rightarrow> egress_result \<times> 's) \<Rightarrow> agent_config \<Rightarrow> bytes \<Rightarrow> 's \<Rightarrow> agent_report option \<times> 's" where
  "buildWithEgress B resolve cfg version s =
     (case allTemplates B cfg of
        None \<Rightarrow> (None, s)
      | Some ts \<Rightarrow>
          (case NewRegistry (beRegexp B) ts of
             None \<Rightarrow> (None, s)
           | Some reg \<Rightarrow>
               (case Detect (beDetect B) reg (cfStats cfg) of
                  None \<Rightarrow> (None, s)
                | Some svcs \<Rightarrow>
                    let host = Host (beHost B) (cfCollect cfg);
                        e = clEgressIP (cfCollect cfg);
                        parsed = (\<lambda>d. case beDuration B d of None \<Rightarrow> 0 | Some x \<Rightarrow> x)
                    in if egEnabled e \<and> (beDuration B (egRefreshInterval e) = None \<or> beDuration B (egTimeout e) = None) then (None, s)
                       else
                         let (egress, s) = resolve \<lparr>eoEnabled = egEnabled e, eoRefreshInterval = parsed (egRefreshInterval e),
                               eoIPv4Endpoints = egIPv4Endpoints e, eoIPv6Endpoints = egIPv6Endpoints e\<rparr> s
                         in (Some \<lparr>rpSchemaVersion = ''1'', rpAgentVersion = version, rpNodeID = NodeID (beNode B) cfg, rpCollectedAt = beTime B,
                               rpHost = host\<lparr>rhEgressIPv4 := egIPv4 egress, rhEgressIPv6 := egIPv6 egress\<rparr>, rpServices = svcs\<rparr>, s))))"

subsection \<open>One service per unit\<close>

definition observed_ok :: "service_telemetry \<Rightarrow> bool" where
  "observed_ok t \<longleftrightarrow>
     (\<forall>x. stTraffic t = Some x \<longrightarrow> (ttState x = ObservationOK \<longleftrightarrow> ttTxBytes x \<noteq> None) \<and> (ttTxBytes x = None \<longleftrightarrow> ttRxBytes x = None)) \<and>
     (\<forall>x. stOnlineClients t = Some x \<longrightarrow> (ctState x = ObservationOK \<longleftrightarrow> ctValue x \<noteq> None))"

definition healthy :: "detect_env \<Rightarrow> service_template \<Rightarrow> unit_info \<Rightarrow> report_service \<Rightarrow> bool" where
  "healthy D t info s \<longleftrightarrow> uiActive info \<and> (\<forall>c. rsCert s = Some c \<longrightarrow> certWarnDays \<le> ciDaysLeft c) \<and>
     (\<forall>p\<in>set (tmListenPorts t). p \<in> liPort ` set (rsListen s))"

definition failing :: "unit_info option \<Rightarrow> report_service \<Rightarrow> bool" where
  "failing info s \<longleftrightarrow> (case info of None \<Rightarrow> True | Some i \<Rightarrow> \<not> uiActive i \<or> (\<exists>c. rsCert s = Some c \<and> ciDaysLeft c < 0))"

lemma hasPorts_iff: "hasPorts ls ports \<longleftrightarrow> (\<forall>p\<in>set ports. p \<in> liPort ` set ls)"
  by (auto simp: hasPorts_def list_all_iff list_ex_iff)

lemma wf_observed: "result_wf r \<Longrightarrow> observed_ok (trTelemetry r)"
  by (auto simp: result_wf_def observed_ok_def traffic_wf_def count_wf_def)

lemma state_observed: "state \<noteq> ObservationOK \<Longrightarrow> observed_ok (telemetryWithState c state)"
  by (simp add: observed_ok_def telemetryWithState_def)

lemma serviceTelemetry_observed: "observed_ok (serviceTelemetry D t cfg c)"
  unfolding serviceTelemetry_def disabledTelemetry_def notConfiguredTelemetry_def
  by (auto simp: state_observed wf_observed [OF collected_wf] split: option.splits)

lemma failed_observed: "commandFailedTelemetry c = Some t \<Longrightarrow> observed_ok t"
  by (auto simp: commandFailedTelemetry_def observed_ok_def observationError_def countObservationError_def Let_def split: if_splits)

lemma classify_cases:
  "classifyServiceStatus active cert declared ok = (status, err) \<Longrightarrow>
     status \<in> {''ok'', ''warn'', ''error''} \<and>
     (status = ''ok'' \<longleftrightarrow> active \<and> (\<forall>c. cert = Some c \<longrightarrow> certWarnDays \<le> ciDaysLeft c) \<and> (declared \<longrightarrow> ok)) \<and>
     (status = ''error'' \<longleftrightarrow> \<not> active \<or> (\<exists>c. cert = Some c \<and> ciDaysLeft c < 0))"
  by (cases cert) (auto simp: classifyServiceStatus_def certWarnDays_def split: if_splits)

definition service_ok :: "detect_env \<Rightarrow> service_template list \<Rightarrow> report_service \<Rightarrow> bool" where
  "service_ok D reg s \<longleftrightarrow> (\<exists>t. FindUnit reg (rsUnit s) = Some t \<and> rsType s = tmID t \<and> rsStatus s \<in> {''ok'', ''warn'', ''error''} \<and>
     (rsStatus s = ''error'' \<longleftrightarrow> failing (ShowUnit (deRunner D) (rsUnit s)) s) \<and>
     (rsStatus s = ''ok'' \<longleftrightarrow> (\<exists>info. ShowUnit (deRunner D) (rsUnit s) = Some info \<and> healthy D t info s)) \<and>
     (\<forall>x. rsTelemetry s = Some x \<longrightarrow> observed_ok x))"

lemma inspectService_ok:
  assumes "FindUnit reg u = Some t" "ShowUnit (deRunner D) u = Some info"
  shows "service_ok D reg (inspectService D cfg t info u) \<and> rsUnit (inspectService D cfg t info u) = u"
proof -
  define s where "s = inspectService D cfg t info u"
  obtain status err where st: "classifyServiceStatus (uiActive info) (rsCert s) (tmListenPorts t \<noteq> []) (rsListenOK s) = (status, err)"
    by (cases "classifyServiceStatus (uiActive info) (rsCert s) (tmListenPorts t \<noteq> []) (rsListenOK s)")
  have f: "rsUnit s = u" "rsType s = tmID t" "rsStatus s = status"
    "rsListenOK s = (if tmListenPorts t \<noteq> [] then hasPorts (rsListen s) (tmListenPorts t) else rsListen s \<noteq> [])"
    "\<And>x. rsTelemetry s = Some x \<Longrightarrow> observed_ok x"
    using st serviceTelemetry_observed [of D t cfg "CapabilitiesFor (tmID t)"]
    by (auto simp: s_def inspectService_def Let_def unknown_service_def split: prod.splits if_splits)
  have "service_ok D reg s"
    unfolding service_ok_def f(1) using classify_cases [OF st] assms f(2-)
    by (intro exI [of _ t]) (auto simp: failing_def healthy_def hasPorts_iff)
  then show ?thesis using f(1) by (simp add: s_def)
qed

lemma failed_service_ok:
  assumes "FindUnit reg u = Some t" "ShowUnit (deRunner D) u = None"
  shows "service_ok D reg ((unknown_service (tmID t) u (CapabilitiesFor (tmID t)))\<lparr>rsTelemetry := commandFailedTelemetry (CapabilitiesFor (tmID t)),
           rsStatus := ''error'', rsError := ''show''\<rparr>)"
  using assms failed_observed by (auto simp: service_ok_def unknown_service_def failing_def)

lemma detectUnits_ok:
  "map rsUnit (detectUnits D reg cfg names) = filter (\<lambda>u. FindUnit reg u \<noteq> None) (map (\<lambda>n. trim_suffix n ''.service'') names) \<and>
   (\<forall>s\<in>set (detectUnits D reg cfg names). service_ok D reg s)"
proof (induction names)
  case (Cons n ns)
  define u where "u = trim_suffix n ''.service''"
  show ?case
  proof (cases "FindUnit reg u")
    case None
    then show ?thesis using Cons by (simp add: u_def [symmetric] Let_def)
  next
    case (Some t)
    show ?thesis
    proof (cases "ShowUnit (deRunner D) u")
      case None
      then show ?thesis using Some Cons failed_service_ok [OF Some None]
        by (simp add: u_def [symmetric] Let_def unknown_service_def)
    next
      case (Some info)
      then show ?thesis using \<open>FindUnit reg u = Some t\<close> Cons inspectService_ok [OF \<open>FindUnit reg u = Some t\<close> Some]
        by (simp add: u_def [symmetric] Let_def)
    qed
  qed
qed simp


definition idle_env :: detect_env where
  "idle_env = \<lparr>deRunner = (\<lambda>name args. if hd args = ''list-unit-files'' then Some ''xray.service enabled'' else None), deTele = sample_stats_env,
     deProto = \<lparr>peStat = (\<lambda>_. StatMissing), peRead = (\<lambda>_. None), peYaml = (\<lambda>_. None), peJoin = (\<lambda>a b. a @ ''/'' @ b), peExt = (\<lambda>_. [])\<rparr>,
     deNet = (\<lambda>_. []), deLinks = (\<lambda>_. None), deReadFile = (\<lambda>_. None), deParseCert = (\<lambda>_. None), deNow = 0\<rparr>"

definition idle_template :: service_template where
  "idle_template = \<lparr>tmID = ''xray'', tmName = ''Xray'', tmUnits = [''xray''], tmBinaryPatterns = [], tmVersionCmd = [], tmTransport = [], tmCertPaths = [],
     tmListenPorts = [], tmStatsKind = ''xray'', tmStatsConfigPaths = [], tmUnitRe = [(\<lambda>u. u = ''xray'')], tmBinRe = []\<rparr>"


end
