(* ===== verification/PanelSessions.thy ===== *)
theory PanelSessions
  imports Auth GoEncoding
begin

text \<open>
  Users and sessions of the Panel: \<open>requireRole\<close>, the routes, \<open>EnsureAdmin\<close>, \<open>handleMe\<close> and \<open>handleReauth\<close> of
  \<open>internal/panel/api/api.go\<close>, \<open>handleLogin\<close> and \<open>handleLogout\<close> of \<open>admin.go\<close>, and the sessions of \<open>internal/panel/auth/auth.go\<close>, over
  the tables \<open>users\<close> and \<open>sessions\<close>. Times are nanoseconds, those of the tables seconds. Bcrypt and SHA-256 are parameters, a statement
  consumes one entry of \<open>sdFaults\<close>, and a request carries the value of the cookie and the decoded body.
\<close>

subsection \<open>Tables\<close>

record user_row =
  usID :: int
  usName :: bytes
  usHash :: bytes
  usRole :: role

record session_row =
  seToken :: bytes
  seID :: bytes
  seUser :: int
  seCreatedAt :: int
  seExpiresAt :: int
  seReauthenticatedAt :: int

record session_db =
  sdUsers :: "user_row list"
  sdSessions :: "session_row list"
  sdFaults :: "bool list"

record password_env =
  pwCheck :: "bytes \<Rightarrow> bytes \<Rightarrow> bool"
  pwHash :: "bytes \<Rightarrow> bytes option"
  pwSha256 :: "bytes \<Rightarrow> bytes"

datatype 'a api_reply = Failure nat bytes | Success nat 'a

definition sessionStatement :: "session_db \<Rightarrow> bool \<times> session_db" where
  "sessionStatement d = (case sdFaults d of [] \<Rightarrow> (True, d) | f # fs \<Rightarrow> (\<not> f, d\<lparr>sdFaults := fs\<rparr>))"

subsection \<open>Sessions\<close>

text \<open>\<open>raw\<close> is what \<open>crypto/rand\<close> gives; its \<open>Read\<close> never fails.\<close>

definition randomToken :: "bytes \<Rightarrow> bytes" where
  "randomToken raw = hex_encode raw"

definition sessionReference :: "password_env \<Rightarrow> bytes \<Rightarrow> bytes" where
  "sessionReference E token = hex_encode (pwSha256 E token)"

definition NewSession :: "password_env \<Rightarrow> bytes \<Rightarrow> int \<Rightarrow> duration \<Rightarrow> int \<Rightarrow> session_db \<Rightarrow> bytes option \<times> session_db" where
  "NewSession E raw userID ttl now d =
     (let token = randomToken raw; (ok, d) = sessionStatement d;
          row = \<lparr>seToken = token, seID = sessionReference E token, seUser = userID, seCreatedAt = now div second,
                 seExpiresAt = (now + ttl) div second, seReauthenticatedAt = 0\<rparr>
      in if \<not> ok \<or> token \<in> seToken ` set (sdSessions d) \<or> seID row \<in> seID ` set (sdSessions d) then (None, d)
         else (Some token, d\<lparr>sdSessions := sdSessions d @ [row]\<rparr>))"

definition sessionTTL :: duration where "sessionTTL = 7 * 24 * hour"

text \<open>A failed query leaves the hash empty, and the empty hash matches no password, so that the error is answered as a wrong password.\<close>

definition handleLogin :: "password_env \<Rightarrow> (bytes \<times> bytes) option \<Rightarrow> bytes \<Rightarrow> int \<Rightarrow> session_db \<Rightarrow> bytes api_reply \<times> session_db" where
  "handleLogin E body raw now d =
     (case body of
        None \<Rightarrow> (Failure 400 ''bad_request'', d)
      | Some (username, password) \<Rightarrow>
          if username = [] \<or> password = [] then (Failure 400 ''bad_request'', d)
          else
            let (ok, d) = sessionStatement d;
                user = (if ok then find (\<lambda>u. usName u = username) (sdUsers d) else None);
                hash = (case user of None \<Rightarrow> [] | Some u \<Rightarrow> usHash u)
            in if ok \<and> user = None \<or> \<not> pwCheck E hash password then (Failure 401 ''unauthorized'', d)
               else (case user of
                 None \<Rightarrow> (Failure 500 ''db_error'', d)
               | Some u \<Rightarrow>
                   (case NewSession E raw (usID u) sessionTTL now d of
                      (None, d) \<Rightarrow> (Failure 500 ''db_error'', d)
                    | (Some token, d) \<Rightarrow> (Success 200 token, d))))"

definition handleLogout :: "bytes option \<Rightarrow> session_db \<Rightarrow> unit api_reply \<times> session_db" where
  "handleLogout cookie d =
     (case cookie of
        None \<Rightarrow> (Success 200 (), d)
      | Some token \<Rightarrow>
          let (ok, d) = sessionStatement d in
          (Success 200 (), if ok then d\<lparr>sdSessions := filter (\<lambda>r. seToken r \<noteq> token) (sdSessions d)\<rparr> else d))"

definition find_session :: "bytes \<Rightarrow> int \<Rightarrow> session_db \<Rightarrow> (session_row \<times> user_row) option" where
  "find_session token now d =
     (case find (\<lambda>r. seToken r = token \<and> now div second < seExpiresAt r \<and> find (\<lambda>u. usID u = seUser r) (sdUsers d) \<noteq> None) (sdSessions d) of
        None \<Rightarrow> None
      | Some r \<Rightarrow> map_option (\<lambda>u. (r, u)) (find (\<lambda>u. usID u = seUser r) (sdUsers d)))"

definition session_actor :: "session_row \<Rightarrow> user_row \<Rightarrow> actor" where
  "session_actor r u =
     \<lparr>acUserID = seUser r, acUsername = usName u, acRole = usRole u, acSessionID = seID r,
      acReauthenticatedAt = (if 0 < seReauthenticatedAt r then Some (seReauthenticatedAt r * second) else None)\<rparr>"

definition requireRole :: "role \<Rightarrow> bytes option \<Rightarrow> int \<Rightarrow> session_db \<Rightarrow> actor api_reply \<times> session_db" where
  "requireRole role cookie now d =
     (case cookie of
        None \<Rightarrow> (Failure 401 ''unauthorized'', d)
      | Some token \<Rightarrow>
          let (ok, d) = sessionStatement d in
          (case (if ok then find_session token now d else None) of
             None \<Rightarrow> (Failure 401 ''unauthorized'', d)
           | Some (r, u) \<Rightarrow>
               if \<not> Require (session_actor r u) role then (Failure 403 ''forbidden'', d) else (Success 200 (session_actor r u), d)))"

definition handleMe :: "actor \<Rightarrow> (int \<times> bytes \<times> role \<times> int) api_reply" where
  "handleMe a = Success 200 (acUserID a, acUsername a, acRole a, (case acReauthenticatedAt a of None \<Rightarrow> 0 | Some t \<Rightarrow> t div second))"

definition handleReauth :: "password_env \<Rightarrow> actor \<Rightarrow> bytes option \<Rightarrow> int \<Rightarrow> session_db \<Rightarrow> unit api_reply \<times> session_db" where
  "handleReauth E a body now d =
     (case body of
        None \<Rightarrow> (Failure 400 ''bad_request'', d)
      | Some password \<Rightarrow>
          if password = [] then (Failure 400 ''bad_request'', d)
          else
            let (ok, d) = sessionStatement d in
            (case (if ok then find (\<lambda>u. usID u = acUserID a) (sdUsers d) else None) of
               None \<Rightarrow> (Failure 500 ''db_error'', d)
             | Some u \<Rightarrow>
                 if \<not> pwCheck E (usHash u) password then (Failure 401 ''unauthorized'', d)
                 else
                   let (ok, d) = sessionStatement d;
                       hit = (\<lambda>r. seID r = acSessionID a \<and> seUser r = acUserID a) in
                   if \<not> ok then (Failure 500 ''db_error'', d)
                   else
                     let d' = d\<lparr>sdSessions := map (\<lambda>r. if hit r then r\<lparr>seReauthenticatedAt := now div second\<rparr> else r) (sdSessions d)\<rparr> in
                     if length (filter hit (sdSessions d)) \<noteq> 1 then (Failure 401 ''unauthorized'', d') else (Success 200 (), d')))"

text \<open>The primary key of a new user is one more than the largest.\<close>

definition EnsureAdmin :: "password_env \<Rightarrow> bytes \<Rightarrow> bytes \<Rightarrow> session_db \<Rightarrow> bool \<times> session_db" where
  "EnsureAdmin E username password d =
     (let (ok, d) = sessionStatement d in
      if \<not> ok then (False, d)
      else if username \<in> usName ` set (sdUsers d) then
        (let (ok, d) = sessionStatement d in
         if \<not> ok then (False, d)
         else (True, d\<lparr>sdUsers := map (\<lambda>u. if usName u = username then u\<lparr>usRole := Admin\<rparr> else u) (sdUsers d)\<rparr>))
      else (case pwHash E password of
        None \<Rightarrow> (False, d)
      | Some hash \<Rightarrow>
          (let (ok, d) = sessionStatement d in
           if \<not> ok then (False, d)
           else (True, d\<lparr>sdUsers := sdUsers d @ [\<lparr>usID = fold max (map usID (sdUsers d)) 0 + 1, usName = username, usHash = hash, usRole = Admin\<rparr>]\<rparr>))))"

subsection \<open>Routes\<close>

datatype guard = OpenRoute | AgentRoute | RoleRoute role

record api_route =
  roMethod :: bytes
  roPath :: bytes
  roGuard :: guard
  roHandler :: bytes

definition "route" :: "bytes \<Rightarrow> bytes \<Rightarrow> guard \<Rightarrow> bytes \<Rightarrow> api_route" where
  "route m p g h = \<lparr>roMethod = m, roPath = p, roGuard = g, roHandler = h\<rparr>"

definition Routes :: "api_route list" where
  "Routes =
    [route ''GET'' ''/api/v1/ca'' OpenRoute ''handleCA'',
     route ''POST'' ''/api/v1/agents/enroll'' OpenRoute ''handleEnroll'',
     route ''POST'' ''/api/v1/agents/renew'' AgentRoute ''handleRenew'',
     route ''POST'' ''/api/v1/agents/report'' AgentRoute ''handleReport'',
     route ''GET'' ''/api/v1/agents/control'' AgentRoute ''handleControl'',
     route ''GET'' ''/api/v1/admin/agents/{id}/commands'' (RoleRoute Viewer) ''handleCommandHistory'',
     route ''POST'' ''/api/v1/admin/agents/{id}/commands'' (RoleRoute Operator) ''handleCreateCommand'',
     route ''GET'' ''/api/v1/admin/releases'' (RoleRoute Viewer) ''handleReleases'',
     route ''POST'' ''/api/v1/admin/releases'' (RoleRoute Admin) ''handleImportRelease'',
     route ''POST'' ''/api/v1/admin/releases/github'' (RoleRoute Admin) ''handleImportGitHubRelease'',
     route ''POST'' ''/api/v1/admin/upgrades'' (RoleRoute Admin) ''handleCreateUpgrades'',
     route ''POST'' ''/api/v1/admin/enrollments'' (RoleRoute Admin) ''handleCreateEnrollment'',
     route ''POST'' ''/api/v1/admin/agents/{id}/revoke'' (RoleRoute Admin) ''handleRevokeAgent'',
     route ''POST'' ''/api/v1/admin/login'' OpenRoute ''handleLogin'',
     route ''POST'' ''/api/v1/admin/logout'' (RoleRoute Viewer) ''handleLogout'',
     route ''GET'' ''/api/v1/admin/me'' (RoleRoute Viewer) ''handleMe'',
     route ''POST'' ''/api/v1/admin/reauth'' (RoleRoute Viewer) ''handleReauth'',
     route ''GET'' ''/api/v1/admin/overview'' (RoleRoute Viewer) ''handleOverview'',
     route ''GET'' ''/api/v1/admin/nodes'' (RoleRoute Viewer) ''handleNodes'',
     route ''GET'' ''/api/v1/admin/nodes/{id}'' (RoleRoute Viewer) ''handleNodeDetail'',
     route ''PATCH'' ''/api/v1/admin/nodes/{id}'' (RoleRoute Admin) ''handleNodePatch'',
     route ''DELETE'' ''/api/v1/admin/nodes/{id}'' (RoleRoute Admin) ''handleNodeDelete'',
     route ''GET'' ''/api/v1/admin/nodes/{id}/metrics'' (RoleRoute Viewer) ''handleNodeMetrics'',
     route ''GET'' ''/api/v1/admin/alerts'' (RoleRoute Viewer) ''handleAlerts'',
     route ''POST'' ''/api/v1/admin/alerts/{id}/ack'' (RoleRoute Admin) ''handleAlertAck'',
     route ''GET'' ''/api/v1/admin/tags'' (RoleRoute Viewer) ''handleTags'',
     route ''POST'' ''/api/v1/admin/tags'' (RoleRoute Admin) ''handleTagCreate'',
     route ''DELETE'' ''/api/v1/admin/tags/{id}'' (RoleRoute Admin) ''handleTagDelete'',
     route ''GET'' ''/api/v1/admin/versions'' (RoleRoute Viewer) ''handleVersions'',
     route ''PATCH'' ''/api/v1/admin/versions/{service_type}'' (RoleRoute Admin) ''handleVersionPatch'',
     route ''GET'' ''/api/v1/admin/settings'' (RoleRoute Viewer) ''handleSettings'',
     route ''PATCH'' ''/api/v1/admin/settings'' (RoleRoute Admin) ''handleSettingsPatch'']"

text \<open>What a request gets of the guard of its route; \<open>agent\<close> is what \<open>requireAgent\<close> decides.\<close>

definition pass_guard :: "guard \<Rightarrow> bool \<Rightarrow> bytes option \<Rightarrow> int \<Rightarrow> session_db \<Rightarrow> actor option api_reply \<times> session_db" where
  "pass_guard g agent cookie now d =
     (case g of
        OpenRoute \<Rightarrow> (Success 200 None, d)
      | AgentRoute \<Rightarrow> (if agent then Success 200 None else Failure 401 ''unauthorized'', d)
      | RoleRoute role \<Rightarrow>
          (case requireRole role cookie now d of
             (Failure n code, d) \<Rightarrow> (Failure n code, d)
           | (Success n a, d) \<Rightarrow> (Success n (Some a), d)))"

subsection \<open>Requests over time\<close>

text \<open>A request with the cookie it presents; the answer says whether the request succeeded.\<close>

datatype session_op =
    SessLogin "(bytes \<times> bytes) option" bytes
  | SessLogout "bytes option"
  | SessReauth "bytes option" "bytes option"
  | SessEnsureAdmin bytes bytes
  | SessFaults "bool list"

fun succeeded :: "'a api_reply \<Rightarrow> bool" where
  "succeeded (Failure n code) = False"
| "succeeded (Success n a) = True"

definition serveLogout :: "bytes option \<Rightarrow> int \<Rightarrow> session_db \<Rightarrow> unit api_reply \<times> session_db" where
  "serveLogout cookie now d =
     (case requireRole Viewer cookie now d of
        (Failure n code, d) \<Rightarrow> (Failure n code, d)
      | (Success n a, d) \<Rightarrow> handleLogout cookie d)"

definition serveReauth :: "password_env \<Rightarrow> bytes option \<Rightarrow> bytes option \<Rightarrow> int \<Rightarrow> session_db \<Rightarrow> unit api_reply \<times> session_db" where
  "serveReauth E cookie body now d =
     (case requireRole Viewer cookie now d of
        (Failure n code, d) \<Rightarrow> (Failure n code, d)
      | (Success n a, d) \<Rightarrow> handleReauth E a body now d)"

fun session_apply :: "password_env \<Rightarrow> int \<Rightarrow> session_op \<Rightarrow> session_db \<Rightarrow> bool \<times> session_db" where
  "session_apply E now (SessLogin body raw) d = map_prod succeeded id (handleLogin E body raw now d)"
| "session_apply E now (SessLogout cookie) d = map_prod succeeded id (serveLogout cookie now d)"
| "session_apply E now (SessReauth cookie body) d = map_prod succeeded id (serveReauth E cookie body now d)"
| "session_apply E now (SessEnsureAdmin username password) d = EnsureAdmin E username password d"
| "session_apply E now (SessFaults fs) d = (True, d\<lparr>sdFaults := fs\<rparr>)"

text \<open>The run of a list of requests, with the requests that succeeded.\<close>

fun session_run :: "password_env \<Rightarrow> (int \<times> session_op) list \<Rightarrow> session_db \<Rightarrow> (int \<times> session_op) list \<times> session_db" where
  "session_run E [] d = ([], d)"
| "session_run E ((now, op) # ops) d =
     (let (ok, d) = session_apply E now op d; (done_ops, d) = session_run E ops d
      in (if ok then (now, op) # done_ops else done_ops, d))"

definition same_rows :: "session_db \<Rightarrow> session_db \<Rightarrow> bool" where
  "same_rows d d' \<longleftrightarrow> sdUsers d' = sdUsers d \<and> sdSessions d' = sdSessions d"

lemma same_rows_refl [simp]: "same_rows d d"
  by (simp add: same_rows_def)

lemma same_rows_trans [trans]: "same_rows a b \<Longrightarrow> same_rows b c \<Longrightarrow> same_rows a c"
  by (simp add: same_rows_def)

lemma sessionStatement_same: "sessionStatement d = (ok, d') \<Longrightarrow> same_rows d d'"
  by (auto simp: sessionStatement_def same_rows_def split: list.splits)

lemma find_session_same: "same_rows d d' \<Longrightarrow> find_session t now d' = find_session t now d"
  unfolding find_session_def same_rows_def by (elim conjE) (simp only:)

text \<open>What each operation does to the two tables.\<close>

lemma requireRole_same: "requireRole role cookie now d = (a, d') \<Longrightarrow> same_rows d d'"
  by (auto simp: requireRole_def split: option.splits prod.splits if_splits dest: sessionStatement_same)

lemma requireRole_Success:
  assumes "requireRole role (Some token) now d = (Success n a, d')"
  obtains r u where "r \<in> set (sdSessions d)" "seToken r = token" "now div second < seExpiresAt r"
    "find (\<lambda>u. usID u = seUser r) (sdUsers d) = Some u" "a = session_actor r u" "Require a role"
proof -
  obtain ok u where st: "sessionStatement d = (ok, u)" by (metis surj_pair)
  have same: "same_rows d u" using sessionStatement_same [OF st] .
  from assms st obtain r v where f: "find_session token now u = Some (r, v)" and a: "a = session_actor r v" "Require a role"
    by (auto simp: requireRole_def split: option.splits if_splits prod.splits)
  from f same have "find_session token now d = Some (r, v)" by (simp add: find_session_same)
  then have h: "find (\<lambda>r. seToken r = token \<and> now div second < seExpiresAt r \<and> find (\<lambda>u. usID u = seUser r) (sdUsers d) \<noteq> None) (sdSessions d) = Some r"
    "find (\<lambda>u. usID u = seUser r) (sdUsers d) = Some v"
    unfolding find_session_def by (auto split: option.splits)
  then show ?thesis
    using a find_Some_in [OF h(1)] h(2) that by blast
qed

lemma NewSession_cases:
  assumes "NewSession E raw i ttl now d = (res, d')"
  shows "res = None \<and> same_rows d d' \<or>
    (\<exists>r. res = Some (randomToken raw) \<and> seToken r = randomToken raw \<and> seID r = sessionReference E (randomToken raw) \<and> seUser r = i \<and>
         seExpiresAt r = (now + ttl) div second \<and> seReauthenticatedAt r = 0 \<and>
         seToken r \<notin> seToken ` set (sdSessions d) \<and> seID r \<notin> seID ` set (sdSessions d) \<and>
         sdSessions d' = sdSessions d @ [r] \<and> sdUsers d' = sdUsers d)"
proof -
  obtain ok u where st: "sessionStatement d = (ok, u)" by (metis surj_pair)
  show ?thesis
    using assms sessionStatement_same [OF st] unfolding NewSession_def st Let_def prod.case
    by (auto simp: same_rows_def split: if_splits)
qed

lemma NewSession_None: "fst (NewSession E raw i ttl now d) = None \<Longrightarrow> same_rows d (snd (NewSession E raw i ttl now d))"
  using NewSession_cases [of E raw i ttl now d] by (cases "NewSession E raw i ttl now d") auto

lemma login_answer:
  "(case p of (None, d) \<Rightarrow> (Failure 500 m, d) | (Some token, d) \<Rightarrow> (Success 200 token, d)) = (a, d') \<Longrightarrow>
     (fst p = None \<longleftrightarrow> \<not> succeeded a) \<and> snd p = d'"
  by (auto split: prod.splits option.splits)

lemma handleLogin_cases:
  assumes "handleLogin E body raw now d = (a, d')"
  shows "\<not> succeeded a \<and> same_rows d d' \<or>
    (\<exists>name pw u r. succeeded a \<and> body = Some (name, pw) \<and> find (\<lambda>u. usName u = name) (sdUsers d) = Some u \<and> pwCheck E (usHash u) pw \<and>
         seToken r = randomToken raw \<and> seUser r = usID u \<and>
         seExpiresAt r = (now + sessionTTL) div second \<and> seReauthenticatedAt r = 0 \<and>
         seToken r \<notin> seToken ` set (sdSessions d) \<and> seID r \<notin> seID ` set (sdSessions d) \<and>
         sdSessions d' = sdSessions d @ [r] \<and> sdUsers d' = sdUsers d)"
proof (cases body)
  case None
  then show ?thesis using assms by (auto simp: handleLogin_def)
next
  case (Some b)
  obtain name pw where b: "b = (name, pw)" by (metis surj_pair)
  obtain ok u where st: "sessionStatement d = (ok, u)" by (metis surj_pair)
  have same: "same_rows d u" using sessionStatement_same [OF st] .
  show ?thesis
  proof (cases "succeeded a")
    case False
    have "same_rows d d'"
      using assms False same unfolding handleLogin_def Some b st Let_def prod.case option.case
      by (auto split: if_splits option.splits dest!: login_answer intro: same_rows_trans NewSession_None)
    with False show ?thesis by simp
  next
    case True
    then obtain v where v: "ok" "find (\<lambda>u. usName u = name) (sdUsers u) = Some v" "pwCheck E (usHash v) pw"
      and n: "(case NewSession E raw (usID v) sessionTTL now u of (None, d) \<Rightarrow> (Failure 500 ''db_error'', d)
                      | (Some token, d) \<Rightarrow> (Success 200 token, d)) = (a, d')"
      using assms unfolding handleLogin_def Some b st Let_def prod.case option.case
      by (auto split: if_splits option.splits)
    obtain res w where nw: "NewSession E raw (usID v) sessionTTL now u = (res, w)" by (metis surj_pair)
    have "res \<noteq> None" using n nw True by (cases res) auto
    then show ?thesis
      using NewSession_cases [OF nw] n nw v same True Some b by (auto simp: same_rows_def)
  qed
qed

lemma handleLogout_cases:
  "handleLogout cookie d = (a, d') \<Longrightarrow> succeeded a \<and> sdUsers d' = sdUsers d \<and>
     (sdSessions d' = sdSessions d \<or> (\<exists>t. cookie = Some t \<and> sdSessions d' = filter (\<lambda>r. seToken r \<noteq> t) (sdSessions d)))"
  by (auto simp: handleLogout_def same_rows_def split: option.splits prod.splits dest!: sessionStatement_same)

definition reauthenticate :: "actor \<Rightarrow> int \<Rightarrow> session_row \<Rightarrow> session_row" where
  "reauthenticate a now r =
     (if seID r = acSessionID a \<and> seUser r = acUserID a then r\<lparr>seReauthenticatedAt := now div second\<rparr> else r)"

lemma reauthenticate_fields [simp]:
  "seToken (reauthenticate a now r) = seToken r" "seID (reauthenticate a now r) = seID r"
  "seUser (reauthenticate a now r) = seUser r" "seExpiresAt (reauthenticate a now r) = seExpiresAt r"
  by (simp_all add: reauthenticate_def)

lemma handleReauth_cases:
  assumes "handleReauth E a body now d = (rep, d')"
  shows "\<not> succeeded rep \<and> same_rows d d' \<or>
    (\<exists>pw u. body = Some pw \<and> find (\<lambda>u. usID u = acUserID a) (sdUsers d) = Some u \<and> pwCheck E (usHash u) pw \<and>
       sdUsers d' = sdUsers d \<and> sdSessions d' = map (reauthenticate a now) (sdSessions d) \<and>
       (succeeded rep \<longleftrightarrow> length (filter (\<lambda>r. seID r = acSessionID a \<and> seUser r = acUserID a) (sdSessions d)) = 1))"
proof (cases body)
  case None
  then show ?thesis using assms by (auto simp: handleReauth_def)
next
  case (Some pw)
  obtain ok u where st: "sessionStatement d = (ok, u)" by (metis surj_pair)
  obtain ok' v where st': "sessionStatement u = (ok', v)" by (metis surj_pair)
  have same: "same_rows d u" "same_rows u v" using sessionStatement_same [OF st] sessionStatement_same [OF st'] by auto
  have m: "map (\<lambda>r. if seID r = acSessionID a \<and> seUser r = acUserID a then r\<lparr>seReauthenticatedAt := now div second\<rparr> else r) xs =
    map (reauthenticate a now) xs" for xs
    by (simp add: reauthenticate_def)
  show ?thesis
    using assms same unfolding handleReauth_def Some st st' Let_def prod.case option.case m
    by (auto simp: same_rows_def split: if_splits option.splits)
qed

lemma EnsureAdmin_cases:
  assumes "EnsureAdmin E name pw d = (ok, d')"
  shows "sdSessions d' = sdSessions d \<and>
    (sdUsers d' = sdUsers d \<or>
     (\<exists>h. sdUsers d' = sdUsers d @ [\<lparr>usID = fold max (map usID (sdUsers d)) 0 + 1, usName = name, usHash = h, usRole = Admin\<rparr>]) \<or>
     sdUsers d' = map (\<lambda>u. if usName u = name then u\<lparr>usRole := Admin\<rparr> else u) (sdUsers d))"
  using assms unfolding EnsureAdmin_def Let_def
  by (auto simp: same_rows_def split: prod.splits if_splits option.splits dest!: sessionStatement_same)

subsection \<open>Where a session comes from\<close>

text \<open>The requests \<open>H\<close> that succeeded account for every row: its login, with the password of its user, and its reauthentication.\<close>

definition logged_in :: "password_env \<Rightarrow> (int \<times> session_op) list \<Rightarrow> session_db \<Rightarrow> session_row \<Rightarrow> bool" where
  "logged_in E H d r \<longleftrightarrow>
     (\<exists>t name pw raw u. (t, SessLogin (Some (name, pw)) raw) \<in> set H \<and> seToken r = randomToken raw \<and>
        seExpiresAt r = (t + sessionTTL) div second \<and>
        u \<in> set (sdUsers d) \<and> usID u = seUser r \<and> usName u = name \<and> pwCheck E (usHash u) pw)"

definition password_repeated :: "password_env \<Rightarrow> (int \<times> session_op) list \<Rightarrow> session_db \<Rightarrow> session_row \<Rightarrow> bool" where
  "password_repeated E H d r \<longleftrightarrow>
     (\<exists>t pw u. (t, SessReauth (Some (seToken r)) (Some pw)) \<in> set H \<and> seReauthenticatedAt r = t div second \<and>
        u \<in> set (sdUsers d) \<and> usID u = seUser r \<and> pwCheck E (usHash u) pw)"

definition sessions_accounted :: "password_env \<Rightarrow> (int \<times> session_op) list \<Rightarrow> session_db \<Rightarrow> bool" where
  "sessions_accounted E H d \<longleftrightarrow>
     distinct (map usID (sdUsers d)) \<and> distinct (map seToken (sdSessions d)) \<and> distinct (map seID (sdSessions d)) \<and>
     (\<forall>r\<in>set (sdSessions d). logged_in E H d r \<and> (0 < seReauthenticatedAt r \<longrightarrow> password_repeated E H d r))"

lemma fold_max_int_ge: "x \<in> set xs \<Longrightarrow> x \<le> fold max xs (i :: int)"
proof (induction xs arbitrary: i)
  case (Cons y ys)
  have mono: "j \<le> fold max ys j" for j :: int
    by (induction ys arbitrary: j) (auto intro: order_trans [OF max.cobounded2])
  show ?case using Cons mono [of "max y i"] by auto
qed simp

lemma users_grow:
  assumes "EnsureAdmin E name pw d = (ok, d')"
  shows "distinct (map usID (sdUsers d)) \<Longrightarrow> distinct (map usID (sdUsers d'))"
    and "u \<in> set (sdUsers d) \<Longrightarrow> \<exists>u'\<in>set (sdUsers d'). usID u' = usID u \<and> usName u' = usName u \<and> usHash u' = usHash u"
proof -
  have ids: "map usID (map (\<lambda>u. if usName u = name then u\<lparr>usRole := Admin\<rparr> else u) us) = map usID us" for us
    by (induction us) auto
  have new: "fold max (map usID us) 0 + 1 \<notin> usID ` set us" for us
    using fold_max_int_ge [of _ "map usID us" 0] by force
  from EnsureAdmin_cases [OF assms]
  consider "sdUsers d' = sdUsers d" | h where "sdUsers d' = sdUsers d @ [\<lparr>usID = fold max (map usID (sdUsers d)) 0 + 1, usName = name, usHash = h, usRole = Admin\<rparr>]"
    | "sdUsers d' = map (\<lambda>u. if usName u = name then u\<lparr>usRole := Admin\<rparr> else u) (sdUsers d)"
    by blast
  then show "distinct (map usID (sdUsers d)) \<Longrightarrow> distinct (map usID (sdUsers d'))"
  proof cases
    case (2 h)
    then show "distinct (map usID (sdUsers d)) \<Longrightarrow> distinct (map usID (sdUsers d'))" using new [of "sdUsers d"] by simp
  qed (simp_all only: ids)
  show "\<exists>u'\<in>set (sdUsers d'). usID u' = usID u \<and> usName u' = usName u \<and> usHash u' = usHash u" if u: "u \<in> set (sdUsers d)"
  proof -
    have "\<exists>u'\<in>f ` U. usID u' = usID u \<and> usName u' = usName u \<and> usHash u' = usHash u"
      if "u \<in> U" "\<And>u. usID (f u) = usID u \<and> usName (f u) = usName u \<and> usHash (f u) = usHash u" for U f
      using that by auto
    from this [OF u, of "\<lambda>u. if usName u = name then u\<lparr>usRole := Admin\<rparr> else u"] u EnsureAdmin_cases [OF assms]
    show ?thesis by (elim conjE disjE exE) (simp_all only: set_map set_append, auto)
  qed
qed

lemma accounted_mono:
  assumes "sessions_accounted E H d" "set H \<subseteq> set H'" "set (sdSessions d') \<subseteq> set (sdSessions d)" "distinct (map seToken (sdSessions d'))"
    "distinct (map seID (sdSessions d'))" "distinct (map usID (sdUsers d'))"
    "\<And>u. u \<in> set (sdUsers d) \<Longrightarrow> \<exists>u'\<in>set (sdUsers d'). usID u' = usID u \<and> usName u' = usName u \<and> usHash u' = usHash u"
  shows "sessions_accounted E H' d'"
proof -
  have "logged_in E H' d' r" if l: "logged_in E H d r" for r
  proof -
    from l obtain t name pw raw u where u: "(t, SessLogin (Some (name, pw)) raw) \<in> set H" "seToken r = randomToken raw"
      "seExpiresAt r = (t + sessionTTL) div second" "u \<in> set (sdUsers d)" "usID u = seUser r" "usName u = name" "pwCheck E (usHash u) pw"
      unfolding logged_in_def by blast
    from assms(7) [OF u(4)] obtain v where "v \<in> set (sdUsers d')" "usID v = usID u" "usName v = usName u" "usHash v = usHash u" by blast
    with u assms(2) show ?thesis unfolding logged_in_def
      by (intro exI [of _ t] exI [of _ name] exI [of _ pw] exI [of _ raw] exI [of _ v]) auto
  qed
  moreover have "password_repeated E H' d' r" if l: "password_repeated E H d r" for r
  proof -
    from l obtain t pw u where u: "(t, SessReauth (Some (seToken r)) (Some pw)) \<in> set H" "seReauthenticatedAt r = t div second"
      "u \<in> set (sdUsers d)" "usID u = seUser r" "pwCheck E (usHash u) pw"
      unfolding password_repeated_def by blast
    from assms(7) [OF u(3)] obtain v where "v \<in> set (sdUsers d')" "usID v = usID u" "usName v = usName u" "usHash v = usHash u" by blast
    with u assms(2) show ?thesis unfolding password_repeated_def
      by (intro exI [of _ t] exI [of _ pw] exI [of _ v]) auto
  qed
  ultimately show ?thesis using assms(1,3-6) unfolding sessions_accounted_def by blast
qed

lemma logged_in_frame:
  "seToken r' = seToken r \<Longrightarrow> seExpiresAt r' = seExpiresAt r \<Longrightarrow> seUser r' = seUser r \<Longrightarrow> logged_in E H d r \<Longrightarrow> logged_in E H d r'"
  by (simp add: logged_in_def)

lemma one_hit:
  assumes "r \<in> set rs" "distinct (map seID rs)"
  shows "filter (\<lambda>q. seID q = seID r \<and> seUser q = seUser r) rs = [r]"
  using assms
proof (induction rs)
  case (Cons q qs)
  show ?case
  proof (cases "q = r")
    case True
    then have "\<And>x. x \<in> set qs \<Longrightarrow> seID x \<noteq> seID r" using True Cons.prems(2) by (auto simp: image_iff)
    then show ?thesis using True by (auto simp: filter_empty_conv)
  next
    case False
    then have "r \<in> set qs" "seID q \<noteq> seID r" using Cons.prems by force+
    then show ?thesis using Cons by auto
  qed
qed simp

lemma accounted_login:
  assumes acc: "sessions_accounted E H d" and "handleLogin E body raw now d = (a, d')"
  shows "sessions_accounted E (H @ (if succeeded a then [(now, SessLogin body raw)] else [])) d'"
  using handleLogin_cases [OF assms(2)]
proof (elim disjE exE conjE)
  assume "\<not> succeeded a" "same_rows d d'"
  then show ?thesis using acc by (intro accounted_mono [OF acc]) (auto simp: same_rows_def sessions_accounted_def)
next
  fix name pw u r
  assume ok: "succeeded a" and b: "body = Some (name, pw)" and u: "find (\<lambda>u. usName u = name) (sdUsers d) = Some u" "pwCheck E (usHash u) pw"
    and r: "seToken r = randomToken raw" "seUser r = usID u" "seExpiresAt r = (now + sessionTTL) div second" "seReauthenticatedAt r = 0"
    and fresh: "seToken r \<notin> seToken ` set (sdSessions d)" "seID r \<notin> seID ` set (sdSessions d)"
    and d': "sdSessions d' = sdSessions d @ [r]" "sdUsers d' = sdUsers d"
  let ?H = "H @ [(now, SessLogin body raw)]"
  have "sessions_accounted E ?H d"
    using acc by (intro accounted_mono [OF acc]) (auto simp: sessions_accounted_def)
  moreover have "logged_in E ?H d' r" using find_Some_in [OF u(1)] u(2) r b d' unfolding logged_in_def
    by (intro exI [of _ now] exI [of _ name] exI [of _ pw] exI [of _ raw] exI [of _ u]) auto
  ultimately show ?thesis using ok r(4) fresh d'
    by (auto simp: sessions_accounted_def logged_in_def password_repeated_def)
qed

lemma accounted_reauth:
  assumes acc: "sessions_accounted E H d" and "serveReauth E cookie body now d = (rep, d')"
  shows "sessions_accounted E (H @ (if succeeded rep then [(now, SessReauth cookie body)] else [])) d'"
proof -
  have keep: "sessions_accounted E (H @ xs) e" if "same_rows d e" for e xs
    using that acc by (intro accounted_mono [OF acc]) (auto simp: same_rows_def sessions_accounted_def)
  obtain res e where rr: "requireRole Viewer cookie now d = (res, e)" by (metis surj_pair)
  have same: "same_rows d e" using requireRole_same [OF rr] .
  show ?thesis
  proof (cases res)
    case (Failure n code)
    then show ?thesis using assms(2) rr keep [OF same, of "[]"] by (auto simp: serveReauth_def)
  next
    case (Success n a)
    then obtain token where c: "cookie = Some token" using rr by (cases cookie) (auto simp: requireRole_def)
    from rr have rr: "requireRole Viewer (Some token) now d = (Success n a, e)" by (simp add: c Success)
    from requireRole_Success [OF rr] obtain r0 v where r0: "r0 \<in> set (sdSessions d)" "seToken r0 = token" "a = session_actor r0 v"
      by metis
    have h: "handleReauth E a body now e = (rep, d')" using assms(2) rr Success c by (simp add: serveReauth_def)
    have ids: "distinct (map seID (sdSessions d))" using acc by (simp add: sessions_accounted_def)
    from handleReauth_cases [OF h] show ?thesis
    proof (elim disjE exE conjE)
      assume "\<not> succeeded rep" "same_rows e d'"
      then show ?thesis using keep [OF same_rows_trans [OF same], of d' "[]"] by simp
    next
      fix pw u
      assume b: "body = Some pw" and u: "find (\<lambda>u. usID u = acUserID a) (sdUsers e) = Some u" "pwCheck E (usHash u) pw"
        and d': "sdUsers d' = sdUsers e" "sdSessions d' = map (reauthenticate a now) (sdSessions e)"
        and ok: "succeeded rep \<longleftrightarrow> length (filter (\<lambda>r. seID r = acSessionID a \<and> seUser r = acUserID a) (sdSessions e)) = 1"
      have e: "sdUsers e = sdUsers d" "sdSessions e = sdSessions d" using same by (simp_all add: same_rows_def)
      have ok: "succeeded rep" using ok one_hit [OF r0(1) ids] by (simp add: e r0(3) session_actor_def)
      let ?H = "H @ [(now, SessReauth cookie body)]"
      have acc': "sessions_accounted E ?H d" by (rule keep) simp
      have hit: "reauthenticate a now r = r" if "r \<in> set (sdSessions d)" "r \<noteq> r0" for r
      proof -
        have "seID r \<noteq> seID r0" using that r0(1) ids by (metis distinct_map inj_on_def)
        then show ?thesis by (simp add: reauthenticate_def r0(3) session_actor_def)
      qed
      have "password_repeated E ?H d' (reauthenticate a now r0)"
        using find_Some_in [OF u(1)] u(2) r0 b c d' e unfolding password_repeated_def
        by (intro exI [of _ now] exI [of _ pw] exI [of _ u]) (auto simp: reauthenticate_def session_actor_def)
      moreover have "password_repeated E ?H d' r" if "password_repeated E ?H d r" for r
        using that d' e by (simp add: password_repeated_def)
      moreover have "logged_in E ?H d' (reauthenticate a now r)" if "logged_in E ?H d r" for r
        using that d' e by (simp add: logged_in_def)
      ultimately have "logged_in E ?H d' q \<and> (0 < seReauthenticatedAt q \<longrightarrow> password_repeated E ?H d' q)"
        if "q \<in> set (sdSessions d')" for q
        using that acc' hit d'(2) e unfolding sessions_accounted_def by (smt (verit) imageE set_map)
      moreover have "map seToken (sdSessions d') = map seToken (sdSessions d)" "map seID (sdSessions d') = map seID (sdSessions d)"
        by (simp_all add: d' e)
      ultimately show ?thesis using acc ok d'(1) e by (simp add: sessions_accounted_def)
    qed
  qed
qed

lemma accounted_step:
  assumes acc: "sessions_accounted E H d" and step: "session_apply E now op d = (ok, d')"
  shows "sessions_accounted E (H @ (if ok then [(now, op)] else [])) d'"
proof (cases op)
  case (SessLogin body raw)
  then show ?thesis using step accounted_login [OF acc, of body raw now] by (cases "handleLogin E body raw now d") auto
next
  case (SessReauth cookie body)
  then show ?thesis using step accounted_reauth [OF acc, of cookie body now] by (cases "serveReauth E cookie body now d") auto
next
  case (SessLogout cookie)
  obtain a e where l: "serveLogout cookie now d = (a, e)" by (metis surj_pair)
  have "sdUsers e = sdUsers d" "sdSessions e = sdSessions d \<or> (\<exists>t. sdSessions e = filter (\<lambda>r. seToken r \<noteq> t) (sdSessions d))"
    using l by (auto simp: serveLogout_def same_rows_def split: prod.splits api_reply.splits dest!: requireRole_same handleLogout_cases)
  then have "sessions_accounted E H' e" if "set H \<subseteq> set H'" for H'
    using acc that by (intro accounted_mono [OF acc]) (auto simp: sessions_accounted_def distinct_map_filter)
  then show ?thesis using step l SessLogout by auto
next
  case (SessEnsureAdmin name pw)
  then have "EnsureAdmin E name pw d = (ok, d')" using step by simp
  from users_grow [OF this] EnsureAdmin_cases [OF this] show ?thesis
    using acc by (intro accounted_mono [OF acc]) (auto simp: sessions_accounted_def)
next
  case (SessFaults fs)
  then show ?thesis using step acc by (intro accounted_mono [OF acc]) (auto simp: sessions_accounted_def)
qed

lemma accounted_run:
  "sessions_accounted E H d \<Longrightarrow> session_run E ops d = (H', d') \<Longrightarrow> sessions_accounted E (H @ H') d'"
proof (induction ops arbitrary: H d H')
  case (Cons p ops)
  obtain now op where p: "p = (now, op)" by (metis surj_pair)
  obtain ok e where st: "session_apply E now op d = (ok, e)" by (metis surj_pair)
  obtain K f where run: "session_run E ops e = (K, f)" by (metis surj_pair)
  have f: "f = d'" "H' = (if ok then (now, op) # K else K)" using Cons.prems(2) by (simp_all add: p st run)
  from Cons.IH [OF accounted_step [OF Cons.prems(1) st] run [unfolded f]] show ?case
    by (simp add: f split: if_splits)
qed simp

lemma div_second_less: "now div second < x div second \<Longrightarrow> now < (x :: int)"
  by (smt (verit) zdiv_mono1)

text \<open>C33. Every request that is served was authenticated: from a database without sessions, whatever requests follow in whatever order and
  whichever statements fail, a cookie that passes \<open>requireRole\<close> is the token of a login of the last seven days, made with the name and the
  password of the user the request acts for. If the request counts as recently reauthenticated, the password was given again for this very
  cookie, at most \<open>maxAge\<close> before (the second in which it was given counts as a whole).\<close>

theorem sessions_are_authenticated:
  assumes "distinct (map usID (sdUsers d0))" and "sdSessions d0 = []" and "session_run E ops d0 = (H, d)"
    and "requireRole role (Some token) now d = (Success n a, d')"
  shows "\<exists>u. u \<in> set (sdUsers d) \<and> usID u = acUserID a \<and> usName u = acUsername a \<and> Require a role \<and>
    (\<exists>t pw raw. (t, SessLogin (Some (usName u, pw)) raw) \<in> set H \<and> token = randomToken raw \<and>
       now < t + sessionTTL \<and> pwCheck E (usHash u) pw) \<and>
    (RequireRecentReauth now a maxAge \<longrightarrow>
       (\<exists>t pw. (t, SessReauth (Some token) (Some pw)) \<in> set H \<and> now - maxAge \<le> t \<and> t < now + second \<and> pwCheck E (usHash u) pw))"
proof -
  have "sessions_accounted E [] d0" using assms(1,2) by (simp add: sessions_accounted_def)
  from accounted_run [OF this assms(3)] have acc: "sessions_accounted E H d" by simp
  from requireRole_Success [OF assms(4)] obtain r u where r: "r \<in> set (sdSessions d)" "seToken r = token" "now div second < seExpiresAt r"
    and u: "find (\<lambda>u. usID u = seUser r) (sdUsers d) = Some u" and a: "a = session_actor r u" "Require a role" by metis
  have uu: "u \<in> set (sdUsers d)" "usID u = seUser r" using find_Some_in [OF u] by auto
  have same: "v = u" if "v \<in> set (sdUsers d)" "usID v = seUser r" for v
    using that uu acc by (metis distinct_map inj_on_def sessions_accounted_def)
  have l: "logged_in E H d r" "0 < seReauthenticatedAt r \<Longrightarrow> password_repeated E H d r" using acc r(1) by (auto simp: sessions_accounted_def)
  have "\<exists>t pw raw. (t, SessLogin (Some (usName u, pw)) raw) \<in> set H \<and> token = randomToken raw \<and> now < t + sessionTTL \<and> pwCheck E (usHash u) pw"
    using l(1) r same unfolding logged_in_def by (metis div_second_less)
  moreover have "\<exists>t pw. (t, SessReauth (Some token) (Some pw)) \<in> set H \<and> now - maxAge \<le> t \<and> t < now + second \<and> pwCheck E (usHash u) pw"
    if rec: "RequireRecentReauth now a maxAge"
  proof -
    from rec have pos: "0 < seReauthenticatedAt r" "seReauthenticatedAt r * second \<le> now" "now - seReauthenticatedAt r * second \<le> maxAge"
      by (auto simp: RequireRecentReauth_def a(1) session_actor_def split: if_splits)
    from l(2) [OF pos(1)] obtain t pw v where v: "(t, SessReauth (Some token) (Some pw)) \<in> set H" "seReauthenticatedAt r = t div second"
      "v \<in> set (sdUsers d)" "usID v = seUser r" "pwCheck E (usHash v) pw"
      unfolding password_repeated_def r(2) by blast
    have "t div second * second \<le> t" "t < t div second * second + second" by presburger+
    then show ?thesis using pos v same [OF v(3,4)] by (intro exI [of _ t] exI [of _ pw]) simp
  qed
  moreover have "usID u = acUserID a" "usName u = acUsername a" using uu(2) by (simp_all add: a(1) session_actor_def)
  ultimately show ?thesis using uu(1) a(2) by (intro exI [of _ u]) simp
qed

lemma session_run_no_token:
  assumes "session_run E ops d = (H, d')" and "token \<notin> seToken ` set (sdSessions d)"
    and "\<forall>(t, op)\<in>set ops. \<forall>body raw. op = SessLogin body raw \<longrightarrow> randomToken raw \<noteq> token"
  shows "token \<notin> seToken ` set (sdSessions d')"
  using assms
proof (induction ops arbitrary: d H)
  case (Cons p ops)
  obtain now op where p: "p = (now, op)" by (metis surj_pair)
  obtain ok e where st: "session_apply E now op d = (ok, e)" by (metis surj_pair)
  obtain K f where run: "session_run E ops e = (K, f)" by (metis surj_pair)
  have f: "f = d'" using Cons.prems(1) by (simp add: p st run)
  have "token \<notin> seToken ` set (sdSessions e)"
  proof (cases op)
    case (SessLogin body raw)
    then have "randomToken raw \<noteq> token" using Cons.prems(3) p by auto
    then show ?thesis using st SessLogin Cons.prems(2)
      by (cases "handleLogin E body raw now d") (auto simp: same_rows_def dest!: handleLogin_cases)
  next
    case (SessReauth cookie body)
    then show ?thesis using st Cons.prems(2)
      by (auto simp: serveReauth_def same_rows_def map_prod_def split: prod.splits api_reply.splits dest!: requireRole_same handleReauth_cases)
  next
    case (SessLogout cookie)
    then show ?thesis using st Cons.prems(2)
      by (auto simp: serveLogout_def same_rows_def map_prod_def split: prod.splits api_reply.splits dest!: requireRole_same handleLogout_cases)
  next
    case (SessEnsureAdmin name pw)
    then show ?thesis using st Cons.prems(2) by (auto dest!: EnsureAdmin_cases)
  next
    case (SessFaults fs)
    then show ?thesis using st Cons.prems(2) by auto
  qed
  then show ?case using Cons.IH [OF run [unfolded f]] Cons.prems(3) by simp
qed simp

lemma requireRole_no_token:
  "token \<notin> seToken ` set (sdSessions d) \<Longrightarrow> fst (requireRole role (Some token) now d) = Failure 401 ''unauthorized''"
  by (auto simp: requireRole_def find_session_def same_rows_def find_None_iff split: prod.splits option.splits
      dest!: sessionStatement_same find_Some_in)

text \<open>C34. A logout answers success whether or not the database deleted the session. When it did, the cookie is worthless for good: no later
  request passes \<open>requireRole\<close> with it, whatever happens in between, as long as no login draws the same token again. When the statement
  failed, the answer is the same and the cookie goes on being served exactly as before.\<close>

theorem logout_is_final:
  assumes "sdFaults d0 = False # fault # fs" and "requireRole Viewer (Some token) now d0 = (Success n a, d1)"
    and "serveLogout (Some token) now d0 = (answer, d)" and "session_run E ops d = (H, d')"
    and "\<forall>(t, op)\<in>set ops. \<forall>body raw. op = SessLogin body raw \<longrightarrow> randomToken raw \<noteq> token"
  shows "answer = Success 200 () \<and>
    (\<not> fault \<longrightarrow> fst (requireRole role (Some token) later d') = Failure 401 ''unauthorized'') \<and>
    (fault \<longrightarrow> fst (requireRole role (Some token) later (d\<lparr>sdFaults := []\<rparr>)) = fst (requireRole role (Some token) later (d0\<lparr>sdFaults := []\<rparr>)))"
proof -
  have d1: "d1 = d0\<lparr>sdFaults := fault # fs\<rparr>"
    using assms(1,2) by (auto simp: requireRole_def sessionStatement_def split: option.splits prod.splits if_splits)
  have out: "handleLogout (Some token) d1 = (answer, d)" using assms(2,3) by (simp add: serveLogout_def)
  show ?thesis
  proof (cases fault)
    case True
    then have "answer = Success 200 ()" "same_rows d0 d" using out by (auto simp: d1 handleLogout_def sessionStatement_def same_rows_def)
    moreover from this(2) have "find_session token later (d\<lparr>sdFaults := []\<rparr>) = find_session token later (d0\<lparr>sdFaults := []\<rparr>)"
      by (intro find_session_same) (simp add: same_rows_def)
    ultimately show ?thesis using True by (auto simp: requireRole_def sessionStatement_def split: option.splits)
  next
    case False
    then have "answer = Success 200 ()" "token \<notin> seToken ` set (sdSessions d)" using out
      by (auto simp: d1 handleLogout_def sessionStatement_def)
    with False requireRole_no_token [OF session_run_no_token [OF assms(4) _ assms(5)]] show ?thesis by simp
  qed
qed

definition plain_env :: password_env where
  "plain_env = \<lparr>pwCheck = (=), pwHash = Some, pwSha256 = rev\<rparr>"

definition root_db :: session_db where
  "root_db = \<lparr>sdUsers = [\<lparr>usID = 1, usName = ''root'', usHash = ''pw'', usRole = Admin\<rparr>], sdSessions = [], sdFaults = []\<rparr>"

definition root_requests :: "(int \<times> session_op) list" where
  "root_requests = [(5 * second, SessLogin (Some (''root'', ''pw'')) ''A''), (7 * second, SessReauth (Some ''41'') (Some ''pw''))]"

theorem sessions_are_authenticated_witness:
  "\<exists>H d n a d'. session_run plain_env root_requests root_db = (H, d) \<and> requireRole Admin (Some ''41'') (9 * second) d = (Success n a, d') \<and>
    RequireRecentReauth (9 * second) a (5 * minute) \<and>
    (\<exists>t pw. (t, SessReauth (Some ''41'') (Some pw)) \<in> set H \<and> 9 * second - 5 * minute \<le> t)"
proof -
  let ?H = "fst (session_run plain_env root_requests root_db)" and ?d = "snd (session_run plain_env root_requests root_db)"
  let ?a = "\<lparr>acUserID = 1, acUsername = ''root'', acRole = Admin, acSessionID = ''3134'', acReauthenticatedAt = Some (7 * second)\<rparr>"
  have r: "requireRole Admin (Some ''41'') (9 * second) ?d = (Success 200 ?a, ?d)" by code_simp
  have re: "RequireRecentReauth (9 * second) ?a (5 * minute)" by code_simp
  have "distinct (map usID (sdUsers root_db))" "sdSessions root_db = []" by (simp_all add: root_db_def)
  from sessions_are_authenticated [OF this surjective_pairing r, of "5 * minute"] re
  have "\<exists>t pw. (t, SessReauth (Some ''41'') (Some pw)) \<in> set ?H \<and> 9 * second - 5 * minute \<le> t" by blast
  with r re show ?thesis by (metis surjective_pairing)
qed

definition root_session :: session_db where
  "root_session = root_db\<lparr>sdSessions := [\<lparr>seToken = ''41'', seID = ''3134'', seUser = 1, seCreatedAt = 5, seExpiresAt = 604805, seReauthenticatedAt = 0\<rparr>],
     sdFaults := [False, False]\<rparr>"

theorem logout_is_final_witness:
  "fst (requireRole Viewer (Some ''41'') (9 * second)
     (snd (session_run plain_env [(8 * second, SessLogin (Some (''root'', ''pw'')) ''B'')] (snd (serveLogout (Some ''41'') (7 * second) root_session)))))
   = Failure 401 ''unauthorized''"
proof -
  have f: "sdFaults root_session = False # False # []" by (simp add: root_session_def)
  have r: "requireRole Viewer (Some ''41'') (7 * second) root_session =
    (Success 200 \<lparr>acUserID = 1, acUsername = ''root'', acRole = Admin, acSessionID = ''3134'', acReauthenticatedAt = None\<rparr>,
     root_session\<lparr>sdFaults := [False]\<rparr>)" by code_simp
  have t: "randomToken ''B'' \<noteq> ''41''" by code_simp
  have ops: "\<forall>(t, op)\<in>set [(8 * second, SessLogin (Some (''root'', ''pw'')) ''B'')]. \<forall>body raw. op = SessLogin body raw \<longrightarrow> randomToken raw \<noteq> ''41''"
    using t by simp
  show ?thesis
    using logout_is_final [OF f r surjective_pairing surjective_pairing ops, where role = Viewer and later = "9 * second" and E = plain_env] by blast
qed

end
