(* ===== verification/PanelReleases.thy ===== *)
theory PanelReleases
  imports Dispatcher UpdateManifest PanelSessions Enrollment
begin

text \<open>
  Releases, upgrades and commands of the Panel's API: \<open>internal/panel/api/releases.go\<close> and \<open>commands.go\<close>, over the table
  \<open>agent_releases\<close>, the columns of \<open>agent_identities\<close> that they read, the command store and the hub. JSON, URLs and the HTTP client of the
  GitHub import are parameters of the server; a statement consumes one entry of \<open>rdFaults\<close>, the store has its own. A request carries the
  actor of its session, the decoded body and, for new commands, the random bytes of their IDs.
\<close>

subsection \<open>State\<close>

record release_row =
  rlID :: int
  rlManifest :: bytes
  rlSignature :: bytes
  rlVersion :: bytes
  rlOS :: bytes
  rlArch :: bytes
  rlSize :: int64
  rlSHA256 :: bytes
  rlUser :: int
  rlImportedAt :: int

record agent_columns =
  acAgentID :: bytes
  acVersion :: bytes
  acOS :: bytes
  acArch :: bytes
  acCapabilities :: bytes
  acRevokedAt :: int
  acExpiresAt :: int

record 'm release_db =
  rdReleases :: "release_row list"
  rdAgents :: "agent_columns list"
  rdStore :: store
  rdHub :: "'m hub"
  rdFaults :: "bool list"

record 'm release_server =
  rsStore :: bool
  rsDispatcher :: bool
  rsReleaseKey :: "bytes option option"
  rsPanelVersion :: bytes
  rsCrypto :: crypto
  rsSigner :: bytes
  rsParseURL :: "bytes \<Rightarrow> parsed_url option"
  rsValid :: "bytes \<Rightarrow> bool"
  rsDecode :: "bytes \<Rightarrow> manifest json_doc"
  rsCapabilities :: "bytes \<Rightarrow> action list option"
  rsObject :: "bytes \<Rightarrow> unit json_doc"
  rsPayload :: "manifest \<Rightarrow> bytes \<Rightarrow> bytes \<Rightarrow> bytes"
  rsTextLength :: "bytes \<Rightarrow> nat"
  rsEncode :: "command \<Rightarrow> 'm option"
  rsFetch :: "bytes \<Rightarrow> (nat \<times> bytes option) option"

definition releaseStatement :: "'m release_db \<Rightarrow> bool \<times> 'm release_db" where
  "releaseStatement d = (case rdFaults d of [] \<Rightarrow> (True, d) | f # fs \<Rightarrow> (\<not> f, d\<lparr>rdFaults := fs\<rparr>))"

subsection \<open>Releases\<close>

definition releaseVerification :: "'m release_server \<Rightarrow> bytes \<Rightarrow> (bytes \<times> bytes) option" where
  "releaseVerification S signatureText =
     (case rsReleaseKey S of
        Some (Some public) \<Rightarrow>
          if length public \<noteq> PublicKeySize then None
          else (case b64_decode signatureText of
            None \<Rightarrow> None
          | Some signature \<Rightarrow>
              if length signature \<noteq> SignatureSize \<or> b64_encode signature \<noteq> signatureText then None
              else Some (public, signature))
      | _ \<Rightarrow> None)"

definition storeRelease :: "'m release_server \<Rightarrow> int \<Rightarrow> manifest \<Rightarrow> bytes \<Rightarrow> int \<Rightarrow> 'm release_db \<Rightarrow> (int \<times> int) option \<times> 'm release_db" where
  "storeRelease S userID m signature now d =
     (let (ok, d) = releaseStatement d;
          row = \<lparr>rlID = fold max (map rlID (rdReleases d)) 0 + 1, rlManifest = ManifestBytes m, rlSignature = signature,
                 rlVersion = mfVersion m, rlOS = mfOS m, rlArch = mfArch m, rlSize = mfByteSize m, rlSHA256 = mfSHA256 m,
                 rlUser = userID, rlImportedAt = now div second\<rparr>
      in if \<not> ok \<or> 65536 < rsTextLength S (ManifestBytes m) \<or> sint (mfByteSize m) < 0 \<or>
            (\<exists>r\<in>set (rdReleases d). rlVersion r = mfVersion m \<and> rlOS r = mfOS m \<and> rlArch r = mfArch m) then (None, d)
         else (Some (rlID row, rlImportedAt row), d\<lparr>rdReleases := rdReleases d @ [row]\<rparr>))"

definition import_options :: "'m release_server \<Rightarrow> bytes \<Rightarrow> bytes \<Rightarrow> int \<Rightarrow> verify_options" where
  "import_options S os arch now =
     \<lparr>voCurrentVersion = ''v0.0.0'', voPanelVersion = (if rsPanelVersion S = [] then ''v0.0.0'' else rsPanelVersion S), voOS = os, voArch = arch,
      voControlVersion = Version, voArtifact = None, voNow = word_of_int (now div second)\<rparr>"

definition handleImportRelease ::
    "'m release_server \<Rightarrow> actor option \<Rightarrow> (manifest \<times> bytes) json_doc \<Rightarrow> int \<Rightarrow> 'm release_db \<Rightarrow> (int \<times> manifest \<times> bytes \<times> int) api_reply \<times> 'm release_db" where
  "handleImportRelease S actor body now d =
     (case (actor, rsReleaseKey S) of
        (Some a, Some key) \<Rightarrow>
          (case decodeRequest body of
             None \<Rightarrow> (Failure 400 ''bad_request'', d)
           | Some (m, signatureText) \<Rightarrow>
               (case releaseVerification S signatureText of
                  None \<Rightarrow> (Failure 400 ''invalid_signature'', d)
                | Some (public, signature) \<Rightarrow>
                    if VerifyManifest (rsCrypto S) (rsParseURL S) public \<lparr>smManifest = m, smSignature = signature\<rparr>
                         (import_options S (mfOS m) (mfArch m) now) \<noteq> None
                    then (Failure 400 ''invalid_release'', d)
                    else (case storeRelease S (acUserID a) m signatureText now d of
                            (None, d) \<Rightarrow> (Failure 409 ''release_exists'', d)
                          | (Some (i, importedAt), d) \<Rightarrow> (Success 201 (i, m, signatureText, importedAt), d))))
      | _ \<Rightarrow> (Failure 503 ''unavailable'', d))"

text \<open>\<open>fetchReleaseFile\<close>: an answer has a status and a body, \<open>None\<close> when reading its first 128 KiB and one byte fails.\<close>

definition fetchReleaseFile :: "(bytes \<Rightarrow> (nat \<times> bytes option) option) \<Rightarrow> bytes \<Rightarrow> bytes option" where
  "fetchReleaseFile http url =
     (case http url of
        None \<Rightarrow> None
      | Some (status, body) \<Rightarrow>
          if status \<noteq> 200 then None
          else (case body of
            None \<Rightarrow> None
          | Some b \<Rightarrow> let b = take (128 * 1024 + 1) b in if 128 * 1024 < length b then None else Some b))"

definition validReleaseRequest :: "bytes \<Rightarrow> bytes \<Rightarrow> bytes \<Rightarrow> bool" where
  "validReleaseRequest version goos arch =
     (if goos \<noteq> ''linux'' \<or> arch \<noteq> ''amd64'' \<and> arch \<noteq> ''arm64'' then False
      else if length version < 6 \<or> version ! 0 \<noteq> CHR ''v'' then False
      else
        let parts = split_char CHR ''.'' (drop 1 version) in
        if length parts \<noteq> 3 then False
        else list_all (\<lambda>part. \<not> (part = [] \<or> 1 < length part \<and> part ! 0 = CHR ''0'') \<and> list_all is_digit part) parts)"

definition githubReleaseBase :: bytes where
  "githubReleaseBase = ''https://github.com/s2005lg/net-probe/releases/download''"

definition release_base :: "bytes \<Rightarrow> bytes \<Rightarrow> bytes \<Rightarrow> bytes" where
  "release_base version os arch = trim_right ''/'' githubReleaseBase @ ''/'' @ version @ ''/'' @ ''net-probe_'' @ os @ ''_'' @ arch"

definition handleImportGitHubRelease ::
    "'m release_server \<Rightarrow> actor option \<Rightarrow> (bytes \<times> bytes \<times> bytes) json_doc \<Rightarrow> int \<Rightarrow> 'm release_db \<Rightarrow>
     (int \<times> manifest \<times> bytes \<times> int) api_reply \<times> 'm release_db" where
  "handleImportGitHubRelease S actor body now d =
     (case (actor, rsReleaseKey S) of
        (Some a, Some key) \<Rightarrow>
          (case decodeRequest body of
             None \<Rightarrow> (Failure 400 ''bad_request'', d)
           | Some (version, os, arch) \<Rightarrow>
               if \<not> validReleaseRequest version os arch then (Failure 400 ''bad_request'', d)
               else (case fetchReleaseFile (rsFetch S) (release_base version os arch @ ''.manifest.json'') of
                 None \<Rightarrow> (Failure 502 ''release_fetch_failed'', d)
               | Some manifestBody \<Rightarrow> (case DecodeManifest (rsDecode S) manifestBody of
                   Inl _ \<Rightarrow> (Failure 400 ''invalid_release'', d)
                 | Inr m \<Rightarrow> (case fetchReleaseFile (rsFetch S) (release_base version os arch @ ''.manifest.sig'') of
                     None \<Rightarrow> (Failure 502 ''release_fetch_failed'', d)
                   | Some signatureBody \<Rightarrow>
                       let signatureText = trim_space signatureBody in
                       (case releaseVerification S signatureText of
                          None \<Rightarrow> (Failure 400 ''invalid_signature'', d)
                        | Some (public, signature) \<Rightarrow>
                            if mfVersion m \<noteq> version \<or> mfOS m \<noteq> os \<or> mfArch m \<noteq> arch then (Failure 400 ''invalid_release'', d)
                            else if VerifyManifest (rsCrypto S) (rsParseURL S) public \<lparr>smManifest = m, smSignature = signature\<rparr>
                                      (import_options S os arch now) \<noteq> None
                            then (Failure 400 ''invalid_release'', d)
                            else (case storeRelease S (acUserID a) m signatureText now d of
                                    (None, d) \<Rightarrow> (Failure 409 ''release_exists'', d)
                                  | (Some (i, importedAt), d) \<Rightarrow> (Success 201 (i, m, signatureText, importedAt), d)))))))
      | _ \<Rightarrow> (Failure 503 ''unavailable'', d))"

definition handleReleases :: "'m release_server \<Rightarrow> 'm release_db \<Rightarrow> (int \<times> manifest \<times> bytes \<times> int) list api_reply \<times> 'm release_db" where
  "handleReleases S d =
     (let (ok, d) = releaseStatement d in
      if \<not> ok then (Failure 500 ''db_error'', d)
      else
        (Success 200
           (List.map_filter (\<lambda>r. case DecodeManifest (rsDecode S) (rlManifest r) of
                Inl _ \<Rightarrow> None | Inr m \<Rightarrow> Some (rlID r, m, rlSignature r, rlImportedAt r))
              (take 100 (sort_key (\<lambda>r. (- rlImportedAt r, - rlID r)) (rdReleases d)))), d))"

subsection \<open>Upgrades\<close>

record upgrade_request =
  urVersion :: bytes
  urOS :: bytes
  urArch :: bytes
  urAgents :: "bytes list"
  urConfirmed :: bool

definition containsAction :: "action list \<Rightarrow> action \<Rightarrow> bool" where
  "containsAction actions target \<longleftrightarrow> target \<in> set actions"

definition usable_agent :: "bytes \<Rightarrow> int \<Rightarrow> 'm release_db \<Rightarrow> agent_columns option" where
  "usable_agent agentID now d =
     (case find (\<lambda>a. acAgentID a = agentID) (rdAgents d) of
        None \<Rightarrow> None
      | Some a \<Rightarrow> if acRevokedAt a \<noteq> 0 \<or> acExpiresAt a \<le> now div second then None else Some a)"

definition can_do :: "'m release_server \<Rightarrow> agent_columns \<Rightarrow> action \<Rightarrow> bool" where
  "can_do S a action = (case rsCapabilities S (acCapabilities a) of None \<Rightarrow> False | Some actions \<Rightarrow> containsAction actions action)"

definition upgrade_options :: "'m release_server \<Rightarrow> agent_columns \<Rightarrow> int \<Rightarrow> verify_options" where
  "upgrade_options S a now =
     \<lparr>voCurrentVersion = acVersion a, voPanelVersion = rsPanelVersion S, voOS = acOS a, voArch = acArch a,
      voControlVersion = Version, voArtifact = None, voNow = word_of_int (now div second)\<rparr>"

text \<open>The loop over the Agents: the first failure, if any.\<close>

fun checkTargets ::
    "'m release_server \<Rightarrow> upgrade_request \<Rightarrow> bytes \<Rightarrow> signed_manifest \<Rightarrow> int \<Rightarrow> bytes list \<Rightarrow> bytes list \<Rightarrow> 'm release_db \<Rightarrow> (nat \<times> bytes) option \<times> 'm release_db" where
  "checkTargets S r public sm now seen [] d = (None, d)"
| "checkTargets S r public sm now seen (agentID # agentIDs) d =
     (if agentID \<in> set seen then (Some (400, ''duplicate_agent''), d)
      else
        let (ok, d) = releaseStatement d in
        (case (if ok then usable_agent agentID now d else None) of
           None \<Rightarrow> (Some (409, ''agent_unavailable''), d)
         | Some a \<Rightarrow>
             if \<not> can_do S a Upgrade \<or> acOS a \<noteq> urOS r \<or> acArch a \<noteq> urArch r then (Some (409, ''agent_incompatible''), d)
             else if VerifyManifest (rsCrypto S) (rsParseURL S) public sm (upgrade_options S a now) \<noteq> None
             then (Some (409, ''agent_incompatible''), d)
             else checkTargets S r public sm now (agentID # seen) agentIDs d))"

text \<open>Commands for the Agents, best effort: the errors are ignored.\<close>

definition dispatch_one :: "'m release_server \<Rightarrow> int \<Rightarrow> bytes \<Rightarrow> 'm release_db \<Rightarrow> dispatch_error option \<times> 'm release_db" where
  "dispatch_one S now agentID d =
     (let (err, st, hub) = DispatchAgent Send (rsEncode S) (rsValid S) agentID (word_of_int (now div second)) (rdStore d) (rdHub d)
      in (err, d\<lparr>rdStore := st, rdHub := hub\<rparr>))"

definition handleCreateUpgrades ::
    "'m release_server \<Rightarrow> actor option \<Rightarrow> upgrade_request json_doc \<Rightarrow> bytes list \<Rightarrow> int \<Rightarrow> 'm release_db \<Rightarrow> command list api_reply \<times> 'm release_db" where
  "handleCreateUpgrades S actor body randoms now d =
     (case actor of
        None \<Rightarrow> (Failure 403 ''reauthentication_required'', d)
      | Some a \<Rightarrow>
          if \<not> RequireRecentReauth now a (10 * minute) \<or> \<not> rsStore S \<or> \<not> rsDispatcher S then (Failure 403 ''reauthentication_required'', d)
          else (case decodeRequest body of
            None \<Rightarrow> (Failure 400 ''confirmation_required'', d)
          | Some r \<Rightarrow>
              if \<not> urConfirmed r \<or> urAgents r = [] \<or> 100 < length (urAgents r) then (Failure 400 ''confirmation_required'', d)
              else
                let (ok, d) = releaseStatement d in
                (case (if ok then find (\<lambda>x. rlVersion x = urVersion r \<and> rlOS x = urOS r \<and> rlArch x = urArch r) (rdReleases d) else None) of
                   None \<Rightarrow> (Failure 404 ''release_not_found'', d)
                 | Some row \<Rightarrow> (case DecodeManifest (rsDecode S) (rlManifest row) of
                     Inl _ \<Rightarrow> (Failure 500 ''release_invalid'', d)
                   | Inr m \<Rightarrow> (case releaseVerification S (rlSignature row) of
                       None \<Rightarrow> (Failure 500 ''release_invalid'', d)
                     | Some (public, signature) \<Rightarrow>
                         (case checkTargets S r public \<lparr>smManifest = m, smSignature = signature\<rparr> now [] (urAgents r) d of
                            (Some (status, code), d) \<Rightarrow> (Failure status code, d)
                          | (None, d) \<Rightarrow>
                              (case CreateBatch (rsCrypto S) (rsValid S) (rsSigner S) a (urAgents r) Upgrade
                                      (rsPayload S m (rlSignature row) (rsPanelVersion S)) randoms (word_of_int (now div second)) (rdStore d) of
                                 (Inl _, st) \<Rightarrow> (Failure 500 ''command_create_failed'', d\<lparr>rdStore := st\<rparr>)
                               | (Inr cs, st) \<Rightarrow>
                                   (Success 201 cs, fold (\<lambda>agentID d. snd (dispatch_one S now agentID d)) (urAgents r) (d\<lparr>rdStore := st\<rparr>))))))))) "

subsection \<open>Commands\<close>

definition emptyJSONObject :: "'m release_server \<Rightarrow> bytes \<Rightarrow> bool" where
  "emptyJSONObject S body = (decodeRequest (rsObject S body) \<noteq> None)"

definition handleCreateCommand ::
    "'m release_server \<Rightarrow> bytes \<Rightarrow> actor option \<Rightarrow> (action \<times> bytes) json_doc \<Rightarrow> bytes \<Rightarrow> int \<Rightarrow> 'm release_db \<Rightarrow>
     (command \<times> bytes) api_reply \<times> 'm release_db" where
  "handleCreateCommand S agentID actor body random now d =
     (if \<not> rsStore S \<or> \<not> rsDispatcher S then (Failure 503 ''unavailable'', d)
      else (case actor of
        None \<Rightarrow> (Failure 400 ''bad_request'', d)
      | Some a \<Rightarrow>
          if agentID = [] then (Failure 400 ''bad_request'', d)
          else (case decodeRequest body of
            None \<Rightarrow> (Failure 400 ''bad_request'', d)
          | Some (action, payload) \<Rightarrow>
              if action = Upgrade \<or> action \<noteq> CollectNow \<and> action \<noteq> ReloadConfig \<and> action \<noteq> SelfCheck \<or>
                 payload = [] \<or> 16 * 1024 < length payload \<or> \<not> rsValid S payload
              then (Failure 400 ''bad_request'', d)
              else if (action = CollectNow \<or> action = ReloadConfig) \<and> \<not> emptyJSONObject S payload then (Failure 400 ''bad_payload'', d)
              else
                let (ok, d) = releaseStatement d in
                (case (if ok then usable_agent agentID now d else None) of
                   None \<Rightarrow> (Failure 404 ''not_found'', d)
                 | Some x \<Rightarrow>
                     if \<not> can_do S x action then (Failure 409 ''unsupported_capability'', d)
                     else (case CreateBatch (rsCrypto S) (rsValid S) (rsSigner S) a [agentID] action payload [random]
                                  (word_of_int (now div second)) (rdStore d) of
                       (Inr [c], st) \<Rightarrow>
                         (case dispatch_one S now agentID (d\<lparr>rdStore := st\<rparr>) of
                            (Some _, d) \<Rightarrow> (Failure 500 ''command_dispatch_failed'', d)
                          | (None, d) \<Rightarrow>
                              let (ok, d) = releaseStatement d;
                                  state = (case (if ok then find_row (cCommandID c) (rdStore d) else None) of
                                             None \<Rightarrow> ''queued'' | Some row \<Rightarrow> state_name (rwState row))
                              in (Success 201 (c, state), d))
                     | (_, st) \<Rightarrow> (Failure 500 ''command_create_failed'', d\<lparr>rdStore := st\<rparr>))))))"

definition handleCommandHistory :: "'m release_server \<Rightarrow> bytes \<Rightarrow> 'm release_db \<Rightarrow> command_row list api_reply \<times> 'm release_db" where
  "handleCommandHistory S agentID d =
     (if \<not> rsStore S then (Failure 503 ''unavailable'', d)
      else if agentID = [] then (Failure 400 ''bad_request'', d)
      else
        let (ok, d) = releaseStatement d in
        if \<not> ok then (Failure 500 ''db_error'', d) else (Success 200 (History agentID 100 (rdStore d)), d))"

subsection \<open>Dispatching adds and removes no command\<close>

abbreviation stored_commands :: "store \<Rightarrow> command list" where "stored_commands st \<equiv> map rwCommand (stRows st)"

lemma transitionAt_commands: "transitionAt jv cid to a reason code json now st = (res, st') \<Longrightarrow> stored_commands st' = stored_commands st"
proof -
  assume t: "transitionAt jv cid to a reason code json now st = (res, st')"
  obtain ok u where b: "begin_tx st = (ok, u)" by (metis surj_pair)
  have "map rwCommand (map (\<lambda>x. if row_id x = c \<and> rwState x = s then update_row to now code j x else x) rs) = map rwCommand rs" for rs c s j
    by (induction rs) auto
  then show ?thesis
    using t begin_tx_frame [OF b] unfolding transitionAt_def b Let_def insert_event_def
    by (auto split: if_splits option.splits)
qed

lemma expireAll_commands: "stored_commands (snd (expireAll jv now ids st)) = stored_commands st"
proof (induction ids arbitrary: st)
  case (Cons cid ids)
  obtain r u where t: "transitionAt jv cid Expired noActor ''ttl_expired'' [] [] now st = (r, u)" by (metis surj_pair)
  from Cons [of u] transitionAt_commands [OF t] show ?case by (cases r) (simp_all add: t)
qed simp

lemma Expire_commands: "stored_commands (snd (Expire jv now st)) = stored_commands st"
  using expireAll_commands [of jv now "map row_id (due_rows now st)" st]
  by (auto simp: Expire_def Let_def split: prod.splits option.splits)

lemma dispatchAll_commands:
  "dispatchAll send encode jv agentID now cs st s = (err, st', s') \<Longrightarrow> stored_commands st' = stored_commands st"
proof (induction cs arbitrary: st s)
  case (Cons c cs)
  have IH: "stored_commands st' = stored_commands st" if "dispatchAll send encode jv agentID now cs u v = (err, st', s')" "stored_commands u = stored_commands st" for u v
    using Cons.IH that by metis
  have T: "stored_commands u = stored_commands st" if "transitionAt jv (cCommandID c) to a reason code json now st = (r, u)" for to a reason code json r u
    using transitionAt_commands [OF that] .
  show ?case
    using Cons.prems by (auto split: option.splits prod.splits if_splits dest: IH T)
qed simp

lemma dispatch_one_commands:
  assumes "dispatch_one S now agentID d = (err, d')"
  shows "stored_commands (rdStore d') = stored_commands (rdStore d) \<and> rdReleases d' = rdReleases d \<and> rdAgents d' = rdAgents d"
proof -
  obtain e st hub where dis: "DispatchAgent Send (rsEncode S) (rsValid S) agentID (word_of_int (now div second)) (rdStore d) (rdHub d) = (e, st, hub)"
    by (metis surj_pair)
  then have "dispatchAll Send (rsEncode S) (rsValid S) agentID (word_of_int (now div second))
     (QueuedFor agentID (word_of_int (now div second)) (snd (Expire (rsValid S) (word_of_int (now div second)) (rdStore d))))
     (snd (Expire (rsValid S) (word_of_int (now div second)) (rdStore d))) (rdHub d) = (e, st, hub)"
    by (simp add: DispatchAgent_def Let_def)
  from dispatchAll_commands [OF this] Expire_commands [of "rsValid S" "word_of_int (now div second)" "rdStore d"]
  show ?thesis using assms by (auto simp: dispatch_one_def dis)
qed

lemma dispatch_fold:
  "let d' = fold (\<lambda>agentID d. snd (dispatch_one S now agentID d)) ids d in
     stored_commands (rdStore d') = stored_commands (rdStore d) \<and> rdReleases d' = rdReleases d \<and> rdAgents d' = rdAgents d"
proof (induction ids arbitrary: d)
  case (Cons i ids)
  from Cons [of "snd (dispatch_one S now i d)"] dispatch_one_commands [OF surjective_pairing, of S now i d]
  show ?case by (simp add: Let_def)
qed (simp add: Let_def)

subsection \<open>Upgrades\<close>

definition same_release_db :: "'m release_db \<Rightarrow> 'm release_db \<Rightarrow> bool" where
  "same_release_db d d' \<longleftrightarrow> rdReleases d' = rdReleases d \<and> rdAgents d' = rdAgents d \<and> rdStore d' = rdStore d \<and> rdHub d' = rdHub d"

lemma same_release_db_refl [simp]: "same_release_db d d"
  by (simp add: same_release_db_def)

lemma same_release_db_trans: "same_release_db a b \<Longrightarrow> same_release_db b c \<Longrightarrow> same_release_db a c"
  by (simp add: same_release_db_def)

lemma releaseStatement_same: "releaseStatement d = (ok, d') \<Longrightarrow> same_release_db d d'"
  by (auto simp: releaseStatement_def same_release_db_def split: list.splits)

definition target_ok :: "'m release_server \<Rightarrow> upgrade_request \<Rightarrow> bytes \<Rightarrow> signed_manifest \<Rightarrow> int \<Rightarrow> 'm release_db \<Rightarrow> bytes \<Rightarrow> bool" where
  "target_ok S r public sm now d agentID \<longleftrightarrow>
     (\<exists>a\<in>set (rdAgents d). acAgentID a = agentID \<and> acRevokedAt a = 0 \<and> now div second < acExpiresAt a \<and> can_do S a Upgrade \<and>
        acOS a = urOS r \<and> acArch a = urArch r \<and>
        VerifyManifest (rsCrypto S) (rsParseURL S) public sm (upgrade_options S a now) = None)"

lemma checkTargets_ok:
  "checkTargets S r public sm now seen ids d = (res, d') \<Longrightarrow> same_release_db d d' \<and>
     (res = None \<longrightarrow> distinct ids \<and> set ids \<inter> set seen = {} \<and> (\<forall>i\<in>set ids. target_ok S r public sm now d i))"
proof (induction ids arbitrary: seen d)
  case (Cons i ids)
  obtain ok u where st: "releaseStatement d = (ok, u)" by (metis surj_pair)
  have same: "same_release_db d u" using releaseStatement_same [OF st] .
  show ?case
  proof (cases "checkTargets S r public sm now (i # seen) ids u = (res, d') \<and> i \<notin> set seen \<and> target_ok S r public sm now u i")
    case True
    have "target_ok S r public sm now u j = target_ok S r public sm now d j" for j
      using same by (simp add: target_ok_def same_release_db_def)
    with True Cons.IH [of "i # seen" u] same_release_db_trans [OF same] show ?thesis by auto
  next
    case False
    then have "res \<noteq> None \<and> d' \<in> {d, u}"
      using Cons.prems st by (auto simp: target_ok_def usable_agent_def not_le split: if_splits option.splits dest!: find_Some_in)
    with same show ?thesis by auto
  qed
qed simp

lemma CreateBatch_commands:
  assumes "CreateBatch cr jv signer a ids action payload randoms now st = (res, st')" and "store_inv st" and "length randoms = length ids"
  shows "(\<forall>e. res = Inl e \<longrightarrow> stored_commands st' = stored_commands st) \<and>
    (\<forall>cs. res = Inr cs \<longrightarrow> stored_commands st' = stored_commands st @ cs \<and> map cAgentID cs = ids \<and>
       (\<forall>c\<in>set cs. cAction c = action \<and> cPayload c = payload))"
  using assms(1,2)
proof (cases rule: CreateBatch_cases)
  case (1 e)
  then show ?thesis by (simp add: same_tables_def)
next
  case (2 cs st1)
  have "rwCommand (newRow a c) = c" for c by (simp add: newRow_def)
  then have "map (rwCommand \<circ> newRow a) cs = cs" by (simp add: o_def)
  with createAll_effect [OF 2(4,3)] 2(1,2) assms(3) show ?thesis by (simp add: same_tables_def)
qed

lemma decodeRequest_Some: "decodeRequest body = Some r \<longleftrightarrow> body = JsonDoc r"
  by (cases body) auto

text \<open>The checks before the commands are created: the requested release, verified for every Agent.\<close>

definition upgrade_plan ::
    "'m release_server \<Rightarrow> actor option \<Rightarrow> upgrade_request json_doc \<Rightarrow> int \<Rightarrow> 'm release_db \<Rightarrow> actor \<Rightarrow> upgrade_request \<Rightarrow> release_row \<Rightarrow> manifest \<Rightarrow> bytes \<Rightarrow> bytes \<Rightarrow> bool" where
  "upgrade_plan S actor body now d a r row m public signature \<longleftrightarrow>
     actor = Some a \<and> body = JsonDoc r \<and> RequireRecentReauth now a (10 * minute) \<and> urConfirmed r \<and> urAgents r \<noteq> [] \<and>
     row \<in> set (rdReleases d) \<and> rlVersion row = urVersion r \<and> rlOS row = urOS r \<and> rlArch row = urArch r \<and>
     DecodeManifest (rsDecode S) (rlManifest row) = Inr m \<and> releaseVerification S (rlSignature row) = Some (public, signature) \<and>
     distinct (urAgents r) \<and>
     (\<forall>i\<in>set (urAgents r). target_ok S r public \<lparr>smManifest = m, smSignature = signature\<rparr> now d i)"

lemma handleCreateUpgrades_cases:
  assumes "handleCreateUpgrades S actor body randoms now d = (reply, d')"
  obtains (refused) status code where "reply = Failure status code" "same_release_db d d'"
  | (tried) a r row m public signature u res st where "upgrade_plan S actor body now d a r row m public signature" "same_release_db d u"
      "CreateBatch (rsCrypto S) (rsValid S) (rsSigner S) a (urAgents r) Upgrade
         (rsPayload S m (rlSignature row) (rsPanelVersion S)) randoms (word_of_int (now div second)) (rdStore u) = (res, st)"
      "\<And>e. res = Inl e \<Longrightarrow> reply = Failure 500 ''command_create_failed'' \<and> d' = u\<lparr>rdStore := st\<rparr>"
      "\<And>cs. res = Inr cs \<Longrightarrow> reply = Success 201 cs \<and> d' = fold (\<lambda>agentID d. snd (dispatch_one S now agentID d)) (urAgents r) (u\<lparr>rdStore := st\<rparr>)"
proof (cases "\<exists>a r. actor = Some a \<and> decodeRequest body = Some r \<and> RequireRecentReauth now a (10 * minute) \<and> rsStore S \<and> rsDispatcher S \<and>
    urConfirmed r \<and> urAgents r \<noteq> [] \<and> \<not> 100 < length (urAgents r)")
  case False
  then have "(\<exists>status code. reply = Failure status code) \<and> d' = d"
    using assms by (auto simp: handleCreateUpgrades_def split: option.splits if_splits)
  then show ?thesis using refused by auto
next
  case True
  then obtain a r where ar: "actor = Some a" "decodeRequest body = Some r" "RequireRecentReauth now a (10 * minute)" "rsStore S" "rsDispatcher S"
    "urConfirmed r" "urAgents r \<noteq> []" "\<not> 100 < length (urAgents r)" by blast
  obtain ok v where st: "releaseStatement d = (ok, v)" by (metis surj_pair)
  have same: "same_release_db d v" using releaseStatement_same [OF st] .
  note h = assms [unfolded handleCreateUpgrades_def, unfolded ar option.case st Let_def prod.case]
  show ?thesis
  proof (cases "\<exists>row m public signature. (if ok then find (\<lambda>x. rlVersion x = urVersion r \<and> rlOS x = urOS r \<and> rlArch x = urArch r) (rdReleases v) else None) = Some row \<and>
      DecodeManifest (rsDecode S) (rlManifest row) = Inr m \<and> releaseVerification S (rlSignature row) = Some (public, signature)")
    case False
    then have "(\<exists>status code. reply = Failure status code) \<and> d' = v"
      using h ar(3-8) by (auto split: option.splits sum.splits)
    then show ?thesis using refused same by auto
  next
    case True
    then obtain row m public signature where
      f: "(if ok then find (\<lambda>x. rlVersion x = urVersion r \<and> rlOS x = urOS r \<and> rlArch x = urArch r) (rdReleases v) else None) = Some row"
      and ms: "DecodeManifest (rsDecode S) (rlManifest row) = Inr m" "releaseVerification S (rlSignature row) = Some (public, signature)" by blast
    have row: "row \<in> set (rdReleases d) \<and> rlVersion row = urVersion r \<and> rlOS row = urOS r \<and> rlArch row = urArch r"
      using f same by (auto simp: same_release_db_def split: if_splits dest!: find_Some_in)
    obtain bad u where ct: "checkTargets S r public \<lparr>smManifest = m, smSignature = signature\<rparr> now [] (urAgents r) v = (bad, u)" by (metis surj_pair)
    note ct' = checkTargets_ok [OF ct]
    have same': "same_release_db d u" using ct' same same_release_db_trans by blast
    note h' = h [unfolded f ms option.case sum.case prod.case ct]
    show ?thesis
    proof (cases bad)
      case (Some e)
      then show ?thesis using h' ar(3-8) refused same' by (cases e) auto
    next
      case None
      have "target_ok S r public sm now v i = target_ok S r public sm now d i" for sm i
        using same by (simp add: target_ok_def same_release_db_def)
      then have plan: "upgrade_plan S actor body now d a r row m public signature"
        using ar row ms ct' None by (auto simp: upgrade_plan_def decodeRequest_Some)
      obtain res w where cb: "CreateBatch (rsCrypto S) (rsValid S) (rsSigner S) a (urAgents r) Upgrade
         (rsPayload S m (rlSignature row) (rsPanelVersion S)) randoms (word_of_int (now div second)) (rdStore u) = (res, w)" by (metis surj_pair)
      show ?thesis
        using h' ar(3-8) None cb by (intro tried [OF plan same' cb]) auto
    qed
  qed
qed

text \<open>C35. Upgrades are all or nothing and verified before a command exists. If the Panel creates them, the actor gave the password again within ten
  minutes and confirmed, the release is stored, and every single Agent was found: not revoked, with a valid certificate, of the requested
  platform, capable of upgrades, and older than the release, whose signature, lifetime and control version were checked for this Agent.
  Then exactly one command per Agent is added, all with the payload of this release. Any other answer leaves commands and releases as
  they were.\<close>

theorem upgrades_are_verified:
  assumes "handleCreateUpgrades S actor body randoms now d = (reply, d')" and "store_inv (rdStore d)"
    and "\<And>r. body = JsonDoc r \<Longrightarrow> length randoms = length (urAgents r)"
  shows "rdReleases d' = rdReleases d \<and>
    (case reply of
       Failure status code \<Rightarrow> stored_commands (rdStore d') = stored_commands (rdStore d)
     | Success n cs \<Rightarrow>
         stored_commands (rdStore d') = stored_commands (rdStore d) @ cs \<and>
         (\<exists>a r row m public signature. upgrade_plan S actor body now d a r row m public signature \<and> map cAgentID cs = urAgents r \<and>
            (\<forall>c\<in>set cs. cAction c = Upgrade \<and> cPayload c = rsPayload S m (rlSignature row) (rsPanelVersion S))))"
  using assms(1)
proof (cases rule: handleCreateUpgrades_cases)
  case (refused status code)
  then show ?thesis by (simp add: same_release_db_def)
next
  case (tried a r row m public signature u res st)
  have len: "length randoms = length (urAgents r)" using tried(1) assms(3) by (simp add: upgrade_plan_def)
  have same: "rdStore u = rdStore d" "rdReleases u = rdReleases d" using tried(2) by (simp_all add: same_release_db_def)
  note cb = CreateBatch_commands [OF tried(3) _ len, unfolded same, OF assms(2)]
  show ?thesis
  proof (cases res)
    case (Inl e)
    then show ?thesis using tried(4) [OF Inl] cb same by simp
  next
    case (Inr cs)
    note cb1 = cb [THEN conjunct2, rule_format, OF Inr]
    have "\<exists>a r row m public signature. upgrade_plan S actor body now d a r row m public signature \<and> map cAgentID cs = urAgents r \<and>
            (\<forall>c\<in>set cs. cAction c = Upgrade \<and> cPayload c = rsPayload S m (rlSignature row) (rsPanelVersion S))"
      using tried(1) cb1 by blast
    moreover have "stored_commands (rdStore d') = stored_commands (rdStore d) @ cs" "rdReleases d' = rdReleases d"
      using dispatch_fold [of S now "urAgents r" "u\<lparr>rdStore := st\<rparr>"] tried(5) [OF Inr] cb1 same by (simp_all add: Let_def)
    ultimately show ?thesis using tried(5) [OF Inr] by simp
  qed
qed

subsection \<open>A release is stored once\<close>

definition release_key :: "release_row \<Rightarrow> bytes \<times> bytes \<times> bytes" where
  "release_key r = (rlVersion r, rlOS r, rlArch r)"

definition manifest_key :: "manifest \<Rightarrow> bytes \<times> bytes \<times> bytes" where
  "manifest_key m = (mfVersion m, mfOS m, mfArch m)"

lemma storeRelease_cases:
  assumes "storeRelease S userID m signature now d = (res, d')"
  shows "res = None \<and> same_release_db d d' \<or>
    (\<exists>row. res = Some (rlID row, rlImportedAt row) \<and> rlManifest row = ManifestBytes m \<and> rlSignature row = signature \<and> release_key row = manifest_key m \<and>
       release_key row \<notin> release_key ` set (rdReleases d) \<and> rdReleases d' = rdReleases d @ [row])"
proof -
  obtain ok u where st: "releaseStatement d = (ok, u)" by (metis surj_pair)
  have key: "(\<exists>r\<in>rs. rlVersion r = mfVersion m \<and> rlOS r = mfOS m \<and> rlArch r = mfArch m) \<longleftrightarrow> manifest_key m \<in> release_key ` rs" for rs
    unfolding release_key_def manifest_key_def by (force simp: image_iff)
  show ?thesis
    using assms releaseStatement_same [OF st] unfolding storeRelease_def st Let_def prod.case key
    by (auto simp: same_release_db_def release_key_def manifest_key_def split: if_splits)
qed

lemma store_answer:
  "(case p of (None, d) \<Rightarrow> (Failure 409 code, d) | (Some (i, t), d) \<Rightarrow> (Success 201 (i, m, s, t), d)) = (reply, d') \<Longrightarrow>
     d' = snd p \<and> (succeeded reply \<longleftrightarrow> fst p \<noteq> None)"
  by (auto split: prod.splits option.splits)

text \<open>Both imports verify what they store.\<close>

definition imported :: "'m release_server \<Rightarrow> int \<Rightarrow> 'm release_db \<Rightarrow> 'm release_db \<Rightarrow> manifest \<Rightarrow> bytes \<Rightarrow> bool" where
  "imported S now d d' m signatureText \<longleftrightarrow>
     (\<exists>public signature row. releaseVerification S signatureText = Some (public, signature) \<and>
        VerifyManifest (rsCrypto S) (rsParseURL S) public \<lparr>smManifest = m, smSignature = signature\<rparr> (import_options S (mfOS m) (mfArch m) now) = None \<and>
        rlManifest row = ManifestBytes m \<and> rlSignature row = signatureText \<and> release_key row = manifest_key m \<and>
        manifest_key m \<notin> release_key ` set (rdReleases d) \<and> rdReleases d' = rdReleases d @ [row])"

lemma storeRelease_imported:
  assumes "releaseVerification S signatureText = Some (public, signature)"
    and "VerifyManifest (rsCrypto S) (rsParseURL S) public \<lparr>smManifest = m, smSignature = signature\<rparr> (import_options S (mfOS m) (mfArch m) now) = None"
    and "(case storeRelease S u m signatureText now d of (None, d) \<Rightarrow> (Failure 409 code, d) | (Some (i, t), d) \<Rightarrow> (Success 201 (i, m, signatureText, t), d)) = (reply, d')"
  shows "\<not> succeeded reply \<and> same_release_db d d' \<or> succeeded reply \<and> imported S now d d' m signatureText"
proof -
  obtain res e where s: "storeRelease S u m signatureText now d = (res, e)" by (metis surj_pair)
  from storeRelease_cases [OF s] store_answer [OF assms(3)] assms(1,2) show ?thesis
    unfolding s fst_conv snd_conv imported_def by (metis option.discI)
qed

lemma handleImportRelease_cases:
  assumes "handleImportRelease S actor body now d = (reply, d')"
  shows "\<not> succeeded reply \<and> same_release_db d d' \<or> succeeded reply \<and> (\<exists>m s. body = JsonDoc (m, s) \<and> imported S now d d' m s)"
proof (cases "\<exists>a key m s public signature. actor = Some a \<and> rsReleaseKey S = Some key \<and> decodeRequest body = Some (m, s) \<and>
    releaseVerification S s = Some (public, signature) \<and>
    VerifyManifest (rsCrypto S) (rsParseURL S) public \<lparr>smManifest = m, smSignature = signature\<rparr> (import_options S (mfOS m) (mfArch m) now) = None")
  case False
  then have "\<not> succeeded reply \<and> d' = d"
    using assms unfolding handleImportRelease_def by (auto split: option.splits prod.splits if_splits)
  then show ?thesis by simp
next
  case True
  then obtain a key m s public signature where c: "actor = Some a" "rsReleaseKey S = Some key" "decodeRequest body = Some (m, s)"
    and v: "releaseVerification S s = Some (public, signature)"
      "VerifyManifest (rsCrypto S) (rsParseURL S) public \<lparr>smManifest = m, smSignature = signature\<rparr> (import_options S (mfOS m) (mfArch m) now) = None"
    by blast
  from assms have "(case storeRelease S (acUserID a) m s now d of (None, d) \<Rightarrow> (Failure 409 ''release_exists'', d)
      | (Some (i, t), d) \<Rightarrow> (Success 201 (i, m, s, t), d)) = (reply, d')"
    unfolding handleImportRelease_def c option.case prod.case v by simp
  from storeRelease_imported [OF v this] c(3) show ?thesis by (auto simp: decodeRequest_Some)
qed

lemma handleImportGitHubRelease_cases:
  assumes "handleImportGitHubRelease S actor body now d = (reply, d')"
  shows "\<not> succeeded reply \<and> same_release_db d d' \<or> succeeded reply \<and> (\<exists>m s. body = JsonDoc (manifest_key m) \<and> imported S now d d' m s)"
proof (cases "\<not> succeeded reply \<and> d' = d")
  case True
  then show ?thesis by simp
next
  case h: False
  obtain a key version os arch where c: "actor = Some a" "rsReleaseKey S = Some key" "decodeRequest body = Some (version, os, arch)"
    using assms h by (cases actor; cases "rsReleaseKey S"; cases "decodeRequest body") (auto simp: handleImportGitHubRelease_def)
  note g = assms [unfolded handleImportGitHubRelease_def c option.case prod.case]
  have f1: "validReleaseRequest version os arch" using g h by (auto split: if_splits)
  obtain mb where f2: "fetchReleaseFile (rsFetch S) (release_base version os arch @ ''.manifest.json'') = Some mb"
    using g h f1 by (cases "fetchReleaseFile (rsFetch S) (release_base version os arch @ ''.manifest.json'')") auto
  obtain m where f3: "DecodeManifest (rsDecode S) mb = Inr m" using g h f1 f2 by (cases "DecodeManifest (rsDecode S) mb") auto
  obtain sb where f4: "fetchReleaseFile (rsFetch S) (release_base version os arch @ ''.manifest.sig'') = Some sb"
    using g h f1 f2 f3 by (cases "fetchReleaseFile (rsFetch S) (release_base version os arch @ ''.manifest.sig'')") auto
  note f = f1 f2 f3 f4
  obtain public signature where v1: "releaseVerification S (trim_space sb) = Some (public, signature)"
    using g h f by (cases "releaseVerification S (trim_space sb)") auto
  note g' = g [unfolded f option.case sum.case Let_def v1 prod.case]
  have k: "mfVersion m = version" "mfOS m = os" "mfArch m = arch" using g' f1 h by (auto split: if_splits)
  have v2: "VerifyManifest (rsCrypto S) (rsParseURL S) public \<lparr>smManifest = m, smSignature = signature\<rparr> (import_options S os arch now) = None"
    using g' f1 k h by (auto split: if_splits)
  note v = v1 v2
  from assms have "(case storeRelease S (acUserID a) m (trim_space sb) now d of (None, d) \<Rightarrow> (Failure 409 ''release_exists'', d)
      | (Some (i, t), d) \<Rightarrow> (Success 201 (i, m, trim_space sb, t), d)) = (reply, d')"
    unfolding handleImportGitHubRelease_def c option.case prod.case f sum.case Let_def v(1) using f(1) k v(2) by simp
  from storeRelease_imported [OF v(1) _ this] v(2) k c(3) show ?thesis by (auto simp: decodeRequest_Some manifest_key_def)
qed

text \<open>Requests over time. \<open>RelWorld\<close> stands for whatever the rest of the Panel does to Agents, commands, sessions and the database.\<close>

datatype 'm release_op =
    RelImport "actor option" "(manifest \<times> bytes) json_doc"
  | RelGitHub "actor option" "(bytes \<times> bytes \<times> bytes) json_doc"
  | RelUpgrade "actor option" "upgrade_request json_doc" "bytes list"
  | RelWorld "agent_columns list" store "'m hub" "bool list"

fun release_apply :: "'m release_server \<Rightarrow> int \<Rightarrow> 'm release_op \<Rightarrow> 'm release_db \<Rightarrow> 'm release_db" where
  "release_apply S now (RelImport actor body) d = snd (handleImportRelease S actor body now d)"
| "release_apply S now (RelGitHub actor body) d = snd (handleImportGitHubRelease S actor body now d)"
| "release_apply S now (RelUpgrade actor body randoms) d = snd (handleCreateUpgrades S actor body randoms now d)"
| "release_apply S now (RelWorld agents st hub faults) d = d\<lparr>rdAgents := agents, rdStore := st, rdHub := hub, rdFaults := faults\<rparr>"

fun release_run :: "'m release_server \<Rightarrow> (int \<times> 'm release_op) list \<Rightarrow> 'm release_db \<Rightarrow> 'm release_db" where
  "release_run S [] d = d"
| "release_run S ((now, op) # ops) d = release_run S ops (release_apply S now op d)"

definition release_genuine :: "'m release_server \<Rightarrow> release_row \<Rightarrow> bool" where
  "release_genuine S row \<longleftrightarrow> (\<exists>m public signature. rlManifest row = ManifestBytes m \<and> release_key row = manifest_key m \<and>
     releaseVerification S (rlSignature row) = Some (public, signature) \<and> ed_verify (rsCrypto S) public (ManifestBytes m) signature)"

definition releases_ok :: "'m release_server \<Rightarrow> 'm release_db \<Rightarrow> bool" where
  "releases_ok S d \<longleftrightarrow> distinct (map release_key (rdReleases d)) \<and> (\<forall>row\<in>set (rdReleases d). release_genuine S row)"

lemma VerifyManifest_signed: "VerifyManifest c p public \<lparr>smManifest = m, smSignature = s\<rparr> opts = None \<Longrightarrow> ed_verify c public (ManifestBytes m) s"
  by (auto simp: VerifyManifest_def split: if_splits)

lemma imported_ok:
  assumes "imported S now d d' m s" "releases_ok S d"
  shows "releases_ok S d' \<and> set (rdReleases d) \<subseteq> set (rdReleases d')"
proof -
  obtain public signature row where r: "releaseVerification S s = Some (public, signature)"
    "VerifyManifest (rsCrypto S) (rsParseURL S) public \<lparr>smManifest = m, smSignature = signature\<rparr> (import_options S (mfOS m) (mfArch m) now) = None"
    "rlManifest row = ManifestBytes m" "rlSignature row = s" "release_key row = manifest_key m"
    "manifest_key m \<notin> release_key ` set (rdReleases d)" "rdReleases d' = rdReleases d @ [row]"
    using assms(1) unfolding imported_def by blast
  have "release_genuine S row" unfolding release_genuine_def using r VerifyManifest_signed [OF r(2)] by metis
  then show ?thesis using assms(2) r(5-7) by (auto simp: releases_ok_def)
qed

lemma release_apply_ok:
  assumes "releases_ok S d"
  shows "releases_ok S (release_apply S now op d) \<and> set (rdReleases d) \<subseteq> set (rdReleases (release_apply S now op d))"
proof -
  have same: "releases_ok S e \<and> set (rdReleases d) \<subseteq> set (rdReleases e)" if "rdReleases e = rdReleases d" for e
    using that assms by (simp add: releases_ok_def)
  have kept: "releases_ok S e \<and> set (rdReleases d) \<subseteq> set (rdReleases e)" if "same_release_db d e" for e
    using that same by (simp add: same_release_db_def)
  show ?thesis
  proof (cases op)
    case (RelImport actor body)
    show ?thesis
      using handleImportRelease_cases [OF surjective_pairing, of S actor body now d] imported_ok [OF _ assms] kept
      unfolding RelImport release_apply.simps by blast
  next
    case (RelGitHub actor body)
    show ?thesis
      using handleImportGitHubRelease_cases [OF surjective_pairing, of S actor body now d] imported_ok [OF _ assms] kept
      unfolding RelGitHub release_apply.simps by blast
  next
    case (RelUpgrade actor body randoms)
    have "rdReleases (snd (handleCreateUpgrades S actor body randoms now d)) = rdReleases d"
      using surjective_pairing [of "handleCreateUpgrades S actor body randoms now d"]
    proof (cases rule: handleCreateUpgrades_cases)
      case (refused status code)
      then show ?thesis by (simp add: same_release_db_def)
    next
      case (tried a r row m public signature u res st)
      then show ?thesis using dispatch_fold [of S now "urAgents r" "u\<lparr>rdStore := st\<rparr>"]
        by (cases res) (auto simp: same_release_db_def Let_def)
    qed
    with same show ?thesis by (simp add: RelUpgrade)
  next
    case (RelWorld agents st hub faults)
    with same show ?thesis by simp
  qed
qed

lemma release_run_ok:
  "releases_ok S d \<Longrightarrow> releases_ok S (release_run S ops d) \<and> set (rdReleases d) \<subseteq> set (rdReleases (release_run S ops d))"
proof (induction ops arbitrary: d)
  case (Cons p ops)
  obtain now op where p: "p = (now, op)" by (metis surj_pair)
  from Cons.IH release_apply_ok [OF Cons.prems, of now op] show ?case by (auto simp: p)
qed simp

lemma expired_not_verified:
  assumes "mfExpiresAt m \<le>s voNow opts"
  shows "VerifyManifest c p public \<lparr>smManifest = m, smSignature = s\<rparr> opts \<noteq> None"
  using assms by (auto simp: VerifyManifest_def checkLifetime_def Let_def split: option.splits)

lemma now_not_before:
  assumes "sint (x :: int64) \<le> t" "t < 2 ^ 63"
  shows "x \<le>s word_of_int t"
  using assms sint64_bounds [of x] by (simp add: word_sle_eq sint64_of_int)

text \<open>A release is stored once and for all. Whatever imports, upgrades and changes elsewhere follow in whatever order, every stored release holds
  the canonical text of a manifest with its columns, signed by the release key; it stays, and no import of the same version and platform
  succeeds again. A manifest lives for a day at most, so the version becomes unusable: once its manifest has expired no upgrade to it is
  ever created, although a manifest with a new lifetime may be signed.\<close>

theorem stored_release_is_final:
  assumes "rdReleases d0 = []" and "d = release_run S ops d0" and "row \<in> set (rdReleases d)" and "d' = release_run S later d"
  shows "\<exists>m. rlManifest row = ManifestBytes m \<and> release_key row = manifest_key m \<and> release_genuine S row \<and> row \<in> set (rdReleases d') \<and>
    (manifest_key m' = manifest_key m \<longrightarrow> \<not> succeeded (fst (handleImportRelease S actor (JsonDoc (m', s)) now d')) \<and>
       \<not> succeeded (fst (handleImportGitHubRelease S actor (JsonDoc (manifest_key m)) now d'))) \<and>
    ((urVersion r, urOS r, urArch r) = manifest_key m \<and> sint (mfExpiresAt m) \<le> now div second \<and> now div second < 2 ^ 63 \<longrightarrow>
       \<not> succeeded (fst (handleCreateUpgrades S actor (JsonDoc r) randoms now d')))"
proof -
  have ok: "releases_ok S d" using release_run_ok [of S d0 ops] assms(1,2) by (simp add: releases_ok_def)
  have ok': "releases_ok S d'" "row \<in> set (rdReleases d')" using release_run_ok [OF ok, of later] assms(3,4) by auto
  have g: "release_genuine S row" using ok assms(3) by (simp add: releases_ok_def)
  then obtain m where m: "rlManifest row = ManifestBytes m" "release_key row = manifest_key m" unfolding release_genuine_def by blast
  have mem: "manifest_key m \<in> release_key ` set (rdReleases d')" using ok'(2) m(2) by force
  have imp: "\<not> imported S now d' e x y" if "manifest_key x = manifest_key m" for e x y using that mem by (simp add: imported_def)
  have a: "\<not> succeeded (fst (handleImportRelease S actor (JsonDoc (m', s)) now d'))" if "manifest_key m' = manifest_key m"
    using handleImportRelease_cases [OF surjective_pairing, of S actor "JsonDoc (m', s)" now d'] imp [OF that] by auto
  have b: "\<not> succeeded (fst (handleImportGitHubRelease S actor (JsonDoc (manifest_key m)) now d'))"
    using handleImportGitHubRelease_cases [OF surjective_pairing, of S actor "JsonDoc (manifest_key m)" now d'] imp by auto
  have c: "\<not> succeeded (fst (handleCreateUpgrades S actor (JsonDoc r) randoms now d'))"
    if key: "(urVersion r, urOS r, urArch r) = manifest_key m" and late: "sint (mfExpiresAt m) \<le> now div second" "now div second < 2 ^ 63"
  proof
    assume "succeeded (fst (handleCreateUpgrades S actor (JsonDoc r) randoms now d'))"
    with surjective_pairing [of "handleCreateUpgrades S actor (JsonDoc r) randoms now d'"]
    obtain a q x y public signature where plan: "upgrade_plan S actor (JsonDoc r) now d' a q x y public signature"
      by (cases rule: handleCreateUpgrades_cases) auto
    then have q: "q = r" and x: "x \<in> set (rdReleases d')" "release_key x = release_key row"
      using key m(2) by (auto simp: upgrade_plan_def release_key_def)
    then have "x = row" using ok' by (metis distinct_map inj_on_def releases_ok_def)
    then have "y = m" using plan m(1) by (auto simp: upgrade_plan_def DecodeManifest_def ManifestBytes_injective split: json_doc.splits if_splits)
    obtain i where "i \<in> set (urAgents r)" using plan unfolding upgrade_plan_def q by (meson hd_in_set)
    then have "target_ok S r public \<lparr>smManifest = m, smSignature = signature\<rparr> now d' i" using plan by (simp add: upgrade_plan_def q \<open>y = m\<close>)
    then show False
      using expired_not_verified [of m] now_not_before [OF late] by (auto simp: target_ok_def upgrade_options_def)
  qed
  show ?thesis using m g ok'(2) a b c by (intro exI [of _ m]) blast
qed

subsection \<open>Commands\<close>

definition command_allowed :: "'m release_server \<Rightarrow> bytes \<Rightarrow> actor option \<Rightarrow> (action \<times> bytes) json_doc \<Rightarrow> int \<Rightarrow> 'm release_db \<Rightarrow> command \<Rightarrow> bool" where
  "command_allowed S agentID actor body now d c \<longleftrightarrow>
     (\<exists>a. actor = Some a) \<and> body = JsonDoc (cAction c, cPayload c) \<and> cAgentID c = agentID \<and> cAction c \<in> {CollectNow, ReloadConfig, SelfCheck} \<and>
     (cAction c \<noteq> SelfCheck \<longrightarrow> emptyJSONObject S (cPayload c)) \<and>
     (\<exists>x\<in>set (rdAgents d). acAgentID x = agentID \<and> acRevokedAt x = 0 \<and> now div second < acExpiresAt x \<and> can_do S x (cAction c))"

lemma handleCreateCommand_cases:
  assumes "handleCreateCommand S agentID actor body random now d = (reply, d')"
  obtains (refused) status code where "reply = Failure status code" "code \<noteq> ''command_dispatch_failed''" "same_release_db d d'"
  | (failed) u a action payload res st where "reply = Failure 500 ''command_create_failed''" "d' = u\<lparr>rdStore := st\<rparr>" "same_release_db d u"
      "CreateBatch (rsCrypto S) (rsValid S) (rsSigner S) a [agentID] action payload [random] (word_of_int (now div second)) (rdStore u) = (res, st)"
      "\<And>c. res \<noteq> Inr [c]"
  | (created) u a action payload c st e v where "actor = Some a" "body = JsonDoc (action, payload)" "action \<in> {CollectNow, ReloadConfig, SelfCheck}"
      "action \<noteq> SelfCheck \<Longrightarrow> emptyJSONObject S payload"
      "\<exists>x\<in>set (rdAgents d). acAgentID x = agentID \<and> acRevokedAt x = 0 \<and> now div second < acExpiresAt x \<and> can_do S x action" "same_release_db d u"
      "CreateBatch (rsCrypto S) (rsValid S) (rsSigner S) a [agentID] action payload [random] (word_of_int (now div second)) (rdStore u) = (Inr [c], st)"
      "dispatch_one S now agentID (u\<lparr>rdStore := st\<rparr>) = (e, v)" "same_release_db v d'"
      "e \<noteq> None \<Longrightarrow> reply = Failure 500 ''command_dispatch_failed''" "e = None \<Longrightarrow> \<exists>state. reply = Success 201 (c, state)"
proof (cases "\<exists>a action payload. actor = Some a \<and> decodeRequest body = Some (action, payload) \<and> rsStore S \<and> rsDispatcher S \<and> agentID \<noteq> [] \<and>
    action \<in> {CollectNow, ReloadConfig, SelfCheck} \<and> action \<noteq> Upgrade \<and> payload \<noteq> [] \<and> \<not> 16 * 1024 < length payload \<and> rsValid S payload \<and>
    ((action = CollectNow \<or> action = ReloadConfig) \<longrightarrow> emptyJSONObject S payload)")
  case False
  then have "(\<exists>status code. reply = Failure status code \<and> code \<noteq> ''command_dispatch_failed'') \<and> d' = d"
    using assms by (auto simp: handleCreateCommand_def split: option.splits if_splits)
  then show ?thesis using refused by auto
next
  case True
  then obtain a action payload where ar: "actor = Some a" "decodeRequest body = Some (action, payload)" "rsStore S" "rsDispatcher S" "agentID \<noteq> []"
    "action \<in> {CollectNow, ReloadConfig, SelfCheck}" "action \<noteq> Upgrade" "payload \<noteq> []" "\<not> 16 * 1024 < length payload" "rsValid S payload"
    "(action = CollectNow \<or> action = ReloadConfig) \<longrightarrow> emptyJSONObject S payload" by blast
  obtain ok u where st: "releaseStatement d = (ok, u)" by (metis surj_pair)
  have same: "same_release_db d u" using releaseStatement_same [OF st] .
  note h = assms [unfolded handleCreateCommand_def, unfolded ar(1,2) option.case st Let_def prod.case]
  show ?thesis
  proof (cases "\<exists>x. (if ok then usable_agent agentID now u else None) = Some x \<and> can_do S x action")
    case False
    then have "(\<exists>status code. reply = Failure status code \<and> code \<noteq> ''command_dispatch_failed'') \<and> d' = u"
      using h ar(3-11) by (auto split: option.splits)
    then show ?thesis using refused same by auto
  next
    case True
    then obtain x where x: "(if ok then usable_agent agentID now u else None) = Some x" "can_do S x action" by blast
    have agent: "\<exists>x\<in>set (rdAgents d). acAgentID x = agentID \<and> acRevokedAt x = 0 \<and> now div second < acExpiresAt x \<and> can_do S x action"
      using x same by (auto simp: usable_agent_def same_release_db_def not_le split: if_splits option.splits dest!: find_Some_in)
    obtain res w where cb: "CreateBatch (rsCrypto S) (rsValid S) (rsSigner S) a [agentID] action payload [random] (word_of_int (now div second)) (rdStore u) = (res, w)"
      by (metis surj_pair)
    note h' = h [unfolded x option.case cb]
    show ?thesis
    proof (cases "\<exists>c. res = Inr [c]")
      case False
      then have "reply = Failure 500 ''command_create_failed'' \<and> d' = u\<lparr>rdStore := w\<rparr>"
        using h' ar(3-11) x(2) by (auto split: sum.splits list.splits)
      then show ?thesis using failed cb same False by blast
    next
      case True
      then obtain c where c: "res = Inr [c]" by blast
      obtain e v where dis: "dispatch_one S now agentID (u\<lparr>rdStore := w\<rparr>) = (e, v)" by (metis surj_pair)
      obtain ok2 z where st2: "releaseStatement v = (ok2, z)" by (metis surj_pair)
      have body: "body = JsonDoc (action, payload)" using ar(2) by (simp add: decodeRequest_Some)
      have out: "(e = None \<longrightarrow> (\<exists>state. reply = Success 201 (c, state)) \<and> d' = z) \<and> (e \<noteq> None \<longrightarrow> reply = Failure 500 ''command_dispatch_failed'' \<and> d' = v)"
        using h' ar(3-11) x(2) by (cases e) (auto simp: c dis st2)
      show ?thesis
        using out releaseStatement_same [OF st2] ar(6,11)
        by (intro created [OF ar(1) body ar(6) _ agent same cb [unfolded c] dis]) auto
    qed
  qed
qed


subsection \<open>Concrete instances\<close>

definition sample_release_server :: "command release_server" where
  "sample_release_server =
     \<lparr>rsStore = True, rsDispatcher = True, rsReleaseKey = Some (Some sample_public), rsPanelVersion = ''1.0.0'', rsCrypto = pad_crypto,
      rsSigner = sample_private, rsParseURL = (\<lambda>_. Some sample_url), rsValid = (\<lambda>_. True),
      rsDecode = (\<lambda>b. if b = ManifestBytes sample_manifest then JsonDoc sample_manifest else JsonBad),
      rsCapabilities = (\<lambda>_. Some [CollectNow, Upgrade]), rsObject = (\<lambda>_. JsonDoc ()), rsPayload = (\<lambda>m s v. ''{}''), rsTextLength = length,
      rsEncode = Some, rsFetch = (\<lambda>_. None)\<rparr>"

definition sample_release_db :: "command release_db" where
  "sample_release_db =
     \<lparr>rdReleases = [], rdAgents = [\<lparr>acAgentID = ''a1'', acVersion = ''1.2.2'', acOS = ''linux'', acArch = ''amd64'', acCapabilities = [],
         acRevokedAt = 0, acExpiresAt = 1000\<rparr>],
      rdStore = sample_store, rdHub = online_hub, rdFaults = []\<rparr>"

lemma sample_release_versions: "parseSemver ''v0.0.0'' = Some (0, 0, 0)"
  using parseSemver_text [of _ 0 0 0] by (simp add: semver_text_def)

definition sample_signature :: bytes where
  "sample_signature = pad_to 64 (ManifestBytes sample_manifest)"

lemma sample_manifest_verified:
  assumes "parseSemver (voCurrentVersion opts) \<in> {Some (0, 0, 0), Some (1, 2, 2)}" "voPanelVersion opts = ''1.0.0''" "voOS opts = ''linux''"
    "voArch opts = ''amd64''" "voControlVersion opts = ''1''" "voArtifact opts = None" "voNow opts = 150"
  shows "VerifyManifest pad_crypto (\<lambda>_. Some sample_url) sample_public \<lparr>smManifest = sample_manifest, smSignature = sample_signature\<rparr> opts = None"
proof -
  have key: "length sample_public = PublicKeySize" "length sample_signature = SignatureSize"
    "ed_verify pad_crypto sample_public (ManifestBytes sample_manifest) sample_signature"
    using pad_crypto_sizes pad_crypto_key_pair
    by (simp_all add: crypto_sizes_def key_pair_def sample_signature_def pad_crypto_def sample_public_def PublicKeySize_def SignatureSize_def pad_to_def)
  have "checkVersions sample_manifest opts = None"
    using assms(1) sample_versions by (auto simp: checkVersions_def sample_manifest_def)
  moreover have "checkArtifactFields (\<lambda>_. Some sample_url) sample_manifest opts = None"
    using assms by (simp add: checkArtifactFields_def sample_manifest_def sample_url_def MaxArtifactBytes_def)
  moreover have "checkPanel sample_manifest opts = None"
    using assms sample_versions by (simp add: checkPanel_def sample_manifest_def)
  moreover have "checkLifetime sample_manifest (voNow opts) = None"
    unfolding assms(7) by code_simp
  moreover have "checkArtifact pad_crypto sample_manifest (voArtifact opts) = None" by (simp add: checkArtifact_def assms)
  ultimately show ?thesis using key by (simp add: VerifyManifest_def)
qed

lemma sample_release_verification:
  "releaseVerification sample_release_server (b64_encode sample_signature) = Some (sample_public, sample_signature)"
  by (simp add: releaseVerification_def sample_release_server_def sample_public_def PublicKeySize_def SignatureSize_def sample_signature_def pad_to_def)

definition sample_release_row :: release_row where
  "sample_release_row = \<lparr>rlID = 1, rlManifest = ManifestBytes sample_manifest, rlSignature = b64_encode sample_signature, rlVersion = ''1.2.3'',
     rlOS = ''linux'', rlArch = ''amd64'', rlSize = 3, rlSHA256 = hex_encode (replicate 32 CHR ''a''), rlUser = 1, rlImportedAt = 150\<rparr>"

lemma length_json_string: "length (json_string s) \<le> 6 * length s + 2"
proof -
  have "length (esc_char c) \<le> 6" for c by (simp add: esc_char_def Let_def)
  then have "length (concat (map esc_char s)) \<le> 6 * length s" by (induction s) (simp_all add: add_mono)
  then show ?thesis by (simp add: json_string_def)
qed

lemma sample_manifest_short: "length (ManifestBytes sample_manifest) \<le> 65536"
proof -
  have n: "length (json_int 3) = 1" "length (json_int 100) = 3" "length (json_int 200) = 3" by code_simp+
  show ?thesis
    using length_json_string [of "''1.2.3''"] length_json_string [of "''linux''"] length_json_string [of "''amd64''"]
      length_json_string [of "hex_encode (replicate 32 CHR ''a'')"] length_json_string [of "''https://x/y''"]
      length_json_string [of "''1.0.0''"] length_json_string [of "''1''"] n
    by (simp add: ManifestBytes_def sample_manifest_def json_key_def)
qed

lemma sample_import:
  "handleImportRelease sample_release_server (Some sample_actor) (JsonDoc (sample_manifest, b64_encode sample_signature)) (150 * second) sample_release_db =
    (Success 201 (1, sample_manifest, b64_encode sample_signature, 150), sample_release_db\<lparr>rdReleases := [sample_release_row]\<rparr>)"
proof -
  have v: "VerifyManifest (rsCrypto sample_release_server) (rsParseURL sample_release_server) sample_public
     \<lparr>smManifest = sample_manifest, smSignature = sample_signature\<rparr>
     (import_options sample_release_server (mfOS sample_manifest) (mfArch sample_manifest) (150 * second)) = None"
    unfolding sample_release_server_def release_server.simps
    by (rule sample_manifest_verified) (simp_all add: import_options_def sample_manifest_def Version_def sample_release_versions)
  have k: "rsReleaseKey sample_release_server = Some (Some sample_public)" by (simp add: sample_release_server_def)
  have len: "\<not> 65536 < rsTextLength sample_release_server (ManifestBytes sample_manifest)" using sample_manifest_short by (simp add: sample_release_server_def)
  have st: "storeRelease sample_release_server 1 sample_manifest (b64_encode sample_signature) (150 * second) sample_release_db =
    (Some (1, 150), sample_release_db\<lparr>rdReleases := [sample_release_row]\<rparr>)"
    using len unfolding storeRelease_def
    by (simp add: releaseStatement_def sample_release_db_def sample_release_row_def Let_def sample_manifest_def)
  have u: "acUserID sample_actor = 1" by (simp add: sample_actor_def)
  show ?thesis
    unfolding handleImportRelease_def k option.case prod.case decodeRequest.simps sample_release_verification if_not_P[OF v[THEN not_not[THEN iffD2]]] u st
    using v by simp
qed

lemmas sample_create_simps = handleCreateCommand_def sample_release_server_def sample_release_db_def releaseStatement_def usable_agent_def
  can_do_def containsAction_def emptyJSONObject_def CreateBatch_def sample_actor_def sample_store_def TTL_def action_defs
  MaxMessageBytes_def begin_tx_def createOne_def SignCommand_def sample_private_def PrivateKeySize_def insert_row_def newRow_def
  nextSequence_def Version_def validAction_def session_known_def insert_event_def dispatch_one_def DispatchAgent_def Expire_def due_rows_def
  QueuedFor_def live_row_def creatorAndState_def requiredRole_def Require_Operator_iff Send_def online_hub_def find_row_def row_actor_def
  word_sle_eq word_sless_alt transitionAt_def Let_def


definition sample_admin :: actor where
  "sample_admin = sample_actor\<lparr>acRole := Admin, acReauthenticatedAt := Some (140 * second)\<rparr>"

definition sample_upgrade :: upgrade_request where
  "sample_upgrade = \<lparr>urVersion = ''1.2.3'', urOS = ''linux'', urArch = ''amd64'', urAgents = [''a1''], urConfirmed = True\<rparr>"

lemma sample_release_decode: "DecodeManifest (rsDecode sample_release_server) (ManifestBytes sample_manifest) = Inr sample_manifest"
  by (simp add: DecodeManifest_def sample_release_server_def)

lemma sample_upgrade_created:
  "\<exists>cs. fst (handleCreateUpgrades sample_release_server (Some sample_admin) (JsonDoc sample_upgrade) [replicate 16 CHR ''x''] (150 * second)
     (sample_release_db\<lparr>rdReleases := [sample_release_row]\<rparr>)) = Success 201 cs"
proof -
  have re: "RequireRecentReauth (150 * second) sample_admin (10 * minute)" by code_simp
  have v: "VerifyManifest (rsCrypto sample_release_server) (rsParseURL sample_release_server) sample_public
     \<lparr>smManifest = sample_manifest, smSignature = sample_signature\<rparr>
     (upgrade_options sample_release_server (hd (rdAgents sample_release_db)) (150 * second)) = None"
    unfolding sample_release_server_def release_server.simps
    by (rule sample_manifest_verified) (simp_all add: upgrade_options_def sample_release_db_def Version_def sample_versions)
  define d where "d = sample_release_db\<lparr>rdReleases := [sample_release_row]\<rparr>"
  have ct: "checkTargets sample_release_server sample_upgrade sample_public \<lparr>smManifest = sample_manifest, smSignature = sample_signature\<rparr>
      (150 * second) [] [''a1''] d = (None, d)"
    using v by (simp add: d_def sample_release_db_def releaseStatement_def usable_agent_def can_do_def containsAction_def sample_upgrade_def
        sample_release_server_def)
  obtain cs st where cb: "CreateBatch (rsCrypto sample_release_server) (rsValid sample_release_server) (rsSigner sample_release_server) sample_admin [''a1'']
      Upgrade (rsPayload sample_release_server sample_manifest (b64_encode sample_signature) (rsPanelVersion sample_release_server))
      [replicate 16 CHR ''x''] (word_of_int (150 * second div second)) (rdStore d) = (Inr cs, st)"
    by (simp add: sample_create_simps sample_admin_def d_def)
  have row: "find (\<lambda>x. rlVersion x = urVersion sample_upgrade \<and> rlOS x = urOS sample_upgrade \<and> rlArch x = urArch sample_upgrade) (rdReleases d) =
      Some sample_release_row" "rlManifest sample_release_row = ManifestBytes sample_manifest" "rlSignature sample_release_row = b64_encode sample_signature"
    by (simp_all add: d_def sample_release_row_def sample_upgrade_def)
  have st: "releaseStatement d = (True, d)" by (simp add: releaseStatement_def d_def sample_release_db_def)
  have f: "rsStore sample_release_server" "rsDispatcher sample_release_server" "urConfirmed sample_upgrade" "urAgents sample_upgrade = [''a1'']"
    by (simp_all add: sample_release_server_def sample_upgrade_def)
  show ?thesis
    unfolding d_def [symmetric] handleCreateUpgrades_def option.case decodeRequest.simps st Let_def prod.case if_True row sample_release_decode
      sum.case sample_release_verification f(4) ct cb
    using re f(1-3) by simp
qed

theorem upgrades_are_verified_witness:
  "\<exists>c. stored_commands (rdStore (snd (handleCreateUpgrades sample_release_server (Some sample_admin) (JsonDoc sample_upgrade) [replicate 16 CHR ''x'']
      (150 * second) (sample_release_db\<lparr>rdReleases := [sample_release_row]\<rparr>)))) = [c] \<and> cAction c = Upgrade \<and> cAgentID c = ''a1''"
proof -
  let ?d = "sample_release_db\<lparr>rdReleases := [sample_release_row]\<rparr>"
  obtain cs d' where h: "handleCreateUpgrades sample_release_server (Some sample_admin) (JsonDoc sample_upgrade) [replicate 16 CHR ''x'']
      (150 * second) ?d = (Success 201 cs, d')"
    using sample_upgrade_created by (metis surjective_pairing)
  have inv: "store_inv (rdStore ?d)" using sample_store_inv by (simp add: sample_release_db_def)
  have none: "stored_commands (rdStore ?d) = []" by (simp add: sample_release_db_def sample_store_def)
  have len: "length [replicate 16 CHR ''x''] = length (urAgents r)" if "JsonDoc sample_upgrade = JsonDoc r" for r
    using that by (auto simp: sample_upgrade_def)
  from upgrades_are_verified [OF h inv len] obtain r where "stored_commands (rdStore d') = cs" "map cAgentID cs = urAgents r"
    "JsonDoc sample_upgrade = JsonDoc r" "\<forall>c\<in>set cs. cAction c = Upgrade"
    unfolding none api_reply.case upgrade_plan_def by auto
  then show ?thesis unfolding h by (auto simp: sample_upgrade_def)
qed

theorem stored_release_is_final_witness:
  "\<not> succeeded (fst (handleImportRelease sample_release_server (Some sample_actor) (JsonDoc (sample_manifest\<lparr>mfExpiresAt := 900\<rparr>, b64_encode sample_signature)) (800 * second)
      (sample_release_db\<lparr>rdReleases := [sample_release_row]\<rparr>))) \<and>
   \<not> succeeded (fst (handleCreateUpgrades sample_release_server (Some sample_admin) (JsonDoc sample_upgrade) [replicate 16 CHR ''x''] (800 * second)
      (sample_release_db\<lparr>rdReleases := [sample_release_row]\<rparr>)))"
proof -
  let ?ops = "[(150 * second, RelImport (Some sample_actor) (JsonDoc (sample_manifest, b64_encode sample_signature)))]"
  let ?d = "sample_release_db\<lparr>rdReleases := [sample_release_row]\<rparr>"
  have run: "?d = release_run sample_release_server ?ops sample_release_db"
    by (simp only: release_run.simps release_apply.simps sample_import snd_conv)
  have none: "rdReleases sample_release_db = []" by (simp add: sample_release_db_def)
  have mem: "sample_release_row \<in> set (rdReleases ?d)" by simp
  have later: "?d = release_run sample_release_server [] ?d" by simp
  have exp: "sint (mfExpiresAt sample_manifest) \<le> 800 * second div second" "800 * second div second < (2 :: int) ^ 63" by (simp_all add: sample_manifest_def)
  have key: "manifest_key (sample_manifest\<lparr>mfExpiresAt := 900\<rparr>) = manifest_key sample_manifest"
    "(urVersion sample_upgrade, urOS sample_upgrade, urArch sample_upgrade) = manifest_key sample_manifest"
    by (simp_all add: manifest_key_def sample_upgrade_def sample_manifest_def)
  have m: "m = sample_manifest" if "rlManifest sample_release_row = ManifestBytes m" for m
    using that by (simp add: sample_release_row_def ManifestBytes_injective)
  note fin = stored_release_is_final [OF none run mem later]
  from fin [where m' = "sample_manifest\<lparr>mfExpiresAt := 900\<rparr>" and s = "b64_encode sample_signature" and actor = "Some sample_actor" and now = "800 * second"]
  have a: "\<not> succeeded (fst (handleImportRelease sample_release_server (Some sample_actor) (JsonDoc (sample_manifest\<lparr>mfExpiresAt := 900\<rparr>, b64_encode sample_signature)) (800 * second) ?d))"
    using m key(1) by blast
  from fin [where r = sample_upgrade and actor = "Some sample_admin" and now = "800 * second" and randoms = "[replicate 16 CHR ''x'']"]
  have b: "\<not> succeeded (fst (handleCreateUpgrades sample_release_server (Some sample_admin) (JsonDoc sample_upgrade) [replicate 16 CHR ''x''] (800 * second) ?d))"
    using m key(2) exp by blast
  show ?thesis using a b by blast
qed

end
