(* ===== verification/PanelNodes.thy ===== *)
theory PanelNodes
  imports PanelSessions Enrollment Alert Detect NetAddr "HOL-Library.Product_Lexorder"
begin

text \<open>
  Nodes of the Panel: the reports of the Agents (\<open>internal/panel/api/report.go\<close>) and the administration of nodes, tags, metrics, alerts and
  versions (\<open>admin.go\<close>), over the tables \<open>nodes\<close>, \<open>tags\<close>, \<open>node_tags\<close>, \<open>metrics\<close>, \<open>alerts\<close>, \<open>versions\<close> and the columns of
  \<open>agent_identities\<close> that they use. A column that may be NULL holds the value that COALESCE puts for it. JSON, addresses, LIKE and the order
  of rows that ORDER BY leaves open are parameters; each statement consumes one entry of \<open>pnFaults\<close>. The times are nanoseconds, those of
  the tables seconds. The acknowledgement of an alert is in \<open>Alert\<close>.
\<close>

subsection \<open>Tables\<close>

record node_row =
  noID :: int
  noNodeID :: bytes
  noAlias :: bytes
  noMutedUntil :: int
  noLastReportAt :: int
  noHost :: bytes
  noServices :: bytes
  noLocation :: bytes
  noCountry :: bytes
  noRegion :: bytes
  noCity :: bytes
  noGeoUpdatedAt :: int
  noCreatedAt :: int
  noUpdatedAt :: int

record metric_row =
  mtNodeID :: bytes
  mtTs :: int
  mtGranularity :: bytes
  mtLoad1 :: real
  mtLoad5 :: real
  mtLoad15 :: real
  mtMemUsedPct :: real
  mtDiskUsedPct :: real
  mtServices :: bytes

record identity_columns =
  icAgentID :: bytes
  icNodeID :: bytes
  icSerial :: nat
  icRevokedAt :: int
  icHeartbeatAt :: int
  icVersion :: bytes
  icOS :: bytes
  icArch :: bytes
  icExpiresAt :: int
  icCapabilities :: bytes
  icUpdatedAt :: int

record version_row =
  vrServiceType :: bytes
  vrLatestVersion :: bytes
  vrSource :: bytes
  vrUpdatedAt :: int

record panel_db =
  pnNodes :: "node_row list"
  pnTags :: "(int \<times> bytes) list"
  pnLinks :: "(int \<times> int) list"
  pnMetrics :: "metric_row list"
  pnAlerts :: "alert_row list"
  pnVersions :: "version_row list"
  pnIdentities :: "identity_columns list"
  pnFaults :: "bool list"

record node_env =
  nvMarshalHost :: "report_host \<Rightarrow> bytes"
  nvMarshalServices :: "report_service list \<Rightarrow> bytes"
  nvHost :: "bytes \<Rightarrow> (bytes \<times> host_addrs) option"
  nvServiceTypes :: "bytes \<Rightarrow> bytes list"
  nvCapabilities :: "bytes \<Rightarrow> action list"
  nvAddress :: addr_text
  nvDuration :: "bytes \<Rightarrow> duration option"
  nvLowerGo :: "bytes \<Rightarrow> bytes"
  nvLowerSQL :: "bytes \<Rightarrow> bytes"
  nvLike :: "bytes \<Rightarrow> bytes \<Rightarrow> bool"
  nvNodeOrder :: "node_row list \<Rightarrow> node_row list"
  nvMetricOrder :: "metric_row list \<Rightarrow> metric_row list"
  nvAlertOrder :: "alert_row list \<Rightarrow> alert_row list"

definition nodeStatement :: "panel_db \<Rightarrow> bool \<times> panel_db" where
  "nodeStatement d = (case pnFaults d of [] \<Rightarrow> (True, d) | f # fs \<Rightarrow> (\<not> f, d\<lparr>pnFaults := fs\<rparr>))"

abbreviation dbError :: "'a api_reply" where "dbError \<equiv> Failure 500 ''db_error''"
abbreviation badRequest :: "'a api_reply" where "badRequest \<equiv> Failure 400 ''bad_request''"
abbreviation notFound :: "'a api_reply" where "notFound \<equiv> Failure 404 ''not_found''"

definition next_key :: "int list \<Rightarrow> int" where
  "next_key ids = fold max ids 0 + 1"

subsection \<open>Reports\<close>

definition upsert_node :: "node_env \<Rightarrow> agent_report \<Rightarrow> int \<Rightarrow> node_row list \<Rightarrow> node_row list" where
  "upsert_node E rep t rows =
     (if rpNodeID rep \<in> noNodeID ` set rows
      then map (\<lambda>n. if noNodeID n = rpNodeID rep
                    then n\<lparr>noLastReportAt := t, noHost := nvMarshalHost E (rpHost rep), noServices := nvMarshalServices E (rpServices rep), noUpdatedAt := t\<rparr>
                    else n) rows
      else rows @
        [\<lparr>noID = next_key (map noID rows), noNodeID = rpNodeID rep, noAlias = [], noMutedUntil = 0, noLastReportAt = t,
          noHost = nvMarshalHost E (rpHost rep), noServices = nvMarshalServices E (rpServices rep), noLocation = [], noCountry = [],
          noRegion = [], noCity = [], noGeoUpdatedAt = 0, noCreatedAt = t, noUpdatedAt = t\<rparr>])"

definition raw_metric :: "node_env \<Rightarrow> agent_report \<Rightarrow> int \<Rightarrow> metric_row" where
  "raw_metric E rep t =
     \<lparr>mtNodeID = rpNodeID rep, mtTs = t, mtGranularity = ''raw'', mtLoad1 = rhLoad1 (rpHost rep), mtLoad5 = rhLoad5 (rpHost rep),
      mtLoad15 = rhLoad15 (rpHost rep), mtMemUsedPct = rhMemUsedPct (rpHost rep), mtDiskUsedPct = rhDiskUsedPct (rpHost rep),
      mtServices = nvMarshalServices E (rpServices rep)\<rparr>"

definition reporting :: "request_identity \<Rightarrow> identity_columns \<Rightarrow> bool" where
  "reporting i r \<longleftrightarrow> icAgentID r = idAgentID i \<and> icSerial r = idSerial i \<and> icRevokedAt r = 0"

text \<open>The transaction: begin, three statements and the commit. What was done before a failure is rolled back.\<close>

definition handleReport :: "node_env \<Rightarrow> agent_report json_doc \<Rightarrow> request_identity \<Rightarrow> int \<Rightarrow> panel_db \<Rightarrow> unit api_reply \<times> panel_db" where
  "handleReport E body i now d =
     (case decodeRequest body of
        None \<Rightarrow> (badRequest, d)
      | Some rep \<Rightarrow>
          if rpNodeID rep = [] then (badRequest, d)
          else if rpNodeID rep \<noteq> idNodeID i then (Failure 403 ''node_mismatch'', d)
          else
            let t = now div second;
                (ok1, d) = nodeStatement d in
            if \<not> ok1 then (dbError, d)
            else let (ok2, d) = nodeStatement d in
            if \<not> ok2 then (dbError, d)
            else let (ok3, d) = nodeStatement d in
            if \<not> ok3 then (dbError, d)
            else
              let (ok4, d) = (if idAgentID i = [] then (True, d) else nodeStatement d) in
              if \<not> ok4 then (dbError, d)
              else if idAgentID i \<noteq> [] \<and> length (filter (reporting i) (pnIdentities d)) \<noteq> 1 then (Failure 409 ''identity_not_current'', d)
              else
                let (ok5, d) = nodeStatement d in
                if \<not> ok5 then (dbError, d)
                else
                  (Success 200 (),
                   d\<lparr>pnNodes := upsert_node E rep t (pnNodes d), pnMetrics := pnMetrics d @ [raw_metric E rep t],
                     pnIdentities := map (\<lambda>r. if idAgentID i \<noteq> [] \<and> reporting i r
                                              then r\<lparr>icHeartbeatAt := t, icVersion := rpAgentVersion rep, icUpdatedAt := t\<rparr> else r)
                                         (pnIdentities d)\<rparr>))"

subsection \<open>Nodes\<close>

record node_view =
  nwNodeID :: bytes
  nwAlias :: bytes
  nwTags :: "bytes list"
  nwMutedUntil :: int
  nwLastReportAt :: int
  nwHost :: bytes
  nwServices :: bytes
  nwEffectiveIP :: bytes
  nwStatus :: bytes
  nwLocation :: bytes
  nwCountry :: bytes
  nwRegion :: bytes
  nwCity :: bytes
  nwGeoUpdatedAt :: int
  nwAgentID :: bytes
  nwControlStatus :: bytes
  nwHeartbeatAt :: int
  nwVersion :: bytes
  nwOS :: bytes
  nwArch :: bytes
  nwCertExpiresAt :: int
  nwCapabilities :: "action list"

definition nodeStatus :: "int \<Rightarrow> duration \<Rightarrow> int \<Rightarrow> bytes" where
  "nodeStatus lastAt timeout now = (if lastAt = 0 \<or> lastAt < (now - timeout) div second then ''offline'' else ''online'')"

definition controlStatus :: "int \<Rightarrow> int \<Rightarrow> bytes" where
  "controlStatus lastHeartbeatAt now = nodeStatus lastHeartbeatAt OfflineTimeout now"

definition nodeTimeout :: "node_env \<Rightarrow> bytes \<Rightarrow> duration" where
  "nodeTimeout E text = (case nvDuration E text of None \<Rightarrow> 3 * minute | Some t \<Rightarrow> if 0 < t then t else 3 * minute)"

text \<open>\<open>nodeSelect\<close> and \<open>scanNode\<close>: the identity of the join is one that is not revoked. The tags and the status are filled in later.\<close>

definition scanNode :: "node_env \<Rightarrow> panel_db \<Rightarrow> int \<Rightarrow> node_row \<Rightarrow> node_view" where
  "scanNode E d now n =
     (let ai = find (\<lambda>r. icNodeID r = noNodeID n \<and> icRevokedAt r = 0) (pnIdentities d);
          col = (\<lambda>f none. case ai of None \<Rightarrow> none | Some r \<Rightarrow> f r);
          beat = (case ai of None \<Rightarrow> 0 | Some r \<Rightarrow> icHeartbeatAt r)
      in \<lparr>nwNodeID = noNodeID n, nwAlias = noAlias n, nwTags = [], nwMutedUntil = noMutedUntil n, nwLastReportAt = noLastReportAt n,
          nwHost = noHost n, nwServices = noServices n,
          nwEffectiveIP = (case nvHost E (noHost n) of None \<Rightarrow> [] | Some (name, addrs) \<Rightarrow> EffectiveIP (nvAddress E) addrs),
          nwStatus = [], nwLocation = noLocation n, nwCountry = noCountry n, nwRegion = noRegion n, nwCity = noCity n,
          nwGeoUpdatedAt = noGeoUpdatedAt n, nwAgentID = col icAgentID [], nwControlStatus = controlStatus beat now, nwHeartbeatAt = beat,
          nwVersion = col icVersion [], nwOS = col icOS [], nwArch = col icArch [],
          nwCertExpiresAt = (case ai of None \<Rightarrow> 0 | Some r \<Rightarrow> icExpiresAt r),
          nwCapabilities = nvCapabilities E (col icCapabilities ''[]'')\<rparr>)"

definition tags_of :: "panel_db \<Rightarrow> bytes \<Rightarrow> bytes list" where
  "tags_of d nodeID =
     sort (concat (map (\<lambda>(tagID, name). concat (map (\<lambda>(n, t).
        if t = tagID then map (\<lambda>_. name) (filter (\<lambda>r. noID r = n \<and> noNodeID r = nodeID) (pnNodes d)) else []) (pnLinks d))) (pnTags d)))"

definition tagsForNode :: "bytes \<Rightarrow> panel_db \<Rightarrow> bytes list option \<times> panel_db" where
  "tagsForNode nodeID d = (let (ok, d) = nodeStatement d in (if ok then Some (tags_of d nodeID) else None, d))"

type_synonym query = "(bytes \<times> bytes list) list"

definition firstQuery :: "query \<Rightarrow> bytes \<Rightarrow> bytes" where
  "firstQuery q key = (case map_of q key of Some (v # vs) \<Rightarrow> v | _ \<Rightarrow> [])"

definition parseIntDefault :: "bytes \<Rightarrow> int \<Rightarrow> int" where
  "parseIntDefault s fallback = (case atoi s of (n, None) \<Rightarrow> if n \<le> 0 then fallback else n | (n, Some e) \<Rightarrow> fallback)"

definition nodeFilter :: "node_env \<Rightarrow> query \<Rightarrow> duration \<Rightarrow> int \<Rightarrow> panel_db \<Rightarrow> node_row \<Rightarrow> bool" where
  "nodeFilter E q timeout now d n =
     (let status = firstQuery q ''status''; search = firstQuery q ''q''; tag = firstQuery q ''tag'';
          cutoff = (now - timeout) div second; like = ''%'' @ nvLowerGo E search @ ''%''
      in (status = ''online'' \<longrightarrow> cutoff \<le> noLastReportAt n) \<and> (status = ''offline'' \<longrightarrow> noLastReportAt n < cutoff) \<and>
         (search \<noteq> [] \<longrightarrow> nvLike E like (nvLowerSQL E (noNodeID n)) \<or> nvLike E like (nvLowerSQL E (noAlias n)) \<or> nvLike E like (nvLowerSQL E (noHost n))) \<and>
         (tag \<noteq> [] \<longrightarrow> list_ex (\<lambda>(x, t). x = noID n \<and> list_ex (\<lambda>(tagID, name). tagID = t \<and> name = tag) (pnTags d)) (pnLinks d)))"

text \<open>The rows of one page, each with the statement for its tags; \<open>None\<close> when one of them fails.\<close>

fun listNodes :: "node_env \<Rightarrow> duration \<Rightarrow> int \<Rightarrow> node_row list \<Rightarrow> panel_db \<Rightarrow> node_view list option \<times> panel_db" where
  "listNodes E timeout now [] d = (Some [], d)"
| "listNodes E timeout now (n # ns) d =
     (case tagsForNode (noNodeID n) d of
        (None, d) \<Rightarrow> (None, d)
      | (Some tags, d) \<Rightarrow>
          (case listNodes E timeout now ns d of
             (None, d) \<Rightarrow> (None, d)
           | (Some out, d) \<Rightarrow> (Some ((scanNode E d now n)\<lparr>nwStatus := nodeStatus (noLastReportAt n) timeout now, nwTags := tags\<rparr> # out), d)))"

record node_page =
  ngItems :: "node_view list"
  ngTotal :: nat
  ngPage :: int
  ngPageSize :: int

text \<open>The offset is computed in 64 bits; a negative one counts as zero.\<close>

definition page_offset :: "int \<Rightarrow> int \<Rightarrow> nat" where
  "page_offset page rows = nat (sint (word_of_int ((page - 1) * rows) :: int64))"

definition handleNodes :: "node_env \<Rightarrow> bytes \<Rightarrow> query \<Rightarrow> int \<Rightarrow> panel_db \<Rightarrow> node_page api_reply \<times> panel_db" where
  "handleNodes E timeoutText q now d =
     (let page = parseIntDefault (firstQuery q ''page'') 1;
          rows = parseIntDefault (firstQuery q ''page_size'') 10;
          page = (if page < 1 then 1 else page);
          rows = (if rows < 1 then 10 else rows);
          rows = (if 100 < rows then 100 else rows);
          timeout = nodeTimeout E timeoutText;
          matching = filter (nodeFilter E q timeout now d) (pnNodes d);
          (ok, d) = nodeStatement d
      in if \<not> ok then (dbError, d)
         else
           let (ok, d) = nodeStatement d in
           if \<not> ok then (dbError, d)
           else (case listNodes E timeout now (take (nat rows) (drop (page_offset page rows) (nvNodeOrder E matching))) d of
             (None, d) \<Rightarrow> (dbError, d)
           | (Some out, d) \<Rightarrow> (Success 200 \<lparr>ngItems = out, ngTotal = length matching, ngPage = page, ngPageSize = rows\<rparr>, d)))"

definition handleNodeDetail :: "node_env \<Rightarrow> bytes \<Rightarrow> bytes \<Rightarrow> int \<Rightarrow> panel_db \<Rightarrow> node_view api_reply \<times> panel_db" where
  "handleNodeDetail E timeoutText nodeID now d =
     (if nodeID = [] then (badRequest, d)
      else
        let (ok, d) = nodeStatement d in
        (case (if ok then find (\<lambda>n. noNodeID n = nodeID) (pnNodes d) else None) of
           None \<Rightarrow> (notFound, d)
         | Some n \<Rightarrow>
             (case tagsForNode (noNodeID n) d of
                (None, d) \<Rightarrow> (dbError, d)
              | (Some tags, d) \<Rightarrow>
                  (Success 200 ((scanNode E d now n)\<lparr>nwStatus := nodeStatus (noLastReportAt n) (nodeTimeout E timeoutText) now, nwTags := tags\<rparr>), d))))"

text \<open>An update of the row of a node: a database error, or whether a row was changed.\<close>

definition update_node :: "(node_row \<Rightarrow> node_row) \<Rightarrow> bytes \<Rightarrow> panel_db \<Rightarrow> bool option \<times> panel_db" where
  "update_node f nodeID d =
     (let (ok, d) = nodeStatement d in
      if \<not> ok then (None, d)
      else (Some (nodeID \<in> noNodeID ` set (pnNodes d)),
            d\<lparr>pnNodes := map (\<lambda>n. if noNodeID n = nodeID then f n else n) (pnNodes d)\<rparr>))"

subsection \<open>Tags\<close>

datatype tag_error = TagNoRows | TagDatabase

definition insert_tag :: "bytes \<Rightarrow> (int \<times> bytes) list \<Rightarrow> (int \<times> bytes) list" where
  "insert_tag name tags = (if name \<in> snd ` set tags then tags else tags @ [(next_key (map fst tags), name)])"

fun link_tags :: "int \<Rightarrow> bytes list \<Rightarrow> panel_db \<Rightarrow> tag_error option \<times> panel_db" where
  "link_tags pk [] d = (None, d)"
| "link_tags pk (raw # raws) d =
     (let name = trim_space raw in
      if name = [] then link_tags pk raws d
      else
        let (ok, d) = nodeStatement d in
        if \<not> ok then (Some TagDatabase, d)
        else
          let d = d\<lparr>pnTags := insert_tag name (pnTags d)\<rparr>; (ok, d) = nodeStatement d in
          if \<not> ok then (Some TagDatabase, d)
          else (case find (\<lambda>(i, x). x = name) (pnTags d) of
            None \<Rightarrow> (Some TagNoRows, d)
          | Some (tagID, _) \<Rightarrow>
              let (ok, d) = nodeStatement d in
              if \<not> ok then (Some TagDatabase, d)
              else link_tags pk raws (d\<lparr>pnLinks := (if (pk, tagID) \<in> set (pnLinks d) then pnLinks d else pnLinks d @ [(pk, tagID)])\<rparr>)))"

text \<open>The two halves of \<open>syncNodeTags\<close>: the key of the node is read first, and the rest of the statements use it.\<close>

definition node_key :: "bytes \<Rightarrow> panel_db \<Rightarrow> (tag_error + int) \<times> panel_db" where
  "node_key nodeID d =
     (let (ok, d) = nodeStatement d in
      if \<not> ok then (Inl TagDatabase, d)
      else (case find (\<lambda>n. noNodeID n = nodeID) (pnNodes d) of None \<Rightarrow> (Inl TagNoRows, d) | Some n \<Rightarrow> (Inr (noID n), d)))"

definition replace_tags :: "int \<Rightarrow> bytes list \<Rightarrow> panel_db \<Rightarrow> tag_error option \<times> panel_db" where
  "replace_tags pk names d =
     (let (ok, d) = nodeStatement d in
      if \<not> ok then (Some TagDatabase, d)
      else link_tags pk names (d\<lparr>pnLinks := filter (\<lambda>(n, t). n \<noteq> pk) (pnLinks d)\<rparr>))"

definition syncNodeTags :: "bytes \<Rightarrow> bytes list \<Rightarrow> panel_db \<Rightarrow> tag_error option \<times> panel_db" where
  "syncNodeTags nodeID names d =
     (case node_key nodeID d of (Inl e, d) \<Rightarrow> (Some e, d) | (Inr pk, d) \<Rightarrow> replace_tags pk names d)"

record node_patch =
  npAlias :: "bytes option"
  npTags :: "bytes list option"
  npMutedUntil :: "int option"

text \<open>One optional update of the patch: the answer that ends the request, if any.\<close>

definition patch_column :: "'a option \<Rightarrow> ('a \<Rightarrow> node_row \<Rightarrow> node_row) \<Rightarrow> bytes \<Rightarrow> int \<Rightarrow> panel_db \<Rightarrow> (nat \<times> bytes) option \<times> panel_db" where
  "patch_column v f nodeID now d =
     (case v of
        None \<Rightarrow> (None, d)
      | Some x \<Rightarrow>
          (case update_node (\<lambda>n. (f x n)\<lparr>noUpdatedAt := now div second\<rparr>) nodeID d of
             (None, d) \<Rightarrow> (Some (500, ''db_error''), d)
           | (Some found, d) \<Rightarrow> (if found then None else Some (404, ''not_found''), d)))"

definition patch_tags :: "bytes list option \<Rightarrow> bytes \<Rightarrow> panel_db \<Rightarrow> (nat \<times> bytes) option \<times> panel_db" where
  "patch_tags v nodeID d =
     (case v of
        None \<Rightarrow> (None, d)
      | Some names \<Rightarrow>
          (case syncNodeTags nodeID names d of
             (None, d) \<Rightarrow> (None, d)
           | (Some TagNoRows, d) \<Rightarrow> (Some (404, ''not_found''), d)
           | (Some TagDatabase, d) \<Rightarrow> (Some (500, ''db_error''), d)))"

definition handleNodePatch :: "node_env \<Rightarrow> bytes \<Rightarrow> node_patch option \<Rightarrow> int \<Rightarrow> panel_db \<Rightarrow> node_view api_reply \<times> panel_db" where
  "handleNodePatch E nodeID body now d =
     (if nodeID = [] then (badRequest, d)
      else (case body of
        None \<Rightarrow> (badRequest, d)
      | Some p \<Rightarrow>
          (case patch_column (npAlias p) (\<lambda>x n. n\<lparr>noAlias := x\<rparr>) nodeID now d of
             (Some (status, code), d) \<Rightarrow> (Failure status code, d)
           | (None, d) \<Rightarrow>
               (case patch_column (npMutedUntil p) (\<lambda>x n. n\<lparr>noMutedUntil := x\<rparr>) nodeID now d of
                  (Some (status, code), d) \<Rightarrow> (Failure status code, d)
                | (None, d) \<Rightarrow>
                    (case patch_tags (npTags p) nodeID d of
                       (Some (status, code), d) \<Rightarrow> (Failure status code, d)
                     | (None, d) \<Rightarrow>
                         let (ok, d) = nodeStatement d in
                         (case (if ok then find (\<lambda>n. noNodeID n = nodeID) (pnNodes d) else None) of
                            None \<Rightarrow> (notFound, d)
                          | Some n \<Rightarrow>
                              (case tagsForNode (noNodeID n) d of
                                 (None, d) \<Rightarrow> (dbError, d)
                               | (Some tags, d) \<Rightarrow> (Success 200 ((scanNode E d now n)\<lparr>nwTags := tags\<rparr>), d))))))))"

definition handleNodeDelete :: "bytes \<Rightarrow> panel_db \<Rightarrow> unit api_reply \<times> panel_db" where
  "handleNodeDelete nodeID d =
     (if nodeID = [] then (badRequest, d)
      else
        let (ok, d) = nodeStatement d in
        if \<not> ok then (dbError, d)
        else
          let ids = noID ` {n \<in> set (pnNodes d). noNodeID n = nodeID};
              d = d\<lparr>pnLinks := filter (\<lambda>(n, t). n \<notin> ids) (pnLinks d)\<rparr>; (ok, d) = nodeStatement d in
          if \<not> ok then (dbError, d)
          else
            let d = d\<lparr>pnMetrics := filter (\<lambda>m. mtNodeID m \<noteq> nodeID) (pnMetrics d)\<rparr>; (ok, d) = nodeStatement d in
            if \<not> ok then (dbError, d)
            else
              let d = d\<lparr>pnAlerts := filter (\<lambda>a. arNodeID a \<noteq> nodeID) (pnAlerts d)\<rparr>; (ok, d) = nodeStatement d in
              if \<not> ok then (dbError, d)
              else
                (if nodeID \<in> noNodeID ` set (pnNodes d) then Success 200 () else notFound,
                 d\<lparr>pnNodes := filter (\<lambda>n. noNodeID n \<noteq> nodeID) (pnNodes d)\<rparr>))"

definition handleNodeMetrics :: "node_env \<Rightarrow> bytes \<Rightarrow> query \<Rightarrow> panel_db \<Rightarrow> metric_row list api_reply \<times> panel_db" where
  "handleNodeMetrics E nodeID q d =
     (if nodeID = [] then (badRequest, d)
      else
        let granularity = firstQuery q ''granularity'';
            bound = (\<lambda>key. case atoi (firstQuery q key) of (n, None) \<Rightarrow> Some n | (n, Some e) \<Rightarrow> None);
            wanted = (\<lambda>m. mtNodeID m = nodeID \<and> (granularity = [] \<or> mtGranularity m = granularity) \<and>
               (case bound ''from'' of None \<Rightarrow> True | Some t \<Rightarrow> t \<le> mtTs m) \<and> (case bound ''to'' of None \<Rightarrow> True | Some t \<Rightarrow> mtTs m \<le> t));
            (ok, d) = nodeStatement d
        in if \<not> ok then (dbError, d) else (Success 200 (nvMetricOrder E (filter wanted (pnMetrics d))), d))"

text \<open>A tag of the list has at least one link; links of nodes that are gone count as well.\<close>

definition handleTags :: "panel_db \<Rightarrow> (int \<times> bytes \<times> nat) list api_reply \<times> panel_db" where
  "handleTags d =
     (let (ok, d) = nodeStatement d in
      if \<not> ok then (dbError, d)
      else
        (Success 200
           (filter (\<lambda>(i, name, n). 0 < n)
              (map (\<lambda>(i, name). (i, name, length (filter (\<lambda>(n, t). t = i) (pnLinks d)))) (sort_key snd (pnTags d)))), d))"

definition handleTagCreate :: "bytes option \<Rightarrow> panel_db \<Rightarrow> (int \<times> bytes \<times> nat) api_reply \<times> panel_db" where
  "handleTagCreate body d =
     (case body of
        None \<Rightarrow> (badRequest, d)
      | Some raw \<Rightarrow>
          let name = trim_space raw in
          if name = [] then (badRequest, d)
          else
            let (ok, d) = nodeStatement d in
            if \<not> ok then (dbError, d)
            else
              let d = d\<lparr>pnTags := insert_tag name (pnTags d)\<rparr>; (ok, d) = nodeStatement d in
              (case (if ok then find (\<lambda>(i, x). x = name) (pnTags d) else None) of
                 None \<Rightarrow> (dbError, d)
               | Some (i, x) \<Rightarrow> (Success 200 (i, x, 0), d)))"

definition handleTagDelete :: "bytes \<Rightarrow> panel_db \<Rightarrow> unit api_reply \<times> panel_db" where
  "handleTagDelete text d =
     (case atoi text of
        (n, Some e) \<Rightarrow> (badRequest, d)
      | (i, None) \<Rightarrow>
          let (ok, d) = nodeStatement d in
          if \<not> ok then (dbError, d)
          else
            let d = d\<lparr>pnLinks := filter (\<lambda>(n, t). t \<noteq> i) (pnLinks d)\<rparr>; (ok, d) = nodeStatement d in
            if \<not> ok then (dbError, d)
            else (if i \<in> fst ` set (pnTags d) then Success 200 () else notFound,
                  d\<lparr>pnTags := filter (\<lambda>(t, name). t \<noteq> i) (pnTags d)\<rparr>))"

subsection \<open>Versions, overview and alerts\<close>

definition handleVersions :: "panel_db \<Rightarrow> version_row list api_reply \<times> panel_db" where
  "handleVersions d =
     (let (ok, d) = nodeStatement d in if \<not> ok then (dbError, d) else (Success 200 (sort_key vrServiceType (pnVersions d)), d))"

definition upsert_version :: "version_row \<Rightarrow> version_row list \<Rightarrow> version_row list" where
  "upsert_version v rows =
     (if vrServiceType v \<in> vrServiceType ` set rows then map (\<lambda>r. if vrServiceType r = vrServiceType v then v else r) rows else rows @ [v])"

definition handleVersionPatch :: "bytes \<Rightarrow> bytes option \<Rightarrow> int \<Rightarrow> panel_db \<Rightarrow> version_row api_reply \<times> panel_db" where
  "handleVersionPatch serviceType body now d =
     (if serviceType = [] then (badRequest, d)
      else (case body of
        None \<Rightarrow> (badRequest, d)
      | Some latest \<Rightarrow>
          if latest = [] then (badRequest, d)
          else
            let v = \<lparr>vrServiceType = serviceType, vrLatestVersion = latest, vrSource = ''manual'', vrUpdatedAt = now div second\<rparr>;
                (ok, d) = nodeStatement d in
            if \<not> ok then (dbError, d) else (Success 200 v, d\<lparr>pnVersions := upsert_version v (pnVersions d)\<rparr>)))"

fun count_type :: "bytes \<Rightarrow> nat \<times> (bytes \<times> nat) list \<Rightarrow> nat \<times> (bytes \<times> nat) list" where
  "count_type t (counted, by_type) =
     (if t = ''generic'' then (counted, by_type)
      else (counted + 1, if t = [] then by_type else AList.update t (case map_of by_type t of None \<Rightarrow> 1 | Some n \<Rightarrow> n + 1) by_type))"

record overview =
  ovNodesTotal :: nat
  ovNodesOnline :: nat
  ovAlertsActive :: nat
  ovServicesTotal :: nat
  ovDistribution :: "(bytes \<times> nat) list"

text \<open>The order of the entries: by falling count, then by type.\<close>

definition dist_key :: "bytes \<times> nat \<Rightarrow> int \<times> bytes" where
  "dist_key x = (- int (snd x), fst x)"

definition handleOverview :: "node_env \<Rightarrow> bytes \<Rightarrow> int \<Rightarrow> panel_db \<Rightarrow> overview api_reply \<times> panel_db" where
  "handleOverview E timeoutText now d =
     (let cutoff = (now - nodeTimeout E timeoutText) div second;
          (ok, d) = nodeStatement d in
      if \<not> ok then (dbError, d)
      else let (ok, d) = nodeStatement d in
      if \<not> ok then (dbError, d)
      else let (ok, d) = nodeStatement d in
      if \<not> ok then (dbError, d)
      else let (ok, d) = nodeStatement d in
      if \<not> ok then (dbError, d)
      else
        let (counted, by_type) = fold count_type (concat (map (nvServiceTypes E \<circ> noServices) (pnNodes d))) (0, []) in
        (Success 200
           \<lparr>ovNodesTotal = length (pnNodes d), ovNodesOnline = length (filter (\<lambda>n. cutoff \<le> noLastReportAt n) (pnNodes d)),
            ovAlertsActive = length (filter (\<lambda>a. arStatus a = ''firing'') (pnAlerts d)), ovServicesTotal = counted,
            ovDistribution = sort_key dist_key by_type\<rparr>, d))"

definition handleAlerts :: "node_env \<Rightarrow> query \<Rightarrow> panel_db \<Rightarrow> (alert_row \<times> bytes \<times> bytes) list api_reply \<times> panel_db" where
  "handleAlerts E q d =
     (let status = firstQuery q ''status''; nodeID = firstQuery q ''node_id'';
          wanted = (\<lambda>a. (status \<noteq> [] \<longrightarrow> arStatus a = status) \<and> (nodeID \<noteq> [] \<longrightarrow> arNodeID a = nodeID));
          row = (\<lambda>a. case find (\<lambda>n. noNodeID n = arNodeID a) (pnNodes d) of
             None \<Rightarrow> (a, [], case nvHost E ''{}'' of None \<Rightarrow> [] | Some (name, _) \<Rightarrow> name)
           | Some n \<Rightarrow> (a, noAlias n, case nvHost E (noHost n) of None \<Rightarrow> [] | Some (name, _) \<Rightarrow> name));
          (ok, d) = nodeStatement d
      in if \<not> ok then (dbError, d) else (Success 200 (map row (nvAlertOrder E (filter wanted (pnAlerts d)))), d))"

subsection \<open>The tables stay linked\<close>

definition node_tables_ok :: "panel_db \<Rightarrow> bool" where
  "node_tables_ok d \<longleftrightarrow>
     distinct (map noID (pnNodes d)) \<and> distinct (map noNodeID (pnNodes d)) \<and>
     distinct (map fst (pnTags d)) \<and> distinct (map snd (pnTags d)) \<and> distinct (pnLinks d) \<and>
     (\<forall>(n, t)\<in>set (pnLinks d). n \<in> noID ` set (pnNodes d) \<and> t \<in> fst ` set (pnTags d))"

definition same_panel :: "panel_db \<Rightarrow> panel_db \<Rightarrow> bool" where
  "same_panel d d' \<longleftrightarrow> d' = d\<lparr>pnFaults := pnFaults d'\<rparr>"

lemma same_panel_refl [simp]: "same_panel d d"
  by (simp add: same_panel_def)

lemma same_panel_fields:
  "same_panel d d' \<Longrightarrow> pnNodes d' = pnNodes d \<and> pnTags d' = pnTags d \<and> pnLinks d' = pnLinks d \<and> pnMetrics d' = pnMetrics d \<and>
     pnAlerts d' = pnAlerts d \<and> pnVersions d' = pnVersions d \<and> pnIdentities d' = pnIdentities d"
  by (cases d; cases d') (simp add: same_panel_def)

lemma same_panel_trans: "same_panel a b \<Longrightarrow> same_panel b c \<Longrightarrow> same_panel a c"
  by (cases a; cases b; cases c) (simp add: same_panel_def)

lemma nodeStatement_same: "nodeStatement d = (ok, d') \<Longrightarrow> same_panel d d'"
  by (auto simp: nodeStatement_def same_panel_def split: list.splits)

lemma tables_same: "same_panel d d' \<Longrightarrow> node_tables_ok d' = node_tables_ok d"
  using same_panel_fields [of d d'] by (simp add: node_tables_ok_def)

lemma next_key_fresh: "next_key ids \<notin> set ids"
  using fold_max_int_ge [of _ ids 0] by (force simp: next_key_def)

lemma map_keep: "(\<And>x. x \<in> set xs \<Longrightarrow> g (f x) = g x) \<Longrightarrow> map g (map f xs) = map g xs"
  by (induction xs) auto

lemma upsert_node_ok:
  assumes "distinct (map noID rows)" "distinct (map noNodeID rows)"
  shows "distinct (map noID (upsert_node E rep t rows)) \<and> distinct (map noNodeID (upsert_node E rep t rows)) \<and>
    noID ` set rows \<subseteq> noID ` set (upsert_node E rep t rows)"
proof (cases "rpNodeID rep \<in> noNodeID ` set rows")
  case True
  let ?f = "\<lambda>n. if noNodeID n = rpNodeID rep
    then n\<lparr>noLastReportAt := t, noHost := nvMarshalHost E (rpHost rep), noServices := nvMarshalServices E (rpServices rep), noUpdatedAt := t\<rparr> else n"
  have u: "upsert_node E rep t rows = map ?f rows" using True by (simp add: upsert_node_def)
  have ids: "map noID (map ?f rows) = map noID rows" "map noNodeID (map ?f rows) = map noNodeID rows" by (rule map_keep; simp)+
  then have "noID ` set (map ?f rows) = noID ` set rows" by (metis set_map)
  then show ?thesis using assms unfolding u ids by simp
next
  case False
  then show ?thesis using assms next_key_fresh [of "map noID rows"] by (auto simp: upsert_node_def)
qed

lemma handleReport_cases:
  assumes "handleReport E body i now d = (reply, d')"
  shows "\<not> succeeded reply \<and> same_panel d d' \<or>
    succeeded reply \<and> (\<exists>rep u. body = JsonDoc rep \<and> rpNodeID rep \<noteq> [] \<and> rpNodeID rep = idNodeID i \<and> same_panel d u \<and>
      (idAgentID i = [] \<or> length (filter (reporting i) (pnIdentities d)) = 1) \<and>
      d' = u\<lparr>pnNodes := upsert_node E rep (now div second) (pnNodes d), pnMetrics := pnMetrics d @ [raw_metric E rep (now div second)],
             pnIdentities := map (\<lambda>r. if idAgentID i \<noteq> [] \<and> reporting i r
                then r\<lparr>icHeartbeatAt := now div second, icVersion := rpAgentVersion rep, icUpdatedAt := now div second\<rparr> else r) (pnIdentities d)\<rparr>)"
proof (cases "\<exists>rep. body = JsonDoc rep \<and> rpNodeID rep \<noteq> [] \<and> rpNodeID rep = idNodeID i")
  case False
  then have "\<not> succeeded reply \<and> d' = d" using assms by (cases body) (auto simp: handleReport_def split: if_splits)
  then show ?thesis by simp
next
  case True
  then obtain rep where rep: "body = JsonDoc rep" "rpNodeID rep \<noteq> []" "rpNodeID rep = idNodeID i" by blast
  obtain k1 d1 where 1: "nodeStatement d = (k1, d1)" by (metis surj_pair)
  obtain k2 d2 where 2: "nodeStatement d1 = (k2, d2)" by (metis surj_pair)
  obtain k3 d3 where 3: "nodeStatement d2 = (k3, d3)" by (metis surj_pair)
  obtain k4 d4 where 4: "(if idAgentID i = [] then (True, d3) else nodeStatement d3) = (k4, d4)" by (metis surj_pair)
  obtain k5 d5 where 5: "nodeStatement d4 = (k5, d5)" by (metis surj_pair)
  have s1: "same_panel d d1" using nodeStatement_same [OF 1] .
  have s2: "same_panel d d2" using same_panel_trans [OF s1 nodeStatement_same [OF 2]] .
  have s3: "same_panel d d3" using same_panel_trans [OF s2 nodeStatement_same [OF 3]] .
  have s4: "same_panel d d4" using 4 s3 same_panel_trans [OF s3 nodeStatement_same [of d3 k4 d4]] by (auto split: if_splits)
  have s5: "same_panel d d5" using same_panel_trans [OF s4 nodeStatement_same [OF 5]] .
  have same: "pnIdentities d4 = pnIdentities d" "pnIdentities d5 = pnIdentities d" "pnNodes d5 = pnNodes d" "pnMetrics d5 = pnMetrics d"
    using same_panel_fields [OF s4] same_panel_fields [OF s5] by simp_all
  note h = assms [unfolded handleReport_def rep(1) decodeRequest.simps option.case Let_def 1 2 3 4 5 prod.case same]
  show ?thesis
  proof (cases "k1 \<and> k2 \<and> k3 \<and> k4 \<and> k5 \<and> (idAgentID i = [] \<or> length (filter (reporting i) (pnIdentities d)) = 1)")
    case True
    then show ?thesis using h rep s5 by auto
  next
    case False
    then have "\<not> succeeded reply \<and> d' \<in> {d1, d2, d3, d4, d5}" using h rep(2,3) by (auto split: if_splits)
    then show ?thesis using s1 s2 s3 s4 s5 by auto
  qed
qed

lemma report_tables:
  assumes "node_tables_ok d" "handleReport E body i now d = (reply, d')"
  shows "node_tables_ok d'"
proof -
  from handleReport_cases [OF assms(2)] consider "same_panel d d'"
    | rep u ms cols where "same_panel d u" "d' = u\<lparr>pnNodes := upsert_node E rep (now div second) (pnNodes d), pnMetrics := ms, pnIdentities := cols\<rparr>"
    by blast
  then show ?thesis
  proof cases
    case 1
    then show ?thesis using assms(1) tables_same by simp
  next
    case (2 rep u ms cols)
  have "distinct (map noID (pnNodes d))" "distinct (map noNodeID (pnNodes d))" using assms(1) by (simp_all add: node_tables_ok_def)
  note up = upsert_node_ok [OF this, of E rep "now div second"]
  have "n \<in> noID ` set (upsert_node E rep (now div second) (pnNodes d))" if "n \<in> noID ` set (pnNodes d)" for n
    using that up by blast
  with up same_panel_fields [OF 2(1)] assms(1) show ?thesis
    unfolding 2(2) node_tables_ok_def by auto
  qed
qed

lemma update_node_tables:
  assumes "node_tables_ok d" "update_node f nodeID d = (res, d')" "\<And>n. noID (f n) = noID n \<and> noNodeID (f n) = noNodeID n"
  shows "node_tables_ok d'"
proof -
  obtain ok u where st: "nodeStatement d = (ok, u)" by (metis surj_pair)
  have ids: "map noID (map (\<lambda>n. if noNodeID n = nodeID then f n else n) rows) = map noID rows"
    "map noNodeID (map (\<lambda>n. if noNodeID n = nodeID then f n else n) rows) = map noNodeID rows" for rows
    using assms(3) by (auto intro!: map_keep simp: o_def)
  then have "noID ` set (map (\<lambda>n. if noNodeID n = nodeID then f n else n) rows) = noID ` set rows" for rows
    by (metis set_map)
  then show ?thesis
    using assms(1,2) nodeStatement_same [OF st, THEN same_panel_fields] unfolding update_node_def st Let_def prod.case
    by (auto simp: node_tables_ok_def ids simp del: map_map split: if_splits)
qed

lemma patch_column_tables:
  assumes "node_tables_ok d" "patch_column v f nodeID now d = (res, d')" "\<And>x n. noID (f x n) = noID n \<and> noNodeID (f x n) = noNodeID n"
  shows "node_tables_ok d'"
proof (cases v)
  case None
  then show ?thesis using assms(1,2) by (simp add: patch_column_def)
next
  case (Some x)
  obtain r u where u: "update_node (\<lambda>n. (f x n)\<lparr>noUpdatedAt := now div second\<rparr>) nodeID d = (r, u)" by (metis surj_pair)
  have "node_tables_ok u" by (rule update_node_tables [OF assms(1) u]) (simp add: assms(3))
  then show ?thesis using assms(2) by (auto simp: patch_column_def Some u split: option.splits)
qed

lemma insert_tag_ok:
  assumes "distinct (map fst tags)" "distinct (map snd tags)"
  shows "distinct (map fst (insert_tag name tags)) \<and> distinct (map snd (insert_tag name tags)) \<and> set tags \<subseteq> set (insert_tag name tags) \<and>
    name \<in> snd ` set (insert_tag name tags)"
  using assms next_key_fresh [of "map fst tags"] by (auto simp: insert_tag_def)

lemma link_tags_tables:
  assumes "node_tables_ok d" "pk \<in> noID ` set (pnNodes d)" "link_tags pk names d = (res, d')"
  shows "node_tables_ok d' \<and> pnNodes d' = pnNodes d"
  using assms
proof (induction names arbitrary: d)
  case (Cons raw raws)
  show ?case
  proof (cases "trim_space raw = []")
    case True
    then show ?thesis using Cons by simp
  next
    case False
    obtain k1 d1 where 1: "nodeStatement d = (k1, d1)" by (metis surj_pair)
    have s1: "same_panel d d1" using nodeStatement_same [OF 1] .
    define e where "e = d1\<lparr>pnTags := insert_tag (trim_space raw) (pnTags d1)\<rparr>"
    obtain k2 d2 where 2: "nodeStatement e = (k2, d2)" by (metis surj_pair)
    obtain k3 d3 where 3: "nodeStatement d2 = (k3, d3)" by (metis surj_pair)
    have s2: "same_panel e d2" using nodeStatement_same [OF 2] .
    have s3: "same_panel e d3" using same_panel_trans [OF s2 nodeStatement_same [OF 3]] .
    have "node_tables_ok d1" using Cons.prems(1) tables_same [OF s1] by simp
    then have ok: "node_tables_ok e" using insert_tag_ok [of "pnTags d1" "trim_space raw"] unfolding e_def node_tables_ok_def by fastforce
    have nodes: "pnNodes d1 = pnNodes d" "pnNodes e = pnNodes d" "pnNodes d2 = pnNodes d" "pnNodes d3 = pnNodes d"
      using same_panel_fields [OF s1] same_panel_fields [OF s2] same_panel_fields [OF s3] by (simp_all add: e_def)
    have oks: "node_tables_ok d1" "node_tables_ok d2" "node_tables_ok d3"
      using ok Cons.prems(1) tables_same [OF s1] tables_same [OF s2] tables_same [OF s3] by simp_all
    note h = Cons.prems(3) [unfolded link_tags.simps Let_def 1 prod.case e_def [symmetric] 2 3]
    show ?thesis
    proof (cases "k1 \<and> k2 \<and> k3 \<and> (\<exists>i x. find (\<lambda>(i, x). x = trim_space raw) (pnTags d2) = Some (i, x))")
      case True
      then obtain i x where f: "find (\<lambda>(i, x). x = trim_space raw) (pnTags d2) = Some (i, x)" by blast
      have "pnTags d3 = pnTags d2" using same_panel_fields [OF s2] same_panel_fields [OF s3] by simp
      then have mem: "(i, x) \<in> set (pnTags d3)" using find_Some_in [OF f] by metis
      let ?d = "d3\<lparr>pnLinks := if (pk, i) \<in> set (pnLinks d3) then pnLinks d3 else pnLinks d3 @ [(pk, i)]\<rparr>"
      have "node_tables_ok ?d" using oks(3) mem Cons.prems(2) nodes(4) unfolding node_tables_ok_def by force
      moreover have "link_tags pk raws ?d = (res, d')" using h True f \<open>trim_space raw \<noteq> []\<close> by simp
      ultimately show ?thesis using Cons.IH [of ?d] Cons.prems(2) nodes(4) by simp
    next
      case False
      then have "d' \<in> {d1, d2, d3}" using h \<open>trim_space raw \<noteq> []\<close> by (auto split: if_splits option.splits)
      then show ?thesis using oks nodes by auto
    qed
  qed
qed simp

lemma replace_tags_tables:
  assumes "node_tables_ok d" "pk \<in> noID ` set (pnNodes d)" "replace_tags pk names d = (res, d')"
  shows "node_tables_ok d' \<and> pnNodes d' = pnNodes d"
proof -
  obtain ok u where st: "nodeStatement d = (ok, u)" by (metis surj_pair)
  have u: "node_tables_ok u" "pnNodes u = pnNodes d"
    using tables_same [OF nodeStatement_same [OF st]] assms(1) same_panel_fields [OF nodeStatement_same [OF st]] by simp_all
  then have "node_tables_ok (u\<lparr>pnLinks := filter (\<lambda>(n, t). n \<noteq> pk) (pnLinks u)\<rparr>)" by (auto simp: node_tables_ok_def)
  then have l: "node_tables_ok d' \<and> pnNodes d' = pnNodes d" if "link_tags pk names (u\<lparr>pnLinks := filter (\<lambda>(n, t). n \<noteq> pk) (pnLinks u)\<rparr>) = (res, d')"
    using link_tags_tables [OF _ _ that] u(2) assms(2) by simp
  show ?thesis
  proof (cases ok)
    case True
    then show ?thesis using l assms(3) by (simp add: replace_tags_def st)
  next
    case False
    then show ?thesis using u assms(3) by (simp add: replace_tags_def st)
  qed
qed

lemma node_key_cases:
  assumes "node_key nodeID d = (res, d')"
  shows "same_panel d d' \<and> (\<forall>pk. res = Inr pk \<longrightarrow> (\<exists>n\<in>set (pnNodes d). noNodeID n = nodeID \<and> noID n = pk))"
proof -
  obtain ok u where st: "nodeStatement d = (ok, u)" by (metis surj_pair)
  have same: "same_panel d u" using nodeStatement_same [OF st] .
  show ?thesis using assms same same_panel_fields [OF same]
    by (auto simp: node_key_def st Let_def split: if_splits option.splits dest!: find_Some_in)
qed

lemma patch_tags_tables:
  assumes "node_tables_ok d" "patch_tags v nodeID d = (res, d')"
  shows "node_tables_ok d' \<and> pnNodes d' = pnNodes d"
proof (cases v)
  case None
  then show ?thesis using assms by (simp add: patch_tags_def)
next
  case (Some names)
  obtain e u where s: "syncNodeTags nodeID names d = (e, u)" by (metis surj_pair)
  obtain r w where k: "node_key nodeID d = (r, w)" by (metis surj_pair)
  note kc = node_key_cases [OF k]
  have sw: "same_panel d w" using kc by blast
  have w: "node_tables_ok w" "pnNodes w = pnNodes d" using tables_same [OF sw] assms(1) same_panel_fields [OF sw] by simp_all
  have "node_tables_ok u \<and> pnNodes u = pnNodes d"
  proof (cases r)
    case (Inl err)
    then show ?thesis using s w by (simp add: syncNodeTags_def k)
  next
    case (Inr pk)
    then have "pk \<in> noID ` set (pnNodes w)" "replace_tags pk names w = (e, u)" using kc s w by (auto simp: syncNodeTags_def k)
    from replace_tags_tables [OF w(1) this] w show ?thesis by simp
  qed
  then show ?thesis using assms(2) by (auto simp: patch_tags_def Some s split: option.splits tag_error.splits)
qed

lemma handleNodePatch_tables:
  assumes "node_tables_ok d" "handleNodePatch E nodeID body now d = (reply, d')"
  shows "node_tables_ok d'"
proof (cases "nodeID = [] \<or> body = None")
  case True
  then show ?thesis using assms by (auto simp: handleNodePatch_def split: option.splits)
next
  case False
  then obtain p where p: "body = Some p" "nodeID \<noteq> []" by auto
  obtain r1 d1 where 1: "patch_column (npAlias p) (\<lambda>x n. n\<lparr>noAlias := x\<rparr>) nodeID now d = (r1, d1)" by (metis surj_pair)
  obtain r2 d2 where 2: "patch_column (npMutedUntil p) (\<lambda>x n. n\<lparr>noMutedUntil := x\<rparr>) nodeID now d1 = (r2, d2)" by (metis surj_pair)
  obtain r3 d3 where 3: "patch_tags (npTags p) nodeID d2 = (r3, d3)" by (metis surj_pair)
  obtain r4 d4 where 4: "nodeStatement d3 = (r4, d4)" by (metis surj_pair)
  have t1: "node_tables_ok d1" using patch_column_tables [OF assms(1) 1] by simp
  have t2: "node_tables_ok d2" using patch_column_tables [OF t1 2] by simp
  have t3: "node_tables_ok d3" using patch_tags_tables [OF t2 3] by simp
  have t4: "node_tables_ok d4" using t3 tables_same [OF nodeStatement_same [OF 4]] by simp
  have t5: "node_tables_ok e" if "tagsForNode x d4 = (res, e)" for x res e
    using that t4 tables_same [OF nodeStatement_same] by (auto simp: tagsForNode_def split: prod.splits if_splits)
  note h = assms(2) [unfolded handleNodePatch_def p(1) option.case 1 2 3 4 prod.case Let_def]
  show ?thesis
  proof (cases "r1 = None \<and> r2 = None \<and> r3 = None")
    case False
    then have "d' \<in> {d1, d2, d3}" using h p(2) by (auto split: option.splits)
    then show ?thesis using t1 t2 t3 by auto
  next
    case True
    then show ?thesis using h p(2) t4 t5 by (auto split: option.splits prod.splits)
  qed
qed

lemma handleNodeDelete_tables:
  assumes "node_tables_ok d" "handleNodeDelete nodeID d = (reply, d')"
  shows "node_tables_ok d'"
proof (cases "nodeID = []")
  case True
  then show ?thesis using assms by (simp add: handleNodeDelete_def)
next
  case False
  obtain k1 d1 where 1: "nodeStatement d = (k1, d1)" by (metis surj_pair)
  define e1 where "e1 = d1\<lparr>pnLinks := filter (\<lambda>(n, t). n \<notin> noID ` {n \<in> set (pnNodes d1). noNodeID n = nodeID}) (pnLinks d1)\<rparr>"
  obtain k2 d2 where 2: "nodeStatement e1 = (k2, d2)" by (metis surj_pair)
  define e2 where "e2 = d2\<lparr>pnMetrics := filter (\<lambda>m. mtNodeID m \<noteq> nodeID) (pnMetrics d2)\<rparr>"
  obtain k3 d3 where 3: "nodeStatement e2 = (k3, d3)" by (metis surj_pair)
  define e3 where "e3 = d3\<lparr>pnAlerts := filter (\<lambda>a. arNodeID a \<noteq> nodeID) (pnAlerts d3)\<rparr>"
  obtain k4 d4 where 4: "nodeStatement e3 = (k4, d4)" by (metis surj_pair)
  define e4 where "e4 = d4\<lparr>pnNodes := filter (\<lambda>n. noNodeID n \<noteq> nodeID) (pnNodes d4)\<rparr>"
  note f1 = same_panel_fields [OF nodeStatement_same [OF 1]] and f2 = same_panel_fields [OF nodeStatement_same [OF 2]]
    and f3 = same_panel_fields [OF nodeStatement_same [OF 3]] and f4 = same_panel_fields [OF nodeStatement_same [OF 4]]
  have t1: "node_tables_ok d1" using assms(1) f1 by (simp add: node_tables_ok_def)
  then have te: "node_tables_ok e1" by (auto simp: e1_def node_tables_ok_def)
  have t2: "node_tables_ok d2" "node_tables_ok e2" using te f2 by (simp_all add: node_tables_ok_def e2_def)
  have t3: "node_tables_ok d3" "node_tables_ok e3" using t2 f3 by (simp_all add: node_tables_ok_def e3_def)
  have t4: "node_tables_ok d4" using t3 f4 by (simp add: node_tables_ok_def)
  have links: "pnLinks d4 = pnLinks e1" "pnNodes d4 = pnNodes d1" using f2 f3 f4 by (simp_all add: e1_def e2_def e3_def)
  have gone: "n \<in> noID ` set (pnNodes e4)" if nt: "(n, t) \<in> set (pnLinks e4)" for n t
  proof -
    have "(n, t) \<in> set (pnLinks d1)" "n \<notin> noID ` {n \<in> set (pnNodes d1). noNodeID n = nodeID}"
      using nt links(1) by (auto simp: e4_def e1_def)
    moreover from this(1) have "n \<in> noID ` set (pnNodes d1)" using t1 by (auto simp: node_tables_ok_def)
    ultimately show ?thesis using links(2) by (auto simp: e4_def)
  qed
  have t: "\<forall>(n, t)\<in>set (pnLinks e4). n \<in> noID ` set (pnNodes e4) \<and> t \<in> fst ` set (pnTags e4)"
    using gone t4 by (auto simp: e4_def node_tables_ok_def)
  have te4: "node_tables_ok e4"
    using t4 t unfolding node_tables_ok_def by (simp add: e4_def distinct_map_filter)
  have "d' \<in> {d1, d2, d3, d4, e4}"
    using assms(2) False unfolding handleNodeDelete_def 1 Let_def prod.case e1_def [symmetric] 2 e2_def [symmetric] 3 e3_def [symmetric] 4 e4_def [symmetric]
    by (auto split: if_splits)
  then show ?thesis using t1 t2 t3 t4 te4 by auto
qed

lemma handleTagCreate_tables:
  assumes "node_tables_ok d" "handleTagCreate body d = (reply, d')"
  shows "node_tables_ok d'"
proof (cases "\<exists>raw. body = Some raw \<and> trim_space raw \<noteq> []")
  case False
  then show ?thesis using assms by (auto simp: handleTagCreate_def split: option.splits)
next
  case True
  then obtain raw where b: "body = Some raw" "trim_space raw \<noteq> []" by blast
  obtain k1 d1 where 1: "nodeStatement d = (k1, d1)" by (metis surj_pair)
  define e where "e = d1\<lparr>pnTags := insert_tag (trim_space raw) (pnTags d1)\<rparr>"
  obtain k2 d2 where 2: "nodeStatement e = (k2, d2)" by (metis surj_pair)
  have t1: "node_tables_ok d1" using assms(1) tables_same [OF nodeStatement_same [OF 1]] by simp
  then have "node_tables_ok e" using insert_tag_ok [of "pnTags d1" "trim_space raw"] unfolding e_def node_tables_ok_def by fastforce
  then have t2: "node_tables_ok d2" using tables_same [OF nodeStatement_same [OF 2]] by simp
  have "d' \<in> {d1, d2}" using assms(2) b(2) unfolding handleTagCreate_def b(1) option.case Let_def 1 prod.case e_def [symmetric] 2
    by (auto split: if_splits option.splits)
  then show ?thesis using t1 t2 by auto
qed

lemma handleTagDelete_tables:
  assumes "node_tables_ok d" "handleTagDelete n d = (reply, d')"
  shows "node_tables_ok d'"
proof (cases "atoi n")
  case (Pair i err)
  obtain k1 d1 where 1: "nodeStatement d = (k1, d1)" by (metis surj_pair)
  define e where "e = d1\<lparr>pnLinks := filter (\<lambda>(n, t). t \<noteq> i) (pnLinks d1)\<rparr>"
  obtain k2 d2 where 2: "nodeStatement e = (k2, d2)" by (metis surj_pair)
  define e2 where "e2 = d2\<lparr>pnTags := filter (\<lambda>(t, name). t \<noteq> i) (pnTags d2)\<rparr>"
  have t1: "node_tables_ok d1" using assms(1) tables_same [OF nodeStatement_same [OF 1]] by simp
  then have te: "node_tables_ok e" by (auto simp: e_def node_tables_ok_def)
  then have t2: "node_tables_ok d2" using tables_same [OF nodeStatement_same [OF 2]] by simp
  have f2: "pnLinks d2 = pnLinks e" using same_panel_fields [OF nodeStatement_same [OF 2]] by simp
  have "t \<in> fst ` set (pnTags e2)" if nt: "(n, t) \<in> set (pnLinks e2)" for n t
  proof -
    have "t \<in> fst ` set (pnTags d2)" "t \<noteq> i" using nt t2 f2 by (auto simp: e2_def node_tables_ok_def e_def)
    then show ?thesis by (auto simp: e2_def)
  qed
  then have l: "\<forall>(n, t)\<in>set (pnLinks e2). n \<in> noID ` set (pnNodes e2) \<and> t \<in> fst ` set (pnTags e2)"
    using t2 by (auto simp: e2_def node_tables_ok_def)
  have t3: "node_tables_ok e2" using t2 l unfolding node_tables_ok_def by (simp add: e2_def distinct_map_filter)
  have "d' \<in> {d, d1, d2, e2}" using assms(2) unfolding handleTagDelete_def Pair Let_def 1 prod.case e_def [symmetric] 2 e2_def [symmetric]
    by (auto split: if_splits option.splits)
  then show ?thesis using assms(1) t1 t2 t3 by auto
qed

subsection \<open>Requests over time\<close>

text \<open>\<open>NodeWorld\<close> stands for what the rest of the Panel does to metrics, alerts, versions and identities.\<close>

datatype node_op =
    NodeReport "agent_report json_doc" request_identity
  | NodePatch bytes "node_patch option"
  | NodeDelete bytes
  | TagCreate "bytes option"
  | TagDelete bytes
  | NodeWorld "metric_row list" "alert_row list" "version_row list" "identity_columns list" "bool list"

fun node_apply :: "node_env \<Rightarrow> int \<Rightarrow> node_op \<Rightarrow> panel_db \<Rightarrow> panel_db" where
  "node_apply E now (NodeReport body i) d = snd (handleReport E body i now d)"
| "node_apply E now (NodePatch nodeID body) d = snd (handleNodePatch E nodeID body now d)"
| "node_apply E now (NodeDelete nodeID) d = snd (handleNodeDelete nodeID d)"
| "node_apply E now (TagCreate body) d = snd (handleTagCreate body d)"
| "node_apply E now (TagDelete n) d = snd (handleTagDelete n d)"
| "node_apply E now (NodeWorld ms as vs cols fs) d = d\<lparr>pnMetrics := ms, pnAlerts := as, pnVersions := vs, pnIdentities := cols, pnFaults := fs\<rparr>"

fun node_run :: "node_env \<Rightarrow> (int \<times> node_op) list \<Rightarrow> panel_db \<Rightarrow> panel_db" where
  "node_run E [] d = d"
| "node_run E ((now, op) # ops) d = node_run E ops (node_apply E now op d)"

lemma node_apply_tables:
  assumes "node_tables_ok d"
  shows "node_tables_ok (node_apply E now op d)"
proof (cases op)
  case (NodeReport body i)
  then show ?thesis using report_tables [OF assms surjective_pairing] by simp
next
  case (NodePatch nodeID body)
  then show ?thesis using handleNodePatch_tables [OF assms surjective_pairing] by simp
next
  case (NodeDelete nodeID)
  then show ?thesis using handleNodeDelete_tables [OF assms surjective_pairing] by simp
next
  case (TagCreate body)
  then show ?thesis using handleTagCreate_tables [OF assms surjective_pairing] by simp
next
  case (TagDelete n)
  then show ?thesis using handleTagDelete_tables [OF assms surjective_pairing] by simp
next
  case (NodeWorld ms as vs cols fs)
  then show ?thesis using assms by (simp add: node_tables_ok_def)
qed

lemma node_run_tables: "node_tables_ok d \<Longrightarrow> node_tables_ok (node_run E ops d)"
  by (induction E ops d rule: node_run.induct) (auto intro: node_apply_tables)

subsection \<open>The tags of a node\<close>

definition linked_names :: "panel_db \<Rightarrow> int \<Rightarrow> bytes set" where
  "linked_names d pk = {name. \<exists>t. (t, name) \<in> set (pnTags d) \<and> (pk, t) \<in> set (pnLinks d)}"

lemma one_match: "distinct xs \<Longrightarrow> a \<in> set xs \<Longrightarrow> concat (map (\<lambda>x. if x = a then [c] else []) xs) = [c]"
  by (induction xs) auto

lemma filter_single: "distinct xs \<Longrightarrow> a \<in> set xs \<Longrightarrow> filter (\<lambda>x. x = a) xs = [a]"
  by (induction xs) (auto simp: filter_empty_conv)

lemma no_match: "a \<notin> set xs \<Longrightarrow> concat (map (\<lambda>x. if x = a then [c] else []) xs) = []"
  by (induction xs) auto

lemma tags_of_node:
  assumes ok: "node_tables_ok d" and n: "n \<in> set (pnNodes d)"
  shows "distinct (tags_of d (noNodeID n)) \<and> set (tags_of d (noNodeID n)) = linked_names d (noID n) \<and> sorted (tags_of d (noNodeID n))"
proof -
  have row: "filter (\<lambda>r. noID r = x \<and> noNodeID r = noNodeID n) (pnNodes d) = (if x = noID n then [n] else [])" for x
  proof (cases "x = noID n")
    case True
    have "distinct (pnNodes d)" "\<And>r. r \<in> set (pnNodes d) \<Longrightarrow> noID r = noID n \<Longrightarrow> r = n"
      using ok n by (auto simp: node_tables_ok_def distinct_map inj_on_def)
    then have "filter (\<lambda>r. noID r = noID n \<and> noNodeID r = noNodeID n) (pnNodes d) = filter (\<lambda>r. r = n) (pnNodes d)"
      by (intro filter_cong) auto
    also have "\<dots> = [n]" using n \<open>distinct (pnNodes d)\<close> by (intro filter_single)
    finally show ?thesis using True by simp
  next
    case False
    have "r = n" if "r \<in> set (pnNodes d)" "noNodeID r = noNodeID n" for r
      using that n ok by (auto simp: node_tables_ok_def distinct_map inj_on_def)
    then show ?thesis using False by (auto simp: filter_empty_conv)
  qed
  have inner: "concat (map (\<lambda>(x, t). if t = i then map (\<lambda>_. name) (filter (\<lambda>r. noID r = x \<and> noNodeID r = noNodeID n) (pnNodes d)) else []) (pnLinks d)) =
    (if (noID n, i) \<in> set (pnLinks d) then [name] else [])" for i and name :: bytes
  proof -
    have "(\<lambda>(x, t). if t = i then map (\<lambda>_. name) (filter (\<lambda>r. noID r = x \<and> noNodeID r = noNodeID n) (pnNodes d)) else []) =
      (\<lambda>l. if l = (noID n, i) then [name] else [])" unfolding row by (rule ext) (simp split: prod.split)
    moreover have "distinct (pnLinks d)" using ok by (simp add: node_tables_ok_def)
    ultimately show ?thesis using one_match no_match by (metis (no_types))
  qed
  have t: "tags_of d (noNodeID n) = sort (concat (map (\<lambda>(i, name). if (noID n, i) \<in> set (pnLinks d) then [name] else []) (pnTags d)))"
    unfolding tags_of_def inner ..
  have "distinct (concat (map (\<lambda>(i, name). if (noID n, i) \<in> L then [name] else []) ts)) \<and>
    set (concat (map (\<lambda>(i, name). if (noID n, i) \<in> L then [name] else []) ts)) = {name. \<exists>t. (t, name) \<in> set ts \<and> (noID n, t) \<in> L}"
    if "distinct (map snd ts)" for L and ts :: "(int \<times> bytes) list"
    using that by (induction ts) force+
  then show ?thesis unfolding t linked_names_def using ok by (simp add: node_tables_ok_def)
qed

text \<open>The names that are written: trimmed, and the empty ones left out.\<close>

definition tag_names :: "bytes list \<Rightarrow> bytes set" where
  "tag_names raws = trim_space ` set raws - {[]}"

lemma insert_tag_names: "snd ` set (insert_tag name tags) = insert name (snd ` set tags)"
  by (auto simp: insert_tag_def)

definition tag_tables :: "panel_db \<Rightarrow> bool" where
  "tag_tables d \<longleftrightarrow> distinct (map fst (pnTags d)) \<and> distinct (map snd (pnTags d)) \<and> distinct (pnLinks d) \<and>
     (\<forall>(n, t)\<in>set (pnLinks d). t \<in> fst ` set (pnTags d))"

lemma tables_tag_tables: "node_tables_ok d \<Longrightarrow> tag_tables d"
  by (auto simp: node_tables_ok_def tag_tables_def)

lemma tag_tables_same: "same_panel d d' \<Longrightarrow> tag_tables d' = tag_tables d"
  using same_panel_fields [of d d'] by (simp add: tag_tables_def)

lemma linked_insert_tag:
  assumes "tag_tables d"
  shows "linked_names (d\<lparr>pnTags := insert_tag name (pnTags d)\<rparr>) x = linked_names d x"
proof -
  have "(t, y) \<in> set (insert_tag name (pnTags d)) \<longleftrightarrow> (t, y) \<in> set (pnTags d)" if l: "(x, t) \<in> set (pnLinks d)" for t y
  proof -
    have "t \<in> fst ` set (pnTags d)" using l assms by (auto simp: tag_tables_def)
    moreover have "next_key (map fst (pnTags d)) \<notin> fst ` set (pnTags d)" using next_key_fresh [of "map fst (pnTags d)"] by simp
    ultimately have "t \<noteq> next_key (map fst (pnTags d))" by metis
    then show ?thesis by (auto simp: insert_tag_def)
  qed
  then show ?thesis by (auto simp: linked_names_def)
qed

lemma linked_same: "same_panel d d' \<Longrightarrow> linked_names d' x = linked_names d x"
  using same_panel_fields [of d d'] by (simp add: linked_names_def)

lemma linked_add:
  assumes "distinct (map fst (pnTags d))" "(i, name) \<in> set (pnTags d)"
  shows "linked_names (d\<lparr>pnLinks := if (pk, i) \<in> set (pnLinks d) then pnLinks d else pnLinks d @ [(pk, i)]\<rparr>) x =
    (if x = pk then insert name (linked_names d x) else linked_names d x)"
proof -
  have "y = name" if "(i, y) \<in> set (pnTags d)" for y using eq_key_imp_eq_value [OF assms(1) that assms(2)] .
  then have tag: "(i, y) \<in> set (pnTags d) \<longleftrightarrow> y = name" for y using assms(2) by blast
  have links: "(x, t) \<in> set (if (pk, i) \<in> set L then L else L @ [(pk, i)]) \<longleftrightarrow> (x, t) \<in> set L \<or> x = pk \<and> t = i" for L :: "(int \<times> int) list" and t
    by auto
  have "(\<exists>t. (t, y) \<in> set (pnTags d) \<and> ((x, t) \<in> set (pnLinks d) \<or> x = pk \<and> t = i)) \<longleftrightarrow>
    (\<exists>t. (t, y) \<in> set (pnTags d) \<and> (x, t) \<in> set (pnLinks d)) \<or> x = pk \<and> y = name" for y
    using tag [of y] by metis
  then show ?thesis unfolding linked_names_def by (simp add: links set_eq_iff) blast
qed

lemma link_tags_effect:
  assumes "tag_tables d" "link_tags pk names d = (None, d')"
  shows "(\<forall>x. linked_names d' x = (if x = pk then linked_names d pk \<union> tag_names names else linked_names d x)) \<and>
    tag_tables d' \<and> pnNodes d' = pnNodes d \<and> (\<forall>(y, t)\<in>set (pnLinks d'). y = pk \<or> (y, t) \<in> set (pnLinks d))"
  using assms
proof (induction names arbitrary: d)
  case Nil
  then show ?case by (auto simp: tag_names_def)
next
  case (Cons raw raws)
  show ?case
  proof (cases "trim_space raw = []")
    case True
    then have "tag_names (raw # raws) = tag_names raws" by (auto simp: tag_names_def)
    then show ?thesis using Cons True by simp
  next
    case False
    then have tn: "tag_names (raw # raws) = insert (trim_space raw) (tag_names raws)" by (auto simp: tag_names_def)
    obtain k1 d1 where 1: "nodeStatement d = (k1, d1)" by (metis surj_pair)
    define e where "e = d1\<lparr>pnTags := insert_tag (trim_space raw) (pnTags d1)\<rparr>"
    obtain k2 d2 where 2: "nodeStatement e = (k2, d2)" by (metis surj_pair)
    obtain k3 d3 where 3: "nodeStatement d2 = (k3, d3)" by (metis surj_pair)
    note s1 = nodeStatement_same [OF 1] and s2 = nodeStatement_same [OF 2] and s3 = nodeStatement_same [OF 3]
    have t1: "tag_tables d1" using Cons.prems(1) tag_tables_same [OF s1] by simp
    then have te: "tag_tables e" using insert_tag_ok [of "pnTags d1" "trim_space raw"] unfolding e_def tag_tables_def by fastforce
    have t3: "tag_tables d3" using te tag_tables_same [OF s2] tag_tables_same [OF s3] by simp
    have n3: "pnNodes d3 = pnNodes d" "pnLinks d3 = pnLinks d"
      using same_panel_fields [OF s1] same_panel_fields [OF s2] same_panel_fields [OF s3] by (simp_all add: e_def)
    have l3: "linked_names d3 y = linked_names d y" for y
      using linked_same [OF s1] linked_same [OF s2] linked_same [OF s3] linked_insert_tag [OF t1, of "trim_space raw" y] by (simp add: e_def)
    note h = Cons.prems(2) [unfolded link_tags.simps Let_def 1 prod.case e_def [symmetric] 2 3]
    obtain i y where f: "find (\<lambda>(i, x). x = trim_space raw) (pnTags d2) = Some (i, y)" and k: "k1" "k2" "k3"
      using h False by (auto split: if_splits option.splits)
    have "y = trim_space raw" using find_Some_in [OF f] by simp
    moreover have "(i, y) \<in> set (pnTags d2)" using find_Some_in [OF f] by metis
    moreover have "pnTags d3 = pnTags d2" using same_panel_fields [OF s3] by simp
    ultimately have mem: "(i, trim_space raw) \<in> set (pnTags d3)" by simp
    let ?d = "d3\<lparr>pnLinks := if (pk, i) \<in> set (pnLinks d3) then pnLinks d3 else pnLinks d3 @ [(pk, i)]\<rparr>"
    have ok: "tag_tables ?d" using t3 mem unfolding tag_tables_def by force
    have d3: "distinct (map fst (pnTags d3))" using t3 by (simp add: tag_tables_def)
    have step: "link_tags pk raws ?d = (None, d')" using h k f False by simp
    have links: "(y, t) \<in> set (pnLinks ?d) \<Longrightarrow> y = pk \<or> (y, t) \<in> set (pnLinks d)" for y t using n3(2) by (auto split: if_splits)
    note IH = Cons.IH [OF ok step]
    have "linked_names d' x = (if x = pk then linked_names d pk \<union> tag_names (raw # raws) else linked_names d x)" for x
      using IH linked_add [OF d3 mem, of pk] l3 by (auto simp: tn)
    moreover have "pnNodes d' = pnNodes d" using IH n3(1) by simp
    moreover have "\<forall>(y, t)\<in>set (pnLinks d'). y = pk \<or> (y, t) \<in> set (pnLinks d)" using IH links by blast
    ultimately show ?thesis using IH by blast
  qed
qed

lemma replace_tags_effect:
  assumes "tag_tables d" "replace_tags pk names d = (None, d')"
  shows "(\<forall>x. linked_names d' x = (if x = pk then tag_names names else linked_names d x)) \<and>
    tag_tables d' \<and> pnNodes d' = pnNodes d \<and> (\<forall>(y, t)\<in>set (pnLinks d'). y = pk \<or> (y, t) \<in> set (pnLinks d))"
proof -
  obtain ok u where st: "nodeStatement d = (ok, u)" by (metis surj_pair)
  define e where "e = u\<lparr>pnLinks := filter (\<lambda>(n, t). n \<noteq> pk) (pnLinks u)\<rparr>"
  note same = nodeStatement_same [OF st]
  have e: "tag_tables e" using tag_tables_same [OF same] assms(1) by (auto simp: e_def tag_tables_def)
  have l: "linked_names e y = (if y = pk then {} else linked_names d y)" for y
    using linked_same [OF same, of y] by (auto simp: e_def linked_names_def)
  have n: "pnNodes e = pnNodes d" "\<And>y t. (y, t) \<in> set (pnLinks e) \<Longrightarrow> (y, t) \<in> set (pnLinks d)"
    using same_panel_fields [OF same] by (auto simp: e_def)
  have "link_tags pk names e = (None, d')" using assms(2) by (simp add: replace_tags_def st e_def split: if_splits)
  note eff = link_tags_effect [OF e this]
  have "linked_names d' x = (if x = pk then tag_names names else linked_names d x)" for x using eff by (simp add: l)
  moreover have "\<forall>(y, t)\<in>set (pnLinks d'). y = pk \<or> (y, t) \<in> set (pnLinks d)" using eff n(2) by blast
  ultimately show ?thesis using eff n(1) by simp
qed

definition node_ids :: "panel_db \<Rightarrow> (int \<times> bytes) list" where
  "node_ids d = map (\<lambda>n. (noID n, noNodeID n)) (pnNodes d)"

lemma patch_column_frame:
  assumes "patch_column v f nodeID now d = (res, d')" "\<And>x n. noID (f x n) = noID n \<and> noNodeID (f x n) = noNodeID n"
  shows "node_ids d' = node_ids d \<and> pnTags d' = pnTags d \<and> pnLinks d' = pnLinks d"
proof (cases v)
  case None
  then show ?thesis using assms by (simp add: patch_column_def)
next
  case (Some x)
  obtain ok u where st: "nodeStatement d = (ok, u)" by (metis surj_pair)
  note f = same_panel_fields [OF nodeStatement_same [OF st]]
  have ids: "map (\<lambda>n. (noID n, noNodeID n)) (map (\<lambda>n. if noNodeID n = nodeID then (f x n)\<lparr>noUpdatedAt := now div second\<rparr> else n) rows) =
    map (\<lambda>n. (noID n, noNodeID n)) rows" for rows
    using assms(2) by (intro map_keep) simp
  have u: "node_ids (u\<lparr>pnNodes := map (\<lambda>n. if noNodeID n = nodeID then (f x n)\<lparr>noUpdatedAt := now div second\<rparr> else n) (pnNodes u)\<rparr>) = node_ids d"
  proof -
    have un: "pnNodes u = pnNodes d" using f by simp
    have get: "pnNodes (u\<lparr>pnNodes := rows\<rparr>) = rows" for rows by simp
    show ?thesis by (simp only: node_ids_def get un ids)
  qed
  have v: "node_ids u = node_ids d" using f by (simp add: node_ids_def)
  show ?thesis
  proof (cases ok)
    case True
    then have "d' = u\<lparr>pnNodes := map (\<lambda>n. if noNodeID n = nodeID then (f x n)\<lparr>noUpdatedAt := now div second\<rparr> else n) (pnNodes u)\<rparr>"
      using assms(1) by (simp add: patch_column_def Some update_node_def st)
    then show ?thesis using u f by simp
  next
    case False
    then have "d' = u" using assms(1) by (simp add: patch_column_def Some update_node_def st)
    then show ?thesis using v f by simp
  qed
qed

lemma tags_of_id:
  assumes "node_tables_ok d" "(k, nodeID) \<in> set (node_ids d)"
  shows "tags_of d nodeID = sorted_list_of_set (linked_names d k)"
proof -
  obtain n where n: "n \<in> set (pnNodes d)" "noNodeID n = nodeID" "noID n = k" using assms(2) by (auto simp: node_ids_def)
  from tags_of_node [OF assms(1) n(1)] n show ?thesis
    using sorted_list_of_set.idem_if_sorted_distinct [of "tags_of d nodeID"] by metis
qed

lemma tags_of_missing: "nodeID \<notin> snd ` set (node_ids d) \<Longrightarrow> tags_of d nodeID = []"
proof -
  assume "nodeID \<notin> snd ` set (node_ids d)"
  then have "filter (\<lambda>r. noID r = x \<and> noNodeID r = nodeID) (pnNodes d) = []" for x
    by (force simp: node_ids_def filter_empty_conv)
  then have "concat (map (\<lambda>(n, t). if t = i then map (\<lambda>_. name) (filter (\<lambda>r. noID r = n \<and> noNodeID r = nodeID) (pnNodes d)) else []) ls) = []"
    for i ls and name :: bytes
    by (induction ls) auto
  note inner = this
  have none: "concat (map (\<lambda>(i, name). []) ts) = ([] :: bytes list)" for ts :: "(int \<times> bytes) list" by (induction ts) auto
  show ?thesis unfolding tags_of_def inner none by simp
qed

lemma patch_answer:
  "(case (if ok then find P ns else None) of
      None \<Rightarrow> (notFound, d)
    | Some row \<Rightarrow> (case tg row of (None, d) \<Rightarrow> (dbError, d) | (Some tags, d) \<Rightarrow> (Success 200 (F d row tags), d))) = (Success n v, d') \<Longrightarrow>
   \<exists>row tags. ok \<and> find P ns = Some row \<and> tg row = (Some tags, d') \<and> v = F d' row tags"
  by (auto split: if_splits option.splits prod.splits)

text \<open>C38. Setting the tags of a node does what it says: when the patch succeeds, the node has exactly the given names, each once, trimmed, without the
  empty ones and in order, both in the answer and in the database, and no other node gains or loses a tag.\<close>

theorem patch_sets_tags:
  assumes "node_tables_ok d" and "handleNodePatch E nodeID (Some p) now d = (Success n v, d')" and "npTags p = Some names"
  shows "nwTags v = sorted_list_of_set (tag_names names) \<and> tags_of d' nodeID = sorted_list_of_set (tag_names names) \<and>
    (\<forall>other. other \<noteq> nodeID \<longrightarrow> tags_of d' other = tags_of d other)"
proof -
  obtain r1 d1 where 1: "patch_column (npAlias p) (\<lambda>x n. n\<lparr>noAlias := x\<rparr>) nodeID now d = (r1, d1)" by (metis surj_pair)
  obtain r2 d2 where 2: "patch_column (npMutedUntil p) (\<lambda>x n. n\<lparr>noMutedUntil := x\<rparr>) nodeID now d1 = (r2, d2)" by (metis surj_pair)
  obtain r3 d3 where 3: "patch_tags (npTags p) nodeID d2 = (r3, d3)" by (metis surj_pair)
  obtain r4 d4 where 4: "nodeStatement d3 = (r4, d4)" by (metis surj_pair)
  have ne: "nodeID \<noteq> []" using assms(2) by (auto simp: handleNodePatch_def)
  note h = assms(2) [unfolded handleNodePatch_def option.case 1 2 3 4 prod.case Let_def]
  have r: "r1 = None" "r2 = None" "r3 = None" using h ne by (auto split: option.splits)
  note h' = h [unfolded r option.case if_not_P [OF ne]]
  obtain row tags where row: "find (\<lambda>n. noNodeID n = nodeID) (pnNodes d4) = Some row" "r4"
    and t: "tagsForNode (noNodeID row) d4 = (Some tags, d')" and v: "v = (scanNode E d' now row)\<lparr>nwTags := tags\<rparr>"
    using patch_answer [OF h'] by blast
  have id: "noNodeID row = nodeID" "row \<in> set (pnNodes d4)" using find_Some_in [OF row(1)] by auto
  obtain ok5 where s5: "nodeStatement d4 = (ok5, d')" "ok5" and tags: "tags = tags_of d' (noNodeID row)"
    using t by (auto simp: tagsForNode_def split: prod.splits if_splits)
  have sync: "syncNodeTags nodeID names d2 = (None, d3)"
    using 3 unfolding assms(3) r patch_tags_def option.case by (auto split: prod.splits option.splits tag_error.splits)
  obtain pk w where k: "node_key nodeID d2 = (Inr pk, w)" and rep: "replace_tags pk names w = (None, d3)"
    using sync by (auto simp: syncNodeTags_def split: prod.splits sum.splits)
  note kc = node_key_cases [OF k]
  have sw: "same_panel d2 w" using kc by blast
  have t1: "node_tables_ok d1" using patch_column_tables [OF assms(1) 1] by simp
  have t2: "node_tables_ok d2" using patch_column_tables [OF t1 2] by simp
  have tw: "node_tables_ok w" using t2 tables_same [OF sw] by simp
  have pk: "(pk, nodeID) \<in> set (node_ids d2)" using kc by (force simp: node_ids_def)
  have pkw: "pk \<in> noID ` set (pnNodes w)" using pk same_panel_fields [OF sw] by (force simp: node_ids_def)
  note names = replace_tags_effect [OF tables_tag_tables [OF tw] rep, THEN conjunct1, rule_format]
  note t3 = replace_tags_tables [OF tw pkw rep]
  note s4 = nodeStatement_same [OF 4] and s5' = nodeStatement_same [OF s5(1)]
  have t5: "node_tables_ok d'" using t3 tables_same [OF s4] tables_same [OF s5'] by simp
  have f1: "node_ids d1 = node_ids d" "pnTags d1 = pnTags d" "pnLinks d1 = pnLinks d" using patch_column_frame [OF 1] by auto
  have f2: "node_ids d2 = node_ids d1" "pnTags d2 = pnTags d1" "pnLinks d2 = pnLinks d1" using patch_column_frame [OF 2] by auto
  have ids: "node_ids d' = node_ids d"
    using f1 f2 t3 same_panel_fields [OF sw] same_panel_fields [OF s4] same_panel_fields [OF s5'] by (simp add: node_ids_def)
  have l5: "linked_names d' x = (if x = pk then tag_names names else linked_names d x)" for x
  proof -
    have "linked_names w x = linked_names d x" using linked_same [OF sw, of x] f1 f2 by (simp add: linked_names_def)
    then show ?thesis using names [of x] linked_same [OF s4, of x] linked_same [OF s5', of x] by simp
  qed
  have "(pk, nodeID) \<in> set (node_ids d')" using pk f1 f2 ids by simp
  then have a: "tags_of d' nodeID = sorted_list_of_set (tag_names names)" using tags_of_id [OF t5] l5 [of pk] by simp
  have b: "tags_of d' other = tags_of d other" if "other \<noteq> nodeID" for other
  proof (cases "other \<in> snd ` set (node_ids d)")
    case True
    then obtain k where k: "(k, other) \<in> set (node_ids d)" by force
    have "k \<noteq> pk"
    proof
      assume "k = pk"
      moreover have "(pk, nodeID) \<in> set (node_ids d)" using pk f1 f2 by simp
      ultimately have "other = nodeID" using k assms(1) by (auto simp: node_ids_def node_tables_ok_def distinct_map inj_on_def)
      then show False using that by simp
    qed
    then show ?thesis using tags_of_id [OF t5, of k other] tags_of_id [OF assms(1) k] k ids l5 [of k] by simp
  next
    case False
    then show ?thesis using tags_of_missing ids by metis
  qed
  show ?thesis using a b v tags id by simp
qed

subsection \<open>A deletion between the statements of a patch\<close>

lemma handleNodeDelete_nodes:
  assumes "handleNodeDelete nodeID d = (Success n (), d')"
  shows "pnNodes d' = filter (\<lambda>x. noNodeID x \<noteq> nodeID) (pnNodes d)"
proof -
  obtain k1 d1 where 1: "nodeStatement d = (k1, d1)" by (metis surj_pair)
  define e1 where "e1 = d1\<lparr>pnLinks := filter (\<lambda>(n, t). n \<notin> noID ` {n \<in> set (pnNodes d1). noNodeID n = nodeID}) (pnLinks d1)\<rparr>"
  obtain k2 d2 where 2: "nodeStatement e1 = (k2, d2)" by (metis surj_pair)
  define e2 where "e2 = d2\<lparr>pnMetrics := filter (\<lambda>m. mtNodeID m \<noteq> nodeID) (pnMetrics d2)\<rparr>"
  obtain k3 d3 where 3: "nodeStatement e2 = (k3, d3)" by (metis surj_pair)
  define e3 where "e3 = d3\<lparr>pnAlerts := filter (\<lambda>a. arNodeID a \<noteq> nodeID) (pnAlerts d3)\<rparr>"
  obtain k4 d4 where 4: "nodeStatement e3 = (k4, d4)" by (metis surj_pair)
  have "pnNodes d4 = pnNodes d"
    using same_panel_fields [OF nodeStatement_same [OF 1]] same_panel_fields [OF nodeStatement_same [OF 2]]
      same_panel_fields [OF nodeStatement_same [OF 3]] same_panel_fields [OF nodeStatement_same [OF 4]] by (simp add: e1_def e2_def e3_def)
  moreover have "d' = d4\<lparr>pnNodes := filter (\<lambda>x. noNodeID x \<noteq> nodeID) (pnNodes d4)\<rparr>"
    using assms unfolding handleNodeDelete_def 1 Let_def prod.case e1_def [symmetric] 2 e2_def [symmetric] 3 e3_def [symmetric] 4
    by (auto split: if_splits)
  ultimately show ?thesis by simp
qed

text \<open>A patch of tags reads the key of its node first and uses it in the statements that follow, without a transaction. When the node is deleted in
  between, the patch still answers success and its links stay without a node. Keys are reused: the next new node, whatever its name, gets
  the key of the deleted one if that was the newest, and with it the tags that were meant for the deleted node.\<close>

theorem deleted_node_leaves_tags:
  assumes "node_tables_ok d" and "node_key nodeID d = (Inr pk, d1)" and "handleNodeDelete nodeID d1 = (Success n (), d2)"
    and "replace_tags pk names d2 = (None, d3)" and "handleReport E (JsonDoc rep) i now d3 = (Success n' (), d4)"
    and "rpNodeID rep \<notin> noNodeID ` set (pnNodes d)" and "pk = next_key (map noID (filter (\<lambda>x. noNodeID x \<noteq> nodeID) (pnNodes d)))"
    and "tag_names names \<noteq> {}"
  shows "\<not> node_tables_ok d3 \<and> tags_of d4 (rpNodeID rep) = sorted_list_of_set (tag_names names)"
proof -
  have d1: "same_panel d d1" using node_key_cases [OF assms(2)] by blast
  then have t1: "node_tables_ok d1" "pnNodes d1 = pnNodes d" using tables_same assms(1) same_panel_fields [OF d1] by simp_all
  have t2: "node_tables_ok d2" using handleNodeDelete_tables [OF t1(1) assms(3)] .
  have n2: "pnNodes d2 = filter (\<lambda>x. noNodeID x \<noteq> nodeID) (pnNodes d)" using handleNodeDelete_nodes [OF assms(3)] t1(2) by simp
  note r = replace_tags_effect [OF tables_tag_tables [OF t2] assms(4)]
  have pk: "pk = next_key (map noID (pnNodes d3))" using assms(7) r n2 by simp
  have l3: "linked_names d3 pk = tag_names names" using r by simp
  obtain name t where link: "(pk, t) \<in> set (pnLinks d3)" using l3 assms(8) by (auto simp: linked_names_def)
  have "pk \<notin> noID ` set (pnNodes d3)" using next_key_fresh [of "map noID (pnNodes d3)"] pk by simp
  then have bad: "\<not> node_tables_ok d3" using link by (auto simp: node_tables_ok_def)
  obtain u ms cols where u: "same_panel d3 u"
    and d4: "d4 = u\<lparr>pnNodes := upsert_node E rep (now div second) (pnNodes d3), pnMetrics := ms, pnIdentities := cols\<rparr>"
    using handleReport_cases [OF assms(5)] by auto
  have new: "rpNodeID rep \<notin> noNodeID ` set (pnNodes d3)" using assms(6) r n2 by auto
  then obtain row where row: "pnNodes d4 = pnNodes d3 @ [row]" "noID row = pk" "noNodeID row = rpNodeID rep"
    unfolding d4 pk by (simp add: upsert_node_def)
  have f: "pnTags d4 = pnTags d3" "pnLinks d4 = pnLinks d3" using same_panel_fields [OF u] by (simp_all add: d4)
  have "y \<in> noID ` set (pnNodes d4)" if "(y, t) \<in> set (pnLinks d4)" for y t
    using that r t2 row f by (auto simp: node_tables_ok_def)
  moreover have "distinct (map noID (pnNodes d4))" "distinct (map noNodeID (pnNodes d4))"
    using t2 r row new \<open>pk \<notin> noID ` set (pnNodes d3)\<close> by (auto simp: node_tables_ok_def)
  ultimately have ok: "node_tables_ok d4" using r f unfolding node_tables_ok_def tag_tables_def by auto
  have "(pk, rpNodeID rep) \<in> set (node_ids d4)" using row by (simp add: node_ids_def)
  then have "tags_of d4 (rpNodeID rep) = sorted_list_of_set (linked_names d4 pk)" by (rule tags_of_id [OF ok])
  moreover have "linked_names d4 pk = linked_names d3 pk" using f by (simp add: linked_names_def)
  ultimately show ?thesis using bad l3 by simp
qed

lemma tags_of_iff:
  assumes ok: "node_tables_ok d" and n: "n \<in> set (pnNodes d)" and tag: "(i, name) \<in> set (pnTags d)"
  shows "name \<in> set (tags_of d (noNodeID n)) \<longleftrightarrow> (noID n, i) \<in> set (pnLinks d)"
proof -
  have "inj_on snd (set (pnTags d))" using ok by (simp add: node_tables_ok_def distinct_map)
  then have "(j, name) \<in> set (pnTags d) \<Longrightarrow> j = i" for j using tag inj_onD [of snd "set (pnTags d)" "(j, name)" "(i, name)"] by simp
  then have "(\<exists>j. (j, name) \<in> set (pnTags d) \<and> (noID n, j) \<in> set (pnLinks d)) \<longleftrightarrow> (noID n, i) \<in> set (pnLinks d)"
    using tag by metis
  then show ?thesis using tags_of_node [OF ok n] by (simp add: linked_names_def)
qed

lemma links_counted:
  assumes ok: "node_tables_ok d" and tag: "(i, name) \<in> set (pnTags d)"
  shows "length (filter (\<lambda>(n, t). t = i) (pnLinks d)) = length (filter (\<lambda>n. name \<in> set (tags_of d (noNodeID n))) (pnNodes d))"
proof -
  let ?N = "{n \<in> set (pnNodes d). name \<in> set (tags_of d (noNodeID n))}"
  have N: "?N = {n \<in> set (pnNodes d). (noID n, i) \<in> set (pnLinks d)}" using tags_of_iff [OF ok _ tag] by auto
  have dist: "distinct (pnNodes d)" "inj_on noID (set (pnNodes d))" "distinct (pnLinks d)" using ok by (auto simp: node_tables_ok_def distinct_map)
  have inj: "inj_on (\<lambda>n. (noID n, i)) ?N" using dist(2) by (auto simp: inj_on_def)
  have "set (filter (\<lambda>(n, t). t = i) (pnLinks d)) = (\<lambda>n. (noID n, i)) ` ?N"
    unfolding N using ok by (force simp: node_tables_ok_def)
  then have "card (set (filter (\<lambda>(n, t). t = i) (pnLinks d))) = card ?N" using card_image [OF inj] by simp
  then show ?thesis using dist(1,3) distinct_card [of "filter (\<lambda>(n, t). t = i) (pnLinks d)"]
      distinct_card [of "filter (\<lambda>n. name \<in> set (tags_of d (noNodeID n))) (pnNodes d)"] by simp
qed

text \<open>C37. The tables stay consistent. However reports, patches, deletions of nodes and tags and new tags follow each other, and wherever a statement
  fails in one of them although none of these runs in a transaction, names and keys stay unique and every link joins a node and a tag that
  exist. In every such state the list of tags is right: it has each tag that some node shows, counted once per node that shows it.\<close>

theorem panel_links_stay_valid:
  assumes "node_tables_ok d" and "handleTags (node_run E ops d) = (Success n tags, d')"
  shows "node_tables_ok (node_run E ops d) \<and>
    (\<forall>(i, name, count)\<in>set tags. 0 < count \<and> count = length (filter (\<lambda>x. name \<in> set (tags_of d' (noNodeID x))) (pnNodes d'))) \<and>
    (\<forall>x\<in>set (pnNodes d'). \<forall>name\<in>set (tags_of d' (noNodeID x)). \<exists>i count. (i, name, count) \<in> set tags)"
proof -
  let ?d = "node_run E ops d"
  have ok: "node_tables_ok ?d" using node_run_tables [OF assms(1)] .
  obtain k u where st: "nodeStatement ?d = (k, u)" by (metis surj_pair)
  have u: "u = d'" and tags: "tags = filter (\<lambda>(i, name, n). 0 < n)
      (map (\<lambda>(i, name). (i, name, length (filter (\<lambda>(n, t). t = i) (pnLinks u)))) (sort_key snd (pnTags u)))"
    using assms(2) by (auto simp: handleTags_def st split: if_splits)
  have ok': "node_tables_ok d'" using ok tables_same [OF nodeStatement_same [OF st]] u by simp
  have mem: "(i, name, c) \<in> set tags \<longleftrightarrow> (i, name) \<in> set (pnTags d') \<and> c = length (filter (\<lambda>(n, t). t = i) (pnLinks d')) \<and> 0 < c" for i name c
    unfolding tags u by auto
  have a: "0 < c \<and> c = length (filter (\<lambda>x. name \<in> set (tags_of d' (noNodeID x))) (pnNodes d'))" if "(i, name, c) \<in> set tags" for i name c
    using that links_counted [OF ok', of i name] unfolding mem by metis
  have b: "\<exists>i c. (i, name, c) \<in> set tags" if x: "x \<in> set (pnNodes d')" and name: "name \<in> set (tags_of d' (noNodeID x))" for x name
  proof -
    obtain i where i: "(i, name) \<in> set (pnTags d')" "(noID x, i) \<in> set (pnLinks d')"
      using tags_of_node [OF ok' x] name by (auto simp: linked_names_def)
    then have "filter (\<lambda>(n, t). t = i) (pnLinks d') \<noteq> []" by (auto simp: filter_empty_conv)
    then show ?thesis using i(1) mem by blast
  qed
  show ?thesis using ok a b by blast
qed

lemma find_append_option: "find P (xs @ ys) = (case find P xs of None \<Rightarrow> find P ys | Some x \<Rightarrow> Some x)"
  by (induction xs) auto

lemma handleReport_stores:
  assumes "handleReport E body i now d = (reply, d')"
  shows "case reply of
      Failure status code \<Rightarrow> same_panel d d'
    | Success n a \<Rightarrow> \<exists>rep. body = JsonDoc rep \<and> rpNodeID rep = idNodeID i \<and> (idAgentID i \<noteq> [] \<longrightarrow> (\<exists>r\<in>set (pnIdentities d). reporting i r)) \<and>
        pnMetrics d' = pnMetrics d @ [raw_metric E rep (now div second)] \<and>
        (\<forall>k. k \<noteq> idNodeID i \<longrightarrow> find (\<lambda>x. noNodeID x = k) (pnNodes d') = find (\<lambda>x. noNodeID x = k) (pnNodes d)) \<and>
        (\<exists>x. find (\<lambda>x. noNodeID x = idNodeID i) (pnNodes d') = Some x \<and> noLastReportAt x = now div second \<and>
           noHost x = nvMarshalHost E (rpHost rep) \<and> noServices x = nvMarshalServices E (rpServices rep) \<and>
           (case find (\<lambda>x. noNodeID x = idNodeID i) (pnNodes d) of
              None \<Rightarrow> noAlias x = [] \<and> noMutedUntil x = 0
            | Some before \<Rightarrow> x = before\<lparr>noLastReportAt := noLastReportAt x, noHost := noHost x, noServices := noServices x, noUpdatedAt := noUpdatedAt x\<rparr>)) \<and>
        filter (\<lambda>r. \<not> reporting i r) (pnIdentities d') = filter (\<lambda>r. \<not> reporting i r) (pnIdentities d) \<and>
        pnTags d' = pnTags d \<and> pnLinks d' = pnLinks d \<and> pnAlerts d' = pnAlerts d \<and> pnVersions d' = pnVersions d"
proof (cases reply)
  case (Failure status code)
  then show ?thesis using handleReport_cases [OF assms] by auto
next
  case (Success n a)
  then obtain rep u where rep: "body = JsonDoc rep" "rpNodeID rep = idNodeID i" and u: "same_panel d u"
    and id: "idAgentID i = [] \<or> length (filter (reporting i) (pnIdentities d)) = 1"
    and d': "d' = u\<lparr>pnNodes := upsert_node E rep (now div second) (pnNodes d), pnMetrics := pnMetrics d @ [raw_metric E rep (now div second)],
             pnIdentities := map (\<lambda>r. if idAgentID i \<noteq> [] \<and> reporting i r
                then r\<lparr>icHeartbeatAt := now div second, icVersion := rpAgentVersion rep, icUpdatedAt := now div second\<rparr> else r) (pnIdentities d)\<rparr>"
    using handleReport_cases [OF assms] by auto
  define f where "f n = n\<lparr>noLastReportAt := now div second, noHost := nvMarshalHost E (rpHost rep), noServices := nvMarshalServices E (rpServices rep),
     noUpdatedAt := now div second\<rparr>" for n :: node_row
  define g where "g r = (if idAgentID i \<noteq> [] \<and> reporting i r
     then r\<lparr>icHeartbeatAt := now div second, icVersion := rpAgentVersion rep, icUpdatedAt := now div second\<rparr> else r)" for r
  have ff: "noNodeID (f x) = noNodeID x" for x by (simp add: f_def)
  have rg: "reporting i (g r) = reporting i r" for r by (simp add: g_def reporting_def)
  have idn: "filter (\<lambda>r. \<not> reporting i r) (map g rs) = filter (\<lambda>r. \<not> reporting i r) rs" for rs
    by (induction rs) (simp_all add: rg, simp add: g_def)
  have found: "find (\<lambda>x. noNodeID x = k) (map (\<lambda>x. if noNodeID x = idNodeID i then f x else x) rows) =
    map_option (\<lambda>x. if noNodeID x = idNodeID i then f x else x) (find (\<lambda>x. noNodeID x = k) rows)" for k rows
    by (induction rows) (simp_all add: ff)
  have other: "find (\<lambda>x. noNodeID x = k) (pnNodes d') = find (\<lambda>x. noNodeID x = k) (pnNodes d)" if "k \<noteq> idNodeID i" for k
  proof (cases "idNodeID i \<in> noNodeID ` set (pnNodes d)")
    case True
    then have "pnNodes d' = map (\<lambda>x. if noNodeID x = idNodeID i then f x else x) (pnNodes d)" by (simp add: d' upsert_node_def rep(2) f_def)
    moreover have "map_option (\<lambda>x. if noNodeID x = idNodeID i then f x else x) (find (\<lambda>x. noNodeID x = k) (pnNodes d)) = find (\<lambda>x. noNodeID x = k) (pnNodes d)"
      using that by (cases "find (\<lambda>x. noNodeID x = k) (pnNodes d)") (auto dest: find_Some_in)
    ultimately show ?thesis using found by simp
  next
    case False
    then show ?thesis using that by (auto simp: d' upsert_node_def rep(2) find_append_option split: option.splits)
  qed
  have own: "\<exists>x. find (\<lambda>x. noNodeID x = idNodeID i) (pnNodes d') = Some x \<and> noLastReportAt x = now div second \<and>
           noHost x = nvMarshalHost E (rpHost rep) \<and> noServices x = nvMarshalServices E (rpServices rep) \<and>
           (case find (\<lambda>x. noNodeID x = idNodeID i) (pnNodes d) of
              None \<Rightarrow> noAlias x = [] \<and> noMutedUntil x = 0
            | Some before \<Rightarrow> x = before\<lparr>noLastReportAt := noLastReportAt x, noHost := noHost x, noServices := noServices x, noUpdatedAt := noUpdatedAt x\<rparr>)"
  proof (cases "find (\<lambda>x. noNodeID x = idNodeID i) (pnNodes d)")
    case None
    then have "idNodeID i \<notin> noNodeID ` set (pnNodes d)" by (auto simp: find_None_iff)
    then show ?thesis using None by (simp add: d' upsert_node_def rep(2) find_append_option)
  next
    case (Some before)
    then have b: "noNodeID before = idNodeID i" "idNodeID i \<in> noNodeID ` set (pnNodes d)" using find_Some_in [OF Some] by force+
    then have "pnNodes d' = map (\<lambda>x. if noNodeID x = idNodeID i then f x else x) (pnNodes d)" by (simp add: d' upsert_node_def rep(2) f_def)
    then have "find (\<lambda>x. noNodeID x = idNodeID i) (pnNodes d') = Some (f before)" using found Some b by simp
    then show ?thesis using Some by (simp add: f_def)
  qed
  have agent: "idAgentID i \<noteq> [] \<longrightarrow> (\<exists>r\<in>set (pnIdentities d). reporting i r)"
    using id by (metis One_nat_def filter_False list.size(3) nat.distinct(1))
  have rest: "pnTags d' = pnTags d" "pnLinks d' = pnLinks d" "pnAlerts d' = pnAlerts d" "pnVersions d' = pnVersions d" "pnMetrics d' = pnMetrics d @ [raw_metric E rep (now div second)]"
    "filter (\<lambda>r. \<not> reporting i r) (pnIdentities d') = filter (\<lambda>r. \<not> reporting i r) (pnIdentities d)"
    using same_panel_fields [OF u] idn [unfolded g_def] by (simp_all add: d')
  have "\<exists>rep. body = JsonDoc rep \<and> rpNodeID rep = idNodeID i \<and> (idAgentID i \<noteq> [] \<longrightarrow> (\<exists>r\<in>set (pnIdentities d). reporting i r)) \<and>
        pnMetrics d' = pnMetrics d @ [raw_metric E rep (now div second)] \<and>
        (\<forall>k. k \<noteq> idNodeID i \<longrightarrow> find (\<lambda>x. noNodeID x = k) (pnNodes d') = find (\<lambda>x. noNodeID x = k) (pnNodes d)) \<and>
        (\<exists>x. find (\<lambda>x. noNodeID x = idNodeID i) (pnNodes d') = Some x \<and> noLastReportAt x = now div second \<and>
           noHost x = nvMarshalHost E (rpHost rep) \<and> noServices x = nvMarshalServices E (rpServices rep) \<and>
           (case find (\<lambda>x. noNodeID x = idNodeID i) (pnNodes d) of
              None \<Rightarrow> noAlias x = [] \<and> noMutedUntil x = 0
            | Some before \<Rightarrow> x = before\<lparr>noLastReportAt := noLastReportAt x, noHost := noHost x, noServices := noServices x, noUpdatedAt := noUpdatedAt x\<rparr>)) \<and>
        filter (\<lambda>r. \<not> reporting i r) (pnIdentities d') = filter (\<lambda>r. \<not> reporting i r) (pnIdentities d) \<and>
        pnTags d' = pnTags d \<and> pnLinks d' = pnLinks d \<and> pnAlerts d' = pnAlerts d \<and> pnVersions d' = pnVersions d"
    by (intro exI [of _ rep] conjI allI impI rep agent rest other own)
  with Success show ?thesis by (simp only: api_reply.case)
qed


subsection \<open>Concrete instances\<close>

definition sample_node_env :: node_env where
  "sample_node_env =
     \<lparr>nvMarshalHost = rhHostname, nvMarshalServices = (\<lambda>_. ''[]''), nvHost = (\<lambda>_. None), nvServiceTypes = (\<lambda>_. []), nvCapabilities = (\<lambda>_. []),
      nvAddress = \<lparr>atParse = (\<lambda>_. None), atString = (\<lambda>_. [])\<rparr>, nvDuration = (\<lambda>_. None), nvLowerGo = to_lower, nvLowerSQL = to_lower,
      nvLike = (=), nvNodeOrder = (\<lambda>xs. xs), nvMetricOrder = (\<lambda>xs. xs), nvAlertOrder = (\<lambda>xs. xs)\<rparr>"

definition sample_node :: node_row where
  "sample_node = \<lparr>noID = 1, noNodeID = ''n1'', noAlias = ''A'', noMutedUntil = 0, noLastReportAt = 5, noHost = ''h'', noServices = ''[]'', noLocation = [],
     noCountry = [], noRegion = [], noCity = [], noGeoUpdatedAt = 0, noCreatedAt = 5, noUpdatedAt = 5\<rparr>"

definition sample_panel_db :: panel_db where
  "sample_panel_db = \<lparr>pnNodes = [sample_node], pnTags = [(1, ''z'')], pnLinks = [(1, 1)], pnMetrics = [], pnAlerts = [], pnVersions = [],
     pnIdentities = [\<lparr>icAgentID = ''a2'', icNodeID = ''n2'', icSerial = 7, icRevokedAt = 0, icHeartbeatAt = 0, icVersion = [], icOS = [], icArch = [],
        icExpiresAt = 900, icCapabilities = ''[]'', icUpdatedAt = 0\<rparr>], pnFaults = []\<rparr>"

lemma sample_panel_ok: "node_tables_ok sample_panel_db"
  by (simp add: node_tables_ok_def sample_panel_db_def sample_node_def)

definition sample_patch :: node_patch where
  "sample_patch = \<lparr>npAlias = None, npTags = Some [''y'', '' x'', ''y'', '' ''], npMutedUntil = None\<rparr>"

definition sample_host :: report_host where
  "sample_host = \<lparr>rhHostname = ''h2'', rhOS = [], rhOSVersion = [], rhKernel = [], rhArch = [], rhIPv4 = [], rhIPv6 = [], rhEgressIPv4 = [],
     rhEgressIPv6 = [], rhUptimeSeconds = 0, rhLoad1 = 0, rhLoad5 = 0, rhLoad15 = 0, rhMemTotalBytes = 0, rhMemAvailableBytes = 0, rhMemUsedPct = 0,
     rhDiskTotalBytes = 0, rhDiskUsedBytes = 0, rhDiskTotalHuman = [], rhDiskUsedHuman = [], rhDiskUsedPct = 0, rhUpgradableCount = 0\<rparr>"

definition sample_second_report :: agent_report where
  "sample_second_report = \<lparr>rpSchemaVersion = ''1'', rpAgentVersion = ''1.0.0'', rpNodeID = ''n2'', rpCollectedAt = [], rpHost = sample_host, rpServices = []\<rparr>"

definition sample_second :: request_identity where
  "sample_second = \<lparr>idAgentID = ''a2'', idNodeID = ''n2'', idSerial = 7\<rparr>"

theorem panel_links_stay_valid_witness:
  "\<exists>d'. handleTags (node_run sample_node_env [(8 * second, NodePatch ''n1'' (Some sample_patch))] sample_panel_db) =
       (Success 200 [(3, ''x'', 1), (2, ''y'', 1)], d') \<and>
     length (filter (\<lambda>x. ''x'' \<in> set (tags_of d' (noNodeID x))) (pnNodes d')) = 1"
proof -
  let ?d = "node_run sample_node_env [(8 * second, NodePatch ''n1'' (Some sample_patch))] sample_panel_db"
  have "fst (handleTags ?d) = Success 200 [(3, ''x'', 1), (2, ''y'', 1)]" by code_simp
  then have h: "handleTags ?d = (Success 200 [(3, ''x'', 1), (2, ''y'', 1)], snd (handleTags ?d))" by (metis prod.collapse)
  from panel_links_stay_valid [OF sample_panel_ok h]
  have "1 = length (filter (\<lambda>x. ''x'' \<in> set (tags_of (snd (handleTags ?d)) (noNodeID x))) (pnNodes (snd (handleTags ?d))))"
    by simp
  with h show ?thesis by metis
qed

lemma sample_names: "sorted_list_of_set (tag_names [''y'', '' x'', ''y'', '' '']) = [''x'', ''y'']"
proof -
  have "tag_names [''y'', '' x'', ''y'', '' ''] = set [''x'', ''y'']" by code_simp
  then show ?thesis by (simp only: sorted_list_of_set_sort_remdups) code_simp
qed

lemma succeeded_cases: "succeeded r \<Longrightarrow> \<exists>n a. r = Success n a"
  by (cases r) auto

theorem patch_sets_tags_witness:
  "tags_of (snd (handleNodePatch sample_node_env ''n1'' (Some sample_patch) (8 * second) sample_panel_db)) ''n1'' = [''x'', ''y'']"
proof -
  have "succeeded (fst (handleNodePatch sample_node_env ''n1'' (Some sample_patch) (8 * second) sample_panel_db))" by code_simp
  then obtain n v where h: "handleNodePatch sample_node_env ''n1'' (Some sample_patch) (8 * second) sample_panel_db =
      (Success n v, snd (handleNodePatch sample_node_env ''n1'' (Some sample_patch) (8 * second) sample_panel_db))"
    using succeeded_cases by (metis prod.collapse)
  have p: "npTags sample_patch = Some [''y'', '' x'', ''y'', '' '']" by (simp add: sample_patch_def)
  from patch_sets_tags [OF sample_panel_ok h p] show ?thesis unfolding sample_names by blast
qed


theorem deleted_node_leaves_tags_witness:
  "\<exists>d3 d4. replace_tags 1 [''y'', '' x'', ''y'', '' ''] (snd (handleNodeDelete ''n1'' (snd (node_key ''n1'' sample_panel_db)))) = (None, d3) \<and>
     \<not> node_tables_ok d3 \<and> handleReport sample_node_env (JsonDoc sample_second_report) sample_second (9 * second) d3 = (Success 200 (), d4) \<and>
     tags_of d4 ''n2'' = [''x'', ''y'']"
proof -
  let ?d1 = "snd (node_key ''n1'' sample_panel_db)"
  let ?d2 = "snd (handleNodeDelete ''n1'' ?d1)"
  let ?d3 = "snd (replace_tags 1 [''y'', '' x'', ''y'', '' ''] ?d2)"
  let ?r = "handleReport sample_node_env (JsonDoc sample_second_report) sample_second (9 * second) ?d3"
  have "fst (node_key ''n1'' sample_panel_db) = Inr 1" by code_simp
  then have 1: "node_key ''n1'' sample_panel_db = (Inr 1, ?d1)" by (metis prod.collapse)
  have "fst (handleNodeDelete ''n1'' ?d1) = Success 200 ()" by code_simp
  then have 2: "handleNodeDelete ''n1'' ?d1 = (Success 200 (), ?d2)" by (metis prod.collapse)
  have "fst (replace_tags 1 [''y'', '' x'', ''y'', '' ''] ?d2) = None" by code_simp
  then have 3: "replace_tags 1 [''y'', '' x'', ''y'', '' ''] ?d2 = (None, ?d3)" by (metis prod.collapse)
  have "fst ?r = Success 200 ()" by code_simp
  then have 4: "?r = (Success 200 (), snd ?r)" by (metis prod.collapse)
  have 5: "rpNodeID sample_second_report \<notin> noNodeID ` set (pnNodes sample_panel_db)" by code_simp
  have 6: "1 = next_key (map noID (filter (\<lambda>x. noNodeID x \<noteq> ''n1'') (pnNodes sample_panel_db)))" by code_simp
  have 7: "tag_names [''y'', '' x'', ''y'', '' ''] \<noteq> {}" by code_simp
  have n: "rpNodeID sample_second_report = ''n2''" by (simp add: sample_second_report_def)
  from deleted_node_leaves_tags [OF sample_panel_ok 1 2 3 4 5 6 7] show ?thesis unfolding sample_names n using 3 4 by blast
qed

end
