(* ===== verification/PanelSettings.thy ===== *)
theory PanelSettings
  imports PanelNodes Hub
begin

text \<open>
  The configuration of the Panel and what it drives: \<open>internal/panel/config/config.go\<close>, the settings of \<open>internal/panel/api/admin.go\<close>, the
  aggregation of old measurements of \<open>internal/panel/retention/retention.go\<close>, the versions of \<open>internal/panel/version/version.go\<close> and the
  start of \<open>cmd/net-probe-panel/main.go\<close>. TOML, URLs, durations, calendar arithmetic and the HTTP client are parameters, and a finite
  \<open>REAL\<close> column is the real number it denotes.
\<close>

subsection \<open>Configuration\<close>

record panel_config =
  cfgListenAddr :: bytes
  cfgDataDir :: bytes
  cfgPublicURL :: bytes
  cfgMaxConnections :: int
  cfgSendQueue :: int
  cfgMessageRate :: int
  cfgAgentToken :: bytes
  cfgAdminUser :: bytes
  cfgNodeTimeout :: bytes
  cfgRawDays :: int
  cfgHourlyDays :: int
  cfgDailyDays :: int
  cfgCertExpiryDays :: int
  cfgDiskUsagePct :: int
  cfgMemUsagePct :: int
  cfgTelegramToken :: bytes
  cfgTelegramChatID :: bytes
  cfgWebhookURL :: bytes
  cfgGeoProvider :: bytes
  cfgGeoURL :: bytes
  cfgGeoTimeout :: bytes
  cfgGeoTokenEnv :: bytes
  cfgGeoRefreshInterval :: bytes

definition DefaultConfig :: panel_config where
  "DefaultConfig =
     \<lparr>cfgListenAddr = '':8443'', cfgDataDir = ''/var/lib/net-probe-panel'', cfgPublicURL = [], cfgMaxConnections = 1000, cfgSendQueue = 32,
      cfgMessageRate = 120, cfgAgentToken = [], cfgAdminUser = ''admin'', cfgNodeTimeout = ''3m'', cfgRawDays = 7, cfgHourlyDays = 30,
      cfgDailyDays = 365, cfgCertExpiryDays = 7, cfgDiskUsagePct = 85, cfgMemUsagePct = 90, cfgTelegramToken = [], cfgTelegramChatID = [],
      cfgWebhookURL = [], cfgGeoProvider = ''ipwhois'', cfgGeoURL = ''https://ipwho.is/{ip}?lang=zh-CN'', cfgGeoTimeout = ''4s'',
      cfgGeoTokenEnv = [], cfgGeoRefreshInterval = ''12h''\<rparr>"

text \<open>What \<open>url.Parse\<close> gives, with the results of \<open>Hostname\<close> and \<open>Port\<close>.\<close>

record config_url =
  cuScheme :: bytes
  cuHost :: bytes
  cuHostname :: bytes
  cuPort :: bytes
  cuHasUser :: bool
  cuPath :: bytes
  cuRawQuery :: bytes
  cuFragment :: bytes

record config_env =
  ceDecode :: "bytes \<Rightarrow> panel_config \<Rightarrow> panel_config option"
  ceEncode :: "panel_config \<Rightarrow> bytes"
  ceURL :: "bytes \<Rightarrow> config_url option"
  ceDuration :: "bytes \<Rightarrow> duration option"

definition LoadConfig :: "config_env \<Rightarrow> bytes option \<Rightarrow> panel_config option" where
  "LoadConfig E file_text = (case file_text of None \<Rightarrow> None | Some b \<Rightarrow> ceDecode E b DefaultConfig)"

definition panelLocalHost :: "bytes \<Rightarrow> bool" where
  "panelLocalHost hostname \<longleftrightarrow> to_lower hostname \<in> {''localhost'', ''127.0.0.1'', ''::1''}"

definition positiveDuration :: "config_env \<Rightarrow> bytes \<Rightarrow> bool" where
  "positiveDuration E v = (case ceDuration E v of None \<Rightarrow> False | Some t \<Rightarrow> 0 < t)"

definition validatePublicURL :: "config_env \<Rightarrow> bytes \<Rightarrow> bool" where
  "validatePublicURL E raw =
     (case ceURL E raw of
        None \<Rightarrow> False
      | Some u \<Rightarrow>
          if to_lower (cuScheme u) \<noteq> ''https'' \<or> cuHost u = [] \<or> cuHostname u = [] \<or> cuHasUser u then False
          else if cuPath u \<noteq> [] \<and> cuPath u \<noteq> ''/'' \<or> cuRawQuery u \<noteq> [] \<or> cuFragment u \<noteq> [] then False
          else if cuPort u \<noteq> [] then (case atoi (cuPort u) of (n, None) \<Rightarrow> \<not> (n < 1 \<or> 65535 < n) | (n, Some e) \<Rightarrow> False)
          else True)"

definition ValidateConfig :: "config_env \<Rightarrow> panel_config \<Rightarrow> bool" where
  "ValidateConfig E c =
     (if \<not> validatePublicURL E (cfgPublicURL c) then False
      else if cfgMaxConnections c < 1 \<or> 1000 < cfgMaxConnections c then False
      else if cfgSendQueue c < 1 \<or> 32 < cfgSendQueue c then False
      else if cfgMessageRate c < 1 \<or> 120 < cfgMessageRate c then False
      else if cfgGeoProvider c \<noteq> ''ipwhois'' then False
      else if length (split_sub ''{ip}'' (cfgGeoURL c)) \<noteq> 2 then False
      else (case ceURL E (cfgGeoURL c) of
        None \<Rightarrow> False
      | Some u \<Rightarrow>
          if cuScheme u = [] \<or> cuHostname u = [] then False
          else if to_lower (cuScheme u) \<noteq> ''https'' \<and> \<not> (to_lower (cuScheme u) = ''http'' \<and> panelLocalHost (cuHostname u)) then False
          else positiveDuration E (cfgGeoTimeout c) \<and> positiveDuration E (cfgGeoRefreshInterval c)))"

subsection \<open>Settings\<close>

record settings_patch =
  spNodeTimeout :: "bytes option"
  spRetention :: "(int option \<times> int option \<times> int option) option"
  spAlert :: "(int option \<times> int option \<times> int option \<times> bytes option \<times> bytes option \<times> bytes option) option"

text \<open>The server's configuration and the file at \<open>ConfigPath\<close>. A fault hits the creation, which empties the file, the encoding, which leaves a
  part of the text, or the closing.\<close>

record settings_state =
  ssConfig :: panel_config
  ssFile :: bytes
  ssFaults :: "bool list"

record settings_view =
  svListenAddr :: bytes
  svDataDir :: bytes
  svNodeTimeout :: bytes
  svAdminUser :: bytes
  svRetention :: "int \<times> int \<times> int"
  svAlert :: "int \<times> int \<times> int \<times> bytes \<times> bytes \<times> bytes"

definition settingsMap :: "panel_config \<Rightarrow> settings_view" where
  "settingsMap c =
     \<lparr>svListenAddr = cfgListenAddr c, svDataDir = cfgDataDir c, svNodeTimeout = cfgNodeTimeout c, svAdminUser = cfgAdminUser c,
      svRetention = (cfgRawDays c, cfgHourlyDays c, cfgDailyDays c),
      svAlert = (cfgCertExpiryDays c, cfgDiskUsagePct c, cfgMemUsagePct c, cfgTelegramToken c, cfgTelegramChatID c, cfgWebhookURL c)\<rparr>"

definition handleSettings :: "settings_state \<Rightarrow> settings_view api_reply" where
  "handleSettings s = Success 200 (settingsMap (ssConfig s))"

definition or_keep :: "'a \<Rightarrow> 'a option \<Rightarrow> 'a" where
  "or_keep x v = (case v of None \<Rightarrow> x | Some y \<Rightarrow> y)"

definition patch_config :: "settings_patch \<Rightarrow> panel_config \<Rightarrow> panel_config" where
  "patch_config p c =
     (let c = c\<lparr>cfgNodeTimeout := or_keep (cfgNodeTimeout c) (spNodeTimeout p)\<rparr>;
          c = (case spRetention p of
                 None \<Rightarrow> c
               | Some (raw, hourly, daily) \<Rightarrow>
                   c\<lparr>cfgRawDays := or_keep (cfgRawDays c) raw, cfgHourlyDays := or_keep (cfgHourlyDays c) hourly, cfgDailyDays := or_keep (cfgDailyDays c) daily\<rparr>)
      in (case spAlert p of
            None \<Rightarrow> c
          | Some (cert, disk, mem, token, chat, url) \<Rightarrow>
              c\<lparr>cfgCertExpiryDays := or_keep (cfgCertExpiryDays c) cert, cfgDiskUsagePct := or_keep (cfgDiskUsagePct c) disk,
                cfgMemUsagePct := or_keep (cfgMemUsagePct c) mem, cfgTelegramToken := or_keep (cfgTelegramToken c) token,
                cfgTelegramChatID := or_keep (cfgTelegramChatID c) chat, cfgWebhookURL := or_keep (cfgWebhookURL c) url\<rparr>))"

definition settings_fault :: "settings_state \<Rightarrow> bool \<times> settings_state" where
  "settings_fault s = (case ssFaults s of [] \<Rightarrow> (True, s) | f # fs \<Rightarrow> (\<not> f, s\<lparr>ssFaults := fs\<rparr>))"

text \<open>\<open>part\<close> is what a failing encoder has written.\<close>

definition handleSettingsPatch ::
    "config_env \<Rightarrow> bytes \<Rightarrow> settings_patch option \<Rightarrow> bytes \<Rightarrow> settings_state \<Rightarrow> settings_view api_reply \<times> settings_state" where
  "handleSettingsPatch E path body part s =
     (case body of
        None \<Rightarrow> (badRequest, s)
      | Some p \<Rightarrow>
          if (case spNodeTimeout p of None \<Rightarrow> False | Some t \<Rightarrow> ceDuration E t = None) then (badRequest, s)
          else
            let s = s\<lparr>ssConfig := patch_config p (ssConfig s)\<rparr> in
            if path = [] then (Success 200 (settingsMap (ssConfig s)), s)
            else
              let (ok, s) = settings_fault s in
              if \<not> ok then (Failure 500 ''config_write_error'', s)
              else
                let s = s\<lparr>ssFile := []\<rparr>; (ok, s) = settings_fault s in
                if \<not> ok then (Failure 500 ''config_write_error'', s\<lparr>ssFile := part\<rparr>)
                else
                  let s = s\<lparr>ssFile := ceEncode E (ssConfig s)\<rparr>; (ok, s) = settings_fault s in
                  if \<not> ok then (Failure 500 ''config_write_error'', s) else (Success 200 (settingsMap (ssConfig s)), s))"

subsection \<open>Old measurements\<close>

text \<open>SQL divides integers towards zero.\<close>

definition bucket_start :: "int \<Rightarrow> int \<Rightarrow> int" where
  "bucket_start width ts = (if 0 \<le> ts then ts div width else - ((- ts) div width)) * width"

definition avg_of :: "(metric_row \<Rightarrow> real) \<Rightarrow> metric_row list \<Rightarrow> real" where
  "avg_of f rows = sum_list (map f rows) / real (length rows)"

definition metric_group :: "int \<Rightarrow> metric_row \<Rightarrow> bytes \<times> int" where
  "metric_group width m = (mtNodeID m, bucket_start width (mtTs m))"

definition aggregate_row :: "bytes \<Rightarrow> bytes \<times> int \<Rightarrow> metric_row list \<Rightarrow> metric_row" where
  "aggregate_row target key rows =
     \<lparr>mtNodeID = fst key, mtTs = snd key, mtGranularity = target, mtLoad1 = avg_of mtLoad1 rows, mtLoad5 = avg_of mtLoad5 rows,
      mtLoad15 = avg_of mtLoad15 rows, mtMemUsedPct = avg_of mtMemUsedPct rows, mtDiskUsedPct = avg_of mtDiskUsedPct rows, mtServices = []\<rparr>"

definition source_rows :: "bytes \<Rightarrow> int \<Rightarrow> metric_row list \<Rightarrow> metric_row list" where
  "source_rows source cutoff ms = filter (\<lambda>m. mtGranularity m = source \<and> mtTs m < cutoff) ms"

definition aggregates :: "bytes \<Rightarrow> bytes \<Rightarrow> int \<Rightarrow> int \<Rightarrow> metric_row list \<Rightarrow> metric_row list" where
  "aggregates target source cutoff width ms =
     (let rows = source_rows source cutoff ms in
      map (\<lambda>key. aggregate_row target key (filter (\<lambda>m. metric_group width m = key) rows)) (remdups (map (metric_group width) rows)))"

definition insertAggregate :: "bytes \<Rightarrow> int \<Rightarrow> int \<Rightarrow> panel_db \<Rightarrow> bool \<times> panel_db" where
  "insertAggregate target cutoff width d =
     (let source = (if target = ''daily'' then ''hourly'' else ''raw''); (ok, d) = nodeStatement d in
      (ok, if ok then d\<lparr>pnMetrics := pnMetrics d @ aggregates target source cutoff width (pnMetrics d)\<rparr> else d))"

definition delete_metrics :: "bytes \<Rightarrow> int \<Rightarrow> panel_db \<Rightarrow> bool \<times> panel_db" where
  "delete_metrics granularity cutoff d =
     (let (ok, d) = nodeStatement d in
      (ok, if ok then d\<lparr>pnMetrics := filter (\<lambda>m. \<not> (mtGranularity m = granularity \<and> mtTs m < cutoff)) (pnMetrics d)\<rparr> else d))"

text \<open>\<open>days_ago now n\<close> is \<open>now.AddDate(0, 0, -n).Unix()\<close>, in the local calendar.\<close>

definition Aggregate :: "(int \<Rightarrow> int \<Rightarrow> int) \<Rightarrow> int \<Rightarrow> int \<Rightarrow> int \<Rightarrow> int \<Rightarrow> panel_db \<Rightarrow> bool \<times> panel_db" where
  "Aggregate days_ago now rawDays hourlyDays dailyDays d =
     (let (ok, d) = insertAggregate ''hourly'' (days_ago now rawDays) 3600 d in
      if \<not> ok then (False, d)
      else let (ok, d) = delete_metrics ''raw'' (days_ago now rawDays) d in
      if \<not> ok then (False, d)
      else let (ok, d) = insertAggregate ''daily'' (days_ago now hourlyDays) 86400 d in
      if \<not> ok then (False, d)
      else let (ok, d) = delete_metrics ''hourly'' (days_ago now hourlyDays) d in
      if \<not> ok then (False, d)
      else delete_metrics ''daily'' (days_ago now dailyDays) d)"

subsection \<open>Versions\<close>

definition githubAPIBase :: bytes where "githubAPIBase = ''https://api.github.com''"

definition version_repos :: "(bytes \<times> bytes) list" where
  "version_repos = [(''hysteria2'', ''apernet/hysteria''), (''xray'', ''XTLS/Xray-core''), (''sing-box'', ''SagerNet/sing-box''), (''v2ray'', ''v2fly/v2ray-core'')]"

text \<open>\<open>http\<close> answers a URL with a status and the tag name of the decoded body.\<close>

definition FetchLatest :: "(bytes \<Rightarrow> (int \<times> bytes option) option) \<Rightarrow> bytes \<Rightarrow> bytes option" where
  "FetchLatest http serviceType =
     (case map_of version_repos serviceType of
        None \<Rightarrow> None
      | Some repo \<Rightarrow>
          (case http (githubAPIBase @ ''/repos/'' @ repo @ ''/releases/latest'') of
             None \<Rightarrow> None
           | Some (status, tag) \<Rightarrow>
               if status < 200 \<or> 300 \<le> status then None
               else (case tag of None \<Rightarrow> None | Some t \<Rightarrow> if t = [] then None else Some (trim_prefix (trim_prefix t ''app/'') ''v''))))"

definition refresh_version :: "(bytes \<Rightarrow> (int \<times> bytes option) option) \<Rightarrow> int \<Rightarrow> bytes \<Rightarrow> panel_db \<Rightarrow> panel_db" where
  "refresh_version http now serviceType d =
     (case FetchLatest http serviceType of
        None \<Rightarrow> d
      | Some latest \<Rightarrow>
          let (ok, d) = nodeStatement d in
          if \<not> ok then d
          else d\<lparr>pnVersions := upsert_version \<lparr>vrServiceType = serviceType, vrLatestVersion = latest, vrSource = ''github'', vrUpdatedAt = now div second\<rparr>
                 (pnVersions d)\<rparr>)"

definition refreshVersions :: "(bytes \<Rightarrow> (int \<times> bytes option) option) \<Rightarrow> int \<Rightarrow> panel_db \<Rightarrow> panel_db" where
  "refreshVersions http now d = fold (refresh_version http now) [''hysteria2'', ''xray'', ''sing-box'', ''v2ray''] d"

subsection \<open>Start\<close>

definition decodeReleasePublicKey :: "bytes \<Rightarrow> bytes" where
  "decodeReleasePublicKey h = (case hex_decode h of None \<Rightarrow> [] | Some k \<Rightarrow> k)"

definition geoRefreshInterval :: "config_env \<Rightarrow> panel_config \<Rightarrow> duration" where
  "geoRefreshInterval E c =
     (if cfgGeoRefreshInterval c = [] then 12 * hour
      else (case ceDuration E (cfgGeoRefreshInterval c) of None \<Rightarrow> 12 * hour | Some t \<Rightarrow> if 0 < t then t else 12 * hour))"

text \<open>The token, the timeout and the freshness of the geolocation; \<open>getenv\<close> gives the empty text for a variable that is not set.\<close>

definition newGeoRefresher :: "config_env \<Rightarrow> (bytes \<Rightarrow> bytes) \<Rightarrow> panel_config \<Rightarrow> (bytes \<times> duration \<times> duration) option" where
  "newGeoRefresher E getenv c =
     (let token = (if cfgGeoTokenEnv c = [] then [] else getenv (cfgGeoTokenEnv c)) in
      if cfgGeoTokenEnv c \<noteq> [] \<and> token = [] then None
      else (case (ceDuration E (cfgGeoTimeout c), ceDuration E (cfgGeoRefreshInterval c)) of
              (Some timeout, Some freshness) \<Rightarrow> Some (token, timeout, freshness)
            | _ \<Rightarrow> None))"

datatype panel_start = StartLoad | StartValidate | StartDatabase | StartGeo | StartUsers | StartPassword | StartAdmin | StartPKI | StartAgents | StartServe

text \<open>\<open>main\<close> up to the listener: the stage that ends it, or the configuration it runs with. \<open>db_ok\<close> is opening and migrating the database,
  \<open>pki\<close> is \<open>pki.Ensure\<close> with \<open>ConfigureAgentPKI\<close> on its manager and the release key.\<close>

definition startPanel ::
    "config_env \<Rightarrow> password_env \<Rightarrow> (bytes \<Rightarrow> bytes) \<Rightarrow> bytes \<Rightarrow> (bytes \<Rightarrow> bool) \<Rightarrow> (bytes \<Rightarrow> bytes \<Rightarrow> 'p option) \<Rightarrow> ('p \<Rightarrow> bytes option \<Rightarrow> bool) \<Rightarrow>
     bytes option \<Rightarrow> session_db \<Rightarrow> (panel_start + panel_config \<times> 'p) \<times> session_db" where
  "startPanel E P getenv releaseHex db_ok ensure configure file_text d =
     (case LoadConfig E file_text of
        None \<Rightarrow> (Inl StartLoad, d)
      | Some c \<Rightarrow>
          if \<not> ValidateConfig E c then (Inl StartValidate, d)
          else
            let c = (if cfgDataDir c = [] then c\<lparr>cfgDataDir := ''/var/lib/net-probe-panel''\<rparr> else c) in
            if \<not> db_ok (cfgDataDir c) then (Inl StartDatabase, d)
            else if newGeoRefresher E getenv c = None then (Inl StartGeo, d)
            else
              let (ok, d) = sessionStatement d in
              if \<not> ok then (Inl StartUsers, d)
              else
                let password = getenv ''NET_PROBE_PANEL_ADMIN_PASSWORD'';
                    (ready, d) =
                      (if sdUsers d \<noteq> [] then (None, d)
                       else if password = [] then (Some StartPassword, d)
                       else let (ok, d) = EnsureAdmin P (cfgAdminUser c) password d in (if ok then None else Some StartAdmin, d))
                in (case ready of
                      Some stage \<Rightarrow> (Inl stage, d)
                    | None \<Rightarrow>
                        (case ensure (cfgDataDir c) (cfgPublicURL c) of
                           None \<Rightarrow> (Inl StartPKI, d)
                         | Some manager \<Rightarrow>
                             if \<not> configure manager (StaticReleasePublicKey (decodeReleasePublicKey releaseHex)) then (Inl StartAgents, d)
                             else (Inr (c, manager), d))))"

subsection \<open>What an aggregation leaves\<close>

definition of_kind :: "bytes \<Rightarrow> metric_row list \<Rightarrow> metric_row list" where
  "of_kind g ms = filter (\<lambda>m. mtGranularity m = g) ms"

lemma of_kind_append [simp]: "of_kind g (xs @ ys) = of_kind g xs @ of_kind g ys"
  by (simp add: of_kind_def)

lemma of_kind_aggregates: "of_kind g (aggregates target source cutoff width ms) = (if g = target then aggregates target source cutoff width ms else [])"
  by (auto simp: of_kind_def aggregates_def aggregate_row_def Let_def filter_empty_conv filter_id_conv)

lemma of_kind_deleted: "of_kind g (filter (\<lambda>m. \<not> (mtGranularity m = k \<and> mtTs m < cutoff)) ms) =
    (if g = k then filter (\<lambda>m. cutoff \<le> mtTs m) (of_kind g ms) else of_kind g ms)"
  by (induction ms) (auto simp: of_kind_def)

lemma aggregates_of_kind: "aggregates target source cutoff width ms = aggregates target source cutoff width (of_kind source ms)"
proof -
  have "source_rows source cutoff ms = source_rows source cutoff (of_kind source ms)"
    by (simp add: source_rows_def of_kind_def)
  then show ?thesis by (simp add: aggregates_def)
qed

lemma kinds_differ [simp]: "''hourly'' \<noteq> ''raw''" "''daily'' \<noteq> ''raw''" "''daily'' \<noteq> ''hourly''"
  by simp_all

lemma statement_ok: "pnFaults d = [] \<Longrightarrow> nodeStatement d = (True, d)"
  by (simp add: nodeStatement_def)

lemma insertAggregate_ok:
  assumes "pnFaults d = []"
  shows "insertAggregate target cutoff width d =
    (True, d\<lparr>pnMetrics := pnMetrics d @ aggregates target (if target = ''daily'' then ''hourly'' else ''raw'') cutoff width (pnMetrics d)\<rparr>)"
  by (simp add: insertAggregate_def statement_ok [OF assms] Let_def)

lemma delete_metrics_ok:
  assumes "pnFaults d = []"
  shows "delete_metrics g cutoff d = (True, d\<lparr>pnMetrics := filter (\<lambda>m. \<not> (mtGranularity m = g \<and> mtTs m < cutoff)) (pnMetrics d)\<rparr>)"
  by (simp add: delete_metrics_def statement_ok [OF assms] Let_def)

text \<open>The rows of one aggregation: one per node and bucket that has an old row, with the means of exactly these rows.\<close>

lemma aggregates_sound:
  assumes "r \<in> set (aggregates target source cutoff width ms)"
  shows "\<exists>rows. rows = filter (\<lambda>m. mtGranularity m = source \<and> mtTs m < cutoff \<and> mtNodeID m = mtNodeID r \<and> bucket_start width (mtTs m) = mtTs r) ms \<and>
    rows \<noteq> [] \<and> mtGranularity r = target \<and> mtLoad1 r = avg_of mtLoad1 rows \<and> mtMemUsedPct r = avg_of mtMemUsedPct rows \<and>
    mtDiskUsedPct r = avg_of mtDiskUsedPct rows"
proof -
  let ?rows = "source_rows source cutoff ms"
  obtain key where key: "key \<in> metric_group width ` set ?rows" "r = aggregate_row target key (filter (\<lambda>m. metric_group width m = key) ?rows)"
    using assms by (auto simp: aggregates_def Let_def)
  have k: "key = (mtNodeID r, mtTs r)" using key(2) by (simp add: aggregate_row_def)
  have f: "filter (\<lambda>m. metric_group width m = key) ?rows =
    filter (\<lambda>m. mtGranularity m = source \<and> mtTs m < cutoff \<and> mtNodeID m = mtNodeID r \<and> bucket_start width (mtTs m) = mtTs r) ms"
    unfolding k source_rows_def metric_group_def filter_filter by (rule filter_cong) auto
  have "filter (\<lambda>m. metric_group width m = key) ?rows \<noteq> []" using key(1) by (auto simp: filter_empty_conv)
  moreover have "mtGranularity r = target \<and> mtLoad1 r = avg_of mtLoad1 rows \<and> mtMemUsedPct r = avg_of mtMemUsedPct rows \<and> mtDiskUsedPct r = avg_of mtDiskUsedPct rows"
    if "r = aggregate_row target key rows" for rows
    unfolding that by (simp add: aggregate_row_def)
  ultimately show ?thesis using key(2) unfolding f by blast
qed

lemma aggregates_complete:
  "set (map (\<lambda>r. (mtNodeID r, mtTs r)) (aggregates target source cutoff width ms)) = metric_group width ` set (source_rows source cutoff ms) \<and>
   distinct (map (\<lambda>r. (mtNodeID r, mtTs r)) (aggregates target source cutoff width ms))"
proof -
  have "map (\<lambda>r. (mtNodeID r, mtTs r)) (map (\<lambda>key. aggregate_row target key (F key)) keys) = keys" for keys F
    by (induction keys) (simp_all add: aggregate_row_def)
  then have "map (\<lambda>r. (mtNodeID r, mtTs r)) (aggregates target source cutoff width ms) = remdups (map (metric_group width) (source_rows source cutoff ms))"
    by (simp add: aggregates_def Let_def)
  then show ?thesis by simp
qed

lemma Aggregate_kinds:
  assumes "pnFaults d = []" and "Aggregate days_ago now rawDays hourlyDays dailyDays d = (ok, d')"
  defines "R \<equiv> days_ago now rawDays" and "H \<equiv> days_ago now hourlyDays" and "D \<equiv> days_ago now dailyDays"
  defines "raw \<equiv> of_kind ''raw'' (pnMetrics d)"
  defines "hourly \<equiv> of_kind ''hourly'' (pnMetrics d) @ aggregates ''hourly'' ''raw'' R 3600 raw"
  defines "daily \<equiv> of_kind ''daily'' (pnMetrics d) @ aggregates ''daily'' ''hourly'' H 86400 hourly"
  shows "ok" "of_kind ''raw'' (pnMetrics d') = filter (\<lambda>m. R \<le> mtTs m) raw"
    "of_kind ''hourly'' (pnMetrics d') = filter (\<lambda>m. H \<le> mtTs m) hourly" "of_kind ''daily'' (pnMetrics d') = filter (\<lambda>m. D \<le> mtTs m) daily"
proof -
  define m1 where "m1 = pnMetrics d @ aggregates ''hourly'' ''raw'' R 3600 (pnMetrics d)"
  define m2 where "m2 = filter (\<lambda>m. \<not> (mtGranularity m = ''raw'' \<and> mtTs m < R)) m1"
  define m3 where "m3 = m2 @ aggregates ''daily'' ''hourly'' H 86400 m2"
  define m4 where "m4 = filter (\<lambda>m. \<not> (mtGranularity m = ''hourly'' \<and> mtTs m < H)) m3"
  define m5 where "m5 = filter (\<lambda>m. \<not> (mtGranularity m = ''daily'' \<and> mtTs m < D)) m4"
  have run: "Aggregate days_ago now rawDays hourlyDays dailyDays d = (True, d\<lparr>pnMetrics := m5\<rparr>)"
    using assms(1) unfolding Aggregate_def m5_def m4_def m3_def m2_def m1_def R_def H_def D_def
    by (simp add: insertAggregate_ok delete_metrics_ok Let_def)
  have k2: "of_kind ''raw'' m2 = filter (\<lambda>m. R \<le> mtTs m) raw" "of_kind ''hourly'' m2 = hourly" "of_kind ''daily'' m2 = of_kind ''daily'' (pnMetrics d)"
    unfolding m2_def of_kind_deleted m1_def of_kind_append of_kind_aggregates raw_def hourly_def
    using aggregates_of_kind [of "''hourly''" "''raw''" R 3600 "pnMetrics d"] by simp_all
  have k3: "of_kind ''raw'' m3 = filter (\<lambda>m. R \<le> mtTs m) raw" "of_kind ''hourly'' m3 = hourly" "of_kind ''daily'' m3 = daily"
    unfolding m3_def of_kind_append of_kind_aggregates daily_def k2
    using aggregates_of_kind [of "''daily''" "''hourly''" H 86400 m2] k2(2) by simp_all
  have k5: "of_kind ''raw'' m5 = filter (\<lambda>m. R \<le> mtTs m) raw" "of_kind ''hourly'' m5 = filter (\<lambda>m. H \<le> mtTs m) hourly"
    "of_kind ''daily'' m5 = filter (\<lambda>m. D \<le> mtTs m) daily"
    unfolding m5_def m4_def of_kind_deleted k3 by simp_all
  have "ok" "d' = d\<lparr>pnMetrics := m5\<rparr>" using assms(2) run by auto
  then show "ok" "of_kind ''raw'' (pnMetrics d') = filter (\<lambda>m. R \<le> mtTs m) raw"
    "of_kind ''hourly'' (pnMetrics d') = filter (\<lambda>m. H \<le> mtTs m) hourly" "of_kind ''daily'' (pnMetrics d') = filter (\<lambda>m. D \<le> mtTs m) daily"
    using k5 by simp_all
qed


text \<open>The aggregation is not a transaction. When the deletion of the raw rows fails after their means were inserted, the raw rows stay and the
  next run, an hour later, inserts the means again: every node and hour concerned has two hourly rows, and nothing ever removes one.\<close>

theorem failed_delete_aggregates_twice:
  assumes "pnFaults d = [False, True]" and "Aggregate days_ago now rawDays hourlyDays dailyDays d = (ok, d1)"
    and "Aggregate days_ago later rawDays hourlyDays dailyDays d1 = (ok', d2)" and "days_ago now rawDays \<le> days_ago later rawDays"
    and "m \<in> set (pnMetrics d)" and "mtGranularity m = ''raw''" and "mtTs m < days_ago now rawDays"
    and "days_ago later hourlyDays \<le> bucket_start 3600 (mtTs m)"
  shows "\<not> ok \<and> ok' \<and>
    2 \<le> length (filter (\<lambda>r. mtGranularity r = ''hourly'' \<and> mtNodeID r = mtNodeID m \<and> mtTs r = bucket_start 3600 (mtTs m)) (pnMetrics d2))"
proof -
  let ?R = "days_ago now rawDays" and ?R' = "days_ago later rawDays" and ?H = "days_ago later hourlyDays"
  have d1: "\<not> ok" "d1 = d\<lparr>pnFaults := [], pnMetrics := pnMetrics d @ aggregates ''hourly'' ''raw'' ?R 3600 (pnMetrics d)\<rparr>"
    using assms(1,2) by (auto simp: Aggregate_def insertAggregate_def delete_metrics_def nodeStatement_def)
  then have f: "pnFaults d1 = []" by simp
  note ag = Aggregate_kinds [OF f assms(3)]
  have raw: "of_kind ''raw'' (pnMetrics d1) = of_kind ''raw'' (pnMetrics d)" unfolding d1(2) by (simp add: of_kind_aggregates)
  have m: "m \<in> set (of_kind ''raw'' (pnMetrics d))" using assms(5,6) by (simp add: of_kind_def)
  have key: "\<exists>r\<in>set (aggregates ''hourly'' ''raw'' cutoff 3600 ms). mtNodeID r = mtNodeID m \<and> mtTs r = bucket_start 3600 (mtTs m) \<and> mtGranularity r = ''hourly''"
    if "m \<in> set (of_kind ''raw'' ms)" "mtTs m < cutoff" for cutoff ms
  proof -
    have "metric_group 3600 m \<in> metric_group 3600 ` set (source_rows ''raw'' cutoff ms)" using that by (auto simp: source_rows_def of_kind_def)
    then have "metric_group 3600 m \<in> (\<lambda>r. (mtNodeID r, mtTs r)) ` set (aggregates ''hourly'' ''raw'' cutoff 3600 ms)"
      using aggregates_complete [of "''hourly''" "''raw''" cutoff 3600 ms] by (simp only: set_map)
    then obtain r where r: "metric_group 3600 m = (mtNodeID r, mtTs r)" "r \<in> set (aggregates ''hourly'' ''raw'' cutoff 3600 ms)"
      by (rule imageE)
    show ?thesis
    proof (rule bexI [OF _ r(2)])
      have "mtGranularity r = ''hourly''" using aggregates_sound [OF r(2)] by blast
      then show "mtNodeID r = mtNodeID m \<and> mtTs r = bucket_start 3600 (mtTs m) \<and> mtGranularity r = ''hourly''"
        using r(1) by (simp add: metric_group_def)
    qed
  qed
  let ?P = "\<lambda>r. mtGranularity r = ''hourly'' \<and> mtNodeID r = mtNodeID m \<and> mtTs r = bucket_start 3600 (mtTs m)"
  have kinds: "of_kind ''hourly'' (pnMetrics d1) = of_kind ''hourly'' (pnMetrics d) @ aggregates ''hourly'' ''raw'' ?R 3600 (pnMetrics d)"
    unfolding d1(2) by (simp add: of_kind_aggregates)
  obtain r1 where r1: "r1 \<in> set (of_kind ''hourly'' (pnMetrics d1))" "?P r1"
    using key [OF m assms(7)] unfolding kinds set_append by blast
  have m': "m \<in> set (of_kind ''raw'' (of_kind ''raw'' (pnMetrics d)))" "mtTs m < ?R'" using m assms(4,6,7) by (auto simp: of_kind_def)
  obtain r2 where r2: "r2 \<in> set (aggregates ''hourly'' ''raw'' ?R' 3600 (of_kind ''raw'' (pnMetrics d1)))" "?P r2"
    using key [OF m'] unfolding raw by blast
  have one: "1 \<le> length (filter ?P xs)" if "r \<in> set xs" "?P r" for r xs
  proof -
    have "filter ?P xs \<noteq> []" using that by (auto simp: filter_empty_conv)
    then show ?thesis by (simp add: Suc_le_eq)
  qed
  have "filter ?P (pnMetrics d2) = filter ?P (of_kind ''hourly'' (pnMetrics d2))"
    unfolding of_kind_def filter_filter by (rule filter_cong) auto
  also have "\<dots> = filter ?P (filter (\<lambda>m. ?H \<le> mtTs m) (of_kind ''hourly'' (pnMetrics d1) @ aggregates ''hourly'' ''raw'' ?R' 3600 (of_kind ''raw'' (pnMetrics d1))))"
    by (simp only: ag(3))
  also have "\<dots> = filter ?P (of_kind ''hourly'' (pnMetrics d1) @ aggregates ''hourly'' ''raw'' ?R' 3600 (of_kind ''raw'' (pnMetrics d1)))"
    unfolding filter_filter by (rule filter_cong) (use assms(8) in auto)
  finally have "length (filter ?P (pnMetrics d2)) =
    length (filter ?P (of_kind ''hourly'' (pnMetrics d1))) + length (filter ?P (aggregates ''hourly'' ''raw'' ?R' 3600 (of_kind ''raw'' (pnMetrics d1))))"
    by simp
  then show ?thesis using one [OF r1] one [OF r2] d1(1) ag(1) by linarith
qed

text \<open>Settings are stored as they come. A number of days below zero is accepted and written to the configuration, and at the next aggregation
  the cutoff lies in the future: every raw measurement is compacted, those of the running hour as well, until the setting is corrected.\<close>

theorem negative_retention_is_accepted:
  assumes "ssFaults s = []" and "r < 0"
    and "handleSettingsPatch E path (Some \<lparr>spNodeTimeout = None, spRetention = Some (Some r, None, None), spAlert = None\<rparr>) part s = (reply, s')"
    and "pnFaults d = []" and "now div second < days_ago now r" and "\<forall>m\<in>set (pnMetrics d). mtTs m \<le> now div second"
    and "Aggregate days_ago now (cfgRawDays (ssConfig s')) (cfgHourlyDays (ssConfig s')) (cfgDailyDays (ssConfig s')) d = (ok, d')"
  shows "succeeded reply \<and> (path \<noteq> [] \<longrightarrow> ssFile s' = ceEncode E (ssConfig s')) \<and> ok \<and> of_kind ''raw'' (pnMetrics d') = []"
proof -
  have s: "succeeded reply" "cfgRawDays (ssConfig s') = r" "path \<noteq> [] \<longrightarrow> ssFile s' = ceEncode E (ssConfig s')"
    using assms(1,3) by (auto simp: handleSettingsPatch_def patch_config_def or_keep_def settings_fault_def Let_def split: if_splits)
  have "of_kind ''raw'' (pnMetrics d') = filter (\<lambda>m. days_ago now r \<le> mtTs m) (of_kind ''raw'' (pnMetrics d))" "ok"
    using Aggregate_kinds [OF assms(4,7)] s(2) by auto
  moreover have "filter (\<lambda>m. days_ago now r \<le> mtTs m) (of_kind ''raw'' (pnMetrics d)) = []"
    using assms(5,6) by (force simp: filter_empty_conv of_kind_def)
  ultimately show ?thesis using s by simp
qed

subsection \<open>Concrete instances\<close>

definition sample_metric :: "bytes \<Rightarrow> int \<Rightarrow> metric_row" where
  "sample_metric g ts = \<lparr>mtNodeID = ''n1'', mtTs = ts, mtGranularity = g, mtLoad1 = 1, mtLoad5 = 0, mtLoad15 = 0, mtMemUsedPct = 0, mtDiskUsedPct = 0, mtServices = []\<rparr>"

definition sample_metrics_db :: panel_db where
  "sample_metrics_db = sample_panel_db\<lparr>pnMetrics := [sample_metric ''raw'' 3700, sample_metric ''raw'' 3800, sample_metric ''raw'' 7300]\<rparr>"

definition plain_days :: "int \<Rightarrow> int \<Rightarrow> int" where
  "plain_days now n = now div second - n * 86400"


theorem failed_delete_aggregates_twice_witness:
  "2 \<le> length (filter (\<lambda>r. mtGranularity r = ''hourly'' \<and> mtNodeID r = ''n1'' \<and> mtTs r = 3600)
     (pnMetrics (snd (Aggregate plain_days ((86400 + 10800) * second) 1 30 365
        (snd (Aggregate plain_days ((86400 + 7200) * second) 1 30 365 (sample_metrics_db\<lparr>pnFaults := [False, True]\<rparr>)))))))"
proof -
  let ?d = "sample_metrics_db\<lparr>pnFaults := [False, True]\<rparr>" and ?m = "sample_metric ''raw'' 3700"
  have f: "pnFaults ?d = [False, True]" by simp
  have cut: "plain_days ((86400 + 7200) * second) 1 \<le> plain_days ((86400 + 10800) * second) 1"
    "mtTs ?m < plain_days ((86400 + 7200) * second) 1" "plain_days ((86400 + 10800) * second) 30 \<le> bucket_start 3600 (mtTs ?m)"
    by (simp_all add: plain_days_def sample_metric_def bucket_start_def)
  have m: "?m \<in> set (pnMetrics ?d)" "mtGranularity ?m = ''raw''" by (simp_all add: sample_metrics_db_def sample_metric_def)
  have k: "mtNodeID ?m = ''n1''" "bucket_start 3600 (mtTs ?m) = 3600" by (simp_all add: sample_metric_def bucket_start_def)
  have run: "Aggregate plain_days t 1 30 365 db = (fst (Aggregate plain_days t 1 30 365 db), snd (Aggregate plain_days t 1 30 365 db))" for t db
    by (rule surjective_pairing)
  from failed_delete_aggregates_twice [OF f run run cut(1) m cut(2,3)] show ?thesis unfolding k by blast
qed

definition sample_settings :: settings_state where
  "sample_settings = \<lparr>ssConfig = DefaultConfig, ssFile = [], ssFaults = []\<rparr>"

definition sample_config_env :: config_env where
  "sample_config_env = \<lparr>ceDecode = (\<lambda>b c. Some c), ceEncode = (\<lambda>c. ''toml''), ceURL = (\<lambda>_. None), ceDuration = (\<lambda>_. Some second)\<rparr>"

theorem negative_retention_is_accepted_witness:
  "\<exists>s'. handleSettingsPatch sample_config_env ''config.toml'' (Some \<lparr>spNodeTimeout = None, spRetention = Some (Some (- 1), None, None), spAlert = None\<rparr>) []
       sample_settings = (Success 200 (settingsMap (ssConfig s')), s') \<and> cfgRawDays (ssConfig s') = - 1 \<and>
     of_kind ''raw'' (pnMetrics (snd (Aggregate plain_days (7300 * second) (- 1) 30 365 sample_metrics_db))) = []"
proof -
  let ?p = "\<lparr>spNodeTimeout = None, spRetention = Some (Some (- 1), None, None), spAlert = None\<rparr>"
  let ?r = "handleSettingsPatch sample_config_env ''config.toml'' (Some ?p) [] sample_settings"
  have s: "fst ?r = Success 200 (settingsMap (ssConfig (snd ?r)))" "cfgRawDays (ssConfig (snd ?r)) = - 1"
    "cfgHourlyDays (ssConfig (snd ?r)) = 30" "cfgDailyDays (ssConfig (snd ?r)) = 365"
    by (simp_all add: handleSettingsPatch_def sample_settings_def patch_config_def or_keep_def settings_fault_def DefaultConfig_def)
  have f: "ssFaults sample_settings = []" "pnFaults sample_metrics_db = []" "(- 1 :: int) < 0"
    by (simp_all add: sample_settings_def sample_metrics_db_def sample_panel_db_def)
  have t: "7300 * second div second < plain_days (7300 * second) (- 1)" "\<forall>m\<in>set (pnMetrics sample_metrics_db). mtTs m \<le> 7300 * second div second"
    by (simp_all add: plain_days_def sample_metrics_db_def sample_metric_def)
  have patch: "?r = (fst ?r, snd ?r)" by (rule surjective_pairing)
  have run: "Aggregate plain_days u x y z db = (fst (Aggregate plain_days u x y z db), snd (Aggregate plain_days u x y z db))" for u x y z db
    by (rule surjective_pairing)
  from negative_retention_is_accepted [OF f(1,3) patch f(2) t run]
  have "of_kind ''raw'' (pnMetrics (snd (Aggregate plain_days (7300 * second) (- 1) 30 365 sample_metrics_db))) = []"
    unfolding s by blast
  then show ?thesis using s by (intro exI [of _ "snd ?r"]) (metis prod.collapse)
qed

end
