(* ===== verification/Spec2Isabelle.thy ===== *)
theory Spec2Isabelle
  imports Dispatcher GeoRefresher Alert AgentRun WsClient Detect PanelReleases PanelNodes PanelSettings
begin

text \<open>
  Verification development of net-probe (module \<open>github.com/s2005lg/net-probe\<close>), a monitoring system of two programs. The Agent
  (\<open>cmd/net-probe\<close>) runs on every host, detects its proxy services, reports them and executes signed commands. The Panel
  (\<open>cmd/net-probe-panel\<close>) enrolls Agents, stores their reports in SQLite, raises alerts and sends commands. A root helper
  (\<open>cmd/net-probe-update-helper\<close>) installs the updates that an Agent has staged. Paths below are relative to \<open>src/internal\<close>.

  \<^bold>\<open>Conventions.\<close> Go strings and byte slices are lists of 8-bit characters, \<open>int64\<close> and \<open>uint64\<close> are 64-bit words where their width matters
  and integers elsewhere; durations are nanoseconds. A finite float is the real number it denotes. A Go error is the left side of a sum,
  \<open>None\<close>, or an error code; an HTTP handler returns an \<open>api_reply\<close> with its status and code. State is passed explicitly. Everything that is
  not in the repository is a parameter: JSON, TOML, YAML, X.509, PEM, SHA-256, Ed25519, bcrypt, URL and duration texts, regular expressions,
  the HTTP client, the clock and random bytes. They are fields of small records (\<open>crypto\<close>, \<open>pki_env\<close>, \<open>identity_crypto\<close>, \<open>node_env\<close> and so
  on); a property that relies on their documented behaviour names it as a hypothesis (\<open>key_pair\<close>, \<open>crypto_sizes\<close>, \<open>pki_laws\<close>) and has a
  witness with a concrete instance.

  \<^bold>\<open>Failures.\<close> Every system call, SQL statement or network operation that can fail consumes one entry of a list of faults in the state, \<open>True\<close>
  for a failure; the empty list means that nothing fails any more. The properties hold for every such list unless they say otherwise.
  Operations that run concurrently are steps of a relation, or operations of a list that is run in any order; what the code does under a mutex
  or in one transaction is one step.

  \<^bold>\<open>Fuel and termination.\<close> Every definition is total. Loops of the source recurse on their input, on the list of events, or with a proved measure.
  The loops that wait for the outside world (\<open>clientRun\<close>, the select loops, \<open>WaitProof\<close>, the polls of an upgrade) recurse on the list of
  events, answers or polls they get, which is the only bound. The only further fuel is that of \<open>backoff_loop\<close> and \<open>delay_loop\<close>, the number of
  the attempt in the source.

  \<^bold>\<open>Shared theories.\<close> \<open>NP_Prelude\<close>: types, collections of facts and generic lemmas. \<open>GoStrings\<close>, \<open>GoEncoding\<close>, \<open>Paths\<close>: the functions of the
  standard library that the sources call (\<open>strings\<close>, \<open>strconv\<close>, \<open>hex\<close>, \<open>base64\<close>, \<open>binary\<close>, \<open>filepath\<close>). \<open>Files\<close>: directories.

  \<^bold>\<open>Control channel.\<close> \<open>ControlProto\<close> (\<open>controlproto\<close>): messages, strict decoding and what a signature covers. \<open>CommandStore\<close>
  (\<open>panel/command/store.go\<close>, with the constraints and triggers of \<open>panel/db/db.go\<close>): the life of a command and its audit trail. \<open>Hub\<close>
  (\<open>panel/control/hub.go\<close>): at most one session per Agent; it interprets the locale \<open>command_sender\<close>, from which \<open>Dispatcher\<close>
  (\<open>panel/command/dispatcher.go\<close>) proves that only authorized commands are delivered. \<open>ControlSession\<close> (\<open>panel/api/control.go\<close>): the handler
  of a connection in atomic stages, interleaved with all others. \<open>ControlClient\<close> (\<open>agent/control.go\<close>): the Agent's end and the
  handshake of both ends. \<open>WsClient\<close> (\<open>wsclient\<close>): frames, fragmentation, pings and limits. \<open>CommandExecutor\<close> (\<open>agent/commands.go\<close>):
  commands run at most once, in the order of their sequence numbers, across restarts and failing writes of the state file.

  \<^bold>\<open>Reports.\<close> \<open>DetectUnits\<close>, \<open>DetectStats\<close>, \<open>Detect\<close> (\<open>detect\<close>, \<open>collect\<close>, \<open>report\<close>): units, sockets, protocols, certificates, counters and
  the report built from them. \<open>Egress\<close> (\<open>egressip\<close>, \<open>urlpolicy\<close>, \<open>panel/geo/geo.go\<close>): public addresses with their cache and retries.
  \<open>Outbox\<close> (\<open>agent/outbox.go\<close>) interprets the locale \<open>report_queue\<close> of \<open>ReportQueue\<close>, from which \<open>Reporter\<close> (\<open>agent/reporter.go\<close>) proves that
  no report is lost. \<open>Scheduler\<close> (\<open>agent/scheduler.go\<close>, \<open>retrybackoff\<close>): a step relation of the loop and its callers.

  \<^bold>\<open>Life of an Agent.\<close> \<open>Auth\<close> (\<open>panel/auth\<close>): roles. \<open>Enrollment\<close> (\<open>panel/api/enrollment.go\<close>, \<open>agentauth.go\<close>, \<open>panel/pki\<close>): codes that work
  once, certificates, renewal, revocation. \<open>AgentIdentity\<close> (\<open>agent/identity.go\<close>): the files of an enrolled Agent and the pinned CA.
  \<open>AgentConfig\<close> (\<open>config\<close>, \<open>sink\<close>), \<open>Runtime\<close> (\<open>agent/runtime.go\<close>), \<open>AgentRun\<close> (\<open>agent/run.go\<close>, \<open>selfcheck.go\<close>, \<open>cmd/net-probe\<close>):
  configuration, reloads, single runs and the command line.

  \<^bold>\<open>Updates.\<close> \<open>UpdateManifest\<close> (\<open>update/manifest.go\<close>): canonical manifests, versions and verification. \<open>UpdateState\<close> (\<open>update/state.go\<close>): the
  request an Agent stages. \<open>UpdateHelper\<close> (\<open>update/helper.go\<close>): the transaction over the locale \<open>helper_contract\<close>, extended by
  \<open>helper_invariant\<close>. \<open>RootHelper\<close> (\<open>update/root.go\<close>) interprets both on the root system. \<open>Upgrade\<close> (\<open>agent/upgrade.go\<close>): the Agent's side, run
  against the root helper's transaction.

  \<^bold>\<open>Panel.\<close> \<open>PanelSessions\<close> (\<open>panel/api/api.go\<close>, login and logout of \<open>admin.go\<close>): routes, guards and sessions; a history of successful requests
  explains every session that is accepted. \<open>PanelReleases\<close> (\<open>releases.go\<close>, \<open>commands.go\<close>): imports, upgrades, commands. \<open>PanelNodes\<close>
  (\<open>report.go\<close>, the nodes, tags, metrics, versions and lists of \<open>admin.go\<close>). \<open>PanelSettings\<close> (\<open>panel/config\<close>, settings, \<open>panel/retention\<close>,
  \<open>panel/version\<close>, \<open>cmd/net-probe-panel\<close>). \<open>Alert\<close> (\<open>panel/alert\<close>): a state machine per node and rule that the evaluation refines.
  \<open>NetAddr\<close> (\<open>netaddr\<close>, \<open>panel/geo/address.go\<close>) and \<open>GeoRefresher\<close> (\<open>panel/geo/refresher.go\<close>): public addresses and their locations.

  \<^bold>\<open>Lemmas.\<close> Each theory has, in this order: its state and operations as the source has them; an invariant or a description of every branch
  with the lemma of each operation; the properties, each numbered in the text above it and followed by a witness on concrete data. A theorem
  with a text but no number is a further result of its theory, among them behaviour that is probably not wanted.

  \<^bold>\<open>Not modelled.\<close> Logging (\<open>logx\<close>), notification of systemd (\<open>sdnotify.go\<close>), the static files and TLS parameters of the web server, the
  migration of old databases (the constraints of the current schema are part of the operations that meet them), the creation of the Panel's own key
  files, the release tool and the flag parsing of the update helper. They are input and output or calls of libraries.
\<close>

end
